(* ===== verification/MW_Prelude.thy ===== *)
theory MW_Prelude
  imports Main "HOL-Library.Word" "HOL-Library.Multiset"
begin

text \<open>
  Shared vocabulary of the development: the error categories of error.rs and the result type
  built on them, checked 64-bit arithmetic, and the execution monad in which the code that
  polls a cancellation token, reserves memory or creates byte owners is written. The
  predicate \<open>delivers\<close> is the total-correctness judgement used for that code, and the lemmas
  collected in \<open>delivers_intros\<close> are its rules.
\<close>

named_theorems checked_simps "checked arithmetic and machine bounds"
named_theorems result_simps "inversion of results"
named_theorems delivers_intros "rules of the execution judgement"
named_theorems meets_intros "rules of the limit judgement"

section \<open>Errors and results\<close>

text \<open>
  error.rs: an error is classified by a stable category, which is what callers may act on.
  Messages, sources and backtraces add context only, so an error value is its category.
\<close>

datatype ErrorCategory =
    Io | InvalidPath | InvalidFormat | Integrity | ResourceLimit
  | Binding | Unsupported | Cache | Cancelled | Delivery

definition is_cancelled_error :: "ErrorCategory \<Rightarrow> bool" where
  "is_cancelled_error c = (c = Cancelled)"

definition is_invalid :: "ErrorCategory \<Rightarrow> bool" where
  "is_invalid c = (c \<in> {InvalidPath, InvalidFormat, Integrity, Binding})"

definition is_unsupported :: "ErrorCategory \<Rightarrow> bool" where
  "is_unsupported c = (c = Unsupported)"

type_synonym 'a result = "ErrorCategory + 'a"

text \<open>The question-mark operator: an error returns early, a value continues.\<close>

definition bindR :: "'a result \<Rightarrow> ('a \<Rightarrow> 'b result) \<Rightarrow> 'b result" where
  "bindR m f = (case m of Inl e \<Rightarrow> Inl e | Inr x \<Rightarrow> f x)"

text \<open>An early return of an error unless the condition holds.\<close>

definition ensure :: "bool \<Rightarrow> ErrorCategory \<Rightarrow> unit result" where
  "ensure c e = (if c then Inr () else Inl e)"

text \<open>\<open>Option::ok_or_else\<close>.\<close>

definition ok_or :: "ErrorCategory \<Rightarrow> 'a option \<Rightarrow> 'a result" where
  "ok_or e x = (case x of None \<Rightarrow> Inl e | Some v \<Rightarrow> Inr v)"

text \<open>\<open>Iterator::try_fold\<close> and fallible \<open>for\<close> loops.\<close>

primrec foldR :: "('a \<Rightarrow> 's \<Rightarrow> 's result) \<Rightarrow> 'a list \<Rightarrow> 's \<Rightarrow> 's result" where
  "foldR f [] s = Inr s"
| "foldR f (x # xs) s = bindR (f x s) (\<lambda>s'. foldR f xs s')"

text \<open>\<open>map(..).collect::<Result<Vec<_>>>()\<close>.\<close>

primrec mapR :: "('a \<Rightarrow> 'b result) \<Rightarrow> 'a list \<Rightarrow> 'b list result" where
  "mapR f [] = Inr []"
| "mapR f (x # xs) = bindR (f x) (\<lambda>y. bindR (mapR f xs) (\<lambda>ys. Inr (y # ys)))"

lemma bindR_simps [simp]:
  "bindR (Inl e) f = Inl e" "bindR (Inr x) f = f x"
  by (simp_all add: bindR_def)

lemma bindR_id [simp]: "bindR m Inr = m"
  by (cases m) simp_all

lemma bindR_assoc: "bindR (bindR m f) h = bindR m (\<lambda>x. bindR (f x) h)"
  by (cases m) simp_all

lemma bindR_Inr [result_simps]: "bindR m f = Inr y \<longleftrightarrow> (\<exists>x. m = Inr x \<and> f x = Inr y)"
  by (cases m) auto

lemma bindR_Inl [result_simps]:
  "bindR m f = Inl e \<longleftrightarrow> m = Inl e \<or> (\<exists>x. m = Inr x \<and> f x = Inl e)"
  by (cases m) auto

lemma bindR_cong [fundef_cong]:
  "m = m' \<Longrightarrow> (\<And>x. m' = Inr x \<Longrightarrow> f x = f' x) \<Longrightarrow> bindR m f = bindR m' f'"
  by (cases m') auto

lemma ensure_Inr [simp, result_simps]: "ensure c e = Inr u \<longleftrightarrow> c"
  by (simp add: ensure_def)

lemma ensure_Inl [result_simps]: "ensure c e = Inl e' \<longleftrightarrow> \<not> c \<and> e' = e"
  by (auto simp: ensure_def)

lemma ensure_eval [simp]:
  "c \<Longrightarrow> ensure c e = Inr ()" "\<not> c \<Longrightarrow> ensure c e = Inl e"
  by (simp_all add: ensure_def)

lemma ok_or_simps [simp]: "ok_or e None = Inl e" "ok_or e (Some v) = Inr v"
  by (simp_all add: ok_or_def)

lemma ok_or_Inr [simp, result_simps]: "ok_or e x = Inr v \<longleftrightarrow> x = Some v"
  by (cases x) auto

lemma ok_or_Inl [result_simps]: "ok_or e x = Inl e' \<longleftrightarrow> x = None \<and> e' = e"
  by (cases x) auto

lemma foldR_append: "foldR f (xs @ ys) s = bindR (foldR f xs s) (\<lambda>s'. foldR f ys s')"
proof (induction xs arbitrary: s)
  case Nil
  then show ?case by simp
next
  case (Cons x xs)
  then show ?case by (cases "f x s") auto
qed

lemma mapR_Inr:
  "mapR f xs = Inr ys \<longleftrightarrow> length ys = length xs \<and> (\<forall>i < length xs. f (xs ! i) = Inr (ys ! i))"
proof (induction xs arbitrary: ys)
  case Nil
  then show ?case by auto
next
  case (Cons x xs)
  show ?case
  proof (cases ys)
    case Nil
    then show ?thesis by (simp add: bindR_Inr)
  next
    case (Cons y ys')
    have "mapR f (x # xs) = Inr ys \<longleftrightarrow> f x = Inr y \<and> mapR f xs = Inr ys'"
      using Cons by (auto simp: bindR_Inr)
    then show ?thesis
      using Cons by (auto simp: Cons.IH nth_Cons split: nat.splits)
  qed
qed

lemma mapR_all_Inr: "(\<And>x. x \<in> set xs \<Longrightarrow> f x = Inr (g x)) \<Longrightarrow> mapR f xs = Inr (map g xs)"
  by (induction xs) auto

subsection \<open>Results that fail only on exhausted limits\<close>

text \<open>
  \<open>meets ok m P\<close>: the result \<open>m\<close> is a value that satisfies \<open>P\<close>, or a resource-limit error, and
  the latter only when \<open>ok\<close>, the statement that everything fits its machine type, is false.
\<close>

definition meets :: "bool \<Rightarrow> 'a result \<Rightarrow> ('a \<Rightarrow> bool) \<Rightarrow> bool" where
  "meets ok m P = (case m of Inl e \<Rightarrow> e = ResourceLimit \<and> \<not> ok | Inr x \<Rightarrow> P x)"

lemma meets_simps [simp]:
  "meets ok (Inr x) P \<longleftrightarrow> P x" "meets ok (Inl e) P \<longleftrightarrow> e = ResourceLimit \<and> \<not> ok"
  by (simp_all add: meets_def)

lemma meets_bindR [meets_intros]:
  "meets ok m P \<Longrightarrow> (\<And>x. P x \<Longrightarrow> meets ok (f x) Q) \<Longrightarrow> meets ok (bindR m f) Q"
  by (cases m) auto

lemma meets_mono: "meets ok m P \<Longrightarrow> (\<And>x. P x \<Longrightarrow> Q x) \<Longrightarrow> meets ok m Q"
  by (cases m) auto

lemma meets_ok_or [meets_intros]:
  "(\<And>v. x = Some v \<Longrightarrow> P v) \<Longrightarrow> (ok \<Longrightarrow> x \<noteq> None) \<Longrightarrow> meets ok (ok_or ResourceLimit x) P"
  by (cases x) auto

lemma meets_foldR:
  assumes "I 0 s"
    and "\<And>i s. i < length xs \<Longrightarrow> I i s \<Longrightarrow> meets ok (f (xs ! i) s) (I (Suc i))"
  shows "meets ok (foldR f xs s) (I (length xs))"
  using assms
proof (induction xs arbitrary: s I)
  case Nil
  then show ?case by simp
next
  case (Cons x xs)
  have "meets ok (f x s) (I (Suc 0))"
    using Cons.prems(1) Cons.prems(2)[of 0 s] by simp
  moreover have "meets ok (foldR f xs s') (I (length (x # xs)))" if "I (Suc 0) s'" for s'
    using Cons.IH[of "\<lambda>i. I (Suc i)" s'] that Cons.prems(2)[of "Suc _"] by simp
  ultimately show ?case by (simp add: meets_bindR)
qed

lemma meets_Inr: "meets ok m P \<Longrightarrow> m = Inr x \<Longrightarrow> P x"
  by simp

lemma meets_ok: "meets True m P \<Longrightarrow> \<exists>x. m = Inr x \<and> P x"
  by (cases m) auto

section \<open>Checked machine arithmetic\<close>

text \<open>
  Unsigned integers are natural numbers with the bounds written out. \<open>usize\<close> is the 64-bit
  type of the supported hosts. Unchecked subtraction of the source is written with its
  wrap-around where the operands are not known to be ordered.
\<close>

definition u64_bound :: nat where [checked_simps]: "u64_bound = 2 ^ 64"
definition u32_bound :: nat where [checked_simps]: "u32_bound = 2 ^ 32"
definition usize_bound :: nat where [checked_simps]: "usize_bound = 2 ^ 64"

definition checked_add :: "nat \<Rightarrow> nat \<Rightarrow> nat option" where
  [checked_simps]: "checked_add a b = (if a + b < u64_bound then Some (a + b) else None)"

definition checked_mul :: "nat \<Rightarrow> nat \<Rightarrow> nat option" where
  [checked_simps]: "checked_mul a b = (if a * b < u64_bound then Some (a * b) else None)"

definition checked_sub :: "nat \<Rightarrow> nat \<Rightarrow> nat option" where
  [checked_simps]: "checked_sub a b = (if b \<le> a then Some (a - b) else None)"

definition saturating_add :: "nat \<Rightarrow> nat \<Rightarrow> nat" where
  [checked_simps]: "saturating_add a b = min (a + b) (u64_bound - 1)"

definition saturating_mul :: "nat \<Rightarrow> nat \<Rightarrow> nat" where
  [checked_simps]: "saturating_mul a b = min (a * b) (u64_bound - 1)"

definition wrapping_sub :: "nat \<Rightarrow> nat \<Rightarrow> nat" where
  [checked_simps]: "wrapping_sub a b = (if b \<le> a then a - b else a + u64_bound - b)"

definition u32_try_from :: "nat \<Rightarrow> nat result" where
  [checked_simps]: "u32_try_from n = (if n < u32_bound then Inr n else Inl ResourceLimit)"

definition usize_try_from :: "nat \<Rightarrow> nat result" where
  [checked_simps]: "usize_try_from n = (if n < usize_bound then Inr n else Inl ResourceLimit)"

definition u64_try_from :: "nat \<Rightarrow> nat result" where
  [checked_simps]: "u64_try_from n = (if n < u64_bound then Inr n else Inl ResourceLimit)"

lemma checked_Some [result_simps]:
  "checked_add a b = Some c \<longleftrightarrow> c = a + b \<and> a + b < u64_bound"
  "checked_mul a b = Some c \<longleftrightarrow> c = a * b \<and> a * b < u64_bound"
  "checked_sub a b = Some c \<longleftrightarrow> c = a - b \<and> b \<le> a"
  by (auto simp: checked_add_def checked_mul_def checked_sub_def)

lemma checked_None [result_simps]:
  "checked_add a b = None \<longleftrightarrow> u64_bound \<le> a + b"
  "checked_mul a b = None \<longleftrightarrow> u64_bound \<le> a * b"
  "checked_sub a b = None \<longleftrightarrow> a < b"
  by (auto simp: checked_add_def checked_mul_def checked_sub_def)

lemma checked_ok:
  "a + b < u64_bound \<Longrightarrow> checked_add a b = Some (a + b)"
  "a * b < u64_bound \<Longrightarrow> checked_mul a b = Some (a * b)"
  "b \<le> a \<Longrightarrow> checked_sub a b = Some (a - b)"
  by (simp_all add: checked_Some)

lemma try_from_Inr [result_simps]:
  "u32_try_from n = Inr m \<longleftrightarrow> m = n \<and> n < u32_bound"
  "usize_try_from n = Inr m \<longleftrightarrow> m = n \<and> n < usize_bound"
  "u64_try_from n = Inr m \<longleftrightarrow> m = n \<and> n < u64_bound"
  by (auto simp: u32_try_from_def usize_try_from_def u64_try_from_def)

lemma try_from_ok:
  "n < u32_bound \<Longrightarrow> u32_try_from n = Inr n"
  "n < usize_bound \<Longrightarrow> usize_try_from n = Inr n"
  "n < u64_bound \<Longrightarrow> u64_try_from n = Inr n"
  by (simp_all add: try_from_Inr)

lemma usize_is_u64: "usize_bound = u64_bound"
  by (simp add: usize_bound_def u64_bound_def)

lemma u32_lt_u64: "n < u32_bound \<Longrightarrow> n < u64_bound"
  by (simp add: u32_bound_def u64_bound_def)

lemma u64_bound_pos [simp]: "0 < u64_bound"
  by (simp add: u64_bound_def)

lemma one_lt_bounds [simp]:
  "Suc 0 < u64_bound" "0 < u32_bound" "Suc 0 < u32_bound"
  by (simp_all add: u64_bound_def u32_bound_def)

lemma mult_less_bound:
  assumes "a * b < (n :: nat)" and "0 < b"
  shows "a < n"
proof -
  have "a * 1 \<le> a * b" using assms(2) by (intro mult_le_mono2) linarith
  then show ?thesis using assms(1) by linarith
qed

lemma mult_room: "a < b \<Longrightarrow> a * n + n \<le> b * (n :: nat)"
  using mult_le_mono1[of "Suc a" b n] by simp

section \<open>Bytes\<close>

type_synonym u8 = "8 word"

text \<open>\<open>slice.get(start..end)\<close>: \<open>None\<close> outside the slice or when the range is reversed.\<close>

definition get_range :: "'a list \<Rightarrow> nat \<Rightarrow> nat \<Rightarrow> 'a list option" where
  "get_range xs i j = (if i \<le> j \<and> j \<le> length xs then Some (take (j - i) (drop i xs)) else None)"

text \<open>\<open>copy_from_slice\<close> into a sub-slice that starts at \<open>i\<close> and is as long as the source.\<close>

definition put_range :: "'a list \<Rightarrow> nat \<Rightarrow> 'a list \<Rightarrow> 'a list" where
  "put_range xs i ys = take i xs @ ys @ drop (i + length ys) xs"

lemma length_put_range [simp]:
  "i + length ys \<le> length xs \<Longrightarrow> length (put_range xs i ys) = length xs"
  by (simp add: put_range_def)

lemma concat_part_at:
  assumes "i < length xs" and "j + k \<le> length (xs ! i)"
  shows "take k (drop (sum_list (map length (take i xs)) + j) (concat xs)) = take k (drop j (xs ! i))"
proof -
  have "concat xs = concat (take i xs) @ xs ! i @ concat (drop (Suc i) xs)"
    using assms(1) by (metis concat.simps(2) concat_append id_take_nth_drop)
  moreover have "length (concat (take i xs)) = sum_list (map length (take i xs))"
    by (simp add: length_concat)
  ultimately show ?thesis using assms(2) by simp
qed

lemma length_concat_uniform: "\<forall>x \<in> set xs. length x = w \<Longrightarrow> length (concat xs) = length xs * w"
  by (induction xs) simp_all

lemma nth_image_set: "(!) xs ` {..<length xs} = set xs"
  by (auto simp: set_conv_nth)

section \<open>The execution monad\<close>

text \<open>
  Code that takes a \<open>CancellationToken\<close> (cancel.rs) polls a flag that another thread may set
  at any moment and that is never reset, so what a run observes is determined by how many
  polls succeed before the first one that sees the flag: \<open>polls_left\<close>, \<open>None\<close> when the
  flag is never seen. A failed \<open>try_reserve_exact\<close> ends the operation, so the allocator is
  described in the same way by \<open>reserves_left\<close>. \<open>next_owner\<close> names byte owners in creation
  order, which is what pointer comparisons of views observe.
\<close>

record Env =
  polls_left :: "nat option"
  reserves_left :: "nat option"
  next_owner :: nat

type_synonym 'a exec = "Env \<Rightarrow> ErrorCategory + 'a \<times> Env"

definition retE :: "'a \<Rightarrow> 'a exec" where
  "retE x = (\<lambda>e. Inr (x, e))"

definition bindE :: "'a exec \<Rightarrow> ('a \<Rightarrow> 'b exec) \<Rightarrow> 'b exec" where
  "bindE m f = (\<lambda>e. case m e of Inl c \<Rightarrow> Inl c | Inr (x, e') \<Rightarrow> f x e')"

definition liftE :: "'a result \<Rightarrow> 'a exec" where
  "liftE r = (\<lambda>e. case r of Inl c \<Rightarrow> Inl c | Inr x \<Rightarrow> Inr (x, e))"

primrec foldE :: "('a \<Rightarrow> 's \<Rightarrow> 's exec) \<Rightarrow> 'a list \<Rightarrow> 's \<Rightarrow> 's exec" where
  "foldE f [] s = retE s"
| "foldE f (x # xs) s = bindE (f x s) (\<lambda>s'. foldE f xs s')"

primrec mapE :: "('a \<Rightarrow> 'b exec) \<Rightarrow> 'a list \<Rightarrow> 'b list exec" where
  "mapE f [] = retE []"
| "mapE f (x # xs) = bindE (f x) (\<lambda>y. bindE (mapE f xs) (\<lambda>ys. retE (y # ys)))"

text \<open>\<open>CancellationToken::is_cancelled\<close> and \<open>CancellationToken::check\<close>.\<close>

definition is_cancelled :: "Env \<Rightarrow> bool" where
  "is_cancelled e = (polls_left e = Some 0)"

definition check :: "unit exec" where
  "check e = (if is_cancelled e then Inl Cancelled
     else Inr ((), e\<lparr>polls_left := map_option (\<lambda>n. n - 1) (polls_left e)\<rparr>))"

text \<open>\<open>CancellationToken::cancel\<close>: every later poll sees the flag.\<close>

definition cancel :: "Env \<Rightarrow> Env" where
  "cancel e = e\<lparr>polls_left := Some 0\<rparr>"

text \<open>\<open>Vec::try_reserve_exact\<close> mapped to a resource-limit error.\<close>

definition try_reserve :: "nat \<Rightarrow> unit exec" where
  "try_reserve n e = (if reserves_left e = Some 0 then Inl ResourceLimit
     else Inr ((), e\<lparr>reserves_left := map_option (\<lambda>n. n - 1) (reserves_left e)\<rparr>))"

definition fresh_owner :: "nat exec" where
  "fresh_owner e = Inr (next_owner e, e\<lparr>next_owner := Suc (next_owner e)\<rparr>)"

lemma bindE_cong [fundef_cong]:
  "m = m' \<Longrightarrow> (\<And>x e e'. m' e = Inr (x, e') \<Longrightarrow> f x = f' x) \<Longrightarrow> bindE m f = bindE m' f'"
  by (force simp: bindE_def split: sum.splits)

lemma retE_apply [simp]: "retE x e = Inr (x, e)"
  by (simp add: retE_def)

lemma liftE_apply [simp]: "liftE (Inl c) e = Inl c" "liftE (Inr x) e = Inr (x, e)"
  by (simp_all add: liftE_def)

lemma liftE_bind [simp]: "bindE (liftE (Inr x)) f = f x" "bindE (retE x) f = f x"
  by (simp_all add: bindE_def liftE_def retE_def)

lemma bindE_Inr [result_simps]:
  "bindE m f e = Inr r \<longleftrightarrow> (\<exists>x e'. m e = Inr (x, e') \<and> f x e' = Inr r)"
  by (auto simp: bindE_def split: sum.splits)

lemma liftE_Inr [result_simps]: "liftE r e = Inr (x, e') \<longleftrightarrow> r = Inr x \<and> e' = e"
  by (cases r) auto

subsection \<open>The total-correctness judgement\<close>

text \<open>
  An environment without limits never sees a cancellation or a failed reservation.
  \<open>delivers m P\<close>: in such an environment \<open>m\<close> returns a value that satisfies \<open>P\<close>; in any
  other it returns such a value or fails as cancelled or out of resources. In particular
  cancellation and allocation failure never change a delivered value.
\<close>

definition unlimited :: "Env \<Rightarrow> bool" where
  "unlimited e \<longleftrightarrow> polls_left e = None \<and> reserves_left e = None"

definition delivers :: "'a exec \<Rightarrow> ('a \<Rightarrow> bool) \<Rightarrow> bool" where
  "delivers m P \<longleftrightarrow> (\<forall>e.
     (\<exists>x e'. m e = Inr (x, e') \<and> P x \<and> (unlimited e \<longrightarrow> unlimited e')) \<or>
     (\<not> unlimited e \<and> (m e = Inl Cancelled \<or> m e = Inl ResourceLimit)))"

lemma delivers_retE [delivers_intros]: "P x \<Longrightarrow> delivers (retE x) P"
  by (simp add: delivers_def)

lemma delivers_liftE [delivers_intros]: "r = Inr x \<Longrightarrow> P x \<Longrightarrow> delivers (liftE r) P"
  by (simp add: delivers_def)

lemma delivers_check [delivers_intros]: "P () \<Longrightarrow> delivers check P"
  by (auto simp: delivers_def check_def is_cancelled_def unlimited_def)

lemma delivers_try_reserve [delivers_intros]: "P () \<Longrightarrow> delivers (try_reserve n) P"
  by (auto simp: delivers_def try_reserve_def unlimited_def)

lemma delivers_fresh_owner [delivers_intros]: "(\<And>n. P n) \<Longrightarrow> delivers fresh_owner P"
  by (auto simp: delivers_def fresh_owner_def unlimited_def)

lemma delivers_bindE [delivers_intros]:
  assumes "delivers m P" and "\<And>x. P x \<Longrightarrow> delivers (f x) Q"
  shows "delivers (bindE m f) Q"
  unfolding delivers_def
proof
  fix e
  consider (ok) x e' where "m e = Inr (x, e')" "P x" "unlimited e \<longrightarrow> unlimited e'"
    | (err) "\<not> unlimited e" "m e = Inl Cancelled \<or> m e = Inl ResourceLimit"
    using assms(1) unfolding delivers_def by blast
  then show "(\<exists>x e'. bindE m f e = Inr (x, e') \<and> Q x \<and> (unlimited e \<longrightarrow> unlimited e')) \<or>
     (\<not> unlimited e \<and> (bindE m f e = Inl Cancelled \<or> bindE m f e = Inl ResourceLimit))"
  proof cases
    case ok
    then have "bindE m f e = f x e'" by (simp add: bindE_def)
    moreover have "delivers (f x) Q" using ok assms(2) by blast
    ultimately show ?thesis using ok(3) unfolding delivers_def by metis
  next
    case err
    then show ?thesis by (auto simp: bindE_def)
  qed
qed

lemma delivers_mono: "delivers m P \<Longrightarrow> (\<And>x. P x \<Longrightarrow> Q x) \<Longrightarrow> delivers m Q"
  unfolding delivers_def by blast

lemma delivers_foldE:
  assumes "I 0 s"
    and "\<And>i s. i < length xs \<Longrightarrow> I i s \<Longrightarrow> delivers (f (xs ! i) s) (I (Suc i))"
  shows "delivers (foldE f xs s) (I (length xs))"
  using assms
proof (induction xs arbitrary: s I)
  case Nil
  then show ?case by (simp add: delivers_def)
next
  case (Cons x xs)
  have "delivers (f x s) (I (Suc 0))"
    using Cons.prems(1) Cons.prems(2)[of 0 s] by simp
  moreover have "delivers (foldE f xs s') (I (length (x # xs)))" if "I (Suc 0) s'" for s'
    using Cons.IH[of "\<lambda>i. I (Suc i)" s'] that Cons.prems(2)[of "Suc _"] by simp
  ultimately show ?case
    by (simp add: delivers_bindE)
qed

text \<open>Folding over \<open>0..n\<close>, the shape of every element loop of the kernels.\<close>

lemma delivers_for:
  assumes "I 0 s" and "\<And>i s. i < n \<Longrightarrow> I i s \<Longrightarrow> delivers (f i s) (I (Suc i))"
  shows "delivers (foldE f [0..<n] s) (I n)"
  using delivers_foldE[of I s "[0..<n]" f] assms by simp

lemma delivers_result:
  "delivers m P \<Longrightarrow> m e = Inr (x, e') \<Longrightarrow> P x"
  unfolding delivers_def by (metis Inl_Inr_False Inr_inject prod.inject)

lemma delivers_unlimited:
  "delivers m P \<Longrightarrow> unlimited e \<Longrightarrow> \<exists>x e'. m e = Inr (x, e') \<and> P x \<and> unlimited e'"
  unfolding delivers_def by blast

lemma delivers_mapE:
  "list_all2 (\<lambda>x y. delivers (f x) (\<lambda>v. v = y)) xs ys \<Longrightarrow> delivers (mapE f xs) (\<lambda>v. v = ys)"
proof (induction xs ys rule: list_all2_induct)
  case Nil
  then show ?case by (simp add: delivers_retE del: retE_apply)
next
  case (Cons x xs y ys)
  then show ?case
    by (simp del: retE_apply) (rule delivers_bindE, assumption, rule delivers_bindE, assumption, rule delivers_retE, simp)
qed

text \<open>Polls and reservations in front of a computation.\<close>

lemma delivers_after:
  "delivers (f ()) Q \<Longrightarrow> delivers (bindE check f) Q"
  "delivers (f ()) Q \<Longrightarrow> delivers (bindE (try_reserve n) f) Q"
  by (rule delivers_bindE[OF delivers_check[of "\<lambda>_. True"]] delivers_bindE[OF delivers_try_reserve[of "\<lambda>_. True"]]; simp)+

end
