(* ===== verification/MW_Tensor.thy ===== *)
theory MW_Tensor
  imports MW_Prelude
begin

text \<open>
  tensor.rs: scalar dtypes with their exact byte lengths, validated source spans, and byte
  views. A byte view shares an immutable owner and a range into it; the owner's identity is
  kept because the executor compares views by address.
\<close>

named_theorems tensor_simps "unfolding of the tensor descriptors"

section \<open>Scalar dtypes\<close>

datatype DType =
    Bool | U8 | I8 | U16 | I16 | U32 | I32 | U64 | I64
  | F16 | Bf16 | F32 | F64 | C64
  | F8E5M2 | F8E4M3 | F8E8M0 | F8E4M3Fnuz | F8E5M2Fnuz

fun bits :: "DType \<Rightarrow> nat" where
  "bits Bool = 8" | "bits U8 = 8" | "bits I8 = 8"
| "bits F8E5M2 = 8" | "bits F8E4M3 = 8" | "bits F8E8M0 = 8"
| "bits F8E4M3Fnuz = 8" | "bits F8E5M2Fnuz = 8"
| "bits U16 = 16" | "bits I16 = 16" | "bits F16 = 16" | "bits Bf16 = 16"
| "bits U32 = 32" | "bits I32 = 32" | "bits F32 = 32"
| "bits U64 = 64" | "bits I64 = 64" | "bits F64 = 64" | "bits C64 = 64"

text \<open>The checked product of the dimensions, from left to right.\<close>

definition checked_product :: "nat list \<Rightarrow> nat result" where
  "checked_product shape = foldR (\<lambda>d p. ok_or ResourceLimit (checked_mul p d)) shape 1"

definition DType_byte_len :: "DType \<Rightarrow> nat list \<Rightarrow> nat result" where
  "DType_byte_len dt shape =
     bindR (checked_product shape) (\<lambda>elements.
       ok_or ResourceLimit (checked_mul elements (bits dt div 8)))"

section \<open>Source spans\<close>

type_synonym FileId = nat

record SourceSpan =
  span_file :: FileId
  span_offset :: nat
  span_length :: nat

definition SourceSpan_new :: "FileId \<Rightarrow> nat \<Rightarrow> nat \<Rightarrow> SourceSpan result" where
  "SourceSpan_new file offset len =
     bindR (ok_or ResourceLimit (checked_add offset len)) (\<lambda>_.
       Inr \<lparr>span_file = file, span_offset = offset, span_length = len\<rparr>)"

text \<open>\<open>SourceSpan::end\<close> adds without a check; the sum wraps at 64 bits.\<close>

definition span_end :: "SourceSpan \<Rightarrow> nat" where
  "span_end s = (span_offset s + span_length s) mod u64_bound"

text \<open>Deserialization replays the constructor.\<close>

definition SourceSpan_try_from :: "SourceSpan \<Rightarrow> SourceSpan result" where
  "SourceSpan_try_from wire = SourceSpan_new (span_file wire) (span_offset wire) (span_length wire)"

definition wf_span :: "SourceSpan \<Rightarrow> bool" where
  "wf_span s \<longleftrightarrow> span_offset s + span_length s < u64_bound"

section \<open>Byte views\<close>

record ByteView =
  view_owner :: nat
  owner_bytes :: "u8 list"
  range_start :: nat
  range_end :: nat

definition as_slice :: "ByteView \<Rightarrow> u8 list" where
  "as_slice v = take (range_end v - range_start v) (drop (range_start v) (owner_bytes v))"

definition view_len :: "ByteView \<Rightarrow> nat" where
  "view_len v = range_end v - range_start v"

text \<open>
  \<open>ByteView::from_boxed\<close>: a new owner. All empty boxed slices share one dangling address,
  written as owner 0; the others are named from 1 on.
\<close>

definition from_boxed :: "u8 list \<Rightarrow> ByteView exec" where
  "from_boxed bytes = bindE fresh_owner (\<lambda>n.
     retE \<lparr>view_owner = (if bytes = [] then 0 else Suc n), owner_bytes = bytes,
           range_start = 0, range_end = length bytes\<rparr>)"

definition from_owner :: "nat \<Rightarrow> u8 list \<Rightarrow> nat \<Rightarrow> nat \<Rightarrow> ByteView result" where
  "from_owner owner bytes s t =
     bindR (ensure (\<not> (s > t \<or> t > length bytes)) InvalidFormat) (\<lambda>_.
       Inr \<lparr>view_owner = owner, owner_bytes = bytes, range_start = s, range_end = t\<rparr>)"

definition view_slice :: "ByteView \<Rightarrow> nat \<Rightarrow> nat \<Rightarrow> ByteView result" where
  "view_slice v s t =
     bindR (ensure (\<not> (s > t \<or> t > view_len v)) InvalidFormat) (\<lambda>_.
     bindR (ok_or ResourceLimit (checked_add (range_start v) s)) (\<lambda>start.
     bindR (ok_or ResourceLimit (checked_add (range_start v) t)) (\<lambda>end.
       from_owner (view_owner v) (owner_bytes v) start end)))"

text \<open>A view that the constructors can produce: its range lies inside an addressable owner.\<close>

definition wf_view :: "ByteView \<Rightarrow> bool" where
  "wf_view v \<longleftrightarrow> range_start v \<le> range_end v \<and> range_end v \<le> length (owner_bytes v)
     \<and> length (owner_bytes v) < usize_bound"

section \<open>Lemmas\<close>

lemma bits_pos [simp]: "0 < bits dt div 8"
  by (cases dt) simp_all

lemma bits_div_mod [simp]: "bits dt mod 8 = 0" "0 < bits dt"
  by (cases dt; simp)+

lemma bits_width_le: "bits dt div 8 \<le> 8"
  by (cases dt) simp_all

lemma foldR_checked_mul:
  "foldR (\<lambda>d p. ok_or ResourceLimit (checked_mul p d)) ds p = Inr n \<longleftrightarrow>
     n = p * prod_list ds \<and> (\<forall>k < length ds. p * prod_list (take (Suc k) ds) < u64_bound)"
proof (induction ds arbitrary: p)
  case Nil
  then show ?case by auto
next
  case (Cons d ds)
  have split: "(\<forall>k < length (d # ds). p * prod_list (take (Suc k) (d # ds)) < u64_bound) \<longleftrightarrow>
      p * d < u64_bound \<and> (\<forall>k < length ds. p * d * prod_list (take (Suc k) ds) < u64_bound)"
    by (auto simp: less_Suc_eq_0_disj mult.assoc)
  show ?case
    unfolding split by (auto simp: bindR_Inr checked_Some Cons.IH mult.assoc)
qed

lemma checked_product_Inr:
  "checked_product ds = Inr n \<longleftrightarrow>
     n = prod_list ds \<and> (\<forall>k < length ds. prod_list (take (Suc k) ds) < u64_bound)"
  using foldR_checked_mul[of ds 1 n] by (simp add: checked_product_def)

lemma checked_product_exact: "checked_product ds = Inr n \<Longrightarrow> n = prod_list ds \<and> n < u64_bound"
  unfolding checked_product_Inr
  by (cases "length ds") (auto dest: spec[of _ "length ds - 1"])

lemma checked_product_error: "checked_product ds = Inl c \<Longrightarrow> c = ResourceLimit"
proof -
  have "foldR (\<lambda>d p. ok_or ResourceLimit (checked_mul p d)) ds p = Inl c \<Longrightarrow> c = ResourceLimit" for p
    by (induction ds arbitrary: p) (auto simp: bindR_Inl ok_or_Inl)
  then show "checked_product ds = Inl c \<Longrightarrow> c = ResourceLimit"
    unfolding checked_product_def .
qed

lemma prod_list_pos: "0 \<notin> set (ds :: nat list) \<Longrightarrow> 0 < prod_list ds"
  by (induction ds) auto

lemma prod_list_take_le: "0 \<notin> set (ds :: nat list) \<Longrightarrow> prod_list (take k ds) \<le> prod_list ds"
proof -
  assume nz: "0 \<notin> set ds"
  have "0 \<notin> set (drop k ds)" using nz in_set_dropD by fastforce
  then have "1 \<le> prod_list (drop k ds)" using prod_list_pos by (simp add: Suc_leI)
  moreover have "prod_list ds = prod_list (take k ds) * prod_list (drop k ds)"
    by (metis append_take_drop_id prod_list.append)
  ultimately show "prod_list (take k ds) \<le> prod_list ds" by simp
qed

lemma prod_list_drop_le: "0 \<notin> set (ds :: nat list) \<Longrightarrow> prod_list (drop k ds) \<le> prod_list ds"
proof -
  assume nz: "0 \<notin> set ds"
  have "0 \<notin> set (take k ds)" using nz in_set_takeD by fastforce
  then have "1 \<le> prod_list (take k ds)" using prod_list_pos by (simp add: Suc_leI)
  moreover have "prod_list ds = prod_list (take k ds) * prod_list (drop k ds)"
    by (metis append_take_drop_id prod_list.append)
  ultimately show "prod_list (drop k ds) \<le> prod_list ds" by simp
qed

lemma checked_product_nonzero:
  assumes "0 \<notin> set ds" and "prod_list ds < u64_bound"
  shows "checked_product ds = Inr (prod_list ds)"
  unfolding checked_product_Inr using assms prod_list_take_le[OF assms(1)]
  by (meson le_less_trans)

lemma byte_len_Inr:
  "DType_byte_len dt shape = Inr n \<longleftrightarrow>
     checked_product shape = Inr (prod_list shape) \<and> n = prod_list shape * (bits dt div 8) \<and> n < u64_bound"
  by (auto simp: DType_byte_len_def bindR_Inr checked_Some dest: checked_product_exact)

lemma byte_len_product: "DType_byte_len dt shape = Inr n \<Longrightarrow> prod_list shape < u64_bound"
  unfolding byte_len_Inr using checked_product_exact by blast

lemma length_as_slice [simp]: "wf_view v \<Longrightarrow> length (as_slice v) = view_len v"
  by (auto simp: wf_view_def as_slice_def view_len_def)

lemma view_len_bound: "wf_view v \<Longrightarrow> view_len v < u64_bound"
  by (auto simp: wf_view_def view_len_def usize_is_u64)

lemma from_boxed_delivers [delivers_intros]:
  assumes "length bytes < usize_bound" and "\<And>v. wf_view v \<Longrightarrow> as_slice v = bytes \<Longrightarrow> P v"
  shows "delivers (from_boxed bytes) P"
  unfolding from_boxed_def
  by (intro delivers_intros) (use assms in \<open>auto simp: wf_view_def as_slice_def\<close>)

lemma from_owner_wf:
  "from_owner n bs s t = Inr v \<Longrightarrow> length bs < usize_bound \<Longrightarrow> wf_view v"
  by (auto simp: from_owner_def bindR_Inr wf_view_def)

text \<open>A subview of a well-formed view succeeds exactly inside its parent.\<close>

lemma view_slice_Inr:
  assumes "wf_view v"
  shows "view_slice v s t = Inr w \<longleftrightarrow>
    s \<le> t \<and> t \<le> view_len v \<and>
    w = v\<lparr>range_start := range_start v + s, range_end := range_start v + t\<rparr>"
  using assms
  by (auto simp: view_slice_def from_owner_def bindR_Inr checked_Some wf_view_def
      view_len_def usize_is_u64)

text \<open>A view of a view is the view of the combined range of the same owner, its bytes are the
corresponding bytes, and a slice fails exactly when its range is inverted or outside its parent.\<close>

lemma subviews_compose:
  assumes "wf_view v" and "s \<le> t" "t \<le> view_len v" and "s' \<le> t'" "t' \<le> t - s"
  shows "bindR (view_slice v s t) (\<lambda>w. view_slice w s' t') = view_slice v (s + s') (s + t')
    \<and> (\<exists>w. view_slice v s t = Inr w \<and> wf_view w \<and> view_owner w = view_owner v
         \<and> as_slice w = take (t - s) (drop s (as_slice v)))
    \<and> view_slice v t' (view_len v + 1) = Inl InvalidFormat"
proof -
  let ?w = "v\<lparr>range_start := range_start v + s, range_end := range_start v + t\<rparr>"
  have w: "view_slice v s t = Inr ?w" using view_slice_Inr[OF assms(1), of s t ?w] assms(2,3) by simp
  have wf: "wf_view ?w" and len: "view_len ?w = t - s"
    using assms(1-3) by (auto simp: wf_view_def view_len_def)
  let ?x = "v\<lparr>range_start := range_start v + (s + s'), range_end := range_start v + (s + t')\<rparr>"
  have "view_slice ?w s' t' = Inr ?x" using view_slice_Inr[OF wf, of s' t' ?x] len assms(4,5) by (simp add: add.assoc)
  moreover have "view_slice v (s + s') (s + t') = Inr ?x"
    using view_slice_Inr[OF assms(1), of "s + s'" "s + t'" ?x] assms(2-5) by simp
  moreover have "as_slice ?w = take (t - s) (drop s (as_slice v))"
    using assms(2,3) by (simp add: as_slice_def view_len_def drop_take add.commute min_def)
  moreover have "view_slice v t' (view_len v + 1) = Inl InvalidFormat" by (simp add: view_slice_def)
  ultimately show ?thesis using w wf by simp
qed

end
