(* ===== verification/MW_Identity.thy ===== *)
theory MW_Identity
  imports MW_Prelude
begin

unbundle bit_operations_syntax

text \<open>
  identity.rs: SHA-256 content digests with their hexadecimal text form, the length-framed
  byte string that is hashed under a domain separator, portable stable names and versioned
  implementation identities. The hash function itself is a library and is a parameter.
\<close>

section \<open>Content digests\<close>

type_synonym ContentDigest = "u8 list"

text \<open>\<open>{byte:02x}\<close>: two lower-case hexadecimal digits.\<close>

definition hex_digit :: "u8 \<Rightarrow> char" where
  "hex_digit d = (''0123456789abcdef'' ! unat d)"

definition hex_byte :: "u8 \<Rightarrow> string" where
  "hex_byte b = [hex_digit (drop_bit 4 b), hex_digit (b AND 15)]"

definition ContentDigest_fmt :: "ContentDigest \<Rightarrow> string" where
  "ContentDigest_fmt digest = concat (map hex_byte digest)"

definition decode_hex :: "u8 \<Rightarrow> u8 option" where
  "decode_hex byte =
     (if 48 \<le> byte \<and> byte \<le> 57 then Some (byte - 48)
      else if 97 \<le> byte \<and> byte \<le> 102 then Some (byte - 97 + 10)
      else if 65 \<le> byte \<and> byte \<le> 70 then Some (byte - 65 + 10)
      else None)"

text \<open>\<open>chunks_exact(2)\<close>; a trailing odd byte is dropped.\<close>

fun pairs :: "'a list \<Rightarrow> ('a \<times> 'a) list" where
  "pairs (x # y # zs) = (x, y) # pairs zs"
| "pairs _ = []"

definition decode_pair :: "u8 \<times> u8 \<Rightarrow> u8 result" where
  "decode_pair p =
     bindR (ok_or InvalidFormat (decode_hex (fst p))) (\<lambda>high.
     bindR (ok_or InvalidFormat (decode_hex (snd p))) (\<lambda>low.
       Inr (push_bit 4 high OR low)))"

definition ContentDigest_from_str :: "string \<Rightarrow> ContentDigest result" where
  "ContentDigest_from_str value =
     bindR (ensure (length value = 64) InvalidFormat) (\<lambda>_.
       mapR decode_pair (pairs (map of_char value)))"

section \<open>Domain-separated hashing\<close>

text \<open>\<open>(len as u128).to_le_bytes()\<close>: sixteen bytes, least significant first.\<close>

primrec le_bytes :: "nat \<Rightarrow> nat \<Rightarrow> u8 list" where
  "le_bytes 0 n = []"
| "le_bytes (Suc k) n = of_nat n # le_bytes k (n div 256)"

definition hash_prefix :: "u8 list" where
  "hash_prefix = map of_char ''model-weights-rs'' @ [0]"

definition frame :: "u8 list \<Rightarrow> u8 list" where
  "frame part = le_bytes 16 (length part) @ part"

definition hash_input :: "u8 list \<Rightarrow> u8 list list \<Rightarrow> u8 list" where
  "hash_input domain parts = hash_prefix @ frame domain @ concat (map frame parts)"

definition ContentDigest_hash ::
    "(u8 list \<Rightarrow> ContentDigest) \<Rightarrow> u8 list \<Rightarrow> u8 list list \<Rightarrow> ContentDigest" where
  "ContentDigest_hash sha256 domain parts = sha256 (hash_input domain parts)"

section \<open>Stable names and implementation identities\<close>

type_synonym StableName = string

definition stable_byte :: "char \<Rightarrow> bool" where
  "stable_byte c = (let b = (of_char c :: nat) in
     (48 \<le> b \<and> b \<le> 57) \<or> (65 \<le> b \<and> b \<le> 90) \<or> (97 \<le> b \<and> b \<le> 122)
     \<or> c \<in> {CHR ''.'', CHR ''_'', CHR ''-'', CHR ''/'', CHR '':''})"

definition StableName_parse :: "string \<Rightarrow> StableName result" where
  "StableName_parse value =
     bindR (ensure (value \<noteq> [] \<and> length value \<le> 128 \<and> list_all stable_byte value) InvalidFormat)
       (\<lambda>_. Inr value)"

record ImplementationId =
  provider :: StableName
  operation_name :: StableName
  version :: nat

definition ImplementationId_new :: "StableName \<Rightarrow> StableName \<Rightarrow> nat \<Rightarrow> ImplementationId" where
  "ImplementationId_new p op v = \<lparr>provider = p, operation_name = op, version = v\<rparr>"

section \<open>Hexadecimal round trip\<close>

lemma hex_digit_table:
  "list_all (\<lambda>n. decode_hex (of_char (''0123456789abcdef'' ! n)) = Some (word_of_nat n)) [0..<16]"
  by code_simp

lemma decode_hex_digit:
  assumes "unat d < 16"
  shows "decode_hex (of_char (hex_digit d)) = Some d"
proof -
  have "unat d \<in> set [0..<16]" using assms by simp
  then show ?thesis
    using hex_digit_table by (auto simp: hex_digit_def list_all_iff)
qed

lemma nibbles: "unat (drop_bit 4 (b :: u8)) < 16" "unat (b AND 15) < 16"
proof -
  have "unat b < 256" using unsigned_less[of b] by simp
  then show "unat (drop_bit 4 b) < 16"
    by (simp add: unat_drop_bit_eq drop_bit_nat_def less_mult_imp_div_less)
  have "b AND 15 = take_bit 4 b" by (simp add: take_bit_eq_mask mask_eq_exp_minus_1)
  then show "unat (b AND 15) < 16"
    by (simp add: unsigned_take_bit_eq take_bit_nat_def)
qed

lemma nibbles_join: "push_bit 4 (drop_bit 4 b) OR (b AND 15) = (b :: u8)"
proof -
  have "b AND 15 = take_bit 4 b" by (simp add: take_bit_eq_mask mask_eq_exp_minus_1)
  then show ?thesis by (auto intro!: bit_word_eqI simp: bit_simps)
qed

lemma decode_pair_hex_byte:
  "decode_pair (of_char (hex_digit (drop_bit 4 b)), of_char (hex_digit (b AND 15))) = Inr b"
  by (simp add: decode_pair_def decode_hex_digit nibbles nibbles_join)

lemma pairs_hex:
  "mapR decode_pair (pairs (map of_char (concat (map hex_byte bs)))) = Inr bs"
  by (induction bs) (simp_all add: hex_byte_def decode_pair_hex_byte)

lemma length_concat_hex: "length (concat (map hex_byte bs)) = 2 * length bs"
  by (induction bs) (simp_all add: hex_byte_def)

section \<open>Framing is injective\<close>

lemma length_le_bytes [simp]: "length (le_bytes k n) = k"
  by (induction k arbitrary: n) simp_all

lemma le_bytes_inj:
  "le_bytes k m = le_bytes k n \<Longrightarrow> m < 256 ^ k \<Longrightarrow> n < 256 ^ k \<Longrightarrow> m = n"
proof (induction k arbitrary: m n)
  case 0
  then show ?case by simp
next
  case (Suc k)
  have "(word_of_nat m :: u8) = word_of_nat n" using Suc.prems(1) by simp
  then have "m mod 256 = n mod 256"
    by (simp add: word_of_nat_eq_iff take_bit_nat_def)
  moreover have "m div 256 = n div 256"
    using Suc.prems by (intro Suc.IH) (simp_all add: less_mult_imp_div_less mult.commute)
  ultimately show ?case by (metis div_mult_mod_eq)
qed

lemma frame_append_inj:
  assumes "frame p @ x = frame q @ y" and "length p < 256 ^ 16" and "length q < 256 ^ 16"
  shows "p = q \<and> x = y"
proof -
  have "le_bytes 16 (length p) @ (p @ x) = le_bytes 16 (length q) @ (q @ y)"
    using assms(1) by (simp add: frame_def)
  then have len: "le_bytes 16 (length p) = le_bytes 16 (length q)" and rest: "p @ x = q @ y"
    by (metis append_eq_append_conv length_le_bytes)+
  from le_bytes_inj[OF len assms(2,3)] rest show ?thesis by simp
qed

lemma frame_nonempty: "frame p \<noteq> []"
  by (simp add: frame_def flip: length_greater_0_conv)

lemma frames_inj:
  assumes "concat (map frame ps) = concat (map frame qs)"
    and "\<forall>p \<in> set ps. length p < 256 ^ 16" and "\<forall>q \<in> set qs. length q < 256 ^ 16"
  shows "ps = qs"
  using assms
proof (induction ps arbitrary: qs)
  case Nil
  then show ?case using frame_nonempty by (cases qs) auto
next
  case (Cons p ps)
  then obtain q qs' where qs: "qs = q # qs'"
    using frame_nonempty by (cases qs) auto
  with Cons.prems frame_append_inj[of p "concat (map frame ps)" q "concat (map frame qs')"]
  have "p = q" and "concat (map frame ps) = concat (map frame qs')" by auto
  with Cons qs show ?case by simp
qed

text \<open>Parsing the hexadecimal text of a 32-byte digest gives the digest back.\<close>

lemma digest_text_round_trip:
  assumes "length digest = 32"
  shows "ContentDigest_from_str (ContentDigest_fmt digest) = Inr digest"
  using assms pairs_hex[of digest] length_concat_hex[of digest]
  by (simp add: ContentDigest_from_str_def ContentDigest_fmt_def)

end
