(* ===== verification/MW_Representation.thy ===== *)
theory MW_Representation
  imports MW_Tensor MW_Identity
begin

text \<open>
  The vocabulary shared by plans, preparation and operation graphs: physical layouts and
  representations, versioned transforms (prepare.rs), tensor names and size-pinned planned
  transforms (plan.rs).
\<close>

datatype Layout =
    Contiguous
  | Custom (layout_name: StableName) (layout_version: nat) (layout_parameters: "u8 list")

definition is_contiguous :: "Layout \<Rightarrow> bool" where
  "is_contiguous l = (case l of Contiguous \<Rightarrow> True | _ \<Rightarrow> False)"

definition custom_parts :: "Layout \<Rightarrow> (StableName \<times> nat \<times> u8 list) option" where
  "custom_parts l = (case l of Custom n v p \<Rightarrow> Some (n, v, p) | Contiguous \<Rightarrow> None)"

record Representation =
  dtype :: DType
  layout :: Layout

definition Representation_new :: "DType \<Rightarrow> Layout \<Rightarrow> Representation" where
  "Representation_new dt l = \<lparr>dtype = dt, layout = l\<rparr>"

definition Representation_contiguous :: "DType \<Rightarrow> Representation" where
  "Representation_contiguous dt = Representation_new dt Contiguous"

record TransformSpec =
  transform_implementation :: ImplementationId
  transform_source :: Representation
  transform_target :: Representation

definition TransformSpec_new ::
    "ImplementationId \<Rightarrow> Representation \<Rightarrow> Representation \<Rightarrow> TransformSpec" where
  "TransformSpec_new i s t =
     \<lparr>transform_implementation = i, transform_source = s, transform_target = t\<rparr>"

record PlannedTransform =
  planned_transform :: TransformSpec
  output_size :: nat
  transform_scratch :: nat

definition PlannedTransform_new :: "TransformSpec \<Rightarrow> nat \<Rightarrow> PlannedTransform" where
  "PlannedTransform_new t n =
     \<lparr>planned_transform = t, output_size = n, transform_scratch = 0\<rparr>"

definition with_scratch_bytes :: "PlannedTransform \<Rightarrow> nat \<Rightarrow> PlannedTransform" where
  "with_scratch_bytes p n = p\<lparr>transform_scratch := n\<rparr>"

type_synonym TensorName = string

definition TensorName_parse :: "string \<Rightarrow> TensorName result" where
  "TensorName_parse value = bindR (ensure (value \<noteq> []) InvalidFormat) (\<lambda>_. Inr value)"

definition TensorName_parse_with_max :: "string \<Rightarrow> nat \<Rightarrow> TensorName result" where
  "TensorName_parse_with_max value max_bytes =
     bindR (TensorName_parse value) (\<lambda>name.
     bindR (ensure (length name \<le> max_bytes) ResourceLimit) (\<lambda>_. Inr name))"

lemma is_contiguous_iff [simp]: "is_contiguous l \<longleftrightarrow> l = Contiguous"
  by (cases l) (simp_all add: is_contiguous_def)

lemma representation_sel [simp]:
  "dtype (Representation_new dt l) = dt" "layout (Representation_new dt l) = l"
  "dtype (Representation_contiguous dt) = dt" "layout (Representation_contiguous dt) = Contiguous"
  by (simp_all add: Representation_new_def Representation_contiguous_def)

lemma Representation_contiguous_eta:
  "layout r = Contiguous \<Longrightarrow> Representation_contiguous (dtype r) = r"
  by (cases r) (simp add: Representation_contiguous_def Representation_new_def)

end
