(* ===== verification/MW_Facts.thy ===== *)
theory MW_Facts
  imports MW_Representation
begin

text \<open>
  operation.rs, tensor facts: the checked geometry of a dense tensor value. The definitions
  follow the validation helpers and \<open>TensorFacts::new\<close>. The lemmas give the geometry its
  meaning: row-major strides address the linear indices, and validated physical strides
  address the coordinates of the logical view injectively inside the allocation.
\<close>

section \<open>Validation helpers\<close>

definition validate_rank :: "nat \<Rightarrow> unit result" where
  "validate_rank rank = bindR (u32_try_from rank) (\<lambda>_. Inr ())"

definition checked_element_count :: "nat list \<Rightarrow> nat result" where
  "checked_element_count shape = foldR (\<lambda>d n. ok_or ResourceLimit (checked_mul n d)) shape 1"

text \<open>The loop runs over the axes from the last to the first and fills each stride.\<close>

definition strides_step :: "nat \<Rightarrow> nat list \<times> nat \<Rightarrow> (nat list \<times> nat) result" where
  "strides_step d acc = (case acc of (strides, stride) \<Rightarrow>
     bindR (ok_or ResourceLimit (checked_mul stride d)) (\<lambda>next.
       Inr (stride # strides, next)))"

definition contiguous_strides :: "nat list \<Rightarrow> nat list result" where
  "contiguous_strides shape =
     bindR (validate_rank (length shape)) (\<lambda>_.
     bindR (foldR strides_step (rev shape) ([], 1)) (\<lambda>acc.
       Inr (fst acc)))"

definition varying_axes :: "nat list \<Rightarrow> nat list \<Rightarrow> (nat \<times> nat) list" where
  "varying_axes shape strides =
     sort_key snd (filter (\<lambda>(d, _). d > 1) (zip shape strides))"

definition validate_dense_strides :: "nat list \<Rightarrow> nat list \<Rightarrow> nat \<Rightarrow> unit result" where
  "validate_dense_strides shape strides elements =
     (if elements = 0 then Inr () else
      bindR (foldR (\<lambda>(d, stride) expected.
               bindR (ensure (stride = expected) InvalidFormat) (\<lambda>_.
                 ok_or ResourceLimit (checked_mul expected d)))
             (varying_axes shape strides) 1) (\<lambda>expected.
      ensure (expected = elements) InvalidFormat))"

definition storage_span_step :: "nat \<times> nat \<Rightarrow> nat \<Rightarrow> nat result" where
  "storage_span_step axis span = (case axis of (d, stride) \<Rightarrow>
     bindR (ensure (\<not> stride < span) InvalidFormat) (\<lambda>_.
       ok_or ResourceLimit
         (Option.bind (checked_sub d 1) (\<lambda>extent.
          Option.bind (checked_mul extent stride) (\<lambda>extent.
            checked_add extent span)))))"

definition validate_storage_strides ::
    "nat list \<Rightarrow> nat list \<Rightarrow> nat \<Rightarrow> nat \<Rightarrow> unit result" where
  "validate_storage_strides logical_shape storage_strides logical_elements storage_elements =
     (if logical_elements = 0 then Inr () else
      bindR (ensure (storage_elements \<noteq> 0) InvalidFormat) (\<lambda>_.
      bindR (foldR storage_span_step (varying_axes logical_shape storage_strides) 1) (\<lambda>span.
        ensure (\<not> span > storage_elements) InvalidFormat)))"

section \<open>Tensor facts\<close>

record TensorFacts =
  logical_shape :: "nat list"
  storage_shape :: "nat list"
  logical_strides :: "nat list"
  storage_strides :: "nat list"
  representation :: Representation
  byte_len :: nat

definition TensorFacts_new ::
    "nat list \<Rightarrow> nat list \<Rightarrow> nat list \<Rightarrow> nat list \<Rightarrow> Representation \<Rightarrow> nat \<Rightarrow> TensorFacts result" where
  "TensorFacts_new lshape sshape lstrides sstrides repr bytes =
     bindR (validate_rank (length lshape)) (\<lambda>_.
     bindR (validate_rank (length sshape)) (\<lambda>_.
     bindR (ensure (length lshape = length sshape) InvalidFormat) (\<lambda>_.
     bindR (ensure (length lshape = length lstrides) InvalidFormat) (\<lambda>_.
     bindR (ensure (length lshape = length sstrides) InvalidFormat) (\<lambda>_.
     bindR (checked_element_count lshape) (\<lambda>logical_elements.
     bindR (checked_element_count sshape) (\<lambda>storage_elements.
     bindR (validate_dense_strides lshape lstrides logical_elements) (\<lambda>_.
     bindR (validate_storage_strides lshape sstrides logical_elements storage_elements) (\<lambda>_.
     bindR (if is_contiguous (layout repr) then
              bindR (contiguous_strides lshape) (\<lambda>expected.
                ensure (\<not> (sshape \<noteq> lshape \<or> sstrides \<noteq> expected)) InvalidFormat)
            else Inr ()) (\<lambda>_.
     bindR (DType_byte_len (dtype repr) sshape) (\<lambda>expected_bytes.
     bindR (ensure (bytes = expected_bytes) InvalidFormat) (\<lambda>_.
       Inr \<lparr>logical_shape = lshape, storage_shape = sshape, logical_strides = lstrides,
            storage_strides = sstrides, representation = repr, byte_len = bytes\<rparr>))))))))))))"

definition TensorFacts_contiguous :: "nat list \<Rightarrow> Representation \<Rightarrow> TensorFacts result" where
  "TensorFacts_contiguous shape repr =
     bindR (ensure (is_contiguous (layout repr)) InvalidFormat) (\<lambda>_.
     bindR (contiguous_strides shape) (\<lambda>strides.
     bindR (DType_byte_len (dtype repr) shape) (\<lambda>bytes.
       TensorFacts_new shape shape strides strides repr bytes)))"

text \<open>\<open>TensorFacts::element_count\<close> saturates, though validated facts cannot overflow it.\<close>

definition element_count :: "TensorFacts \<Rightarrow> nat" where
  "element_count facts = foldl saturating_mul 1 (logical_shape facts)"

definition is_canonical_contiguous :: "TensorFacts \<Rightarrow> bool" where
  "is_canonical_contiguous facts =
     (is_contiguous (layout (representation facts))
      \<and> logical_shape facts = storage_shape facts
      \<and> (case contiguous_strides (logical_shape facts) of
           Inl _ \<Rightarrow> False
         | Inr strides \<Rightarrow> strides = logical_strides facts \<and> strides = storage_strides facts))"

text \<open>\<open>TryFrom<TensorFactsWire>\<close>: deserialization replays the constructor.\<close>

definition TensorFacts_try_from :: "TensorFacts \<Rightarrow> TensorFacts result" where
  "TensorFacts_try_from wire =
     TensorFacts_new (logical_shape wire) (storage_shape wire) (logical_strides wire)
       (storage_strides wire) (representation wire) (byte_len wire)"

text \<open>The type invariant: exactly the values the constructor accepts.\<close>

definition wf_facts :: "TensorFacts \<Rightarrow> bool" where
  "wf_facts facts \<longleftrightarrow> TensorFacts_try_from facts = Inr facts"

section \<open>Coordinates and offsets\<close>

text \<open>
  The meaning of the geometry: a coordinate vector lies in a shape, its offset under a list
  of strides is the weighted sum, and the row-major coordinates of a linear index.
\<close>

definition in_shape :: "nat list \<Rightarrow> nat list \<Rightarrow> bool" where
  "in_shape c shape \<longleftrightarrow> list_all2 (<) c shape"

definition offset :: "nat list \<Rightarrow> nat list \<Rightarrow> nat" where
  "offset c strides = sum_list (map2 (*) c strides)"

primrec row_strides :: "nat list \<Rightarrow> nat list" where
  "row_strides [] = []"
| "row_strides (d # ds) = prod_list ds # row_strides ds"

primrec coords :: "nat list \<Rightarrow> nat \<Rightarrow> nat list" where
  "coords [] l = []"
| "coords (d # ds) l = (l div prod_list ds) mod d # coords ds l"

section \<open>Row-major addressing\<close>

lemma checked_element_count_eq: "checked_element_count shape = checked_product shape"
  by (simp add: checked_element_count_def checked_product_def)

lemma validate_rank_Inr [result_simps]: "validate_rank n = Inr u \<longleftrightarrow> n < u32_bound"
  by (auto simp: validate_rank_def bindR_Inr try_from_Inr)

lemma length_row_strides [simp]: "length (row_strides ds) = length ds"
  by (induction ds) simp_all

lemma strides_step_Inr:
  "strides_step d (ss, s) = Inr r \<longleftrightarrow> r = (s # ss, s * d) \<and> s * d < u64_bound"
  by (auto simp: strides_step_def bindR_Inr checked_Some)

lemma strides_loop:
  "foldR strides_step (rev ds) ([], Suc 0) = Inr (ss, n) \<longleftrightarrow>
   ss = row_strides ds \<and> n = prod_list ds \<and> (\<forall>k < length ds. prod_list (drop k ds) < u64_bound)"
proof (induction ds arbitrary: ss n)
  case Nil
  then show ?case by auto
next
  case (Cons d ds)
  have split: "(\<forall>k < length (d # ds). prod_list (drop k (d # ds)) < u64_bound) \<longleftrightarrow>
      prod_list ds * d < u64_bound \<and> (\<forall>k < length ds. prod_list (drop k ds) < u64_bound)"
    by (auto simp: less_Suc_eq_0_disj mult.commute)
  show ?case
    unfolding split
    by (auto simp: foldR_append bindR_Inr Cons.IH strides_step_Inr mult.commute)
qed

lemma contiguous_strides_Inr:
  "contiguous_strides ds = Inr ss \<longleftrightarrow>
     length ds < u32_bound \<and> ss = row_strides ds \<and> (\<forall>k < length ds. prod_list (drop k ds) < u64_bound)"
  using strides_loop[of ds ss] by (auto simp: contiguous_strides_def bindR_Inr validate_rank_Inr)

lemma contiguous_strides_nonzero:
  assumes "0 \<notin> set ds" and "prod_list ds < u64_bound" and "length ds < u32_bound"
  shows "contiguous_strides ds = Inr (row_strides ds)"
  unfolding contiguous_strides_Inr using assms prod_list_drop_le[OF assms(1)]
  by (meson le_less_trans)

lemma in_shape_Nil [simp]: "in_shape [] ds \<longleftrightarrow> ds = []" "in_shape c [] \<longleftrightarrow> c = []"
  by (auto simp: in_shape_def)

lemma in_shape_Cons [simp]:
  "in_shape (x # c) (d # ds) \<longleftrightarrow> x < d \<and> in_shape c ds"
  "in_shape c (d # ds) \<longleftrightarrow> (\<exists>x c'. c = x # c' \<and> x < d \<and> in_shape c' ds)"
  by (auto simp: in_shape_def list_all2_Cons2)

lemma in_shape_length: "in_shape c ds \<Longrightarrow> length c = length ds"
  by (simp add: in_shape_def list_all2_lengthD)

lemma in_shape_nth: "in_shape c ds \<longleftrightarrow> length c = length ds \<and> (\<forall>i < length ds. c ! i < ds ! i)"
  by (auto simp: in_shape_def list_all2_conv_all_nth)

lemma offset_simps [simp]:
  "offset [] ss = 0" "offset c [] = 0" "offset (x # c) (s # ss) = x * s + offset c ss"
  by (simp_all add: offset_def)

lemma in_shape_pos: "in_shape c ds \<Longrightarrow> 0 < prod_list ds"
  by (induction ds arbitrary: c) auto

lemma length_coords [simp]: "length (coords ds l) = length ds"
  by (induction ds) simp_all

lemma coords_in_shape: "0 < prod_list ds \<Longrightarrow> in_shape (coords ds l) ds"
  by (induction ds) auto

lemma coords_nth: "i < length ds \<Longrightarrow> coords ds l ! i = (l div row_strides ds ! i) mod ds ! i"
  by (induction ds arbitrary: i) (auto simp: nth_Cons split: nat.splits)

lemma offset_row_strides_less: "in_shape c ds \<Longrightarrow> offset c (row_strides ds) < prod_list ds"
proof (induction ds arbitrary: c)
  case Nil
  then show ?case by simp
next
  case (Cons d ds)
  then obtain x c' where c: "c = x # c'" "x < d" "in_shape c' ds" by auto
  have "x * prod_list ds + offset c' (row_strides ds) < (x + 1) * prod_list ds"
    using Cons.IH[OF c(3)] by simp
  also have "\<dots> \<le> d * prod_list ds" using c(2) by (intro mult_le_mono1) simp
  finally show ?case using c(1) by simp
qed

lemma coords_shift: "coords ds (k * prod_list ds + l) = coords ds l"
proof (induction ds arbitrary: k)
  case Nil
  then show ?case by simp
next
  case (Cons d ds)
  show ?case
  proof (cases "prod_list ds = 0")
    case True
    then show ?thesis using Cons.IH[of "k * d"] by (simp add: mult.assoc)
  next
    case False
    then have "(k * (d * prod_list ds) + l) div prod_list ds = k * d + l div prod_list ds"
      by (metis div_mult_self3 mult.assoc)
    then show ?thesis using Cons.IH[of "k * d"] by (simp add: mult.assoc)
  qed
qed

lemma coords_offset: "in_shape c ds \<Longrightarrow> coords ds (offset c (row_strides ds)) = c"
proof (induction ds arbitrary: c)
  case Nil
  then show ?case by simp
next
  case (Cons d ds)
  then obtain x c' where c: "c = x # c'" "x < d" "in_shape c' ds" by auto
  have "offset c' (row_strides ds) < prod_list ds" using c(3) by (rule offset_row_strides_less)
  then show ?case using c Cons.IH[OF c(3)] by (simp add: coords_shift)
qed

lemma offset_coords: "l < prod_list ds \<Longrightarrow> offset (coords ds l) (row_strides ds) = l"
proof (induction ds arbitrary: l)
  case Nil
  then show ?case by simp
next
  case (Cons d ds)
  have pos: "0 < prod_list ds" using Cons.prems by (cases "prod_list ds") auto
  have lt: "l div prod_list ds < d"
    using Cons.prems by (simp add: less_mult_imp_div_less)
  have "coords ds l = coords ds (l mod prod_list ds)"
    using coords_shift[of ds "l div prod_list ds" "l mod prod_list ds"] by simp
  then have "offset (coords ds l) (row_strides ds) = l mod prod_list ds"
    using Cons.IH[of "l mod prod_list ds"] pos by simp
  then show ?case using lt by simp
qed

section \<open>Physical strides address injectively\<close>

text \<open>
  The validation loop over the axes in order of stride. Each entry carries two coordinates
  of its axis; partial offsets below the current span stay distinguishable.
\<close>

lemma storage_span_step_Inr:
  "storage_span_step (d, s) p = Inr q \<longleftrightarrow>
     p \<le> s \<and> 1 \<le> d \<and> q = (d - 1) * s + p \<and> q < u64_bound"
  by (auto simp: storage_span_step_def bindR_Inr bind_eq_Some_conv checked_Some)

lemma span_loop:
  fixes zs :: "((nat \<times> nat) \<times> nat \<times> nat) list"
  assumes "foldR storage_span_step (map fst zs) p = Inr q"
    and "\<forall>z \<in> set zs. fst (snd z) < fst (fst z) \<and> snd (snd z) < fst (fst z)"
    and "u < p" and "v < p"
  shows "u + (\<Sum>z\<leftarrow>zs. fst (snd z) * snd (fst z)) < q"
    and "u + (\<Sum>z\<leftarrow>zs. fst (snd z) * snd (fst z)) = v + (\<Sum>z\<leftarrow>zs. snd (snd z) * snd (fst z)) \<Longrightarrow>
      u = v \<and> (\<forall>z \<in> set zs. fst (snd z) = snd (snd z))"
  using assms
proof (induction zs arbitrary: p u v)
  case Nil
  { case 1 then show ?case by simp }
  { case 2 then show ?case by simp }
next
  case (Cons z zs)
  obtain d s a b where z: "z = ((d, s), a, b)" by (metis prod.exhaust)
  have step: "p \<le> s \<and> foldR storage_span_step (map fst zs) ((d - 1) * s + p) = Inr q"
    if "foldR storage_span_step (map fst (z # zs)) p = Inr q" for p
    using that z by (auto simp: bindR_Inr storage_span_step_Inr)
  have grow: "x + y * s < (d - 1) * s + p" if "x < p" "y < d" for x y p
  proof -
    have "y * s \<le> (d - 1) * s" using that(2) by (intro mult_le_mono1) simp
    then show ?thesis using that(1) by linarith
  qed
  { case 1
    then have "(u + a * s) + (\<Sum>z\<leftarrow>zs. fst (snd z) * snd (fst z)) < q"
      using z step[OF 1(1)] grow by (intro Cons.IH(1)[where v = "v + b * s"]) auto
    then show ?case using z by (simp add: add.assoc) }
  { case 2
    have eq: "(u + a * s) + (\<Sum>z\<leftarrow>zs. fst (snd z) * snd (fst z)) =
        (v + b * s) + (\<Sum>z\<leftarrow>zs. snd (snd z) * snd (fst z))"
      using 2(1) z by (simp add: add.assoc)
    have "u + a * s = v + b * s \<and> (\<forall>z \<in> set zs. fst (snd z) = snd (snd z))"
      using eq z step[OF 2(2)] grow 2 by (intro Cons.IH(2)) auto
    moreover have "a = b" if "u + a * s = v + b * s"
    proof -
      have "u < s" "v < s" using step[OF 2(2)] 2 by auto
      moreover have "(a * s + u) div s = (b * s + v) div s" using that by (simp add: add.commute)
      ultimately show ?thesis by simp
    qed
    ultimately show ?case using z by auto }
qed

text \<open>The axes of the validated shape, each with the two coordinates to be compared.\<close>

definition axis_table :: "nat list \<Rightarrow> nat list \<Rightarrow> nat list \<Rightarrow> nat list \<Rightarrow> ((nat \<times> nat) \<times> nat \<times> nat) list" where
  "axis_table shape strides c c' = zip (zip shape strides) (zip c c')"

lemma map_insort_key: "map g (insort_key (\<lambda>x. k (g x)) x xs) = insort_key k (g x) (map g xs)"
  by (induction xs) auto

lemma map_sort_key: "map g (sort_key (k \<circ> g) xs) = sort_key k (map g xs)"
  by (induction xs) (auto simp: map_insort_key comp_def)

lemma sum_list_sort_key: "sum_list (map f (sort_key k xs)) = sum_list (map (f :: _ \<Rightarrow> nat) xs)"
  by (metis mset_map mset_sort sum_mset_sum_list)

lemma sum_list_filter_zero:
  "(\<And>x. x \<in> set xs \<Longrightarrow> \<not> P x \<Longrightarrow> f x = 0) \<Longrightarrow>
     sum_list (map f (filter P xs)) = sum_list (map (f :: _ \<Rightarrow> nat) xs)"
  by (induction xs) auto

lemma axis_table_offsets:
  assumes "length strides = length shape" "length c = length shape" "length c' = length shape"
  shows "(\<Sum>z\<leftarrow>axis_table shape strides c c'. fst (snd z) * snd (fst z)) = offset c strides"
    and "(\<Sum>z\<leftarrow>axis_table shape strides c c'. snd (snd z) * snd (fst z)) = offset c' strides"
proof -
  have "map (\<lambda>z. fst (snd z) * snd (fst z)) (axis_table shape strides c c') = map2 (*) c strides"
    and "map (\<lambda>z. snd (snd z) * snd (fst z)) (axis_table shape strides c c') = map2 (*) c' strides"
    using assms by (auto simp: axis_table_def intro!: nth_equalityI)
  then show "(\<Sum>z\<leftarrow>axis_table shape strides c c'. fst (snd z) * snd (fst z)) = offset c strides"
    and "(\<Sum>z\<leftarrow>axis_table shape strides c c'. snd (snd z) * snd (fst z)) = offset c' strides"
    by (simp_all add: offset_def)
qed

lemma axis_table_bounds:
  assumes "in_shape c shape" "in_shape c' shape" "z \<in> set (axis_table shape strides c c')"
  shows "fst (snd z) < fst (fst z) \<and> snd (snd z) < fst (fst z)"
  using assms by (auto simp: axis_table_def in_shape_nth set_zip)

lemma axis_table_varying:
  assumes "length strides = length shape" "length c = length shape" "length c' = length shape"
  shows "map fst (sort_key (snd \<circ> fst) (filter ((\<lambda>(d, _). d > 1) \<circ> fst)
      (axis_table shape strides c c'))) = varying_axes shape strides"
proof -
  have "map fst (axis_table shape strides c c') = zip shape strides"
    using assms by (simp add: axis_table_def)
  then show ?thesis
    by (simp add: map_sort_key varying_axes_def flip: filter_map)
qed

lemma span_addresses:
  assumes loop: "foldR storage_span_step (varying_axes shape strides) 1 = Inr span"
    and len: "length strides = length shape" and c: "in_shape c shape" and c': "in_shape c' shape"
  shows "offset c strides < span"
    and "offset c strides = offset c' strides \<Longrightarrow> c = c'"
proof -
  let ?t = "axis_table shape strides c c'"
  let ?P = "(\<lambda>(d, _). d > (1::nat)) \<circ> (fst :: (nat \<times> nat) \<times> nat \<times> nat \<Rightarrow> nat \<times> nat)"
  let ?zs = "sort_key (snd \<circ> fst) (filter ?P ?t)"
  note lens = len in_shape_length[OF c] in_shape_length[OF c']
  have bounds: "\<And>z. z \<in> set ?t \<Longrightarrow> fst (snd z) < fst (fst z) \<and> snd (snd z) < fst (fst z)"
    using axis_table_bounds[OF c c'] by blast
  have zero: "fst (snd z) = 0 \<and> snd (snd z) = 0" if "z \<in> set ?t" "\<not> ?P z" for z
    using bounds[OF that(1)] that(2) by (auto simp: case_prod_beta)
  have sums: "(\<Sum>z\<leftarrow>?zs. fst (snd z) * snd (fst z)) = offset c strides"
      "(\<Sum>z\<leftarrow>?zs. snd (snd z) * snd (fst z)) = offset c' strides"
    unfolding sum_list_sort_key axis_table_offsets[OF lens, symmetric]
    by (intro sum_list_filter_zero; use zero in force)+
  have loop': "foldR storage_span_step (map fst ?zs) 1 = Inr span"
    using loop axis_table_varying[OF lens] by simp
  have zs_bounds: "\<forall>z \<in> set ?zs. fst (snd z) < fst (fst z) \<and> snd (snd z) < fst (fst z)"
    using bounds by auto
  show "offset c strides < span"
    using span_loop(1)[OF loop' zs_bounds, of 0 0] sums by simp
  assume "offset c strides = offset c' strides"
  then have "\<forall>z \<in> set ?zs. fst (snd z) = snd (snd z)"
    using span_loop(2)[OF loop' zs_bounds, of 0 0] sums by simp
  with zero have "\<forall>z \<in> set ?t. fst (snd z) = snd (snd z)" by fastforce
  then have "c ! i = c' ! i" if "i < length shape" for i
    using that lens nth_mem[of i ?t] by (auto simp: axis_table_def)
  then show "c = c'" using lens by (auto intro: nth_equalityI)
qed

lemma validate_storage_Inr:
  assumes "validate_storage_strides ls ss n m = Inr u" and "n \<noteq> 0"
  shows "\<exists>span. foldR storage_span_step (varying_axes ls ss) 1 = Inr span \<and> span \<le> m"
proof -
  from assms obtain span where "foldR storage_span_step (varying_axes ls ss) 1 = Inr span"
    and "ensure (\<not> span > m) InvalidFormat = Inr u"
    unfolding validate_storage_strides_def bindR_Inr by (auto simp: bindR_Inr simp del: One_nat_def)
  then show ?thesis by auto
qed

section \<open>Consequences of the type invariant\<close>

lemma TensorFacts_new_fields:
  "TensorFacts_new ls ss lst sst r b = Inr F \<Longrightarrow>
     F = \<lparr>logical_shape = ls, storage_shape = ss, logical_strides = lst,
          storage_strides = sst, representation = r, byte_len = b\<rparr>"
  by (auto simp: TensorFacts_new_def bindR_Inr)

lemma TensorFacts_new_wf: "TensorFacts_new ls ss lst sst r b = Inr F \<Longrightarrow> wf_facts F"
  using TensorFacts_new_fields[of ls ss lst sst r b F]
  by (simp add: wf_facts_def TensorFacts_try_from_def)

lemma wf_facts_iff:
  "wf_facts F \<longleftrightarrow>
     length (logical_shape F) < u32_bound
   \<and> length (storage_shape F) = length (logical_shape F)
   \<and> length (logical_strides F) = length (logical_shape F)
   \<and> length (storage_strides F) = length (logical_shape F)
   \<and> checked_product (logical_shape F) = Inr (prod_list (logical_shape F))
   \<and> validate_dense_strides (logical_shape F) (logical_strides F) (prod_list (logical_shape F)) = Inr ()
   \<and> validate_storage_strides (logical_shape F) (storage_strides F)
        (prod_list (logical_shape F)) (prod_list (storage_shape F)) = Inr ()
   \<and> (layout (representation F) = Contiguous \<longrightarrow>
        storage_shape F = logical_shape F
        \<and> contiguous_strides (logical_shape F) = Inr (storage_strides F))
   \<and> DType_byte_len (dtype (representation F)) (storage_shape F) = Inr (byte_len F)"
  (is "_ \<longleftrightarrow> ?rhs")
proof
  assume "wf_facts F"
  then show ?rhs
    unfolding wf_facts_def TensorFacts_try_from_def TensorFacts_new_def
    by (auto simp: bindR_Inr validate_rank_Inr checked_element_count_eq
        dest: checked_product_exact split: if_splits)
next
  assume rhs: ?rhs
  then have "checked_product (storage_shape F) = Inr (prod_list (storage_shape F))"
    by (simp add: byte_len_Inr)
  moreover have "validate_rank (length (logical_shape F)) = Inr ()"
    using rhs by (simp add: validate_rank_Inr)
  ultimately show "wf_facts F"
    unfolding wf_facts_def TensorFacts_try_from_def TensorFacts_new_def checked_element_count_eq
    using rhs by simp
qed

definition width :: "TensorFacts \<Rightarrow> nat" where
  "width F = bits (dtype (representation F)) div 8"

lemma width_pos [simp]: "0 < width F"
  by (simp add: width_def)

lemma wf_facts_lengths:
  assumes "wf_facts F"
  shows "length (storage_shape F) = length (logical_shape F)"
    "length (logical_strides F) = length (logical_shape F)"
    "length (storage_strides F) = length (logical_shape F)"
    "length (logical_shape F) < u32_bound"
  using assms by (auto simp: wf_facts_iff)

lemma wf_facts_byte_len:
  assumes "wf_facts F"
  shows "byte_len F = prod_list (storage_shape F) * width F" "byte_len F < u64_bound"
  using assms by (auto simp: wf_facts_iff byte_len_Inr width_def)

lemma wf_facts_elements: "wf_facts F \<Longrightarrow> prod_list (logical_shape F) < u64_bound"
proof -
  assume "wf_facts F"
  then have "checked_product (logical_shape F) = Inr (prod_list (logical_shape F))"
    by (simp add: wf_facts_iff)
  then show "prod_list (logical_shape F) < u64_bound" by (simp add: checked_product_exact)
qed

text \<open>Physical addressing: inside the allocation and injective.\<close>

lemma wf_facts_addressing:
  assumes wf: "wf_facts F" and c: "in_shape c (logical_shape F)"
  shows "offset c (storage_strides F) < prod_list (storage_shape F)"
    and "in_shape c' (logical_shape F) \<Longrightarrow>
      offset c (storage_strides F) = offset c' (storage_strides F) \<Longrightarrow> c = c'"
proof -
  have nz: "prod_list (logical_shape F) \<noteq> 0" using in_shape_pos[OF c] by simp
  have "validate_storage_strides (logical_shape F) (storage_strides F)
      (prod_list (logical_shape F)) (prod_list (storage_shape F)) = Inr ()"
    using wf by (simp add: wf_facts_iff)
  from validate_storage_Inr[OF this nz] obtain span where
    loop: "foldR storage_span_step (varying_axes (logical_shape F) (storage_strides F)) 1 = Inr span"
    and le: "span \<le> prod_list (storage_shape F)" by blast
  note addr = span_addresses[OF loop wf_facts_lengths(3)[OF wf] c]
  show "offset c (storage_strides F) < prod_list (storage_shape F)"
    using addr(1)[OF c] le by simp
  show "in_shape c' (logical_shape F) \<Longrightarrow>
      offset c (storage_strides F) = offset c' (storage_strides F) \<Longrightarrow> c = c'"
    using addr(2) by blast
qed

lemma foldl_saturating_mul:
  "(\<forall>k < length ds. p * prod_list (take (Suc k) ds) < u64_bound) \<Longrightarrow>
     foldl saturating_mul p ds = p * prod_list ds"
proof (induction ds arbitrary: p)
  case Nil
  then show ?case by simp
next
  case (Cons d ds)
  have "p * d < u64_bound" using Cons.prems by (auto dest: spec[of _ 0])
  then have "saturating_mul p d = p * d" by (simp add: saturating_mul_def)
  moreover have "\<forall>k < length ds. (p * d) * prod_list (take (Suc k) ds) < u64_bound"
    using Cons.prems by (auto dest: spec[of _ "Suc _"] simp: mult.assoc)
  ultimately show ?case using Cons.IH[of "p * d"] by (simp add: mult.assoc)
qed

lemma element_count_wf: "wf_facts F \<Longrightarrow> element_count F = prod_list (logical_shape F)"
  unfolding element_count_def wf_facts_iff checked_product_Inr
  using foldl_saturating_mul[of "logical_shape F" 1] by simp

section \<open>Contiguous facts\<close>

lemma TensorFacts_contiguous_Inr:
  assumes "TensorFacts_contiguous shape r = Inr F"
  shows "wf_facts F" "logical_shape F = shape" "storage_shape F = shape"
    "logical_strides F = row_strides shape" "storage_strides F = row_strides shape"
    "representation F = r" "layout r = Contiguous" "is_canonical_contiguous F"
proof -
  from assms obtain strides bytes where r: "layout r = Contiguous"
    and st: "contiguous_strides shape = Inr strides"
    and new: "TensorFacts_new shape shape strides strides r bytes = Inr F"
    by (auto simp: TensorFacts_contiguous_def bindR_Inr)
  show "wf_facts F" using TensorFacts_new_wf[OF new] .
  have row: "strides = row_strides shape" using st by (simp add: contiguous_strides_Inr)
  show "logical_shape F = shape" "storage_shape F = shape"
    "logical_strides F = row_strides shape" "storage_strides F = row_strides shape"
    "representation F = r" "layout r = Contiguous" "is_canonical_contiguous F"
    using TensorFacts_new_fields[OF new] row r st by (simp_all add: is_canonical_contiguous_def)
qed

lemma canonical_fields:
  assumes "is_canonical_contiguous F"
  shows "layout (representation F) = Contiguous" "storage_shape F = logical_shape F"
    "logical_strides F = row_strides (logical_shape F)"
    "storage_strides F = row_strides (logical_shape F)"
    "contiguous_strides (logical_shape F) = Inr (row_strides (logical_shape F))"
  using assms by (auto simp: is_canonical_contiguous_def contiguous_strides_Inr split: sum.splits)

text \<open>
  The validators accept row-major strides: in order of stride the axes are met from the
  last to the first, and each span is the product of the dimensions met so far.
\<close>

lemma insort_key_last: "(\<forall>y \<in> set ys. f y < f x) \<Longrightarrow> insort_key f x ys = ys @ [x]"
  by (induction ys) auto

lemma varying_axes_below:
  assumes "0 \<notin> set ds" and "a \<in> set (varying_axes ds (row_strides ds))"
  shows "snd a < prod_list ds"
  using assms
proof (induction ds arbitrary: a)
  case Nil
  then show ?case by (simp add: varying_axes_def)
next
  case (Cons d ds)
  have pos: "0 < prod_list ds" using Cons.prems(1) by (intro prod_list_pos) auto
  consider "a = (d, prod_list ds)" "1 < d" | "a \<in> set (varying_axes ds (row_strides ds))"
    using Cons.prems(2) by (auto simp: varying_axes_def split: if_splits)
  then show ?case
  proof cases
    case 1
    then show ?thesis using pos by simp
  next
    case 2
    then have "snd a < prod_list ds" using Cons by simp
    moreover have "1 \<le> d" using Cons.prems(1) by (cases d) auto
    ultimately show ?thesis by (simp add: less_le_trans)
  qed
qed

lemma varying_axes_Cons:
  assumes "0 \<notin> set (d # ds)"
  shows "varying_axes (d # ds) (row_strides (d # ds)) =
    varying_axes ds (row_strides ds) @ (if 1 < d then [(d, prod_list ds)] else [])"
  using insort_key_last[of "varying_axes ds (row_strides ds)" snd "(d, prod_list ds)"]
    varying_axes_below[of ds] assms
  by (auto simp: varying_axes_def)

lemma row_strides_span:
  assumes "0 \<notin> set ds" and "prod_list ds < u64_bound"
  shows "foldR storage_span_step (varying_axes ds (row_strides ds)) 1 = Inr (prod_list ds)"
    and "foldR (\<lambda>(d, stride) expected.
               bindR (ensure (stride = expected) InvalidFormat) (\<lambda>_.
                 ok_or ResourceLimit (checked_mul expected d)))
             (varying_axes ds (row_strides ds)) 1 = Inr (prod_list ds)"
  using assms
proof (induction ds)
  case Nil
  { case 1 then show ?case by (simp add: varying_axes_def) }
  { case 2 then show ?case by (simp add: varying_axes_def) }
next
  case (Cons d ds)
  have d: "1 \<le> d" if "0 \<notin> set (d # ds)" using that by (cases d) auto
  have le: "prod_list ds < u64_bound" if "0 \<notin> set (d # ds)" "prod_list (d # ds) < u64_bound"
    using that d mult_less_bound[of "prod_list ds" d] by (simp add: mult.commute)
  { case 1
    have one: "d = 1" if "\<not> 1 < d" using d 1 that by simp
    have "storage_span_step (d, prod_list ds) (prod_list ds) = Inr (prod_list (d # ds))"
      using d 1 by (cases d) (auto simp: storage_span_step_Inr)
    with 1 Cons.IH(1) le one show ?case
      unfolding varying_axes_Cons[OF 1(1)] foldR_append by auto }
  { case 2
    have one: "d = 1" if "\<not> 1 < d" using d 2 that by simp
    with 2 Cons.IH(2) le show ?case
      unfolding varying_axes_Cons[OF 2(1)] foldR_append by (auto simp: checked_ok mult.commute) }
qed

lemma TensorFacts_contiguous_total:
  assumes nz: "0 \<notin> set shape" and rank: "length shape < u32_bound"
    and r: "layout r = Contiguous" and bytes: "prod_list shape * (bits (dtype r) div 8) < u64_bound"
  shows "\<exists>F. TensorFacts_contiguous shape r = Inr F"
proof -
  have prod: "prod_list shape < u64_bound" using bytes bits_pos by (rule mult_less_bound)
  have "0 < prod_list shape" using nz by (rule prod_list_pos)
  then have dense: "validate_dense_strides shape (row_strides shape) (prod_list shape) = Inr ()"
    and stor: "validate_storage_strides shape (row_strides shape) (prod_list shape) (prod_list shape) = Inr ()"
    using row_strides_span[OF nz prod]
    by (simp_all add: validate_dense_strides_def validate_storage_strides_def)
  have "DType_byte_len (dtype r) shape = Inr (prod_list shape * (bits (dtype r) div 8))"
    using bytes checked_product_nonzero[OF nz prod] by (simp add: byte_len_Inr)
  then show ?thesis
    using contiguous_strides_nonzero[OF nz prod rank] checked_product_nonzero[OF nz prod] r rank
      dense stor
    by (simp add: TensorFacts_contiguous_def TensorFacts_new_def checked_element_count_eq
        validate_rank_def try_from_ok)
qed

text \<open>Evaluation of the constructors on concrete geometry.\<close>

lemmas facts_eval = TensorFacts_new_def TensorFacts_contiguous_def validate_rank_def
  checked_element_count_def contiguous_strides_def strides_step_def varying_axes_def
  validate_dense_strides_def storage_span_step_def validate_storage_strides_def
  DType_byte_len_def checked_product_def checked_simps bindR_def ensure_def ok_or_def

end
