(* ===== verification/MW_Operation.thy ===== *)
theory MW_Operation
  imports MW_Facts
begin

text \<open>
  operation.rs, the typed operations: axis ranges, permutations, padding, slices, splits and
  reshapes with their checked constructors, and the inference of output facts from input
  facts (\<open>infer_outputs\<close>), which runs before any storage is allocated.
\<close>

section \<open>Operation parameters\<close>

type_synonym Axis = nat

definition Axis_try_from :: "nat \<Rightarrow> Axis result" where
  "Axis_try_from index = u32_try_from index"

definition Axis_as_usize :: "Axis \<Rightarrow> nat result" where
  "Axis_as_usize axis = usize_try_from axis"

record AxisRange =
  ar_start :: nat
  ar_end :: nat

definition AxisRange_new :: "nat \<Rightarrow> nat \<Rightarrow> AxisRange result" where
  "AxisRange_new s t =
     bindR (ensure (\<not> s > t) InvalidFormat) (\<lambda>_. Inr \<lparr>ar_start = s, ar_end = t\<rparr>)"

text \<open>\<open>AxisRange::len\<close> subtracts without a check.\<close>

definition AxisRange_len :: "AxisRange \<Rightarrow> nat" where
  "AxisRange_len r = wrapping_sub (ar_end r) (ar_start r)"

definition AxisRange_is_empty :: "AxisRange \<Rightarrow> bool" where
  "AxisRange_is_empty r = (ar_start r = ar_end r)"

definition permutation_step :: "nat \<Rightarrow> bool list \<Rightarrow> bool list result" where
  "permutation_step axis seen =
     bindR (usize_try_from axis) (\<lambda>index.
     bindR (ensure (index < length seen) InvalidFormat) (\<lambda>_.
     bindR (ensure (\<not> seen ! index) InvalidFormat) (\<lambda>_.
       Inr (seen[index := True]))))"

definition validate_permutation :: "nat list \<Rightarrow> unit result" where
  "validate_permutation order =
     bindR (validate_rank (length order)) (\<lambda>_.
     bindR (foldR permutation_step
            order (replicate (length order) False)) (\<lambda>_.
       Inr ()))"

definition permutation_indices :: "nat list \<Rightarrow> nat list result" where
  "permutation_indices order = mapR usize_try_from order"

definition is_identity_order :: "nat list \<Rightarrow> bool" where
  "is_identity_order order = list_all (\<lambda>(index, axis). usize_try_from axis = Inr index)
     (enumerate 0 order)"

definition validate_axis :: "Axis \<Rightarrow> nat \<Rightarrow> nat result" where
  "validate_axis axis rank =
     bindR (Axis_as_usize axis) (\<lambda>axis.
     bindR (ensure (\<not> axis \<ge> rank) Binding) (\<lambda>_. Inr axis))"

definition validate_range :: "AxisRange \<Rightarrow> nat \<Rightarrow> unit result" where
  "validate_range r dimension =
     ensure (\<not> (ar_start r > ar_end r \<or> ar_end r > dimension)) Binding"

definition validate_host_len :: "nat \<Rightarrow> nat result" where
  "validate_host_len n = usize_try_from n"

datatype PermuteMode = Logical | Storage Layout

record Permute =
  permute_order :: "nat list"
  permute_mode :: PermuteMode

definition Permute_new :: "nat list \<Rightarrow> PermuteMode \<Rightarrow> Permute result" where
  "Permute_new order mode =
     bindR (validate_permutation order) (\<lambda>_. Inr \<lparr>permute_order = order, permute_mode = mode\<rparr>)"

definition Permute_logical :: "nat list \<Rightarrow> Permute result" where
  "Permute_logical order = Permute_new order Logical"

definition Permute_storage :: "nat list \<Rightarrow> Layout \<Rightarrow> Permute result" where
  "Permute_storage order target_layout = Permute_new order (Storage target_layout)"

record Pad =
  pad_order :: "nat list"
  pad_storage_shape :: "nat list"
  pad_target_layout :: Layout

definition Pad_storage_zero :: "nat list \<Rightarrow> nat list \<Rightarrow> Layout \<Rightarrow> Pad result" where
  "Pad_storage_zero order shape target_layout =
     bindR (validate_permutation order) (\<lambda>_.
     bindR (ensure (length order = length shape) InvalidFormat) (\<lambda>_.
       Inr \<lparr>pad_order = order, pad_storage_shape = shape, pad_target_layout = target_layout\<rparr>))"

record Split =
  split_axis :: Axis
  split_ranges :: "AxisRange list"

definition Split_new :: "Axis \<Rightarrow> AxisRange list \<Rightarrow> Split result" where
  "Split_new axis ranges =
     bindR (ensure (ranges \<noteq> []) InvalidFormat) (\<lambda>_.
     bindR (foldR (\<lambda>r previous_end.
              bindR (ensure (\<not> AxisRange_is_empty r) InvalidFormat) (\<lambda>_.
              bindR (ensure (\<not> (case previous_end of None \<Rightarrow> False | Some e \<Rightarrow> ar_start r < e))
                       InvalidFormat) (\<lambda>_.
                Inr (Some (ar_end r)))))
            ranges None) (\<lambda>_.
       Inr \<lparr>split_axis = axis, split_ranges = ranges\<rparr>))"

datatype Operation =
    Concat Axis
  | Permute Permute
  | Pad Pad
  | Slice "AxisRange list"
  | Split Split
  | Reshape "nat list"
  | Prepare PlannedTransform

definition builtin_operation_name :: "Operation \<Rightarrow> string" where
  "builtin_operation_name op = (case op of
     Concat _ \<Rightarrow> ''concat'' | Permute _ \<Rightarrow> ''permute'' | Pad _ \<Rightarrow> ''pad'' | Slice _ \<Rightarrow> ''slice''
   | Split _ \<Rightarrow> ''split'' | Reshape _ \<Rightarrow> ''reshape'' | Prepare _ \<Rightarrow> [])"

definition builtin_implementation :: "Operation \<Rightarrow> ImplementationId result" where
  "builtin_implementation op = (case op of
     Prepare transform \<Rightarrow> Inr (transform_implementation (planned_transform transform))
   | _ \<Rightarrow>
     bindR (StableName_parse ''model-weights'') (\<lambda>provider.
     bindR (StableName_parse (builtin_operation_name op)) (\<lambda>operation.
       Inr (ImplementationId_new provider operation 1))))"

section \<open>Inference of output facts\<close>

definition one_input :: "TensorFacts list \<Rightarrow> TensorFacts result" where
  "one_input inputs = (case inputs of [input] \<Rightarrow> Inr input | _ \<Rightarrow> Inl Binding)"

text \<open>One input of a concatenation: rank, dtype and the other dimensions must agree.\<close>

definition concat_step ::
    "nat \<Rightarrow> nat \<Rightarrow> TensorFacts \<Rightarrow> TensorFacts \<Rightarrow> nat list \<Rightarrow> nat list result" where
  "concat_step axis rank first input output_shape =
     bindR (ensure (length (logical_shape input) = rank) Binding) (\<lambda>_.
     bindR (ensure (dtype (representation input) = dtype (representation first)) Binding) (\<lambda>_.
     bindR (ensure (\<not> list_ex (\<lambda>(index, actual, expected). index \<noteq> axis \<and> actual \<noteq> expected)
              (enumerate 0 (zip (logical_shape input) (logical_shape first)))) Binding) (\<lambda>_.
     bindR (ok_or ResourceLimit
              (checked_add (output_shape ! axis) (logical_shape input ! axis))) (\<lambda>n.
       Inr (output_shape[axis := n])))))"

definition infer_concat :: "Axis \<Rightarrow> TensorFacts list \<Rightarrow> TensorFacts list result" where
  "infer_concat concat_axis inputs =
     bindR (ensure (\<not> length inputs < 2) Binding) (\<lambda>_.
     let first = inputs ! 0; rank = length (logical_shape first) in
     bindR (validate_axis concat_axis rank) (\<lambda>axis.
     bindR (foldR (concat_step axis rank first) inputs ((logical_shape first)[axis := 0])) (\<lambda>output_shape.
     bindR (TensorFacts_contiguous output_shape
              (Representation_contiguous (dtype (representation first)))) (\<lambda>facts.
       Inr [facts]))))"

text \<open>\<open>storage_strides[logical_axis] = physical_strides[physical_axis]\<close> for every axis.\<close>

definition scatter_strides :: "nat list \<Rightarrow> nat list \<Rightarrow> nat \<Rightarrow> nat list" where
  "scatter_strides order physical rank =
     fold (\<lambda>(physical_axis, logical_axis) strides. strides[logical_axis := physical ! physical_axis])
       (enumerate 0 order) (replicate rank 0)"

definition infer_permute :: "Permute \<Rightarrow> TensorFacts \<Rightarrow> TensorFacts list result" where
  "infer_permute permute input =
     bindR (validate_permutation (permute_order permute)) (\<lambda>_.
     bindR (ensure (length (permute_order permute) = length (logical_shape input)) Binding) (\<lambda>_.
     bindR (permutation_indices (permute_order permute)) (\<lambda>order.
     let dt = dtype (representation input);
         shape = map (\<lambda>axis. logical_shape input ! axis) order in
     bindR (case permute_mode permute of
         Logical \<Rightarrow> TensorFacts_contiguous shape (Representation_contiguous dt)
       | Storage target_layout \<Rightarrow>
           bindR (ensure (\<not> (is_contiguous target_layout
                     \<and> list_ex (\<lambda>(axis, source). axis \<noteq> source) (enumerate 0 order))) Binding) (\<lambda>_.
           bindR (contiguous_strides shape) (\<lambda>physical_axis_strides.
           bindR (DType_byte_len dt shape) (\<lambda>bytes.
             TensorFacts_new (logical_shape input) shape (logical_strides input)
               (scatter_strides order physical_axis_strides (length order))
               (Representation_new dt target_layout) bytes)))) (\<lambda>output.
       Inr [output]))))"

definition infer_pad :: "Pad \<Rightarrow> TensorFacts \<Rightarrow> TensorFacts list result" where
  "infer_pad pad input =
     bindR (validate_permutation (pad_order pad)) (\<lambda>_.
     let rank = length (logical_shape input) in
     bindR (ensure (\<not> (length (pad_order pad) \<noteq> rank \<or> length (pad_storage_shape pad) \<noteq> rank)) Binding) (\<lambda>_.
     bindR (ensure (\<not> is_contiguous (pad_target_layout pad)) Binding) (\<lambda>_.
     bindR (permutation_indices (pad_order pad)) (\<lambda>order.
     bindR (foldR (\<lambda>(physical_axis, logical_axis) has_padding.
              let logical = logical_shape input ! logical_axis;
                  physical = pad_storage_shape pad ! physical_axis in
              bindR (ensure (\<not> physical < logical) Binding) (\<lambda>_.
                Inr (has_padding \<or> physical > logical)))
            (enumerate 0 order) False) (\<lambda>has_padding.
     bindR (ensure has_padding Binding) (\<lambda>_.
     bindR (contiguous_strides (pad_storage_shape pad)) (\<lambda>physical_strides.
     let dt = dtype (representation input) in
     bindR (DType_byte_len dt (pad_storage_shape pad)) (\<lambda>bytes.
     bindR (TensorFacts_new (logical_shape input) (pad_storage_shape pad) (logical_strides input)
              (scatter_strides order physical_strides rank)
              (Representation_new dt (pad_target_layout pad)) bytes) (\<lambda>facts.
       Inr [facts])))))))))"

definition infer_slice :: "AxisRange list \<Rightarrow> TensorFacts \<Rightarrow> TensorFacts list result" where
  "infer_slice ranges input =
     bindR (ensure (length ranges = length (logical_shape input)) Binding) (\<lambda>_.
     bindR (mapR (\<lambda>(rng, dimension).
              bindR (validate_range rng dimension) (\<lambda>_. Inr (AxisRange_len rng)))
            (zip ranges (logical_shape input))) (\<lambda>output_shape.
     bindR (TensorFacts_contiguous output_shape
              (Representation_contiguous (dtype (representation input)))) (\<lambda>facts.
       Inr [facts])))"

definition split_step ::
    "nat \<Rightarrow> TensorFacts \<Rightarrow> AxisRange \<Rightarrow> nat option \<times> TensorFacts list
       \<Rightarrow> (nat option \<times> TensorFacts list) result" where
  "split_step axis input rng st =
     bindR (ensure (\<not> AxisRange_is_empty rng) Binding) (\<lambda>_.
     bindR (validate_range rng (logical_shape input ! axis)) (\<lambda>_.
     bindR (ensure (\<not> (case fst st of None \<Rightarrow> False | Some e \<Rightarrow> ar_start rng < e)) Binding) (\<lambda>_.
     bindR (TensorFacts_contiguous ((logical_shape input)[axis := AxisRange_len rng])
              (Representation_contiguous (dtype (representation input)))) (\<lambda>facts.
       Inr (Some (ar_end rng), snd st @ [facts])))))"

definition infer_split :: "Split \<Rightarrow> TensorFacts \<Rightarrow> TensorFacts list result" where
  "infer_split split input =
     bindR (validate_axis (split_axis split) (length (logical_shape input))) (\<lambda>axis.
     bindR (foldR (split_step axis input) (split_ranges split) (None, [])) (\<lambda>st.
     bindR (ensure (snd st \<noteq> []) Binding) (\<lambda>_.
       Inr (snd st))))"

definition infer_reshape :: "nat list \<Rightarrow> TensorFacts \<Rightarrow> TensorFacts list result" where
  "infer_reshape shape input =
     bindR (ensure (is_canonical_contiguous input) Binding) (\<lambda>_.
     bindR (validate_rank (length shape)) (\<lambda>_.
     bindR (checked_element_count shape) (\<lambda>output_elements.
     bindR (ensure (output_elements = element_count input) Binding) (\<lambda>_.
     bindR (TensorFacts_contiguous shape (representation input)) (\<lambda>facts.
       Inr [facts])))))"

definition infer_prepare :: "PlannedTransform \<Rightarrow> TensorFacts \<Rightarrow> TensorFacts list result" where
  "infer_prepare transform input =
     (let spec = planned_transform transform in
     bindR (ensure (is_canonical_contiguous input) Binding) (\<lambda>_.
     bindR (ensure (transform_source spec = representation input) Binding) (\<lambda>_.
     bindR (ensure (\<not> (\<not> is_contiguous (layout (transform_source spec))
                       \<or> \<not> is_contiguous (layout (transform_target spec)))) Binding) (\<lambda>_.
     bindR (DType_byte_len (dtype (transform_target spec)) (logical_shape input)) (\<lambda>expected.
     bindR (ensure (output_size transform = expected) Binding) (\<lambda>_.
     bindR (validate_host_len (output_size transform)) (\<lambda>_.
     bindR (validate_host_len (transform_scratch transform)) (\<lambda>_.
     bindR (TensorFacts_contiguous (logical_shape input) (transform_target spec)) (\<lambda>facts.
       Inr [facts])))))))))"

definition infer_outputs :: "Operation \<Rightarrow> TensorFacts list \<Rightarrow> TensorFacts list result" where
  "infer_outputs operation inputs = (case operation of
     Concat axis \<Rightarrow> infer_concat axis inputs
   | Permute permute \<Rightarrow> bindR (one_input inputs) (infer_permute permute)
   | Pad pad \<Rightarrow> bindR (one_input inputs) (infer_pad pad)
   | Slice ranges \<Rightarrow> bindR (one_input inputs) (infer_slice ranges)
   | Split split \<Rightarrow> bindR (one_input inputs) (infer_split split)
   | Reshape shape \<Rightarrow> bindR (one_input inputs) (infer_reshape shape)
   | Prepare transform \<Rightarrow> bindR (one_input inputs) (infer_prepare transform))"

section \<open>Permutations\<close>

lemma permutation_step_Inr:
  "permutation_step axis seen = Inr seen' \<longleftrightarrow>
     axis < usize_bound \<and> axis < length seen \<and> \<not> seen ! axis \<and> seen' = seen[axis := True]"
  by (auto simp: permutation_step_def bindR_Inr try_from_Inr)

lemma permutation_loop:
  "length seen < u32_bound \<Longrightarrow>
   (\<exists>seen'. foldR permutation_step order seen = Inr seen') \<longleftrightarrow>
     distinct order \<and> (\<forall>a \<in> set order. a < length seen \<and> \<not> seen ! a)"
proof (induction order arbitrary: seen)
  case Nil
  then show ?case by simp
next
  case (Cons a order)
  have us: "a < usize_bound" if "a < length seen"
    using that Cons.prems by (simp add: u32_bound_def usize_bound_def)
  have "(\<exists>seen'. foldR permutation_step (a # order) seen = Inr seen') \<longleftrightarrow>
      a < length seen \<and> \<not> seen ! a \<and> (\<exists>seen'. foldR permutation_step order (seen[a := True]) = Inr seen')"
    using us by (auto simp: bindR_Inr permutation_step_Inr)
  also have "\<dots> \<longleftrightarrow> a < length seen \<and> \<not> seen ! a \<and> distinct order
      \<and> (\<forall>b \<in> set order. b < length seen \<and> \<not> (seen[a := True]) ! b)"
    using Cons.IH[of "seen[a := True]"] Cons.prems by simp
  also have "\<dots> \<longleftrightarrow> distinct (a # order) \<and> (\<forall>b \<in> set (a # order). b < length seen \<and> \<not> seen ! b)"
    by (auto simp: nth_list_update split: if_splits)
  finally show ?case .
qed

lemma validate_permutation_Inr:
  "validate_permutation order = Inr u \<longleftrightarrow>
     length order < u32_bound \<and> distinct order \<and> set order = {..<length order}"
proof -
  have "validate_permutation order = Inr u \<longleftrightarrow>
      length order < u32_bound \<and> distinct order \<and> (\<forall>a \<in> set order. a < length order)"
    using permutation_loop[of "replicate (length order) False" order]
    by (auto simp: validate_permutation_def bindR_Inr validate_rank_Inr)
  moreover have "set order = {..<length order}"
    if "distinct order" "\<forall>a \<in> set order. a < length order"
    using that by (intro card_subset_eq) (auto simp: distinct_card)
  ultimately show ?thesis by auto
qed

lemma permutation_indices_valid:
  assumes "validate_permutation order = Inr ()"
  shows "permutation_indices order = Inr order"
proof -
  have "usize_try_from a = Inr a" if "a \<in> set order" for a
  proof -
    have "a < length order" "length order < u32_bound"
      using assms that by (auto simp: validate_permutation_Inr)
    then show ?thesis by (simp add: try_from_ok u32_bound_def usize_bound_def)
  qed
  then show ?thesis
    using mapR_all_Inr[of order usize_try_from "\<lambda>a. a"] by (simp add: permutation_indices_def)
qed

lemma prod_list_permute:
  assumes "distinct order" "set order = {..<length xs}"
  shows "prod_list (map (\<lambda>a. (xs :: nat list) ! a) order) = prod_list xs"
proof -
  have "mset order = mset [0..<length xs]"
    using assms set_eq_iff_mset_eq_distinct[of order "[0..<length xs]"] by (simp add: atLeast0LessThan)
  then have "mset (map ((!) xs) order) = mset (map ((!) xs) [0..<length xs])"
    unfolding mset_map by (rule arg_cong)
  then have "prod_mset (mset (map ((!) xs) order)) = prod_mset (mset (map ((!) xs) [0..<length xs]))"
    by (rule arg_cong)
  then show ?thesis unfolding prod_mset_prod_list map_nth .
qed

end
