(* ===== verification/MW_Inference.thy ===== *)
theory MW_Inference
  imports MW_Operation
begin

text \<open>
  What inference guarantees: every inferred value satisfies the type invariant of tensor
  facts, and its geometry is the one the operation describes. Storage permutations and
  padding place the element with logical coordinates \<open>c\<close> at the row-major index of the
  permuted coordinates in the physical shape.
\<close>

section \<open>Concatenation\<close>

definition concat_compatible :: "nat \<Rightarrow> TensorFacts \<Rightarrow> TensorFacts \<Rightarrow> bool" where
  "concat_compatible axis first input \<longleftrightarrow>
     length (logical_shape input) = length (logical_shape first)
   \<and> dtype (representation input) = dtype (representation first)
   \<and> (\<forall>i < length (logical_shape first). i \<noteq> axis \<longrightarrow>
        logical_shape input ! i = logical_shape first ! i)"

lemma concat_step_Inr:
  "concat_step axis (length (logical_shape first)) first input sh = Inr sh' \<longleftrightarrow>
     concat_compatible axis first input
   \<and> sh ! axis + logical_shape input ! axis < u64_bound
   \<and> sh' = sh[axis := sh ! axis + logical_shape input ! axis]"
proof -
  have "list_ex (\<lambda>(index, actual, expected). index \<noteq> axis \<and> actual \<noteq> expected)
      (enumerate 0 (zip (logical_shape input) (logical_shape first))) \<longleftrightarrow>
      (\<exists>i < length (logical_shape first). i \<noteq> axis \<and> logical_shape input ! i \<noteq> logical_shape first ! i)"
    if "length (logical_shape input) = length (logical_shape first)"
    using that by (auto simp: list_ex_length nth_enumerate_eq)
  then show ?thesis
    by (auto simp: concat_step_def bindR_Inr checked_Some concat_compatible_def)
qed

lemma concat_loop:
  assumes "axis < length sh"
    and "foldR (concat_step axis (length (logical_shape first)) first) inputs sh = Inr sh'"
  shows "(\<forall>input \<in> set inputs. concat_compatible axis first input)
    \<and> sh' = sh[axis := sh ! axis + (\<Sum>input\<leftarrow>inputs. logical_shape input ! axis)]"
  using assms
proof (induction inputs arbitrary: sh)
  case Nil
  then show ?case by simp
next
  case (Cons input inputs)
  from Cons.prems(2) obtain sh1 where
    step: "concat_step axis (length (logical_shape first)) first input sh = Inr sh1"
    and rest: "foldR (concat_step axis (length (logical_shape first)) first) inputs sh1 = Inr sh'"
    by (auto simp: bindR_Inr)
  from step have sh1: "sh1 = sh[axis := sh ! axis + logical_shape input ! axis]"
    and comp: "concat_compatible axis first input" by (simp_all add: concat_step_Inr)
  have "axis < length sh1" using Cons.prems(1) sh1 by simp
  from Cons.IH[OF this rest] comp sh1 Cons.prems(1) show ?case by (simp add: add.assoc)
qed

lemma validate_axis_Inr:
  "validate_axis axis rank = Inr a \<longleftrightarrow> a = axis \<and> axis < rank \<and> axis < usize_bound"
  by (auto simp: validate_axis_def Axis_as_usize_def bindR_Inr try_from_Inr)

lemma infer_concat_Inr:
  assumes "infer_concat axis inputs = Inr outs"
  shows "\<exists>F. outs = [F] \<and> 2 \<le> length inputs \<and> axis < length (logical_shape (inputs ! 0))
    \<and> TensorFacts_contiguous
        ((logical_shape (inputs ! 0))[axis := (\<Sum>input\<leftarrow>inputs. logical_shape input ! axis)])
        (Representation_contiguous (dtype (representation (inputs ! 0)))) = Inr F
    \<and> (\<forall>input \<in> set inputs. concat_compatible axis (inputs ! 0) input)"
proof -
  let ?first = "inputs ! 0"
  from assms obtain sh F where len: "2 \<le> length inputs" and ax: "axis < length (logical_shape ?first)"
    and loop: "foldR (concat_step axis (length (logical_shape ?first)) ?first) inputs
      ((logical_shape ?first)[axis := 0]) = Inr sh"
    and F: "TensorFacts_contiguous sh (Representation_contiguous (dtype (representation ?first))) = Inr F"
    and outs: "outs = [F]"
    unfolding infer_concat_def Let_def bindR_Inr by (auto simp: validate_axis_Inr bindR_Inr)
  from concat_loop[OF _ loop] ax have
    "\<forall>input \<in> set inputs. concat_compatible axis ?first input"
    "sh = (logical_shape ?first)[axis := (\<Sum>input\<leftarrow>inputs. logical_shape input ! axis)]"
    by simp_all
  with len ax F outs show ?thesis by blast
qed

section \<open>Scattered strides\<close>

lemma scatter_fold:
  assumes "distinct order" "set order \<subseteq> {..<length init}"
  shows "length (fold (\<lambda>(p, l) strides. strides[l := physical ! p]) (enumerate m order) init) = length init
    \<and> (\<forall>k < length order.
      fold (\<lambda>(p, l) strides. strides[l := physical ! p]) (enumerate m order) init ! (order ! k)
        = physical ! (m + k))
    \<and> (\<forall>x. x \<notin> set order \<longrightarrow>
      fold (\<lambda>(p, l) strides. strides[l := physical ! p]) (enumerate m order) init ! x = init ! x)"
  using assms
proof (induction order arbitrary: m init)
  case Nil
  then show ?case by simp
next
  case (Cons a order)
  let ?init = "init[a := physical ! m]"
  let ?r = "fold (\<lambda>(p, l) strides. strides[l := physical ! p]) (enumerate (Suc m) order) ?init"
  have IH: "length ?r = length ?init \<and> (\<forall>k < length order. ?r ! (order ! k) = physical ! (Suc m + k))
      \<and> (\<forall>x. x \<notin> set order \<longrightarrow> ?r ! x = ?init ! x)"
    using Cons.prems by (intro Cons.IH) auto
  have a: "?r ! a = physical ! m" using IH Cons.prems by simp
  have k: "?r ! ((a # order) ! k) = physical ! (m + k)" if "k < length (a # order)" for k
    using that a IH by (cases k) auto
  have x: "?r ! x = init ! x" if "x \<notin> set (a # order)" for x
    using that IH by simp
  show ?case using IH k x by simp
qed

lemma scatter_strides_nth:
  assumes "distinct order" "set order = {..<rank}" "length order = rank"
  shows "length (scatter_strides order physical rank) = rank"
    and "k < rank \<Longrightarrow> scatter_strides order physical rank ! (order ! k) = physical ! k"
proof -
  have "set order \<subseteq> {..<length (replicate rank (0::nat))}" using assms(2) by simp
  from scatter_fold[OF assms(1) this, of physical 0] assms(3)
  show "length (scatter_strides order physical rank) = rank"
    and "k < rank \<Longrightarrow> scatter_strides order physical rank ! (order ! k) = physical ! k"
    by (simp_all add: scatter_strides_def)
qed

lemma offset_nth: "length c = length ss \<Longrightarrow> offset c ss = (\<Sum>i<length ss. c ! i * ss ! i)"
  by (simp add: offset_def sum_list_sum_nth atLeast0LessThan)

text \<open>Scattering the strides of the physical axes permutes the coordinates.\<close>

lemma offset_scatter:
  assumes perm: "distinct order" "set order = {..<rank}" "length order = rank"
    and len: "length physical = rank" "length c = rank"
  shows "offset c (scatter_strides order physical rank) = offset (map ((!) c) order) physical"
proof -
  let ?ss = "scatter_strides order physical rank"
  have inj: "inj_on ((!) order) {..<rank}" using perm(1,3) by (simp add: inj_on_nth)
  have img: "(!) order ` {..<rank} = {..<rank}"
    using perm by (metis image_ident lessThan_atLeast0 list.set_map map_nth set_upt)
  have "offset c ?ss = (\<Sum>i<rank. c ! i * ?ss ! i)"
    using len perm by (simp add: offset_nth scatter_strides_nth)
  also have "\<dots> = (\<Sum>k<rank. c ! (order ! k) * ?ss ! (order ! k))"
    using sum.reindex[OF inj, of "\<lambda>i. c ! i * ?ss ! i"] img by simp
  also have "\<dots> = (\<Sum>k<rank. map ((!) c) order ! k * physical ! k)"
    using perm by (intro sum.cong) (simp_all add: scatter_strides_nth)
  also have "\<dots> = offset (map ((!) c) order) physical"
    using len perm by (simp add: offset_nth)
  finally show ?thesis .
qed

section \<open>Unary operations\<close>

lemma infer_permute_logical:
  assumes "infer_permute p input = Inr outs" and "permute_mode p = Logical"
  shows "\<exists>F. outs = [F] \<and> validate_permutation (permute_order p) = Inr ()
    \<and> length (permute_order p) = length (logical_shape input)
    \<and> TensorFacts_contiguous (map ((!) (logical_shape input)) (permute_order p))
        (Representation_contiguous (dtype (representation input))) = Inr F"
  using assms permutation_indices_valid[of "permute_order p"]
  by (auto simp: infer_permute_def bindR_Inr Let_def)

lemma infer_permute_storage:
  assumes "infer_permute p input = Inr outs" and "permute_mode p = Storage target"
  shows "\<exists>F. outs = [F] \<and> validate_permutation (permute_order p) = Inr ()
    \<and> length (permute_order p) = length (logical_shape input)
    \<and> wf_facts F \<and> logical_shape F = logical_shape input
    \<and> storage_shape F = map ((!) (logical_shape input)) (permute_order p)
    \<and> storage_strides F = scatter_strides (permute_order p) (row_strides (storage_shape F))
        (length (permute_order p))
    \<and> representation F = Representation_new (dtype (representation input)) target"
proof -
  let ?shape = "map ((!) (logical_shape input)) (permute_order p)"
  from assms obtain strides bytes F where perm: "validate_permutation (permute_order p) = Inr ()"
    and len: "length (permute_order p) = length (logical_shape input)"
    and st: "contiguous_strides ?shape = Inr strides"
    and new: "TensorFacts_new (logical_shape input) ?shape (logical_strides input)
      (scatter_strides (permute_order p) strides (length (permute_order p)))
      (Representation_new (dtype (representation input)) target) bytes = Inr F"
    and outs: "outs = [F]"
    using permutation_indices_valid[of "permute_order p"]
    by (auto simp: infer_permute_def bindR_Inr Let_def)
  have "strides = row_strides ?shape" using st by (simp add: contiguous_strides_Inr)
  with perm len outs TensorFacts_new_wf[OF new] TensorFacts_new_fields[OF new]
  show ?thesis by auto
qed

lemma infer_pad_Inr:
  assumes "infer_pad pad input = Inr outs"
  shows "\<exists>F. outs = [F] \<and> validate_permutation (pad_order pad) = Inr ()
    \<and> length (pad_order pad) = length (logical_shape input)
    \<and> wf_facts F \<and> logical_shape F = logical_shape input
    \<and> storage_shape F = pad_storage_shape pad
    \<and> storage_strides F = scatter_strides (pad_order pad) (row_strides (pad_storage_shape pad))
        (length (logical_shape input))
    \<and> representation F = Representation_new (dtype (representation input)) (pad_target_layout pad)"
proof -
  let ?rank = "length (logical_shape input)"
  from assms obtain strides bytes F where perm: "validate_permutation (pad_order pad) = Inr ()"
    and len: "length (pad_order pad) = ?rank"
    and st: "contiguous_strides (pad_storage_shape pad) = Inr strides"
    and new: "TensorFacts_new (logical_shape input) (pad_storage_shape pad) (logical_strides input)
      (scatter_strides (pad_order pad) strides ?rank)
      (Representation_new (dtype (representation input)) (pad_target_layout pad)) bytes = Inr F"
    and outs: "outs = [F]"
    using permutation_indices_valid[of "pad_order pad"]
    unfolding infer_pad_def Let_def bindR_Inr by (auto simp: bindR_Inr)
  have "strides = row_strides (pad_storage_shape pad)" using st by (simp add: contiguous_strides_Inr)
  with perm len outs TensorFacts_new_wf[OF new] TensorFacts_new_fields[OF new]
  show ?thesis by auto
qed

lemma validate_range_Inr:
  "validate_range r d = Inr u \<longleftrightarrow> ar_start r \<le> ar_end r \<and> ar_end r \<le> d"
  by (auto simp: validate_range_def)

lemma AxisRange_len_ordered: "ar_start r \<le> ar_end r \<Longrightarrow> AxisRange_len r = ar_end r - ar_start r"
  by (simp add: AxisRange_len_def wrapping_sub_def)

lemma infer_slice_Inr:
  assumes "infer_slice ranges input = Inr outs"
  shows "\<exists>F. outs = [F] \<and> length ranges = length (logical_shape input)
    \<and> (\<forall>i < length ranges. ar_start (ranges ! i) \<le> ar_end (ranges ! i)
         \<and> ar_end (ranges ! i) \<le> logical_shape input ! i)
    \<and> TensorFacts_contiguous (map (\<lambda>r. ar_end r - ar_start r) ranges)
        (Representation_contiguous (dtype (representation input))) = Inr F"
proof -
  from assms obtain sh F where len: "length ranges = length (logical_shape input)"
    and sh: "mapR (\<lambda>(rng, dimension).
              bindR (validate_range rng dimension) (\<lambda>_. Inr (AxisRange_len rng)))
            (zip ranges (logical_shape input)) = Inr sh"
    and F: "TensorFacts_contiguous sh (Representation_contiguous (dtype (representation input))) = Inr F"
    and outs: "outs = [F]"
    by (auto simp: infer_slice_def bindR_Inr)
  have each: "ar_start (ranges ! i) \<le> ar_end (ranges ! i) \<and> ar_end (ranges ! i) \<le> logical_shape input ! i
      \<and> sh ! i = ar_end (ranges ! i) - ar_start (ranges ! i)" if "i < length ranges" for i
    using sh that len by (auto simp: mapR_Inr bindR_Inr validate_range_Inr AxisRange_len_ordered)
  moreover have "sh = map (\<lambda>r. ar_end r - ar_start r) ranges"
    using sh len each by (intro nth_equalityI) (auto simp: mapR_Inr)
  ultimately show ?thesis using len F outs by blast
qed

text \<open>Split ranges are non-empty, inside the axis, ordered and disjoint.\<close>

definition split_output :: "nat \<Rightarrow> TensorFacts \<Rightarrow> AxisRange \<Rightarrow> TensorFacts \<Rightarrow> bool" where
  "split_output axis input r F \<longleftrightarrow>
     ar_start r < ar_end r \<and> ar_end r \<le> logical_shape input ! axis
   \<and> TensorFacts_contiguous ((logical_shape input)[axis := ar_end r - ar_start r])
       (Representation_contiguous (dtype (representation input))) = Inr F"

lemma split_output_wf: "split_output axis input r F \<Longrightarrow> wf_facts F"
  using TensorFacts_contiguous_Inr(1) unfolding split_output_def by blast

definition ends_before :: "nat option \<Rightarrow> AxisRange \<Rightarrow> bool" where
  "ends_before e r \<longleftrightarrow> (case e of None \<Rightarrow> True | Some n \<Rightarrow> n \<le> ar_start r)"

lemma split_step_Inr:
  "split_step axis input r (e, outs) = Inr st \<longleftrightarrow>
     ends_before e r \<and> (\<exists>F. split_output axis input r F \<and> st = (Some (ar_end r), outs @ [F]))"
  by (auto simp: split_step_def bindR_Inr validate_range_Inr AxisRange_is_empty_def ends_before_def
      split_output_def AxisRange_len_ordered split: option.splits)

lemma split_loop:
  assumes "foldR (split_step axis input) ranges (e, outs) = Inr (e', outs')"
  shows "\<exists>Fs. outs' = outs @ Fs \<and> list_all2 (split_output axis input) ranges Fs
    \<and> (\<forall>r \<in> set ranges. ends_before e r)
    \<and> sorted_wrt (\<lambda>r r'. ar_end r \<le> ar_start r') ranges"
  using assms
proof (induction ranges arbitrary: e outs)
  case Nil
  then show ?case by simp
next
  case (Cons r ranges)
  from Cons.prems obtain F where e: "ends_before e r" and F: "split_output axis input r F"
    and rest: "foldR (split_step axis input) ranges (Some (ar_end r), outs @ [F]) = Inr (e', outs')"
    by (auto simp: bindR_Inr split_step_Inr)
  from Cons.IH[OF rest] obtain Fs where IH: "outs' = (outs @ [F]) @ Fs"
    "list_all2 (split_output axis input) ranges Fs"
    "\<forall>r' \<in> set ranges. ends_before (Some (ar_end r)) r'"
    "sorted_wrt (\<lambda>r r'. ar_end r \<le> ar_start r') ranges" by blast
  have "ends_before e r'" if "r' \<in> set ranges" for r'
    using e F IH(3) that by (auto simp: ends_before_def split_output_def split: option.splits)
  with IH e F show ?case
    by (intro exI[of _ "F # Fs"]) (auto simp: ends_before_def)
qed

lemma infer_split_Inr:
  assumes "infer_split sp input = Inr outs"
  shows "split_axis sp < length (logical_shape input) \<and> outs \<noteq> []
    \<and> list_all2 (split_output (split_axis sp) input) (split_ranges sp) outs
    \<and> sorted_wrt (\<lambda>r r'. ar_end r \<le> ar_start r') (split_ranges sp)"
proof -
  from assms obtain e' where ax: "split_axis sp < length (logical_shape input)"
    and loop: "foldR (split_step (split_axis sp) input) (split_ranges sp) (None, []) = Inr (e', outs)"
    and ne: "outs \<noteq> []"
    by (auto simp: infer_split_def bindR_Inr validate_axis_Inr)
  from split_loop[OF loop] ax ne show ?thesis by auto
qed

lemma infer_reshape_Inr:
  assumes "infer_reshape shape input = Inr outs" and "wf_facts input"
  shows "\<exists>F. outs = [F] \<and> is_canonical_contiguous input
    \<and> prod_list shape = prod_list (logical_shape input)
    \<and> TensorFacts_contiguous shape (representation input) = Inr F"
  using assms element_count_wf[OF assms(2)]
  by (auto simp: infer_reshape_def bindR_Inr checked_element_count_eq dest: checked_product_exact)

lemma infer_prepare_Inr:
  assumes "infer_prepare tr input = Inr outs"
  shows "\<exists>F. outs = [F] \<and> is_canonical_contiguous input
    \<and> transform_source (planned_transform tr) = representation input
    \<and> TensorFacts_contiguous (logical_shape input) (transform_target (planned_transform tr)) = Inr F
    \<and> DType_byte_len (dtype (transform_target (planned_transform tr))) (logical_shape input)
        = Inr (output_size tr)
    \<and> transform_scratch tr < usize_bound"
  using assms unfolding infer_prepare_def Let_def bindR_Inr
  by (auto simp: bindR_Inr validate_host_len_def try_from_Inr)

lemma one_input_Inr: "one_input inputs = Inr F \<longleftrightarrow> inputs = [F]"
  by (auto simp: one_input_def split: list.splits)

text \<open>Every inferred output satisfies the type invariant, and there is at least one.\<close>

lemma infer_outputs_wf:
  assumes "infer_outputs op inputs = Inr outs" and "\<forall>F \<in> set inputs. wf_facts F"
  shows "outs \<noteq> [] \<and> (\<forall>F \<in> set outs. wf_facts F)"
proof (cases op)
  case (Concat axis)
  with assms show ?thesis
    using infer_concat_Inr[of axis inputs outs] TensorFacts_contiguous_Inr(1)
    by (auto simp: infer_outputs_def)
next
  case (Permute p)
  with assms obtain input where p: "infer_permute p input = Inr outs"
    by (auto simp: infer_outputs_def bindR_Inr)
  show ?thesis
    using infer_permute_logical[OF p] infer_permute_storage[OF p] TensorFacts_contiguous_Inr(1)
    by (cases "permute_mode p") auto
next
  case (Pad pad)
  with assms obtain input where p: "infer_pad pad input = Inr outs"
    by (auto simp: infer_outputs_def bindR_Inr)
  show ?thesis using infer_pad_Inr[OF p] by auto
next
  case (Slice ranges)
  with assms obtain input where p: "infer_slice ranges input = Inr outs"
    by (auto simp: infer_outputs_def bindR_Inr)
  show ?thesis using infer_slice_Inr[OF p] TensorFacts_contiguous_Inr(1) by auto
next
  case (Split sp)
  with assms obtain input where p: "infer_split sp input = Inr outs"
    by (auto simp: infer_outputs_def bindR_Inr)
  from infer_split_Inr[OF p] have ne: "outs \<noteq> []"
    and each: "list_all2 (split_output (split_axis sp) input) (split_ranges sp) outs" by simp_all
  show ?thesis using ne each split_output_wf
    by (metis in_set_conv_nth list_all2_conv_all_nth)
next
  case (Reshape shape)
  with assms obtain input where p: "infer_reshape shape input = Inr outs" "wf_facts input"
    by (auto simp: infer_outputs_def bindR_Inr one_input_Inr)
  show ?thesis using infer_reshape_Inr[OF p] TensorFacts_contiguous_Inr(1) by auto
next
  case (Prepare tr)
  with assms obtain input where p: "infer_prepare tr input = Inr outs"
    by (auto simp: infer_outputs_def bindR_Inr)
  show ?thesis using infer_prepare_Inr[OF p] TensorFacts_contiguous_Inr(1) by auto
qed

end
