(* ===== verification/MW_Graph.thy ===== *)
theory MW_Graph
  imports MW_Inference
begin

text \<open>
  operation.rs, the operation graph: value references, the incremental builder, the built
  graph with its fact lookup and aliasing queries, and deserialization by replay. The
  builder's states are given as an inductive relation, and its invariant (edges point to
  earlier values, every fact is the inferred one) is proved by rule induction.
\<close>

section \<open>Values, nodes and graphs\<close>

type_synonym InputId = nat
type_synonym NodeId = nat
type_synonym OutputIndex = nat

datatype ValueRef = Input InputId | NodeOutput NodeId OutputIndex

record OperationInput =
  input_name :: TensorName
  input_facts :: TensorFacts

record OperationNode =
  node_implementation :: ImplementationId
  node_inputs :: "ValueRef list"
  node_operation :: Operation
  node_outputs :: "TensorFacts list"

record OperationGraphBuilder =
  builder_inputs :: "OperationInput list"
  input_names :: "TensorName set"
  builder_nodes :: "OperationNode list"

record OperationGraph =
  schema_version :: nat
  graph_inputs :: "OperationInput list"
  graph_nodes :: "OperationNode list"
  graph_output :: ValueRef

definition OPERATION_GRAPH_SCHEMA_VERSION :: nat where
  "OPERATION_GRAPH_SCHEMA_VERSION = 1"

text \<open>\<open>slice.get(index)\<close>.\<close>

definition list_get :: "'a list \<Rightarrow> nat \<Rightarrow> 'a option" where
  "list_get xs i = (if i < length xs then Some (xs ! i) else None)"

text \<open>The lookup that the builder and the built graph share.\<close>

definition value_facts :: "OperationInput list \<Rightarrow> OperationNode list \<Rightarrow> ValueRef \<Rightarrow> TensorFacts option" where
  "value_facts inputs nodes v = (case v of
     Input i \<Rightarrow> map_option input_facts (list_get inputs i)
   | NodeOutput n k \<Rightarrow> Option.bind (list_get nodes n) (\<lambda>node. list_get (node_outputs node) k))"

section \<open>The builder\<close>

definition builder_new :: OperationGraphBuilder where
  "builder_new = \<lparr>builder_inputs = [], input_names = {}, builder_nodes = []\<rparr>"

definition builder_facts :: "OperationGraphBuilder \<Rightarrow> ValueRef \<Rightarrow> TensorFacts option" where
  "builder_facts b v = value_facts (builder_inputs b) (builder_nodes b) v"

definition add_input ::
    "TensorName \<Rightarrow> TensorFacts \<Rightarrow> OperationGraphBuilder \<Rightarrow> (ValueRef \<times> OperationGraphBuilder) result" where
  "add_input name facts b =
     bindR (ensure (name \<notin> input_names b) Binding) (\<lambda>_.
     bindR (u32_try_from (length (builder_inputs b))) (\<lambda>ordinal.
       Inr (Input ordinal,
            b\<lparr>input_names := insert name (input_names b),
              builder_inputs := builder_inputs b @ [\<lparr>input_name = name, input_facts = facts\<rparr>]\<rparr>)))"

definition add_operation ::
    "ImplementationId \<Rightarrow> Operation \<Rightarrow> ValueRef list \<Rightarrow> OperationGraphBuilder
       \<Rightarrow> (ValueRef list \<times> OperationGraphBuilder) result" where
  "add_operation impl operation inputs b =
     bindR (mapR (\<lambda>v. ok_or Binding (builder_facts b v)) inputs) (\<lambda>facts.
     bindR (infer_outputs operation facts) (\<lambda>outputs.
     bindR (u32_try_from (length (builder_nodes b))) (\<lambda>node_ordinal.
     bindR (u32_try_from (length outputs)) (\<lambda>output_count.
       Inr (map (NodeOutput node_ordinal) [0..<output_count],
            b\<lparr>builder_nodes := builder_nodes b @
               [\<lparr>node_implementation = impl, node_inputs = inputs,
                 node_operation = operation, node_outputs = outputs\<rparr>]\<rparr>)))))"

definition builder_build :: "OperationGraphBuilder \<Rightarrow> ValueRef \<Rightarrow> OperationGraph result" where
  "builder_build b output =
     bindR (ensure (builder_facts b output \<noteq> None) Binding) (\<lambda>_.
       Inr \<lparr>schema_version = OPERATION_GRAPH_SCHEMA_VERSION, graph_inputs = builder_inputs b,
            graph_nodes = builder_nodes b, graph_output = output\<rparr>)"

section \<open>Queries on the built graph\<close>

definition graph_facts :: "OperationGraph \<Rightarrow> ValueRef \<Rightarrow> TensorFacts option" where
  "graph_facts g v = value_facts (graph_inputs g) (graph_nodes g) v"

text \<open>\<open>output_facts\<close>: the lookup that the code declares unreachable to fail.\<close>

definition output_facts :: "OperationGraph \<Rightarrow> TensorFacts option" where
  "output_facts g = graph_facts g (graph_output g)"

definition node_output_alias_input :: "OperationGraph \<Rightarrow> OperationNode \<Rightarrow> nat \<Rightarrow> nat option" where
  "node_output_alias_input g node output_index =
     (if output_index \<noteq> 0 then None else
      case node_inputs node of [input] \<Rightarrow>
       (case node_outputs node of [facts] \<Rightarrow>
         (case node_operation node of
            Reshape _ \<Rightarrow> Some 0
          | Permute permute \<Rightarrow>
              if is_identity_order (permute_order permute) \<and> graph_facts g input = Some facts
              then Some 0 else None
          | _ \<Rightarrow> None)
       | _ \<Rightarrow> None)
      | _ \<Rightarrow> None)"

text \<open>
  The loop of \<open>output_input_alias\<close>. The outer option is the result of the partial function:
  \<open>None\<close> would be a loop that does not end.
\<close>

partial_function (option) alias_loop :: "OperationGraph \<Rightarrow> ValueRef \<Rightarrow> nat option option" where
  "alias_loop g v = (case v of
     Input i \<Rightarrow> Some (if i < length (graph_inputs g) then Some i else None)
   | NodeOutput n k \<Rightarrow>
      (case list_get (graph_nodes g) n of None \<Rightarrow> Some None | Some node \<Rightarrow>
      (case node_output_alias_input g node k of None \<Rightarrow> Some None | Some input_index \<Rightarrow>
      (case list_get (node_inputs node) input_index of None \<Rightarrow> Some None | Some next \<Rightarrow>
         alias_loop g next))))"

definition output_input_alias :: "OperationGraph \<Rightarrow> nat option option" where
  "output_input_alias g = alias_loop g (graph_output g)"

section \<open>Serialization\<close>

record OperationNodeWire =
  wire_implementation :: ImplementationId
  wire_inputs :: "ValueRef list"
  wire_operation :: Operation

record OperationGraphWire =
  wire_schema_version :: nat
  wire_graph_inputs :: "OperationInput list"
  wire_nodes :: "OperationNodeWire list"
  wire_output :: ValueRef

text \<open>The serialized form drops the inferred output facts of every node.\<close>

definition to_wire :: "OperationGraph \<Rightarrow> OperationGraphWire" where
  "to_wire g =
     \<lparr>wire_schema_version = schema_version g, wire_graph_inputs = graph_inputs g,
      wire_nodes = map (\<lambda>n. \<lparr>wire_implementation = node_implementation n,
        wire_inputs = node_inputs n, wire_operation = node_operation n\<rparr>) (graph_nodes g),
      wire_output = graph_output g\<rparr>"

definition replay_input :: "OperationInput \<Rightarrow> OperationGraphBuilder \<Rightarrow> OperationGraphBuilder result" where
  "replay_input input b =
     bindR (add_input (input_name input) (input_facts input) b) (\<lambda>r. Inr (snd r))"

definition replay_node :: "OperationNodeWire \<Rightarrow> OperationGraphBuilder \<Rightarrow> OperationGraphBuilder result" where
  "replay_node n b =
     bindR (add_operation (wire_implementation n) (wire_operation n) (wire_inputs n) b)
       (\<lambda>r. Inr (snd r))"

definition OperationGraph_try_from :: "OperationGraphWire \<Rightarrow> OperationGraph result" where
  "OperationGraph_try_from wire =
     bindR (ensure (wire_schema_version wire = OPERATION_GRAPH_SCHEMA_VERSION) Binding) (\<lambda>_.
     bindR (foldR replay_input (wire_graph_inputs wire) builder_new) (\<lambda>b.
     bindR (foldR replay_node (wire_nodes wire) b) (\<lambda>b.
       builder_build b (wire_output wire))))"

section \<open>Builder states\<close>

text \<open>
  The states of a builder: the two mutating operations, in any order. The facts and the name
  given to \<open>add_input\<close> are values of validated types.
\<close>

inductive built :: "OperationGraphBuilder \<Rightarrow> bool" where
  built_new: "built builder_new"
| built_input: "built b \<Longrightarrow> wf_facts facts \<Longrightarrow> add_input name facts b = Inr (v, b') \<Longrightarrow> built b'"
| built_operation: "built b \<Longrightarrow> add_operation impl op inputs b = Inr (vs, b') \<Longrightarrow> built b'"

text \<open>
  The invariant of a node list over a list of inputs: the inputs of the \<open>i\<close>-th node are
  available among the external inputs and the outputs of the first \<open>i\<close> nodes, and its
  output facts are the ones inference gives for them.
\<close>

definition node_ok :: "OperationInput list \<Rightarrow> OperationNode list \<Rightarrow> OperationNode \<Rightarrow> bool" where
  "node_ok inputs earlier node =
     (case mapR (\<lambda>v. ok_or Binding (value_facts inputs earlier v)) (node_inputs node) of
        Inl _ \<Rightarrow> False
      | Inr facts \<Rightarrow> infer_outputs (node_operation node) facts = Inr (node_outputs node)
          \<and> length (node_outputs node) < u32_bound)"

definition wf_nodes :: "OperationInput list \<Rightarrow> OperationNode list \<Rightarrow> bool" where
  "wf_nodes inputs nodes \<longleftrightarrow>
     distinct (map input_name inputs) \<and> length inputs \<le> u32_bound
   \<and> list_all (\<lambda>i. wf_facts (input_facts i)) inputs
   \<and> length nodes \<le> u32_bound
   \<and> list_all (\<lambda>i. node_ok inputs (take i nodes) (nodes ! i)) [0..<length nodes]"

definition wf_builder :: "OperationGraphBuilder \<Rightarrow> bool" where
  "wf_builder b \<longleftrightarrow> wf_nodes (builder_inputs b) (builder_nodes b)
     \<and> input_names b = set (map input_name (builder_inputs b))"

definition wf_graph :: "OperationGraph \<Rightarrow> bool" where
  "wf_graph g \<longleftrightarrow> schema_version g = OPERATION_GRAPH_SCHEMA_VERSION
     \<and> wf_nodes (graph_inputs g) (graph_nodes g) \<and> graph_facts g (graph_output g) \<noteq> None"

text \<open>A value is available before node \<open>n\<close> runs.\<close>

definition available :: "OperationInput list \<Rightarrow> OperationNode list \<Rightarrow> nat \<Rightarrow> ValueRef \<Rightarrow> bool" where
  "available inputs nodes n v = (case v of
     Input i \<Rightarrow> i < length inputs
   | NodeOutput m k \<Rightarrow> m < n \<and> m < length nodes \<and> k < length (node_outputs (nodes ! m)))"

section \<open>Lookup lemmas\<close>

lemma list_get_Some: "list_get xs i = Some x \<longleftrightarrow> i < length xs \<and> x = xs ! i"
  by (auto simp: list_get_def)

lemma list_get_append: "list_get xs i = Some x \<Longrightarrow> list_get (xs @ ys) i = Some x"
  by (auto simp: list_get_Some nth_append)

lemma value_facts_mono:
  "value_facts inputs nodes v = Some F \<Longrightarrow> value_facts (inputs @ is) (nodes @ ns) v = Some F"
  by (cases v) (auto simp: value_facts_def list_get_append bind_eq_Some_conv)

lemma value_facts_available:
  "value_facts inputs (take n nodes) v \<noteq> None \<longleftrightarrow> available inputs nodes n v"
  by (cases v) (auto simp: value_facts_def available_def list_get_def split: bind_splits)

lemma value_facts_take:
  assumes "value_facts inputs (take n nodes) v = Some F"
  shows "value_facts inputs nodes v = Some F"
  using value_facts_mono[OF assms, of "[]" "drop n nodes"] by simp

lemma mapR_facts_mono:
  assumes "mapR (\<lambda>v. ok_or Binding (value_facts inputs nodes v)) vs = Inr fs"
  shows "mapR (\<lambda>v. ok_or Binding (value_facts (inputs @ is) (nodes @ ns) v)) vs = Inr fs"
  using assms value_facts_mono by (auto simp: mapR_Inr)

lemma node_ok_iff:
  "node_ok inputs earlier node \<longleftrightarrow>
     (\<exists>fs. mapR (\<lambda>v. ok_or Binding (value_facts inputs earlier v)) (node_inputs node) = Inr fs
        \<and> infer_outputs (node_operation node) fs = Inr (node_outputs node)
        \<and> length (node_outputs node) < u32_bound)"
  by (cases "mapR (\<lambda>v. ok_or Binding (value_facts inputs earlier v)) (node_inputs node)")
    (auto simp: node_ok_def)

lemma node_ok_mono: "node_ok inputs earlier node \<Longrightarrow> node_ok (inputs @ is) earlier node"
  unfolding node_ok_iff using mapR_facts_mono[of inputs earlier _ _ "is" "[]"] by fastforce

section \<open>The builder invariant\<close>

lemma wf_nodes_input:
  assumes "wf_nodes inputs nodes" and "wf_facts (input_facts input)"
    and "input_name input \<notin> set (map input_name inputs)" and "length inputs < u32_bound"
  shows "wf_nodes (inputs @ [input]) nodes"
  using assms node_ok_mono by (auto simp: wf_nodes_def list_all_iff)

lemma wf_nodes_snoc:
  "wf_nodes inputs (nodes @ [node]) \<longleftrightarrow>
     wf_nodes inputs nodes \<and> length nodes < u32_bound \<and> node_ok inputs nodes node"
  by (auto simp: wf_nodes_def list_all_iff nth_append less_Suc_eq)

lemma add_input_Inr:
  "add_input name facts b = Inr (v, b') \<longleftrightarrow>
     name \<notin> input_names b \<and> length (builder_inputs b) < u32_bound
   \<and> v = Input (length (builder_inputs b))
   \<and> b' = b\<lparr>input_names := insert name (input_names b),
            builder_inputs := builder_inputs b @ [\<lparr>input_name = name, input_facts = facts\<rparr>]\<rparr>"
  by (auto simp: add_input_def bindR_Inr try_from_Inr)

lemma add_operation_Inr:
  "add_operation impl op inputs b = Inr (vs, b') \<longleftrightarrow>
     (\<exists>outputs. let node = \<lparr>node_implementation = impl, node_inputs = inputs,
                 node_operation = op, node_outputs = outputs\<rparr> in
        node_ok (builder_inputs b) (builder_nodes b) node
      \<and> length (builder_nodes b) < u32_bound
      \<and> vs = map (NodeOutput (length (builder_nodes b))) [0..<length outputs]
      \<and> b' = b\<lparr>builder_nodes := builder_nodes b @ [node]\<rparr>)"
  unfolding Let_def node_ok_iff
  by (auto simp: add_operation_def bindR_Inr try_from_Inr builder_facts_def)

lemma add_input_wf:
  assumes "wf_builder b" and "wf_facts facts" and "add_input name facts b = Inr (v, b')"
  shows "wf_builder b'"
  using assms wf_nodes_input[of "builder_inputs b" "builder_nodes b"
      "\<lparr>input_name = name, input_facts = facts\<rparr>"]
  by (auto simp: wf_builder_def add_input_Inr)

lemma add_operation_wf:
  assumes "wf_builder b" and "add_operation impl op inputs b = Inr (vs, b')"
  shows "wf_builder b'"
  using assms by (auto simp: wf_builder_def add_operation_Inr wf_nodes_snoc Let_def)

lemma built_wf: "built b \<Longrightarrow> wf_builder b"
proof (induction rule: built.induct)
  case built_new
  show ?case by (simp add: wf_builder_def wf_nodes_def builder_new_def)
next
  case (built_input b facts name v b')
  then show ?case by (blast intro: add_input_wf)
next
  case (built_operation b impl op inputs vs b')
  then show ?case by (blast intro: add_operation_wf)
qed

lemma builder_build_wf:
  "wf_builder b \<Longrightarrow> builder_build b out = Inr g \<Longrightarrow> wf_graph g"
  by (auto simp: builder_build_def bindR_Inr wf_graph_def wf_builder_def graph_facts_def
      builder_facts_def)

lemma wf_nodes_node:
  assumes "wf_nodes inputs nodes" and "n < length nodes"
  obtains fs where
    "mapR (\<lambda>v. ok_or Binding (value_facts inputs (take n nodes) v)) (node_inputs (nodes ! n)) = Inr fs"
    "infer_outputs (node_operation (nodes ! n)) fs = Inr (node_outputs (nodes ! n))"
    "length (node_outputs (nodes ! n)) < u32_bound"
proof -
  have "node_ok inputs (take n nodes) (nodes ! n)"
    using assms by (auto simp: wf_nodes_def list_all_iff)
  with that show ?thesis by (auto simp: node_ok_iff)
qed

lemma wf_nodes_edges:
  assumes "wf_nodes inputs nodes" and "n < length nodes" and "v \<in> set (node_inputs (nodes ! n))"
  shows "available inputs nodes n v"
proof -
  obtain fs where "mapR (\<lambda>v. ok_or Binding (value_facts inputs (take n nodes) v))
      (node_inputs (nodes ! n)) = Inr fs"
    using wf_nodes_node[OF assms(1,2)] by blast
  with assms(3) have "value_facts inputs (take n nodes) v \<noteq> None"
    by (auto simp: mapR_Inr in_set_conv_nth)
  then show ?thesis by (simp only: value_facts_available)
qed

lemma wf_nodes_facts:
  assumes "wf_nodes inputs nodes"
  shows "value_facts inputs (take n nodes) v = Some F \<Longrightarrow> wf_facts F"
proof (induction n arbitrary: v F rule: less_induct)
  case (less n)
  show ?case
  proof (cases v)
    case (Input i)
    with less.prems assms show ?thesis
      by (auto simp: value_facts_def list_get_Some wf_nodes_def list_all_length)
  next
    case (NodeOutput m k)
    with less.prems have m: "m < n" "m < length nodes" and F: "F \<in> set (node_outputs (nodes ! m))"
      by (auto simp: value_facts_def bind_eq_Some_conv list_get_Some)
    obtain fs where fs: "mapR (\<lambda>v. ok_or Binding (value_facts inputs (take m nodes) v))
        (node_inputs (nodes ! m)) = Inr fs"
      and out: "infer_outputs (node_operation (nodes ! m)) fs = Inr (node_outputs (nodes ! m))"
      using wf_nodes_node[OF assms m(2)] by blast
    have each: "\<forall>i < length fs. value_facts inputs (take m nodes) (node_inputs (nodes ! m) ! i) = Some (fs ! i)"
      using fs by (auto simp: mapR_Inr)
    have "\<forall>G \<in> set fs. wf_facts G"
      using each less.IH[OF m(1)] by (metis in_set_conv_nth)
    from infer_outputs_wf[OF out this] F show ?thesis by blast
  qed
qed

lemma wf_graph_facts:
  assumes "wf_graph g" and "graph_facts g v = Some F"
  shows "wf_facts F"
  using wf_nodes_facts[of "graph_inputs g" "graph_nodes g" "length (graph_nodes g)" v F] assms
  by (simp add: wf_graph_def graph_facts_def)

lemma wf_graph_inference:
  assumes "wf_graph g" and n: "n < length (graph_nodes g)"
  shows "\<exists>fs. mapR (\<lambda>v. ok_or Binding (graph_facts g v)) (node_inputs (graph_nodes g ! n)) = Inr fs
    \<and> infer_outputs (node_operation (graph_nodes g ! n)) fs = Inr (node_outputs (graph_nodes g ! n))"
proof -
  have wf: "wf_nodes (graph_inputs g) (graph_nodes g)" using assms(1) by (simp add: wf_graph_def)
  obtain fs where fs: "mapR (\<lambda>v. ok_or Binding (value_facts (graph_inputs g) (take n (graph_nodes g)) v))
      (node_inputs (graph_nodes g ! n)) = Inr fs"
    "infer_outputs (node_operation (graph_nodes g ! n)) fs = Inr (node_outputs (graph_nodes g ! n))"
    using wf_nodes_node[OF wf n] by blast
  have "mapR (\<lambda>v. ok_or Binding (value_facts (graph_inputs g) (graph_nodes g) v)) (node_inputs (graph_nodes g ! n)) = Inr fs"
    using mapR_facts_mono[OF fs(1), of "[]" "drop n (graph_nodes g)"] by simp
  then show ?thesis using fs(2) unfolding graph_facts_def by blast
qed

section \<open>Aliasing\<close>

lemma alias_input_Some:
  "node_output_alias_input g node k = Some i \<Longrightarrow> i = 0 \<and> k = 0 \<and> (\<exists>v. node_inputs node = [v])"
  by (auto simp: node_output_alias_input_def split: if_splits list.splits Operation.splits)

text \<open>The alias loop ends, because every edge points to an earlier node.\<close>

lemma alias_loop_returns:
  assumes "wf_nodes (graph_inputs g) (graph_nodes g)"
  shows "available (graph_inputs g) (graph_nodes g) n v \<Longrightarrow> \<exists>r. alias_loop g v = Some r"
proof (induction n arbitrary: v rule: less_induct)
  case (less n)
  show ?case
  proof (cases v)
    case (Input i)
    then show ?thesis by (simp add: alias_loop.simps)
  next
    case (NodeOutput m k)
    let ?node = "graph_nodes g ! m"
    have m: "m < n" "m < length (graph_nodes g)" using less.prems NodeOutput by (auto simp: available_def)
    show ?thesis
    proof (cases "node_output_alias_input g ?node k")
      case None
      then show ?thesis using NodeOutput m by (simp add: alias_loop.simps list_get_def)
    next
      case (Some i)
      then obtain w where w: "node_inputs ?node = [w]" "i = 0" using alias_input_Some by blast
      have "available (graph_inputs g) (graph_nodes g) m w"
        using wf_nodes_edges[OF assms m(2), of w] w by simp
      from less.IH[OF m(1) this] show ?thesis
        using NodeOutput m Some w by (simp add: alias_loop.simps[of g "NodeOutput m k"] list_get_def)
    qed
  qed
qed

section \<open>Replay\<close>

lemma alias_loop_result:
  assumes "alias_loop g v = Some r"
  shows "\<forall>i. r = Some i \<longrightarrow> i < length (graph_inputs g)"
proof (rule alias_loop.raw_induct[OF _ assms])
  fix f g v r
  assume IH: "\<And>g v r. f g v = Some r \<Longrightarrow> \<forall>i. r = Some i \<longrightarrow> i < length (graph_inputs g)"
    and step: "(case v of Input i \<Rightarrow> Some (if i < length (graph_inputs g) then Some i else None)
      | NodeOutput n k \<Rightarrow> (case list_get (graph_nodes g) n of None \<Rightarrow> Some None | Some node \<Rightarrow>
        (case node_output_alias_input g node k of None \<Rightarrow> Some None | Some input_index \<Rightarrow>
        (case list_get (node_inputs node) input_index of None \<Rightarrow> Some None | Some next \<Rightarrow>
         f g next)))) = Some r"
  from step show "\<forall>i. r = Some i \<longrightarrow> i < length (graph_inputs g)"
    by (auto split: ValueRef.splits option.splits if_splits dest!: IH)
qed

lemma replay_inputs:
  assumes "distinct (map input_name (map_inputs @ inputs))"
    and "length (map_inputs @ inputs) \<le> u32_bound"
  shows "foldR replay_input inputs
      \<lparr>builder_inputs = map_inputs, input_names = set (map input_name map_inputs), builder_nodes = []\<rparr>
    = Inr \<lparr>builder_inputs = map_inputs @ inputs,
        input_names = set (map input_name (map_inputs @ inputs)), builder_nodes = []\<rparr>"
  using assms
proof (induction inputs arbitrary: map_inputs)
  case Nil
  then show ?case by simp
next
  case (Cons i inputs)
  have "replay_input i \<lparr>builder_inputs = map_inputs,
        input_names = set (map input_name map_inputs), builder_nodes = []\<rparr>
      = Inr \<lparr>builder_inputs = map_inputs @ [i],
        input_names = set (map input_name (map_inputs @ [i])), builder_nodes = []\<rparr>"
    using Cons.prems by (auto simp: replay_input_def add_input_def bindR_def try_from_ok)
  then show ?case using Cons.IH[of "map_inputs @ [i]"] Cons.prems by simp
qed

definition node_wire :: "OperationNode \<Rightarrow> OperationNodeWire" where
  "node_wire n = \<lparr>wire_implementation = node_implementation n,
     wire_inputs = node_inputs n, wire_operation = node_operation n\<rparr>"

lemma replay_node_ok:
  assumes "node_ok inputs nodes node" and "length nodes < u32_bound"
  shows "replay_node (node_wire node)
      \<lparr>builder_inputs = inputs, input_names = names, builder_nodes = nodes\<rparr>
    = Inr \<lparr>builder_inputs = inputs, input_names = names, builder_nodes = nodes @ [node]\<rparr>"
  using assms
  by (cases node)
    (auto simp: replay_node_def node_wire_def add_operation_def builder_facts_def node_ok_iff
      try_from_ok)

lemma replay_nodes:
  assumes "wf_nodes inputs nodes"
  shows "foldR replay_node (map node_wire nodes)
      \<lparr>builder_inputs = inputs, input_names = names, builder_nodes = []\<rparr>
    = Inr \<lparr>builder_inputs = inputs, input_names = names, builder_nodes = nodes\<rparr>"
  using assms
proof (induction nodes rule: rev_induct)
  case Nil
  then show ?case by simp
next
  case (snoc node nodes)
  then show ?case by (simp add: foldR_append wf_nodes_snoc replay_node_ok)
qed

lemma replay_graph:
  assumes "wf_graph g"
  shows "OperationGraph_try_from (to_wire g) = Inr g"
proof -
  have wf: "wf_nodes (graph_inputs g) (graph_nodes g)" and v: "schema_version g = OPERATION_GRAPH_SCHEMA_VERSION"
    and out: "graph_facts g (graph_output g) \<noteq> None"
    using assms by (auto simp: wf_graph_def)
  have ins: "foldR replay_input (graph_inputs g) builder_new
      = Inr \<lparr>builder_inputs = graph_inputs g,
          input_names = set (map input_name (graph_inputs g)), builder_nodes = []\<rparr>"
    using replay_inputs[of "[]" "graph_inputs g"] wf by (simp add: builder_new_def wf_nodes_def)
  have wire: "wire_nodes (to_wire g) = map node_wire (graph_nodes g)"
    by (simp add: to_wire_def node_wire_def)
  show ?thesis
    unfolding OperationGraph_try_from_def wire
    using v out by (simp add: to_wire_def ins replay_nodes[OF wf] builder_build_def
        builder_facts_def graph_facts_def del: set_map)
qed

end
