(* ===== verification/MW_Kernels.thy ===== *)
theory MW_Kernels
  imports MW_Graph
begin

text \<open>
  operation.rs, the element-wise host kernels: bounds-checked element copies driven by a
  linear index over the logical output. Each kernel computes a source and a target element
  for every index; the loop around it is the same. The locale \<open>copy_kernel\<close> states what such
  a computation has to promise and proves once that the loop then copies every element and
  leaves the other bytes alone; it is interpreted for every kernel.
\<close>

section \<open>Checked element copies\<close>

definition COPY_TILE_ELEMENTS :: nat where
  "COPY_TILE_ELEMENTS = 16 * 1024"

definition ALLOCATION_TILE_BYTES :: nat where
  "ALLOCATION_TILE_BYTES = 1024 * 1024"

definition checked_byte_range :: "nat \<Rightarrow> nat \<Rightarrow> nat \<Rightarrow> (nat \<times> nat) result" where
  "checked_byte_range off len bound =
     bindR (ok_or ResourceLimit (checked_add off len)) (\<lambda>end.
     bindR (usize_try_from off) (\<lambda>start.
     bindR (usize_try_from end) (\<lambda>end.
     bindR (ensure (\<not> end > bound) Integrity) (\<lambda>_.
       Inr (start, end)))))"

definition copy_element ::
    "u8 list \<Rightarrow> nat \<Rightarrow> u8 list \<Rightarrow> nat \<Rightarrow> nat \<Rightarrow> u8 list result" where
  "copy_element source source_element target target_element w =
     bindR (u64_try_from w) (\<lambda>width_u64.
     bindR (ok_or ResourceLimit (checked_mul source_element width_u64)) (\<lambda>source_start.
     bindR (ok_or ResourceLimit (checked_mul target_element width_u64)) (\<lambda>target_start.
     bindR (checked_byte_range source_start width_u64 (length source)) (\<lambda>source_range.
     bindR (checked_byte_range target_start width_u64 (length target)) (\<lambda>target_range.
     bindR (ok_or Integrity (get_range target (fst target_range) (snd target_range))) (\<lambda>_.
     bindR (ok_or Integrity (get_range source (fst source_range) (snd source_range))) (\<lambda>bytes.
       Inr (put_range target (fst target_range) bytes))))))))"

definition logical_coordinate :: "nat \<Rightarrow> nat \<Rightarrow> nat list \<Rightarrow> nat list \<Rightarrow> nat result" where
  "logical_coordinate linear axis shape rows =
     bindR (ok_or Integrity (list_get shape axis)) (\<lambda>dimension.
     bindR (ok_or Integrity (list_get rows axis)) (\<lambda>stride.
     bindR (ensure (\<not> (dimension = 0 \<or> stride = 0)) Integrity) (\<lambda>_.
       Inr ((linear div stride) mod dimension))))"

definition checked_offset_term :: "nat \<Rightarrow> nat \<Rightarrow> nat \<Rightarrow> nat result" where
  "checked_offset_term off coordinate stride =
     ok_or ResourceLimit (Option.bind (checked_mul coordinate stride) (checked_add off))"

definition check_copy_cancellation :: "nat \<Rightarrow> unit exec" where
  "check_copy_cancellation element =
     (if element mod COPY_TILE_ELEMENTS = 0 then check else retE ())"

definition dtype_width :: "DType \<Rightarrow> nat result" where
  "dtype_width dt =
     bindR (ensure (\<not> (bits dt = 0 \<or> bits dt mod 8 \<noteq> 0)) Unsupported) (\<lambda>_. Inr (bits dt div 8))"

definition validate_view_len :: "ByteView \<Rightarrow> nat \<Rightarrow> unit result" where
  "validate_view_len view expected =
     bindR (u64_try_from (view_len view)) (\<lambda>actual. ensure (actual = expected) Integrity)"

text \<open>
  \<open>allocate_tensor\<close>: zero bytes, grown tile by tile between polls. The saturating addition of
  the source is capped by the requested length, so it is written as a plain sum.
\<close>

function resize_tiles :: "nat \<Rightarrow> u8 list \<Rightarrow> u8 list exec" where
  "resize_tiles len bytes =
     (if length bytes < len then
        bindE check (\<lambda>_.
          let next = min (length bytes + ALLOCATION_TILE_BYTES) len in
          resize_tiles len (bytes @ replicate (next - length bytes) 0))
      else retE bytes)"
  by pat_completeness auto
termination
  by (relation "measure (\<lambda>(len, bytes). len - length bytes)")
    (auto simp: ALLOCATION_TILE_BYTES_def min_def)

declare resize_tiles.simps [simp del]

definition allocate_tensor :: "TensorFacts \<Rightarrow> u8 list exec" where
  "allocate_tensor facts =
     bindE check (\<lambda>_.
     bindE (liftE (validate_host_len (byte_len facts))) (\<lambda>len.
     bindE (try_reserve len) (\<lambda>_.
     bindE (resize_tiles len []) (\<lambda>bytes.
     bindE check (\<lambda>_.
       retE bytes)))))"

section \<open>Locating elements\<close>

text \<open>
  The inner loop over the axes: from the coordinate of the linear index on an output axis,
  one term of the source offset and one of the target offset. A list entry holds the output
  axis, the map from its coordinate to the source coordinate, and the two strides.
\<close>

type_synonym axis_plan = "nat \<times> (nat \<Rightarrow> nat result) \<times> nat \<times> nat"

definition locate_axis ::
    "nat \<Rightarrow> nat list \<Rightarrow> nat list \<Rightarrow> axis_plan \<Rightarrow> nat \<times> nat \<Rightarrow> (nat \<times> nat) result" where
  "locate_axis linear shape rows axis st = (case axis of (output_axis, source, source_stride, target_stride) \<Rightarrow>
     bindR (logical_coordinate linear output_axis shape rows) (\<lambda>coordinate.
     bindR (source coordinate) (\<lambda>source_coordinate.
     bindR (checked_offset_term (fst st) source_coordinate source_stride) (\<lambda>source_element.
     bindR (checked_offset_term (snd st) coordinate target_stride) (\<lambda>target_element.
       Inr (source_element, target_element))))))"

definition locate_axes ::
    "nat \<Rightarrow> nat list \<Rightarrow> nat list \<Rightarrow> axis_plan list \<Rightarrow> (nat \<times> nat) result" where
  "locate_axes linear shape rows axes = foldR (locate_axis linear shape rows) axes (0, 0)"

definition storage_axes :: "TensorFacts \<Rightarrow> TensorFacts \<Rightarrow> axis_plan list" where
  "storage_axes input output =
     map (\<lambda>axis. (axis, Inr, storage_strides input ! axis, storage_strides output ! axis))
       [0..<length (logical_shape output)]"

definition permute_axes :: "nat list \<Rightarrow> TensorFacts \<Rightarrow> TensorFacts \<Rightarrow> axis_plan list" where
  "permute_axes order input output =
     map (\<lambda>(output_axis, input_axis).
         (output_axis, Inr, storage_strides input ! input_axis, storage_strides output ! output_axis))
       (enumerate 0 order)"

definition slice_axes :: "AxisRange list \<Rightarrow> TensorFacts \<Rightarrow> TensorFacts \<Rightarrow> axis_plan list" where
  "slice_axes ranges input output =
     map (\<lambda>(axis, r). (axis, \<lambda>c. ok_or ResourceLimit (checked_add (ar_start r) c),
         storage_strides input ! axis, storage_strides output ! axis))
       (enumerate 0 ranges)"

definition concat_axes :: "nat \<Rightarrow> nat \<Rightarrow> TensorFacts \<Rightarrow> TensorFacts \<Rightarrow> axis_plan list" where
  "concat_axes axis start input output =
     map (\<lambda>logical_axis. (logical_axis,
         if logical_axis = axis then (\<lambda>c. ok_or Integrity (checked_sub c start)) else Inr,
         storage_strides input ! logical_axis, storage_strides output ! logical_axis))
       [0..<length (logical_shape output)]"

section \<open>The kernels\<close>

text \<open>
  The outer loop: locate the source bytes, the source element and the target element of each
  linear index, and copy.
\<close>

definition copy_elements ::
    "(nat \<Rightarrow> (u8 list \<times> nat \<times> nat) result) \<Rightarrow> nat \<Rightarrow> nat \<Rightarrow> u8 list \<Rightarrow> u8 list exec" where
  "copy_elements locate w elements output =
     bindE (foldE (\<lambda>linear output.
       bindE (check_copy_cancellation linear) (\<lambda>_.
       liftE (bindR (locate linear) (\<lambda>place.
         copy_element (fst place) (fst (snd place)) output (snd (snd place)) w))))
       [0..<elements] output) (\<lambda>output.
     bindE check (\<lambda>_. retE output))"

definition locate_unary ::
    "axis_plan list \<Rightarrow> TensorFacts \<Rightarrow> ByteView \<Rightarrow> nat list \<Rightarrow> nat
       \<Rightarrow> (u8 list \<times> nat \<times> nat) result" where
  "locate_unary axes output input rows linear =
     bindR (locate_axes linear (logical_shape output) rows axes) (\<lambda>place.
       Inr (as_slice input, place))"

definition execute_storage_copy ::
    "TensorFacts \<Rightarrow> TensorFacts \<Rightarrow> ByteView \<Rightarrow> u8 list \<Rightarrow> u8 list exec" where
  "execute_storage_copy in_facts out_facts input output =
     bindE (liftE (validate_view_len input (byte_len in_facts))) (\<lambda>_.
     bindE (liftE (ensure (logical_shape in_facts = logical_shape out_facts) Integrity)) (\<lambda>_.
     bindE (liftE (dtype_width (dtype (representation in_facts)))) (\<lambda>w.
     bindE (liftE (contiguous_strides (logical_shape out_facts))) (\<lambda>rows.
       copy_elements (locate_unary (storage_axes in_facts out_facts) out_facts input rows)
         w (element_count out_facts) output))))"

definition execute_permute_bytes ::
    "Permute \<Rightarrow> TensorFacts \<Rightarrow> TensorFacts \<Rightarrow> ByteView \<Rightarrow> u8 list \<Rightarrow> u8 list exec" where
  "execute_permute_bytes permute in_facts out_facts input output =
     bindE (liftE (validate_view_len input (byte_len in_facts))) (\<lambda>_.
     if permute_mode permute \<noteq> Logical then
       execute_storage_copy in_facts out_facts input output
     else
       bindE (liftE (dtype_width (dtype (representation in_facts)))) (\<lambda>w.
       bindE (liftE (contiguous_strides (logical_shape out_facts))) (\<lambda>rows.
       bindE (liftE (permutation_indices (permute_order permute))) (\<lambda>order.
         copy_elements (locate_unary (permute_axes order in_facts out_facts) out_facts input rows)
           w (element_count out_facts) output))))"

definition execute_slice_bytes ::
    "AxisRange list \<Rightarrow> TensorFacts \<Rightarrow> ByteView \<Rightarrow> TensorFacts \<Rightarrow> u8 list \<Rightarrow> u8 list exec" where
  "execute_slice_bytes ranges in_facts input out_facts output =
     bindE (liftE (validate_view_len input (byte_len in_facts))) (\<lambda>_.
     bindE (liftE (ensure (length ranges = length (logical_shape in_facts)) Integrity)) (\<lambda>_.
     bindE (liftE (dtype_width (dtype (representation in_facts)))) (\<lambda>w.
     bindE (liftE (contiguous_strides (logical_shape out_facts))) (\<lambda>rows.
       copy_elements (locate_unary (slice_axes ranges in_facts out_facts) out_facts input rows)
         w (element_count out_facts) output))))"

text \<open>Concatenation: the running starts of the inputs on the axis, and the input of an element.\<close>

definition concat_starts :: "nat \<Rightarrow> TensorFacts list \<Rightarrow> nat list result" where
  "concat_starts axis inputs =
     bindR (foldR (\<lambda>facts st.
         bindR (ok_or ResourceLimit (checked_add (snd st) (logical_shape facts ! axis))) (\<lambda>next.
           Inr (fst st @ [snd st], next)))
       inputs ([], 0)) (\<lambda>st. Inr (fst st))"

definition concat_input :: "nat \<Rightarrow> TensorFacts list \<Rightarrow> nat list \<Rightarrow> nat \<Rightarrow> nat result" where
  "concat_input axis inputs starts coordinate =
     ok_or Integrity (find (\<lambda>i. coordinate <
         saturating_add (starts ! i) (logical_shape (inputs ! i) ! axis))
       [0..<min (length starts) (length inputs)])"

definition locate_concat ::
    "nat \<Rightarrow> TensorFacts list \<Rightarrow> TensorFacts \<Rightarrow> ByteView list \<Rightarrow> nat list \<Rightarrow> nat list
       \<Rightarrow> nat \<Rightarrow> (u8 list \<times> nat \<times> nat) result" where
  "locate_concat axis in_facts out_facts inputs rows starts linear =
     bindR (logical_coordinate linear axis (logical_shape out_facts) rows) (\<lambda>axis_coordinate.
     bindR (concat_input axis in_facts starts axis_coordinate) (\<lambda>i.
     bindR (locate_axes linear (logical_shape out_facts) rows
              (concat_axes axis (starts ! i) (in_facts ! i) out_facts)) (\<lambda>place.
       Inr (as_slice (inputs ! i), place))))"

definition execute_concat_bytes ::
    "Axis \<Rightarrow> TensorFacts list \<Rightarrow> TensorFacts \<Rightarrow> ByteView list \<Rightarrow> u8 list \<Rightarrow> u8 list exec" where
  "execute_concat_bytes concat_axis in_facts out_facts inputs output =
     bindE (liftE (ensure (length in_facts = length inputs) Integrity)) (\<lambda>_.
     bindE (liftE (mapR (\<lambda>(facts, bytes). validate_view_len bytes (byte_len facts))
                    (zip in_facts inputs))) (\<lambda>_.
     bindE (liftE (validate_axis concat_axis (length (logical_shape out_facts)))) (\<lambda>axis.
     bindE (liftE (dtype_width (dtype (representation out_facts)))) (\<lambda>w.
     bindE (liftE (contiguous_strides (logical_shape out_facts))) (\<lambda>rows.
     bindE (liftE (concat_starts axis in_facts)) (\<lambda>starts.
       copy_elements (locate_concat axis in_facts out_facts inputs rows starts)
         w (element_count out_facts) output))))))"

section \<open>Elements of a tensor\<close>

text \<open>
  The meaning of tensor bytes: the element at a logical coordinate is the chunk of the scalar
  width that the storage strides address.
\<close>

definition chunk :: "nat \<Rightarrow> 'a list \<Rightarrow> nat \<Rightarrow> 'a list" where
  "chunk w bytes i = take w (drop (i * w) bytes)"

definition element :: "TensorFacts \<Rightarrow> u8 list \<Rightarrow> nat list \<Rightarrow> u8 list" where
  "element F bytes c = chunk (width F) bytes (offset c (storage_strides F))"

lemma chunk_nth: "(i + 1) * w \<le> length b \<Longrightarrow> j < w \<Longrightarrow> chunk w b i ! j = b ! (i * w + j)"
  by (simp add: chunk_def)

lemma length_chunk [simp]: "(i + 1) * w \<le> length b \<Longrightarrow> length (chunk w b i) = w"
  by (simp add: chunk_def)

lemma chunk_inside: "i < n \<Longrightarrow> length b = n * w \<Longrightarrow> (i + 1) * w \<le> length (b :: 'a list)"
  by (metis Suc_eq_plus1 Suc_leI mult_le_mono1)

lemma chunks_eqI:
  assumes "length a = n * w" "length b = n * w" "\<And>i. i < n \<Longrightarrow> chunk w a i = chunk w b i"
  shows "a = b"
proof (rule nth_equalityI)
  show "length a = length b" using assms by simp
next
  fix j assume "j < length a"
  then have j: "j < n * w" using assms(1) by simp
  then have w: "0 < w" by (cases w) auto
  have i: "j div w < n" "j mod w < w" using j w by (simp_all add: less_mult_imp_div_less)
  have "a ! j = chunk w a (j div w) ! (j mod w)" "b ! j = chunk w b (j div w) ! (j mod w)"
    using chunk_nth[OF chunk_inside[OF i(1) assms(1)] i(2)]
      chunk_nth[OF chunk_inside[OF i(1) assms(2)] i(2)] by simp_all
  then show "a ! j = b ! j" using assms(3)[OF i(1)] by simp
qed

lemma chunk_put_same:
  "(i + 1) * w \<le> length b \<Longrightarrow> length x = w \<Longrightarrow> chunk w (put_range b (i * w) x) i = x"
  by (simp add: chunk_def put_range_def)

lemma chunk_put_other:
  assumes "(i + 1) * w \<le> length b" "(j + 1) * w \<le> length b" "length x = w" "i \<noteq> j"
  shows "chunk w (put_range b (i * w) x) j = chunk w b j"
proof (rule nth_equalityI)
  have len: "length (put_range b (i * w) x) = length b" using assms by simp
  show "length (chunk w (put_range b (i * w) x) j) = length (chunk w b j)"
    using assms(2) len by simp
  fix k assume "k < length (chunk w (put_range b (i * w) x) j)"
  then have k: "k < w" using assms(2) len by simp
  consider "j * w + k < i * w" | "i * w + w \<le> j * w + k"
  proof (cases "j < i")
    case True
    then have "(j + 1) * w \<le> i * w" by (intro mult_le_mono1) simp
    then show ?thesis using that(1) k by simp
  next
    case False
    then have "(i + 1) * w \<le> j * w" using assms(4) by (intro mult_le_mono1) simp
    then show ?thesis using that(2) by simp
  qed
  then have "put_range b (i * w) x ! (j * w + k) = b ! (j * w + k)"
    using assms k by cases (auto simp: put_range_def nth_append)
  then show "chunk w (put_range b (i * w) x) j ! k = chunk w b j ! k"
    using chunk_nth[of j w b k] chunk_nth[of j w "put_range b (i * w) x" k] assms(2) k len by simp
qed

lemma chunk_concat:
  assumes "\<forall>x \<in> set xs. length x = w" and "i < length xs"
  shows "chunk w (concat xs) i = xs ! i"
proof -
  have "map length (take i xs) = replicate i w"
    using assms by (intro nth_equalityI) simp_all
  then have "sum_list (map length (take i xs)) = i * w" by (simp add: sum_list_replicate)
  then show ?thesis using concat_part_at[of i xs 0 w] assms by (simp add: chunk_def)
qed

text \<open>Overwriting a run of whole elements.\<close>

lemma chunk_put_run:
  assumes "length col = m * w" and "(i + m) * w \<le> length row" and "(x + 1) * w \<le> length row"
  shows "chunk w (put_range row (i * w) col) x =
    (if i \<le> x \<and> x < i + m then chunk w col (x - i) else chunk w row x)"
proof (rule nth_equalityI)
  let ?r = "put_range row (i * w) col"
  have len: "length ?r = length row" using assms by (simp add: add_mult_distrib)
  have inside: "(x - i + 1) * w \<le> length col" if "i \<le> x" "x < i + m"
    unfolding assms(1) using that by (intro mult_le_mono1) simp
  show "length (chunk w ?r x) = length (if i \<le> x \<and> x < i + m then chunk w col (x - i) else chunk w row x)"
    using len assms(3) inside by simp
  fix k assume "k < length (chunk w ?r x)"
  then have k: "k < w" using len assms(3) by simp
  have at: "chunk w ?r x ! k = ?r ! (x * w + k)" using chunk_nth[of x w ?r k] len assms(3) k by simp
  consider (below) "x < i" | (inside) "i \<le> x" "x < i + m" | (above) "i + m \<le> x" by linarith
  then show "chunk w ?r x ! k = (if i \<le> x \<and> x < i + m then chunk w col (x - i) else chunk w row x) ! k"
  proof cases
    case below
    then have "(x + 1) * w \<le> i * w" by (intro mult_le_mono1) simp
    then show ?thesis using below at k assms chunk_nth[of x w row k]
      by (simp add: put_range_def nth_append add_mult_distrib)
  next
    case inside
    then have "x * w = i * w + (x - i) * w" by (metis add_mult_distrib le_add_diff_inverse)
    then show ?thesis using inside at k assms \<open>\<lbrakk>i \<le> x; x < i + m\<rbrakk> \<Longrightarrow> (x - i + 1) * w \<le> length col\<close>
        chunk_nth[of "x - i" w col k]
      by (simp add: put_range_def nth_append add_mult_distrib)
  next
    case above
    then have "(i + m) * w \<le> x * w" by (intro mult_le_mono1) simp
    then have le: "i * w + m * w \<le> x * w + k" by (simp add: add_mult_distrib)
    then have "\<not> x * w + k < i * w" "\<not> x * w + k - i * w < m * w" by linarith+
    then show ?thesis using above at k assms chunk_nth[of x w row k] le
      by (simp add: put_range_def nth_append add_mult_distrib)
  qed
qed

lemma copy_element_Inr:
  assumes "(s + 1) * w \<le> length src" "(t + 1) * w \<le> length tgt"
    and "length src < usize_bound" "length tgt < usize_bound"
  shows "copy_element src s tgt t w = Inr (put_range tgt (t * w) (chunk w src s))"
proof -
  have "w < u64_bound" "s * w + w < u64_bound" "t * w + w < u64_bound"
    using assms by (simp_all add: usize_is_u64)
  then show ?thesis
    using assms
    by (simp add: copy_element_def checked_byte_range_def checked_add_def checked_mul_def
        u64_try_from_def usize_try_from_def usize_is_u64 get_range_def chunk_def)
qed

lemma resize_tiles_delivers:
  "length bytes \<le> len \<Longrightarrow> bytes = replicate (length bytes) 0 \<Longrightarrow>
     delivers (resize_tiles len bytes) (\<lambda>r. r = replicate len 0)"
proof (induction "len - length bytes" arbitrary: bytes rule: less_induct)
  case less
  show ?case
  proof (cases "length bytes < len")
    case True
    let ?next = "min (length bytes + ALLOCATION_TILE_BYTES) len"
    let ?bytes = "bytes @ replicate (?next - length bytes) 0"
    have grow: "length bytes < ?next" using True by (simp add: ALLOCATION_TILE_BYTES_def)
    have "?bytes = replicate (length ?bytes) 0"
      using less.prems(2) by (metis length_append length_replicate replicate_add)
    moreover have "length ?bytes \<le> len" "len - length ?bytes < len - length bytes"
      using grow True by auto
    ultimately have rest: "delivers (resize_tiles len ?bytes) (\<lambda>r. r = replicate len 0)"
      using less.hyps by blast
    show ?thesis
      unfolding resize_tiles.simps[of len bytes] using True rest
      by (simp add: Let_def) (intro delivers_bindE[OF delivers_check[of "\<lambda>_. True"]]; simp)
  next
    case False
    then show ?thesis using less.prems by (subst resize_tiles.simps) (auto intro: delivers_retE)
  qed
qed

lemma allocate_tensor_delivers [delivers_intros]:
  assumes "wf_facts F" and "P (replicate (byte_len F) 0)"
  shows "delivers (allocate_tensor F) P"
  unfolding allocate_tensor_def
proof (intro delivers_intros)
  have "byte_len F < usize_bound" using wf_facts_byte_len[OF assms(1)] by (simp add: usize_is_u64)
  then show "validate_host_len (byte_len F) = Inr (byte_len F)"
    by (simp add: validate_host_len_def try_from_ok)
qed (use assms(2) resize_tiles_delivers[of "[]"] in \<open>auto intro: delivers_mono\<close>)

section \<open>The copy loop\<close>

lemma copy_loop_delivers:
  assumes w: "0 < w" and out: "length out = m * w" "m * w < usize_bound"
    and place: "\<And>l. l < n \<Longrightarrow> locate l = Inr (src l, s l, t l)"
    and inside: "\<And>l. l < n \<Longrightarrow> (s l + 1) * w \<le> length (src l) \<and> length (src l) < usize_bound"
      "\<And>l. l < n \<Longrightarrow> t l < m" and inj: "inj_on t {..<n}"
  shows "delivers (copy_elements locate w n out) (\<lambda>r. length r = m * w
    \<and> (\<forall>l < n. chunk w r (t l) = chunk w (src l) (s l))
    \<and> (\<forall>j < m. j \<notin> t ` {..<n} \<longrightarrow> chunk w r j = chunk w out j))"
proof -
  let ?I = "\<lambda>k r. length r = m * w \<and> (\<forall>l < k. chunk w r (t l) = chunk w (src l) (s l))
    \<and> (\<forall>j < m. j \<notin> t ` {..<k} \<longrightarrow> chunk w r j = chunk w out j)"
  let ?body = "\<lambda>linear output. bindE (check_copy_cancellation linear) (\<lambda>_.
       liftE (bindR (locate linear) (\<lambda>place.
         copy_element (fst place) (fst (snd place)) output (snd (snd place)) w)))"
  have step: "delivers (?body k r) (?I (Suc k))" if k: "k < n" and I: "?I k r" for k r
  proof -
    let ?r = "put_range r (t k * w) (chunk w (src k) (s k))"
    have tk: "(t k + 1) * w \<le> length r" using I inside(2)[OF k] chunk_inside by metis
    have len: "length (chunk w (src k) (s k)) = w" using inside(1)[OF k] by simp
    have copied: "locate k = Inr (src k, s k, t k) \<and>
        copy_element (src k) (s k) r (t k) w = Inr ?r"
      using place[OF k] copy_element_Inr[of "s k" w "src k" "t k" r] inside(1)[OF k] tk I out(2) by simp
    have lr: "length ?r = m * w" using I tk len by simp
    have other: "chunk w ?r j = chunk w r j" if "j < m" "j \<noteq> t k" for j
      using chunk_put_other[OF tk _ len, of j] chunk_inside[OF that(1), of r w] I that(2) by simp
    have "t l \<noteq> t k" if "l < k" for l using inj k that by (auto simp: inj_on_def)
    then have "?I (Suc k) ?r"
      using I lr other inside(2) k chunk_put_same[OF tk len] by (auto simp: less_Suc_eq lessThan_Suc)
    moreover have "delivers (check_copy_cancellation k) (\<lambda>_. True)"
      by (auto simp: check_copy_cancellation_def intro: delivers_intros)
    ultimately show ?thesis using copied by (intro delivers_bindE delivers_liftE) auto
  qed
  have "delivers (foldE ?body [0..<n] out) (?I n)"
    using delivers_for[of ?I out n ?body] out step by simp
  then show ?thesis
    unfolding copy_elements_def by (intro delivers_bindE delivers_check delivers_retE)
qed

text \<open>
  What a finished kernel leaves: a buffer of the right length with the specified element at
  every logical coordinate and the previous bytes at every other storage element.
\<close>

definition wrote :: "TensorFacts \<Rightarrow> (nat list \<Rightarrow> u8 list) \<Rightarrow> u8 list \<Rightarrow> u8 list \<Rightarrow> bool" where
  "wrote G f out r \<longleftrightarrow> length r = byte_len G
     \<and> (\<forall>c. in_shape c (logical_shape G) \<longrightarrow> element G r c = f c)
     \<and> (\<forall>j < prod_list (storage_shape G).
          (\<forall>c. in_shape c (logical_shape G) \<longrightarrow> offset c (storage_strides G) \<noteq> j) \<longrightarrow>
          chunk (width G) r j = chunk (width G) out j)"

text \<open>The written elements and the old padding determine the buffer.\<close>

lemma wrote_unique:
  assumes "wf_facts G" and "wrote G f out r" and "wrote G f out r'"
  shows "r = r'"
proof (rule chunks_eqI)
  show "length r = prod_list (storage_shape G) * width G" "length r' = prod_list (storage_shape G) * width G"
    using assms wf_facts_byte_len(1) by (auto simp: wrote_def)
  show "chunk (width G) r j = chunk (width G) r' j" if "j < prod_list (storage_shape G)" for j
    using assms that unfolding wrote_def element_def by metis
qed

text \<open>
  What a kernel promises: under \<open>ready\<close>, the linear index of every output coordinate is
  located at a source element inside its bytes and at the output's own address of that
  coordinate.
\<close>

locale copy_kernel =
  fixes ready :: "'k \<Rightarrow> bool"
    and out_facts :: "'k \<Rightarrow> TensorFacts"
    and locate :: "'k \<Rightarrow> nat \<Rightarrow> (u8 list \<times> nat \<times> nat) result"
    and source :: "'k \<Rightarrow> nat list \<Rightarrow> u8 list \<times> nat"
  assumes out_wf: "ready k \<Longrightarrow> wf_facts (out_facts k)"
    and located: "ready k \<Longrightarrow> in_shape c (logical_shape (out_facts k)) \<Longrightarrow>
      locate k (offset c (row_strides (logical_shape (out_facts k)))) =
        Inr (fst (source k c), snd (source k c), offset c (storage_strides (out_facts k)))"
    and source_inside: "ready k \<Longrightarrow> in_shape c (logical_shape (out_facts k)) \<Longrightarrow>
      (snd (source k c) + 1) * width (out_facts k) \<le> length (fst (source k c))
        \<and> length (fst (source k c)) < usize_bound"
begin

lemma copies:
  assumes k: "ready k" and out: "length out = byte_len (out_facts k)"
  shows "delivers (copy_elements (locate k) (width (out_facts k)) (element_count (out_facts k)) out)
    (wrote (out_facts k) (\<lambda>c. chunk (width (out_facts k)) (fst (source k c)) (snd (source k c))) out)"
proof -
  let ?F = "out_facts k" let ?L = "logical_shape ?F" let ?n = "prod_list ?L"
  let ?c = "\<lambda>l. coords ?L l" let ?w = "width ?F"
  let ?t = "\<lambda>l. offset (?c l) (storage_strides ?F)"
  note wf = out_wf[OF k]
  have cl: "in_shape (?c l) ?L" "offset (?c l) (row_strides ?L) = l" if "l < ?n" for l
    using that coords_in_shape[of ?L l] offset_coords[of l ?L] by simp_all
  have cc: "\<exists>l < ?n. c = ?c l" if "in_shape c ?L" for c
    using coords_offset[OF that] offset_row_strides_less[OF that] by metis
  have inj: "inj_on ?t {..<?n}"
    using wf_facts_addressing(2)[OF wf] cl by (intro inj_onI) (metis lessThan_iff)
  let ?P = "\<lambda>r. length r = prod_list (storage_shape ?F) * ?w
    \<and> (\<forall>l < ?n. chunk ?w r (?t l) = chunk ?w (fst (source k (?c l))) (snd (source k (?c l))))
    \<and> (\<forall>j < prod_list (storage_shape ?F). j \<notin> ?t ` {..<?n} \<longrightarrow> chunk ?w r j = chunk ?w out j)"
  have "delivers (copy_elements (locate k) ?w ?n out) ?P"
  proof (rule copy_loop_delivers[OF width_pos _ _ _ _ _ inj])
    show "length out = prod_list (storage_shape ?F) * ?w"
      and "prod_list (storage_shape ?F) * ?w < usize_bound"
      using out wf_facts_byte_len[OF wf] by (simp_all add: usize_is_u64)
    fix l assume l: "l < ?n"
    show "locate k l = Inr (fst (source k (?c l)), snd (source k (?c l)), ?t l)"
      using located[OF k cl(1)[OF l]] cl(2)[OF l] by simp
    show "(snd (source k (?c l)) + 1) * ?w \<le> length (fst (source k (?c l)))
        \<and> length (fst (source k (?c l))) < usize_bound"
      using source_inside[OF k cl(1)[OF l]] .
    show "?t l < prod_list (storage_shape ?F)"
      using wf_facts_addressing(1)[OF wf cl(1)[OF l]] .
  qed
  then show ?thesis
    unfolding element_count_wf[OF wf] wrote_def wf_facts_byte_len(1)[OF wf] element_def
  proof (rule delivers_mono, intro conjI allI impI)
    fix r assume P: "?P r"
    then show "length r = prod_list (storage_shape ?F) * ?w" by blast
    show "chunk ?w r (offset c (storage_strides ?F)) = chunk ?w (fst (source k c)) (snd (source k c))"
      if "in_shape c ?L" for c using cc[OF that] P by blast
    show "chunk ?w r j = chunk ?w out j"
      if "j < prod_list (storage_shape ?F)"
        "\<forall>c. in_shape c ?L \<longrightarrow> offset c (storage_strides ?F) \<noteq> j" for j
    proof -
      have "j \<notin> ?t ` {..<?n}" using that(2) cl(1) by auto
      then show ?thesis using P that(1) by blast
    qed
  qed
qed

end

end
