(* ===== verification/MW_Simd.thy ===== *)
theory MW_Simd
  imports MW_Kernels
begin

text \<open>
  operation_simd.rs: the 3x3 OIHW to OHWI kernels for 16-bit elements. A vector register is the
  list of its 16-bit units and every AVX2 intrinsic is the selection of units that its
  definition prescribes. The locale \<open>channel_copier\<close> is the contract of the code that moves a
  range of input channels; the scalar code and the AVX2 code are two interpretations of it, so
  both kernels compute the same transposition.
\<close>

section \<open>Constants and buffer geometry\<close>

definition SPATIAL_ELEMENTS :: nat where "SPATIAL_ELEMENTS = 9"
definition ELEMENT_BYTES :: nat where "ELEMENT_BYTES = 2"
definition SOURCE_CHANNEL_BYTES :: nat where "SOURCE_CHANNEL_BYTES = SPATIAL_ELEMENTS * ELEMENT_BYTES"
definition SIMD_CHANNELS :: nat where "SIMD_CHANNELS = 16"
definition SIMD_SOURCE_BYTES :: nat where "SIMD_SOURCE_BYTES = SIMD_CHANNELS * SOURCE_CHANNEL_BYTES"
definition SIMD_OUTPUT_BYTES :: nat where "SIMD_OUTPUT_BYTES = SIMD_CHANNELS * ELEMENT_BYTES"

definition CANCELLATION_CHANNELS :: nat where
  "CANCELLATION_CHANNELS =
     SIMD_CHANNELS * ((16 * 1024) div (SPATIAL_ELEMENTS * SIMD_CHANNELS))"

lemmas simd_constants = SPATIAL_ELEMENTS_def ELEMENT_BYTES_def SOURCE_CHANNEL_BYTES_def
  SIMD_CHANNELS_def SIMD_SOURCE_BYTES_def SIMD_OUTPUT_BYTES_def CANCELLATION_CHANNELS_def

definition checked_lengths :: "nat \<Rightarrow> nat \<Rightarrow> (nat \<times> nat) result" where
  "checked_lengths output_channels input_channels =
     bindR (ok_or ResourceLimit (checked_mul input_channels SOURCE_CHANNEL_BYTES)) (\<lambda>output_channel_bytes.
     bindR (ok_or ResourceLimit (checked_mul output_channels output_channel_bytes)) (\<lambda>expected_bytes.
       Inr (output_channel_bytes, expected_bytes)))"

text \<open>The byte range of one output channel, with the source bytes and the output bytes in it.\<close>

definition channel_slices ::
    "u8 list \<Rightarrow> u8 list \<Rightarrow> nat \<Rightarrow> nat \<Rightarrow> (nat \<times> u8 list \<times> u8 list) result" where
  "channel_slices input output output_channel output_channel_bytes =
     bindR (ok_or ResourceLimit (checked_mul output_channel output_channel_bytes)) (\<lambda>start.
     bindR (ok_or ResourceLimit (checked_add start output_channel_bytes)) (\<lambda>end.
     bindR (ok_or Integrity (get_range input start end)) (\<lambda>source.
     bindR (ok_or Integrity (get_range output start end)) (\<lambda>target.
       Inr (start, source, target)))))"

definition split_row :: "u8 list \<Rightarrow> nat \<Rightarrow> (u8 list \<times> u8 list) result" where
  "split_row output row_bytes =
     bindR (ensure (\<not> length output < row_bytes) Integrity) (\<lambda>_.
       Inr (take row_bytes output, drop row_bytes output))"

text \<open>
  \<open>OutputRows::new\<close> splits the mutable output channel into nine rows; the rows are written
  back as their concatenation.
\<close>

definition OutputRows_new :: "u8 list \<Rightarrow> nat \<Rightarrow> u8 list list result" where
  "OutputRows_new output_channel input_channels =
     bindR (ok_or ResourceLimit (checked_mul input_channels ELEMENT_BYTES)) (\<lambda>row_bytes.
     bindR (foldR (\<lambda>_ st. bindR (split_row (snd st) row_bytes) (\<lambda>r. Inr (fst st @ [fst r], snd r)))
              [0..<SPATIAL_ELEMENTS] ([], output_channel)) (\<lambda>st.
     bindR (ensure (snd st = []) Integrity) (\<lambda>_.
       Inr (fst st))))"

section \<open>Scalar copies\<close>

definition copy_scalar_element ::
    "u8 list \<Rightarrow> nat \<Rightarrow> nat \<Rightarrow> u8 list \<Rightarrow> u8 list result" where
  "copy_scalar_element source_channel spatial_index input_channel output_row =
     bindR (ok_or ResourceLimit
              (Option.bind (checked_mul input_channel SOURCE_CHANNEL_BYTES) (\<lambda>off.
               Option.bind (checked_mul spatial_index ELEMENT_BYTES) (\<lambda>spatial.
                 checked_add off spatial)))) (\<lambda>source_start.
     bindR (ok_or ResourceLimit (checked_add source_start ELEMENT_BYTES)) (\<lambda>source_end.
     bindR (ok_or ResourceLimit (checked_mul input_channel ELEMENT_BYTES)) (\<lambda>output_start.
     bindR (ok_or ResourceLimit (checked_add output_start ELEMENT_BYTES)) (\<lambda>output_end.
     bindR (ok_or Integrity (get_range source_channel source_start source_end)) (\<lambda>source.
     bindR (ok_or Integrity (get_range output_row output_start output_end)) (\<lambda>_.
       Inr (put_range output_row output_start source)))))))"

definition copy_scalar_row ::
    "u8 list \<Rightarrow> nat \<Rightarrow> nat \<Rightarrow> nat \<Rightarrow> u8 list list \<Rightarrow> u8 list list result" where
  "copy_scalar_row source_channel channel_start channel_end spatial_index rows =
     bindR (ok_or Integrity (list_get rows spatial_index)) (\<lambda>row.
     bindR (foldR (copy_scalar_element source_channel spatial_index)
              [channel_start..<channel_end] row) (\<lambda>row.
       Inr (rows[spatial_index := row])))"

definition copy_scalar_channels ::
    "u8 list \<Rightarrow> nat \<Rightarrow> nat \<Rightarrow> u8 list list \<Rightarrow> u8 list list result" where
  "copy_scalar_channels source_channel channel_start channel_end rows =
     foldR (copy_scalar_row source_channel channel_start channel_end) [0..<SPATIAL_ELEMENTS] rows"

definition copy_scalar_ninth :: "u8 list \<Rightarrow> nat \<Rightarrow> u8 list list \<Rightarrow> u8 list list result" where
  "copy_scalar_ninth source_channel input_channel rows =
     copy_scalar_row source_channel input_channel (input_channel + SIMD_CHANNELS)
       (SPATIAL_ELEMENTS - 1) rows"

section \<open>Vector registers\<close>

text \<open>
  A 128-bit register is the list of its eight 16-bit units, a 256-bit register the list of its
  sixteen; a unit is an opaque pair of bytes. The unpack instructions work on the two 128-bit
  lanes separately; the selector lists name the units of the first operand by 0 to 15 and those
  of the second by 16 to 31.
\<close>

definition select_units :: "nat list \<Rightarrow> 'a list \<Rightarrow> 'a list \<Rightarrow> 'a list" where
  "select_units sel a b = map (\<lambda>j. if j < 16 then a ! j else b ! (j - 16)) sel"

definition mm256_unpacklo_epi16 :: "'a list \<Rightarrow> 'a list \<Rightarrow> 'a list" where
  "mm256_unpacklo_epi16 = select_units [0, 16, 1, 17, 2, 18, 3, 19, 8, 24, 9, 25, 10, 26, 11, 27]"

definition mm256_unpackhi_epi16 :: "'a list \<Rightarrow> 'a list \<Rightarrow> 'a list" where
  "mm256_unpackhi_epi16 = select_units [4, 20, 5, 21, 6, 22, 7, 23, 12, 28, 13, 29, 14, 30, 15, 31]"

definition mm256_unpacklo_epi32 :: "'a list \<Rightarrow> 'a list \<Rightarrow> 'a list" where
  "mm256_unpacklo_epi32 = select_units [0, 1, 16, 17, 2, 3, 18, 19, 8, 9, 24, 25, 10, 11, 26, 27]"

definition mm256_unpackhi_epi32 :: "'a list \<Rightarrow> 'a list \<Rightarrow> 'a list" where
  "mm256_unpackhi_epi32 = select_units [4, 5, 20, 21, 6, 7, 22, 23, 12, 13, 28, 29, 14, 15, 30, 31]"

definition mm256_unpacklo_epi64 :: "'a list \<Rightarrow> 'a list \<Rightarrow> 'a list" where
  "mm256_unpacklo_epi64 = select_units [0, 1, 2, 3, 16, 17, 18, 19, 8, 9, 10, 11, 24, 25, 26, 27]"

definition mm256_unpackhi_epi64 :: "'a list \<Rightarrow> 'a list \<Rightarrow> 'a list" where
  "mm256_unpackhi_epi64 = select_units [4, 5, 6, 7, 20, 21, 22, 23, 12, 13, 14, 15, 28, 29, 30, 31]"

text \<open>\<open>_mm_loadu_si128\<close> of sixteen bytes, and the bytes that \<open>_mm256_storeu_si256\<close> writes.\<close>

definition mm_loadu_si128 :: "u8 list \<Rightarrow> u8 list list" where
  "mm_loadu_si128 bytes = map (chunk ELEMENT_BYTES bytes) [0..<8]"

definition mm256_storeu_si256 :: "u8 list list \<Rightarrow> u8 list" where
  "mm256_storeu_si256 v = concat v"

definition transpose_units :: "'a list list \<Rightarrow> 'a list list" where
  "transpose_units rows =
     (let paired = map (\<lambda>row. rows ! row @ rows ! (row + 8)) [0..<8];
          t0 = mm256_unpacklo_epi16 (paired ! 0) (paired ! 1);
          t1 = mm256_unpackhi_epi16 (paired ! 0) (paired ! 1);
          t2 = mm256_unpacklo_epi16 (paired ! 2) (paired ! 3);
          t3 = mm256_unpackhi_epi16 (paired ! 2) (paired ! 3);
          t4 = mm256_unpacklo_epi16 (paired ! 4) (paired ! 5);
          t5 = mm256_unpackhi_epi16 (paired ! 4) (paired ! 5);
          t6 = mm256_unpacklo_epi16 (paired ! 6) (paired ! 7);
          t7 = mm256_unpackhi_epi16 (paired ! 6) (paired ! 7);
          u0 = mm256_unpacklo_epi32 t0 t2;
          u1 = mm256_unpackhi_epi32 t0 t2;
          u2 = mm256_unpacklo_epi32 t4 t6;
          u3 = mm256_unpackhi_epi32 t4 t6;
          u4 = mm256_unpacklo_epi32 t1 t3;
          u5 = mm256_unpackhi_epi32 t1 t3;
          u6 = mm256_unpacklo_epi32 t5 t7;
          u7 = mm256_unpackhi_epi32 t5 t7
      in [mm256_unpacklo_epi64 u0 u2, mm256_unpackhi_epi64 u0 u2,
          mm256_unpacklo_epi64 u1 u3, mm256_unpackhi_epi64 u1 u3,
          mm256_unpacklo_epi64 u4 u6, mm256_unpackhi_epi64 u4 u6,
          mm256_unpacklo_epi64 u5 u7, mm256_unpackhi_epi64 u5 u7])"

definition transpose_16_channels_8_spatial :: "u8 list \<Rightarrow> u8 list list" where
  "transpose_16_channels_8_spatial source =
     map mm256_storeu_si256 (transpose_units (map (\<lambda>channel.
       mm_loadu_si128 (take 16 (drop (channel * SOURCE_CHANNEL_BYTES) source))) [0..<SIMD_CHANNELS]))"

section \<open>The kernels\<close>

text \<open>\<open>OutputRows::block_16\<close>: the offset of the block after the bounds of the eight rows are checked.\<close>

definition block_16 :: "nat \<Rightarrow> u8 list list \<Rightarrow> nat result" where
  "block_16 input_channel rows =
     bindR (ok_or ResourceLimit (checked_mul input_channel ELEMENT_BYTES)) (\<lambda>start.
     bindR (ok_or ResourceLimit (checked_add start SIMD_OUTPUT_BYTES)) (\<lambda>end.
     bindR (mapR (\<lambda>row. ok_or Integrity (get_range row start end)) (take 8 rows)) (\<lambda>_.
       Inr start)))"

definition store_columns :: "nat \<Rightarrow> u8 list list \<Rightarrow> u8 list list \<Rightarrow> u8 list list" where
  "store_columns start columns rows =
     map2 (\<lambda>row column. put_range row start column) (take 8 rows) columns @ drop 8 rows"

definition avx2_block :: "u8 list \<Rightarrow> nat \<Rightarrow> u8 list list \<Rightarrow> u8 list list result" where
  "avx2_block source_channel input_channel rows =
     bindR (ok_or ResourceLimit (checked_mul input_channel SOURCE_CHANNEL_BYTES)) (\<lambda>source_start.
     bindR (ok_or ResourceLimit (checked_add source_start SIMD_SOURCE_BYTES)) (\<lambda>source_end.
     bindR (ok_or Integrity (get_range source_channel source_start source_end)) (\<lambda>source_block.
     bindR (block_16 input_channel rows) (\<lambda>start.
       copy_scalar_ninth source_channel input_channel
         (store_columns start (transpose_16_channels_8_spatial source_block) rows)))))"

function avx2_blocks :: "u8 list \<Rightarrow> nat \<Rightarrow> nat \<Rightarrow> u8 list list \<Rightarrow> (nat \<times> u8 list list) result" where
  "avx2_blocks source_channel channel_end input_channel rows =
     (if input_channel + SIMD_CHANNELS \<le> channel_end then
        bindR (avx2_block source_channel input_channel rows) (\<lambda>rows.
          avx2_blocks source_channel channel_end (input_channel + SIMD_CHANNELS) rows)
      else Inr (input_channel, rows))"
  by pat_completeness auto
termination
  by (relation "measure (\<lambda>(_, channel_end, input_channel, _). channel_end - input_channel)")
    (auto simp: SIMD_CHANNELS_def)

declare avx2_blocks.simps [simp del]

definition copy_avx2_channels ::
    "u8 list \<Rightarrow> nat \<Rightarrow> nat \<Rightarrow> u8 list list \<Rightarrow> u8 list list result" where
  "copy_avx2_channels source_channel channel_start channel_end rows =
     bindR (avx2_blocks source_channel channel_end channel_start rows) (\<lambda>r.
       copy_scalar_channels source_channel (fst r) channel_end (snd r))"

text \<open>The loop that both kernels share, over the code that moves a range of channels.\<close>

type_synonym copier = "u8 list \<Rightarrow> nat \<Rightarrow> nat \<Rightarrow> u8 list list \<Rightarrow> u8 list list result"

function channel_tiles :: "copier \<Rightarrow> u8 list \<Rightarrow> nat \<Rightarrow> nat \<Rightarrow> u8 list list \<Rightarrow> u8 list list exec" where
  "channel_tiles process source_channel input_channels channel_start rows =
     (if channel_start < input_channels then
        bindE check (\<lambda>_.
        let channel_end = min (channel_start + CANCELLATION_CHANNELS) input_channels in
        bindE (liftE (process source_channel channel_start channel_end rows)) (\<lambda>rows.
          channel_tiles process source_channel input_channels channel_end rows))
      else retE rows)"
  by pat_completeness auto
termination
  by (relation "measure (\<lambda>(_, _, input_channels, channel_start, _). input_channels - channel_start)")
    (auto simp: simd_constants)

declare channel_tiles.simps [simp del]

definition permute_channels ::
    "copier \<Rightarrow> u8 list \<Rightarrow> u8 list \<Rightarrow> nat \<Rightarrow> nat \<Rightarrow> nat \<Rightarrow> u8 list exec" where
  "permute_channels process input output output_channels input_channels output_channel_bytes =
     bindE (foldE (\<lambda>output_channel output.
         bindE (liftE (channel_slices input output output_channel output_channel_bytes)) (\<lambda>r.
         bindE (liftE (OutputRows_new (snd (snd r)) input_channels)) (\<lambda>rows.
         bindE (channel_tiles process (fst (snd r)) input_channels 0 rows) (\<lambda>rows.
           retE (put_range output (fst r) (concat rows))))))
       [0..<output_channels] output) (\<lambda>output.
     bindE check (\<lambda>_. retE output))"

definition permute_scalar :: "u8 list \<Rightarrow> u8 list \<Rightarrow> nat \<Rightarrow> nat \<Rightarrow> nat \<Rightarrow> u8 list exec" where
  "permute_scalar = permute_channels copy_scalar_channels"

definition permute_avx2 :: "u8 list \<Rightarrow> u8 list \<Rightarrow> nat \<Rightarrow> nat \<Rightarrow> nat \<Rightarrow> u8 list exec" where
  "permute_avx2 = permute_channels copy_avx2_channels"

datatype Dispatch = Scalar | Avx2

text \<open>The processor feature is an argument; the result is the dispatch taken and the output.\<close>

definition permute_with_dispatch ::
    "bool \<Rightarrow> u8 list \<Rightarrow> u8 list \<Rightarrow> nat \<Rightarrow> nat \<Rightarrow> (Dispatch \<times> u8 list) exec" where
  "permute_with_dispatch avx2_available input output output_channels input_channels =
     bindE (liftE (checked_lengths output_channels input_channels)) (\<lambda>lengths.
     bindE (liftE (ensure (\<not> (length input \<noteq> snd lengths \<or> length output \<noteq> snd lengths)) Integrity)) (\<lambda>_.
     bindE check (\<lambda>_.
     if snd lengths = 0 then retE (Scalar, output)
     else if avx2_available then
       bindE (permute_avx2 input output output_channels input_channels (fst lengths)) (\<lambda>output.
         retE (Avx2, output))
     else
       bindE (permute_scalar input output output_channels input_channels (fst lengths)) (\<lambda>output.
         retE (Scalar, output)))))"

definition permute_oihw_to_ohwi_3x3_u16 ::
    "bool \<Rightarrow> u8 list \<Rightarrow> u8 list \<Rightarrow> nat \<Rightarrow> nat \<Rightarrow> u8 list exec" where
  "permute_oihw_to_ohwi_3x3_u16 avx2_available input output output_channels input_channels =
     bindE (permute_with_dispatch avx2_available input output output_channels input_channels) (\<lambda>r.
       retE (snd r))"

section \<open>The register transposition\<close>

lemma transpose_units_correct:
  "transpose_units (map (\<lambda>channel. map (x channel) [0..<8]) [0..<16]) =
   map (\<lambda>s. map (\<lambda>channel. x channel s) [0..<16]) [0..<8]"
proof -
  have u8: "[0..<8] = [0, 1, 2, 3, 4, 5, 6, 7 :: nat]" by (simp add: upt_rec)
  have u16: "[0..<16] = [0, 1, 2, 3, 4, 5, 6, 7, 8, 9, 10, 11, 12, 13, 14, 15 :: nat]"
    by (simp add: upt_rec)
  show ?thesis
    unfolding u8 u16 transpose_units_def Let_def
    by (simp add: select_units_def mm256_unpacklo_epi16_def mm256_unpackhi_epi16_def
        mm256_unpacklo_epi32_def mm256_unpackhi_epi32_def mm256_unpacklo_epi64_def
        mm256_unpackhi_epi64_def)
qed

section \<open>Moving a range of channels\<close>

definition rows_ok :: "nat \<Rightarrow> u8 list list \<Rightarrow> bool" where
  "rows_ok channels rows \<longleftrightarrow> length rows = 9 \<and> (\<forall>s < 9. length (rows ! s) = channels * 2)"

definition source_ok :: "nat \<Rightarrow> u8 list \<Rightarrow> bool" where
  "source_ok channels src \<longleftrightarrow> length src = channels * 9 * 2 \<and> channels * 9 * 2 < usize_bound"

text \<open>The channels of a range, in the given rows, hold the source elements; the others are kept.\<close>

definition moved ::
    "nat \<Rightarrow> u8 list \<Rightarrow> nat \<Rightarrow> nat \<Rightarrow> nat set \<Rightarrow> u8 list list \<Rightarrow> u8 list list \<Rightarrow> bool" where
  "moved channels src lo hi S rows rows' \<longleftrightarrow> rows_ok channels rows'
     \<and> (\<forall>s < 9. \<forall>ch < channels. chunk 2 (rows' ! s) ch =
          (if s \<in> S \<and> lo \<le> ch \<and> ch < hi then chunk 2 src (ch * 9 + s) else chunk 2 (rows ! s) ch))"

lemma copy_scalar_element_Inr:
  assumes "source_ok channels src" and "length row = channels * 2" and "ch < channels" and "s < 9"
  shows "copy_scalar_element src s ch row = Inr (put_range row (ch * 2) (chunk 2 src (ch * 9 + s)))"
proof -
  have "ch * 18 + s * 2 + 2 \<le> length src" "length src < u64_bound"
    using assms by (auto simp: source_ok_def usize_is_u64)
  moreover have "ch * 2 + 2 \<le> length row" using assms by simp
  moreover have "length row \<le> length src" using assms by (simp add: source_ok_def)
  ultimately show ?thesis
    by (simp add: copy_scalar_element_def simd_constants checked_add_def checked_mul_def
        get_range_def chunk_def algebra_simps)
qed

lemma copy_scalar_elements:
  assumes src: "source_ok channels src" and s: "s < 9"
  shows "length row = channels * 2 \<Longrightarrow> hi \<le> channels \<Longrightarrow>
    \<exists>row'. foldR (copy_scalar_element src s) [lo..<hi] row = Inr row' \<and> length row' = channels * 2
    \<and> (\<forall>ch < channels. chunk 2 row' ch = (if lo \<le> ch \<and> ch < hi then chunk 2 src (ch * 9 + s) else chunk 2 row ch))"
proof (induction hi)
  case 0
  then show ?case by simp
next
  case (Suc hi)
  show ?case
  proof (cases "lo \<le> hi")
    case True
    from Suc obtain row1 where row1: "foldR (copy_scalar_element src s) [lo..<hi] row = Inr row1"
      "length row1 = channels * 2" "\<forall>ch < channels. chunk 2 row1 ch =
        (if lo \<le> ch \<and> ch < hi then chunk 2 src (ch * 9 + s) else chunk 2 row ch)" by auto
    have hi: "hi < channels" using Suc.prems by simp
    let ?new = "chunk 2 src (hi * 9 + s)" let ?row = "put_range row1 (hi * 2) ?new"
    have len: "length ?new = 2" using src s hi by (intro length_chunk) (simp add: source_ok_def)
    have in1: "(ch + 1) * 2 \<le> length row1" if "ch < channels" for ch using that row1(2) by simp
    have "chunk 2 ?row ch = (if ch = hi then ?new else chunk 2 row1 ch)" if "ch < channels" for ch
      using chunk_put_same[OF in1[OF hi] len] chunk_put_other[OF in1[OF hi] in1[OF that] len] by auto
    moreover have "length ?row = channels * 2" using row1(2) len hi by simp
    ultimately show ?thesis
      using True row1 copy_scalar_element_Inr[OF src row1(2) hi s] by (auto simp: foldR_append)
  next
    case False
    then show ?thesis using Suc.prems by auto
  qed
qed

lemma copy_scalar_row_moved:
  assumes "source_ok channels src" and "rows_ok channels rows" and "hi \<le> channels" and "s < 9"
  shows "\<exists>rows'. copy_scalar_row src lo hi s rows = Inr rows' \<and> moved channels src lo hi {s} rows rows'"
proof -
  have rows: "length rows = 9" "length (rows ! s) = channels * 2" using assms by (auto simp: rows_ok_def)
  from copy_scalar_elements[OF assms(1,4) rows(2) assms(3), of lo] obtain row' where
    row': "foldR (copy_scalar_element src s) [lo..<hi] (rows ! s) = Inr row'" "length row' = channels * 2"
    "\<forall>ch < channels. chunk 2 row' ch =
      (if lo \<le> ch \<and> ch < hi then chunk 2 src (ch * 9 + s) else chunk 2 (rows ! s) ch)" by blast
  have "copy_scalar_row src lo hi s rows = Inr (rows[s := row'])"
    using row'(1) rows(1) assms(4) by (simp add: copy_scalar_row_def list_get_def)
  moreover have "moved channels src lo hi {s} rows (rows[s := row'])"
    using row' rows(1) assms(2,4) by (auto simp: moved_def rows_ok_def nth_list_update)
  ultimately show ?thesis by blast
qed

lemma moved_join:
  assumes "moved channels src lo hi S rows rows'" and "moved channels src lo hi T rows' rows''"
  shows "moved channels src lo hi (S \<union> T) rows rows''"
  using assms by (auto simp: moved_def)

lemma copy_scalar_channels_moved:
  assumes src: "source_ok channels src" and rows: "rows_ok channels rows" and hi: "hi \<le> channels"
  shows "\<exists>rows'. copy_scalar_channels src lo hi rows = Inr rows' \<and> moved channels src lo hi {..<9} rows rows'"
proof -
  have "\<exists>rows'. foldR (copy_scalar_row src lo hi) [0..<n] rows = Inr rows'
      \<and> moved channels src lo hi {..<n} rows rows'" if "n \<le> 9" for n
    using that
  proof (induction n)
    case 0
    then show ?case using rows by (simp add: moved_def)
  next
    case (Suc n)
    then obtain r1 where r1: "foldR (copy_scalar_row src lo hi) [0..<n] rows = Inr r1"
      "moved channels src lo hi {..<n} rows r1" by auto
    have "rows_ok channels r1" using r1(2) by (simp add: moved_def)
    from copy_scalar_row_moved[OF src this hi, of n lo] Suc.prems obtain r2 where
      "copy_scalar_row src lo hi n r1 = Inr r2" "moved channels src lo hi {n} r1 r2" by auto
    with r1 moved_join[OF r1(2), of "{n}" r2] show ?case
      by (simp add: foldR_append lessThan_Suc)
  qed
  from this[of 9] show ?thesis by (simp add: copy_scalar_channels_def SPATIAL_ELEMENTS_def)
qed

section \<open>The AVX2 block\<close>

lemma chunk_of_slice:
  assumes "(i + 1) * w \<le> n"
  shows "chunk w (take n (drop m xs)) i = take w (drop (m + i * w) xs)"
  using assms by (simp add: chunk_def drop_take min_def add.commute)

lemma transpose_columns:
  assumes src: "source_ok channels src" and ch: "ch + 16 \<le> channels"
  defines "cols \<equiv> transpose_16_channels_8_spatial (take 288 (drop (ch * 18) src))"
  shows "length cols = 8" and "s < 8 \<Longrightarrow> length (cols ! s) = 16 * 2"
    and "s < 8 \<Longrightarrow> c < 16 \<Longrightarrow> chunk 2 (cols ! s) c = chunk 2 src ((ch + c) * 9 + s)"
proof -
  let ?x = "\<lambda>c s. chunk 2 src ((ch + c) * 9 + s)"
  have unit: "chunk 2 (take 16 (drop (c * 18) (take 288 (drop (ch * 18) src)))) s = ?x c s"
    if "c < 16" "s < 8" for c s
  proof -
    have "take 16 (drop (c * 18) (take 288 (drop (ch * 18) src))) = take 16 (drop (ch * 18 + c * 18) src)"
      using that by (simp add: drop_take min_def add.commute)
    moreover have "chunk 2 (take 16 (drop (ch * 18 + c * 18) src)) s = ?x c s"
      using that chunk_of_slice[of s 2 16 "ch * 18 + c * 18" src] by (simp add: chunk_def algebra_simps)
    ultimately show ?thesis by simp
  qed
  have loads: "map (\<lambda>c. mm_loadu_si128 (take 16 (drop (c * 18) (take 288 (drop (ch * 18) src))))) [0..<16] =
      map (\<lambda>c. map (?x c) [0..<8]) [0..<16]"
    using unit by (simp add: mm_loadu_si128_def ELEMENT_BYTES_def)
  have sizes: "SOURCE_CHANNEL_BYTES = 18" "SIMD_CHANNELS = 16" by (simp_all add: simd_constants)
  have cols: "cols = map (\<lambda>s. concat (map (\<lambda>c. ?x c s) [0..<16])) [0..<8]"
    unfolding cols_def transpose_16_channels_8_spatial_def sizes loads transpose_units_correct
    by (simp add: mm256_storeu_si256_def)
  then show "length cols = 8" by simp
  have len: "length (?x c s) = 2" if "c < 16" "s < 8" for c s
    using src ch that by (intro length_chunk) (simp add: source_ok_def)
  assume s: "s < 8"
  have units: "\<forall>u \<in> set (map (\<lambda>c. ?x c s) [0..<16]). length u = 2" using len[OF _ s] by auto
  show "length (cols ! s) = 16 * 2"
    using length_concat_uniform[OF units] s unfolding cols by simp
  assume "c < 16"
  then show "chunk 2 (cols ! s) c = ?x c s"
    using chunk_concat[OF units, of c] s unfolding cols by simp
qed

lemma avx2_block_moved:
  assumes src: "source_ok channels src" and rows: "rows_ok channels rows" and ch: "ch + 16 \<le> channels"
  shows "\<exists>rows'. avx2_block src ch rows = Inr rows' \<and> moved channels src ch (ch + 16) {..<9} rows rows'"
proof -
  let ?block = "take 288 (drop (ch * 18) src)" let ?cols = "transpose_16_channels_8_spatial ?block"
  let ?rows = "store_columns (ch * 2) ?cols rows"
  have len: "length rows = 9" "\<forall>s < 9. length (rows ! s) = channels * 2" using rows by (auto simp: rows_ok_def)
  have small: "channels * 18 < u64_bound" "length src = channels * 18"
    using src by (auto simp: source_ok_def usize_is_u64)
  note cols = transpose_columns[OF src ch]
  have get: "get_range src (ch * 18) (ch * 18 + 288) = Some ?block" using ch small by (simp add: get_range_def)
  have b16: "block_16 ch rows = Inr (ch * 2)"
  proof -
    have "mapR (\<lambda>row. ok_or Integrity (get_range row (ch * 2) (ch * 2 + 32))) (take 8 rows) =
        Inr (map (\<lambda>row. take 32 (drop (ch * 2) row)) (take 8 rows))"
      using len ch by (intro mapR_all_Inr) (auto simp: get_range_def in_set_conv_nth)
    then show ?thesis using small ch by (simp add: block_16_def simd_constants checked_add_def checked_mul_def)
  qed
  have nth: "?rows ! s = (if s < 8 then put_range (rows ! s) (ch * 2) (?cols ! s) else rows ! s)" if "s < 9" for s
    using that len cols(1) by (cases "s = 8") (auto simp: store_columns_def nth_append)
  have stored: "moved channels src ch (ch + 16) {..<8} rows ?rows"
    unfolding moved_def rows_ok_def
  proof (intro conjI allI impI)
    show "length ?rows = 9" using len cols(1) by (simp add: store_columns_def)
    show "length (?rows ! s) = channels * 2" if "s < 9" for s
      using nth[OF that] len that cols(2) ch by auto
    show "chunk 2 (?rows ! s) x = (if s \<in> {..<8} \<and> ch \<le> x \<and> x < ch + 16
        then chunk 2 src (x * 9 + s) else chunk 2 (rows ! s) x)" if "s < 9" "x < channels" for s x
    proof -
      have nine: "ch * 9 + (x - ch) * 9 = x * 9" if "ch \<le> x" using that by (simp add: diff_mult_distrib)
      show ?thesis
        using nth[OF that(1)] chunk_put_run[of "?cols ! s" 16 2 ch "rows ! s" x] cols(2,3)[of s] len that ch
        by (cases "s < 8") (auto simp: nine)
    qed
  qed
  then have "rows_ok channels ?rows" by (simp add: moved_def)
  from copy_scalar_row_moved[OF src this ch, of 8 ch] obtain rows' where
    ninth: "copy_scalar_row src ch (ch + 16) 8 ?rows = Inr rows'" "moved channels src ch (ch + 16) {8} ?rows rows'"
    by auto
  have "{..<8} \<union> {8} = {..<9 :: nat}" by auto
  with moved_join[OF stored ninth(2)] have "moved channels src ch (ch + 16) {..<9} rows rows'" by simp
  moreover have "avx2_block src ch rows = Inr rows'"
    using ninth(1) get b16 small ch
    by (simp add: avx2_block_def copy_scalar_ninth_def simd_constants checked_add_def checked_mul_def)
  ultimately show ?thesis by blast
qed

lemma moved_range:
  assumes "moved channels src lo mid {..<9} rows rows'" and "moved channels src mid hi {..<9} rows' rows''"
    and "lo \<le> mid" and "mid \<le> hi"
  shows "moved channels src lo hi {..<9} rows rows''"
  using assms by (auto simp: moved_def)

lemma avx2_blocks_moved:
  assumes src: "source_ok channels src" and hi: "hi \<le> channels"
  shows "rows_ok channels rows \<Longrightarrow> ch \<le> hi \<Longrightarrow>
    \<exists>ch' rows'. avx2_blocks src hi ch rows = Inr (ch', rows') \<and> ch \<le> ch' \<and> ch' \<le> hi
      \<and> moved channels src ch ch' {..<9} rows rows'"
proof (induction "hi - ch" arbitrary: ch rows rule: less_induct)
  case less
  show ?case
  proof (cases "ch + 16 \<le> hi")
    case True
    have "ch + 16 \<le> channels" using True hi by simp
    from avx2_block_moved[OF src less.prems(1) this] obtain r1 where
      r1: "avx2_block src ch rows = Inr r1" "moved channels src ch (ch + 16) {..<9} rows r1" by blast
    have "rows_ok channels r1" using r1(2) by (simp add: moved_def)
    from less.hyps[OF _ this, of "ch + 16"] True less.prems(2) obtain ch' rows' where
      rest: "avx2_blocks src hi (ch + 16) r1 = Inr (ch', rows')" "ch + 16 \<le> ch'" "ch' \<le> hi"
      "moved channels src (ch + 16) ch' {..<9} r1 rows'" by fastforce
    have "avx2_blocks src hi ch rows = Inr (ch', rows')"
      using True r1(1) rest(1) by (simp add: avx2_blocks.simps[of src hi ch rows] SIMD_CHANNELS_def)
    with moved_range[OF r1(2) rest(4)] rest(2,3) show ?thesis by auto
  next
    case False
    then show ?thesis using less.prems
      by (auto simp: avx2_blocks.simps[of src hi ch rows] SIMD_CHANNELS_def moved_def)
  qed
qed

lemma copy_avx2_channels_moved:
  assumes src: "source_ok channels src" and rows: "rows_ok channels rows" and hi: "lo \<le> hi" "hi \<le> channels"
  shows "\<exists>rows'. copy_avx2_channels src lo hi rows = Inr rows' \<and> moved channels src lo hi {..<9} rows rows'"
proof -
  from avx2_blocks_moved[OF src hi(2) rows hi(1)] obtain ch r1 where
    r1: "avx2_blocks src hi lo rows = Inr (ch, r1)" "lo \<le> ch" "ch \<le> hi"
    "moved channels src lo ch {..<9} rows r1" by blast
  have "rows_ok channels r1" using r1(4) by (simp add: moved_def)
  from copy_scalar_channels_moved[OF src this hi(2), of ch] obtain rows' where
    "copy_scalar_channels src ch hi r1 = Inr rows'" "moved channels src ch hi {..<9} r1 rows'" by blast
  with r1 moved_range[OF r1(4)] show ?thesis by (auto simp: copy_avx2_channels_def)
qed

section \<open>The kernels transpose\<close>

text \<open>The contract of the code that moves a range of channels.\<close>

locale channel_copier =
  fixes process :: copier
  assumes moves: "source_ok channels src \<Longrightarrow> rows_ok channels rows \<Longrightarrow> lo \<le> hi \<Longrightarrow> hi \<le> channels \<Longrightarrow>
    \<exists>rows'. process src lo hi rows = Inr rows' \<and> moved channels src lo hi {..<9} rows rows'"
begin

lemma tiles_move:
  assumes src: "source_ok channels src"
  shows "rows_ok channels rows \<Longrightarrow> lo \<le> channels \<Longrightarrow>
    delivers (channel_tiles process src channels lo rows) (moved channels src lo channels {..<9} rows)"
proof (induction "channels - lo" arbitrary: lo rows rule: less_induct)
  case less
  show ?case
  proof (cases "lo < channels")
    case True
    let ?hi = "min (lo + CANCELLATION_CHANNELS) channels"
    have hi: "lo < ?hi" "?hi \<le> channels" using True by (auto simp: simd_constants)
    from moves[OF src less.prems(1), of lo ?hi] hi obtain r1 where
      r1: "process src lo ?hi rows = Inr r1" "moved channels src lo ?hi {..<9} rows r1" by auto
    have "rows_ok channels r1" using r1(2) by (simp add: moved_def)
    moreover have "channels - ?hi < channels - lo" using hi True by linarith
    ultimately have
      "delivers (channel_tiles process src channels ?hi r1) (moved channels src ?hi channels {..<9} r1)"
      using less.hyps hi(2) by blast
    then have rest: "delivers (channel_tiles process src channels ?hi r1) (moved channels src lo channels {..<9} rows)"
      by (rule delivers_mono) (use moved_range[OF r1(2)] hi in auto)
    show ?thesis
      unfolding channel_tiles.simps[of process src channels lo rows] using True rest r1(1)
      by (simp add: Let_def) (rule delivers_bindE[OF delivers_check[of "\<lambda>_. True"]]; simp)
  next
    case False
    then show ?thesis using less.prems
      by (subst channel_tiles.simps) (auto intro!: delivers_retE simp: moved_def simp del: retE_apply)
  qed
qed

end

interpretation scalar: channel_copier copy_scalar_channels
  by unfold_locales (rule copy_scalar_channels_moved)

interpretation avx2: channel_copier copy_avx2_channels
  by unfold_locales (rule copy_avx2_channels_moved)

lemma split_rows:
  assumes "length target = 9 * n"
  shows "k \<le> 9 \<Longrightarrow> foldR (\<lambda>_ st. bindR (split_row (snd st) n) (\<lambda>r. Inr (fst st @ [fst r], snd r)))
      [0..<k] ([], target) = Inr (map (\<lambda>s. take n (drop (s * n) target)) [0..<k], drop (k * n) target)"
proof (induction k)
  case 0
  then show ?case by simp
next
  case (Suc k)
  have "k * n + n \<le> 9 * n" using Suc.prems by (intro mult_room) simp
  then have "\<not> length (drop (k * n) target) < n" using assms unfolding length_drop by linarith
  then show ?case using Suc by (simp add: foldR_append split_row_def add.commute)
qed

lemma OutputRows_new_Inr:
  assumes "length target = channels * 9 * 2" and "channels * 9 * 2 < usize_bound"
  shows "\<exists>rows. OutputRows_new target channels = Inr rows \<and> rows_ok channels rows"
proof -
  let ?rows = "map (\<lambda>s. take (channels * 2) (drop (s * (channels * 2)) target)) [0..<9]"
  have len: "length target = 9 * (channels * 2)" using assms(1) by simp
  have "checked_mul channels 2 = Some (channels * 2)" using assms(2) by (simp add: checked_mul_def usize_is_u64)
  then have new: "OutputRows_new target channels = Inr ?rows"
    using split_rows[OF len, of 9] len by (simp add: OutputRows_new_def simd_constants)
  have "length (?rows ! s) = channels * 2" if "s < 9" for s
  proof -
    have "s * (channels * 2) + channels * 2 \<le> length target"
      unfolding len using that by (rule mult_room)
    then have "channels * 2 \<le> length (drop (s * (channels * 2)) target)" unfolding length_drop by linarith
    then show ?thesis using that by simp
  qed
  then have "rows_ok channels ?rows" by (simp add: rows_ok_def)
  with new show ?thesis by blast
qed

text \<open>The specification: element \<open>(o, i, s)\<close> of the input is element \<open>(o, s, i)\<close> of the output.\<close>

definition transposed :: "nat \<Rightarrow> nat \<Rightarrow> nat \<Rightarrow> nat \<Rightarrow> u8 list \<Rightarrow> u8 list \<Rightarrow> bool" where
  "transposed w outs ins spatial input r \<longleftrightarrow> length r = outs * (spatial * ins) * w
     \<and> (\<forall>a < outs. \<forall>s < spatial. \<forall>i < ins.
          chunk w r ((a * spatial + s) * ins + i) = chunk w input ((a * ins + i) * spatial + s))"

lemma transposed_unique:
  assumes "transposed w outs ins spatial input r" and "transposed w outs ins spatial input r'"
  shows "r = r'"
proof (rule chunks_eqI)
  show "length r = outs * (spatial * ins) * w" "length r' = outs * (spatial * ins) * w"
    using assms by (simp_all add: transposed_def)
  fix j assume j: "j < outs * (spatial * ins)"
  then have pos: "0 < ins" "0 < spatial" by (auto intro: gr0I)
  let ?i = "j mod ins" let ?k = "j div ins" let ?s = "?k mod spatial" let ?a = "?k div spatial"
  have "j < (outs * spatial) * ins" using j by (simp only: mult.assoc)
  then have "?k < outs * spatial" by (rule less_mult_imp_div_less)
  then have "?a < outs" by (simp add: less_mult_imp_div_less)
  moreover have "j = (?a * spatial + ?s) * ins + ?i" by simp
  ultimately show "chunk w r j = chunk w r' j"
    using assms pos unfolding transposed_def by (metis mod_less_divisor)
qed

lemma chunk_of_rows:
  assumes "rows_ok channels rows" and "s < 9" and "i < channels"
  shows "chunk 2 (concat rows) (s * channels + i) = chunk 2 (rows ! s) i"
proof -
  have rows: "length rows = 9" "\<forall>s < 9. length (rows ! s) = channels * 2" using assms(1) by (auto simp: rows_ok_def)
  have "map length (take s rows) = replicate s (channels * 2)"
    using rows assms(2) by (intro nth_equalityI) simp_all
  then have "sum_list (map length (take s rows)) = s * (channels * 2)" by (simp add: sum_list_replicate)
  then show ?thesis
    using concat_part_at[of s rows "i * 2" 2] rows assms by (simp add: chunk_def algebra_simps)
qed

lemma length_rows: "rows_ok channels rows \<Longrightarrow> length (concat rows) = channels * 9 * 2"
proof -
  assume "rows_ok channels rows"
  then have rows: "length rows = 9" "\<forall>x \<in> set rows. length x = channels * 2"
    by (auto simp: rows_ok_def in_set_conv_nth)
  then show ?thesis using length_concat_uniform[OF rows(2)] by simp
qed

lemma channel_slices_Inr:
  assumes "length input = outs * (ins * 18)" "length output = outs * (ins * 18)"
    and "outs * (ins * 18) < usize_bound" and "a < outs"
  shows "channel_slices input output a (ins * 18) =
    Inr (a * (ins * 18), take (ins * 18) (drop (a * (ins * 18)) input), take (ins * 18) (drop (a * (ins * 18)) output))"
proof -
  have "a * (ins * 18) + ins * 18 \<le> outs * (ins * 18)" using assms(4) by (rule mult_room)
  then show ?thesis
    using assms by (simp add: channel_slices_def checked_mul_def checked_add_def get_range_def usize_is_u64)
qed

text \<open>Writing the rows of one channel back.\<close>

lemma write_channel:
  assumes out: "length output = outs * (ins * 18)" and a: "a < outs"
    and rows: "moved ins (take (ins * 18) (drop (a * (ins * 18)) input)) 0 ins {..<9} rows0 rows"
    and x: "x < outs * (9 * ins)"
  shows "chunk 2 (put_range output (a * (ins * 18)) (concat rows)) x =
    (if a * (9 * ins) \<le> x \<and> x < (a + 1) * (9 * ins) then
       chunk 2 input ((a * ins + (x - a * (9 * ins)) mod ins) * 9 + (x - a * (9 * ins)) div ins)
     else chunk 2 output x)"
proof -
  let ?m = "9 * ins" let ?y = "x - a * ?m"
  have ok: "rows_ok ins rows" using rows by (simp add: moved_def)
  have col: "length (concat rows) = ?m * 2" using length_rows[OF ok] by simp
  have "a * ?m + ?m \<le> outs * ?m" using a by (rule mult_room)
  then have fits: "(a * ?m + ?m) * 2 \<le> length output" "(x + 1) * 2 \<le> length output" using out x by simp_all
  have run: "chunk 2 (put_range output (a * (ins * 18)) (concat rows)) x =
      (if a * ?m \<le> x \<and> x < a * ?m + ?m then chunk 2 (concat rows) ?y else chunk 2 output x)"
    using chunk_put_run[OF col fits] by (simp add: algebra_simps)
  have "chunk 2 (concat rows) ?y = chunk 2 input ((a * ins + ?y mod ins) * 9 + ?y div ins)"
    if "a * ?m \<le> x" "x < a * ?m + ?m"
  proof -
    have y: "?y < 9 * ins" using that by simp
    then have ins: "0 < ins" by (cases ins) auto
    have s: "?y div ins < 9" and i: "?y mod ins < ins" using y ins by (simp_all add: less_mult_imp_div_less)
    have "chunk 2 (concat rows) ?y = chunk 2 (rows ! (?y div ins)) (?y mod ins)"
      using chunk_of_rows[OF ok s i] by simp
    also have "\<dots> = chunk 2 (take (ins * 18) (drop (a * (ins * 18)) input)) (?y mod ins * 9 + ?y div ins)"
      using rows s i by (simp add: moved_def)
    also have "\<dots> = chunk 2 input ((a * ins + ?y mod ins) * 9 + ?y div ins)"
    proof -
      have "(?y mod ins * 9 + ?y div ins + 1) * 2 \<le> ins * 18" using s i by simp
      from chunk_of_slice[OF this, of "a * (ins * 18)" input] show ?thesis
        by (simp add: chunk_def algebra_simps)
    qed
    finally show ?thesis .
  qed
  then show ?thesis unfolding run by simp
qed

context channel_copier
begin

lemma permutes:
  assumes input: "length input = outs * (ins * 18)" "outs * (ins * 18) < usize_bound"
    and outl: "length output = outs * (ins * 18)"
  shows "delivers (permute_channels process input output outs ins (ins * 18)) (transposed 2 outs ins 9 input)"
proof -
  let ?I = "\<lambda>n r. length r = outs * (ins * 18) \<and> (\<forall>a < n. \<forall>s < 9. \<forall>i < ins.
      chunk 2 r ((a * 9 + s) * ins + i) = chunk 2 input ((a * ins + i) * 9 + s))"
  let ?body = "\<lambda>output_channel output.
         bindE (liftE (channel_slices input output output_channel (ins * 18))) (\<lambda>r.
         bindE (liftE (OutputRows_new (snd (snd r)) ins)) (\<lambda>rows.
         bindE (channel_tiles process (fst (snd r)) ins 0 rows) (\<lambda>rows.
           retE (put_range output (fst r) (concat rows)))))"
  have step: "delivers (?body n r) (?I (Suc n))" if n: "n < outs" and I: "?I n r" for n r
  proof -
    let ?src = "take (ins * 18) (drop (n * (ins * 18)) input)"
    let ?tgt = "take (ins * 18) (drop (n * (ins * 18)) r)"
    have room: "n * (ins * 18) + ins * 18 \<le> outs * (ins * 18)" using n by (rule mult_room)
    have src: "source_ok ins ?src" and tgt: "length ?tgt = ins * 9 * 2" and small: "ins * 9 * 2 < usize_bound"
      using room input I by (auto simp: source_ok_def)
    from OutputRows_new_Inr[OF tgt small] obtain rows0 where
      new: "OutputRows_new ?tgt ins = Inr rows0" and ok: "rows_ok ins rows0" by blast
    have slices: "channel_slices input r n (ins * 18) = Inr (n * (ins * 18), ?src, ?tgt)"
      using channel_slices_Inr[OF input(1) _ input(2) n] I by blast
    have written: "?I (Suc n) (put_range r (n * (ins * 18)) (concat rows))"
      if m: "moved ins ?src 0 ins {..<9} rows0 rows" for rows
    proof -
      have okr: "rows_ok ins rows" using m by (simp add: moved_def)
      have len: "length (put_range r (n * (ins * 18)) (concat rows)) = outs * (ins * 18)"
        using length_rows[OF okr] I room by simp
      have "chunk 2 (put_range r (n * (ins * 18)) (concat rows)) ((a * 9 + s) * ins + i) =
          chunk 2 input ((a * ins + i) * 9 + s)" if "a < Suc n" "s < 9" "i < ins" for a s i
      proof -
        let ?x = "(a * 9 + s) * ins + i"
        have "s * ins + i < 9 * ins"
          using that(3) mult_room[OF that(2), of ins] by linarith
        then have x: "a * (9 * ins) \<le> ?x" "?x < a * (9 * ins) + 9 * ins" by (simp_all add: algebra_simps)
        have "a * (9 * ins) + 9 * ins \<le> outs * (9 * ins)"
          using that(1) n by (intro mult_room) simp
        then have xo: "?x < outs * (9 * ins)" using x by linarith
        note w = write_channel[OF conjunct1[OF I] n m xo]
        show ?thesis
        proof (cases "a = n")
          case True
          have "?x - n * (9 * ins) = s * ins + i" using True by (simp add: algebra_simps)
          moreover have "n * (9 * ins) \<le> ?x" "?x < (n + 1) * (9 * ins)" using x True by (simp_all add: algebra_simps)
          ultimately show ?thesis using w True that(3) by simp
        next
          case False
          then have "a * (9 * ins) + 9 * ins \<le> n * (9 * ins)"
            using that(1) by (intro mult_room) simp
          then have "\<not> n * (9 * ins) \<le> ?x" using x by linarith
          then show ?thesis using w I that False by simp
        qed
      qed
      then show ?thesis using len by blast
    qed
    have "delivers (bindE (channel_tiles process ?src ins 0 rows0)
        (\<lambda>rows. retE (put_range r (n * (ins * 18)) (concat rows)))) (?I (Suc n))"
    proof (rule delivers_bindE)
      show "delivers (channel_tiles process ?src ins 0 rows0) (moved ins ?src 0 ins {..<9} rows0)"
        by (rule tiles_move[OF src ok le0])
      show "delivers (retE (put_range r (n * (ins * 18)) (concat rows))) (?I (Suc n))"
        if "moved ins ?src 0 ins {..<9} rows0 rows" for rows
        by (rule delivers_retE, rule written, rule that)
    qed
    then show ?thesis using slices new by (simp del: retE_apply)
  qed
  have "delivers (foldE ?body [0..<outs] output) (?I outs)"
    using delivers_for[of ?I "output" outs ?body] outl step by blast
  then show ?thesis
    unfolding permute_channels_def
    by (intro delivers_bindE[where P = "?I outs"] delivers_bindE[OF delivers_check[of "\<lambda>_. True"]] delivers_retE)
      (auto simp: transposed_def)
qed

end

lemma permute_with_dispatch_delivers:
  assumes "length input = outs * (ins * 18)" "outs * (ins * 18) < usize_bound" "length output = outs * (ins * 18)"
    and "0 < outs"
  shows "delivers (permute_with_dispatch avx2 input output outs ins) (\<lambda>r. transposed 2 outs ins 9 input (snd r))"
proof -
  have "1 * (ins * 18) \<le> outs * (ins * 18)" using assms(4) by (intro mult_le_mono1) simp
  then have "ins * 18 < u64_bound" using assms(2) unfolding usize_is_u64 by linarith
  then have lengths: "checked_lengths outs ins = Inr (ins * 18, outs * (ins * 18))"
    using assms(2) by (simp add: checked_lengths_def simd_constants checked_mul_def usize_is_u64)
  have empty: "transposed 2 outs ins 9 input output" if "outs * (ins * 18) = 0"
    using that assms by (auto simp: transposed_def)
  have tag: "delivers (bindE m (\<lambda>out. retE (d, out))) (\<lambda>r. P (snd r))" if "delivers m P"
    for m :: "u8 list exec" and d :: Dispatch and P
    using that by (rule delivers_bindE) (simp add: delivers_retE del: retE_apply)
  have body: "delivers (if outs * (ins * 18) = 0 then retE (Scalar, output)
     else if avx2 then bindE (permute_avx2 input output outs ins (ins * 18)) (\<lambda>output. retE (Avx2, output))
     else bindE (permute_scalar input output outs ins (ins * 18)) (\<lambda>output. retE (Scalar, output)))
     (\<lambda>r. transposed 2 outs ins 9 input (snd r))"
    unfolding permute_avx2_def permute_scalar_def
    using empty tag[OF avx2.permutes[OF assms(1-3)]] tag[OF scalar.permutes[OF assms(1-3)]]
    by (auto intro: delivers_retE simp del: retE_apply mult_eq_0_iff)
  have sizes: "ensure (\<not> (length input \<noteq> outs * (ins * 18) \<or> length output \<noteq> outs * (ins * 18))) Integrity
      = Inr ()" using assms(1,3) by simp
  show ?thesis
    unfolding permute_with_dispatch_def lengths liftE_bind fst_conv snd_conv sizes
    by (rule delivers_bindE[OF delivers_check[of "\<lambda>_. True"] body]) simp
qed

lemma permute_oihw_to_ohwi_3x3_u16_delivers:
  assumes "length input = outs * (ins * 18)" "outs * (ins * 18) < usize_bound" "length output = outs * (ins * 18)"
    and "0 < outs"
  shows "delivers (permute_oihw_to_ohwi_3x3_u16 avx2 input output outs ins) (transposed 2 outs ins 9 input)"
  unfolding permute_oihw_to_ohwi_3x3_u16_def
  by (rule delivers_bindE[OF permute_with_dispatch_delivers[OF assms]]) (rule delivers_retE)

end
