(* ===== verification/MW_Copies.thy ===== *)
theory MW_Copies
  imports MW_Kernels
begin

text \<open>
  The element-wise kernels satisfy the copy contract. For every kernel the located source
  element is the one its specification names: the same coordinate for a storage copy, the
  inversely permuted one for a logical permutation, the shifted one for a slice, and the
  local coordinate in the selected input for a concatenation.
\<close>

section \<open>Locating one element\<close>

lemma row_strides_pos: "0 < prod_list ds \<Longrightarrow> i < length ds \<Longrightarrow> 0 < row_strides ds ! i \<and> 0 < ds ! i"
  by (induction ds arbitrary: i) (auto simp: nth_Cons split: nat.splits)

lemma dim_le_prod: "0 < prod_list ds \<Longrightarrow> i < length ds \<Longrightarrow> ds ! i \<le> prod_list (ds :: nat list)"
proof -
  assume "0 < prod_list ds" "i < length ds"
  moreover have "d \<in> set ds \<Longrightarrow> d dvd prod_list ds" for d by (induction ds) auto
  ultimately show ?thesis by (simp add: dvd_imp_le)
qed

lemma logical_coordinate_Inr:
  assumes "0 < prod_list shape" and "axis < length shape"
  shows "logical_coordinate l axis shape (row_strides shape) = Inr (coords shape l ! axis)"
  using row_strides_pos[OF assms] assms
  by (simp add: logical_coordinate_def list_get_def coords_nth)

lemma checked_offset_term_Inr:
  "b + c * s < u64_bound \<Longrightarrow> checked_offset_term b c s = Inr (b + c * s)"
  by (simp add: checked_offset_term_def checked_add_def checked_mul_def)

text \<open>The source coordinate of an axis entry and the two sums of a list of them.\<close>

definition source_coordinate :: "nat list \<Rightarrow> axis_plan \<Rightarrow> nat" where
  "source_coordinate c e = projr (fst (snd e) (c ! fst e))"

definition source_sum :: "nat list \<Rightarrow> axis_plan list \<Rightarrow> nat" where
  "source_sum c axes = (\<Sum>e\<leftarrow>axes. source_coordinate c e * fst (snd (snd e)))"

definition target_sum :: "nat list \<Rightarrow> axis_plan list \<Rightarrow> nat" where
  "target_sum c axes = (\<Sum>e\<leftarrow>axes. c ! fst e * snd (snd (snd e)))"

lemma locate_axes_Inr:
  assumes "0 < prod_list shape"
    and "\<forall>e \<in> set axes. fst e < length shape
      \<and> fst (snd e) (coords shape l ! fst e) = Inr (source_coordinate (coords shape l) e)"
    and "source_sum (coords shape l) axes < u64_bound" "target_sum (coords shape l) axes < u64_bound"
  shows "locate_axes l shape (row_strides shape) axes =
    Inr (source_sum (coords shape l) axes, target_sum (coords shape l) axes)"
  using assms(2-4)
proof (induction axes rule: rev_induct)
  case Nil
  then show ?case by (simp add: locate_axes_def source_sum_def target_sum_def)
next
  case (snoc e axes)
  let ?c = "coords shape l"
  obtain a f si so where e: "e = (a, f, si, so)" by (metis prod.exhaust)
  have IH: "locate_axes l shape (row_strides shape) axes = Inr (source_sum ?c axes, target_sum ?c axes)"
    using snoc by (simp add: source_sum_def target_sum_def)
  have sums: "source_sum ?c (axes @ [e]) = source_sum ?c axes + source_coordinate ?c e * si"
    "target_sum ?c (axes @ [e]) = target_sum ?c axes + ?c ! a * so"
    by (simp_all add: source_sum_def target_sum_def e)
  have "locate_axis l shape (row_strides shape) e (source_sum ?c axes, target_sum ?c axes) =
      Inr (source_sum ?c (axes @ [e]), target_sum ?c (axes @ [e]))"
    using snoc.prems sums e logical_coordinate_Inr[OF assms(1), of a l]
    by (simp add: locate_axis_def checked_offset_term_Inr)
  then show ?case using IH by (simp add: locate_axes_def foldR_append)
qed

lemma offset_upt: "length c = n \<Longrightarrow> length ss = n \<Longrightarrow> (\<Sum>i\<leftarrow>[0..<n]. c ! i * ss ! i) = offset c ss"
  by (simp add: offset_nth interv_sum_list_conv_sum_set_nat atLeast0LessThan)

text \<open>A validated view of a tensor: as many bytes as its facts say.\<close>

definition view_of :: "TensorFacts \<Rightarrow> ByteView \<Rightarrow> bool" where
  "view_of F v \<longleftrightarrow> wf_facts F \<and> wf_view v \<and> view_len v = byte_len F"

lemma view_of_bytes:
  assumes "view_of F v"
  shows "length (as_slice v) = byte_len F" "byte_len F < u64_bound"
    "validate_view_len v (byte_len F) = Inr ()"
  using assms wf_facts_byte_len[of F]
  by (auto simp: view_of_def validate_view_len_def try_from_ok)

lemma element_inside:
  assumes "view_of F v" and "in_shape c (logical_shape F)"
  shows "(offset c (storage_strides F) + 1) * width F \<le> length (as_slice v)
    \<and> length (as_slice v) < usize_bound"
proof -
  have F: "wf_facts F" using assms(1) by (simp add: view_of_def)
  have len: "length (as_slice v) = prod_list (storage_shape F) * width F"
    using view_of_bytes(1)[OF assms(1)] wf_facts_byte_len(1)[OF F] by simp
  show ?thesis
    using chunk_inside[OF wf_facts_addressing(1)[OF F assms(2)] len] len
      wf_facts_byte_len[OF F] by (simp add: usize_is_u64)
qed

lemma offset_bound:
  assumes "wf_facts F" and "in_shape c (logical_shape F)"
  shows "offset c (storage_strides F) < u64_bound"
proof -
  have "prod_list (storage_shape F) * width F < u64_bound"
    using wf_facts_byte_len[OF assms(1)] by simp
  then have "prod_list (storage_shape F) < u64_bound" using width_pos by (rule mult_less_bound)
  with wf_facts_addressing(1)[OF assms] show ?thesis by simp
qed

lemma dtype_width_Inr: "dtype_width (dtype (representation F)) = Inr (width F)"
  by (simp add: dtype_width_def width_def)

text \<open>
  The executor recomputes the row-major strides of the logical output shape. They fit for every
  non-empty tensor and for every contiguous one.
\<close>

definition rows_fit :: "TensorFacts \<Rightarrow> bool" where
  "rows_fit F \<longleftrightarrow> contiguous_strides (logical_shape F) = Inr (row_strides (logical_shape F))"

lemma rows_fit_nonempty: "wf_facts F \<Longrightarrow> 0 \<notin> set (logical_shape F) \<Longrightarrow> rows_fit F"
  unfolding rows_fit_def
  by (intro contiguous_strides_nonzero) (auto simp: wf_facts_elements wf_facts_lengths)

lemma rows_fit_canonical: "is_canonical_contiguous F \<Longrightarrow> rows_fit F"
  by (simp add: rows_fit_def canonical_fields)

section \<open>Storage copies\<close>

definition storage_ready :: "TensorFacts \<times> TensorFacts \<times> ByteView \<Rightarrow> bool" where
  "storage_ready k = (case k of (F, G, v) \<Rightarrow> view_of F v \<and> wf_facts G
     \<and> logical_shape F = logical_shape G \<and> width F = width G)"

definition storage_source :: "TensorFacts \<times> TensorFacts \<times> ByteView \<Rightarrow> nat list \<Rightarrow> u8 list \<times> nat" where
  "storage_source k c = (case k of (F, G, v) \<Rightarrow> (as_slice v, offset c (storage_strides F)))"

definition storage_locate ::
    "TensorFacts \<times> TensorFacts \<times> ByteView \<Rightarrow> nat \<Rightarrow> (u8 list \<times> nat \<times> nat) result" where
  "storage_locate k = (case k of (F, G, v) \<Rightarrow>
     locate_unary (storage_axes F G) G v (row_strides (logical_shape G)))"

lemma locate_storage:
  assumes F: "wf_facts F" and G: "wf_facts G" and L: "logical_shape F = logical_shape G"
    and c: "in_shape c (logical_shape G)"
  shows "locate_axes (offset c (row_strides (logical_shape G))) (logical_shape G)
      (row_strides (logical_shape G)) (storage_axes F G) =
    Inr (offset c (storage_strides F), offset c (storage_strides G))"
proof -
  let ?L = "logical_shape G" let ?l = "offset c (row_strides ?L)"
  have cl: "coords ?L ?l = c" using coords_offset[OF c] .
  have "source_sum c (storage_axes F G) = offset c (storage_strides F)"
    "target_sum c (storage_axes F G) = offset c (storage_strides G)"
    using in_shape_length[OF c] wf_facts_lengths[OF F] wf_facts_lengths[OF G] L
      offset_upt[of c "length ?L" "storage_strides F"] offset_upt[of c "length ?L" "storage_strides G"]
    by (simp_all add: source_sum_def target_sum_def storage_axes_def source_coordinate_def comp_def)
  then show ?thesis
    using locate_axes_Inr[of ?L "storage_axes F G" ?l] in_shape_pos[OF c] cl
      offset_bound[OF F] offset_bound[OF G c] c L
    by (simp add: storage_axes_def source_coordinate_def)
qed

interpretation storage: copy_kernel storage_ready "\<lambda>k. fst (snd k)" storage_locate storage_source
proof
  fix k c assume r: "storage_ready k"
  obtain F G v where k: "k = (F, G, v)" by (metis prod.exhaust)
  show "wf_facts (fst (snd k))" using r k by (simp add: storage_ready_def)
  assume c: "in_shape c (logical_shape (fst (snd k)))"
  show "storage_locate k (offset c (row_strides (logical_shape (fst (snd k))))) =
      Inr (fst (storage_source k c), snd (storage_source k c), offset c (storage_strides (fst (snd k))))"
    using r k c locate_storage[of F G c]
    by (simp add: storage_ready_def storage_locate_def storage_source_def locate_unary_def view_of_def)
  show "(snd (storage_source k c) + 1) * width (fst (snd k)) \<le> length (fst (storage_source k c))
      \<and> length (fst (storage_source k c)) < usize_bound"
    using r k c element_inside[of F v c] by (simp add: storage_ready_def storage_source_def)
qed

lemma execute_storage_copy_delivers:
  assumes v: "view_of F v" and G: "wf_facts G" "rows_fit G"
    and L: "logical_shape F = logical_shape G" and dt: "dtype (representation F) = dtype (representation G)"
    and out: "length out = byte_len G"
  shows "delivers (execute_storage_copy F G v out) (wrote G (element F (as_slice v)) out)"
proof -
  have w: "width F = width G" using dt by (simp add: width_def)
  have ready: "storage_ready (F, G, v)" using v G L w by (simp add: storage_ready_def)
  have "element F (as_slice v) = (\<lambda>c. chunk (width G) (as_slice v) (offset c (storage_strides F)))"
    using w by (simp add: element_def fun_eq_iff)
  then have "delivers (copy_elements (storage_locate (F, G, v)) (width G) (element_count G) out)
      (wrote G (element F (as_slice v)) out)"
    using storage.copies[OF ready, of out] out by (simp add: storage_source_def)
  then show ?thesis
    using view_of_bytes(3)[OF v] L w dtype_width_Inr[of F] G(2)
    by (simp add: execute_storage_copy_def storage_locate_def rows_fit_def liftE_bind)
qed

section \<open>Logical permutations\<close>

definition permute_ready :: "nat list \<times> TensorFacts \<times> TensorFacts \<times> ByteView \<Rightarrow> bool" where
  "permute_ready k = (case k of (order, F, G, v) \<Rightarrow> view_of F v \<and> wf_facts G
     \<and> distinct order \<and> set order = {..<length (logical_shape F)}
     \<and> length order = length (logical_shape F)
     \<and> logical_shape G = map ((!) (logical_shape F)) order \<and> width F = width G)"

text \<open>The input coordinate of an output coordinate: \<open>order\<close> scatters it.\<close>

definition permute_source ::
    "nat list \<times> TensorFacts \<times> TensorFacts \<times> ByteView \<Rightarrow> nat list \<Rightarrow> u8 list \<times> nat" where
  "permute_source k c = (case k of (order, F, G, v) \<Rightarrow>
     (as_slice v, offset (scatter_strides order c (length order)) (storage_strides F)))"

definition permute_locate ::
    "nat list \<times> TensorFacts \<times> TensorFacts \<times> ByteView \<Rightarrow> nat \<Rightarrow> (u8 list \<times> nat \<times> nat) result" where
  "permute_locate k = (case k of (order, F, G, v) \<Rightarrow>
     locate_unary (permute_axes order F G) G v (row_strides (logical_shape G)))"

lemma scatter_in_shape:
  assumes perm: "distinct order" "set order = {..<length L}" "length order = length L"
    and c: "in_shape c (map ((!) L) order)"
  shows "in_shape (scatter_strides order c (length order)) L"
proof -
  have len: "length (scatter_strides order c (length order)) = length L"
    using scatter_strides_nth(1)[of order "length order" c] perm by simp
  have "scatter_strides order c (length order) ! i < L ! i" if i: "i < length L" for i
  proof -
    have "i \<in> set order" using perm i by simp
    then obtain k where k: "k < length order" "order ! k = i" by (auto simp: in_set_conv_nth)
    then have "scatter_strides order c (length order) ! i = c ! k"
      using scatter_strides_nth(2)[of order "length order" k c] perm by simp
    then show ?thesis using c k by (auto simp: in_shape_nth)
  qed
  then show ?thesis using len by (simp add: in_shape_nth)
qed

lemma map_scatter:
  assumes perm: "distinct order" "set order = {..<n}" "length order = n" and "length c = n"
  shows "map ((!) (scatter_strides order c n)) order = c"
  using assms scatter_strides_nth(2)[OF perm] by (intro nth_equalityI) simp_all

lemma sum_enumerate: "(\<Sum>e\<leftarrow>enumerate 0 xs. f e) = (\<Sum>i<length xs. f (i, xs ! i))"
  by (simp add: sum_list_sum_nth nth_enumerate_eq atLeast0LessThan)

lemma locate_permute:
  assumes r: "permute_ready (order, F, G, v)" and c: "in_shape c (logical_shape G)"
  shows "locate_axes (offset c (row_strides (logical_shape G))) (logical_shape G)
      (row_strides (logical_shape G)) (permute_axes order F G) =
    Inr (offset (scatter_strides order c (length order)) (storage_strides F), offset c (storage_strides G))"
proof -
  let ?L = "logical_shape G" let ?l = "offset c (row_strides ?L)"
  let ?d = "scatter_strides order c (length order)" let ?n = "length order"
  have perm: "distinct order" "set order = {..<?n}" and LF: "length (logical_shape F) = ?n"
    and LG: "?L = map ((!) (logical_shape F)) order" and F: "wf_facts F" and G: "wf_facts G"
    using r by (auto simp: permute_ready_def view_of_def)
  have lens: "length c = ?n" "length (storage_strides F) = ?n" "length (storage_strides G) = ?n" "length ?d = ?n"
    using in_shape_length[OF c] LG LF wf_facts_lengths[OF F] wf_facts_lengths[OF G]
      scatter_strides_nth(1)[OF perm refl, of c] by simp_all
  have d: "in_shape ?d (logical_shape F)"
    using c[unfolded LG] perm LF by (intro scatter_in_shape) simp_all
  have inj: "inj_on ((!) order) {..<?n}" using perm(1) by (simp add: inj_on_nth)
  have img: "(!) order ` {..<?n} = {..<?n}" using perm(2) by (simp add: nth_image_set)
  have "source_sum c (permute_axes order F G) = (\<Sum>i<?n. c ! i * storage_strides F ! (order ! i))"
    by (simp add: source_sum_def permute_axes_def source_coordinate_def comp_def case_prod_beta sum_enumerate)
  also have "\<dots> = (\<Sum>i<?n. ?d ! (order ! i) * storage_strides F ! (order ! i))"
    using scatter_strides_nth(2)[OF perm refl, of _ c] by simp
  also have "\<dots> = (\<Sum>j<?n. ?d ! j * storage_strides F ! j)"
    using sum.reindex[OF inj, of "\<lambda>j. ?d ! j * storage_strides F ! j"] img by simp
  also have "\<dots> = offset ?d (storage_strides F)" using lens by (simp add: offset_nth)
  finally have src: "source_sum c (permute_axes order F G) = offset ?d (storage_strides F)" .
  have tgt: "target_sum c (permute_axes order F G) = offset c (storage_strides G)"
    using lens by (simp add: target_sum_def permute_axes_def comp_def case_prod_beta sum_enumerate offset_nth)
  have cl: "coords ?L ?l = c" using coords_offset[OF c] .
  have "\<forall>e \<in> set (permute_axes order F G). fst e < length ?L
      \<and> fst (snd e) (c ! fst e) = Inr (source_coordinate c e)"
    using LG by (auto simp: permute_axes_def source_coordinate_def in_set_enumerate_eq)
  then show ?thesis
    using locate_axes_Inr[of ?L "permute_axes order F G" ?l] in_shape_pos[OF c] cl src tgt
      offset_bound[OF F d] offset_bound[OF G c] by simp
qed

interpretation permuted: copy_kernel permute_ready "\<lambda>k. fst (snd (snd k))" permute_locate permute_source
proof
  fix k c assume r: "permute_ready k"
  obtain order F G v where k: "k = (order, F, G, v)" by (metis prod.exhaust)
  show "wf_facts (fst (snd (snd k)))" using r k by (simp add: permute_ready_def)
  assume c: "in_shape c (logical_shape (fst (snd (snd k))))"
  show "permute_locate k (offset c (row_strides (logical_shape (fst (snd (snd k)))))) =
      Inr (fst (permute_source k c), snd (permute_source k c), offset c (storage_strides (fst (snd (snd k)))))"
    using r k c locate_permute[of order F G v c]
    by (simp add: permute_locate_def permute_source_def locate_unary_def)
  have "in_shape (scatter_strides order c (length order)) (logical_shape F)"
    using r k c scatter_in_shape[of order "logical_shape F" c] by (simp add: permute_ready_def)
  then show "(snd (permute_source k c) + 1) * width (fst (snd (snd k))) \<le> length (fst (permute_source k c))
      \<and> length (fst (permute_source k c)) < usize_bound"
    using r k element_inside[of F v "scatter_strides order c (length order)"]
    by (simp add: permute_ready_def permute_source_def)
qed

lemma execute_permute_logical_delivers:
  assumes v: "view_of F v" and G: "wf_facts G" "rows_fit G"
    and perm: "validate_permutation (permute_order p) = Inr ()" "permute_mode p = Logical"
      "length (permute_order p) = length (logical_shape F)"
    and L: "logical_shape G = map ((!) (logical_shape F)) (permute_order p)"
    and dt: "dtype (representation F) = dtype (representation G)" and out: "length out = byte_len G"
  shows "delivers (execute_permute_bytes p F G v out) (wrote G (\<lambda>c.
    element F (as_slice v) (scatter_strides (permute_order p) c (length (permute_order p)))) out)"
proof -
  let ?o = "permute_order p"
  have w: "width F = width G" using dt by (simp add: width_def)
  have ready: "permute_ready (?o, F, G, v)"
    using v G L w perm by (simp add: permute_ready_def validate_permutation_Inr)
  have "(\<lambda>c. element F (as_slice v) (scatter_strides ?o c (length ?o))) = (\<lambda>c.
      chunk (width G) (as_slice v) (offset (scatter_strides ?o c (length ?o)) (storage_strides F)))"
    using w by (simp add: element_def fun_eq_iff)
  then have "delivers (copy_elements (permute_locate (?o, F, G, v)) (width G) (element_count G) out)
      (wrote G (\<lambda>c. element F (as_slice v) (scatter_strides ?o c (length ?o))) out)"
    using permuted.copies[OF ready, of out] out by (simp add: permute_source_def)
  then show ?thesis
    using view_of_bytes(3)[OF v] w dtype_width_Inr[of F] G(2) perm(2)
    by (simp add: execute_permute_bytes_def permute_locate_def rows_fit_def
        permutation_indices_valid[OF perm(1)])
qed

section \<open>Slices\<close>

definition shift :: "AxisRange list \<Rightarrow> nat list \<Rightarrow> nat list" where
  "shift ranges c = map2 (\<lambda>r x. ar_start r + x) ranges c"

definition slice_ready :: "AxisRange list \<times> TensorFacts \<times> TensorFacts \<times> ByteView \<Rightarrow> bool" where
  "slice_ready k = (case k of (ranges, F, G, v) \<Rightarrow> view_of F v \<and> wf_facts G
     \<and> length ranges = length (logical_shape F)
     \<and> list_all2 (\<lambda>r d. ar_start r \<le> ar_end r \<and> ar_end r \<le> d) ranges (logical_shape F)
     \<and> logical_shape G = map (\<lambda>r. ar_end r - ar_start r) ranges \<and> width F = width G)"

definition slice_source ::
    "AxisRange list \<times> TensorFacts \<times> TensorFacts \<times> ByteView \<Rightarrow> nat list \<Rightarrow> u8 list \<times> nat" where
  "slice_source k c = (case k of (ranges, F, G, v) \<Rightarrow>
     (as_slice v, offset (shift ranges c) (storage_strides F)))"

definition slice_locate ::
    "AxisRange list \<times> TensorFacts \<times> TensorFacts \<times> ByteView \<Rightarrow> nat \<Rightarrow> (u8 list \<times> nat \<times> nat) result" where
  "slice_locate k = (case k of (ranges, F, G, v) \<Rightarrow>
     locate_unary (slice_axes ranges F G) G v (row_strides (logical_shape G)))"

lemma shift_in_shape:
  assumes "slice_ready (ranges, F, G, v)" and "in_shape c (logical_shape G)"
  shows "in_shape (shift ranges c) (logical_shape F)"
proof -
  have lens: "length ranges = length (logical_shape F)" "length c = length ranges"
    using assms in_shape_length[OF assms(2)] by (auto simp: slice_ready_def)
  have "shift ranges c ! i < logical_shape F ! i" if i: "i < length (logical_shape F)" for i
  proof -
    have "c ! i < ar_end (ranges ! i) - ar_start (ranges ! i)" "ar_end (ranges ! i) \<le> logical_shape F ! i"
      using assms i lens by (auto simp: slice_ready_def in_shape_nth list_all2_conv_all_nth)
    then show ?thesis using i lens by (simp add: shift_def)
  qed
  then show ?thesis using lens by (simp add: in_shape_nth shift_def)
qed

lemma locate_slice:
  assumes r: "slice_ready (ranges, F, G, v)" and c: "in_shape c (logical_shape G)"
  shows "locate_axes (offset c (row_strides (logical_shape G))) (logical_shape G)
      (row_strides (logical_shape G)) (slice_axes ranges F G) =
    Inr (offset (shift ranges c) (storage_strides F), offset c (storage_strides G))"
proof -
  let ?L = "logical_shape G" let ?n = "length ranges" let ?l = "offset c (row_strides ?L)"
  have F: "wf_facts F" and G: "wf_facts G" and LF: "length (logical_shape F) = ?n"
    and LG: "?L = map (\<lambda>r. ar_end r - ar_start r) ranges"
    using r by (auto simp: slice_ready_def view_of_def)
  have lens: "length c = ?n" "length (storage_strides F) = ?n" "length (storage_strides G) = ?n"
      "length (shift ranges c) = ?n"
    using in_shape_length[OF c] LG LF wf_facts_lengths[OF F] wf_facts_lengths[OF G]
    by (simp_all add: shift_def)
  have d: "in_shape (shift ranges c) (logical_shape F)" using shift_in_shape[OF r c] .
  have small: "ar_start (ranges ! i) + c ! i < u64_bound" if i: "i < ?n" for i
  proof -
    have "ar_start (ranges ! i) + c ! i < logical_shape F ! i"
      using d i LF lens by (auto simp: in_shape_nth shift_def)
    moreover have "logical_shape F ! i < u64_bound"
      using dim_le_prod[OF in_shape_pos[OF d], of i] wf_facts_elements[OF F] i LF by simp
    ultimately show ?thesis by simp
  qed
  have src: "source_sum c (slice_axes ranges F G) = offset (shift ranges c) (storage_strides F)"
    using small lens by (simp add: source_sum_def slice_axes_def source_coordinate_def comp_def
        case_prod_beta sum_enumerate offset_nth shift_def checked_add_def)
  have tgt: "target_sum c (slice_axes ranges F G) = offset c (storage_strides G)"
    using lens by (simp add: target_sum_def slice_axes_def comp_def case_prod_beta sum_enumerate offset_nth)
  have cl: "coords ?L ?l = c" using coords_offset[OF c] .
  have "\<forall>e \<in> set (slice_axes ranges F G). fst e < length ?L
      \<and> fst (snd e) (c ! fst e) = Inr (source_coordinate c e)"
    using LG small by (auto simp: slice_axes_def source_coordinate_def in_set_enumerate_eq checked_add_def)
  then show ?thesis
    using locate_axes_Inr[of ?L "slice_axes ranges F G" ?l] in_shape_pos[OF c] cl src tgt
      offset_bound[OF F d] offset_bound[OF G c] by simp
qed

interpretation sliced: copy_kernel slice_ready "\<lambda>k. fst (snd (snd k))" slice_locate slice_source
proof
  fix k c assume r: "slice_ready k"
  obtain ranges F G v where k: "k = (ranges, F, G, v)" by (metis prod.exhaust)
  show "wf_facts (fst (snd (snd k)))" using r k by (simp add: slice_ready_def)
  assume c: "in_shape c (logical_shape (fst (snd (snd k))))"
  show "slice_locate k (offset c (row_strides (logical_shape (fst (snd (snd k)))))) =
      Inr (fst (slice_source k c), snd (slice_source k c), offset c (storage_strides (fst (snd (snd k)))))"
    using r k c locate_slice[of ranges F G v c]
    by (simp add: slice_locate_def slice_source_def locate_unary_def)
  have "in_shape (shift ranges c) (logical_shape F)" using r k c shift_in_shape[of ranges F G v c] by simp
  then show "(snd (slice_source k c) + 1) * width (fst (snd (snd k))) \<le> length (fst (slice_source k c))
      \<and> length (fst (slice_source k c)) < usize_bound"
    using r k element_inside[of F v "shift ranges c"]
    by (simp add: slice_ready_def slice_source_def)
qed

lemma infer_slice_ready:
  assumes "infer_slice ranges F = Inr outs" and "view_of F v"
  shows "\<exists>G. outs = [G] \<and> slice_ready (ranges, F, G, v) \<and> rows_fit G"
proof -
  from infer_slice_Inr[OF assms(1)] obtain G where i: "outs = [G]" "length ranges = length (logical_shape F)"
    "\<forall>i < length ranges. ar_start (ranges ! i) \<le> ar_end (ranges ! i) \<and> ar_end (ranges ! i) \<le> logical_shape F ! i"
    and G: "TensorFacts_contiguous (map (\<lambda>r. ar_end r - ar_start r) ranges)
       (Representation_contiguous (dtype (representation F))) = Inr G" by blast
  note c = TensorFacts_contiguous_Inr[OF G]
  have "slice_ready (ranges, F, G, v)"
    using assms(2) i c by (simp add: slice_ready_def width_def list_all2_conv_all_nth)
  then show ?thesis using rows_fit_canonical[OF c(8)] i(1) by blast
qed

lemma execute_slice_bytes_delivers:
  assumes r: "slice_ready (ranges, F, G, v)" and G: "rows_fit G" and out: "length out = byte_len G"
  shows "delivers (execute_slice_bytes ranges F v G out)
    (wrote G (\<lambda>c. element F (as_slice v) (shift ranges c)) out)"
proof -
  have v: "view_of F v" and w: "width F = width G" and len: "length ranges = length (logical_shape F)"
    using r by (auto simp: slice_ready_def)
  have "(\<lambda>c. element F (as_slice v) (shift ranges c)) =
      (\<lambda>c. chunk (width G) (as_slice v) (offset (shift ranges c) (storage_strides F)))"
    using w by (simp add: element_def fun_eq_iff)
  then have "delivers (copy_elements (slice_locate (ranges, F, G, v)) (width G) (element_count G) out)
      (wrote G (\<lambda>c. element F (as_slice v) (shift ranges c)) out)"
    using sliced.copies[OF r, of out] out by (simp add: slice_source_def)
  then show ?thesis
    using view_of_bytes(3)[OF v] w dtype_width_Inr[of F] G len
    by (simp add: execute_slice_bytes_def slice_locate_def rows_fit_def)
qed

section \<open>Concatenation\<close>

text \<open>The input that holds position \<open>a\<close> of the concatenated axis, and its local position.\<close>

fun pick :: "nat list \<Rightarrow> nat \<Rightarrow> nat \<times> nat" where
  "pick (d # ds) a = (if a < d then (0, a) else (let r = pick ds (a - d) in (Suc (fst r), snd r)))"
| "pick [] a = (0, a)"

lemma pick_inside:
  "a < sum_list dims \<Longrightarrow> fst (pick dims a) < length dims \<and> snd (pick dims a) < dims ! fst (pick dims a)
     \<and> a = sum_list (take (fst (pick dims a)) dims) + snd (pick dims a)"
proof (induction dims arbitrary: a)
  case Nil
  then show ?case by simp
next
  case (Cons d dims)
  show ?case
  proof (cases "a < d")
    case True
    then show ?thesis by simp
  next
    case False
    then have "a - d < sum_list dims" using Cons.prems by simp
    from Cons.IH[OF this] False show ?thesis by (auto simp: Let_def)
  qed
qed

lemma find_first:
  assumes "i < n" "P i" "\<And>j. j < i \<Longrightarrow> \<not> P j"
  shows "find P [0..<n] = Some i"
  unfolding find_Some_iff using assms by (intro exI[of _ i]) auto

definition axis_dims :: "nat \<Rightarrow> TensorFacts list \<Rightarrow> nat list" where
  "axis_dims axis Fs = map (\<lambda>F. logical_shape F ! axis) Fs"

lemma starts_loop:
  assumes "n + sum_list (axis_dims axis Fs) < u64_bound"
  shows "foldR (\<lambda>facts st.
         bindR (ok_or ResourceLimit (checked_add (snd st) (logical_shape facts ! axis))) (\<lambda>next.
           Inr (fst st @ [snd st], next))) Fs (acc, n)
    = Inr (acc @ map (\<lambda>i. n + sum_list (take i (axis_dims axis Fs))) [0..<length Fs],
        n + sum_list (axis_dims axis Fs))"
  using assms
proof (induction Fs arbitrary: acc n)
  case Nil
  then show ?case by (simp add: axis_dims_def)
next
  case (Cons F Fs)
  have map: "map f [0..<Suc k] = f 0 # map (\<lambda>i. f (Suc i)) [0..<k]" for f :: "nat \<Rightarrow> nat" and k
    by (simp add: upt_conv_Cons map_Suc_upt[symmetric] comp_def del: upt_Suc)
  show ?case
    using Cons.prems Cons.IH[of "n + logical_shape F ! axis" "acc @ [n]"]
    by (simp add: axis_dims_def checked_add_def add.assoc map del: upt_Suc)
qed

lemma concat_starts_Inr:
  "sum_list (axis_dims axis Fs) < u64_bound \<Longrightarrow>
   concat_starts axis Fs = Inr (map (\<lambda>i. sum_list (take i (axis_dims axis Fs))) [0..<length Fs])"
  using starts_loop[of 0 axis Fs "[]"] by (simp add: concat_starts_def)

lemma sum_take_mono: "i \<le> j \<Longrightarrow> sum_list (take i xs) \<le> (sum_list (take j xs) :: nat)"
  by (metis append_take_drop_id le_add1 min.absorb1 sum_list.append take_take)

lemma sum_take_Suc: "i < length xs \<Longrightarrow> sum_list (take (Suc i) xs) = sum_list (take i xs) + (xs ! i :: nat)"
  by (simp add: take_Suc_conv_app_nth)

lemma concat_input_Inr:
  assumes "a < sum_list (axis_dims axis Fs)" "sum_list (axis_dims axis Fs) < u64_bound"
  shows "concat_input axis Fs (map (\<lambda>i. sum_list (take i (axis_dims axis Fs))) [0..<length Fs]) a
    = Inr (fst (pick (axis_dims axis Fs) a))"
proof -
  let ?ds = "axis_dims axis Fs" let ?i = "fst (pick ?ds a)"
  have len: "length ?ds = length Fs" by (simp add: axis_dims_def)
  note p = pick_inside[OF assms(1)]
  have sat: "saturating_add (sum_list (take i ?ds)) (logical_shape (Fs ! i) ! axis) = sum_list (take (Suc i) ?ds)"
    if "i < length Fs" for i
  proof -
    have "sum_list (take (Suc i) ?ds) \<le> sum_list ?ds" using sum_take_mono[of "Suc i" "length ?ds" ?ds] that len by simp
    then show ?thesis
      using that assms(2) sum_take_Suc[of i ?ds] len by (simp add: saturating_add_def axis_dims_def)
  qed
  have "find (\<lambda>i. a < saturating_add (map (\<lambda>i. sum_list (take i ?ds)) [0..<length Fs] ! i)
      (logical_shape (Fs ! i) ! axis)) [0..<length Fs] = Some ?i"
  proof (rule find_first)
    show "?i < length Fs" using p len by simp
    then show "a < saturating_add (map (\<lambda>i. sum_list (take i ?ds)) [0..<length Fs] ! ?i)
        (logical_shape (Fs ! ?i) ! axis)"
      using sat[of ?i] p sum_take_Suc[of ?i ?ds] len by simp
    fix j assume j: "j < ?i"
    then have "sum_list (take (Suc j) ?ds) \<le> sum_list (take ?i ?ds)" by (intro sum_take_mono) simp
    then show "\<not> a < saturating_add (map (\<lambda>i. sum_list (take i ?ds)) [0..<length Fs] ! j)
        (logical_shape (Fs ! j) ! axis)"
      using sat[of j] j p len by simp
  qed
  then show ?thesis by (simp add: concat_input_def)
qed

type_synonym concat_args = "nat \<times> TensorFacts list \<times> TensorFacts \<times> ByteView list"

definition concat_ready :: "concat_args \<Rightarrow> bool" where
  "concat_ready k = (case k of (axis, Fs, G, vs) \<Rightarrow>
     wf_facts G \<and> axis < length (logical_shape G) \<and> length vs = length Fs
   \<and> (\<forall>i < length Fs. view_of (Fs ! i) (vs ! i) \<and> width (Fs ! i) = width G
        \<and> (\<exists>d. logical_shape (Fs ! i) = (logical_shape G)[axis := d]))
   \<and> logical_shape G ! axis = sum_list (axis_dims axis Fs)
   \<and> sum_list (axis_dims axis Fs) < u64_bound)"

definition concat_source :: "concat_args \<Rightarrow> nat list \<Rightarrow> u8 list \<times> nat" where
  "concat_source k c = (case k of (axis, Fs, G, vs) \<Rightarrow>
     let r = pick (axis_dims axis Fs) (c ! axis) in
     (as_slice (vs ! fst r), offset (c[axis := snd r]) (storage_strides (Fs ! fst r))))"

definition concat_locate :: "concat_args \<Rightarrow> nat \<Rightarrow> (u8 list \<times> nat \<times> nat) result" where
  "concat_locate k = (case k of (axis, Fs, G, vs) \<Rightarrow>
     locate_concat axis Fs G vs (row_strides (logical_shape G))
       (map (\<lambda>i. sum_list (take i (axis_dims axis Fs))) [0..<length Fs]))"

text \<open>The selected input and the local coordinate.\<close>

lemma concat_local:
  assumes r: "concat_ready (axis, Fs, G, vs)" and c: "in_shape c (logical_shape G)"
  shows "let p = pick (axis_dims axis Fs) (c ! axis) in
    fst p < length Fs \<and> c ! axis = sum_list (take (fst p) (axis_dims axis Fs)) + snd p
    \<and> in_shape (c[axis := snd p]) (logical_shape (Fs ! fst p))"
proof -
  let ?ds = "axis_dims axis Fs" let ?p = "pick ?ds (c ! axis)"
  have ax: "axis < length (logical_shape G)" and sum: "logical_shape G ! axis = sum_list ?ds"
    using r by (simp_all add: concat_ready_def)
  have "c ! axis < sum_list ?ds" using c ax sum by (auto simp: in_shape_nth)
  note p = pick_inside[OF this]
  have i: "fst ?p < length Fs" using p by (simp add: axis_dims_def)
  obtain d where shape: "logical_shape (Fs ! fst ?p) = (logical_shape G)[axis := d]"
    using r i by (auto simp: concat_ready_def)
  have eq: "?ds ! fst ?p = logical_shape (Fs ! fst ?p) ! axis" using i by (simp add: axis_dims_def)
  from p have "snd ?p < ?ds ! fst ?p" by blast
  then have "snd ?p < logical_shape (Fs ! fst ?p) ! axis" unfolding eq .
  then have "in_shape (c[axis := snd ?p]) (logical_shape (Fs ! fst ?p))"
    using c shape ax by (auto simp: in_shape_nth nth_list_update)
  then show ?thesis using p i by (simp add: Let_def)
qed

lemma locate_concat_axes:
  assumes F: "wf_facts F" and G: "wf_facts G" and c: "in_shape c (logical_shape G)"
    and ax: "axis < length (logical_shape G)" and start: "c ! axis = start + b"
    and d: "in_shape (c[axis := b]) (logical_shape F)"
  shows "locate_axes (offset c (row_strides (logical_shape G))) (logical_shape G)
      (row_strides (logical_shape G)) (concat_axes axis start F G) =
    Inr (offset (c[axis := b]) (storage_strides F), offset c (storage_strides G))"
proof -
  let ?L = "logical_shape G" let ?l = "offset c (row_strides ?L)" let ?n = "length ?L"
  let ?axes = "concat_axes axis start F G"
  have lens: "length c = ?n" "length (logical_shape F) = ?n"
    using in_shape_length[OF c] in_shape_length[OF d] by simp_all
  have strides: "length (storage_strides F) = ?n" "length (storage_strides G) = ?n"
    using lens wf_facts_lengths[OF F] wf_facts_lengths[OF G] by simp_all
  have sc: "(\<lambda>i. source_coordinate c (i, if i = axis then (\<lambda>c. ok_or Integrity (checked_sub c start)) else Inr,
      storage_strides F ! i, storage_strides G ! i)) i = c[axis := b] ! i" if "i < ?n" for i
    using start that lens by (simp add: source_coordinate_def checked_sub_def nth_list_update)
  have "source_sum c ?axes = (\<Sum>i\<leftarrow>[0..<?n]. c[axis := b] ! i * storage_strides F ! i)"
    unfolding source_sum_def concat_axes_def using sc
    by (simp add: comp_def interv_sum_list_conv_sum_set_nat)
  then have src: "source_sum c ?axes = offset (c[axis := b]) (storage_strides F)"
    using offset_upt[of "c[axis := b]" ?n "storage_strides F"] lens strides by simp
  have tgt: "target_sum c ?axes = offset c (storage_strides G)"
    using offset_upt[of c ?n "storage_strides G"] lens strides
    by (simp add: target_sum_def concat_axes_def comp_def)
  have "\<forall>e \<in> set ?axes. fst e < ?n \<and> fst (snd e) (c ! fst e) = Inr (source_coordinate c e)"
    using start by (auto simp: concat_axes_def source_coordinate_def checked_sub_def)
  then show ?thesis
    using locate_axes_Inr[of ?L ?axes ?l] in_shape_pos[OF c] coords_offset[OF c] src tgt
      offset_bound[OF F d] offset_bound[OF G c] by simp
qed

interpretation concatenated: copy_kernel concat_ready "\<lambda>k. fst (snd (snd k))" concat_locate concat_source
proof
  fix k c assume r: "concat_ready k"
  obtain axis Fs G vs where k: "k = (axis, Fs, G, vs)" by (metis prod.exhaust)
  show "wf_facts (fst (snd (snd k)))" using r k by (simp add: concat_ready_def)
  assume c: "in_shape c (logical_shape (fst (snd (snd k))))"
  let ?ds = "axis_dims axis Fs" let ?p = "pick ?ds (c ! axis)"
  have G: "wf_facts G" "axis < length (logical_shape G)" "logical_shape G ! axis = sum_list ?ds"
      "sum_list ?ds < u64_bound" and c': "in_shape c (logical_shape G)"
    using r k c by (auto simp: concat_ready_def)
  from concat_local[of axis Fs G vs c] r k c' have p: "fst ?p < length Fs"
    "c ! axis = sum_list (take (fst ?p) ?ds) + snd ?p"
    "in_shape (c[axis := snd ?p]) (logical_shape (Fs ! fst ?p))" by (simp_all add: Let_def)
  have v: "view_of (Fs ! fst ?p) (vs ! fst ?p)" "width (Fs ! fst ?p) = width G"
    using r k p(1) by (auto simp: concat_ready_def)
  have F: "wf_facts (Fs ! fst ?p)" using v by (simp add: view_of_def)
  have lt: "c ! axis < sum_list ?ds" using c' G by (auto simp: in_shape_nth)
  show "concat_locate k (offset c (row_strides (logical_shape (fst (snd (snd k)))))) =
      Inr (fst (concat_source k c), snd (concat_source k c), offset c (storage_strides (fst (snd (snd k)))))"
    using k p(1) concat_input_Inr[OF lt G(4)] locate_concat_axes[OF F G(1) c' G(2) p(2,3)]
      logical_coordinate_Inr[OF in_shape_pos[OF c'] G(2)] coords_offset[OF c']
    by (simp add: concat_locate_def locate_concat_def concat_source_def Let_def)
  show "(snd (concat_source k c) + 1) * width (fst (snd (snd k))) \<le> length (fst (concat_source k c))
      \<and> length (fst (concat_source k c)) < usize_bound"
    using k v element_inside[OF v(1) p(3)] by (simp add: concat_source_def Let_def)
qed

text \<open>The element at a coordinate of the concatenation.\<close>

definition concat_element :: "nat \<Rightarrow> TensorFacts list \<Rightarrow> u8 list list \<Rightarrow> nat list \<Rightarrow> u8 list" where
  "concat_element axis Fs bytes c =
     (let r = pick (axis_dims axis Fs) (c ! axis) in
      element (Fs ! fst r) (bytes ! fst r) (c[axis := snd r]))"

lemma execute_concat_bytes_delivers:
  assumes r: "concat_ready (axis, Fs, G, vs)" and G: "rows_fit G" and out: "length out = byte_len G"
  shows "delivers (execute_concat_bytes axis Fs G vs out)
    (wrote G (concat_element axis Fs (map as_slice vs)) out)"
proof -
  have ax: "axis < length (logical_shape G)" "length vs = length Fs" and wf: "wf_facts G"
    and sum: "sum_list (axis_dims axis Fs) < u64_bound"
    and views: "\<forall>i < length Fs. view_of (Fs ! i) (vs ! i) \<and> width (Fs ! i) = width G"
    using r by (auto simp: concat_ready_def)
  have "chunk (width G) (fst (concat_source (axis, Fs, G, vs) c)) (snd (concat_source (axis, Fs, G, vs) c))
      = concat_element axis Fs (map as_slice vs) c" if "in_shape c (logical_shape G)" for c
    using concat_local[OF r that] views ax(2)
    by (simp add: concat_source_def concat_element_def element_def Let_def)
  then have "delivers (copy_elements (concat_locate (axis, Fs, G, vs)) (width G) (element_count G) out)
      (wrote G (concat_element axis Fs (map as_slice vs)) out)"
    using concatenated.copies[OF r, of out] out
    by (auto simp: wrote_def elim!: delivers_mono)
  moreover have "validate_axis axis (length (logical_shape G)) = Inr axis"
    using ax wf_facts_lengths(4)[OF wf] by (simp add: validate_axis_Inr u32_bound_def usize_bound_def)
  moreover have "mapR (\<lambda>(facts, bytes). validate_view_len bytes (byte_len facts)) (zip Fs vs)
      = Inr (map (\<lambda>_. ()) (zip Fs vs))"
    using views ax(2) view_of_bytes(3)
    by (intro mapR_all_Inr) (auto simp: set_zip)
  ultimately show ?thesis
    using ax(2) dtype_width_Inr[of G] G concat_starts_Inr[OF sum]
    by (simp add: execute_concat_bytes_def concat_locate_def rows_fit_def)
qed

end
