(* ===== verification/MW_Concat.thy ===== *)
theory MW_Concat
  imports MW_Copies
begin

text \<open>
  operation.rs, the contiguous concatenation: byte ranges of the inputs are appended tile by
  tile in the order of the outer index. It is shown to place every element where the
  element-wise kernel does, so the two paths deliver the same bytes.
\<close>

section \<open>Tiled appends\<close>

definition TILE_BYTES :: nat where
  "TILE_BYTES = 1024 * 1024"

function append_tiles :: "u8 list \<Rightarrow> nat \<Rightarrow> nat \<Rightarrow> nat \<Rightarrow> u8 list \<Rightarrow> u8 list exec" where
  "append_tiles source off len copied target =
     (if copied < len then
        bindE check (\<lambda>_.
        let tile = min TILE_BYTES (len - copied) in
        bindE (liftE (ok_or ResourceLimit (checked_add off copied))) (\<lambda>source_start.
        bindE (liftE (checked_byte_range source_start tile (length source))) (\<lambda>source_range.
        bindE (liftE (ok_or Integrity (get_range source (fst source_range) (snd source_range)))) (\<lambda>bytes.
        bindE (liftE (ok_or ResourceLimit (checked_add copied tile))) (\<lambda>copied.
          append_tiles source off len copied (target @ bytes))))))
      else retE target)"
  by pat_completeness auto
termination
  by (relation "measure (\<lambda>(_, _, len, copied, _). len - copied)")
    (auto simp: liftE_Inr checked_Some TILE_BYTES_def)

declare append_tiles.simps [simp del]

definition append_byte_range_tiled :: "u8 list \<Rightarrow> nat \<Rightarrow> nat \<Rightarrow> u8 list \<Rightarrow> u8 list exec" where
  "append_byte_range_tiled source source_offset len target = append_tiles source source_offset len 0 target"

section \<open>The contiguous kernel\<close>

text \<open>One input of one outer index.\<close>

definition concat_chunk ::
    "nat \<Rightarrow> nat \<Rightarrow> nat \<Rightarrow> TensorFacts \<times> ByteView \<Rightarrow> u8 list \<times> nat \<Rightarrow> (u8 list \<times> nat) exec" where
  "concat_chunk axis inner_bytes outer_index input st =
     bindE (liftE (ok_or ResourceLimit (checked_mul (logical_shape (fst input) ! axis) inner_bytes))) (\<lambda>chunk_bytes.
     bindE (liftE (ok_or ResourceLimit (checked_mul outer_index chunk_bytes))) (\<lambda>source_offset.
     bindE (append_byte_range_tiled (as_slice (snd input)) source_offset chunk_bytes (fst st)) (\<lambda>output.
     bindE (liftE (ok_or ResourceLimit (checked_add (snd st) chunk_bytes))) (\<lambda>target_offset.
       retE (output, target_offset)))))"

definition build_contiguous_concat ::
    "Axis \<Rightarrow> TensorFacts list \<Rightarrow> TensorFacts \<Rightarrow> ByteView list \<Rightarrow> u8 list exec" where
  "build_contiguous_concat concat_axis in_facts out_facts inputs =
     bindE check (\<lambda>_.
     bindE (liftE (ensure (length in_facts = length inputs) Integrity)) (\<lambda>_.
     bindE (liftE (mapR (\<lambda>(facts, bytes). validate_view_len bytes (byte_len facts))
                    (zip in_facts inputs))) (\<lambda>_.
     bindE (liftE (validate_axis concat_axis (length (logical_shape out_facts)))) (\<lambda>axis.
     bindE (liftE (validate_host_len (byte_len out_facts))) (\<lambda>output_length.
     bindE (try_reserve output_length) (\<lambda>_.
     let shape = logical_shape (in_facts ! 0) in
     bindE (liftE (checked_element_count (take axis shape))) (\<lambda>outer.
     bindE (liftE (checked_element_count (drop (axis + 1) shape))) (\<lambda>inner_elements.
     bindE (liftE (dtype_width (dtype (representation (in_facts ! 0))))) (\<lambda>w.
     bindE (liftE (ok_or ResourceLimit (checked_mul inner_elements w))) (\<lambda>inner_bytes.
     bindE (foldE (\<lambda>outer_index st. bindE check (\<lambda>_.
              foldE (concat_chunk axis inner_bytes outer_index) (zip in_facts inputs) st))
            [0..<outer] ([], 0)) (\<lambda>st.
     bindE (liftE (u64_try_from (length (fst st)))) (\<lambda>target_len.
     bindE (liftE (ensure (\<not> (snd st \<noteq> target_len \<or> length (fst st) \<noteq> output_length)) Integrity)) (\<lambda>_.
     bindE check (\<lambda>_.
       retE (fst st)))))))))))))))"

section \<open>What is appended\<close>

lemma append_tiles_delivers:
  assumes "off + len \<le> length source" and "length source < usize_bound"
  shows "copied \<le> len \<Longrightarrow>
    delivers (append_tiles source off len copied target)
      (\<lambda>r. r = target @ take (len - copied) (drop (off + copied) source))"
proof (induction "len - copied" arbitrary: copied target rule: less_induct)
  case less
  show ?case
  proof (cases "copied < len")
    case True
    let ?tile = "min TILE_BYTES (len - copied)"
    have tile: "0 < ?tile" "copied + ?tile \<le> len" using True by (auto simp: TILE_BYTES_def)
    have add: "checked_add off copied = Some (off + copied)" "checked_add copied ?tile = Some (copied + ?tile)"
      using assms tile True by (auto simp: checked_add_def usize_is_u64)
    have rng: "checked_byte_range (off + copied) ?tile (length source) = Inr (off + copied, off + copied + ?tile)"
      using assms tile by (auto simp: checked_byte_range_def checked_add_def usize_try_from_def usize_is_u64)
    let ?bytes = "take ?tile (drop (off + copied) source)"
    have get: "get_range source (off + copied) (off + copied + ?tile) = Some ?bytes"
      using assms tile by (simp add: get_range_def)
    have "delivers (append_tiles source off len (copied + ?tile) (target @ ?bytes))
        (\<lambda>r. r = (target @ ?bytes) @ take (len - (copied + ?tile)) (drop (off + (copied + ?tile)) source))"
      using tile True by (intro less.hyps) auto
    moreover have "?bytes @ take (len - (copied + ?tile)) (drop (off + (copied + ?tile)) source) =
        take (len - copied) (drop (off + copied) source)"
    proof -
      have len: "?tile + (len - (copied + ?tile)) = len - copied" using tile by simp
      have drop: "drop ?tile (drop (off + copied) source) = drop (off + (copied + ?tile)) source"
        unfolding drop_drop by (rule arg_cong2[where f = drop]) simp_all
      show ?thesis
        using take_add[of ?tile "len - (copied + ?tile)" "drop (off + copied) source"]
        unfolding len drop by (rule sym)
    qed
    ultimately have rest: "delivers (append_tiles source off len (copied + ?tile) (target @ ?bytes))
        (\<lambda>r. r = target @ take (len - copied) (drop (off + copied) source))" by simp
    show ?thesis
      unfolding append_tiles.simps[of source off len copied target]
      using True rest add rng get
      by (simp add: Let_def) (intro delivers_bindE[OF delivers_check[of "\<lambda>_. True"]]; simp)
  next
    case False
    then show ?thesis using less.prems by (subst append_tiles.simps) (auto intro: delivers_retE)
  qed
qed

lemma append_byte_range_delivers:
  assumes "off + len \<le> length source" and "length source < usize_bound"
    and "P (target @ take len (drop off source))"
  shows "delivers (append_byte_range_tiled source off len target) P"
  unfolding append_byte_range_tiled_def
  using append_tiles_delivers[OF assms(1,2), of 0 target] assms(3) by (auto elim!: delivers_mono)

definition part :: "nat \<Rightarrow> nat \<Rightarrow> nat \<Rightarrow> TensorFacts \<times> ByteView \<Rightarrow> u8 list" where
  "part axis ib q x = (let n = logical_shape (fst x) ! axis * ib in take n (drop (q * n) (as_slice (snd x))))"

definition block :: "nat \<Rightarrow> nat \<Rightarrow> (TensorFacts \<times> ByteView) list \<Rightarrow> nat \<Rightarrow> u8 list" where
  "block axis ib xs q = concat (map (part axis ib q) xs)"

lemma offset_split:
  assumes "length p = length P"
  shows "offset (p @ a # s) (row_strides (P @ d # S)) =
    (offset p (row_strides P) * d + a) * prod_list S + offset s (row_strides S)"
  using assms by (induction p P rule: list_induct2) (simp_all add: algebra_simps)

section \<open>The contiguous kernel against the specification\<close>

definition contiguous_ready :: "concat_args \<Rightarrow> bool" where
  "contiguous_ready k = (case k of (axis, Fs, G, vs) \<Rightarrow> concat_ready k \<and> Fs \<noteq> []
     \<and> is_canonical_contiguous G \<and> (\<forall>F \<in> set Fs. is_canonical_contiguous F)
     \<and> 0 \<notin> set (logical_shape G))"

text \<open>The sizes that the loop bounds rest on.\<close>

lemma contiguous_sizes:
  assumes r: "contiguous_ready (axis, Fs, G, vs)"
  defines "outer \<equiv> prod_list (take axis (logical_shape G))"
    and "ib \<equiv> prod_list (drop (Suc axis) (logical_shape G)) * width G"
    and "span \<equiv> sum_list (axis_dims axis Fs)"
  shows "byte_len G = outer * (span * ib)" "byte_len G < u64_bound" "0 < outer" "0 < ib" "ib < u64_bound"
    and "i < length Fs \<Longrightarrow> length (as_slice (vs ! i)) = outer * (logical_shape (Fs ! i) ! axis * ib)
      \<and> length (as_slice (vs ! i)) < usize_bound
      \<and> take axis (logical_shape (Fs ! i)) = take axis (logical_shape G)
      \<and> drop (Suc axis) (logical_shape (Fs ! i)) = drop (Suc axis) (logical_shape G)"
proof -
  let ?L = "logical_shape G"
  have ax: "axis < length ?L" and wf: "wf_facts G" and sum: "?L ! axis = span"
    and G: "is_canonical_contiguous G" and nz: "0 \<notin> set ?L"
    using r by (auto simp: contiguous_ready_def concat_ready_def span_def)
  have split: "prod_list (xs[axis := d]) = prod_list (take axis xs) * (d * prod_list (drop (Suc axis) xs))"
    if "axis < length xs" for xs :: "nat list" and d
    using that by (simp add: upd_conv_take_nth_drop)
  have L: "prod_list ?L = outer * (span * prod_list (drop (Suc axis) ?L))"
    using split[OF ax, of "?L ! axis", unfolded list_update_id] unfolding sum outer_def .
  show bytes: "byte_len G = outer * (span * ib)" "byte_len G < u64_bound"
    using wf_facts_byte_len[OF wf] canonical_fields(2)[OF G] L by (simp_all add: ib_def)
  have pos: "0 < prod_list ?L" using nz by (rule prod_list_pos)
  then show "0 < outer" "0 < ib" using L by (auto simp: ib_def)
  have "0 < outer * span" using pos L by simp
  then have "1 * ib \<le> (outer * span) * ib" by (intro mult_le_mono1) simp
  then have "ib \<le> byte_len G" unfolding bytes(1) by (simp only: mult_1 mult.assoc)
  then show "ib < u64_bound" using bytes(2) by (rule le_less_trans)
  assume i: "i < length Fs"
  obtain d where d: "logical_shape (Fs ! i) = ?L[axis := d]" and v: "view_of (Fs ! i) (vs ! i)"
    and w: "width (Fs ! i) = width G" and F: "is_canonical_contiguous (Fs ! i)"
    using r i by (auto simp: contiguous_ready_def concat_ready_def)
  have wfF: "wf_facts (Fs ! i)" using v by (simp add: view_of_def)
  have "byte_len (Fs ! i) = outer * (d * ib)"
    using wf_facts_byte_len(1)[OF wfF] canonical_fields(2)[OF F] d split[OF ax, of d] w
    by (simp add: outer_def ib_def)
  then show "length (as_slice (vs ! i)) = outer * (logical_shape (Fs ! i) ! axis * ib)
      \<and> length (as_slice (vs ! i)) < usize_bound
      \<and> take axis (logical_shape (Fs ! i)) = take axis ?L
      \<and> drop (Suc axis) (logical_shape (Fs ! i)) = drop (Suc axis) ?L"
    using view_of_bytes[OF v] d ax by (simp add: usize_is_u64)
qed

lemma length_part:
  assumes "length (as_slice (snd x)) = outer * (logical_shape (fst x) ! axis * ib)" and "q < outer"
  shows "length (part axis ib q x) = logical_shape (fst x) ! axis * ib"
    and "q * (logical_shape (fst x) ! axis * ib) + logical_shape (fst x) ! axis * ib \<le> length (as_slice (snd x))"
proof -
  let ?n = "logical_shape (fst x) ! axis * ib"
  show le: "q * ?n + ?n \<le> length (as_slice (snd x))" unfolding assms(1) using assms(2) by (rule mult_room)
  then show "length (part axis ib q x) = ?n" by (simp add: part_def Let_def)
qed

lemma concat_chunk_delivers:
  assumes len: "length (as_slice (snd x)) = outer * (logical_shape (fst x) ! axis * ib)" and q: "q < outer"
    and small: "length (as_slice (snd x)) < usize_bound" and t: "t + logical_shape (fst x) ! axis * ib < u64_bound"
  shows "delivers (concat_chunk axis ib q x (out, t)) (\<lambda>st.
    st = (out @ part axis ib q x, t + logical_shape (fst x) ! axis * ib))"
proof -
  let ?n = "logical_shape (fst x) ! axis * ib"
  note part = length_part[of x outer axis ib q, OF len q]
  have "q * ?n < u64_bound" "?n < u64_bound" using part(2) small by (simp_all add: usize_is_u64)
  then have eq: "concat_chunk axis ib q x (out, t) =
      bindE (append_byte_range_tiled (as_slice (snd x)) (q * ?n) ?n out) (\<lambda>output. retE (output, t + ?n))"
    using t by (simp add: concat_chunk_def checked_mul_def checked_add_def del: retE_apply)
  show ?thesis
    unfolding eq
  proof (rule delivers_bindE[OF append_byte_range_delivers[OF part(2) small]])
    show "out @ take ?n (drop (q * ?n) (as_slice (snd x))) = out @ part axis ib q x"
      by (simp add: part_def Let_def)
    show "delivers (retE (r, t + ?n)) (\<lambda>st. st = (out @ part axis ib q x, t + ?n))"
      if "r = out @ part axis ib q x" for r using that by (intro delivers_retE) simp
  qed
qed

lemma concat_block_delivers:
  assumes lens: "\<And>i. i < length xs \<Longrightarrow>
      length (as_slice (snd (xs ! i))) = outer * (logical_shape (fst (xs ! i)) ! axis * ib)
      \<and> length (as_slice (snd (xs ! i))) < usize_bound"
    and q: "q < outer" and t: "t + (\<Sum>x\<leftarrow>xs. logical_shape (fst x) ! axis * ib) < u64_bound"
  shows "delivers (foldE (concat_chunk axis ib q) xs (out, t)) (\<lambda>st.
    st = (out @ block axis ib xs q, t + (\<Sum>x\<leftarrow>xs. logical_shape (fst x) ! axis * ib)))"
proof -
  let ?n = "\<lambda>x. logical_shape (fst x) ! axis * ib"
  let ?I = "\<lambda>i st. st = (out @ block axis ib (take i xs) q, t + (\<Sum>x\<leftarrow>take i xs. ?n x))"
  have "delivers (foldE (concat_chunk axis ib q) xs (out, t)) (?I (length xs))"
  proof (rule delivers_foldE)
    show "?I 0 (out, t)" by (simp add: block_def)
    fix i st assume i: "i < length xs" and I: "?I i st"
    have take: "take (Suc i) xs = take i xs @ [xs ! i]" using i by (rule take_Suc_conv_app_nth)
    have "(\<Sum>x\<leftarrow>take (Suc i) xs. ?n x) \<le> (\<Sum>x\<leftarrow>xs. ?n x)"
      using sum_take_mono[of "Suc i" "length xs" "map ?n xs"] i by (simp add: take_map)
    then have "(t + (\<Sum>x\<leftarrow>take i xs. ?n x)) + ?n (xs ! i) < u64_bound" using t take by simp
    from concat_chunk_delivers[OF conjunct1[OF lens[OF i]] q conjunct2[OF lens[OF i]] this,
        of "out @ block axis ib (take i xs) q"]
    show "delivers (concat_chunk axis ib q (xs ! i) st) (?I (Suc i))"
      using I take by (simp add: block_def add.assoc)
  qed
  then show ?thesis by simp
qed

lemma sum_zip_fst: "length xs = length ys \<Longrightarrow> (\<Sum>z\<leftarrow>zip xs ys. f (fst z)) = (\<Sum>x\<leftarrow>xs. f x)"
  by (induction xs ys rule: list_induct2) simp_all

lemma span_bytes:
  "length vs = length Fs \<Longrightarrow>
   (\<Sum>x\<leftarrow>zip Fs vs. logical_shape (fst x) ! axis * ib) = sum_list (axis_dims axis Fs) * ib"
  using sum_zip_fst[of Fs vs "\<lambda>F. logical_shape F ! axis * ib"]
  by (simp add: axis_dims_def sum_list_mult_const)

lemma contiguous_loop_delivers:
  assumes r: "contiguous_ready (axis, Fs, G, vs)"
  defines "outer \<equiv> prod_list (take axis (logical_shape G))"
    and "ib \<equiv> prod_list (drop (Suc axis) (logical_shape G)) * width G"
    and "span \<equiv> sum_list (axis_dims axis Fs)"
  shows "delivers (foldE (\<lambda>q st. bindE check (\<lambda>_. foldE (concat_chunk axis ib q) (zip Fs vs) st))
      [0..<outer] ([], 0))
    (\<lambda>st. st = (concat (map (block axis ib (zip Fs vs)) [0..<outer]), outer * (span * ib)))"
proof -
  let ?xs = "zip Fs vs"
  let ?I = "\<lambda>q st. st = (concat (map (block axis ib ?xs) [0..<q]), q * (span * ib))"
  have len: "length vs = length Fs" using r by (simp add: contiguous_ready_def concat_ready_def)
  note sizes = contiguous_sizes[OF r, folded outer_def ib_def span_def]
  show ?thesis
  proof (rule delivers_for[of ?I])
    show "?I 0 ([], 0)" by simp
    fix q st assume q: "q < outer" and I: "?I q st"
    have "q * (span * ib) + span * ib \<le> outer * (span * ib)" using q by (rule mult_room)
    then have t: "q * (span * ib) + (\<Sum>x\<leftarrow>?xs. logical_shape (fst x) ! axis * ib) < u64_bound"
      using sizes(1,2) span_bytes[OF len] by (simp add: span_def)
    have lens: "length (as_slice (snd (?xs ! i))) = outer * (logical_shape (fst (?xs ! i)) ! axis * ib)
        \<and> length (as_slice (snd (?xs ! i))) < usize_bound" if "i < length ?xs" for i
      using sizes(6)[of i] that len by simp
    have "delivers (foldE (concat_chunk axis ib q) ?xs st) (?I (Suc q))"
      using concat_block_delivers[of ?xs outer axis ib q, OF lens q t] I span_bytes[OF len]
      by (simp add: span_def add.commute)
    then show "delivers (bindE check (\<lambda>_. foldE (concat_chunk axis ib q) ?xs st)) (?I (Suc q))"
      by (rule delivers_bindE[OF delivers_check[of "\<lambda>_. True"], rotated]) simp
  qed
qed

text \<open>Reading back the appended bytes.\<close>

definition parts_fit :: "nat \<Rightarrow> nat \<Rightarrow> nat \<Rightarrow> (TensorFacts \<times> ByteView) list \<Rightarrow> bool" where
  "parts_fit axis ib outer xs \<longleftrightarrow> (\<forall>x \<in> set xs.
     length (as_slice (snd x)) = outer * (logical_shape (fst x) ! axis * ib))"

lemma map_length_parts:
  assumes "parts_fit axis ib outer xs" and "q < outer"
  shows "map length (map (part axis ib q) xs) = map (\<lambda>n. n * ib) (axis_dims axis (map fst xs))"
  using assms length_part(1)[of _ outer axis ib q] by (auto simp: parts_fit_def axis_dims_def)

lemma length_block:
  assumes "parts_fit axis ib outer xs" and "q < outer"
  shows "length (block axis ib xs q) = sum_list (axis_dims axis (map fst xs)) * ib"
  using map_length_parts[OF assms] by (simp add: block_def length_concat sum_list_mult_const)

lemma block_lookup:
  assumes fit: "parts_fit axis ib outer xs" and q: "q < outer" and i: "i < length xs"
    and j: "j + k \<le> logical_shape (fst (xs ! i)) ! axis * ib"
  shows "take k (drop (sum_list (take i (axis_dims axis (map fst xs))) * ib + j) (block axis ib xs q)) =
    take k (drop (q * (logical_shape (fst (xs ! i)) ! axis * ib) + j) (as_slice (snd (xs ! i))))"
proof -
  let ?parts = "map (part axis ib q) xs" let ?n = "logical_shape (fst (xs ! i)) ! axis * ib"
  have "map length (take i ?parts) = map (\<lambda>n. n * ib) (take i (axis_dims axis (map fst xs)))"
    using map_length_parts[OF fit q] by (metis take_map)
  then have sum: "sum_list (map length (take i ?parts)) = sum_list (take i (axis_dims axis (map fst xs))) * ib"
    by (simp add: sum_list_mult_const)
  have len: "length (?parts ! i) = ?n"
    using fit i q length_part(1)[of "xs ! i" outer axis ib q] by (simp add: parts_fit_def)
  have "take k (drop (sum_list (take i (axis_dims axis (map fst xs))) * ib + j) (block axis ib xs q)) =
      take k (drop j (?parts ! i))"
    using concat_part_at[of i ?parts j k] i len j sum by (simp add: block_def)
  also have "\<dots> = take k (drop (q * ?n + j) (as_slice (snd (xs ! i))))"
    using j i by (simp add: part_def Let_def drop_take min_def add.commute)
  finally show ?thesis .
qed

lemma blocks_lookup:
  assumes fit: "parts_fit axis ib outer xs" and q: "q < outer"
    and j: "j + k \<le> sum_list (axis_dims axis (map fst xs)) * ib"
  shows "take k (drop (q * (sum_list (axis_dims axis (map fst xs)) * ib) + j)
      (concat (map (block axis ib xs) [0..<outer]))) = take k (drop j (block axis ib xs q))"
proof -
  let ?n = "sum_list (axis_dims axis (map fst xs)) * ib" let ?bs = "map (block axis ib xs) [0..<outer]"
  have "map length (take q ?bs) = replicate q ?n"
    using length_block[OF fit] q by (intro nth_equalityI) simp_all
  then have "sum_list (map length (take q ?bs)) = q * ?n" by (simp add: sum_list_replicate)
  then show ?thesis using concat_part_at[of q ?bs j k] length_block[OF fit q] q j by simp
qed

text \<open>The row-major index of a coordinate, split at the axis.\<close>

lemma offset_axis:
  assumes "axis < length L" and "length c = length L"
  shows "offset (c[axis := b]) (row_strides (L[axis := d])) =
    (offset (take axis c) (row_strides (take axis L)) * d + b) * prod_list (drop (Suc axis) L)
      + offset (drop (Suc axis) c) (row_strides (drop (Suc axis) L))"
  using offset_split[of "take axis c" "take axis L" b "drop (Suc axis) c" d "drop (Suc axis) L"] assms
  by (simp add: upd_conv_take_nth_drop)

lemma axis_room:
  assumes "i < length ds" and "b < ds ! i" and "x + w \<le> ib"
  shows "b * ib + x + w \<le> ds ! i * ib"
    and "sum_list (take i ds) * ib + (b * ib + x) + w \<le> sum_list ds * (ib :: nat)"
proof -
  have "(b + 1) * ib \<le> ds ! i * ib" using assms(2) by (intro mult_le_mono1) simp
  then show le: "b * ib + x + w \<le> ds ! i * ib" using assms(3) by simp
  have "sum_list (take (Suc i) ds) \<le> sum_list ds"
    using sum_take_mono[of "Suc i" "length ds" ds] assms(1) by simp
  then have "(sum_list (take i ds) + ds ! i) * ib \<le> sum_list ds * ib"
    using sum_take_Suc[OF assms(1)] by (intro mult_le_mono1) simp
  then show "sum_list (take i ds) * ib + (b * ib + x) + w \<le> sum_list ds * ib"
    using le by (simp add: add_mult_distrib)
qed

text \<open>Where the appended bytes put each element.\<close>

lemma contiguous_element:
  assumes r: "contiguous_ready (axis, Fs, G, vs)" and c: "in_shape c (logical_shape G)"
  defines "outer \<equiv> prod_list (take axis (logical_shape G))"
    and "ib \<equiv> prod_list (drop (Suc axis) (logical_shape G)) * width G"
  shows "element G (concat (map (block axis ib (zip Fs vs)) [0..<outer])) c =
    concat_element axis Fs (map as_slice vs) c"
proof -
  let ?L = "logical_shape G" let ?w = "width G" let ?ds = "axis_dims axis Fs" let ?S = "drop (Suc axis) ?L"
  define q where "q = offset (take axis c) (row_strides (take axis ?L))"
  define e where "e = offset (drop (Suc axis) c) (row_strides ?S)"
  define i where "i = fst (pick ?ds (c ! axis))"
  define b where "b = snd (pick ?ds (c ! axis))"
  have ready: "concat_ready (axis, Fs, G, vs)" and G: "is_canonical_contiguous G"
    and can: "\<forall>F \<in> set Fs. is_canonical_contiguous F" and ax: "axis < length ?L"
    and len: "length vs = length Fs" and sum: "?L ! axis = sum_list ?ds"
    using r by (auto simp: contiguous_ready_def concat_ready_def)
  note sizes = contiguous_sizes[OF r, folded outer_def ib_def]
  have i: "i < length Fs" and start: "c ! axis = sum_list (take i ?ds) + b"
    and d: "in_shape (c[axis := b]) (logical_shape (Fs ! i))"
    using concat_local[OF ready c] unfolding Let_def i_def[symmetric] b_def[symmetric] by blast+
  obtain d where shape: "logical_shape (Fs ! i) = ?L[axis := d]" and w: "width (Fs ! i) = ?w"
    using ready i by (auto simp: concat_ready_def)
  have cl: "length c = length ?L" using c by (rule in_shape_length)
  have q: "q < outer" unfolding outer_def q_def
    using c ax cl by (intro offset_row_strides_less) (simp add: in_shape_nth)
  have "e < prod_list ?S"
    unfolding e_def using c ax cl by (intro offset_row_strides_less) (simp add: in_shape_nth)
  then have "(e + 1) * ?w \<le> prod_list ?S * ?w" by (intro mult_le_mono1) simp
  then have ew: "e * ?w + ?w \<le> ib" by (simp add: ib_def)
  have dim: "?ds ! i = d" "d = logical_shape (Fs ! i) ! axis"
    using i shape ax by (simp_all add: axis_dims_def)
  have "c[axis := b] ! axis < logical_shape (Fs ! i) ! axis"
    using d ax in_shape_length[OF d] cl unfolding in_shape_nth by auto
  then have bd: "i < length ?ds" "b < ?ds ! i" using dim i ax cl by (simp_all add: axis_dims_def)
  note room = axis_room[OF bd ew]
  have fit: "parts_fit axis ib outer (zip Fs vs)" "map fst (zip Fs vs) = Fs"
    using sizes(6) len by (auto simp: parts_fit_def set_zip)
  have "offset c (storage_strides G) = (q * sum_list ?ds + c ! axis) * prod_list ?S + e"
    using offset_axis[OF ax cl, of "c ! axis" "?L ! axis", folded q_def e_def, unfolded list_update_id]
      sum canonical_fields(4)[OF G] by simp
  then have "offset c (storage_strides G) * ?w =
      q * (sum_list ?ds * ib) + (sum_list (take i ?ds) * ib + (b * ib + e * ?w))"
    using start by (simp add: ib_def algebra_simps)
  then have lhs: "element G (concat (map (block axis ib (zip Fs vs)) [0..<outer])) c =
      take ?w (drop (q * (d * ib) + (b * ib + e * ?w)) (as_slice (vs ! i)))"
    using blocks_lookup[OF fit(1) q, unfolded fit(2), OF room(2)]
      block_lookup[OF fit(1) q, of i "b * ib + e * ?w" ?w] fit(2) room(1) i len dim
    by (simp add: element_def chunk_def)
  have "offset (c[axis := b]) (storage_strides (Fs ! i)) = (q * d + b) * prod_list ?S + e"
    using offset_axis[OF ax cl, of b d, folded q_def e_def] can i shape by (simp add: canonical_fields(4))
  then have "offset (c[axis := b]) (storage_strides (Fs ! i)) * ?w = q * (d * ib) + (b * ib + e * ?w)"
    by (simp add: ib_def algebra_simps)
  then show ?thesis
    unfolding lhs using w i len by (simp add: concat_element_def element_def chunk_def Let_def i_def b_def)
qed

text \<open>The contiguous path satisfies the specification of the element-wise kernel.\<close>

lemma build_contiguous_concat_delivers:
  assumes r: "contiguous_ready (axis, Fs, G, vs)"
  shows "delivers (build_contiguous_concat axis Fs G vs)
    (\<lambda>r. \<forall>out. wrote G (concat_element axis Fs (map as_slice vs)) out r)"
proof -
  let ?L = "logical_shape G" let ?outer = "prod_list (take axis ?L)"
  let ?ib = "prod_list (drop (Suc axis) ?L) * width G" let ?xs = "zip Fs vs"
  let ?r = "concat (map (block axis ?ib ?xs) [0..<?outer])"
  have ready: "concat_ready (axis, Fs, G, vs)" and G: "is_canonical_contiguous G" and wf: "wf_facts G"
    and ne: "Fs \<noteq> []" and ax: "axis < length ?L" and len: "length vs = length Fs" and nz: "0 \<notin> set ?L"
    and views: "\<forall>i < length Fs. view_of (Fs ! i) (vs ! i) \<and> width (Fs ! i) = width G"
    using r by (auto simp: contiguous_ready_def concat_ready_def)
  note sizes = contiguous_sizes[OF r]
  have fit: "parts_fit axis ?ib ?outer ?xs" "map fst ?xs = Fs"
    using sizes(6) len by (auto simp: parts_fit_def set_zip)
  have rlen: "length ?r = byte_len G"
  proof -
    have "map length (map (block axis ?ib ?xs) [0..<?outer]) = replicate ?outer (sum_list (axis_dims axis Fs) * ?ib)"
      using length_block[OF fit(1)] fit(2) by (intro nth_equalityI) simp_all
    then show ?thesis using sizes(1) by (simp add: length_concat sum_list_replicate)
  qed
  have all: "\<exists>c. in_shape c ?L \<and> offset c (storage_strides G) = j" if "j < prod_list (storage_shape G)" for j
    using that coords_in_shape[of ?L j] offset_coords[of j ?L] canonical_fields[OF G] by auto
  have spec: "wrote G (concat_element axis Fs (map as_slice vs)) out ?r" for out
    using rlen contiguous_element[OF r] all by (auto simp: wrote_def)
  have axis: "validate_axis axis (length ?L) = Inr axis"
    using ax wf_facts_lengths(4)[OF wf] by (simp add: validate_axis_Inr u32_bound_def usize_bound_def)
  have vl: "mapR (\<lambda>(facts, bytes). validate_view_len bytes (byte_len facts)) ?xs = Inr (map (\<lambda>_. ()) ?xs)"
    using views len view_of_bytes(3) by (intro mapR_all_Inr) (auto simp: set_zip)
  have "prod_list (take axis ?L) < u64_bound" "prod_list (drop (Suc axis) ?L) < u64_bound"
    using prod_list_take_le[OF nz, of axis] prod_list_drop_le[OF nz, of "Suc axis"] wf_facts_elements[OF wf]
    by simp_all
  then have counts: "checked_element_count (take axis ?L) = Inr ?outer"
    "checked_element_count (drop (Suc axis) ?L) = Inr (prod_list (drop (Suc axis) ?L))"
    unfolding checked_element_count_eq using nz
    by (auto intro!: checked_product_nonzero dest: in_set_takeD in_set_dropD)
  have shapes: "take axis (logical_shape (Fs ! 0)) = take axis ?L"
    "drop (Suc axis) (logical_shape (Fs ! 0)) = drop (Suc axis) ?L" "width (Fs ! 0) = width G"
    using sizes(6)[of 0] views ne by simp_all
  have host: "validate_host_len (byte_len G) = Inr (byte_len G)" "u64_try_from (byte_len G) = Inr (byte_len G)"
    using sizes(2) by (simp_all add: validate_host_len_def try_from_ok usize_is_u64)
  have final: "delivers (bindE (liftE (u64_try_from (length (fst st)))) (\<lambda>target_len.
      bindE (liftE (ensure (snd st = target_len \<and> length (fst st) = byte_len G) Integrity)) (\<lambda>_.
      bindE check (\<lambda>_. retE (fst st)))))
      (\<lambda>r. \<forall>out. wrote G (concat_element axis Fs (map as_slice vs)) out r)"
    if "st = (?r, ?outer * (sum_list (axis_dims axis Fs) * ?ib))" for st
    using that rlen host sizes(1) spec
    by (simp del: retE_apply)
      (rule delivers_bindE[OF delivers_check[of "\<lambda>_. True"]]; simp add: delivers_retE del: retE_apply)
  show ?thesis
    unfolding build_contiguous_concat_def Let_def
    using len axis vl counts shapes host sizes(5) dtype_width_Inr[of "Fs ! 0"] final
    by (simp add: checked_mul_def del: retE_apply)
      (intro delivers_bindE[OF delivers_check[of "\<lambda>_. True"]]
        delivers_bindE[OF delivers_try_reserve[of "\<lambda>_. True"]]
        delivers_bindE[OF contiguous_loop_delivers[OF r]]; simp)
qed

end
