(* ===== verification/MW_Layout.thy ===== *)
theory MW_Layout
  imports MW_Simd MW_Concat
begin

text \<open>
  operation.rs, the OIHW to OHWI fast path of storage permutations: the portable element loop
  and the selection between it and the vector kernel. The path is shown to write exactly what
  the general storage copy writes.
\<close>

section \<open>The portable loop\<close>

definition dimension_as_usize :: "nat \<Rightarrow> nat result" where
  "dimension_as_usize dimension = usize_try_from dimension"

definition COPY_TILE_ELEMENTS_USIZE :: nat where
  "COPY_TILE_ELEMENTS_USIZE = 16 * 1024"

text \<open>
  One input channel of a block: \<open>input.get(start..)\<close> followed by \<open>first_chunk\<close>, and the unchecked
  stride, which wraps at the width of \<open>usize\<close>.
\<close>

definition oihw_channel ::
    "u8 list \<Rightarrow> nat \<Rightarrow> nat \<Rightarrow> nat \<Rightarrow> nat \<Rightarrow> nat \<times> u8 list list \<Rightarrow> (nat \<times> u8 list list) result" where
  "oihw_channel input w stride block_end input_channel st =
     bindR (ok_or Integrity (if fst st + w \<le> length input
              then Some (take w (drop (fst st) input)) else None)) (\<lambda>source.
       Inr (if input_channel + 1 < block_end then (fst st + stride) mod usize_bound else fst st,
            snd st @ [source]))"

function oihw_blocks ::
    "u8 list \<Rightarrow> nat \<Rightarrow> nat \<Rightarrow> nat \<Rightarrow> nat \<Rightarrow> nat \<Rightarrow> nat \<Rightarrow> nat \<Rightarrow> u8 list list \<Rightarrow> u8 list list exec" where
  "oihw_blocks input w stride input_channels spatial channel_base spatial_index block_start output =
     (if block_start < input_channels then
        bindE check (\<lambda>_.
        let block_end = min (block_start + COPY_TILE_ELEMENTS_USIZE) input_channels in
        bindE (liftE (ok_or ResourceLimit (checked_mul block_start spatial))) (\<lambda>block_offset.
        bindE (liftE (ok_or ResourceLimit (Option.bind (checked_add channel_base block_offset) (\<lambda>off.
                 checked_add off spatial_index)))) (\<lambda>source_element.
        bindE (liftE (ok_or ResourceLimit (checked_mul source_element w))) (\<lambda>source_start.
        bindE (liftE (foldR (oihw_channel input w stride block_end) [block_start..<block_end]
                 (source_start, output))) (\<lambda>st.
          oihw_blocks input w stride input_channels spatial channel_base spatial_index block_end (snd st))))))
      else retE output)"
  by pat_completeness auto
termination
  by (relation "measure (\<lambda>(_, _, _, input_channels, _, _, _, block_start, _). input_channels - block_start)")
    (auto simp: COPY_TILE_ELEMENTS_USIZE_def)

declare oihw_blocks.simps [simp del]

definition build_oihw_to_ohwi_elements ::
    "nat \<Rightarrow> u8 list \<Rightarrow> nat \<Rightarrow> nat \<Rightarrow> nat \<Rightarrow> nat \<Rightarrow> u8 list exec" where
  "build_oihw_to_ohwi_elements w input output_channels input_channels spatial elements =
     (if elements = 0 then bindE check (\<lambda>_. retE []) else
     bindE (try_reserve elements) (\<lambda>_.
     bindE (liftE (ok_or ResourceLimit (checked_mul spatial w))) (\<lambda>stride.
     bindE (liftE (ok_or ResourceLimit (checked_mul input_channels spatial))) (\<lambda>output_channel_elements.
     bindE (foldE (\<lambda>output_channel output.
         bindE (liftE (ok_or ResourceLimit (checked_mul output_channel output_channel_elements))) (\<lambda>channel_base.
           foldE (\<lambda>spatial_index output.
               oihw_blocks input w stride input_channels spatial channel_base spatial_index 0 output)
             [0..<spatial] output))
       [0..<output_channels] []) (\<lambda>output.
     bindE (liftE (ensure (length output = elements) Integrity)) (\<lambda>_.
     bindE check (\<lambda>_.
       retE (concat output))))))))"

text \<open>The selection; the vector kernel needs the processor feature, a parameter.\<close>

definition build_oihw_to_ohwi_if_supported ::
    "bool \<Rightarrow> Permute \<Rightarrow> TensorFacts \<Rightarrow> TensorFacts \<Rightarrow> u8 list \<Rightarrow> u8 list option exec" where
  "build_oihw_to_ohwi_if_supported avx2 permute in_facts out_facts input =
     (if permute_mode permute = Logical \<or> permute_order permute \<noteq> [0, 2, 3, 1]
         \<or> \<not> is_canonical_contiguous in_facts then retE None
      else bindE check (\<lambda>_.
      case logical_shape in_facts of
        [outs, ins, kernel_height, kernel_width] \<Rightarrow>
          bindE (liftE (dimension_as_usize outs)) (\<lambda>outs.
          bindE (liftE (dimension_as_usize ins)) (\<lambda>ins.
          bindE (liftE (dimension_as_usize kernel_height)) (\<lambda>kernel_height.
          bindE (liftE (dimension_as_usize kernel_width)) (\<lambda>kernel_width.
          bindE (liftE (ok_or ResourceLimit (checked_mul kernel_height kernel_width))) (\<lambda>spatial.
          bindE (liftE (ok_or ResourceLimit (checked_mul ins spatial))) (\<lambda>output_channel_elements.
          bindE (liftE (ok_or ResourceLimit (checked_mul outs output_channel_elements))) (\<lambda>elements.
          bindE (liftE (dtype_width (dtype (representation in_facts)))) (\<lambda>w.
          bindE (liftE (ok_or ResourceLimit (checked_mul elements w))) (\<lambda>expected_bytes.
          bindE (liftE (validate_host_len (byte_len out_facts))) (\<lambda>output_bytes.
          bindE (liftE (ensure (\<not> (length input \<noteq> expected_bytes \<or> output_bytes \<noteq> expected_bytes)) Integrity)) (\<lambda>_.
          if w = 2 \<and> spatial = 9 \<and> (dtype (representation in_facts) = F16 \<or> dtype (representation in_facts) = Bf16)
             \<and> avx2 then
            bindE (allocate_tensor out_facts) (\<lambda>output.
            bindE (permute_oihw_to_ohwi_3x3_u16 avx2 input output outs ins) (\<lambda>output.
              retE (Some output)))
          else if w = 1 \<or> w = 2 \<or> w = 4 \<or> w = 8 then
            bindE (build_oihw_to_ohwi_elements w input outs ins spatial elements) (\<lambda>output.
              retE (Some output))
          else retE None)))))))))))
      | _ \<Rightarrow> retE None))"

section \<open>The portable loop transposes\<close>

text \<open>The source elements of one row of the output.\<close>

definition oihw_row :: "nat \<Rightarrow> u8 list \<Rightarrow> nat \<Rightarrow> nat \<Rightarrow> nat \<Rightarrow> nat \<Rightarrow> nat \<Rightarrow> u8 list list" where
  "oihw_row w input ins spatial a s n = map (\<lambda>i. chunk w input ((a * ins + i) * spatial + s)) [n..<ins]"

lemma element_index_bound:
  assumes "a < (outs :: nat)" "i < ins" "s < spatial"
  shows "(a * ins + i) * spatial + s < outs * (ins * spatial)"
proof -
  have "(a * ins + i) * spatial + spatial \<le> (a * ins + ins) * spatial"
    using assms(2) by (intro mult_room) simp
  also have "\<dots> \<le> (outs * ins) * spatial" using mult_room[OF assms(1)] by (rule mult_le_mono1)
  finally show ?thesis using assms(3) by (simp add: mult.assoc)
qed

lemma oihw_block_run:
  assumes input: "length input = outs * (ins * spatial) * w" "length input < usize_bound"
    and a: "a < outs" and s: "s < spatial" and hi: "hi \<le> ins" and w: "0 < w"
  shows "lo < hi \<Longrightarrow>
    \<exists>start. foldR (oihw_channel input w (spatial * w) hi) [lo..<hi] (((a * ins + lo) * spatial + s) * w, out) =
      Inr (start, out @ map (\<lambda>i. chunk w input ((a * ins + i) * spatial + s)) [lo..<hi])"
proof (induction "hi - lo" arbitrary: lo out)
  case 0
  then show ?case by simp
next
  case (Suc k)
  let ?at = "\<lambda>i. (a * ins + i) * spatial + s"
  have bound: "?at i * w + w \<le> length input" if "i < hi" for i
    unfolding input(1) using element_index_bound[OF a _ s, of i ins] that hi by (intro mult_room) simp
  have here: "oihw_channel input w (spatial * w) hi lo (?at lo * w, out) =
      Inr (if lo + 1 < hi then ?at (lo + 1) * w else ?at lo * w, out @ [chunk w input (?at lo)])"
  proof -
    have "(?at lo * w + spatial * w) mod usize_bound = ?at (lo + 1) * w" if "lo + 1 < hi"
    proof -
      have "?at lo * w + spatial * w = ?at (lo + 1) * w" by (simp add: algebra_simps)
      moreover have "?at (lo + 1) * w < usize_bound" using bound[OF that] input(2) w by linarith
      ultimately show ?thesis by simp
    qed
    then show ?thesis using bound[OF Suc.prems] by (simp add: oihw_channel_def chunk_def)
  qed
  have upt: "[lo..<hi] = lo # [Suc lo..<hi]" using Suc.prems by (simp add: upt_conv_Cons)
  show ?case
  proof (cases "Suc lo < hi")
    case True
    have k: "k = hi - Suc lo" using Suc.hyps(2) by simp
    from Suc.hyps(1)[OF k True, of "out @ [chunk w input (?at lo)]"] obtain start where
      "foldR (oihw_channel input w (spatial * w) hi) [Suc lo..<hi] (?at (Suc lo) * w, out @ [chunk w input (?at lo)]) =
        Inr (start, (out @ [chunk w input (?at lo)]) @ map (\<lambda>i. chunk w input (?at i)) [Suc lo..<hi])" by auto
    then show ?thesis using here True upt by simp
  next
    case False
    then have "[Suc lo..<hi] = []" by simp
    then show ?thesis using here False upt by simp
  qed
qed

lemma oihw_blocks_delivers:
  assumes input: "length input = outs * (ins * spatial) * w" "length input < usize_bound"
    and a: "a < outs" and s: "s < spatial" and w: "0 < w"
  shows "n \<le> ins \<Longrightarrow>
    delivers (oihw_blocks input w (spatial * w) ins spatial (a * (ins * spatial)) s n out)
      (\<lambda>r. r = out @ oihw_row w input ins spatial a s n)"
proof (induction "ins - n" arbitrary: n out rule: less_induct)
  case less
  show ?case
  proof (cases "n < ins")
    case True
    let ?hi = "min (n + COPY_TILE_ELEMENTS_USIZE) ins"
    let ?at = "(a * ins + n) * spatial + s"
    let ?part = "map (\<lambda>i. chunk w input ((a * ins + i) * spatial + s)) [n..<?hi]"
    have hi: "n < ?hi" "?hi \<le> ins" using True by (auto simp: COPY_TILE_ELEMENTS_USIZE_def)
    have lt: "?at < outs * (ins * spatial)" using element_index_bound[OF a True s] .
    have atw: "?at * w + w \<le> length input" unfolding input(1) using lt by (rule mult_room)
    have "?at * w < u64_bound" using atw input(2) by (simp add: usize_is_u64)
    moreover from this w have "?at < u64_bound" by (rule mult_less_bound)
    moreover have "a * (ins * spatial) + n * spatial + s = ?at" by (simp add: algebra_simps)
    ultimately have arith: "checked_mul n spatial = Some (n * spatial)"
      "Option.bind (checked_add (a * (ins * spatial)) (n * spatial)) (\<lambda>off. checked_add off s) = Some ?at"
      "checked_mul ?at w = Some (?at * w)"
      by (auto simp: checked_mul_def checked_add_def)
    from oihw_block_run[OF input a s hi(2) w hi(1), of out] obtain start where
      run: "foldR (oihw_channel input w (spatial * w) ?hi) [n..<?hi] (?at * w, out) = Inr (start, out @ ?part)" by blast
    have "ins - ?hi < ins - n" using hi by linarith
    then have "delivers (oihw_blocks input w (spatial * w) ins spatial (a * (ins * spatial)) s ?hi (out @ ?part))
        (\<lambda>r. r = (out @ ?part) @ oihw_row w input ins spatial a s ?hi)"
      using less.hyps hi(2) by blast
    moreover have "?part @ oihw_row w input ins spatial a s ?hi = oihw_row w input ins spatial a s n"
      using hi upt_add_eq_append[of n ?hi "ins - ?hi"] by (simp add: oihw_row_def flip: map_append)
    ultimately have rest: "delivers (oihw_blocks input w (spatial * w) ins spatial (a * (ins * spatial)) s ?hi (out @ ?part))
        (\<lambda>r. r = out @ oihw_row w input ins spatial a s n)" by simp
    show ?thesis
      unfolding oihw_blocks.simps[of input w "spatial * w" ins spatial "a * (ins * spatial)" s n out]
      using True arith run rest
      by (simp add: Let_def del: bind_eq_Some_conv)
        (rule delivers_bindE[OF delivers_check[of "\<lambda>_. True"]], simp)
  next
    case False
    then show ?thesis
      by (subst oihw_blocks.simps) (auto intro!: delivers_retE simp: oihw_row_def simp del: retE_apply)
  qed
qed

definition oihw_plane :: "nat \<Rightarrow> u8 list \<Rightarrow> nat \<Rightarrow> nat \<Rightarrow> nat \<Rightarrow> u8 list list" where
  "oihw_plane w input ins spatial a = concat (map (\<lambda>s. oihw_row w input ins spatial a s 0) [0..<spatial])"

definition oihw_all :: "nat \<Rightarrow> u8 list \<Rightarrow> nat \<Rightarrow> nat \<Rightarrow> nat \<Rightarrow> u8 list list" where
  "oihw_all w input outs ins spatial = concat (map (oihw_plane w input ins spatial) [0..<outs])"

lemma nth_concat_uniform:
  assumes "\<forall>x \<in> set xs. length x = n" and "i < length xs" and "j < n"
  shows "concat xs ! (i * n + j) = xs ! i ! j"
proof -
  have "chunk n (concat xs) i = xs ! i" using chunk_concat[OF assms(1,2)] .
  moreover have "(i + 1) * n \<le> length (concat xs)"
    using mult_room[OF assms(2), of n] length_concat_uniform[OF assms(1)] by simp
  ultimately show ?thesis using chunk_nth[of i n "concat xs" j] assms(3) by simp
qed

lemma length_oihw_plane: "length (oihw_plane w input ins spatial a) = spatial * ins"
  unfolding oihw_plane_def by (subst length_concat_uniform[of _ ins]) (auto simp: oihw_row_def)

lemma oihw_all_nth:
  assumes "a < outs" "s < spatial" "i < ins"
  shows "oihw_all w input outs ins spatial ! ((a * spatial + s) * ins + i) =
    chunk w input ((a * ins + i) * spatial + s)"
proof -
  have j: "s * ins + i < spatial * ins" using mult_room[OF assms(2), of ins] assms(3) by linarith
  have flat: "(a * spatial + s) * ins + i = a * (spatial * ins) + (s * ins + i)" by (simp add: algebra_simps)
  have "oihw_all w input outs ins spatial ! ((a * spatial + s) * ins + i) =
      oihw_plane w input ins spatial a ! (s * ins + i)"
    unfolding flat
    using nth_concat_uniform[of "map (oihw_plane w input ins spatial) [0..<outs]" "spatial * ins" a "s * ins + i"]
      assms j by (simp add: oihw_all_def length_oihw_plane)
  also have "\<dots> = oihw_row w input ins spatial a s 0 ! i"
    using nth_concat_uniform[of "map (\<lambda>s. oihw_row w input ins spatial a s 0) [0..<spatial]" ins s i] assms
    by (simp add: oihw_plane_def oihw_row_def)
  finally show ?thesis using assms by (simp add: oihw_row_def)
qed

lemma oihw_all_transposed:
  assumes "length input = outs * (ins * spatial) * w"
  shows "length (oihw_all w input outs ins spatial) = outs * (ins * spatial)"
    and "transposed w outs ins spatial input (concat (oihw_all w input outs ins spatial))"
proof -
  let ?all = "oihw_all w input outs ins spatial"
  have planes: "\<forall>x \<in> set (map (oihw_plane w input ins spatial) [0..<outs]). length x = spatial * ins"
    by (simp add: length_oihw_plane)
  then show len: "length ?all = outs * (ins * spatial)"
    using length_concat_uniform[OF planes] by (simp add: oihw_all_def mult.commute)
  have units: "\<forall>u \<in> set ?all. length u = w"
  proof
    fix u assume "u \<in> set ?all"
    then obtain a s i where at: "a < outs" "s < spatial" "i < ins"
      and u: "u = chunk w input ((a * ins + i) * spatial + s)"
      by (auto simp: oihw_all_def oihw_plane_def oihw_row_def)
    have "((a * ins + i) * spatial + s) * w + w \<le> length input"
      unfolding assms using element_index_bound[OF at(1,3,2)] by (rule mult_room)
    then show "length u = w" unfolding u by (intro length_chunk) simp
  qed
  have "chunk w (concat ?all) ((a * spatial + s) * ins + i) = chunk w input ((a * ins + i) * spatial + s)"
    if at: "a < outs" "s < spatial" "i < ins" for a s i
  proof -
    have "(a * spatial + s) * ins + i < length ?all"
      unfolding len using element_index_bound[OF at(1,2,3)] by (simp add: mult.commute)
    then show ?thesis using chunk_concat[OF units] oihw_all_nth[OF at] by simp
  qed
  then show "transposed w outs ins spatial input (concat ?all)"
    using length_concat_uniform[OF units] len by (simp add: transposed_def mult.commute)
qed

lemma build_oihw_to_ohwi_elements_delivers:
  assumes input: "length input = outs * (ins * spatial) * w" "length input < usize_bound" and w: "0 < w"
    and pos: "0 < outs * (ins * spatial)"
  shows "delivers (build_oihw_to_ohwi_elements w input outs ins spatial (outs * (ins * spatial)))
    (transposed w outs ins spatial input)"
proof -
  let ?row = "\<lambda>a s. oihw_row w input ins spatial a s 0"
  have "outs * (ins * spatial) * w < u64_bound" using input by (simp add: usize_is_u64)
  then have n: "outs * (ins * spatial) < u64_bound" using w by (rule mult_less_bound)
  have "1 * (ins * spatial) \<le> outs * (ins * spatial)" using pos by (intro mult_le_mono1) simp
  then have plane: "ins * spatial < u64_bound" using n unfolding mult_1 by (rule le_less_trans)
  have "1 * (spatial * w) \<le> (outs * ins) * (spatial * w)" using pos by (intro mult_le_mono1) simp
  moreover have "(outs * ins) * (spatial * w) < u64_bound" using input by (simp add: usize_is_u64 mult.assoc)
  ultimately have stride: "spatial * w < u64_bound" unfolding mult_1 by (rule le_less_trans)
  have base: "a * (ins * spatial) < u64_bound" if "a < outs" for a
    using mult_room[OF that, of "ins * spatial"] n by linarith
  have planes: "delivers (foldE (\<lambda>s out. oihw_blocks input w (spatial * w) ins spatial (a * (ins * spatial)) s 0 out)
        [0..<spatial] out) (\<lambda>r. r = out @ oihw_plane w input ins spatial a)" if a: "a < outs" for a out
  proof -
    let ?I = "\<lambda>k r. r = out @ concat (map (?row a) [0..<k])"
    have "delivers (foldE (\<lambda>s out. oihw_blocks input w (spatial * w) ins spatial (a * (ins * spatial)) s 0 out)
        [0..<spatial] out) (?I spatial)"
    proof (rule delivers_for[of ?I])
      show "delivers (oihw_blocks input w (spatial * w) ins spatial (a * (ins * spatial)) s 0 r) (?I (Suc s))"
        if "s < spatial" "?I s r" for s r
        using oihw_blocks_delivers[OF input a that(1) w, of 0 r] that(2) by simp
    qed simp
    then show ?thesis by (simp add: oihw_plane_def)
  qed
  let ?body = "\<lambda>a output. bindE (liftE (ok_or ResourceLimit (checked_mul a (ins * spatial)))) (\<lambda>channel_base.
      foldE (\<lambda>s out. oihw_blocks input w (spatial * w) ins spatial channel_base s 0 out) [0..<spatial] output)"
  let ?J = "\<lambda>k r. r = concat (map (oihw_plane w input ins spatial) [0..<k])"
  have loop: "delivers (foldE ?body [0..<outs] []) (?J outs)"
  proof (rule delivers_for[of ?J])
    show "delivers (?body a r) (?J (Suc a))" if "a < outs" "?J a r" for a r
      using planes[OF that(1), of r] base[OF that(1)] that(2) by (simp add: checked_mul_def)
  qed simp
  have all: "length (oihw_all w input outs ins spatial) = outs * (ins * spatial)"
      "transposed w outs ins spatial input (concat (oihw_all w input outs ins spatial))"
    using oihw_all_transposed[OF input(1)] by blast+
  have arith: "checked_mul spatial w = Some (spatial * w)" "checked_mul ins spatial = Some (ins * spatial)"
    using stride plane by (simp_all add: checked_mul_def)
  have final: "delivers (bindE (liftE (ensure (length r = outs * (ins * spatial)) Integrity)) (\<lambda>_.
      bindE check (\<lambda>_. retE (concat r)))) (transposed w outs ins spatial input)" if "?J outs r" for r
  proof -
    have "delivers (bindE check (\<lambda>_. retE (concat (oihw_all w input outs ins spatial))))
        (transposed w outs ins spatial input)"
      by (rule delivers_bindE[OF delivers_check[of "\<lambda>_. True"]]) (simp, rule delivers_retE, rule all(2))
    then show ?thesis unfolding that oihw_all_def[symmetric] all(1) by simp
  qed
  have "outs * (ins * spatial) \<noteq> 0" using pos by simp
  then show ?thesis
    unfolding build_oihw_to_ohwi_elements_def arith ok_or_simps liftE_bind if_not_P
    by (subst if_not_P)
      (simp, rule delivers_bindE[OF delivers_try_reserve[of "\<lambda>_. True"] delivers_bindE[OF loop final]], simp_all)
qed


section \<open>The fast path writes what the general copy writes\<close>

text \<open>The facts a storage permutation to OHWI infers from a contiguous OIHW tensor.\<close>

definition ohwi_of :: "TensorFacts \<Rightarrow> TensorFacts \<Rightarrow> nat \<Rightarrow> nat \<Rightarrow> nat \<Rightarrow> nat \<Rightarrow> bool" where
  "ohwi_of F G outs ins kh kw \<longleftrightarrow> wf_facts F \<and> wf_facts G \<and> is_canonical_contiguous F
     \<and> logical_shape F = [outs, ins, kh, kw] \<and> logical_shape G = [outs, ins, kh, kw]
     \<and> storage_shape G = [outs, kh, kw, ins]
     \<and> storage_strides G = [kh * (kw * ins), 1, kw * ins, ins]
     \<and> dtype (representation F) = dtype (representation G)"

lemma scatter_ohwi: "scatter_strides [0, 2, 3, 1] [a, b, c, d] 4 = [a, d, b, c]"
  by (simp add: scatter_strides_def eval_nat_numeral)

lemma infer_ohwi:
  assumes "infer_permute p F = Inr [G]" and "permute_mode p = Storage target"
    and "permute_order p = [0, 2, 3, 1]" and "wf_facts F" "is_canonical_contiguous F"
  shows "\<exists>outs ins kh kw. ohwi_of F G outs ins kh kw"
proof -
  have len: "length (logical_shape F) = 4" using infer_permute_storage[OF assms(1,2)] assms(3) by auto
  then obtain outs ins kh kw where L: "logical_shape F = [outs, ins, kh, kw]"
    by (auto simp: eval_nat_numeral length_Suc_conv)
  have "storage_shape G = [outs, kh, kw, ins]"
    using infer_permute_storage[OF assms(1,2)] assms(3) L by auto
  moreover from this have "storage_strides G = [kh * (kw * ins), 1, kw * ins, ins]"
    using infer_permute_storage[OF assms(1,2)] assms(3) scatter_ohwi
    by (auto simp: eval_nat_numeral)
  ultimately have "ohwi_of F G outs ins kh kw"
    using infer_permute_storage[OF assms(1,2)] assms(4,5) L
    by (auto simp: ohwi_of_def Representation_new_def)
  then show ?thesis by blast
qed

lemma ohwi_address:
  "offset [a, i, h, x] [kh * (kw * ins), 1, kw * ins, ins] = (a * (kh * kw) + (h * kw + x)) * ins + i"
  by (simp add: algebra_simps)

lemma in_shape_quad:
  "in_shape c [n0, n1, n2, n3] \<longleftrightarrow> (\<exists>a i h x. c = [a, i, h, x] \<and> a < n0 \<and> i < n1 \<and> h < n2 \<and> x < n3)"
  by (cases c) (auto simp: in_shape_def list_all2_Cons2)

lemma transposed_wrote:
  assumes G: "ohwi_of F G outs ins kh kw" and r: "transposed (width F) outs ins (kh * kw) input r"
  shows "wrote G (element F input) out r"
  unfolding wrote_def
proof (intro conjI allI impI)
  have wf: "wf_facts G" and w: "width F = width G"
    and L: "logical_shape G = [outs, ins, kh, kw]" and S: "storage_strides G = [kh * (kw * ins), 1, kw * ins, ins]"
    and SF: "storage_strides F = row_strides [outs, ins, kh, kw]"
    using G canonical_fields(4)[of F] by (auto simp: ohwi_of_def width_def)
  show "length r = byte_len G"
    using r wf_facts_byte_len(1)[OF wf] G w by (simp add: transposed_def ohwi_of_def algebra_simps)
  fix c assume "in_shape c (logical_shape G)"
  then obtain a i h x where c: "c = [a, i, h, x]" "a < outs" "i < ins" "h < kh" "x < kw"
    by (auto simp: L in_shape_quad)
  have "h * kw + x < kh * kw" using mult_room[OF c(4), of kw] c(5) by linarith
  then have "chunk (width F) r ((a * (kh * kw) + (h * kw + x)) * ins + i) =
      chunk (width F) input ((a * ins + i) * (kh * kw) + (h * kw + x))"
    using r c by (simp add: transposed_def)
  moreover have "offset c (storage_strides F) = (a * ins + i) * (kh * kw) + (h * kw + x)"
    unfolding SF c(1) by (simp add: algebra_simps)
  ultimately show "element G r c = element F input c"
    unfolding element_def S c(1) ohwi_address w by simp
next
  fix j assume j: "j < prod_list (storage_shape G)"
    and hole: "\<forall>c. in_shape c (logical_shape G) \<longrightarrow> offset c (storage_strides G) \<noteq> j"
  let ?ds = "[outs, kh, kw, ins]"
  have shapes: "storage_shape G = ?ds" "logical_shape G = [outs, ins, kh, kw]"
    "storage_strides G = [kh * (kw * ins), 1, kw * ins, ins]" using G by (auto simp: ohwi_of_def)
  have "in_shape (coords ?ds j) ?ds" using j unfolding shapes by (intro coords_in_shape) linarith
  then obtain a h x i where c: "coords ?ds j = [a, h, x, i]" "a < outs" "h < kh" "x < kw" "i < ins"
    by (auto simp: in_shape_quad)
  have "offset [a, h, x, i] (row_strides ?ds) = j"
    using offset_coords[of j ?ds] j unfolding shapes c(1) by simp
  then have "offset [a, i, h, x] (storage_strides G) = j" unfolding shapes by (simp add: algebra_simps)
  moreover have "in_shape [a, i, h, x] (logical_shape G)" using c(2-5) by (simp add: shapes)
  ultimately have False using hole by blast
  then show "chunk (width G) r j = chunk (width G) out j" ..
qed

lemma build_oihw_to_ohwi_if_supported_delivers:
  assumes G: "ohwi_of F G outs ins kh kw" and pos: "0 < outs * (ins * (kh * kw))"
    and v: "length input = byte_len F"
  shows "delivers (build_oihw_to_ohwi_if_supported avx2 p F G input)
    (\<lambda>r. \<forall>b. r = Some b \<longrightarrow> (\<forall>out. wrote G (element F input) out b))"
proof (cases "permute_mode p = Logical \<or> permute_order p \<noteq> [0, 2, 3, 1] \<or> \<not> is_canonical_contiguous F")
  case True
  then show ?thesis
    by (simp add: build_oihw_to_ohwi_if_supported_def delivers_retE del: retE_apply)
next
  case False
  let ?n = "outs * (ins * (kh * kw))" let ?w = "width F"
  have wf: "wf_facts F" "wf_facts G" and L: "logical_shape F = [outs, ins, kh, kw]"
    and w: "width F = width G" using G by (auto simp: ohwi_of_def width_def)
  have bytes: "byte_len F = ?n * ?w" "byte_len G = ?n * ?w"
    using wf_facts_byte_len(1)[OF wf(1)] wf_facts_byte_len(1)[OF wf(2)] G canonical_fields(2)[of F] w
    by (simp_all add: ohwi_of_def algebra_simps)
  have nw: "?n * ?w < u64_bound" using wf_facts_byte_len(2)[OF wf(1)] bytes by simp
  then have n: "?n < u64_bound" using width_pos by (rule mult_less_bound)
  have "\<forall>k < 4. prod_list (drop k [outs, ins, kh, kw]) < u64_bound"
    using G canonical_fields(5)[of F] by (auto simp: ohwi_of_def contiguous_strides_Inr)
  then have fit: "kw < u64_bound" "kh * kw < u64_bound" "ins * (kh * kw) < u64_bound"
    by (auto dest: spec[of _ 1] spec[of _ 2] spec[of _ 3] simp: eval_nat_numeral)
  have dims: "outs < u64_bound" "ins < u64_bound" "kh < u64_bound"
    using n fit pos by (auto intro: mult_less_bound)
  have good: "\<forall>b. Some r = Some b \<longrightarrow> (\<forall>out. wrote G (element F input) out b)"
    if "transposed ?w outs ins (kh * kw) input r" for r
    using transposed_wrote[OF G that] by simp
  have portable: "delivers (bindE (build_oihw_to_ohwi_elements ?w input outs ins (kh * kw) ?n) (\<lambda>b. retE (Some b)))
      (\<lambda>r. \<forall>b. r = Some b \<longrightarrow> (\<forall>out. wrote G (element F input) out b))"
    by (rule delivers_bindE[OF build_oihw_to_ohwi_elements_delivers], goal_cases)
      (use v bytes nw pos good in \<open>auto simp: usize_is_u64 intro!: delivers_retE simp del: retE_apply\<close>)
  have vector: "delivers (bindE (allocate_tensor G) (\<lambda>b.
        bindE (permute_oihw_to_ohwi_3x3_u16 avx2 input b outs ins) (\<lambda>b. retE (Some b))))
      (\<lambda>r. \<forall>b. r = Some b \<longrightarrow> (\<forall>out. wrote G (element F input) out b))"
    if "?w = 2" "kh * kw = 9"
  proof (rule delivers_bindE[where P = "\<lambda>b. length b = byte_len G"],
      goal_cases alloc work)
    case alloc
    show ?case by (rule allocate_tensor_delivers[OF wf(2)]) simp
  next
    case (work b)
    have "delivers (permute_oihw_to_ohwi_3x3_u16 avx2 input b outs ins) (transposed ?w outs ins (kh * kw) input)"
      using permute_oihw_to_ohwi_3x3_u16_delivers[of input outs ins b avx2] v work bytes nw pos that
      by (simp add: usize_is_u64 mult.assoc)
    then show ?case by (rule delivers_bindE) (rule delivers_retE, rule good)
  qed
  have none: "delivers (retE None) (\<lambda>r. \<forall>b. r = Some b \<longrightarrow> (\<forall>out. wrote G (element F input) out b))"
    by (rule delivers_retE) simp
  have arith: "dimension_as_usize outs = Inr outs" "dimension_as_usize ins = Inr ins"
    "dimension_as_usize kh = Inr kh" "dimension_as_usize kw = Inr kw"
    "checked_mul kh kw = Some (kh * kw)" "checked_mul ins (kh * kw) = Some (ins * (kh * kw))"
    "checked_mul outs (ins * (kh * kw)) = Some ?n" "checked_mul ?n ?w = Some (?n * ?w)"
    "validate_host_len (byte_len G) = Inr (?n * ?w)"
    "ensure (\<not> (length input \<noteq> ?n * ?w \<or> ?n * ?w \<noteq> ?n * ?w)) Integrity = Inr ()"
    using dims fit n nw v bytes
    by (simp_all add: dimension_as_usize_def checked_mul_def validate_host_len_def try_from_ok usize_is_u64)
  show ?thesis
    unfolding build_oihw_to_ohwi_if_supported_def L list.case arith ok_or_simps liftE_bind dtype_width_Inr
      if_not_P[OF False]
    by (rule delivers_bindE[OF delivers_check[of "\<lambda>_. True"]]) (use vector portable none in \<open>auto simp del: retE_apply\<close>)
qed

end
