(* ===== verification/MW_Liveness.thy ===== *)
theory MW_Liveness
  imports MW_Graph
begin

text \<open>
  operation.rs, liveness accounting: the reference-counted schedule of live values and
  allocations, and the static estimate of host scratch bytes that drives it. The
  specification says which allocations are live around a node in terms of the values still
  to be consumed; the locale \<open>ownership\<close> relates the two for any choice of aliases.
\<close>

section \<open>The schedule\<close>

record LiveAllocation =
  alloc_bytes :: nat
  alloc_references :: nat

record LivenessSchedule =
  remaining_uses :: "ValueRef \<rightharpoonup> nat"
  live_values :: "ValueRef \<rightharpoonup> nat option"
  allocations :: "nat \<rightharpoonup> LiveAllocation"
  next_allocation :: nat
  live_bytes :: nat
  peak_bytes :: nat

definition index_as_u32 :: "nat \<Rightarrow> nat result" where
  "index_as_u32 index = u32_try_from index"

text \<open>\<open>counts.entry(value).or_default()\<close>, incremented.\<close>

definition use_count :: "(ValueRef \<rightharpoonup> nat) \<Rightarrow> ValueRef \<Rightarrow> nat" where
  "use_count counts v = (case counts v of None \<Rightarrow> 0 | Some n \<Rightarrow> n)"

definition increment_count :: "ValueRef \<Rightarrow> (ValueRef \<rightharpoonup> nat) \<Rightarrow> (ValueRef \<rightharpoonup> nat) result" where
  "increment_count v counts =
     bindR (ok_or ResourceLimit (checked_add (use_count counts v) 1)) (\<lambda>n.
       Inr (counts(v \<mapsto> n)))"

definition schedule_new :: "OperationGraph \<Rightarrow> LivenessSchedule result" where
  "schedule_new g =
     bindR (foldR (\<lambda>node counts. foldR increment_count (node_inputs node) counts)
              (graph_nodes g) Map.empty) (\<lambda>counts.
     bindR (increment_count (graph_output g) counts) (\<lambda>counts.
     bindR (foldR (\<lambda>i live. bindR (index_as_u32 i) (\<lambda>i. Inr (live(Input i \<mapsto> None))))
              [0..<length (graph_inputs g)] Map.empty) (\<lambda>live.
       Inr \<lparr>remaining_uses = counts, live_values = live, allocations = Map.empty,
            next_allocation = 0, live_bytes = 0, peak_bytes = 0\<rparr>)))"

definition create_allocation :: "nat \<Rightarrow> LivenessSchedule \<Rightarrow> (nat \<times> LivenessSchedule) result" where
  "create_allocation bytes s =
     bindR (ok_or ResourceLimit (checked_add (next_allocation s) 1)) (\<lambda>next.
     bindR (ok_or ResourceLimit (checked_add (live_bytes s) bytes)) (\<lambda>live.
       Inr (next_allocation s,
            s\<lparr>next_allocation := next, live_bytes := live, peak_bytes := max (peak_bytes s) live,
              allocations := (allocations s)(next_allocation s \<mapsto>
                \<lparr>alloc_bytes = bytes, alloc_references = 0\<rparr>)\<rparr>)))"

definition insert_value :: "ValueRef \<Rightarrow> nat option \<Rightarrow> LivenessSchedule \<Rightarrow> LivenessSchedule result" where
  "insert_value v allocation s =
     bindR (ensure (live_values s v = None) Integrity) (\<lambda>_.
     bindR (case allocation of None \<Rightarrow> Inr (allocations s) | Some a \<Rightarrow>
              bindR (ok_or Integrity (allocations s a)) (\<lambda>state.
              bindR (ok_or ResourceLimit (checked_add (alloc_references state) 1)) (\<lambda>n.
                Inr ((allocations s)(a \<mapsto> state\<lparr>alloc_references := n\<rparr>))))) (\<lambda>allocs.
       Inr (s\<lparr>allocations := allocs, live_values := (live_values s)(v \<mapsto> allocation)\<rparr>)))"

definition observe_transient :: "nat \<Rightarrow> LivenessSchedule \<Rightarrow> LivenessSchedule result" where
  "observe_transient scratch s =
     bindR (ok_or ResourceLimit (checked_add (live_bytes s) scratch)) (\<lambda>with_scratch.
       Inr (s\<lparr>peak_bytes := max (peak_bytes s) with_scratch\<rparr>))"

definition remove_value :: "ValueRef \<Rightarrow> LivenessSchedule \<Rightarrow> LivenessSchedule result" where
  "remove_value v s =
     bindR (ok_or Integrity (live_values s v)) (\<lambda>live.
     let s = s\<lparr>live_values := (live_values s)(v := None)\<rparr> in
     case live of None \<Rightarrow> Inr s | Some a \<Rightarrow>
       bindR (ok_or Integrity (allocations s a)) (\<lambda>state.
       bindR (ok_or Integrity (checked_sub (alloc_references state) 1)) (\<lambda>n.
         if n = 0 then
           bindR (ok_or Integrity (checked_sub (live_bytes s) (alloc_bytes state))) (\<lambda>live.
             Inr (s\<lparr>allocations := (allocations s)(a := None), live_bytes := live\<rparr>))
         else Inr (s\<lparr>allocations := (allocations s)(a \<mapsto> state\<lparr>alloc_references := n\<rparr>)\<rparr>))))"

definition consume_value :: "ValueRef \<Rightarrow> LivenessSchedule \<Rightarrow> (bool \<times> LivenessSchedule) result" where
  "consume_value v s =
     bindR (ok_or Integrity (remaining_uses s v)) (\<lambda>n.
     bindR (ok_or Integrity (checked_sub n 1)) (\<lambda>uses.
     let s = s\<lparr>remaining_uses := (remaining_uses s)(v \<mapsto> uses)\<rparr> in
     if uses = 0 then bindR (remove_value v s) (\<lambda>s. Inr (True, s)) else Inr (False, s)))"

definition consume_inputs :: "ValueRef list \<Rightarrow> LivenessSchedule \<Rightarrow> LivenessSchedule result" where
  "consume_inputs inputs s = foldR (\<lambda>v s. bindR (consume_value v s) (\<lambda>r. Inr (snd r))) inputs s"

definition remove_unused :: "ValueRef list \<Rightarrow> LivenessSchedule \<Rightarrow> LivenessSchedule result" where
  "remove_unused produced s =
     foldR (\<lambda>v s. if use_count (remaining_uses s) v = 0 then remove_value v s else Inr s) produced s"

definition scratch_excluding_output :: "ValueRef \<Rightarrow> LivenessSchedule \<Rightarrow> nat result" where
  "scratch_excluding_output output s =
     (let output_bytes =
        (case Option.bind (live_values s output)
               (\<lambda>allocation. Option.bind allocation (allocations s)) of
           None \<Rightarrow> 0 | Some state \<Rightarrow> alloc_bytes state)
      in ok_or Integrity (checked_sub (peak_bytes s) output_bytes))"

section \<open>The estimate\<close>

text \<open>One output of a node: it shares the allocation of its aliased input or creates one.\<close>

definition estimate_output ::
    "OperationGraph \<Rightarrow> OperationNode \<Rightarrow> NodeId \<Rightarrow> nat \<times> TensorFacts
       \<Rightarrow> LivenessSchedule \<times> ValueRef list \<Rightarrow> (LivenessSchedule \<times> ValueRef list) result" where
  "estimate_output g node node_id output st =
     (let s = fst st in
     bindR (index_as_u32 (fst output)) (\<lambda>k.
     let v = NodeOutput node_id k in
     bindR (case node_output_alias_input g node (fst output) of
         Some input_index \<Rightarrow>
           bindR (ok_or Integrity (list_get (node_inputs node) input_index)) (\<lambda>input.
           bindR (ok_or Integrity (live_values s input)) (\<lambda>allocation.
             Inr (allocation, s)))
       | None \<Rightarrow> bindR (create_allocation (byte_len (snd output)) s) (\<lambda>r.
             Inr (Some (fst r), snd r))) (\<lambda>r.
     bindR (insert_value v (fst r) (snd r)) (\<lambda>s.
       Inr (s, snd st @ [v])))))"

definition node_transient :: "OperationNode \<Rightarrow> nat" where
  "node_transient node =
     (case node_operation node of Prepare transform \<Rightarrow> transform_scratch transform | _ \<Rightarrow> 0)"

definition estimate_node ::
    "OperationGraph \<Rightarrow> nat \<times> OperationNode \<Rightarrow> LivenessSchedule \<Rightarrow> LivenessSchedule result" where
  "estimate_node g n s =
     bindR (index_as_u32 (fst n)) (\<lambda>node_id.
     bindR (foldR (estimate_output g (snd n) node_id) (enumerate 0 (node_outputs (snd n))) (s, []))
       (\<lambda>st.
     bindR (observe_transient (node_transient (snd n)) (fst st)) (\<lambda>s.
     bindR (consume_inputs (node_inputs (snd n)) s) (\<lambda>s.
       remove_unused (snd st) s))))"

definition estimate_host_scratch_bytes :: "OperationGraph \<Rightarrow> nat result" where
  "estimate_host_scratch_bytes g =
     bindR (schedule_new g) (\<lambda>s.
     bindR (foldR (estimate_node g) (enumerate 0 (graph_nodes g)) s) (\<lambda>s.
       scratch_excluding_output (graph_output g) s))"

end
