(* ===== verification/MW_Ownership.thy ===== *)
theory MW_Ownership
  imports MW_Liveness
begin

text \<open>
  The meaning of the liveness schedule. \<open>tracks own sz pending live s\<close> says that the
  schedule \<open>s\<close> accounts exactly for the set \<open>live\<close> of values when \<open>own\<close> gives the value
  whose production created the allocation of each value (\<open>None\<close> for external inputs) and
  \<open>pending\<close> lists the uses still to come. Every operation of the schedule keeps it.
\<close>

section \<open>What a schedule accounts for\<close>

definition owners :: "(ValueRef \<Rightarrow> ValueRef option) \<Rightarrow> ValueRef set \<Rightarrow> ValueRef set" where
  "owners own V = {r. \<exists>v \<in> V. own v = Some r}"

definition sharers :: "(ValueRef \<Rightarrow> ValueRef option) \<Rightarrow> ValueRef set \<Rightarrow> ValueRef \<Rightarrow> ValueRef set" where
  "sharers own V r = {v \<in> V. own v = Some r}"

definition tracks_by ::
    "(ValueRef \<Rightarrow> nat) \<Rightarrow> (ValueRef \<Rightarrow> ValueRef option) \<Rightarrow> (ValueRef \<Rightarrow> nat)
       \<Rightarrow> ValueRef list \<Rightarrow> ValueRef set \<Rightarrow> LivenessSchedule \<Rightarrow> bool" where
  "tracks_by name own sz pending V s \<longleftrightarrow>
     finite V \<and> dom (live_values s) = V
   \<and> (\<forall>v \<in> V. live_values s v = Some (map_option name (own v)))
   \<and> inj_on name (owners own V)
   \<and> dom (allocations s) = name ` owners own V
   \<and> (\<forall>r \<in> owners own V. name r < next_allocation s \<and>
        allocations s (name r) =
          Some \<lparr>alloc_bytes = sz r, alloc_references = card (sharers own V r)\<rparr>)
   \<and> live_bytes s = (\<Sum>r \<in> owners own V. sz r)
   \<and> live_bytes s \<le> peak_bytes s
   \<and> (\<forall>v. use_count (remaining_uses s) v = count_list pending v)"

definition tracks ::
    "(ValueRef \<Rightarrow> ValueRef option) \<Rightarrow> (ValueRef \<Rightarrow> nat)
       \<Rightarrow> ValueRef list \<Rightarrow> ValueRef set \<Rightarrow> LivenessSchedule \<Rightarrow> bool" where
  "tracks own sz pending V s \<longleftrightarrow> (\<exists>name. tracks_by name own sz pending V s)"

lemma owners_finite: "finite V \<Longrightarrow> finite (owners own V)"
proof -
  assume "finite V"
  moreover have "owners own V \<subseteq> (\<lambda>v. the (own v)) ` V" by (force simp: owners_def)
  ultimately show ?thesis by (blast intro: finite_surj)
qed

lemma owners_remove:
  assumes "v \<in> V"
  shows "owners own (V - {v}) = (case own v of None \<Rightarrow> owners own V
    | Some r \<Rightarrow> if sharers own V r = {v} then owners own V - {r} else owners own V)"
proof (cases "own v")
  case None
  then show ?thesis by (auto simp: owners_def)
next
  case (Some r)
  have "r' \<in> owners own (V - {v}) \<longleftrightarrow> r' \<in> owners own V" if "r' \<noteq> r" for r'
    using that Some by (auto simp: owners_def)
  moreover have "r \<in> owners own (V - {v}) \<longleftrightarrow> sharers own V r \<noteq> {v}" "r \<in> owners own V"
    using assms Some by (auto simp: owners_def sharers_def)
  ultimately show ?thesis using Some by auto (metis)+
qed

lemma sharers_remove: "sharers own (V - {v}) r = sharers own V r - {v}"
  by (auto simp: sharers_def)

lemma owners_insert: "owners own (insert v V) = owners own V \<union> set_option (own v)"
  by (auto simp: owners_def)

lemma sharers_insert:
  "sharers own (insert v V) r = (if own v = Some r then insert v (sharers own V r) else sharers own V r)"
  by (auto simp: sharers_def)

lemma sharers_finite: "finite V \<Longrightarrow> finite (sharers own V r)"
  by (simp add: sharers_def)

section \<open>Removal\<close>

lemma remove_value_external:
  assumes "tracks_by name own sz pending V s" and "v \<in> V" and "own v = None"
  shows "remove_value v s = Inr (s\<lparr>live_values := (live_values s)(v := None)\<rparr>)
    \<and> tracks_by name own sz pending (V - {v}) (s\<lparr>live_values := (live_values s)(v := None)\<rparr>)"
proof -
  have "live_values s v = Some None" using assms by (simp add: tracks_by_def)
  then have "remove_value v s = Inr (s\<lparr>live_values := (live_values s)(v := None)\<rparr>)"
    by (simp add: remove_value_def)
  moreover have "sharers own V r - {v} = sharers own V r" for r
    using assms(3) by (auto simp: sharers_def)
  ultimately show ?thesis
    using assms by (auto simp: tracks_by_def owners_remove sharers_remove)
qed

lemma remove_value_last:
  assumes t: "tracks_by name own sz pending V s" and v: "v \<in> V" "own v = Some r"
    and last: "sharers own V r = {v}"
  shows "\<exists>s'. remove_value v s = Inr s' \<and> peak_bytes s' = peak_bytes s
    \<and> tracks_by name own sz pending (V - {v}) s'"
proof -
  have r: "r \<in> owners own V" using v by (auto simp: owners_def)
  let ?s = "s\<lparr>live_values := (live_values s)(v := None),
    allocations := (allocations s)(name r := None), live_bytes := live_bytes s - sz r\<rparr>"
  have fin: "finite (owners own V)" using t by (simp add: tracks_by_def owners_finite)
  have le: "sz r \<le> live_bytes s" using t r fin by (simp add: tracks_by_def member_le_sum)
  have step: "remove_value v s = Inr ?s"
    using t v r last le by (auto simp: tracks_by_def remove_value_def checked_sub_def Let_def)
  have own': "owners own (V - {v}) = owners own V - {r}" using v last by (simp add: owners_remove)
  have names: "name ` owners own V - {name r} = name ` (owners own V - {r})"
    using t r by (auto simp: tracks_by_def inj_on_def)
  have "tracks_by name own sz pending (V - {v}) ?s"
    unfolding tracks_by_def own'
  proof (intro conjI)
    show "dom (allocations ?s) = name ` (owners own V - {r})"
      using t names by (auto simp: tracks_by_def)
    show "\<forall>r' \<in> owners own V - {r}. name r' < next_allocation ?s \<and> allocations ?s (name r') =
        Some \<lparr>alloc_bytes = sz r', alloc_references = card (sharers own (V - {v}) r')\<rparr>"
    proof
      fix r' assume r': "r' \<in> owners own V - {r}"
      then have "name r' \<noteq> name r" using t r by (auto simp: tracks_by_def inj_on_def)
      moreover have "sharers own V r' - {v} = sharers own V r'" using v r' by (auto simp: sharers_def)
      ultimately show "name r' < next_allocation ?s \<and> allocations ?s (name r') =
          Some \<lparr>alloc_bytes = sz r', alloc_references = card (sharers own (V - {v}) r')\<rparr>"
        using t r' by (auto simp: tracks_by_def sharers_remove)
    qed
    show "live_bytes ?s = (\<Sum>r \<in> owners own V - {r}. sz r)"
      using t r fin by (simp add: tracks_by_def sum_diff1_nat)
  qed (use t in \<open>auto simp: tracks_by_def inj_on_def\<close>)
  with step show ?thesis by auto
qed

lemma remove_value_shared:
  assumes t: "tracks_by name own sz pending V s" and v: "v \<in> V" "own v = Some r"
    and shared: "sharers own V r \<noteq> {v}"
  shows "\<exists>s'. remove_value v s = Inr s' \<and> peak_bytes s' = peak_bytes s
    \<and> tracks_by name own sz pending (V - {v}) s'"
proof -
  have r: "r \<in> owners own V" using v by (auto simp: owners_def)
  have vs: "v \<in> sharers own V r" "finite (sharers own V r)"
    using v t by (auto simp: sharers_def tracks_by_def)
  then have card: "card (sharers own V r) - 1 = card (sharers own V r - {v})" "1 \<le> card (sharers own V r)"
    by (simp_all add: Suc_le_eq card_gt_0_iff) auto
  moreover have "sharers own V r - {v} \<noteq> {}" using shared vs by auto
  ultimately have pos: "card (sharers own V r) - 1 \<noteq> 0" using vs(2) by simp
  let ?s = "s\<lparr>live_values := (live_values s)(v := None),
    allocations := (allocations s)(name r \<mapsto>
      \<lparr>alloc_bytes = sz r, alloc_references = card (sharers own V r) - 1\<rparr>)\<rparr>"
  have step: "remove_value v s = Inr ?s"
    using t v r pos card by (auto simp: tracks_by_def remove_value_def checked_sub_def Let_def)
  have own': "owners own (V - {v}) = owners own V" using v shared by (simp add: owners_remove)
  have other: "sharers own V r' - {v} = sharers own V r'" if "name r' \<noteq> name r" for r'
    using that v by (auto simp: sharers_def)
  have "tracks_by name own sz pending (V - {v}) ?s"
    unfolding tracks_by_def own'
    using t r card other by (auto simp: tracks_by_def sharers_remove inj_on_def)
  with step show ?thesis by auto
qed

lemma remove_value_tracks:
  assumes "tracks own sz pending V s" and "v \<in> V"
  shows "\<exists>s'. remove_value v s = Inr s' \<and> peak_bytes s' = peak_bytes s
    \<and> tracks own sz pending (V - {v}) s'"
proof -
  from assms(1) obtain name where t: "tracks_by name own sz pending V s" by (auto simp: tracks_def)
  show ?thesis
  proof (cases "own v")
    case None
    from remove_value_external[OF t assms(2) this] show ?thesis by (auto simp: tracks_def)
  next
    case (Some r)
    from remove_value_last[OF t assms(2) Some] remove_value_shared[OF t assms(2) Some]
    show ?thesis unfolding tracks_def by (cases "sharers own V r = {v}") blast+
  qed
qed

section \<open>Production\<close>

text \<open>A value that shares the allocation of a live value.\<close>

lemma insert_alias_tracks:
  assumes t: "tracks own sz pending V s" and w: "w \<in> V" "live_values s w = Some a"
    and v: "v \<notin> V" "own v = own w" and ok: "ok \<longrightarrow> card V + 1 < u64_bound"
  shows "meets ok (insert_value v a s) (\<lambda>s'. tracks own sz pending (insert v V) s'
    \<and> peak_bytes s' = peak_bytes s \<and> next_allocation s' = next_allocation s)"
proof -
  from t obtain name where t: "tracks_by name own sz pending V s" by (auto simp: tracks_def)
  have live: "live_values s v = None" using t v by (auto simp: tracks_by_def)
  have a: "a = map_option name (own v)" using t w v by (auto simp: tracks_by_def)
  have fin: "finite V" using t by (simp add: tracks_by_def)
  show ?thesis
  proof (cases "own v")
    case None
    have "tracks_by name own sz pending (insert v V) (s\<lparr>live_values := (live_values s)(v \<mapsto> None)\<rparr>)"
      using t None by (auto simp: tracks_by_def owners_insert sharers_insert)
    then show ?thesis using live a None by (auto simp: insert_value_def tracks_def)
  next
    case (Some r)
    have r: "r \<in> owners own V" using v w Some by (auto simp: owners_def)
    have own': "owners own (insert v V) = owners own V" using r Some by (auto simp: owners_insert)
    let ?n = "card (sharers own V r)"
    let ?s = "s\<lparr>allocations := (allocations s)(name r \<mapsto>
        \<lparr>alloc_bytes = sz r, alloc_references = ?n + 1\<rparr>), live_values := (live_values s)(v \<mapsto> a)\<rparr>"
    have "card (sharers own V r) \<le> card V" using fin by (auto simp: sharers_def intro: card_mono)
    then have fits: "?n + 1 < u64_bound" if ok using ok that by simp
    have step: "insert_value v a s = (if ?n + 1 < u64_bound then Inr ?s else Inl ResourceLimit)"
      using t r live a Some by (auto simp: insert_value_def tracks_by_def checked_add_def)
    have card: "card (sharers own (insert v V) r') = (if r' = r then ?n + 1 else card (sharers own V r'))" for r'
      using v Some fin sharers_finite[OF fin] by (auto simp: sharers_insert) (simp add: sharers_def)
    have diff: "name r' \<noteq> name r" if "r' \<in> owners own V" "r' \<noteq> r" for r'
      using t r that by (auto simp: tracks_by_def inj_on_def)
    have "tracks_by name own sz pending (insert v V) ?s"
      unfolding tracks_by_def own' card using t r a Some diff by (auto simp: tracks_by_def)
    then show ?thesis using fits by (auto simp: step tracks_def)
  qed
qed

text \<open>A value with an allocation of its own.\<close>

lemma insert_fresh_tracks:
  assumes t: "tracks own sz pending V s" and v: "v \<notin> V" "own v = Some v" "v \<notin> owners own V"
    and ok: "ok \<longrightarrow> next_allocation s + 1 < u64_bound \<and> live_bytes s + sz v < u64_bound"
  shows "meets ok (bindR (create_allocation (sz v) s) (\<lambda>r. insert_value v (Some (fst r)) (snd r)))
    (\<lambda>s'. tracks own sz pending (insert v V) s'
      \<and> peak_bytes s' = max (peak_bytes s) (live_bytes s + sz v)
      \<and> next_allocation s' = next_allocation s + 1)"
proof -
  from t obtain name where t: "tracks_by name own sz pending V s" by (auto simp: tracks_def)
  let ?a = "next_allocation s"
  let ?name = "name(v := ?a)"
  let ?s = "s\<lparr>next_allocation := ?a + 1, live_bytes := live_bytes s + sz v,
     peak_bytes := max (peak_bytes s) (live_bytes s + sz v),
     allocations := (allocations s)(?a \<mapsto> \<lparr>alloc_bytes = sz v, alloc_references = 1\<rparr>),
     live_values := (live_values s)(v \<mapsto> Some ?a)\<rparr>"
  have live: "live_values s v = None" using t v by (auto simp: tracks_by_def)
  have one: "1 < u64_bound" by (simp add: u64_bound_def)
  have step: "bindR (create_allocation (sz v) s) (\<lambda>r. insert_value v (Some (fst r)) (snd r)) =
      (if ?a + 1 < u64_bound \<and> live_bytes s + sz v < u64_bound then Inr ?s else Inl ResourceLimit)"
    using live one by (auto simp: create_allocation_def insert_value_def checked_add_def)
  have own': "owners own (insert v V) = insert v (owners own V)" using v by (auto simp: owners_insert)
  have fin: "finite (owners own V)" using t by (simp add: tracks_by_def owners_finite)
  have new: "name r \<noteq> ?a" "r \<noteq> v" if "r \<in> owners own V" for r
    using t v that by (auto simp: tracks_by_def)
  have sh: "card (sharers own (insert v V) r) = (if r = v then 1 else card (sharers own V r))" for r
  proof -
    have "sharers own V v = {}" using v by (auto simp: sharers_def owners_def)
    then show ?thesis using v by (simp add: sharers_insert)
  qed
  have vals: "map_option ?name (own w) = map_option name (own w)" if "w \<in> V" for w
    using v that by (cases "own w") (auto simp: owners_def)
  have img: "?name ` owners own V = name ` owners own V" using new by auto
  have "tracks_by ?name own sz pending (insert v V) ?s"
    unfolding tracks_by_def own' sh
  proof (intro conjI)
    show "inj_on ?name (insert v (owners own V))"
      using t new by (auto simp: tracks_by_def inj_on_def)
    show "\<forall>w \<in> insert v V. live_values ?s w = Some (map_option ?name (own w))"
      using t v vals by (auto simp: tracks_by_def)
    show "dom (allocations ?s) = ?name ` insert v (owners own V)"
      using t img by (auto simp: tracks_by_def)
    show "live_bytes ?s = sum sz (insert v (owners own V))"
      using t v fin by (simp add: tracks_by_def)
  qed (use t v new in \<open>auto simp: tracks_by_def\<close>)
  then show ?thesis using ok unfolding step by (auto simp: tracks_def)
qed

section \<open>Consumption\<close>

lemma tracks_pending:
  "tracks own sz pending V s \<Longrightarrow> use_count (remaining_uses s) v = count_list pending v"
  by (auto simp: tracks_def tracks_by_def)

lemma tracks_live:
  assumes "tracks own sz pending V s"
  shows "live_bytes s = (\<Sum>r \<in> owners own V. sz r)" "live_bytes s \<le> peak_bytes s"
  using assms by (auto simp: tracks_def tracks_by_def)

lemma tracks_use:
  assumes "tracks own sz pending V s"
    and "\<And>w. use_count (counts) w = count_list pending' w"
  shows "tracks own sz pending' V (s\<lparr>remaining_uses := counts\<rparr>)"
  using assms by (auto simp: tracks_def tracks_by_def)

lemma consume_value_tracks:
  assumes t: "tracks own sz (v # rest) V s" and v: "v \<in> V"
  shows "\<exists>s'. consume_value v s = Inr (v \<notin> set rest, s') \<and> peak_bytes s' = peak_bytes s
    \<and> tracks own sz rest (if v \<in> set rest then V else V - {v}) s'"
proof -
  let ?n = "count_list rest v"
  let ?s = "s\<lparr>remaining_uses := (remaining_uses s)(v \<mapsto> ?n)\<rparr>"
  have uses: "remaining_uses s v = Some (Suc ?n)"
    using tracks_pending[OF t, of v] by (auto simp: use_count_def split: option.splits)
  have t': "tracks own sz rest V ?s"
    using tracks_pending[OF t] by (intro tracks_use[OF t]) (auto simp: use_count_def)
  have zero: "?n = 0 \<longleftrightarrow> v \<notin> set rest" by (simp add: count_list_0_iff)
  from remove_value_tracks[OF t' v] obtain s' where "remove_value v ?s = Inr s'"
    "peak_bytes s' = peak_bytes ?s" "tracks own sz rest (V - {v}) s'" by blast
  with uses t' zero show ?thesis by (auto simp: consume_value_def checked_sub_def Let_def)
qed

lemma consume_inputs_tracks:
  assumes "tracks own sz (inputs @ rest) V s" and "set inputs \<subseteq> V"
  shows "\<exists>s'. consume_inputs inputs s = Inr s' \<and> peak_bytes s' = peak_bytes s
    \<and> tracks own sz rest (V - {v \<in> set inputs. v \<notin> set rest}) s'"
  using assms
proof (induction inputs arbitrary: V s)
  case Nil
  then show ?case by (simp add: consume_inputs_def)
next
  case (Cons v inputs)
  from consume_value_tracks[of own sz v "inputs @ rest" V s] Cons.prems obtain s1 where
    step: "consume_value v s = Inr (v \<notin> set (inputs @ rest), s1)" "peak_bytes s1 = peak_bytes s"
    and t1: "tracks own sz (inputs @ rest) (if v \<in> set (inputs @ rest) then V else V - {v}) s1"
    by auto
  let ?V = "if v \<in> set (inputs @ rest) then V else V - {v}"
  have "set inputs \<subseteq> ?V" using Cons.prems(2) by auto
  from Cons.IH[OF t1 this] obtain s' where "consume_inputs inputs s1 = Inr s'"
    "peak_bytes s' = peak_bytes s1" "tracks own sz rest (?V - {v \<in> set inputs. v \<notin> set rest}) s'"
    by blast
  moreover have "?V - {v \<in> set inputs. v \<notin> set rest} = V - {w \<in> set (v # inputs). w \<notin> set rest}"
    by auto
  ultimately show ?case using step by (auto simp: consume_inputs_def)
qed

lemma remove_unused_tracks:
  assumes "tracks own sz pending V s" and "set produced \<subseteq> V" and "distinct produced"
  shows "\<exists>s'. remove_unused produced s = Inr s' \<and> peak_bytes s' = peak_bytes s
    \<and> tracks own sz pending (V - {v \<in> set produced. v \<notin> set pending}) s'"
  using assms
proof (induction produced arbitrary: V s)
  case Nil
  then show ?case by (simp add: remove_unused_def)
next
  case (Cons v vs)
  let ?V = "if v \<in> set pending then V else V - {v}"
  have zero: "use_count (remaining_uses s) v = 0 \<longleftrightarrow> v \<notin> set pending"
    using tracks_pending[OF Cons.prems(1), of v] by (simp add: count_list_0_iff)
  have "\<exists>s1. (if use_count (remaining_uses s) v = 0 then remove_value v s else Inr s) = Inr s1
      \<and> peak_bytes s1 = peak_bytes s \<and> tracks own sz pending ?V s1"
    using remove_value_tracks[OF Cons.prems(1), of v] Cons.prems zero by auto
  then obtain s1 where step: "(if use_count (remaining_uses s) v = 0 then remove_value v s else Inr s) = Inr s1"
    "peak_bytes s1 = peak_bytes s" and t1: "tracks own sz pending ?V s1" by blast
  have "set vs \<subseteq> ?V" "distinct vs" using Cons.prems by auto
  from Cons.IH[OF t1 this] obtain s' where "remove_unused vs s1 = Inr s'"
    "peak_bytes s' = peak_bytes s1" "tracks own sz pending (?V - {v \<in> set vs. v \<notin> set pending}) s'"
    by blast
  moreover have "?V - {v \<in> set vs. v \<notin> set pending} = V - {w \<in> set (v # vs). w \<notin> set pending}"
    by auto
  ultimately show ?case using step by (simp add: remove_unused_def)
qed

text \<open>What is left out at the end: the bytes of the allocation that the output holds.\<close>

lemma scratch_excluding_tracks:
  assumes "tracks own sz pending V s" and "out \<in> V"
  shows "scratch_excluding_output out s =
    Inr (peak_bytes s - (case own out of None \<Rightarrow> 0 | Some r \<Rightarrow> sz r))
    \<and> (case own out of None \<Rightarrow> 0 | Some r \<Rightarrow> sz r) \<le> peak_bytes s"
proof -
  from assms(1) obtain name where t: "tracks_by name own sz pending V s" by (auto simp: tracks_def)
  have fin: "finite (owners own V)" using t by (simp add: tracks_by_def owners_finite)
  show ?thesis
  proof (cases "own out")
    case None
    then show ?thesis using t assms(2) by (simp add: scratch_excluding_output_def tracks_by_def checked_sub_def)
  next
    case (Some r)
    have r: "r \<in> owners own V" using assms(2) Some by (auto simp: owners_def)
    have "sz r \<le> live_bytes s" using t r fin by (simp add: tracks_by_def member_le_sum)
    then have "sz r \<le> peak_bytes s" using t by (simp add: tracks_by_def)
    then show ?thesis using t assms(2) r Some
      by (simp add: scratch_excluding_output_def tracks_by_def checked_sub_def)
  qed
qed

end
