(* ===== verification/MW_Scratch.thy ===== *)
theory MW_Scratch
  imports MW_Ownership
begin

text \<open>
  Peak scratch memory of a graph. The specification needs no reference counts: around node
  \<open>n\<close> the live allocations are those of the values that an unexecuted node or the graph
  output still refers to, together with the node's own outputs. The locale \<open>ownership\<close>
  proves that the schedule computes its peak for any assignment of aliases to outputs, and
  is interpreted on the static aliasing rule of the estimate.
\<close>

section \<open>Specification\<close>

text \<open>The uses that are still to come before node \<open>n\<close> runs.\<close>

definition pending :: "OperationGraph \<Rightarrow> nat \<Rightarrow> ValueRef list" where
  "pending g n = concat (map node_inputs (drop n (graph_nodes g))) @ [graph_output g]"

definition outputs_of :: "OperationGraph \<Rightarrow> nat \<Rightarrow> ValueRef list" where
  "outputs_of g n = map (NodeOutput n) [0..<length (node_outputs (graph_nodes g ! n))]"

definition produced_before :: "OperationGraph \<Rightarrow> nat \<Rightarrow> ValueRef list" where
  "produced_before g n = concat (map (outputs_of g) [0..<n])"

definition value_bytes :: "OperationGraph \<Rightarrow> ValueRef \<Rightarrow> nat" where
  "value_bytes g v = (case graph_facts g v of None \<Rightarrow> 0 | Some F \<Rightarrow> byte_len F)"

text \<open>The values that matter while node \<open>n\<close> runs and the bytes of their allocations.\<close>

definition held_values :: "OperationGraph \<Rightarrow> nat \<Rightarrow> ValueRef list" where
  "held_values g n = filter (\<lambda>v. v \<in> set (pending g n)) (produced_before g n) @ outputs_of g n"

definition held_bytes :: "OperationGraph \<Rightarrow> (ValueRef \<Rightarrow> ValueRef option) \<Rightarrow> nat \<Rightarrow> nat" where
  "held_bytes g own n =
     sum_list (map (value_bytes g) (remdups (List.map_filter own (held_values g n))))"

primrec peak_held ::
    "OperationGraph \<Rightarrow> (ValueRef \<Rightarrow> ValueRef option) \<Rightarrow> (nat \<Rightarrow> nat) \<Rightarrow> nat \<Rightarrow> nat" where
  "peak_held g own transient 0 = 0"
| "peak_held g own transient (Suc n) =
     max (peak_held g own transient n) (held_bytes g own n + transient n)"

definition owned_bytes :: "OperationGraph \<Rightarrow> (ValueRef \<Rightarrow> ValueRef option) \<Rightarrow> ValueRef \<Rightarrow> nat" where
  "owned_bytes g own v = (case own v of None \<Rightarrow> 0 | Some r \<Rightarrow> value_bytes g r)"

definition scratch_spec :: "OperationGraph \<Rightarrow> (ValueRef \<Rightarrow> ValueRef option) \<Rightarrow> (nat \<Rightarrow> nat) \<Rightarrow> nat" where
  "scratch_spec g own transient =
     peak_held g own transient (length (graph_nodes g)) - owned_bytes g own (graph_output g)"

text \<open>Every counter of the schedule fits 64 bits.\<close>

definition fits :: "OperationGraph \<Rightarrow> (ValueRef \<Rightarrow> ValueRef option) \<Rightarrow> (nat \<Rightarrow> nat) \<Rightarrow> bool" where
  "fits g own transient \<longleftrightarrow>
     length (graph_inputs g) + length (produced_before g (length (graph_nodes g))) < u64_bound
   \<and> length (pending g 0) < u64_bound
   \<and> (\<forall>n < length (graph_nodes g). held_bytes g own n + transient n < u64_bound)"

section \<open>One node of the schedule\<close>

text \<open>The accounting of one node, for given alias origins; the estimate and the executor both do it.\<close>

definition place_output ::
    "ValueRef list \<Rightarrow> nat option \<Rightarrow> nat \<Rightarrow> ValueRef \<Rightarrow> LivenessSchedule \<Rightarrow> LivenessSchedule result" where
  "place_output inputs origin bytes v s = (case origin of
     Some i \<Rightarrow> bindR (ok_or Integrity (live_values s (inputs ! i))) (\<lambda>a. insert_value v a s)
   | None \<Rightarrow> bindR (create_allocation bytes s) (\<lambda>r. insert_value v (Some (fst r)) (snd r)))"

definition place_outputs ::
    "OperationGraph \<Rightarrow> (nat \<Rightarrow> nat \<Rightarrow> nat option) \<Rightarrow> nat \<Rightarrow> LivenessSchedule \<Rightarrow> LivenessSchedule result" where
  "place_outputs g origin n s = foldR (\<lambda>k.
       place_output (node_inputs (graph_nodes g ! n)) (origin n k)
         (value_bytes g (NodeOutput n k)) (NodeOutput n k))
     [0..<length (node_outputs (graph_nodes g ! n))] s"

definition account_node ::
    "OperationGraph \<Rightarrow> (nat \<Rightarrow> nat \<Rightarrow> nat option) \<Rightarrow> (nat \<Rightarrow> nat) \<Rightarrow> nat \<Rightarrow> LivenessSchedule
       \<Rightarrow> LivenessSchedule result" where
  "account_node g origin transient n s =
     bindR (place_outputs g origin n s) (\<lambda>s.
     bindR (observe_transient (transient n) s) (\<lambda>s.
     bindR (consume_inputs (node_inputs (graph_nodes g ! n)) s) (\<lambda>s.
       remove_unused (outputs_of g n) s)))"

section \<open>Sets of live values\<close>

definition external_live :: "OperationGraph \<Rightarrow> nat \<Rightarrow> ValueRef set" where
  "external_live g n = {v. \<exists>i < length (graph_inputs g). v = Input i
     \<and> (v \<in> set (pending g n) \<or> v \<notin> set (pending g 0))}"

definition live_at :: "OperationGraph \<Rightarrow> nat \<Rightarrow> ValueRef set" where
  "live_at g n = external_live g n \<union> {v \<in> set (produced_before g n). v \<in> set (pending g n)}"

lemma pending_Suc:
  "n < length (graph_nodes g) \<Longrightarrow> pending g n = node_inputs (graph_nodes g ! n) @ pending g (Suc n)"
  by (simp add: pending_def Cons_nth_drop_Suc[symmetric])

lemma pending_mono: "set (pending g (n + k)) \<subseteq> set (pending g n)"
proof -
  have "set (drop (n + k) (graph_nodes g)) \<subseteq> set (drop n (graph_nodes g))"
    by (metis add.commute drop_drop set_drop_subset)
  then show ?thesis by (auto simp: pending_def)
qed

lemma set_produced_before:
  "set (produced_before g n) =
     {v. \<exists>m k. v = NodeOutput m k \<and> m < n \<and> k < length (node_outputs (graph_nodes g ! m))}"
  by (auto simp: produced_before_def outputs_of_def)

lemma set_outputs_of:
  "set (outputs_of g n) = {v. \<exists>k < length (node_outputs (graph_nodes g ! n)). v = NodeOutput n k}"
  by (auto simp: outputs_of_def)

lemma distinct_outputs_of: "distinct (outputs_of g n)"
  by (auto simp: outputs_of_def distinct_map inj_on_def)

lemma produced_before_Suc: "produced_before g (Suc n) = produced_before g n @ outputs_of g n"
  by (simp add: produced_before_def)

lemma produced_available:
  assumes "n \<le> length (graph_nodes g)"
  shows "v \<in> set (produced_before g n) \<or> (\<exists>i < length (graph_inputs g). v = Input i) \<longleftrightarrow>
    available (graph_inputs g) (graph_nodes g) n v"
  using assms by (cases v) (auto simp: set_produced_before available_def)

text \<open>Liveness moves over one node.\<close>

lemma live_at_Suc:
  assumes "n < length (graph_nodes g)"
  shows "live_at g n \<union> set (outputs_of g n)
      - {v \<in> set (node_inputs (graph_nodes g ! n)). v \<notin> set (pending g (Suc n))}
      - {v \<in> set (outputs_of g n). v \<notin> set (pending g (Suc n))}
    = live_at g (Suc n)"
proof -
  have p: "set (pending g n) = set (node_inputs (graph_nodes g ! n)) \<union> set (pending g (Suc n))"
    using assms by (simp add: pending_Suc)
  have "set (pending g n) \<subseteq> set (pending g 0)" using pending_mono[of g 0 n] by simp
  then show ?thesis
    using p by (auto simp: live_at_def external_live_def produced_before_Suc set_outputs_of)
qed

lemma finite_live_at: "finite (live_at g n)"
proof -
  have "external_live g n \<subseteq> Input ` {..<length (graph_inputs g)}" by (auto simp: external_live_def)
  then have "finite (external_live g n)" by (rule finite_subset) simp
  then show ?thesis by (simp add: live_at_def)
qed

lemma node_inputs_live:
  assumes "wf_graph g" and "n < length (graph_nodes g)"
  shows "set (node_inputs (graph_nodes g ! n)) \<subseteq> live_at g n"
proof
  fix v assume v: "v \<in> set (node_inputs (graph_nodes g ! n))"
  have "available (graph_inputs g) (graph_nodes g) n v"
    using assms v wf_nodes_edges by (auto simp: wf_graph_def)
  moreover have "v \<in> set (pending g n)" using assms(2) v by (simp add: pending_Suc)
  ultimately show "v \<in> live_at g n"
    using produced_available[of n g v] assms(2) by (auto simp: live_at_def external_live_def)
qed

lemma output_live_at: "wf_graph g \<Longrightarrow> graph_output g \<in> live_at g (length (graph_nodes g))"
proof -
  assume "wf_graph g"
  then have "value_facts (graph_inputs g) (take (length (graph_nodes g)) (graph_nodes g)) (graph_output g) \<noteq> None"
    by (simp add: wf_graph_def graph_facts_def)
  then have "available (graph_inputs g) (graph_nodes g) (length (graph_nodes g)) (graph_output g)"
    by (simp only: value_facts_available)
  then show ?thesis
    using produced_available[of "length (graph_nodes g)" g "graph_output g"]
    by (auto simp: live_at_def external_live_def pending_def)
qed

lemma live_at_card:
  assumes "n \<le> length (graph_nodes g)"
  shows "card (live_at g n \<union> set (outputs_of g n)) \<le> length (graph_inputs g) + length (produced_before g (Suc n))"
proof -
  have "live_at g n \<union> set (outputs_of g n) \<subseteq>
      Input ` {..<length (graph_inputs g)} \<union> set (produced_before g (Suc n))"
    by (auto simp: live_at_def external_live_def produced_before_Suc)
  then have "card (live_at g n \<union> set (outputs_of g n)) \<le>
      card (Input ` {..<length (graph_inputs g)} \<union> set (produced_before g (Suc n)))"
    by (intro card_mono) auto
  also have "\<dots> \<le> card (Input ` {..<length (graph_inputs g)}) + card (set (produced_before g (Suc n)))"
    by (rule card_Un_le)
  also have "\<dots> \<le> length (graph_inputs g) + length (produced_before g (Suc n))"
    by (intro add_mono card_length) (metis card_image_le card_lessThan finite_lessThan)
  finally show ?thesis .
qed

lemma length_produced_mono: "n \<le> m \<Longrightarrow> length (produced_before g n) \<le> length (produced_before g m)"
proof (induction m)
  case 0
  then show ?case by simp
next
  case (Suc m)
  then show ?case by (cases "n = Suc m") (auto simp: produced_before_Suc intro: trans_le_add1)
qed

section \<open>Schedules for a choice of aliases\<close>

text \<open>The state of the schedule between nodes.\<close>

definition between ::
    "OperationGraph \<Rightarrow> (ValueRef \<Rightarrow> ValueRef option) \<Rightarrow> (nat \<Rightarrow> nat) \<Rightarrow> nat \<Rightarrow> LivenessSchedule \<Rightarrow> bool" where
  "between g own transient n s \<longleftrightarrow> tracks own (value_bytes g) (pending g n) (live_at g n) s
     \<and> peak_bytes s = peak_held g own transient n
     \<and> next_allocation s \<le> length (produced_before g n)"


lemma foldR_concat:
  "foldR (\<lambda>x s. foldR f (h x) s) xs s = foldR f (concat (map h xs)) s"
  by (induction xs arbitrary: s) (simp_all add: foldR_append)

lemma count_uses:
  assumes "ok \<longrightarrow> (\<forall>v. use_count counts v + count_list vs v < u64_bound)"
  shows "meets ok (foldR increment_count vs counts)
    (\<lambda>counts'. \<forall>v. use_count counts' v = use_count counts v + count_list vs v)"
  using assms
proof (induction vs arbitrary: counts)
  case Nil
  then show ?case by simp
next
  case (Cons w vs)
  let ?c = "counts(w \<mapsto> Suc (use_count counts w))"
  have c: "use_count ?c v = use_count counts v + (if v = w then 1 else 0)" for v
    by (simp add: use_count_def)
  have "meets ok (foldR increment_count vs ?c)
      (\<lambda>counts'. \<forall>v. use_count counts' v = use_count ?c v + count_list vs v)"
  proof (rule Cons.IH, intro impI allI)
    fix v assume ok
    with Cons.prems have "use_count counts v + count_list (w # vs) v < u64_bound" by blast
    then show "use_count ?c v + count_list vs v < u64_bound" by (auto simp: c split: if_splits)
  qed
  then have rest: "meets ok (foldR increment_count vs ?c)
      (\<lambda>counts'. \<forall>v. use_count counts' v = use_count counts v + count_list (w # vs) v)"
    by (rule meets_mono) (auto simp: c)
  have fits: "use_count counts w + 1 < u64_bound" if ok
    using Cons.prems that by (auto dest: spec[of _ w])
  have "increment_count w counts = (if use_count counts w + 1 < u64_bound then Inr ?c else Inl ResourceLimit)"
    by (simp add: increment_count_def checked_add_def)
  with rest fits show ?case by (auto simp del: count_list.simps)
qed

lemma initial_values:
  "n \<le> u32_bound \<Longrightarrow>
   foldR (\<lambda>i live. bindR (index_as_u32 i) (\<lambda>i. Inr (live(Input i \<mapsto> None)))) [0..<n] Map.empty =
     Inr (\<lambda>v. case v of Input i \<Rightarrow> if i < n then Some None else None | NodeOutput _ _ \<Rightarrow> None)"
proof (induction n)
  case 0
  show ?case by (auto split: ValueRef.splits)
next
  case (Suc n)
  then show ?case
    by (auto simp: foldR_append index_as_u32_def try_from_ok split: ValueRef.splits)
qed

lemma count_list_le: "count_list xs x \<le> length xs"
  by (induction xs) auto

lemma schedule_new_between:
  assumes wf: "wf_graph g" and ok: "ok \<longrightarrow> length (pending g 0) < u64_bound"
    and own: "\<And>i. own (Input i) = None"
  shows "meets ok (schedule_new g) (between g own transient 0)"
proof -
  let ?live = "\<lambda>v. case v of Input i \<Rightarrow> if i < length (graph_inputs g) then Some None else None
    | NodeOutput _ _ \<Rightarrow> None"
  let ?s = "\<lambda>counts. \<lparr>remaining_uses = counts, live_values = ?live, allocations = Map.empty,
    next_allocation = 0, live_bytes = 0, peak_bytes = 0\<rparr>"
  have "length (graph_inputs g) \<le> u32_bound" using wf by (simp add: wf_graph_def wf_nodes_def)
  then have new: "schedule_new g = bindR (foldR increment_count (pending g 0) Map.empty) (\<lambda>c. Inr (?s c))"
    by (simp add: schedule_new_def initial_values foldR_concat pending_def foldR_append)
      (cases "foldR increment_count (concat (map node_inputs (graph_nodes g))) Map.empty"; simp add: bindR_def split: sum.splits)
  have live: "live_at g 0 = Input ` {..<length (graph_inputs g)}" "dom ?live = live_at g 0"
    by (auto simp: live_at_def external_live_def produced_before_def split: ValueRef.splits if_splits)
  have none: "owners own (live_at g 0) = {}" using own by (auto simp: live owners_def)
  have tr: "between g own transient 0 (?s c)" if "\<forall>v. use_count c v = count_list (pending g 0) v" for c
    unfolding between_def tracks_def tracks_by_def none
    using that own live by (auto simp: finite_live_at)
  have "count_list (pending g 0) v < u64_bound" if ok for v
    using ok that count_list_le[of "pending g 0" v] by simp
  then have "meets ok (foldR increment_count (pending g 0) Map.empty)
      (\<lambda>c. \<forall>v. use_count c v = use_count Map.empty v + count_list (pending g 0) v)"
    by (intro count_uses) (simp add: use_count_def)
  then show ?thesis
    unfolding new by (rule meets_bindR) (use tr in \<open>simp add: use_count_def\<close>)
qed

lemma outputs_not_inputs:
  assumes "wf_graph g" and "n < length (graph_nodes g)"
  shows "set (node_inputs (graph_nodes g ! n)) \<inter> set (outputs_of g n) = {}"
  using wf_nodes_edges[of "graph_inputs g" "graph_nodes g" n] assms
  by (fastforce simp: set_outputs_of wf_graph_def available_def)

lemma consume_next [simp]:
  "consume_inputs vs s = Inr s' \<Longrightarrow> next_allocation s' = next_allocation s"
  "remove_unused vs s = Inr s' \<Longrightarrow> next_allocation s' = next_allocation s"
proof -
  have rem: "remove_value v s = Inr s' \<Longrightarrow> next_allocation s' = next_allocation s" for v s s'
    by (auto simp: remove_value_def bindR_Inr Let_def split: option.splits if_splits)
  show "consume_inputs vs s = Inr s' \<Longrightarrow> next_allocation s' = next_allocation s"
    unfolding consume_inputs_def
    by (induction vs arbitrary: s)
      (auto simp: bindR_Inr consume_value_def Let_def dest!: rem split: if_splits)
  show "remove_unused vs s = Inr s' \<Longrightarrow> next_allocation s' = next_allocation s"
    unfolding remove_unused_def
    by (induction vs arbitrary: s) (auto simp: bindR_Inr dest!: rem split: if_splits)
qed

text \<open>
  \<open>origin g n k\<close> names the input of node \<open>n\<close> whose bytes its output \<open>k\<close> shares, if any, and
  \<open>own g\<close> follows these links to the value whose production allocated the bytes.
\<close>

locale ownership =
  fixes origin :: "OperationGraph \<Rightarrow> nat \<Rightarrow> nat \<Rightarrow> nat option"
    and own :: "OperationGraph \<Rightarrow> ValueRef \<Rightarrow> ValueRef option"
  assumes origin_edge: "wf_graph g \<Longrightarrow> n < length (graph_nodes g) \<Longrightarrow> origin g n k = Some i \<Longrightarrow>
      i < length (node_inputs (graph_nodes g ! n))"
    and own_input: "own g (Input i) = None"
    and own_output: "wf_graph g \<Longrightarrow> n < length (graph_nodes g) \<Longrightarrow> own g (NodeOutput n k) =
      (case origin g n k of Some i \<Rightarrow> own g (node_inputs (graph_nodes g ! n) ! i)
       | None \<Rightarrow> Some (NodeOutput n k))"
begin

lemma own_earlier:
  assumes wf: "wf_graph g"
  shows "available (graph_inputs g) (graph_nodes g) n v \<Longrightarrow> own g v = Some r \<Longrightarrow> \<exists>m k. r = NodeOutput m k \<and> m < n"
proof (induction n arbitrary: v rule: less_induct)
  case (less n)
  show ?case
  proof (cases v)
    case (Input i)
    then show ?thesis using less.prems own_input by simp
  next
    case (NodeOutput m k)
    then have m: "m < n" "m < length (graph_nodes g)" using less.prems by (auto simp: available_def)
    show ?thesis
    proof (cases "origin g m k")
      case None
      then show ?thesis using NodeOutput m less.prems own_output[OF wf] by auto
    next
      case (Some i)
      let ?w = "node_inputs (graph_nodes g ! m) ! i"
      have "available (graph_inputs g) (graph_nodes g) m ?w"
        using wf_nodes_edges[of "graph_inputs g" "graph_nodes g" m ?w] wf m origin_edge[OF wf m(2) Some]
        by (simp add: wf_graph_def)
      moreover have "own g ?w = Some r" using NodeOutput m less.prems own_output[OF wf] Some by simp
      ultimately show ?thesis using less.IH[OF m(1)] m(1) by (meson less_trans)
    qed
  qed
qed

lemma live_own_earlier:
  assumes wf: "wf_graph g" and "n \<le> length (graph_nodes g)" and "v \<in> live_at g n" and "own g v = Some r"
  shows "\<exists>m k. r = NodeOutput m k \<and> m < n"
proof -
  have "available (graph_inputs g) (graph_nodes g) n v"
    using produced_available[OF assms(2), of v] assms(3) by (auto simp: live_at_def external_live_def)
  then show ?thesis using own_earlier[OF wf] assms(4) by blast
qed

lemma output_own:
  assumes wf: "wf_graph g" and "n < length (graph_nodes g)" and "own g (NodeOutput n k) = Some r"
  shows "r = NodeOutput n k \<or> (\<exists>m k'. r = NodeOutput m k' \<and> m < n)"
proof (cases "origin g n k")
  case None
  then show ?thesis using assms own_output[OF wf] by simp
next
  case (Some i)
  have "node_inputs (graph_nodes g ! n) ! i \<in> live_at g n"
    using node_inputs_live[OF wf assms(2)] origin_edge[OF wf assms(2) Some] nth_mem by blast
  then show ?thesis using live_own_earlier[OF wf, of n] assms Some own_output[OF wf] by simp
qed

lemma held_bytes_owners:
  "held_bytes g (own g) n = (\<Sum>r \<in> owners (own g) (live_at g n \<union> set (outputs_of g n)). value_bytes g r)"
proof -
  have "set (List.map_filter (own g) (held_values g n)) = owners (own g) (set (held_values g n))"
    by (force simp: owners_def List.map_filter_def)
  also have "\<dots> = owners (own g) (live_at g n \<union> set (outputs_of g n))"
    using own_input by (auto simp: owners_def held_values_def live_at_def external_live_def)
  finally show ?thesis
    by (simp add: held_bytes_def sum_list_distinct_conv_sum_set)
qed

text \<open>Accounting for the outputs of one node.\<close>

lemma place_outputs_tracks:
  assumes wf: "wf_graph g" and n: "n < length (graph_nodes g)" and t: "tracks (own g) (value_bytes g) (pending g n) (live_at g n) s"
    and nx: "next_allocation s \<le> length (produced_before g n)"
  shows "meets (fits g (own g) transient) (place_outputs g (origin g) n s) (\<lambda>s'.
    tracks (own g) (value_bytes g) (pending g n) (live_at g n \<union> set (outputs_of g n)) s'
    \<and> peak_bytes s' = max (peak_bytes s) (held_bytes g (own g) n)
    \<and> next_allocation s' \<le> length (produced_before g (Suc n)))"
proof -
  let ?K = "length (node_outputs (graph_nodes g ! n))"
  let ?V = "\<lambda>k. live_at g n \<union> NodeOutput n ` {..<k}"
  let ?I = "\<lambda>k s'. tracks (own g) (value_bytes g) (pending g n) (?V k) s'
    \<and> peak_bytes s' = max (peak_bytes s) (live_bytes s')
    \<and> next_allocation s' \<le> length (produced_before g n) + k"
  have outs: "NodeOutput n ` {..<?K} = set (outputs_of g n)" by (auto simp: set_outputs_of)
  have fin: "finite (owners (own g) (live_at g n \<union> set (outputs_of g n)))"
    by (simp add: owners_finite finite_live_at)
  have live: "live_bytes s' = (\<Sum>r \<in> owners (own g) (?V k). value_bytes g r)"
    "live_bytes s' \<le> peak_bytes s'" if "?I k s'" for k s'
    using that by (auto simp: tracks_def tracks_by_def)
  have step: "meets (fits g (own g) transient)
      (place_output (node_inputs (graph_nodes g ! n)) (origin g n k) (value_bytes g (NodeOutput n k))
        (NodeOutput n k) s') (?I (Suc k))" if k: "k < ?K" and I: "?I k s'" for k s'
  proof -
    let ?v = "NodeOutput n k"
    have V: "?V (Suc k) = insert ?v (?V k)" by (auto simp: lessThan_Suc)
    have out: "?v \<notin> ?V k" by (auto simp: live_at_def external_live_def set_produced_before)
    have sub: "?V (Suc k) \<subseteq> live_at g n \<union> set (outputs_of g n)" using k by (auto simp: set_outputs_of)
    have len: "length (produced_before g (Suc n)) = length (produced_before g n) + ?K"
      by (simp add: produced_before_Suc outputs_of_def)
    have total: "length (produced_before g (Suc n)) \<le> length (produced_before g (length (graph_nodes g)))"
      using n by (intro length_produced_mono) simp
    show ?thesis
    proof (cases "origin g n k")
      case None
      have own: "own g ?v = Some ?v" using own_output[OF wf n] None by simp
      have new: "?v \<notin> owners (own g) (?V k)"
        using live_own_earlier[OF wf, of n] output_own[OF wf n] n by (fastforce simp: owners_def)
      have grown: "live_bytes s' + value_bytes g ?v = (\<Sum>r \<in> owners (own g) (?V (Suc k)). value_bytes g r)"
        using live(1)[OF I] new own unfolding V
        by (simp add: owners_insert owners_finite finite_live_at)
      also have "\<dots> \<le> held_bytes g (own g) n"
        unfolding held_bytes_owners using sub by (intro sum_mono2 fin) (auto simp: owners_def)
      finally have bytes: "live_bytes s' + value_bytes g ?v \<le> held_bytes g (own g) n" .
      have ok: "fits g (own g) transient \<longrightarrow> next_allocation s' + 1 < u64_bound
          \<and> live_bytes s' + value_bytes g ?v < u64_bound"
        using I k bytes len total n by (fastforce simp: fits_def)
      show ?thesis
        unfolding place_output_def None option.case
      proof (rule meets_mono[OF insert_fresh_tracks[OF conjunct1[OF I] out own new ok]])
        fix s'' assume h: "tracks (own g) (value_bytes g) (pending g n) (insert ?v (?V k)) s''
          \<and> peak_bytes s'' = max (peak_bytes s') (live_bytes s' + value_bytes g ?v)
          \<and> next_allocation s'' = next_allocation s' + 1"
        have "live_bytes s'' = live_bytes s' + value_bytes g ?v"
          using tracks_live(1)[OF conjunct1[OF h]] grown V by simp
        then show "?I (Suc k) s''" using h I V by (auto simp: max_def)
      qed
    next
      case (Some i)
      let ?w = "node_inputs (graph_nodes g ! n) ! i"
      have w: "?w \<in> ?V k" "own g ?v = own g ?w"
        using node_inputs_live[OF wf n] origin_edge[OF wf n Some] own_output[OF wf n] Some nth_mem by fastforce+
      obtain a where a: "live_values s' ?w = Some a"
        using I w(1) by (auto simp: tracks_def tracks_by_def)
      have "card (?V (Suc k)) \<le> length (graph_inputs g) + length (produced_before g (Suc n))"
        using live_at_card[of n g] n card_mono[OF _ sub] finite_live_at by fastforce
      moreover have "card (?V (Suc k)) = card (?V k) + 1"
        unfolding V using out finite_live_at by (subst card_insert_disjoint) auto
      ultimately have ok: "fits g (own g) transient \<longrightarrow> card (?V k) + 1 < u64_bound"
        using total by (auto simp: fits_def)
      have same: "owners (own g) (?V (Suc k)) = owners (own g) (?V k)"
        unfolding V using w by (auto simp: owners_insert) (auto simp: owners_def)
      show ?thesis
        unfolding place_output_def Some option.case a ok_or_simps bindR_simps
      proof (rule meets_mono[OF insert_alias_tracks[OF conjunct1[OF I] w(1) a out w(2) ok]])
        fix s'' assume h: "tracks (own g) (value_bytes g) (pending g n) (insert ?v (?V k)) s''
          \<and> peak_bytes s'' = peak_bytes s' \<and> next_allocation s'' = next_allocation s'"
        have "live_bytes s'' = live_bytes s'"
          using tracks_live(1)[OF conjunct1[OF h]] live(1)[OF I] same V by simp
        then show "?I (Suc k) s''" using h I V by auto
      qed
    qed
  qed
  have "?I 0 s" using t nx by (auto simp: tracks_def tracks_by_def max_def)
  then have "meets (fits g (own g) transient) (place_outputs g (origin g) n s) (?I ?K)"
    using meets_foldR[of ?I s "[0..<?K]" "fits g (own g) transient"] step
    unfolding place_outputs_def by simp
  then show ?thesis
  proof (rule meets_mono)
    fix s' assume h: "?I ?K s'"
    have "live_bytes s' = held_bytes g (own g) n"
      using tracks_live(1)[OF conjunct1[OF h]] outs by (simp add: held_bytes_owners)
    then show "tracks (own g) (value_bytes g) (pending g n) (live_at g n \<union> set (outputs_of g n)) s'
        \<and> peak_bytes s' = max (peak_bytes s) (held_bytes g (own g) n)
        \<and> next_allocation s' \<le> length (produced_before g (Suc n))"
      using h outs by (simp add: produced_before_Suc outputs_of_def)
  qed
qed

lemma observe_transient_tracks:
  assumes n: "n < length (graph_nodes g)"
    and t: "tracks (own g) (value_bytes g) (pending g n) (live_at g n \<union> set (outputs_of g n)) s"
  shows "meets (fits g (own g) transient) (observe_transient (transient n) s) (\<lambda>s'.
    tracks (own g) (value_bytes g) (pending g n) (live_at g n \<union> set (outputs_of g n)) s'
    \<and> peak_bytes s' = max (peak_bytes s) (held_bytes g (own g) n + transient n)
    \<and> next_allocation s' = next_allocation s)"
proof -
  have live: "live_bytes s = held_bytes g (own g) n"
    using tracks_live(1)[OF t] by (simp add: held_bytes_owners)
  have "tracks (own g) (value_bytes g) (pending g n) (live_at g n \<union> set (outputs_of g n))
      (s\<lparr>peak_bytes := max (peak_bytes s) (live_bytes s + transient n)\<rparr>)"
    using t by (auto simp: tracks_def tracks_by_def)
  then show ?thesis
    using live n by (auto simp: observe_transient_def fits_def checked_add_def)
qed

lemma account_node_between:
  assumes wf: "wf_graph g" and n: "n < length (graph_nodes g)" and b: "between g (own g) transient n s"
  shows "meets (fits g (own g) transient) (account_node g (origin g) transient n s) (between g (own g) transient (Suc n))"
proof -
  have rest: "\<exists>s'. bindR (consume_inputs (node_inputs (graph_nodes g ! n)) s2)
        (\<lambda>s. remove_unused (outputs_of g n) s) = Inr s' \<and> between g (own g) transient (Suc n) s'"
    if t2: "tracks (own g) (value_bytes g) (pending g n) (live_at g n \<union> set (outputs_of g n)) s2"
      and p2: "peak_bytes s2 = peak_held g (own g) transient (Suc n)"
      and n2: "next_allocation s2 \<le> length (produced_before g (Suc n))" for s2
  proof -
    let ?V = "live_at g n \<union> set (outputs_of g n)
      - {v \<in> set (node_inputs (graph_nodes g ! n)). v \<notin> set (pending g (Suc n))}"
    have "set (node_inputs (graph_nodes g ! n)) \<subseteq> live_at g n \<union> set (outputs_of g n)"
      using node_inputs_live[OF wf n] by blast
    from consume_inputs_tracks[OF t2[unfolded pending_Suc[OF n]] this] obtain s3 where
      s3: "consume_inputs (node_inputs (graph_nodes g ! n)) s2 = Inr s3" "peak_bytes s3 = peak_bytes s2"
      "tracks (own g) (value_bytes g) (pending g (Suc n)) ?V s3" by blast
    have "set (outputs_of g n) \<subseteq> ?V"
      using outputs_not_inputs[OF wf n] by blast
    from remove_unused_tracks[OF s3(3) this distinct_outputs_of] obtain s4 where
      s4: "remove_unused (outputs_of g n) s3 = Inr s4" "peak_bytes s4 = peak_bytes s3"
      "tracks (own g) (value_bytes g) (pending g (Suc n)) (live_at g (Suc n)) s4"
      unfolding live_at_Suc[OF n] by blast
    show ?thesis using s3 s4 p2 n2 by (simp add: between_def)
  qed
  from b have t: "tracks (own g) (value_bytes g) (pending g n) (live_at g n) s"
    and p: "peak_bytes s = peak_held g (own g) transient n"
    and nx: "next_allocation s \<le> length (produced_before g n)" by (simp_all add: between_def)
  show ?thesis
    unfolding account_node_def
  proof (rule meets_bindR[OF place_outputs_tracks[OF wf n t nx]], elim conjE)
    fix s1 assume s1: "tracks (own g) (value_bytes g) (pending g n) (live_at g n \<union> set (outputs_of g n)) s1"
      "peak_bytes s1 = max (peak_bytes s) (held_bytes g (own g) n)"
      "next_allocation s1 \<le> length (produced_before g (Suc n))"
    show "meets (fits g (own g) transient) (bindR (observe_transient (transient n) s1) (\<lambda>s.
        bindR (consume_inputs (node_inputs (graph_nodes g ! n)) s) (\<lambda>s. remove_unused (outputs_of g n) s)))
        (between g (own g) transient (Suc n))"
    proof (rule meets_bindR[OF observe_transient_tracks[OF n s1(1)]], elim conjE)
      fix s2 assume s2: "tracks (own g) (value_bytes g) (pending g n) (live_at g n \<union> set (outputs_of g n)) s2"
        "peak_bytes s2 = max (peak_bytes s1) (held_bytes g (own g) n + transient n)"
        "next_allocation s2 = next_allocation s1"
      have "peak_bytes s2 = peak_held g (own g) transient (Suc n)" using s1 s2 p by (simp add: max_def)
      from rest[OF s2(1) this] s1(3) s2(3) show "meets (fits g (own g) transient)
          (bindR (consume_inputs (node_inputs (graph_nodes g ! n)) s2)
            (\<lambda>s. remove_unused (outputs_of g n) s)) (between g (own g) transient (Suc n))" by auto
    qed
  qed
qed

text \<open>The whole run: the schedule ends with the specified peak and holds the output.\<close>

lemma account_all:
  assumes "wf_graph g"
  shows "meets (fits g (own g) transient)
    (bindR (schedule_new g) (\<lambda>s.
     bindR (foldR (account_node g (origin g) transient) [0..<length (graph_nodes g)] s) (\<lambda>s.
       scratch_excluding_output (graph_output g) s)))
    (\<lambda>bytes. bytes = scratch_spec g (own g) transient
      \<and> owned_bytes g (own g) (graph_output g) \<le> peak_held g (own g) transient (length (graph_nodes g)))"
proof (rule meets_bindR)
  show "meets (fits g (own g) transient) (schedule_new g) (between g (own g) transient 0)"
    using assms own_input by (intro schedule_new_between) (simp_all add: fits_def)
next
  fix s assume "between g (own g) transient 0 s"
  then have run: "meets (fits g (own g) transient)
      (foldR (account_node g (origin g) transient) [0..<length (graph_nodes g)] s)
      (between g (own g) transient (length (graph_nodes g)))"
    using meets_foldR[of "between g (own g) transient" s "[0..<length (graph_nodes g)]"
        "fits g (own g) transient"] account_node_between[OF assms] by simp
  show "meets (fits g (own g) transient)
     (bindR (foldR (account_node g (origin g) transient) [0..<length (graph_nodes g)] s) (\<lambda>s.
       scratch_excluding_output (graph_output g) s))
    (\<lambda>bytes. bytes = scratch_spec g (own g) transient
      \<and> owned_bytes g (own g) (graph_output g) \<le> peak_held g (own g) transient (length (graph_nodes g)))"
    using run
  proof (rule meets_bindR)
    fix s' assume b: "between g (own g) transient (length (graph_nodes g)) s'"
    from scratch_excluding_tracks[OF _ output_live_at[OF assms], of "own g" "value_bytes g" "pending g (length (graph_nodes g))" s'] b
    show "meets (fits g (own g) transient) (scratch_excluding_output (graph_output g) s')
        (\<lambda>bytes. bytes = scratch_spec g (own g) transient
      \<and> owned_bytes g (own g) (graph_output g) \<le> peak_held g (own g) transient (length (graph_nodes g)))"
      by (auto simp: between_def scratch_spec_def owned_bytes_def)
  qed
qed

end

section \<open>Following aliases\<close>

text \<open>The owner of a value; node indices decrease along aliases, so the index is enough fuel.\<close>

fun owner_within ::
    "OperationGraph \<Rightarrow> (nat \<Rightarrow> nat \<Rightarrow> nat option) \<Rightarrow> nat \<Rightarrow> ValueRef \<Rightarrow> ValueRef option" where
  "owner_within g origin fuel (Input i) = None"
| "owner_within g origin 0 (NodeOutput n k) = None"
| "owner_within g origin (Suc fuel) (NodeOutput n k) = (case origin n k of
     Some i \<Rightarrow> owner_within g origin fuel (node_inputs (graph_nodes g ! n) ! i)
   | None \<Rightarrow> Some (NodeOutput n k))"

definition value_owner :: "(nat \<Rightarrow> nat \<Rightarrow> nat option) \<Rightarrow> OperationGraph \<Rightarrow> ValueRef \<Rightarrow> ValueRef option" where
  "value_owner origin g v =
     owner_within g origin (case v of Input _ \<Rightarrow> 0 | NodeOutput n _ \<Rightarrow> Suc n) v"

lemma owner_within_enough:
  assumes "wf_graph g" and edges: "\<And>n k i. n < length (graph_nodes g) \<Longrightarrow> origin n k = Some i \<Longrightarrow>
      i < length (node_inputs (graph_nodes g ! n))"
    and "available (graph_inputs g) (graph_nodes g) fuel v"
  shows "owner_within g origin fuel v = value_owner origin g v"
  using assms(3)
proof (induction fuel arbitrary: v rule: less_induct)
  case (less fuel)
  show ?case
  proof (cases v)
    case (Input i)
    then show ?thesis by (simp add: value_owner_def)
  next
    case (NodeOutput n k)
    then have n: "n < fuel" "n < length (graph_nodes g)" using less.prems by (auto simp: available_def)
    then obtain f where f: "fuel = Suc f" by (cases fuel) auto
    show ?thesis
    proof (cases "origin n k")
      case None
      then show ?thesis using NodeOutput f by (simp add: value_owner_def)
    next
      case (Some i)
      let ?w = "node_inputs (graph_nodes g ! n) ! i"
      have av: "available (graph_inputs g) (graph_nodes g) n ?w"
        using wf_nodes_edges[of "graph_inputs g" "graph_nodes g" n ?w] assms(1) n edges[OF n(2) Some]
        by (simp add: wf_graph_def)
      then have "available (graph_inputs g) (graph_nodes g) f ?w"
        using n f by (auto simp: available_def split: ValueRef.splits)
      then show ?thesis using less.IH[of f ?w] less.IH[of n ?w] av n NodeOutput Some f
        by (simp add: value_owner_def)
    qed
  qed
qed

lemma value_owner_output:
  assumes "wf_graph g" and edges: "\<And>n k i. n < length (graph_nodes g) \<Longrightarrow> origin n k = Some i \<Longrightarrow>
      i < length (node_inputs (graph_nodes g ! n))"
    and n: "n < length (graph_nodes g)"
  shows "value_owner origin g (NodeOutput n k) = (case origin n k of
     Some i \<Rightarrow> value_owner origin g (node_inputs (graph_nodes g ! n) ! i)
   | None \<Rightarrow> Some (NodeOutput n k))"
proof (cases "origin n k")
  case None
  then show ?thesis by (simp add: value_owner_def)
next
  case (Some i)
  let ?w = "node_inputs (graph_nodes g ! n) ! i"
  have "available (graph_inputs g) (graph_nodes g) n ?w"
    using wf_nodes_edges[of "graph_inputs g" "graph_nodes g" n ?w] assms(1) n edges[OF n Some]
    by (simp add: wf_graph_def)
  with owner_within_enough[OF assms(1) edges this] show ?thesis
    using Some by (simp add: value_owner_def[of _ _ "NodeOutput n k"])
qed

section \<open>The static estimate\<close>

definition static_origin :: "OperationGraph \<Rightarrow> nat \<Rightarrow> nat \<Rightarrow> nat option" where
  "static_origin g n k = node_output_alias_input g (graph_nodes g ! n) k"

definition static_owner :: "OperationGraph \<Rightarrow> ValueRef \<Rightarrow> ValueRef option" where
  "static_owner g = value_owner (static_origin g) g"

definition static_transient :: "OperationGraph \<Rightarrow> nat \<Rightarrow> nat" where
  "static_transient g n = node_transient (graph_nodes g ! n)"

lemma static_origin_edge:
  "static_origin g n k = Some i \<Longrightarrow> i < length (node_inputs (graph_nodes g ! n))"
  unfolding static_origin_def by (drule alias_input_Some) auto

interpretation static: ownership static_origin static_owner
proof
  show "i < length (node_inputs (graph_nodes g ! n))" if "static_origin g n k = Some i" for g n k i
    using that by (rule static_origin_edge)
  show "static_owner g (Input i) = None" for g i
    by (simp add: static_owner_def value_owner_def)
  show "static_owner g (NodeOutput n k) = (case static_origin g n k of
        Some i \<Rightarrow> static_owner g (node_inputs (graph_nodes g ! n) ! i) | None \<Rightarrow> Some (NodeOutput n k))"
    if "wf_graph g" "n < length (graph_nodes g)" for g n k
    unfolding static_owner_def using that static_origin_edge by (intro value_owner_output)
qed

lemma estimate_output_place:
  assumes "node = graph_nodes g ! n" and "n < length (graph_nodes g)"
    and "k < length (node_outputs node)" and "length (node_outputs node) < u32_bound"
  shows "estimate_output g node n (k, node_outputs node ! k) st =
    bindR (place_output (node_inputs node) (static_origin g n k) (value_bytes g (NodeOutput n k))
      (NodeOutput n k) (fst st)) (\<lambda>s. Inr (s, snd st @ [NodeOutput n k]))"
proof -
  have bytes: "value_bytes g (NodeOutput n k) = byte_len (node_outputs node ! k)"
    using assms by (simp add: value_bytes_def graph_facts_def value_facts_def list_get_def)
  have k: "index_as_u32 k = Inr k" using assms by (simp add: index_as_u32_def try_from_ok)
  show ?thesis
  proof (cases "node_output_alias_input g node k")
    case None
    then show ?thesis using assms(1) bytes k
      by (cases "create_allocation (byte_len (node_outputs node ! k)) (fst st)")
        (simp_all add: estimate_output_def place_output_def static_origin_def Let_def)
  next
    case (Some i)
    then have "i < length (node_inputs node)" using alias_input_Some by fastforce
    then show ?thesis using assms(1) k Some
      by (cases "live_values (fst st) (node_inputs node ! i)")
        (simp_all add: estimate_output_def place_output_def static_origin_def Let_def list_get_def)
  qed
qed

lemma estimate_outputs_place:
  assumes node: "node = graph_nodes g ! n" "n < length (graph_nodes g)"
    and "K \<le> length (node_outputs node)" and "length (node_outputs node) < u32_bound"
  shows "foldR (estimate_output g node n) (map (\<lambda>k. (k, node_outputs node ! k)) [0..<K]) (s, []) =
    bindR (foldR (\<lambda>k. place_output (node_inputs node) (static_origin g n k)
        (value_bytes g (NodeOutput n k)) (NodeOutput n k)) [0..<K] s)
      (\<lambda>s. Inr (s, map (NodeOutput n) [0..<K]))"
  using assms(3)
proof (induction K)
  case 0
  then show ?case by simp
next
  case (Suc K)
  then show ?case
    using estimate_output_place[OF node, of K] assms(4)
    by (simp add: foldR_append) (cases "foldR (\<lambda>k. place_output (node_inputs node) (static_origin g n k)
        (value_bytes g (NodeOutput n k)) (NodeOutput n k)) [0..<K] s"; simp)
qed

lemma enumerate_eq_map: "enumerate 0 xs = map (\<lambda>k. (k, xs ! k)) [0..<length xs]"
  by (rule nth_equalityI) (simp_all add: nth_enumerate_eq)

lemma estimate_node_account:
  assumes "wf_graph g" and n: "n < length (graph_nodes g)"
  shows "estimate_node g (n, graph_nodes g ! n) s = account_node g (static_origin g) (static_transient g) n s"
proof -
  let ?node = "graph_nodes g ! n"
  have wf: "wf_nodes (graph_inputs g) (graph_nodes g)" using assms(1) by (simp add: wf_graph_def)
  then have "n < u32_bound" using n by (simp add: wf_nodes_def)
  then have id: "index_as_u32 n = Inr n" by (simp add: index_as_u32_def try_from_ok)
  have "length (node_outputs ?node) < u32_bound" using wf_nodes_node[OF wf n] by blast
  then have "foldR (estimate_output g ?node n) (enumerate 0 (node_outputs ?node)) (s, []) =
      bindR (place_outputs g (static_origin g) n s) (\<lambda>s. Inr (s, outputs_of g n))"
    unfolding enumerate_eq_map place_outputs_def outputs_of_def
    by (intro estimate_outputs_place) (simp_all add: n)
  then show ?thesis
    by (cases "place_outputs g (static_origin g) n s")
      (simp_all add: estimate_node_def account_node_def id static_transient_def)
qed

lemma foldR_cong:
  "(\<And>x s. x \<in> set xs \<Longrightarrow> f x s = h x s) \<Longrightarrow> foldR f xs s = foldR h xs s"
  by (induction xs arbitrary: s) (auto intro: bindR_cong)

lemma foldR_map: "foldR f (map h xs) s = foldR (\<lambda>x. f (h x)) xs s"
  by (induction xs arbitrary: s) simp_all

text \<open>The estimate computes the specified peak, and fails only when a counter overflows.\<close>

lemma estimate_meets:
  assumes "wf_graph g"
  shows "meets (fits g (static_owner g) (static_transient g)) (estimate_host_scratch_bytes g)
    (\<lambda>bytes. bytes = scratch_spec g (static_owner g) (static_transient g)
      \<and> owned_bytes g (static_owner g) (graph_output g)
          \<le> peak_held g (static_owner g) (static_transient g) (length (graph_nodes g)))"
proof -
  have "foldR (estimate_node g) (enumerate 0 (graph_nodes g)) s =
      foldR (account_node g (static_origin g) (static_transient g)) [0..<length (graph_nodes g)] s" for s
    unfolding enumerate_eq_map foldR_map
    by (rule foldR_cong) (simp add: estimate_node_account[OF assms])
  then show ?thesis
    unfolding estimate_host_scratch_bytes_def using static.account_all[OF assms] by simp
qed

end
