(* ===== verification/MW_Prepare.thy ===== *)
theory MW_Prepare
  imports MW_Kernels MW_Representation
begin

text \<open>
  prepare.rs: requests, the provider interface and its default allocation, the versioned
  provider registry, the preparation engine with its transform chains, and the built-in
  contiguous provider with its blocked casts. A provider is a record of the functions that the
  trait \<open>PreparationProvider\<close> requires. The binary16 and bfloat16 conversions belong to the
  package \<open>half\<close> and are a parameter; 32-bit floats are handled by their bits.
\<close>

section \<open>Requests and providers\<close>

record PrepareRequest =
  req_transform :: TransformSpec
  req_shape :: "nat list"
  req_source :: ByteView
  expected_output_bytes :: nat
  expected_scratch_bytes :: nat

definition PrepareRequest_new :: "TransformSpec \<Rightarrow> nat list \<Rightarrow> ByteView \<Rightarrow> nat \<Rightarrow> PrepareRequest" where
  "PrepareRequest_new transform shape source output_bytes =
     \<lparr>req_transform = transform, req_shape = shape, req_source = source,
      expected_output_bytes = output_bytes, expected_scratch_bytes = 0\<rparr>"

definition with_expected_scratch_bytes :: "PrepareRequest \<Rightarrow> nat \<Rightarrow> PrepareRequest" where
  "with_expected_scratch_bytes req n = req\<lparr>expected_scratch_bytes := n\<rparr>"

datatype OutputStrategy =
    ReuseSource
  | Allocate (strategy_output: nat) (strategy_scratch: nat)

record PreparationProvider =
  provider_implementation :: ImplementationId
  provider_validate :: "PrepareRequest \<Rightarrow> OutputStrategy exec"
  provider_prepare_into :: "PrepareRequest \<Rightarrow> u8 list \<Rightarrow> u8 list \<Rightarrow> u8 list exec"
  provider_prepare_allocated :: "PrepareRequest \<Rightarrow> nat \<Rightarrow> nat \<Rightarrow> u8 list exec"

definition allocate_zeroed :: "nat \<Rightarrow> u8 list exec" where
  "allocate_zeroed n = bindE (try_reserve n) (\<lambda>_. retE (replicate n 0))"

text \<open>The provided method \<open>prepare_allocated\<close> of the trait.\<close>

definition default_prepare_allocated ::
    "(PrepareRequest \<Rightarrow> u8 list \<Rightarrow> u8 list \<Rightarrow> u8 list exec) \<Rightarrow> PrepareRequest \<Rightarrow> nat \<Rightarrow> nat \<Rightarrow> u8 list exec" where
  "default_prepare_allocated prepare_into req output_len scratch_len =
     bindE check (\<lambda>_.
     bindE (allocate_zeroed output_len) (\<lambda>output.
     bindE check (\<lambda>_.
     bindE (allocate_zeroed scratch_len) (\<lambda>scratch.
       prepare_into req output scratch))))"

section \<open>The registry\<close>

type_synonym ProviderRegistry = "(ImplementationId \<times> PreparationProvider) list"

definition registry_new :: ProviderRegistry where
  "registry_new = []"

definition register_shared :: "PreparationProvider \<Rightarrow> ProviderRegistry \<Rightarrow> ProviderRegistry result" where
  "register_shared p registry =
     (let implementation = provider_implementation p in
     bindR (ensure (map_of registry implementation = None) InvalidFormat) (\<lambda>_.
       Inr ((implementation, p) # registry)))"

definition resolve :: "ProviderRegistry \<Rightarrow> ImplementationId \<Rightarrow> PreparationProvider result" where
  "resolve registry implementation = ok_or Unsupported (map_of registry implementation)"

definition registry_len :: "ProviderRegistry \<Rightarrow> nat" where
  "registry_len registry = length registry"

definition registry_is_empty :: "ProviderRegistry \<Rightarrow> bool" where
  "registry_is_empty registry = (registry = [])"

section \<open>The engine\<close>

definition validate_reused_output :: "PrepareRequest \<Rightarrow> unit result" where
  "validate_reused_output req =
     bindR (ensure (expected_scratch_bytes req = 0) Integrity) (\<lambda>_.
     bindR (u64_try_from (view_len (req_source req))) (\<lambda>source_len.
       ensure (source_len = expected_output_bytes req) Integrity))"

definition validate_allocated_storage :: "PrepareRequest \<Rightarrow> nat \<Rightarrow> nat \<Rightarrow> (nat \<times> nat) result" where
  "validate_allocated_storage req provider_output provider_scratch =
     bindR (ensure (provider_output = expected_output_bytes req) Integrity) (\<lambda>_.
     bindR (ensure (provider_scratch = expected_scratch_bytes req) Integrity) (\<lambda>_.
     bindR (usize_try_from provider_output) (\<lambda>output_len.
     bindR (usize_try_from provider_scratch) (\<lambda>scratch_len.
       Inr (output_len, scratch_len)))))"

definition prepare_with_cancellation :: "ProviderRegistry \<Rightarrow> PrepareRequest \<Rightarrow> ByteView exec" where
  "prepare_with_cancellation providers req =
     bindE check (\<lambda>_.
     bindE (liftE (resolve providers (transform_implementation (req_transform req)))) (\<lambda>p.
     bindE (provider_validate p req) (\<lambda>strategy.
     bindE check (\<lambda>_.
     case strategy of
       ReuseSource \<Rightarrow>
         bindE (liftE (validate_reused_output req)) (\<lambda>_.
         bindE check (\<lambda>_.
           retE (req_source req)))
     | Allocate output_bytes scratch_bytes \<Rightarrow>
         bindE (liftE (validate_allocated_storage req output_bytes scratch_bytes)) (\<lambda>lens.
         bindE check (\<lambda>_.
         bindE (provider_prepare_allocated p req (fst lens) (snd lens)) (\<lambda>output.
         bindE check (\<lambda>_.
         bindE (liftE (ensure (length output = fst lens) Integrity)) (\<lambda>_.
           from_boxed output)))))))))"

text \<open>\<open>CancellationToken::new()\<close>: a private token that nothing cancels.\<close>

definition with_new_token :: "'a exec \<Rightarrow> 'a exec" where
  "with_new_token m e = (case m (e\<lparr>polls_left := None\<rparr>) of
     Inl c \<Rightarrow> Inl c | Inr (x, e') \<Rightarrow> Inr (x, e'\<lparr>polls_left := polls_left e\<rparr>))"

definition engine_prepare :: "ProviderRegistry \<Rightarrow> PrepareRequest \<Rightarrow> ByteView exec" where
  "engine_prepare providers req = with_new_token (prepare_with_cancellation providers req)"

definition chain_request :: "PlannedTransform \<Rightarrow> nat list \<Rightarrow> ByteView \<Rightarrow> PrepareRequest" where
  "chain_request planned shape current =
     with_expected_scratch_bytes
       (PrepareRequest_new (planned_transform planned) shape current (output_size planned))
       (transform_scratch planned)"

definition prepare_chain_with_cancellation ::
    "ProviderRegistry \<Rightarrow> PlannedTransform list \<Rightarrow> nat list \<Rightarrow> ByteView \<Rightarrow> ByteView exec" where
  "prepare_chain_with_cancellation providers transforms shape source =
     bindE (foldE (\<lambda>planned current.
         bindE check (\<lambda>_. prepare_with_cancellation providers (chain_request planned shape current)))
       transforms source) (\<lambda>current.
     bindE check (\<lambda>_. retE current))"

definition prepare_chain ::
    "ProviderRegistry \<Rightarrow> PlannedTransform list \<Rightarrow> nat list \<Rightarrow> ByteView \<Rightarrow> ByteView exec" where
  "prepare_chain providers transforms shape source =
     with_new_token (prepare_chain_with_cancellation providers transforms shape source)"

section \<open>Scalar conversions\<close>

record half =
  f16_from_f32 :: "32 word \<Rightarrow> 16 word"
  f16_to_f32 :: "16 word \<Rightarrow> 32 word"
  bf16_from_f32 :: "32 word \<Rightarrow> 16 word"
  bf16_to_f32 :: "16 word \<Rightarrow> 32 word"

text \<open>Little-endian bytes of words.\<close>

definition u16_le :: "16 word \<Rightarrow> u8 list" where
  "u16_le x = [ucast x, ucast (drop_bit 8 x)]"

definition u32_le :: "32 word \<Rightarrow> u8 list" where
  "u32_le x = [ucast x, ucast (drop_bit 8 x), ucast (drop_bit 16 x), ucast (drop_bit 24 x)]"

definition u16_of_le :: "u8 \<Rightarrow> u8 \<Rightarrow> 16 word" where
  "u16_of_le a b = ucast a + push_bit 8 (ucast b)"

definition u32_of_le :: "u8 \<Rightarrow> u8 \<Rightarrow> u8 \<Rightarrow> u8 \<Rightarrow> 32 word" where
  "u32_of_le a b c d =
     ucast a + push_bit 8 (ucast b) + push_bit 16 (ucast c) + push_bit 24 (ucast d)"

text \<open>
  \<open>f32::from(u8)\<close>, exact: the exponent is the position of the leading bit and the fraction
  the bits below it.
\<close>

definition leading_bit :: "nat \<Rightarrow> nat" where
  "leading_bit n = (if n < 2 then 0 else if n < 4 then 1 else if n < 8 then 2 else if n < 16 then 3
     else if n < 32 then 4 else if n < 64 then 5 else if n < 128 then 6 else 7)"

definition f32_from_u8 :: "u8 \<Rightarrow> 32 word" where
  "f32_from_u8 x = (let n = unat x; k = leading_bit n in
     if n = 0 then 0 else of_nat ((127 + k) * 2 ^ 23 + (n - 2 ^ k) * 2 ^ (23 - k)))"

definition read_u16 :: "u8 list \<Rightarrow> 16 word result" where
  "read_u16 bytes = (case bytes of [low, high] \<Rightarrow> Inr (u16_of_le low high) | _ \<Rightarrow> Inl Integrity)"

definition read_f32 :: "u8 list \<Rightarrow> 32 word result" where
  "read_f32 bytes = (case bytes of [a, b, c, d] \<Rightarrow> Inr (u32_of_le a b c d) | _ \<Rightarrow> Inl Integrity)"

definition read_u16_exact :: "u8 list \<Rightarrow> 16 word" where
  "read_u16_exact bytes = u16_of_le (bytes ! 0) (bytes ! 1)"

definition read_f32_exact :: "u8 list \<Rightarrow> 32 word" where
  "read_f32_exact bytes = u32_of_le (bytes ! 0) (bytes ! 1) (bytes ! 2) (bytes ! 3)"

definition write_u16 :: "u8 list \<Rightarrow> 16 word \<Rightarrow> u8 list result" where
  "write_u16 output value = (case output of [_, _] \<Rightarrow> Inr (u16_le value) | _ \<Rightarrow> Inl Integrity)"

definition write_f32 :: "u8 list \<Rightarrow> 32 word \<Rightarrow> u8 list result" where
  "write_f32 output value = (case output of [_, _, _, _] \<Rightarrow> Inr (u32_le value) | _ \<Rightarrow> Inl Integrity)"

section \<open>Blocked casts\<close>

definition CAST_BLOCK_ELEMENTS :: nat where
  "CAST_BLOCK_ELEMENTS = 16 * 1024"

definition is_builtin_float :: "DType \<Rightarrow> bool" where
  "is_builtin_float dt = (dt \<in> {F32, F16, Bf16})"

definition float_width :: "DType \<Rightarrow> nat result" where
  "float_width dt = (case dt of U8 \<Rightarrow> Inr 1 | F32 \<Rightarrow> Inr 4 | F16 \<Rightarrow> Inr 2 | Bf16 \<Rightarrow> Inr 2
     | _ \<Rightarrow> Inl Unsupported)"

definition validate_float_cast :: "DType \<Rightarrow> u8 list \<Rightarrow> DType \<Rightarrow> nat \<Rightarrow> (nat \<times> nat \<times> nat) result" where
  "validate_float_cast source_dtype source target_dtype output_len =
     bindR (float_width source_dtype) (\<lambda>source_width.
     bindR (float_width target_dtype) (\<lambda>target_width.
     bindR (ensure (length source mod source_width = 0) Integrity) (\<lambda>_.
     let elements = length source div source_width in
     bindR (ok_or ResourceLimit (checked_mul elements target_width)) (\<lambda>expected_output.
     bindR (ensure (output_len = expected_output) Integrity) (\<lambda>_.
       Inr (source_width, target_width, elements))))))"

text \<open>\<open>(0..n).step_by(step)\<close> and \<open>slice::chunks_exact\<close>.\<close>

definition step_by :: "nat \<Rightarrow> nat \<Rightarrow> nat list" where
  "step_by n step = map (\<lambda>k. k * step) [0..<(n + (step - 1)) div step]"

definition chunks_exact :: "nat \<Rightarrow> 'a list \<Rightarrow> 'a list list" where
  "chunks_exact w xs = map (chunk w xs) [0..<length xs div w]"

text \<open>The checked byte range of the block that starts at an element.\<close>

definition block_range :: "nat \<Rightarrow> nat \<Rightarrow> nat \<Rightarrow> (nat \<times> nat) result" where
  "block_range element_start block_elements element_width =
     bindR (ok_or ResourceLimit (checked_mul element_start element_width)) (\<lambda>start.
     bindR (ok_or ResourceLimit (Option.bind (checked_mul block_elements element_width)
              (\<lambda>length. checked_add start length))) (\<lambda>end.
       Inr (start, end)))"

text \<open>The arms of \<open>cast_float_block\<close>: element widths and one iteration of the zipped loop.\<close>

definition block_arm ::
    "half \<Rightarrow> DType \<Rightarrow> DType \<Rightarrow> (nat \<times> nat \<times> (u8 list \<Rightarrow> u8 list \<Rightarrow> u8 list result)) option" where
  "block_arm h source_dtype target_dtype = (case (source_dtype, target_dtype) of
     (U8, F32) \<Rightarrow> Some (1, 4, \<lambda>s t. write_f32 t (f32_from_u8 (s ! 0)))
   | (F32, F16) \<Rightarrow> Some (4, 2, \<lambda>s t. bindR (read_f32 s) (\<lambda>x. write_u16 t (f16_from_f32 h x)))
   | (F32, Bf16) \<Rightarrow> Some (4, 2, \<lambda>s t. bindR (read_f32 s) (\<lambda>x. write_u16 t (bf16_from_f32 h x)))
   | (F16, F32) \<Rightarrow> Some (2, 4, \<lambda>s t. bindR (read_u16 s) (\<lambda>x. write_f32 t (f16_to_f32 h x)))
   | (Bf16, F32) \<Rightarrow> Some (2, 4, \<lambda>s t. bindR (read_u16 s) (\<lambda>x. write_f32 t (bf16_to_f32 h x)))
   | (F16, Bf16) \<Rightarrow> Some (2, 2, \<lambda>s t. bindR (read_u16 s) (\<lambda>x.
       write_u16 t (bf16_from_f32 h (f16_to_f32 h x))))
   | (Bf16, F16) \<Rightarrow> Some (2, 2, \<lambda>s t. bindR (read_u16 s) (\<lambda>x.
       write_u16 t (f16_from_f32 h (bf16_to_f32 h x))))
   | _ \<Rightarrow> None)"

definition cast_float_block :: "half \<Rightarrow> DType \<Rightarrow> u8 list \<Rightarrow> DType \<Rightarrow> u8 list \<Rightarrow> u8 list result" where
  "cast_float_block h source_dtype source target_dtype output =
     (case block_arm h source_dtype target_dtype of None \<Rightarrow> Inl Unsupported
      | Some (source_width, target_width, step) \<Rightarrow>
        bindR (mapR (\<lambda>p. step (fst p) (snd p))
                 (zip (chunks_exact source_width source) (chunks_exact target_width output))) (\<lambda>written.
          Inr (put_range output 0 (concat written))))"

definition cast_float_bytes :: "half \<Rightarrow> DType \<Rightarrow> u8 list \<Rightarrow> DType \<Rightarrow> u8 list \<Rightarrow> u8 list exec" where
  "cast_float_bytes h source_dtype source target_dtype output =
     bindE (liftE (validate_float_cast source_dtype source target_dtype (length output))) (\<lambda>v.
     let source_width = fst v; target_width = fst (snd v); elements = snd (snd v) in
     bindE (foldE (\<lambda>element_start output.
         bindE check (\<lambda>_.
         let block_elements = min CAST_BLOCK_ELEMENTS (elements - element_start) in
         bindE (liftE (block_range element_start block_elements source_width)) (\<lambda>source_range.
         bindE (liftE (block_range element_start block_elements target_width)) (\<lambda>target_range.
         bindE (liftE (ok_or Integrity (get_range source (fst source_range) (snd source_range)))) (\<lambda>source_block.
         bindE (liftE (ok_or Integrity (get_range output (fst target_range) (snd target_range)))) (\<lambda>output_block.
         bindE (liftE (cast_float_block h source_dtype source_block target_dtype output_block)) (\<lambda>output_block.
           retE (put_range output (fst target_range) output_block))))))))
       (step_by elements CAST_BLOCK_ELEMENTS) output) (\<lambda>output.
     bindE check (\<lambda>_. retE output)))"

definition collect_cast_blocks ::
    "u8 list \<Rightarrow> nat \<Rightarrow> nat \<Rightarrow> nat \<Rightarrow> (u8 list \<Rightarrow> u8 list) \<Rightarrow> u8 list exec" where
  "collect_cast_blocks source source_width elements output_len convert =
     bindE (try_reserve elements) (\<lambda>_.
     bindE check (\<lambda>_.
     bindE (foldE (\<lambda>element_start output.
         bindE check (\<lambda>_.
         let block_elements = min CAST_BLOCK_ELEMENTS (elements - element_start) in
         bindE (liftE (block_range element_start block_elements source_width)) (\<lambda>source_range.
         bindE (liftE (ok_or Integrity (get_range source (fst source_range) (snd source_range)))) (\<lambda>source_block.
           retE (output @ map convert (chunks_exact source_width source_block))))))
       (step_by elements CAST_BLOCK_ELEMENTS) []) (\<lambda>output.
     bindE check (\<lambda>_.
     bindE (liftE (ensure (length (concat output) = output_len) Integrity)) (\<lambda>_.
       retE (concat output))))))"

text \<open>The arms of \<open>cast_float_bytes_owned\<close>: the conversion of one element.\<close>

definition owned_arm :: "half \<Rightarrow> DType \<Rightarrow> DType \<Rightarrow> (u8 list \<Rightarrow> u8 list) option" where
  "owned_arm h source_dtype target_dtype = (case (source_dtype, target_dtype) of
     (U8, F32) \<Rightarrow> Some (\<lambda>s. u32_le (f32_from_u8 (s ! 0)))
   | (F32, F16) \<Rightarrow> Some (\<lambda>s. u16_le (f16_from_f32 h (read_f32_exact s)))
   | (F32, Bf16) \<Rightarrow> Some (\<lambda>s. u16_le (bf16_from_f32 h (read_f32_exact s)))
   | (F16, F32) \<Rightarrow> Some (\<lambda>s. u32_le (f16_to_f32 h (read_u16_exact s)))
   | (Bf16, F32) \<Rightarrow> Some (\<lambda>s. u32_le (bf16_to_f32 h (read_u16_exact s)))
   | (F16, Bf16) \<Rightarrow> Some (\<lambda>s. u16_le (bf16_from_f32 h (f16_to_f32 h (read_u16_exact s))))
   | (Bf16, F16) \<Rightarrow> Some (\<lambda>s. u16_le (f16_from_f32 h (bf16_to_f32 h (read_u16_exact s))))
   | _ \<Rightarrow> None)"

definition cast_float_bytes_owned :: "half \<Rightarrow> DType \<Rightarrow> u8 list \<Rightarrow> DType \<Rightarrow> nat \<Rightarrow> u8 list exec" where
  "cast_float_bytes_owned h source_dtype source target_dtype output_len =
     bindE (liftE (validate_float_cast source_dtype source target_dtype output_len)) (\<lambda>v.
     case owned_arm h source_dtype target_dtype of
       None \<Rightarrow> liftE (Inl Unsupported)
     | Some convert \<Rightarrow> collect_cast_blocks source (fst v) (snd (snd v)) output_len convert)"

section \<open>The built-in contiguous provider\<close>

definition builtin_contiguous_implementation :: "ImplementationId result" where
  "builtin_contiguous_implementation =
     bindR (StableName_parse ''model-weights'') (\<lambda>provider.
     bindR (StableName_parse ''contiguous-cast'') (\<lambda>operation.
       Inr (ImplementationId_new provider operation 1)))"

definition contiguous_validate :: "ImplementationId \<Rightarrow> PrepareRequest \<Rightarrow> OutputStrategy exec" where
  "contiguous_validate implementation req =
     (let source = transform_source (req_transform req); target = transform_target (req_transform req) in
     bindE check (\<lambda>_.
     bindE (liftE (ensure (transform_implementation (req_transform req) = implementation) Unsupported)) (\<lambda>_.
     bindE (liftE (ensure (\<not> (\<not> is_contiguous (layout source) \<or> \<not> is_contiguous (layout target))) Unsupported)) (\<lambda>_.
     bindE check (\<lambda>_.
     bindE (liftE (DType_byte_len (dtype source) (req_shape req))) (\<lambda>source_bytes.
     bindE (liftE (u64_try_from (view_len (req_source req)))) (\<lambda>actual_source_bytes.
     bindE (liftE (ensure (actual_source_bytes = source_bytes) Integrity)) (\<lambda>_.
     bindE check (\<lambda>_.
     bindE (liftE (DType_byte_len (dtype target) (req_shape req))) (\<lambda>target_bytes.
     bindE (liftE (ensure (expected_output_bytes req = target_bytes) Integrity)) (\<lambda>_.
     if dtype source = dtype target then retE ReuseSource
     else if is_builtin_float (dtype source) \<and> is_builtin_float (dtype target)
          \<or> dtype source = U8 \<and> dtype target = F32 then retE (Allocate target_bytes 0)
     else liftE (Inl Unsupported))))))))))))"

definition contiguous_prepare_into ::
    "half \<Rightarrow> PrepareRequest \<Rightarrow> u8 list \<Rightarrow> u8 list \<Rightarrow> u8 list exec" where
  "contiguous_prepare_into h req output scratch =
     bindE check (\<lambda>_.
     bindE (liftE (usize_try_from (expected_output_bytes req))) (\<lambda>expected_len.
     bindE (liftE (ensure (length output = expected_len) Integrity)) (\<lambda>_.
     bindE (liftE (ensure (\<not> (scratch \<noteq> [] \<or> expected_scratch_bytes req \<noteq> 0)) Integrity)) (\<lambda>_.
       cast_float_bytes h (dtype (transform_source (req_transform req))) (as_slice (req_source req))
         (dtype (transform_target (req_transform req))) output))))"

definition contiguous_prepare_allocated ::
    "half \<Rightarrow> PrepareRequest \<Rightarrow> nat \<Rightarrow> nat \<Rightarrow> u8 list exec" where
  "contiguous_prepare_allocated h req output_len scratch_len =
     bindE check (\<lambda>_.
     bindE (liftE (usize_try_from (expected_output_bytes req))) (\<lambda>expected_len.
     bindE (liftE (ensure (output_len = expected_len) Integrity)) (\<lambda>_.
     bindE (liftE (ensure (\<not> (scratch_len \<noteq> 0 \<or> expected_scratch_bytes req \<noteq> 0)) Integrity)) (\<lambda>_.
       cast_float_bytes_owned h (dtype (transform_source (req_transform req))) (as_slice (req_source req))
         (dtype (transform_target (req_transform req))) output_len))))"

definition ContiguousProvider_new :: "half \<Rightarrow> PreparationProvider result" where
  "ContiguousProvider_new h = bindR builtin_contiguous_implementation (\<lambda>implementation.
     Inr \<lparr>provider_implementation = implementation,
          provider_validate = contiguous_validate implementation,
          provider_prepare_into = contiguous_prepare_into h,
          provider_prepare_allocated = contiguous_prepare_allocated h\<rparr>)"

definition registry_with_builtins :: "half \<Rightarrow> ProviderRegistry result" where
  "registry_with_builtins h =
     bindR (ContiguousProvider_new h) (\<lambda>p. register_shared p registry_new)"

end
