(* ===== verification/MW_Casts.thy ===== *)
theory MW_Casts
  imports MW_Prepare
begin

text \<open>
  The two implementations of the built-in casts, in place and appending, both compute the
  element-wise conversion of the source, for every block structure.
\<close>

section \<open>The specification of a cast\<close>

definition cast_spec :: "nat \<Rightarrow> (u8 list \<Rightarrow> u8 list) \<Rightarrow> u8 list \<Rightarrow> u8 list" where
  "cast_spec w f source = concat (map f (chunks_exact w source))"

lemma byte_lengths [simp]: "length (u16_le x) = 2" "length (u32_le y) = 4"
  by (simp_all add: u16_le_def u32_le_def)

lemma length_two: "length xs = 2 \<longleftrightarrow> (\<exists>a b. xs = [a, b])"
  by (auto simp: eval_nat_numeral length_Suc_conv)

lemma length_four: "length xs = 4 \<longleftrightarrow> (\<exists>a b c d. xs = [a, b, c, d])"
  by (auto simp: eval_nat_numeral length_Suc_conv)

lemma read_exact:
  "length s = 2 \<Longrightarrow> read_u16 s = Inr (read_u16_exact s)"
  "length s = 4 \<Longrightarrow> read_f32 s = Inr (read_f32_exact s)"
  by (auto simp: length_two length_four read_u16_def read_u16_exact_def read_f32_def read_f32_exact_def)

lemma write_exact:
  "length t = 2 \<Longrightarrow> write_u16 t x = Inr (u16_le x)"
  "length t = 4 \<Longrightarrow> write_f32 t y = Inr (u32_le y)"
  by (auto simp: length_two length_four write_u16_def write_f32_def)

text \<open>The two tables of conversions agree.\<close>

lemma owned_arm_pairs:
  "owned_arm h s t = Some f \<Longrightarrow>
    (s, t) \<in> {(U8, F32), (F32, F16), (F32, Bf16), (F16, F32), (Bf16, F32), (F16, Bf16), (Bf16, F16)}"
  by (cases s; cases t; simp add: owned_arm_def)

lemma arms_agree:
  assumes "owned_arm h s t = Some f"
  shows "\<exists>sw tw step. block_arm h s t = Some (sw, tw, step) \<and> float_width s = Inr sw \<and> float_width t = Inr tw
    \<and> 0 < sw \<and> 0 < tw \<and> sw = bits s div 8 \<and> tw = bits t div 8
    \<and> (\<forall>a b. length a = sw \<longrightarrow> length b = tw \<longrightarrow> step a b = Inr (f a)) \<and> (\<forall>a. length (f a) = tw)"
  using assms owned_arm_pairs[OF assms]
  by (auto simp: owned_arm_def block_arm_def float_width_def read_exact write_exact)

lemma owned_arm_supported:
  "is_builtin_float s \<and> is_builtin_float t \<or> s = U8 \<and> t = F32 \<Longrightarrow> s \<noteq> t \<Longrightarrow> \<exists>f. owned_arm h s t = Some f"
  by (auto simp: is_builtin_float_def owned_arm_def)

section \<open>Blocks\<close>

lemma chunk_of_block:
  assumes "i < m" and "(p + m) * w \<le> length xs"
  shows "chunk w (take (m * w) (drop (p * w) xs)) i = chunk w xs (p + i)"
proof -
  have "i * w + w \<le> m * w" using assms(1) by (rule mult_room)
  then show ?thesis
    by (simp add: chunk_def take_drop add.commute add_mult_distrib min_def)
qed

lemma chunks_exact_uniform: "length xs = n * w \<Longrightarrow> 0 < w \<Longrightarrow> chunks_exact w xs = map (chunk w xs) [0..<n]"
  by (simp add: chunks_exact_def)

lemma chunks_exact_block:
  assumes "(p + m) * w \<le> length xs" and "0 < w"
  shows "chunks_exact w (take (m * w) (drop (p * w) xs)) = map (chunk w xs) [p..<p + m]"
proof -
  have len: "length (take (m * w) (drop (p * w) xs)) = m * w" using assms(1) by (simp add: add_mult_distrib)
  have "map (chunk w (take (m * w) (drop (p * w) xs))) [0..<m] = map (chunk w xs) [p..<p + m]"
    by (rule nth_equalityI) (simp_all add: chunk_of_block[OF _ assms(1)])
  then show ?thesis using chunks_exact_uniform[OF len assms(2)] by simp
qed

lemma block_range_Inr:
  assumes "(p + m) * w < u64_bound"
  shows "block_range p m w = Inr (p * w, p * w + m * w)"
proof -
  have "p * w < u64_bound" "m * w < u64_bound" "p * w + m * w < u64_bound"
    using assms by (simp_all add: add_mult_distrib)
  then show ?thesis by (simp add: block_range_def checked_mul_def checked_add_def)
qed

lemma block_slice:
  "(p + m) * w \<le> length xs \<Longrightarrow>
     get_range xs (p * w) (p * w + m * w) = Some (take (m * w) (drop (p * w) xs))"
  by (simp add: get_range_def add_mult_distrib)

lemma length_cast_block: "(p + m) * w \<le> length xs \<Longrightarrow> length (take (m * w) (drop (p * w) xs)) = m * w"
  by (simp add: add_mult_distrib)

text \<open>The blocks of a loop over \<open>n\<close> elements: where each starts and what is done before it.\<close>

lemma step_by_blocks:
  assumes "0 < b"
  shows "k < length (step_by n b) \<Longrightarrow> step_by n b ! k = k * b \<and> k * b < n
      \<and> k * b + min b (n - k * b) = min (Suc k * b) n"
    and "min (length (step_by n b) * b) n = n"
proof -
  let ?K = "(n + (b - 1)) div b"
  have K: "n \<le> ?K * b" "k < ?K \<Longrightarrow> k * b < n" for k
  proof -
    have "n + (b - 1) < ?K * b + b" 
      using dividend_less_div_times[OF assms, of "n + (b - 1)"] by (simp add: add.commute)
    then show "n \<le> ?K * b" using assms by linarith
    show "k * b < n" if "k < ?K"
    proof -
      have "k * b + b \<le> ?K * b" using that by (rule mult_room)
      also have "\<dots> \<le> n + (b - 1)" by simp
      finally show ?thesis using assms by linarith
    qed
  qed
  show "min (length (step_by n b) * b) n = n" using K(1) by (simp add: step_by_def)
  assume "k < length (step_by n b)"
  then show "step_by n b ! k = k * b \<and> k * b < n \<and> k * b + min b (n - k * b) = min (Suc k * b) n"
    using K(2)[of k] by (simp add: step_by_def)
qed

section \<open>Appending casts\<close>

lemma collect_cast_blocks_delivers:
  assumes source: "length source = n * sw" "length source < usize_bound" and sw: "0 < sw"
    and f: "\<forall>a. length (f a) = tw"
  shows "delivers (collect_cast_blocks source sw n (n * tw) f) (\<lambda>r. r = cast_spec sw f source)"
proof -
  let ?B = CAST_BLOCK_ELEMENTS
  let ?I = "\<lambda>k out. out = map (\<lambda>i. f (chunk sw source i)) [0..<min (k * ?B) n]"
  let ?body = "\<lambda>p out. bindE check (\<lambda>_.
         let m = min ?B (n - p) in
         bindE (liftE (block_range p m sw)) (\<lambda>source_range.
         bindE (liftE (ok_or Integrity (get_range source (fst source_range) (snd source_range)))) (\<lambda>source_block.
           retE (out @ map f (chunks_exact sw source_block)))))"
  have B: "0 < ?B" by (simp add: CAST_BLOCK_ELEMENTS_def)
  have step: "delivers (?body (step_by n ?B ! k) out) (?I (Suc k))"
    if k: "k < length (step_by n ?B)" and I: "?I k out" for k out
  proof -
    let ?p = "k * ?B" let ?m = "min ?B (n - ?p)"
    note b = step_by_blocks(1)[OF B k]
    have "?p + ?m \<le> n" using b by simp
    then have room: "(?p + ?m) * sw \<le> length source" unfolding source(1) by (rule mult_le_mono1)
    have "(?p + ?m) * sw < u64_bound" using room source(2) by (simp add: usize_is_u64)
    then have range: "block_range ?p ?m sw = Inr (?p * sw, ?p * sw + ?m * sw)" by (rule block_range_Inr)
    have "[0..<min (Suc k * ?B) n] = [0..<min ?p n] @ [?p..<?p + ?m]"
      using b upt_add_eq_append[of 0 ?p ?m] by (simp add: min_absorb1)
    then have full: "?I (Suc k) (out @ map f (chunks_exact sw (take (?m * sw) (drop (?p * sw) source))))"
      unfolding chunks_exact_block[OF room sw] using I by simp
    have "delivers (retE (out @ map f (chunks_exact sw (take (?m * sw) (drop (?p * sw) source))))) (?I (Suc k))"
      by (rule delivers_retE, rule full)
    then show ?thesis
      using b range block_slice[OF room]
      by (simp add: Let_def delivers_bindE[OF delivers_check[of "\<lambda>_. True"]] del: retE_apply)
  qed
  let ?all = "map (\<lambda>i. f (chunk sw source i)) [0..<n]"
  have "delivers (foldE ?body (step_by n ?B) []) (?I (length (step_by n ?B)))"
    by (rule delivers_foldE[of ?I]) (use step in auto)
  then have loop: "delivers (foldE ?body (step_by n ?B) []) (\<lambda>out. out = ?all)"
    unfolding step_by_blocks(2)[OF B] .
  have all: "concat ?all = cast_spec sw f source"
    by (simp add: cast_spec_def chunks_exact_uniform[OF source(1) sw] comp_def)
  have "length (concat ?all) = n * tw"
    using length_concat_uniform[of ?all tw] f by simp
  then have final: "delivers (bindE (liftE (ensure (length (concat out) = n * tw) Integrity)) (\<lambda>_. retE (concat out)))
      (\<lambda>r. r = cast_spec sw f source)" if "out = ?all" for out
    unfolding that using all by (simp add: delivers_retE del: retE_apply)
  show ?thesis
    unfolding collect_cast_blocks_def
    by (rule delivers_bindE[OF delivers_try_reserve[of "\<lambda>_. True"]], simp)
      (rule delivers_bindE[OF delivers_check[of "\<lambda>_. True"]], simp,
       rule delivers_bindE[OF loop], rule delivers_bindE[OF delivers_check[of "\<lambda>_. True"]], simp, rule final)
qed


lemma validate_float_cast_Inr:
  assumes "float_width s = Inr sw" "float_width t = Inr tw" and "length source = n * sw" "0 < sw"
    and "n * tw < u64_bound"
  shows "validate_float_cast s source t (n * tw) = Inr (sw, tw, n)"
  using assms by (simp add: validate_float_cast_def checked_mul_def)

lemma cast_float_bytes_owned_delivers:
  assumes f: "owned_arm h s t = Some f"
    and source: "length source = n * (bits s div 8)" "length source < usize_bound"
    and fit: "n * (bits t div 8) < usize_bound"
  shows "delivers (cast_float_bytes_owned h s source t (n * (bits t div 8)))
    (\<lambda>r. r = cast_spec (bits s div 8) f source)"
proof -
  from arms_agree[OF f] have w: "float_width s = Inr (bits s div 8)" "float_width t = Inr (bits t div 8)"
    "0 < bits s div 8" "\<forall>a. length (f a) = bits t div 8" by auto
  have "n * (bits t div 8) < u64_bound" using fit by (simp add: usize_is_u64)
  from validate_float_cast_Inr[OF w(1,2) source(1) w(3) this]
  show ?thesis
    using collect_cast_blocks_delivers[OF source w(3,4)] f by (simp add: cast_float_bytes_owned_def)
qed

section \<open>Casts in place\<close>

lemma mapR_all: "(\<And>x. x \<in> set xs \<Longrightarrow> f x = Inr (g x)) \<Longrightarrow> mapR f xs = Inr (map g xs)"
  by (induction xs) simp_all

lemma cast_float_block_Inr:
  assumes f: "owned_arm h s t = Some f" and "length source = m * (bits s div 8)"
    and "length out = m * (bits t div 8)"
  shows "cast_float_block h s source t out = Inr (cast_spec (bits s div 8) f source)"
proof -
  let ?sw = "bits s div 8" let ?tw = "bits t div 8"
  from arms_agree[OF f] obtain step where arm: "block_arm h s t = Some (?sw, ?tw, step)"
    and step: "\<forall>a b. length a = ?sw \<longrightarrow> length b = ?tw \<longrightarrow> step a b = Inr (f a)"
    and f: "\<forall>a. length (f a) = ?tw" by auto
  have chunks: "chunks_exact ?sw source = map (chunk ?sw source) [0..<m]"
    "chunks_exact ?tw out = map (chunk ?tw out) [0..<m]"
    using chunks_exact_uniform[OF assms(2) bits_pos] chunks_exact_uniform[OF assms(3) bits_pos] .
  have "mapR (\<lambda>p. step (fst p) (snd p)) (zip (chunks_exact ?sw source) (chunks_exact ?tw out)) =
      Inr (map (\<lambda>p. f (fst p)) (zip (chunks_exact ?sw source) (chunks_exact ?tw out)))"
    unfolding chunks zip_map_map
    using step length_chunk[OF chunk_inside[OF _ assms(2)]] length_chunk[OF chunk_inside[OF _ assms(3)]]
    by (intro mapR_all) (auto simp: zip_same)
  also have "map (\<lambda>p. f (fst p)) (zip (chunks_exact ?sw source) (chunks_exact ?tw out)) =
      map f (chunks_exact ?sw source)"
    unfolding chunks by (rule nth_equalityI) simp_all
  finally have written: "mapR (\<lambda>p. step (fst p) (snd p)) (zip (chunks_exact ?sw source) (chunks_exact ?tw out)) =
      Inr (map f (chunks_exact ?sw source))" .
  have "length (concat (map f (chunks_exact ?sw source))) = m * ?tw"
    using length_concat_uniform[of "map f (chunks_exact ?sw source)" ?tw] f chunks by simp
  then show ?thesis
    using arm written assms(3) by (simp add: cast_float_block_def cast_spec_def put_range_def)
qed

lemma chunk_cast_spec:
  assumes "length source = m * sw" "0 < sw" and "\<forall>a. length (f a) = tw" and "i < m"
  shows "chunk tw (cast_spec sw f source) i = f (chunk sw source i)"
  using chunk_concat[of "map f (chunks_exact sw source)" tw i] assms chunks_exact_uniform[OF assms(1,2)]
  by (simp add: cast_spec_def)

lemma length_cast_spec:
  "length source = m * sw \<Longrightarrow> 0 < sw \<Longrightarrow> \<forall>a. length (f a) = tw \<Longrightarrow> length (cast_spec sw f source) = m * tw"
  using length_concat_uniform[of "map f (chunks_exact sw source)" tw] chunks_exact_uniform[of source m sw]
  by (simp add: cast_spec_def)

text \<open>One block: the ranges are in bounds and only the elements of the block change.\<close>

lemma cast_block_in_place:
  assumes f: "owned_arm h s t = Some f"
    and source: "length source = n * (bits s div 8)" "length source < usize_bound"
    and out: "length out = n * (bits t div 8)" "length out < usize_bound"
    and pm: "p + m \<le> n" and r: "length r = n * (bits t div 8)"
  shows "\<exists>block. block_range p m (bits s div 8) = Inr (p * (bits s div 8), p * (bits s div 8) + m * (bits s div 8))
    \<and> block_range p m (bits t div 8) = Inr (p * (bits t div 8), p * (bits t div 8) + m * (bits t div 8))
    \<and> get_range source (p * (bits s div 8)) (p * (bits s div 8) + m * (bits s div 8)) =
        Some (take (m * (bits s div 8)) (drop (p * (bits s div 8)) source))
    \<and> get_range r (p * (bits t div 8)) (p * (bits t div 8) + m * (bits t div 8)) =
        Some (take (m * (bits t div 8)) (drop (p * (bits t div 8)) r))
    \<and> cast_float_block h s (take (m * (bits s div 8)) (drop (p * (bits s div 8)) source)) t
        (take (m * (bits t div 8)) (drop (p * (bits t div 8)) r)) = Inr block
    \<and> length (put_range r (p * (bits t div 8)) block) = n * (bits t div 8)
    \<and> (\<forall>i < p + m. chunk (bits t div 8) (put_range r (p * (bits t div 8)) block) i =
        (if p \<le> i then f (chunk (bits s div 8) source i) else chunk (bits t div 8) r i))"
proof -
  let ?sw = "bits s div 8" let ?tw = "bits t div 8"
  have tw: "\<forall>a. length (f a) = ?tw" using arms_agree[OF f] by auto
  let ?src = "take (m * ?sw) (drop (p * ?sw) source)" let ?tgt = "take (m * ?tw) (drop (p * ?tw) r)"
  let ?block = "cast_spec ?sw f ?src"
  have room: "(p + m) * ?sw \<le> length source" "(p + m) * ?tw \<le> length r"
    unfolding source(1) r using pm by (auto intro: mult_le_mono1)
  have "(p + m) * ?sw < u64_bound" "(p + m) * ?tw < u64_bound"
    using room source(2) out r unfolding usize_is_u64 by linarith+
  note ranges = this[THEN block_range_Inr]
  have lens: "length ?src = m * ?sw" "length ?tgt = m * ?tw" using room[THEN length_cast_block] by blast+
  have len: "length ?block = m * ?tw" using lens(1) bits_pos tw by (rule length_cast_spec)
  have new: "chunk ?tw (put_range r (p * ?tw) ?block) i =
      (if p \<le> i then f (chunk ?sw source i) else chunk ?tw r i)" if i: "i < p + m" for i
  proof -
    have "(i + 1) * ?tw \<le> length r" using room(2) mult_room[OF i, of ?tw] by (simp add: add_mult_distrib)
    then have "chunk ?tw (put_range r (p * ?tw) ?block) i =
        (if p \<le> i \<and> i < p + m then chunk ?tw ?block (i - p) else chunk ?tw r i)"
      using len room(2) by (intro chunk_put_run)
    moreover have "chunk ?tw ?block (i - p) = f (chunk ?sw source i)" if "p \<le> i"
      using chunk_cast_spec[OF lens(1) bits_pos tw, of "i - p"] chunk_of_block[OF _ room(1), of "i - p"] i that
      by simp
    ultimately show ?thesis using i by simp
  qed
  have "length (put_range r (p * ?tw) ?block) = n * ?tw" using r len room(2) by (simp add: add_mult_distrib)
  with ranges block_slice[OF room(1)] block_slice[OF room(2)] cast_float_block_Inr[OF f lens] new
  show ?thesis by blast
qed

lemma cast_float_bytes_delivers:
  assumes f: "owned_arm h s t = Some f"
    and source: "length source = n * (bits s div 8)" "length source < usize_bound"
    and out: "length out = n * (bits t div 8)" "length out < usize_bound"
  shows "delivers (cast_float_bytes h s source t out) (\<lambda>r. r = cast_spec (bits s div 8) f source)"
proof -
  let ?B = CAST_BLOCK_ELEMENTS let ?sw = "bits s div 8" let ?tw = "bits t div 8"
  from arms_agree[OF f] have w: "float_width s = Inr ?sw" "float_width t = Inr ?tw"
    "\<forall>a. length (f a) = ?tw" by auto
  let ?I = "\<lambda>k r. length r = n * ?tw \<and> (\<forall>i < min (k * ?B) n. chunk ?tw r i = f (chunk ?sw source i))"
  let ?body = "\<lambda>p out. bindE check (\<lambda>_.
         let m = min ?B (n - p) in
         bindE (liftE (block_range p m ?sw)) (\<lambda>source_range.
         bindE (liftE (block_range p m ?tw)) (\<lambda>target_range.
         bindE (liftE (ok_or Integrity (get_range source (fst source_range) (snd source_range)))) (\<lambda>source_block.
         bindE (liftE (ok_or Integrity (get_range out (fst target_range) (snd target_range)))) (\<lambda>output_block.
         bindE (liftE (cast_float_block h s source_block t output_block)) (\<lambda>output_block.
           retE (put_range out (fst target_range) output_block)))))))"
  have B: "0 < ?B" by (simp add: CAST_BLOCK_ELEMENTS_def)
  have step: "delivers (?body (step_by n ?B ! k) r) (?I (Suc k))"
    if k: "k < length (step_by n ?B)" and I: "?I k r" for k r
  proof -
    let ?p = "k * ?B" let ?m = "min ?B (n - ?p)"
    note b = step_by_blocks(1)[OF B k]
    have pm: "?p + ?m \<le> n" using b by simp
    have r: "length r = n * ?tw" using I by blast
    from cast_block_in_place[OF f source out pm r] obtain block where
      run: "block_range ?p ?m ?sw = Inr (?p * ?sw, ?p * ?sw + ?m * ?sw)"
        "block_range ?p ?m ?tw = Inr (?p * ?tw, ?p * ?tw + ?m * ?tw)"
        "get_range source (?p * ?sw) (?p * ?sw + ?m * ?sw) = Some (take (?m * ?sw) (drop (?p * ?sw) source))"
        "get_range r (?p * ?tw) (?p * ?tw + ?m * ?tw) = Some (take (?m * ?tw) (drop (?p * ?tw) r))"
        "cast_float_block h s (take (?m * ?sw) (drop (?p * ?sw) source)) t (take (?m * ?tw) (drop (?p * ?tw) r)) = Inr block"
      and len: "length (put_range r (?p * ?tw) block) = n * ?tw"
      and new: "\<forall>i < ?p + ?m. chunk ?tw (put_range r (?p * ?tw) block) i =
          (if ?p \<le> i then f (chunk ?sw source i) else chunk ?tw r i)" by blast
    let ?r = "put_range r (?p * ?tw) block"
    have "chunk ?tw ?r i = f (chunk ?sw source i)" if i: "i < min (Suc k * ?B) n" for i
    proof (cases "?p \<le> i")
      case True
      then show ?thesis using new i b by auto
    next
      case False
      then have "i < min ?p n" using b by auto
      then show ?thesis using I new i b False by auto
    qed
    then have full: "?I (Suc k) ?r" using len by blast
    have "delivers (retE ?r) (?I (Suc k))" by (rule delivers_retE, rule full)
    then show ?thesis
      using b run
      by (simp add: Let_def delivers_bindE[OF delivers_check[of "\<lambda>_. True"]] del: retE_apply)
  qed
  have loop: "delivers (foldE ?body (step_by n ?B) out) (?I (length (step_by n ?B)))"
    by (rule delivers_foldE[of ?I]) (use step out in auto)
  have final: "delivers (bindE check (\<lambda>_. retE r)) (\<lambda>r. r = cast_spec ?sw f source)"
    if "?I (length (step_by n ?B)) r" for r
  proof -
    have "r = cast_spec ?sw f source"
    proof (rule chunks_eqI)
      show "length r = n * ?tw" using that by simp
      show "length (cast_spec ?sw f source) = n * ?tw"
        using source(1) bits_pos w(3) by (rule length_cast_spec)
      show "chunk ?tw r i = chunk ?tw (cast_spec ?sw f source) i" if "i < n" for i
        using \<open>?I (length (step_by n ?B)) r\<close> that chunk_cast_spec[OF source(1) bits_pos w(3) that]
        unfolding step_by_blocks(2)[OF B] by simp
    qed
    then show ?thesis by (intro delivers_bindE[OF delivers_check[of "\<lambda>_. True"]] delivers_retE) simp_all
  qed
  have "n * ?tw < u64_bound" using out by (simp add: usize_is_u64)
  from validate_float_cast_Inr[OF w(1,2) source(1) bits_pos this] out(1)
  show ?thesis
    unfolding cast_float_bytes_def using delivers_bindE[OF loop final] by (simp add: Let_def)
qed

end
