(* ===== verification/MW_Engine.thy ===== *)
theory MW_Engine
  imports MW_Casts
begin

text \<open>
  The preparation engine. First what it guarantees whatever a registered provider does, then
  the contract of a well-behaved provider as a locale, with the engine's behaviour proved once
  in it, and its interpretation on the built-in contiguous provider.
\<close>

section \<open>The registry\<close>

lemma register_shared_Inr:
  "register_shared p registry = Inr registry' \<longleftrightarrow>
     map_of registry (provider_implementation p) = None \<and> registry' = (provider_implementation p, p) # registry"
  by (auto simp: register_shared_def bindR_Inr Let_def)

lemma resolve_registered:
  assumes "register_shared p registry = Inr registry'"
  shows "resolve registry' i = (if i = provider_implementation p then Inr p else resolve registry i)"
  using assms by (auto simp: register_shared_Inr resolve_def)

lemma register_duplicate:
  assumes "register_shared p registry = Inr registry'"
  shows "provider_implementation q = provider_implementation p \<longrightarrow> register_shared q registry' = Inl InvalidFormat"
  using assms by (auto simp: register_shared_Inr) (simp add: register_shared_def)

section \<open>Guarantees against any provider\<close>

lemma from_boxed_Inr: "from_boxed bytes e = Inr (v, e') \<Longrightarrow> as_slice v = bytes \<and> view_len v = length bytes"
  by (auto simp: from_boxed_def bindE_Inr fresh_owner_def as_slice_def view_len_def)

lemma check_Inr: "check e = Inr (u, e') \<Longrightarrow> \<not> is_cancelled e"
  by (auto simp: check_def split: if_splits)

lemma prepare_result:
  assumes "prepare_with_cancellation providers req e = Inr (v, e')"
  shows "view_len v = expected_output_bytes req
    \<and> (v = req_source req \<and> expected_scratch_bytes req = 0
       \<or> (\<exists>p bytes e1 e2. resolve providers (transform_implementation (req_transform req)) = Inr p
          \<and> provider_prepare_allocated p req (expected_output_bytes req) (expected_scratch_bytes req) e1 = Inr (bytes, e2)
          \<and> as_slice v = bytes))"
proof -
  from assms obtain p strategy e1 where p: "resolve providers (transform_implementation (req_transform req)) = Inr p"
    and rest: "(case strategy of
       ReuseSource \<Rightarrow> bindE (liftE (validate_reused_output req)) (\<lambda>_. bindE check (\<lambda>_. retE (req_source req)))
     | Allocate output_bytes scratch_bytes \<Rightarrow>
         bindE (liftE (validate_allocated_storage req output_bytes scratch_bytes)) (\<lambda>lens.
         bindE check (\<lambda>_.
         bindE (provider_prepare_allocated p req (fst lens) (snd lens)) (\<lambda>output.
         bindE check (\<lambda>_.
         bindE (liftE (ensure (length output = fst lens) Integrity)) (\<lambda>_. from_boxed output)))))) e1 = Inr (v, e')"
    unfolding prepare_with_cancellation_def by (auto simp: bindE_Inr liftE_Inr)
  show ?thesis
  proof (cases strategy)
    case ReuseSource
    with rest show ?thesis
      by (auto simp: bindE_Inr liftE_Inr validate_reused_output_def bindR_Inr try_from_Inr)
  next
    case (Allocate ob sb)
    with rest obtain bytes e2 e3 e4 where lens: "validate_allocated_storage req ob sb = Inr (ob, sb)"
        "ob = expected_output_bytes req" "sb = expected_scratch_bytes req"
      and run: "provider_prepare_allocated p req ob sb e2 = Inr (bytes, e3)" "length bytes = ob"
      and boxed: "from_boxed bytes e4 = Inr (v, e')"
      by (auto simp: bindE_Inr liftE_Inr validate_allocated_storage_def bindR_Inr try_from_Inr)
    have "view_len v = expected_output_bytes req" "as_slice v = bytes"
      using from_boxed_Inr[OF boxed] run(2) lens(2) by simp_all
    with p run(1) show ?thesis unfolding lens(2,3) by blast
  qed
qed

text \<open>A chain ends with the size that its last transform was planned with.\<close>

lemma chain_fold:
  assumes "foldE (\<lambda>planned current. bindE check (\<lambda>_.
      prepare_with_cancellation providers (chain_request planned shape current))) transforms source e = Inr (v, e')"
  shows "view_len v = (if transforms = [] then view_len source else output_size (last transforms))"
  using assms
proof (induction transforms arbitrary: source e)
  case Nil
  then show ?case by simp
next
  case (Cons t ts)
  from Cons.prems obtain w e1 e2 where w: "prepare_with_cancellation providers (chain_request t shape source) e1 = Inr (w, e2)"
    and rest: "foldE (\<lambda>planned current. bindE check (\<lambda>_.
      prepare_with_cancellation providers (chain_request planned shape current))) ts w e2 = Inr (v, e')"
    by (auto simp: bindE_Inr)
  have "view_len w = output_size t"
    using prepare_result[OF w]
    by (simp add: chain_request_def with_expected_scratch_bytes_def PrepareRequest_new_def)
  then show ?case using Cons.IH[OF rest] by simp
qed

lemma chain_result:
  assumes "bindE (foldE (\<lambda>planned current. bindE check (\<lambda>_.
      prepare_with_cancellation providers (chain_request planned shape current))) transforms source)
      (\<lambda>current. bindE check (\<lambda>_. retE current)) e = Inr (v, e')"
  shows "view_len v = (if transforms = [] then view_len source else output_size (last transforms))"
proof -
  from assms obtain e1 where "foldE (\<lambda>planned current. bindE check (\<lambda>_.
      prepare_with_cancellation providers (chain_request planned shape current))) transforms source e = Inr (v, e1)"
    by (auto simp: bindE_Inr)
  then show ?thesis by (rule chain_fold)
qed

text \<open>
  A chain of planned transforms ends with exactly the byte length that its last transform was
  planned with, and the empty chain returns the source length.
\<close>

lemma transform_chain_size:
  assumes "prepare_chain_with_cancellation providers transforms shape source e = Inr (v, e')"
  shows "view_len v = (if transforms = [] then view_len source else output_size (last transforms))"
  using assms unfolding prepare_chain_with_cancellation_def by (rule chain_result)

section \<open>The provider contract\<close>

text \<open>
  A provider keeps the contract for the requests it accepts when validation announces a
  strategy that agrees with the plan and preparation returns the bytes of the announced length.
\<close>

locale provider_contract =
  fixes provide :: "'h \<Rightarrow> PreparationProvider"
    and accepts :: "PrepareRequest \<Rightarrow> bool"
    and strategy :: "PrepareRequest \<Rightarrow> OutputStrategy"
    and prepared :: "'h \<Rightarrow> PrepareRequest \<Rightarrow> u8 list"
  assumes validates: "accepts req \<Longrightarrow> delivers (provider_validate (provide h) req) (\<lambda>s. s = strategy req)"
    and reuses: "accepts req \<Longrightarrow> strategy req = ReuseSource \<Longrightarrow>
      expected_scratch_bytes req = 0 \<and> view_len (req_source req) = expected_output_bytes req
      \<and> view_len (req_source req) < u64_bound \<and> prepared h req = as_slice (req_source req)"
    and allocates: "accepts req \<Longrightarrow> strategy req = Allocate ob sb \<Longrightarrow>
      ob = expected_output_bytes req \<and> sb = expected_scratch_bytes req \<and> ob < usize_bound \<and> sb < usize_bound
      \<and> length (prepared h req) = ob
      \<and> delivers (provider_prepare_allocated (provide h) req ob sb) (\<lambda>r. r = prepared h req)"
begin

lemma engine_prepares:
  assumes p: "resolve providers (transform_implementation (req_transform req)) = Inr (provide h)"
    and req: "accepts req" and src: "wf_view (req_source req)"
  shows "delivers (prepare_with_cancellation providers req) (\<lambda>v. wf_view v \<and> as_slice v = prepared h req
    \<and> view_len v = expected_output_bytes req \<and> (strategy req = ReuseSource \<longrightarrow> v = req_source req))"
    (is "delivers _ ?P")
proof -
  have rest: "delivers (case s of
       ReuseSource \<Rightarrow> bindE (liftE (validate_reused_output req)) (\<lambda>_. bindE check (\<lambda>_. retE (req_source req)))
     | Allocate output_bytes scratch_bytes \<Rightarrow>
         bindE (liftE (validate_allocated_storage req output_bytes scratch_bytes)) (\<lambda>lens.
         bindE check (\<lambda>_.
         bindE (provider_prepare_allocated (provide h) req (fst lens) (snd lens)) (\<lambda>output.
         bindE check (\<lambda>_.
         bindE (liftE (ensure (length output = fst lens) Integrity)) (\<lambda>_. from_boxed output)))))) ?P"
    if s: "s = strategy req" for s
  proof (cases s)
    case ReuseSource
    note r = reuses[OF req, of h] s ReuseSource
    then have "validate_reused_output req = Inr ()"
      by (simp add: validate_reused_output_def u64_try_from_def)
    then show ?thesis
      using r src by (auto intro!: delivers_intros simp: ReuseSource simp del: retE_apply)
  next
    case (Allocate ob sb)
    have a: "ob = expected_output_bytes req" "sb = expected_scratch_bytes req" "ob < usize_bound" "sb < usize_bound"
      "length (prepared h req) = ob"
      and run: "delivers (provider_prepare_allocated (provide h) req ob sb) (\<lambda>r. r = prepared h req)"
      using allocates[OF req, of ob sb h] s Allocate by auto
    then have lens: "validate_allocated_storage req ob sb = Inr (ob, sb)"
      by (simp add: validate_allocated_storage_def try_from_ok)
    have final: "delivers (bindE check (\<lambda>_.
         bindE (liftE (ensure (length r = ob) Integrity)) (\<lambda>_. from_boxed r))) ?P" if "r = prepared h req" for r
      using that a s Allocate
      by (intro delivers_bindE[OF delivers_check[of "\<lambda>_. True"]]) (auto intro!: from_boxed_delivers simp flip: length_as_slice)
    show ?thesis
      by (simp add: Allocate lens)
        (rule delivers_bindE[OF delivers_check[of "\<lambda>_. True"] delivers_bindE[OF run final]], simp_all)
  qed
  show ?thesis
    unfolding prepare_with_cancellation_def p liftE_bind
    by (rule delivers_bindE[OF delivers_check[of "\<lambda>_. True"] delivers_bindE[OF validates[OF req]]], simp)
      (rule delivers_bindE[OF delivers_check[of "\<lambda>_. True"]], simp, rule rest)
qed

end

section \<open>The built-in contiguous provider\<close>

definition contiguous_id :: ImplementationId where
  "contiguous_id = ImplementationId_new ''model-weights'' ''contiguous-cast'' 1"

definition contiguous_provider :: "half \<Rightarrow> PreparationProvider" where
  "contiguous_provider h = \<lparr>provider_implementation = contiguous_id,
     provider_validate = contiguous_validate contiguous_id,
     provider_prepare_into = contiguous_prepare_into h,
     provider_prepare_allocated = contiguous_prepare_allocated h\<rparr>"

definition source_type :: "PrepareRequest \<Rightarrow> DType" where
  "source_type req = dtype (transform_source (req_transform req))"

definition target_type :: "PrepareRequest \<Rightarrow> DType" where
  "target_type req = dtype (transform_target (req_transform req))"

text \<open>The requests that the built-in provider supports.\<close>

definition contiguous_accepts :: "PrepareRequest \<Rightarrow> bool" where
  "contiguous_accepts req \<longleftrightarrow> transform_implementation (req_transform req) = contiguous_id
     \<and> layout (transform_source (req_transform req)) = Contiguous
     \<and> layout (transform_target (req_transform req)) = Contiguous
     \<and> DType_byte_len (source_type req) (req_shape req) = Inr (view_len (req_source req))
     \<and> DType_byte_len (target_type req) (req_shape req) = Inr (expected_output_bytes req)
     \<and> expected_scratch_bytes req = 0 \<and> wf_view (req_source req)
     \<and> (source_type req = target_type req
        \<or> is_builtin_float (source_type req) \<and> is_builtin_float (target_type req)
        \<or> source_type req = U8 \<and> target_type req = F32)"

definition contiguous_strategy :: "PrepareRequest \<Rightarrow> OutputStrategy" where
  "contiguous_strategy req = (if source_type req = target_type req then ReuseSource
     else Allocate (expected_output_bytes req) 0)"

definition contiguous_prepared :: "half \<Rightarrow> PrepareRequest \<Rightarrow> u8 list" where
  "contiguous_prepared h req = (case owned_arm h (source_type req) (target_type req) of
     None \<Rightarrow> as_slice (req_source req)
   | Some f \<Rightarrow> cast_spec (bits (source_type req) div 8) f (as_slice (req_source req)))"

lemma parse_builtin_names:
  "StableName_parse ''model-weights'' = Inr ''model-weights''"
  "StableName_parse ''contiguous-cast'' = Inr ''contiguous-cast''"
  by (simp_all add: StableName_parse_def stable_byte_def of_char_def Let_def)

lemma ContiguousProvider_new_Inr: "ContiguousProvider_new h = Inr (contiguous_provider h)"
  by (simp add: ContiguousProvider_new_def builtin_contiguous_implementation_def parse_builtin_names
      contiguous_provider_def contiguous_id_def)

lemma resolve_builtins:
  "registry_with_builtins h = Inr providers \<Longrightarrow> resolve providers contiguous_id = Inr (contiguous_provider h)"
  by (auto simp: registry_with_builtins_def ContiguousProvider_new_Inr registry_new_def register_shared_Inr
      resolve_def contiguous_provider_def)

lemma owned_arm_same: "owned_arm h s s = None"
  by (cases s) (simp_all add: owned_arm_def)

interpretation contiguous: provider_contract contiguous_provider contiguous_accepts contiguous_strategy
  contiguous_prepared
proof
  fix req h assume r: "contiguous_accepts req"
  have lens: "view_len (req_source req) < u64_bound" "length (as_slice (req_source req)) = view_len (req_source req)"
    using r view_len_bound by (auto simp: contiguous_accepts_def)
  show "delivers (provider_validate (contiguous_provider h) req) (\<lambda>s. s = contiguous_strategy req)"
    using r lens(1)
    by (auto simp: contiguous_provider_def contiguous_validate_def contiguous_accepts_def contiguous_strategy_def
        source_type_def target_type_def u64_try_from_def Let_def intro!: delivers_intros delivers_bindE[OF delivers_check[of "\<lambda>_. True"]]
        simp del: retE_apply)
  show "expected_scratch_bytes req = 0 \<and> view_len (req_source req) = expected_output_bytes req
      \<and> view_len (req_source req) < u64_bound \<and> contiguous_prepared h req = as_slice (req_source req)"
    if "contiguous_strategy req = ReuseSource"
    using r lens that
    by (auto simp: contiguous_accepts_def contiguous_strategy_def contiguous_prepared_def owned_arm_same split: if_splits)
  show "ob = expected_output_bytes req \<and> sb = expected_scratch_bytes req \<and> ob < usize_bound \<and> sb < usize_bound
      \<and> length (contiguous_prepared h req) = ob
      \<and> delivers (provider_prepare_allocated (contiguous_provider h) req ob sb) (\<lambda>r. r = contiguous_prepared h req)"
    if s: "contiguous_strategy req = Allocate ob sb" for ob sb
  proof -
    let ?s = "source_type req" let ?t = "target_type req" let ?n = "prod_list (req_shape req)"
    have ne: "?s \<noteq> ?t" and ob: "ob = expected_output_bytes req" "sb = 0"
      using s by (auto simp: contiguous_strategy_def split: if_splits)
    then obtain f where f: "owned_arm h ?s ?t = Some f"
      using r owned_arm_supported[of ?s ?t h] by (auto simp: contiguous_accepts_def)
    have bytes: "length (as_slice (req_source req)) = ?n * (bits ?s div 8)" "ob = ?n * (bits ?t div 8)" "ob < usize_bound"
      using r lens(2) ob by (auto simp: contiguous_accepts_def byte_len_Inr usize_is_u64)
    have small: "length (as_slice (req_source req)) < usize_bound" using lens by (simp add: usize_is_u64)
    have len: "length (contiguous_prepared h req) = ob"
      using length_cast_spec[OF bytes(1) bits_pos, of f "bits ?t div 8"] arms_agree[OF f] bytes(2) f
      by (auto simp: contiguous_prepared_def)
    have "delivers (cast_float_bytes_owned h ?s (as_slice (req_source req)) ?t ob) (\<lambda>r. r = contiguous_prepared h req)"
      using cast_float_bytes_owned_delivers[OF f bytes(1) small] bytes(2,3) f by (simp add: contiguous_prepared_def)
    then have "delivers (contiguous_prepare_allocated h req ob sb) (\<lambda>r. r = contiguous_prepared h req)"
      using r ob bytes(3)
      by (simp add: contiguous_prepare_allocated_def contiguous_accepts_def usize_try_from_def source_type_def target_type_def
          delivers_bindE[OF delivers_check[of "\<lambda>_. True"]])
    then show ?thesis
      using r ob bytes(3) len by (simp add: contiguous_provider_def contiguous_accepts_def usize_is_u64)
  qed
qed

text \<open>Registering a provider succeeds exactly when its identity is new, makes that identity resolve to
it, leaves every other identity's resolution alone, and a second provider with the same identity is
refused.\<close>

lemma registry_keeps_providers:
  assumes "register_shared p registry = Inr registry'"
  shows "resolve registry' i = (if i = provider_implementation p then Inr p else resolve registry i)
    \<and> (provider_implementation q = provider_implementation p \<longrightarrow> register_shared q registry' = Inl InvalidFormat)"
  using resolve_registered[OF assms] register_duplicate[OF assms] by blast

end
