(* ===== verification/MW_Execute.thy ===== *)
theory MW_Execute
  imports MW_Layout MW_Scratch MW_Engine
begin

text \<open>
  operation.rs, host execution of graphs: the node executors, the runtime map that holds the
  bytes of live values, and the loop that produces bytes and accounts for liveness together.
  Whether the processor has AVX2 and the registered providers are arguments. An observed run
  also returns the events it emits, without their durations (telemetry.rs, \<open>OperationKind\<close>,
  \<open>OperationLocation\<close> and \<open>ExecutionEvent\<close>).
\<close>

section \<open>Values of a run\<close>

record RuntimeValue =
  rv_bytes :: ByteView
  rv_allocation :: "nat option"

datatype OutputOrigin = Fresh | Alias nat

record ProducedValue =
  produced_bytes :: ByteView
  produced_origin :: OutputOrigin

record NodeExecution =
  execution_outputs :: "ProducedValue list"
  transient_scratch :: nat

record HostExecution =
  host_output :: ByteView
  peak_scratch_bytes :: nat

datatype OperationKind =
    KindIdentity | KindCast | KindConcat | KindPermute | KindPad | KindSlice | KindSplit
  | KindReshape | KindPrepare

definition for_transform :: "TransformSpec \<Rightarrow> OperationKind" where
  "for_transform transform =
     (if dtype (transform_source transform) = dtype (transform_target transform) then KindPrepare else KindCast)"

definition operation_kind :: "Operation \<Rightarrow> nat \<Rightarrow> OperationKind" where
  "operation_kind operation materialized_output_bytes = (case operation of
     Concat _ \<Rightarrow> KindConcat | Permute _ \<Rightarrow> KindPermute | Pad _ \<Rightarrow> KindPad | Slice _ \<Rightarrow> KindSlice
   | Split _ \<Rightarrow> KindSplit | Reshape _ \<Rightarrow> KindReshape
   | Prepare transform \<Rightarrow>
       if materialized_output_bytes = 0 then KindIdentity else for_transform (planned_transform transform))"

record OperationFinished =
  work_ordinal :: "nat option"
  location :: NodeId
  event_kind :: OperationKind
  event_input_bytes :: nat
  event_output_bytes :: nat
  event_materialized_bytes :: nat

section \<open>Node executors\<close>

text \<open>
  Pointer equality of views: all empty boxed slices share an address (owner 0), other owners
  have storage of their own.
\<close>

definition same_view :: "ByteView \<Rightarrow> ByteView \<Rightarrow> bool" where
  "same_view left right \<longleftrightarrow> view_len left = view_len right
     \<and> view_owner left = view_owner right \<and> range_start left = range_start right"

definition is_identity_permutation :: "Permute \<Rightarrow> TensorFacts \<Rightarrow> TensorFacts \<Rightarrow> bool" where
  "is_identity_permutation permute in_facts out_facts =
     (is_identity_order (permute_order permute) \<and> in_facts = out_facts)"

definition only_output :: "OperationNode \<Rightarrow> TensorFacts result" where
  "only_output node = (case node_outputs node of [output] \<Rightarrow> Inr output | _ \<Rightarrow> Inl Integrity)"

definition unary_execution_parts ::
    "OperationNode \<Rightarrow> RuntimeValue list \<Rightarrow> TensorFacts list \<Rightarrow> (RuntimeValue \<times> TensorFacts \<times> TensorFacts) result" where
  "unary_execution_parts node inputs in_facts = (case inputs of
     [input] \<Rightarrow> (case in_facts of
       [facts] \<Rightarrow> bindR (only_output node) (\<lambda>output. Inr (input, facts, output))
     | _ \<Rightarrow> Inl Integrity)
   | _ \<Rightarrow> Inl Integrity)"

definition fresh_node_execution :: "u8 list \<Rightarrow> NodeExecution exec" where
  "fresh_node_execution output = bindE (from_boxed output) (\<lambda>bytes.
     retE \<lparr>execution_outputs = [\<lparr>produced_bytes = bytes, produced_origin = Fresh\<rparr>], transient_scratch = 0\<rparr>)"

definition alias_node_execution :: "RuntimeValue \<Rightarrow> NodeExecution" where
  "alias_node_execution input =
     \<lparr>execution_outputs = [\<lparr>produced_bytes = rv_bytes input, produced_origin = Alias 0\<rparr>], transient_scratch = 0\<rparr>"

definition execute_concat_node ::
    "Axis \<Rightarrow> OperationNode \<Rightarrow> RuntimeValue list \<Rightarrow> TensorFacts list \<Rightarrow> NodeExecution exec" where
  "execute_concat_node axis node inputs in_facts =
     bindE (liftE (only_output node)) (\<lambda>out_facts.
     let input_views = map rv_bytes inputs in
     if list_all is_canonical_contiguous in_facts \<and> is_canonical_contiguous out_facts then
       bindE (build_contiguous_concat axis in_facts out_facts input_views) fresh_node_execution
     else
       bindE (allocate_tensor out_facts) (\<lambda>output.
       bindE (execute_concat_bytes axis in_facts out_facts input_views output) fresh_node_execution))"

definition execute_permute_node ::
    "bool \<Rightarrow> Permute \<Rightarrow> OperationNode \<Rightarrow> RuntimeValue list \<Rightarrow> TensorFacts list \<Rightarrow> NodeExecution exec" where
  "execute_permute_node avx2 permute node inputs in_facts =
     bindE (liftE (unary_execution_parts node inputs in_facts)) (\<lambda>parts.
     let input = fst parts; in_facts = fst (snd parts); out_facts = snd (snd parts) in
     bindE (liftE (validate_view_len (rv_bytes input) (byte_len in_facts))) (\<lambda>_.
     if is_identity_permutation permute in_facts out_facts then
       bindE check (\<lambda>_. retE (alias_node_execution input))
     else
       bindE (build_oihw_to_ohwi_if_supported avx2 permute in_facts out_facts (as_slice (rv_bytes input))) (\<lambda>built.
       case built of
         Some output \<Rightarrow> fresh_node_execution output
       | None \<Rightarrow>
           bindE (allocate_tensor out_facts) (\<lambda>output.
           bindE (execute_permute_bytes permute in_facts out_facts (rv_bytes input) output) fresh_node_execution))))"

definition execute_pad_node ::
    "OperationNode \<Rightarrow> RuntimeValue list \<Rightarrow> TensorFacts list \<Rightarrow> NodeExecution exec" where
  "execute_pad_node node inputs in_facts =
     bindE (liftE (unary_execution_parts node inputs in_facts)) (\<lambda>parts.
     let input = fst parts; in_facts = fst (snd parts); out_facts = snd (snd parts) in
     bindE (liftE (validate_view_len (rv_bytes input) (byte_len in_facts))) (\<lambda>_.
     bindE (allocate_tensor out_facts) (\<lambda>output.
     bindE (execute_storage_copy in_facts out_facts (rv_bytes input) output) fresh_node_execution)))"

definition execute_slice_node ::
    "AxisRange list \<Rightarrow> OperationNode \<Rightarrow> RuntimeValue list \<Rightarrow> TensorFacts list \<Rightarrow> NodeExecution exec" where
  "execute_slice_node ranges node inputs in_facts =
     bindE (liftE (unary_execution_parts node inputs in_facts)) (\<lambda>parts.
     let input = fst parts; in_facts = fst (snd parts); out_facts = snd (snd parts) in
     bindE (allocate_tensor out_facts) (\<lambda>output.
     bindE (execute_slice_bytes ranges in_facts (rv_bytes input) out_facts output) fresh_node_execution))"

text \<open>
  The ranges of one split output: every axis in full but the split one. The indexed assignment
  is in range for every inferred node.
\<close>

definition split_window :: "Axis \<Rightarrow> TensorFacts \<Rightarrow> AxisRange \<Rightarrow> AxisRange list" where
  "split_window axis facts r =
     (map (\<lambda>dimension. \<lparr>ar_start = 0, ar_end = dimension\<rparr>) (logical_shape facts))[axis := r]"

definition execute_split_node ::
    "Split \<Rightarrow> OperationNode \<Rightarrow> RuntimeValue list \<Rightarrow> TensorFacts list \<Rightarrow> NodeExecution exec" where
  "execute_split_node split node inputs in_facts =
     bindE (liftE (ok_or Integrity (list_get inputs 0))) (\<lambda>input.
     bindE (liftE (ok_or Integrity (list_get in_facts 0))) (\<lambda>facts.
     bindE (foldE (\<lambda>p outputs.
         bindE check (\<lambda>_.
         bindE (liftE (Axis_as_usize (split_axis split))) (\<lambda>axis.
         bindE (allocate_tensor (snd p)) (\<lambda>output.
         bindE (execute_slice_bytes (split_window axis facts (fst p)) facts (rv_bytes input) (snd p) output) (\<lambda>output.
         bindE (from_boxed output) (\<lambda>bytes.
           retE (outputs @ [\<lparr>produced_bytes = bytes, produced_origin = Fresh\<rparr>])))))))
       (zip (split_ranges split) (node_outputs node)) []) (\<lambda>outputs.
     retE \<lparr>execution_outputs = outputs, transient_scratch = 0\<rparr>)))"

definition execute_reshape_node :: "RuntimeValue list \<Rightarrow> NodeExecution exec" where
  "execute_reshape_node inputs =
     bindE (liftE (ok_or Integrity (list_get inputs 0))) (\<lambda>input. retE (alias_node_execution input))"

definition execute_prepare_node ::
    "ProviderRegistry \<Rightarrow> PlannedTransform \<Rightarrow> RuntimeValue list \<Rightarrow> TensorFacts list \<Rightarrow> NodeExecution exec" where
  "execute_prepare_node providers transform inputs in_facts =
     bindE (liftE (ok_or Integrity (list_get inputs 0))) (\<lambda>input.
     bindE (liftE (ok_or Integrity (list_get in_facts 0))) (\<lambda>facts.
     bindE (prepare_with_cancellation providers (chain_request transform (logical_shape facts) (rv_bytes input))) (\<lambda>output.
     let reused = same_view output (rv_bytes input) in
     retE \<lparr>execution_outputs =
             [\<lparr>produced_bytes = output, produced_origin = (if reused then Alias 0 else Fresh)\<rparr>],
           transient_scratch = (if reused then 0 else transform_scratch transform)\<rparr>)))"

definition execute_node ::
    "bool \<Rightarrow> ProviderRegistry \<Rightarrow> OperationNode \<Rightarrow> RuntimeValue list \<Rightarrow> TensorFacts list \<Rightarrow> NodeExecution exec" where
  "execute_node avx2 providers node inputs in_facts =
     bindE (liftE (ensure (length in_facts = length inputs) Integrity)) (\<lambda>_.
     case node_operation node of
       Concat axis \<Rightarrow> execute_concat_node axis node inputs in_facts
     | Permute permute \<Rightarrow> execute_permute_node avx2 permute node inputs in_facts
     | Pad pad \<Rightarrow> execute_pad_node node inputs in_facts
     | Slice ranges \<Rightarrow> execute_slice_node ranges node inputs in_facts
     | Split split \<Rightarrow> execute_split_node split node inputs in_facts
     | Reshape _ \<Rightarrow> execute_reshape_node inputs
     | Prepare transform \<Rightarrow> execute_prepare_node providers transform inputs in_facts)"

section \<open>The runtime map\<close>

type_synonym runtime = "ValueRef \<rightharpoonup> RuntimeValue"

definition consume_runtime_inputs ::
    "ValueRef list \<Rightarrow> LivenessSchedule \<times> runtime \<Rightarrow> (LivenessSchedule \<times> runtime) result" where
  "consume_runtime_inputs inputs st = foldR (\<lambda>input st.
     bindR (consume_value input (fst st)) (\<lambda>r.
     if fst r then
       bindR (ok_or Integrity (snd st input)) (\<lambda>_. Inr (snd r, (snd st)(input := None)))
     else Inr (snd r, snd st))) inputs st"

definition remove_unused_runtime ::
    "ValueRef list \<Rightarrow> LivenessSchedule \<times> runtime \<Rightarrow> (LivenessSchedule \<times> runtime) result" where
  "remove_unused_runtime vs st = foldR (\<lambda>v st.
     if use_count (remaining_uses (fst st)) v = 0 then
       bindR (remove_value v (fst st)) (\<lambda>s.
       bindR (ok_or Integrity (snd st v)) (\<lambda>_. Inr (s, (snd st)(v := None))))
     else Inr st) vs st"

text \<open>One produced output: its allocation, its schedule entry and its runtime entry.\<close>

definition place_produced ::
    "NodeId \<Rightarrow> RuntimeValue list \<Rightarrow> nat \<times> ProducedValue \<times> TensorFacts
       \<Rightarrow> (LivenessSchedule \<times> runtime) \<times> ValueRef list \<Rightarrow> ((LivenessSchedule \<times> runtime) \<times> ValueRef list) result" where
  "place_produced node_id input_values output st =
     (let k = fst output; produced = fst (snd output); facts = snd (snd output);
          s = fst (fst st); runtime = snd (fst st) in
     bindR (case produced_origin produced of
         Alias input_index \<Rightarrow>
           bindR (ok_or Integrity (list_get input_values input_index)) (\<lambda>input. Inr (rv_allocation input, s))
       | Fresh \<Rightarrow> bindR (create_allocation (byte_len facts) s) (\<lambda>r. Inr (Some (fst r), snd r))) (\<lambda>r.
     bindR (index_as_u32 k) (\<lambda>k.
     let v = NodeOutput node_id k in
     bindR (insert_value v (fst r) (snd r)) (\<lambda>s.
       Inr ((s, runtime(v \<mapsto> \<lparr>rv_bytes = produced_bytes produced, rv_allocation = fst r\<rparr>)), snd st @ [v])))))"

section \<open>The execution loop\<close>

definition total_bytes :: "TensorFacts list \<Rightarrow> nat" where
  "total_bytes facts = foldl (\<lambda>bytes f. saturating_add bytes (byte_len f)) 0 facts"

definition finished_event ::
    "nat option \<Rightarrow> NodeId \<Rightarrow> OperationNode \<Rightarrow> TensorFacts list \<Rightarrow> NodeExecution \<Rightarrow> OperationFinished" where
  "finished_event ordinal node_id node in_facts execution =
     (let materialized = total_bytes (map snd (filter (\<lambda>p. produced_origin (fst p) = Fresh)
            (zip (execution_outputs execution) (node_outputs node))))
      in \<lparr>work_ordinal = ordinal, location = node_id,
          event_kind = operation_kind (node_operation node) materialized,
          event_input_bytes = total_bytes in_facts, event_output_bytes = total_bytes (node_outputs node),
          event_materialized_bytes = materialized\<rparr>)"

type_synonym run_state = "(LivenessSchedule \<times> runtime) \<times> OperationFinished list"

definition execute_step ::
    "bool \<Rightarrow> ProviderRegistry \<Rightarrow> nat option option \<Rightarrow> OperationGraph \<Rightarrow> nat \<times> OperationNode \<Rightarrow> run_state \<Rightarrow> run_state exec" where
  "execute_step avx2 providers observation g n st =
     (let node = snd n; runtime = snd (fst st) in
     bindE check (\<lambda>_.
     bindE (liftE (index_as_u32 (fst n))) (\<lambda>node_id.
     bindE (liftE (builtin_implementation (node_operation node))) (\<lambda>expected.
     bindE (liftE (ensure (node_implementation node = expected) Unsupported)) (\<lambda>_.
     bindE (liftE (mapR (\<lambda>v. ok_or Integrity (runtime v)) (node_inputs node))) (\<lambda>input_values.
     bindE (liftE (mapR (\<lambda>v. ok_or Integrity (graph_facts g v)) (node_inputs node))) (\<lambda>in_facts.
     bindE (execute_node avx2 providers node input_values in_facts) (\<lambda>execution.
     bindE (liftE (ensure (length (execution_outputs execution) = length (node_outputs node)) Integrity)) (\<lambda>_.
     bindE (liftE (mapR (\<lambda>p. validate_view_len (produced_bytes (fst p)) (byte_len (snd p)))
              (zip (execution_outputs execution) (node_outputs node)))) (\<lambda>_.
     let events = (case observation of None \<Rightarrow> snd st
           | Some ordinal \<Rightarrow> snd st @ [finished_event ordinal node_id node in_facts execution]) in
     bindE (liftE (foldR (place_produced node_id input_values)
              (enumerate 0 (zip (execution_outputs execution) (node_outputs node))) (fst st, []))) (\<lambda>placed.
     bindE (liftE (observe_transient (transient_scratch execution) (fst (fst placed)))) (\<lambda>s.
     bindE (liftE (consume_runtime_inputs (node_inputs node) (s, snd (fst placed)))) (\<lambda>sr.
     bindE (liftE (remove_unused_runtime (snd placed) sr)) (\<lambda>sr.
       retE (sr, events)))))))))))))))"

definition execute_host_inner ::
    "bool \<Rightarrow> ProviderRegistry \<Rightarrow> nat option option \<Rightarrow> OperationGraph \<Rightarrow> ByteView list
       \<Rightarrow> (HostExecution \<times> OperationFinished list) exec" where
  "execute_host_inner avx2 providers observation g inputs =
     bindE check (\<lambda>_.
     bindE (liftE (ensure (length inputs = length (graph_inputs g)) Binding)) (\<lambda>_.
     bindE (liftE (schedule_new g)) (\<lambda>s.
     bindE (liftE (foldR (\<lambda>p runtime.
         bindR (validate_view_len (snd (snd p)) (byte_len (input_facts (fst (snd p))))) (\<lambda>_.
         bindR (index_as_u32 (fst p)) (\<lambda>i.
           Inr (runtime(Input i \<mapsto> \<lparr>rv_bytes = snd (snd p), rv_allocation = None\<rparr>)))))
       (enumerate 0 (zip (graph_inputs g) inputs)) Map.empty)) (\<lambda>runtime.
     bindE (foldE (execute_step avx2 providers observation g) (enumerate 0 (graph_nodes g)) ((s, runtime), [])) (\<lambda>st.
     bindE check (\<lambda>_.
     bindE (liftE (ok_or Integrity (snd (fst st) (graph_output g)))) (\<lambda>output.
     bindE (liftE (scratch_excluding_output (graph_output g) (fst (fst st)))) (\<lambda>peak.
       retE (\<lparr>host_output = rv_bytes output, peak_scratch_bytes = peak\<rparr>, snd st)))))))))"

definition execute_host ::
    "bool \<Rightarrow> ProviderRegistry \<Rightarrow> OperationGraph \<Rightarrow> ByteView list \<Rightarrow> HostExecution exec" where
  "execute_host avx2 providers g inputs =
     bindE (execute_host_inner avx2 providers None g inputs) (\<lambda>r. retE (fst r))"

text \<open>The observer is asked once whether it wants operation events.\<close>

definition execute_host_observed ::
    "bool \<Rightarrow> ProviderRegistry \<Rightarrow> bool \<Rightarrow> nat option \<Rightarrow> OperationGraph \<Rightarrow> ByteView list
       \<Rightarrow> (HostExecution \<times> OperationFinished list) exec" where
  "execute_host_observed avx2 providers events_enabled ordinal g inputs =
     execute_host_inner avx2 providers (if events_enabled then Some ordinal else None) g inputs"

end
