(* ===== verification/MW_Nodes.thy ===== *)
theory MW_Nodes
  imports MW_Execute
begin

text \<open>
  What one node computes. \<open>node_spec\<close> states the outputs of a node element by element in terms
  of its inputs; every node executor delivers outputs that satisfy it, with the aliases that
  the static estimate assumes.
\<close>

section \<open>Specification\<close>

definition zeros :: "TensorFacts \<Rightarrow> u8 list" where
  "zeros G = replicate (byte_len G) 0"

definition node_spec :: "Operation \<Rightarrow> TensorFacts list \<Rightarrow> u8 list list \<Rightarrow> TensorFacts list \<Rightarrow> u8 list list \<Rightarrow> bool" where
  "node_spec op Fs bs Gs rs \<longleftrightarrow> length rs = length Gs \<and> (case op of
     Concat axis \<Rightarrow> wrote (Gs ! 0) (concat_element axis Fs bs) (zeros (Gs ! 0)) (rs ! 0)
   | Permute p \<Rightarrow> wrote (Gs ! 0) (\<lambda>c. element (Fs ! 0) (bs ! 0) (case permute_mode p of
         Logical \<Rightarrow> scatter_strides (permute_order p) c (length (permute_order p))
       | Storage _ \<Rightarrow> c)) (zeros (Gs ! 0)) (rs ! 0)
   | Pad _ \<Rightarrow> wrote (Gs ! 0) (element (Fs ! 0) (bs ! 0)) (zeros (Gs ! 0)) (rs ! 0)
   | Slice ranges \<Rightarrow> wrote (Gs ! 0) (\<lambda>c. element (Fs ! 0) (bs ! 0) (shift ranges c)) (zeros (Gs ! 0)) (rs ! 0)
   | Split sp \<Rightarrow> (\<forall>i < length Gs. wrote (Gs ! i) (\<lambda>c. element (Fs ! 0) (bs ! 0)
         (c[split_axis sp := ar_start (split_ranges sp ! i) + c ! split_axis sp])) (zeros (Gs ! i)) (rs ! i))
   | Reshape _ \<Rightarrow> rs ! 0 = bs ! 0
   | Prepare _ \<Rightarrow> False)"

definition node_origin :: "Operation \<Rightarrow> TensorFacts list \<Rightarrow> TensorFacts list \<Rightarrow> OutputOrigin" where
  "node_origin op Fs Gs = (case op of Reshape _ \<Rightarrow> Alias 0
     | Permute p \<Rightarrow> if is_identity_order (permute_order p) \<and> Fs = Gs then Alias 0 else Fresh
     | _ \<Rightarrow> Fresh)"

definition bytes_of :: "RuntimeValue list \<Rightarrow> u8 list list" where
  "bytes_of ins = map (\<lambda>x. as_slice (rv_bytes x)) ins"

definition produces :: "Operation \<Rightarrow> TensorFacts list \<Rightarrow> RuntimeValue list \<Rightarrow> TensorFacts list \<Rightarrow> NodeExecution \<Rightarrow> bool" where
  "produces op Fs ins Gs x \<longleftrightarrow> transient_scratch x = 0 \<and> length (execution_outputs x) = length Gs
     \<and> (\<forall>k < length Gs. view_of (Gs ! k) (produced_bytes (execution_outputs x ! k))
          \<and> produced_origin (execution_outputs x ! k) = node_origin op Fs Gs)
     \<and> node_spec op Fs (bytes_of ins) Gs (map (\<lambda>p. as_slice (produced_bytes p)) (execution_outputs x))"

text \<open>The tensors of a node: views of the right length, none of them empty.\<close>

definition node_inputs_ok :: "TensorFacts list \<Rightarrow> RuntimeValue list \<Rightarrow> bool" where
  "node_inputs_ok Fs ins \<longleftrightarrow> length ins = length Fs
     \<and> (\<forall>i < length Fs. view_of (Fs ! i) (rv_bytes (ins ! i)) \<and> 0 \<notin> set (logical_shape (Fs ! i)))"

lemma length_zeros [simp]: "length (zeros G) = byte_len G"
  by (simp add: zeros_def)

lemma allocate_zeros: "wf_facts G \<Longrightarrow> delivers (allocate_tensor G) (\<lambda>out. out = zeros G)"
  by (rule allocate_tensor_delivers) (simp_all add: zeros_def)

lemma wrote_length: "wrote G f out r \<Longrightarrow> length r = byte_len G"
  by (simp add: wrote_def)

lemma wf_byte_len: "wf_facts G \<Longrightarrow> byte_len G < usize_bound"
  using wf_facts_byte_len(2) by (simp add: usize_is_u64)

lemma fresh_produces:
  assumes "wf_facts G" and "length r = byte_len G" and "node_origin op Fs [G] = Fresh"
    and "node_spec op Fs (bytes_of ins) [G] [r]"
  shows "delivers (fresh_node_execution r) (produces op Fs ins [G])"
  unfolding fresh_node_execution_def
proof (rule delivers_bindE)
  show "delivers (from_boxed r) (\<lambda>v. wf_view v \<and> as_slice v = r)"
    using assms(2) wf_byte_len[OF assms(1)] by (intro from_boxed_delivers) auto
  fix v assume v: "wf_view v \<and> as_slice v = r"
  then have "view_len v = byte_len G" using assms(2) length_as_slice by metis
  then have "produces op Fs ins [G]
      \<lparr>execution_outputs = [\<lparr>produced_bytes = v, produced_origin = Fresh\<rparr>], transient_scratch = 0\<rparr>"
    using v assms by (simp add: produces_def view_of_def)
  then show "delivers (retE \<lparr>execution_outputs = [\<lparr>produced_bytes = v, produced_origin = Fresh\<rparr>],
      transient_scratch = 0\<rparr>) (produces op Fs ins [G])" by (rule delivers_retE)
qed

text \<open>Allocate a zeroed output, run a kernel on it, and wrap the result.\<close>

lemma kernel_produces:
  assumes G: "wf_facts G" and k: "delivers (run (zeros G)) (wrote G f (zeros G))"
    and o: "node_origin op Fs [G] = Fresh"
    and spec: "\<And>r. wrote G f (zeros G) r \<Longrightarrow> node_spec op Fs (bytes_of ins) [G] [r]"
  shows "delivers (bindE (allocate_tensor G) (\<lambda>out. bindE (run out) fresh_node_execution)) (produces op Fs ins [G])"
proof (rule delivers_bindE[OF allocate_zeros[OF G]])
  fix out assume "out = zeros G"
  then show "delivers (bindE (run out) fresh_node_execution) (produces op Fs ins [G])"
    using delivers_bindE[OF k, of fresh_node_execution] fresh_produces[OF G wrote_length o] spec by blast
qed

section \<open>Concatenation\<close>

lemma concat_node_ready:
  assumes i: "infer_concat axis Fs = Inr [G]" and ins: "node_inputs_ok Fs ins" and nz: "0 \<notin> set (logical_shape G)"
  shows "concat_ready (axis, Fs, G, map rv_bytes ins) \<and> is_canonical_contiguous G \<and> Fs \<noteq> []"
proof -
  from infer_concat_Inr[OF i] have len: "2 \<le> length Fs" and ax: "axis < length (logical_shape (Fs ! 0))"
    and G: "TensorFacts_contiguous ((logical_shape (Fs ! 0))[axis := (\<Sum>F\<leftarrow>Fs. logical_shape F ! axis)])
        (Representation_contiguous (dtype (representation (Fs ! 0)))) = Inr G"
    and comp: "\<forall>F \<in> set Fs. concat_compatible axis (Fs ! 0) F" by auto
  note c = TensorFacts_contiguous_Inr[OF G]
  let ?L = "logical_shape G"
  have axG: "axis < length ?L" and sum: "?L ! axis = sum_list (axis_dims axis Fs)"
    using c(2) ax by (simp_all add: axis_dims_def)
  have "\<exists>d. logical_shape (Fs ! i) = ?L[axis := d]" if "i < length Fs" for i
  proof -
    have "concat_compatible axis (Fs ! 0) (Fs ! i)" using comp that by simp
    then have "logical_shape (Fs ! i) = ?L[axis := logical_shape (Fs ! i) ! axis]"
      unfolding c(2) using ax by (intro nth_equalityI) (auto simp: concat_compatible_def nth_list_update)
    then show ?thesis by blast
  qed
  moreover have "width (Fs ! i) = width G" if "i < length Fs" for i
    using comp that c(6) by (simp add: concat_compatible_def width_def)
  moreover have "?L ! axis < u64_bound"
    using dim_le_prod[of ?L axis] axG nz wf_facts_elements[OF c(1)] prod_list_pos[OF nz] by linarith
  ultimately have "concat_ready (axis, Fs, G, map rv_bytes ins)"
    using c(1) axG sum ins by (auto simp: concat_ready_def node_inputs_ok_def)
  then show ?thesis using c(8) len by auto
qed

lemma concat_node_produces:
  assumes i: "infer_concat axis Fs = Inr [G]" and ins: "node_inputs_ok Fs ins" and nz: "0 \<notin> set (logical_shape G)"
    and node: "node_outputs node = [G]"
  shows "delivers (execute_concat_node axis node ins Fs) (produces (Concat axis) Fs ins [G])"
proof -
  let ?vs = "map rv_bytes ins" let ?f = "concat_element axis Fs (bytes_of ins)"
  from concat_node_ready[OF i ins nz] have r: "concat_ready (axis, Fs, G, ?vs)" and c: "is_canonical_contiguous G"
    and ne: "Fs \<noteq> []" by auto
  have G: "wf_facts G" using r by (simp add: concat_ready_def)
  have o: "node_origin (Concat axis) Fs [G] = Fresh" by (simp add: node_origin_def)
  have vs: "map as_slice ?vs = bytes_of ins" by (simp add: bytes_of_def)
  have spec: "node_spec (Concat axis) Fs (bytes_of ins) [G] [r]" if "wrote G ?f (zeros G) r" for r
    using that by (simp add: node_spec_def)
  have general: "delivers (bindE (allocate_tensor G) (\<lambda>out. bindE (execute_concat_bytes axis Fs G ?vs out) fresh_node_execution))
      (produces (Concat axis) Fs ins [G])"
    using execute_concat_bytes_delivers[OF r rows_fit_canonical[OF c], of "zeros G"] vs
    by (intro kernel_produces[OF G _ o spec]) simp_all
  have fast: "delivers (bindE (build_contiguous_concat axis Fs G ?vs) fresh_node_execution) (produces (Concat axis) Fs ins [G])"
    if "list_all is_canonical_contiguous Fs"
  proof (rule delivers_bindE[OF build_contiguous_concat_delivers])
    show "contiguous_ready (axis, Fs, G, ?vs)"
      using r c ne nz that by (auto simp: contiguous_ready_def list_all_iff)
    fix r assume "\<forall>out. wrote G (concat_element axis Fs (map as_slice ?vs)) out r"
    then have "wrote G ?f (zeros G) r" unfolding vs by blast
    then show "delivers (fresh_node_execution r) (produces (Concat axis) Fs ins [G])"
      using fresh_produces[OF G wrote_length o spec] by blast
  qed
  show ?thesis
    using general fast c by (auto simp: execute_concat_node_def only_output_def node Let_def)
qed


section \<open>Unary nodes\<close>

lemma unary_parts:
  "node_outputs node = [G] \<Longrightarrow> unary_execution_parts node [x] [F] = Inr (x, F, G)"
  by (simp add: unary_execution_parts_def only_output_def)

lemma node_inputs_one:
  assumes "node_inputs_ok [F] ins"
  obtains x where "ins = [x]" "view_of F (rv_bytes x)" "0 \<notin> set (logical_shape F)"
  using assms by (cases ins) (auto simp: node_inputs_ok_def)

lemma pad_node_produces:
  assumes i: "infer_pad pad F = Inr [G]" and ins: "node_inputs_ok [F] ins" and node: "node_outputs node = [G]"
  shows "delivers (execute_pad_node node ins [F]) (produces (Pad pad) [F] ins [G])"
proof -
  obtain x where x: "ins = [x]" "view_of F (rv_bytes x)" "0 \<notin> set (logical_shape F)" using ins by (rule node_inputs_one)
  have G: "wf_facts G" "logical_shape F = logical_shape G" "dtype (representation F) = dtype (representation G)"
    using infer_pad_Inr[OF i] by auto
  have "rows_fit G" using rows_fit_nonempty[OF G(1)] x(3) G(2) by simp
  then have "delivers (execute_storage_copy F G (rv_bytes x) (zeros G)) (wrote G (element F (as_slice (rv_bytes x))) (zeros G))"
    using x(2) G by (intro execute_storage_copy_delivers) simp_all
  then have "delivers (bindE (allocate_tensor G) (\<lambda>out. bindE (execute_storage_copy F G (rv_bytes x) out) fresh_node_execution))
      (produces (Pad pad) [F] ins [G])"
    by (rule kernel_produces[OF G(1)]) (simp_all add: node_origin_def node_spec_def bytes_of_def x(1))
  then show ?thesis
    using view_of_bytes(3)[OF x(2)] by (simp add: execute_pad_node_def unary_parts[OF node] x(1) Let_def)
qed

lemma slice_node_produces:
  assumes i: "infer_slice ranges F = Inr [G]" and ins: "node_inputs_ok [F] ins" and node: "node_outputs node = [G]"
  shows "delivers (execute_slice_node ranges node ins [F]) (produces (Slice ranges) [F] ins [G])"
proof -
  obtain x where x: "ins = [x]" "view_of F (rv_bytes x)" using ins by (rule node_inputs_one)
  have r: "slice_ready (ranges, F, G, rv_bytes x)" "rows_fit G" using infer_slice_ready[OF i x(2)] by auto
  then have G: "wf_facts G" by (simp add: slice_ready_def)
  have "delivers (execute_slice_bytes ranges F (rv_bytes x) G (zeros G))
      (wrote G (\<lambda>c. element F (as_slice (rv_bytes x)) (shift ranges c)) (zeros G))"
    using r by (intro execute_slice_bytes_delivers) simp_all
  then have "delivers (bindE (allocate_tensor G) (\<lambda>out. bindE (execute_slice_bytes ranges F (rv_bytes x) G out) fresh_node_execution))
      (produces (Slice ranges) [F] ins [G])"
    by (rule kernel_produces[OF G]) (simp_all add: node_origin_def node_spec_def bytes_of_def x(1))
  then show ?thesis by (simp add: execute_slice_node_def unary_parts[OF node] x(1) Let_def)
qed

text \<open>A reshape returns its input view; its bytes are read under the new shape.\<close>

lemma alias_produces:
  assumes "view_of G (rv_bytes x)" and "node_origin op Fs [G] = Alias 0" and "node_spec op Fs (bytes_of ins) [G] [as_slice (rv_bytes x)]"
  shows "produces op Fs ins [G] (alias_node_execution x)"
  using assms by (simp add: produces_def alias_node_execution_def)

lemma reshape_node_produces:
  assumes i: "infer_reshape shape F = Inr [G]" and ins: "node_inputs_ok [F] ins"
  shows "delivers (execute_reshape_node ins) (produces (Reshape shape) [F] ins [G])"
proof -
  obtain x where x: "ins = [x]" "view_of F (rv_bytes x)" using ins by (rule node_inputs_one)
  then have F: "wf_facts F" by (simp add: view_of_def)
  from infer_reshape_Inr[OF i F] have c: "is_canonical_contiguous F" and n: "prod_list shape = prod_list (logical_shape F)"
    and G: "TensorFacts_contiguous shape (representation F) = Inr G" by auto
  note g = TensorFacts_contiguous_Inr[OF G]
  have "byte_len G = byte_len F"
    using wf_facts_byte_len(1)[OF F] wf_facts_byte_len(1)[OF g(1)] canonical_fields(2)[OF c] g n by (simp add: width_def)
  then have "view_of G (rv_bytes x)" using x(2) g(1) by (simp add: view_of_def)
  then have "produces (Reshape shape) [F] ins [G] (alias_node_execution x)"
    by (rule alias_produces) (simp_all add: node_origin_def node_spec_def bytes_of_def x(1))
  then show ?thesis
    by (simp add: execute_reshape_node_def x(1) list_get_def delivers_retE del: retE_apply)
qed

section \<open>Permutations\<close>

lemma identity_order: "is_identity_order order \<Longrightarrow> order = [0..<length order]"
  by (rule nth_equalityI) (auto simp: is_identity_order_def list_all_length nth_enumerate_eq try_from_Inr)

lemma scatter_identity:
  assumes "is_identity_order order" "length c = length order"
  shows "scatter_strides order c (length order) = c"
proof (rule nth_equalityI)
  have o: "distinct order" "set order = {..<length order}"
    using identity_order[OF assms(1)] by (metis distinct_upt, metis atLeast0LessThan set_upt)
  note s = scatter_strides_nth[OF o refl, where physical = c]
  show "length (scatter_strides order c (length order)) = length c" using s(1) assms(2) by simp
  fix i assume "i < length (scatter_strides order c (length order))"
  then have i: "i < length order" using s(1) by simp
  then have "order ! i = i" using identity_order[OF assms(1)] by (metis add.left_neutral nth_upt)
  then show "scatter_strides order c (length order) ! i = c ! i" using s(2)[OF i] by simp
qed

text \<open>Row-major storage has no padding, so a tensor trivially is its own copy.\<close>

lemma wrote_self:
  assumes "view_of F v" and "storage_shape F = logical_shape F" "storage_strides F = row_strides (logical_shape F)"
    and "\<And>c. in_shape c (logical_shape F) \<Longrightarrow> f c = element F (as_slice v) c"
  shows "wrote F f out (as_slice v)"
proof -
  have "\<exists>c. in_shape c (logical_shape F) \<and> offset c (storage_strides F) = j" if "j < prod_list (storage_shape F)" for j
    using coords_in_shape[of "logical_shape F" j] offset_coords[of j "logical_shape F"] that assms(2,3) by fastforce
  then show ?thesis using view_of_bytes(1)[OF assms(1)] assms(4) by (auto simp: wrote_def)
qed

lemma identity_storage:
  assumes i: "infer_permute p F = Inr [F]" and o: "is_identity_order (permute_order p)" and F: "wf_facts F"
  shows "storage_shape F = logical_shape F \<and> storage_strides F = row_strides (logical_shape F)"
proof (cases "permute_mode p")
  case Logical
  from infer_permute_logical[OF i Logical] have G: "TensorFacts_contiguous (map ((!) (logical_shape F)) (permute_order p))
      (Representation_contiguous (dtype (representation F))) = Inr F" by auto
  show ?thesis using TensorFacts_contiguous_Inr[OF G] by simp
next
  case (Storage target)
  from infer_permute_storage[OF i Storage] have len: "length (permute_order p) = length (logical_shape F)"
    and S: "storage_shape F = map ((!) (logical_shape F)) (permute_order p)"
    and T: "storage_strides F = scatter_strides (permute_order p) (row_strides (storage_shape F)) (length (permute_order p))"
    by auto
  have "map ((!) (logical_shape F)) (permute_order p) = logical_shape F"
    using identity_order[OF o] len by (metis map_nth)
  then show ?thesis using S T scatter_identity[OF o, of "row_strides (logical_shape F)"] len by simp
qed

lemma permute_bytes_correct:
  assumes i: "infer_permute p F = Inr [G]" and v: "view_of F v" and nz: "0 \<notin> set (logical_shape G)"
    and out: "length out = byte_len G"
  shows "delivers (execute_permute_bytes p F G v out) (wrote G (\<lambda>c. element F (as_slice v) (case permute_mode p of
    Logical \<Rightarrow> scatter_strides (permute_order p) c (length (permute_order p)) | Storage _ \<Rightarrow> c)) out)"
proof (cases "permute_mode p")
  case Logical
  from infer_permute_logical[OF i Logical] have perm: "validate_permutation (permute_order p) = Inr ()"
    "length (permute_order p) = length (logical_shape F)"
    and G: "TensorFacts_contiguous (map ((!) (logical_shape F)) (permute_order p))
        (Representation_contiguous (dtype (representation F))) = Inr G" by auto
  note c = TensorFacts_contiguous_Inr[OF G]
  have "delivers (execute_permute_bytes p F G v out) (wrote G (\<lambda>c.
      element F (as_slice v) (scatter_strides (permute_order p) c (length (permute_order p)))) out)"
    using c rows_fit_canonical[OF c(8)] v perm Logical out by (intro execute_permute_logical_delivers) simp_all
  then show ?thesis by (simp add: Logical)
next
  case (Storage target)
  from infer_permute_storage[OF i Storage] have G: "wf_facts G" "logical_shape F = logical_shape G"
    "dtype (representation F) = dtype (representation G)" by auto
  have "delivers (execute_storage_copy F G v out) (wrote G (element F (as_slice v)) out)"
    using v G rows_fit_nonempty[OF G(1) nz] out by (intro execute_storage_copy_delivers)
  then show ?thesis using view_of_bytes(3)[OF v] by (simp add: execute_permute_bytes_def Storage)
qed

lemma oihw_if_supported_correct:
  assumes i: "infer_permute p F = Inr [G]" and v: "view_of F v" and nz: "0 \<notin> set (logical_shape F)"
  shows "delivers (build_oihw_to_ohwi_if_supported avx2 p F G (as_slice v)) (\<lambda>r. \<forall>b. r = Some b \<longrightarrow>
    wrote G (\<lambda>c. element F (as_slice v) (case permute_mode p of
      Logical \<Rightarrow> scatter_strides (permute_order p) c (length (permute_order p)) | Storage _ \<Rightarrow> c)) out b)"
proof (cases "permute_mode p = Logical \<or> permute_order p \<noteq> [0, 2, 3, 1] \<or> \<not> is_canonical_contiguous F")
  case True
  then show ?thesis by (simp add: build_oihw_to_ohwi_if_supported_def delivers_retE del: retE_apply)
next
  case False
  then obtain target where m: "permute_mode p = Storage target" by (cases "permute_mode p") auto
  have F: "wf_facts F" using v by (simp add: view_of_def)
  obtain outs ins kh kw where o: "ohwi_of F G outs ins kh kw" using infer_ohwi[OF i m _ F] False by blast
  have "0 < prod_list (logical_shape F)" using prod_list_pos[OF nz] .
  then have pos: "0 < outs * (ins * (kh * kw))" using o by (simp add: ohwi_of_def)
  show ?thesis
    using build_oihw_to_ohwi_if_supported_delivers[OF o pos view_of_bytes(1)[OF v]] by (rule delivers_mono) (simp add: m)
qed

lemma permute_node_produces:
  assumes i: "infer_permute p F = Inr [G]" and ins: "node_inputs_ok [F] ins" and node: "node_outputs node = [G]"
    and nz: "0 \<notin> set (logical_shape G)"
  shows "delivers (execute_permute_node avx2 p node ins [F]) (produces (Permute p) [F] ins [G])"
proof -
  obtain x where x: "ins = [x]" "view_of F (rv_bytes x)" "0 \<notin> set (logical_shape F)" using ins by (rule node_inputs_one)
  let ?b = "as_slice (rv_bytes x)" let ?o = "permute_order p"
  let ?f = "\<lambda>c. element F ?b (case permute_mode p of Logical \<Rightarrow> scatter_strides ?o c (length ?o) | Storage _ \<Rightarrow> c)"
  have F: "wf_facts F" using x(2) by (simp add: view_of_def)
  have len: "length ?o = length (logical_shape F)"
    using infer_permute_logical[OF i] infer_permute_storage[OF i] by (cases "permute_mode p") auto
  have spec: "node_spec (Permute p) [F] (bytes_of ins) [G] [r]" if "wrote G ?f (zeros G) r" for r
    using that by (simp add: node_spec_def bytes_of_def x(1))
  show ?thesis
  proof (cases "is_identity_order ?o \<and> F = G")
    case True
    have "?f c = element F ?b c" if "in_shape c (logical_shape F)" for c
      using scatter_identity[of ?o c] True in_shape_length[OF that] len by (auto split: PermuteMode.splits)
    then have "wrote F ?f (zeros F) ?b"
      using identity_storage[of p F] True i F x(2) by (intro wrote_self) auto
    then have "produces (Permute p) [F] ins [G] (alias_node_execution x)"
      using True x(2) spec by (intro alias_produces) (auto simp: node_origin_def)
    then have "delivers (bindE check (\<lambda>_. retE (alias_node_execution x))) (produces (Permute p) [F] ins [G])"
      by (intro delivers_bindE[OF delivers_check[of "\<lambda>_. True"]] delivers_retE) simp_all
    then show ?thesis
      using True view_of_bytes(3)[OF x(2)]
      by (simp add: execute_permute_node_def unary_parts[OF node] x(1) Let_def is_identity_permutation_def)
  next
    case False
    have o: "node_origin (Permute p) [F] [G] = Fresh" using False by (auto simp: node_origin_def)
    have G: "wf_facts G" using infer_outputs_wf[of "Permute p" "[F]" "[G]"] i F by (simp add: infer_outputs_def one_input_def)
    have copy: "delivers (execute_permute_bytes p F G (rv_bytes x) (zeros G)) (wrote G ?f (zeros G))"
      using permute_bytes_correct[OF i x(2) nz] by simp
    have fast: "delivers (build_oihw_to_ohwi_if_supported avx2 p F G ?b) (\<lambda>r. \<forall>b. r = Some b \<longrightarrow> wrote G ?f (zeros G) b)"
      using oihw_if_supported_correct[OF i x(2,3)] by simp
    have slow: "delivers (bindE (allocate_tensor G) (\<lambda>output.
        bindE (execute_permute_bytes p F G (rv_bytes x) output) fresh_node_execution)) (produces (Permute p) [F] ins [G])"
      using copy by (rule kernel_produces[OF G _ o spec])
    have "delivers (bindE (build_oihw_to_ohwi_if_supported avx2 p F G ?b) (\<lambda>built. case built of
         Some output \<Rightarrow> fresh_node_execution output
       | None \<Rightarrow> bindE (allocate_tensor G) (\<lambda>output.
           bindE (execute_permute_bytes p F G (rv_bytes x) output) fresh_node_execution))) (produces (Permute p) [F] ins [G])"
      by (rule delivers_bindE[OF fast])
        (auto split: option.splits intro: slow fresh_produces[OF G wrote_length o spec])
    then show ?thesis
      using False view_of_bytes(3)[OF x(2)]
      by (auto simp: execute_permute_node_def unary_parts[OF node] x(1) Let_def is_identity_permutation_def)
  qed
qed


section \<open>Splits\<close>

lemma shift_window:
  assumes "axis < length (logical_shape F)" and "length c = length (logical_shape F)"
  shows "shift (split_window axis F r) c = c[axis := ar_start r + c ! axis]"
  using assms by (intro nth_equalityI) (auto simp: shift_def split_window_def nth_list_update)

lemma split_window_ready:
  assumes "split_output axis F r G" and "axis < length (logical_shape F)" and "view_of F v"
  shows "slice_ready (split_window axis F r, F, G, v)" "rows_fit G"
proof -
  from assms(1) have r: "ar_start r < ar_end r" "ar_end r \<le> logical_shape F ! axis"
    and G: "TensorFacts_contiguous ((logical_shape F)[axis := ar_end r - ar_start r])
       (Representation_contiguous (dtype (representation F))) = Inr G" by (auto simp: split_output_def)
  note c = TensorFacts_contiguous_Inr[OF G]
  have "map (\<lambda>r. ar_end r - ar_start r) (split_window axis F r) = (logical_shape F)[axis := ar_end r - ar_start r]"
    using assms(2) by (intro nth_equalityI) (auto simp: split_window_def nth_list_update)
  then show "slice_ready (split_window axis F r, F, G, v)"
    using c r assms(2,3)
    by (auto simp: slice_ready_def split_window_def list_all2_conv_all_nth nth_list_update width_def)
  show "rows_fit G" using rows_fit_canonical[OF c(8)] .
qed

lemma split_output_produces:
  assumes "split_output axis F r G" and ax: "axis < length (logical_shape F)" "axis < usize_bound" and v: "view_of F v"
    and out: "\<And>b. view_of G b \<Longrightarrow> wrote G (\<lambda>c. element F (as_slice v) (c[axis := ar_start r + c ! axis]))
      (zeros G) (as_slice b) \<Longrightarrow> Q (outs @ [\<lparr>produced_bytes = b, produced_origin = Fresh\<rparr>])"
  shows "delivers (bindE check (\<lambda>_.
         bindE (liftE (Axis_as_usize axis)) (\<lambda>axis.
         bindE (allocate_tensor G) (\<lambda>output.
         bindE (execute_slice_bytes (split_window axis F r) F v G output) (\<lambda>output.
         bindE (from_boxed output) (\<lambda>bytes.
           retE (outs @ [\<lparr>produced_bytes = bytes, produced_origin = Fresh\<rparr>]))))))) Q"
proof -
  let ?w = "split_window axis F r" let ?f = "\<lambda>c. element F (as_slice v) (c[axis := ar_start r + c ! axis])"
  note ready = split_window_ready[OF assms(1) ax(1) v]
  have G: "wf_facts G" and L: "logical_shape G = map (\<lambda>r. ar_end r - ar_start r) ?w" using ready(1) by (auto simp: slice_ready_def)
  have eq: "element F (as_slice v) (shift ?w c) = ?f c" if "in_shape c (logical_shape G)" for c
    using shift_window[OF ax(1), of c r] in_shape_length[OF that] L by (simp add: split_window_def)
  have copy: "delivers (execute_slice_bytes ?w F v G (zeros G)) (wrote G ?f (zeros G))"
    by (rule delivers_mono[OF execute_slice_bytes_delivers[OF ready length_zeros]]) (simp add: wrote_def eq)
  have box: "delivers (bindE (from_boxed x) (\<lambda>bytes. retE (outs @ [\<lparr>produced_bytes = bytes, produced_origin = Fresh\<rparr>]))) Q"
    if x: "wrote G ?f (zeros G) x" for x
  proof (rule delivers_bindE[OF from_boxed_delivers[of x "\<lambda>b. wf_view b \<and> as_slice b = x"]])
    show "length x < usize_bound" using wrote_length[OF x] wf_byte_len[OF G] by simp
    fix b assume b: "wf_view b \<and> as_slice b = x"
    then have "view_of G b" using G wrote_length[OF x] length_as_slice[of b] by (auto simp: view_of_def)
    then show "delivers (retE (outs @ [\<lparr>produced_bytes = b, produced_origin = Fresh\<rparr>])) Q"
      using out[of b] x b by (intro delivers_retE) simp
  qed blast
  have "Axis_as_usize axis = Inr axis" using ax(2) by (simp add: Axis_as_usize_def usize_try_from_def)
  then show ?thesis
    by simp (rule delivers_bindE[OF delivers_check[of "\<lambda>_. True"] delivers_bindE[OF allocate_zeros[OF G]]], simp,
      simp, rule delivers_bindE[OF copy box])
qed

lemma split_node_produces:
  assumes i: "infer_split sp F = Inr Gs" and ins: "node_inputs_ok [F] ins" and node: "node_outputs node = Gs"
    and ax: "split_axis sp < usize_bound"
  shows "delivers (execute_split_node sp node ins [F]) (produces (Split sp) [F] ins Gs)"
proof -
  obtain x where x: "ins = [x]" "view_of F (rv_bytes x)" using ins by (rule node_inputs_one)
  let ?a = "split_axis sp" let ?R = "split_ranges sp" let ?b = "as_slice (rv_bytes x)"
  let ?f = "\<lambda>i c. element F ?b (c[?a := ar_start (?R ! i) + c ! ?a])"
  from infer_split_Inr[OF i] have axis: "?a < length (logical_shape F)"
    and outs: "list_all2 (split_output ?a F) ?R Gs" by auto
  have len: "length ?R = length Gs" using outs by (rule list_all2_lengthD)
  let ?I = "\<lambda>k ps. length ps = k \<and> (\<forall>i < k. view_of (Gs ! i) (produced_bytes (ps ! i)) \<and> produced_origin (ps ! i) = Fresh
      \<and> wrote (Gs ! i) (?f i) (zeros (Gs ! i)) (as_slice (produced_bytes (ps ! i))))"
  let ?body = "\<lambda>p outputs. bindE check (\<lambda>_.
         bindE (liftE (Axis_as_usize ?a)) (\<lambda>axis.
         bindE (allocate_tensor (snd p)) (\<lambda>output.
         bindE (execute_slice_bytes (split_window axis F (fst p)) F (rv_bytes x) (snd p) output) (\<lambda>output.
         bindE (from_boxed output) (\<lambda>bytes.
           retE (outputs @ [\<lparr>produced_bytes = bytes, produced_origin = Fresh\<rparr>]))))))"
  have loop: "delivers (foldE ?body (zip ?R Gs) []) (?I (length (zip ?R Gs)))"
  proof (rule delivers_foldE[of ?I])
    fix k and ps :: "ProducedValue list" assume k: "k < length (zip ?R Gs)" and I: "?I k ps"
    have "split_output ?a F (?R ! k) (Gs ! k)" using outs k by (simp add: list_all2_conv_all_nth)
    then show "delivers (?body (zip ?R Gs ! k) ps) (?I (Suc k))"
      using k I split_output_produces[of ?a F "?R ! k" "Gs ! k" "rv_bytes x" "?I (Suc k)" ps] axis ax x(2)
      by (simp add: nth_append less_Suc_eq)
  qed simp
  have "produces (Split sp) [F] ins Gs \<lparr>execution_outputs = ps, transient_scratch = 0\<rparr>" if "?I (length Gs) ps"
    for ps :: "ProducedValue list"
    using that by (simp add: produces_def node_spec_def node_origin_def bytes_of_def x(1))
  then show ?thesis
    using delivers_bindE[OF loop, of "\<lambda>outputs. retE \<lparr>execution_outputs = outputs, transient_scratch = 0\<rparr>"] len
    by (simp add: execute_split_node_def x(1) node list_get_def delivers_retE del: retE_apply)
qed

section \<open>Every node\<close>

lemma execute_node_produces:
  assumes i: "infer_outputs (node_operation node) Fs = Inr (node_outputs node)" and ins: "node_inputs_ok Fs ins"
    and nz: "\<forall>G \<in> set (node_outputs node). 0 \<notin> set (logical_shape G)"
    and np: "\<forall>tr. node_operation node \<noteq> Prepare tr"
  shows "delivers (execute_node avx2 providers node ins Fs) (produces (node_operation node) Fs ins (node_outputs node))"
proof -
  have len: "length Fs = length ins" using ins by (simp add: node_inputs_ok_def)
  have run: "execute_node avx2 providers node ins Fs = (case node_operation node of
       Concat axis \<Rightarrow> execute_concat_node axis node ins Fs
     | Permute permute \<Rightarrow> execute_permute_node avx2 permute node ins Fs
     | Pad pad \<Rightarrow> execute_pad_node node ins Fs
     | Slice ranges \<Rightarrow> execute_slice_node ranges node ins Fs
     | Split split \<Rightarrow> execute_split_node split node ins Fs
     | Reshape _ \<Rightarrow> execute_reshape_node ins
     | Prepare transform \<Rightarrow> execute_prepare_node providers transform ins Fs)"
    using len by (simp add: execute_node_def)
  show ?thesis
  proof (cases "node_operation node")
    case (Concat axis)
    then have c: "infer_concat axis Fs = Inr (node_outputs node)" using i by (simp add: infer_outputs_def)
    then obtain G where G: "node_outputs node = [G]" using infer_concat_Inr by blast
    then show ?thesis using concat_node_produces[of axis Fs G ins node] c ins nz Concat run by simp
  next
    case (Permute p)
    then obtain F where F: "Fs = [F]" and c: "infer_permute p F = Inr (node_outputs node)"
      using i by (auto simp: infer_outputs_def bindR_Inr one_input_Inr)
    then obtain G where G: "node_outputs node = [G]"
      using infer_permute_logical[OF c] infer_permute_storage[OF c] by (cases "permute_mode p") auto
    then show ?thesis using permute_node_produces[of p F G ins node avx2] c ins nz Permute F run by simp
  next
    case (Pad pad)
    then obtain F where F: "Fs = [F]" and c: "infer_pad pad F = Inr (node_outputs node)"
      using i by (auto simp: infer_outputs_def bindR_Inr one_input_Inr)
    then obtain G where G: "node_outputs node = [G]" using infer_pad_Inr by blast
    then show ?thesis using pad_node_produces[of pad F G ins node] c ins Pad F run by simp
  next
    case (Slice ranges)
    then obtain F where F: "Fs = [F]" and c: "infer_slice ranges F = Inr (node_outputs node)"
      using i by (auto simp: infer_outputs_def bindR_Inr one_input_Inr)
    then obtain G where G: "node_outputs node = [G]" using infer_slice_Inr by blast
    then show ?thesis using slice_node_produces[of ranges F G ins node] c ins Slice F run by simp
  next
    case (Split sp)
    then obtain F where F: "Fs = [F]" and c: "infer_split sp F = Inr (node_outputs node)"
      using i by (auto simp: infer_outputs_def bindR_Inr one_input_Inr)
    then have "split_axis sp < usize_bound" by (auto simp: infer_split_def bindR_Inr validate_axis_Inr)
    then show ?thesis using split_node_produces[of sp F "node_outputs node" ins node] c ins Split F run by simp
  next
    case (Reshape shape)
    then obtain F where F: "Fs = [F]" and c: "infer_reshape shape F = Inr (node_outputs node)"
      using i by (auto simp: infer_outputs_def bindR_Inr one_input_Inr)
    then have "wf_facts F" using ins by (auto simp: node_inputs_ok_def view_of_def)
    then obtain G where G: "node_outputs node = [G]" using infer_reshape_Inr[OF c] by blast
    then show ?thesis using reshape_node_produces[of shape F G ins] c ins Reshape F run by simp
  next
    case (Prepare tr)
    then show ?thesis using np by blast
  qed
qed

end
