(* ===== verification/MW_Run.thy ===== *)
theory MW_Run
  imports MW_Nodes
begin

text \<open>
  A whole run of a graph without provider nodes. The schedule of the executor goes through
  exactly the states of the static estimate, the runtime map holds exactly the live values, and
  the bytes of every value satisfy the specification of the node that produced it.
\<close>

section \<open>The runtime map follows the schedule\<close>

lemma remove_value_live:
  assumes "remove_value v s = Inr s'"
  shows "v \<in> dom (live_values s) \<and> live_values s' = (live_values s)(v := None)"
  using assms by (auto simp: remove_value_def bindR_Inr Let_def split: option.splits if_splits)

lemma consume_value_live:
  assumes "consume_value v s = Inr (b, s')"
  shows "if b then v \<in> dom (live_values s) \<and> live_values s' = (live_values s)(v := None)
    else live_values s' = live_values s"
  using assms
  by (auto simp: consume_value_def bindR_Inr Let_def split: if_splits dest!: remove_value_live)

lemma restrict_dom: "dom m = D \<Longrightarrow> m |` D = m"
  by (auto simp: restrict_map_def fun_eq_iff domIff)

lemma consume_runtime:
  assumes "dom rt = dom (live_values s)" and "consume_inputs vs s = Inr s'"
  shows "consume_runtime_inputs vs (s, rt) = Inr (s', rt |` dom (live_values s'))
    \<and> live_values s' = live_values s |` dom (live_values s')"
  using assms
proof (induction vs arbitrary: s rt)
  case Nil
  then show ?case by (auto simp: consume_inputs_def consume_runtime_inputs_def restrict_dom)
next
  case (Cons v vs)
  from Cons.prems(2) obtain b s1 where c: "consume_value v s = Inr (b, s1)" and rest: "consume_inputs vs s1 = Inr s'"
    by (auto simp: consume_inputs_def bindR_Inr)
  let ?rt = "if b then rt(v := None) else rt"
  note live = consume_value_live[OF c]
  have d: "dom ?rt = dom (live_values s1)" using live Cons.prems(1) by (auto split: if_splits)
  note IH = Cons.IH[OF d rest]
  have step: "consume_runtime_inputs (v # vs) (s, rt) = consume_runtime_inputs vs (s1, ?rt)"
  proof (cases b)
    case True
    with live Cons.prems(1) obtain x where "rt v = Some x" by (metis domD)
    with True c show ?thesis by (simp add: consume_runtime_inputs_def ok_or_def)
  next
    case False
    with c show ?thesis by (simp add: consume_runtime_inputs_def)
  qed
  have sub: "dom (live_values s') \<subseteq> dom (live_values s1)" using IH by (metis dom_restrict inf_le1)
  have e1: "?rt |` dom (live_values s') = rt |` dom (live_values s')"
    using live sub by (auto simp: restrict_map_def fun_eq_iff split: if_splits)
  have e2: "live_values s1 |` dom (live_values s') = live_values s |` dom (live_values s')"
    using live sub by (auto simp: restrict_map_def fun_eq_iff split: if_splits)
  show ?case unfolding step using IH unfolding e1 e2 .
qed

lemma remove_unused_run:
  assumes "dom rt = dom (live_values s)" and "remove_unused vs s = Inr s'"
  shows "remove_unused_runtime vs (s, rt) = Inr (s', rt |` dom (live_values s'))
    \<and> live_values s' = live_values s |` dom (live_values s')"
  using assms
proof (induction vs arbitrary: s rt)
  case Nil
  then show ?case by (auto simp: remove_unused_def remove_unused_runtime_def restrict_dom)
next
  case (Cons v vs)
  let ?b = "use_count (remaining_uses s) v = 0"
  from Cons.prems(2) obtain s1 where c: "(if ?b then remove_value v s else Inr s) = Inr s1"
    and rest: "remove_unused vs s1 = Inr s'" by (auto simp: remove_unused_def bindR_Inr)
  let ?rt = "if ?b then rt(v := None) else rt"
  have live: "if ?b then v \<in> dom (live_values s) \<and> live_values s1 = (live_values s)(v := None) else s1 = s"
    using c remove_value_live[of v s s1] by (cases ?b) auto
  have d: "dom ?rt = dom (live_values s1)" using live Cons.prems(1) by (auto split: if_splits)
  note IH = Cons.IH[OF d rest]
  have step: "remove_unused_runtime (v # vs) (s, rt) = remove_unused_runtime vs (s1, ?rt)"
  proof (cases ?b)
    case True
    with live Cons.prems(1) obtain x where "rt v = Some x" by (metis domD)
    with True c show ?thesis by (simp add: remove_unused_runtime_def ok_or_def)
  next
    case False
    with c show ?thesis by (simp add: remove_unused_runtime_def)
  qed
  have sub: "dom (live_values s') \<subseteq> dom (live_values s1)" using IH by (metis dom_restrict inf_le1)
  have e1: "?rt |` dom (live_values s') = rt |` dom (live_values s')"
    using live sub by (auto simp: restrict_map_def fun_eq_iff split: if_splits)
  have e2: "live_values s1 |` dom (live_values s') = live_values s |` dom (live_values s')"
    using live sub by (auto simp: restrict_map_def fun_eq_iff split: if_splits)
  show ?case unfolding step using IH unfolding e1 e2 .
qed

section \<open>Placing outputs\<close>

definition origin_index :: "OutputOrigin \<Rightarrow> nat option" where
  "origin_index o' = (case o' of Fresh \<Rightarrow> None | Alias i \<Rightarrow> Some i)"

lemma insert_value_live:
  "insert_value v a s = Inr s' \<Longrightarrow> v \<notin> dom (live_values s) \<and> live_values s' = (live_values s)(v \<mapsto> a)"
  by (auto simp: insert_value_def bindR_Inr domIff split: option.splits)

lemma create_allocation_live: "create_allocation n s = Inr (a, s') \<Longrightarrow> live_values s' = live_values s"
  by (auto simp: create_allocation_def bindR_Inr)

lemma place_produced_step:
  assumes place: "place_output inputs (origin_index (produced_origin p)) (byte_len G) (NodeOutput n k) s = Inr s'"
    and k: "k < u32_bound" and len: "length iv = length inputs"
    and al: "\<And>i. produced_origin p = Alias i \<Longrightarrow> i < length inputs"
    and iv: "\<forall>i < length inputs. live_values s (inputs ! i) = Some (rv_allocation (iv ! i))"
  shows "\<exists>a. place_produced n iv (k, p, G) ((s, rt), vs) =
      Inr ((s', rt(NodeOutput n k \<mapsto> \<lparr>rv_bytes = produced_bytes p, rv_allocation = a\<rparr>)), vs @ [NodeOutput n k])
    \<and> live_values s' = (live_values s)(NodeOutput n k \<mapsto> a)"
proof (cases "produced_origin p")
  case Fresh
  with place obtain a s1 where c: "create_allocation (byte_len G) s = Inr (a, s1)"
    and i: "insert_value (NodeOutput n k) (Some a) s1 = Inr s'"
    by (auto simp: place_output_def origin_index_def bindR_Inr)
  then show ?thesis
    using Fresh k insert_value_live[OF i] create_allocation_live[OF c]
    by (auto simp: place_produced_def Let_def index_as_u32_def try_from_ok)
next
  case (Alias i)
  then have il: "i < length inputs" using al by blast
  with Alias place iv have i: "insert_value (NodeOutput n k) (rv_allocation (iv ! i)) s = Inr s'"
    by (simp add: place_output_def origin_index_def)
  then show ?thesis
    using Alias k insert_value_live[OF i] il len
    by (auto simp: place_produced_def Let_def index_as_u32_def try_from_ok list_get_def)
qed

lemma place_all:
  assumes place: "foldR (\<lambda>k. place_output inputs (origin_index (produced_origin (ps ! k))) (byte_len (Gs ! k)) (NodeOutput n k))
      [0..<K] s = Inr s'"
    and K: "K \<le> length Gs" "K \<le> u32_bound" and len: "length iv = length inputs"
    and al: "\<forall>k < K. \<forall>i. produced_origin (ps ! k) = Alias i \<longrightarrow> i < length inputs"
    and iv: "\<forall>i < length inputs. live_values s (inputs ! i) = Some (rv_allocation (iv ! i))"
    and sep: "\<forall>v \<in> set inputs. \<forall>k. v \<noteq> NodeOutput n k"
  shows "\<exists>a. foldR (place_produced n iv) (map (\<lambda>k. (k, ps ! k, Gs ! k)) [0..<K]) ((s, rt), []) =
      Inr ((s', \<lambda>v. case v of NodeOutput m k \<Rightarrow> if m = n \<and> k < K
            then Some \<lparr>rv_bytes = produced_bytes (ps ! k), rv_allocation = a k\<rparr> else rt v | _ \<Rightarrow> rt v),
        map (NodeOutput n) [0..<K])
    \<and> live_values s' = (\<lambda>v. case v of NodeOutput m k \<Rightarrow> if m = n \<and> k < K then Some (a k) else live_values s v
        | _ \<Rightarrow> live_values s v)"
  using place K al
proof (induction K arbitrary: s')
  case 0
  then show ?case by (auto simp: fun_eq_iff split: ValueRef.splits)
next
  case (Suc K)
  from Suc.prems(1) obtain s1 where
    before: "foldR (\<lambda>k. place_output inputs (origin_index (produced_origin (ps ! k))) (byte_len (Gs ! k)) (NodeOutput n k))
      [0..<K] s = Inr s1"
    and here: "place_output inputs (origin_index (produced_origin (ps ! K))) (byte_len (Gs ! K)) (NodeOutput n K) s1 = Inr s'"
    by (auto simp: foldR_append bindR_Inr)
  let ?rt = "\<lambda>a v. case v of NodeOutput m k \<Rightarrow> if m = n \<and> k < K
            then Some \<lparr>rv_bytes = produced_bytes (ps ! k), rv_allocation = a k\<rparr> else rt v | _ \<Rightarrow> rt v"
  have al: "\<forall>k < K. \<forall>i. produced_origin (ps ! k) = Alias i \<longrightarrow> i < length inputs"
    using Suc.prems(4) less_SucI by blast
  have al': "\<And>i. produced_origin (ps ! K) = Alias i \<Longrightarrow> i < length inputs" using Suc.prems(4) by blast
  have KL: "K \<le> length Gs" "K \<le> u32_bound" using Suc.prems(2,3) by simp_all
  from Suc.IH[OF before KL al] obtain a where
    run: "foldR (place_produced n iv) (map (\<lambda>k. (k, ps ! k, Gs ! k)) [0..<K]) ((s, rt), []) =
      Inr ((s1, ?rt a), map (NodeOutput n) [0..<K])"
    and live: "live_values s1 = (\<lambda>v. case v of NodeOutput m k \<Rightarrow> if m = n \<and> k < K then Some (a k) else live_values s v
        | _ \<Rightarrow> live_values s v)" by blast
  have iv1: "\<forall>i < length inputs. live_values s1 (inputs ! i) = Some (rv_allocation (iv ! i))"
  proof (intro allI impI)
    fix i assume i: "i < length inputs"
    then have "\<And>k. inputs ! i \<noteq> NodeOutput n k" using sep by (metis nth_mem)
    then show "live_values s1 (inputs ! i) = Some (rv_allocation (iv ! i))"
      using iv i live by (cases "inputs ! i") auto
  qed
  have KK: "K < u32_bound" using Suc.prems(3) by simp
  from place_produced_step[OF here KK len al' iv1, of "?rt a" "map (NodeOutput n) [0..<K]"]
  obtain b where
    last: "place_produced n iv (K, ps ! K, Gs ! K) ((s1, ?rt a), map (NodeOutput n) [0..<K]) =
      Inr ((s', (?rt a)(NodeOutput n K \<mapsto> \<lparr>rv_bytes = produced_bytes (ps ! K), rv_allocation = b\<rparr>)),
        map (NodeOutput n) [0..<K] @ [NodeOutput n K])"
    and live': "live_values s' = (live_values s1)(NodeOutput n K \<mapsto> b)" by auto
  show ?case
    using run last live live'
    by (intro exI[of _ "a(K := b)"]) (auto simp: foldR_append fun_eq_iff less_Suc_eq split: ValueRef.splits)
qed

section \<open>One node of a run\<close>

definition facts_of :: "OperationGraph \<Rightarrow> nat \<Rightarrow> TensorFacts list" where
  "facts_of g n = map (\<lambda>v. the (graph_facts g v)) (node_inputs (graph_nodes g ! n))"

lemma facts_of_node:
  assumes "wf_graph g" and "n < length (graph_nodes g)"
  shows "\<forall>v \<in> set (node_inputs (graph_nodes g ! n)). graph_facts g v = Some (the (graph_facts g v))"
    and "infer_outputs (node_operation (graph_nodes g ! n)) (facts_of g n) = Inr (node_outputs (graph_nodes g ! n))"
proof -
  obtain fs where fs: "mapR (\<lambda>v. ok_or Binding (graph_facts g v)) (node_inputs (graph_nodes g ! n)) = Inr fs"
    and i: "infer_outputs (node_operation (graph_nodes g ! n)) fs = Inr (node_outputs (graph_nodes g ! n))"
    using wf_graph_inference[OF assms] by blast
  have len: "length fs = length (node_inputs (graph_nodes g ! n))"
    and at: "\<And>i. i < length (node_inputs (graph_nodes g ! n)) \<Longrightarrow> graph_facts g (node_inputs (graph_nodes g ! n) ! i) = Some (fs ! i)"
    using fs by (simp_all add: mapR_Inr)
  show "\<forall>v \<in> set (node_inputs (graph_nodes g ! n)). graph_facts g v = Some (the (graph_facts g v))"
    using at by (auto simp: in_set_conv_nth)
  have "fs = facts_of g n" using len at by (intro nth_equalityI) (simp_all add: facts_of_def)
  then show "infer_outputs (node_operation (graph_nodes g ! n)) (facts_of g n) = Inr (node_outputs (graph_nodes g ! n))"
    using i by simp
qed

text \<open>The executor creates an allocation exactly where the estimate does.\<close>

lemma static_origin_run:
  assumes wf: "wf_graph g" and n: "n < length (graph_nodes g)" and k: "k < length (node_outputs (graph_nodes g ! n))"
  shows "static_origin g n k = origin_index
    (node_origin (node_operation (graph_nodes g ! n)) (facts_of g n) (node_outputs (graph_nodes g ! n)))"
proof -
  let ?node = "graph_nodes g ! n"
  note i = facts_of_node(2)[OF wf n] and F = facts_of_node(1)[OF wf n]
  show ?thesis
  proof (cases "node_operation ?node")
    case (Permute p)
    then obtain A where A: "facts_of g n = [A]" and c: "infer_permute p A = Inr (node_outputs ?node)"
      using i by (auto simp: infer_outputs_def bindR_Inr one_input_Inr)
    then obtain G where G: "node_outputs ?node = [G]"
      using infer_permute_logical[OF c] infer_permute_storage[OF c] by (cases "permute_mode p") auto
    obtain v where v: "node_inputs ?node = [v]" and "A = the (graph_facts g v)"
      using A by (auto simp: facts_of_def map_eq_Cons_conv)
    then have "graph_facts g v = Some A" using F by simp
    then show ?thesis using Permute A G v k
      by (simp add: static_origin_def node_output_alias_input_def node_origin_def origin_index_def)
  next
    case (Reshape shape)
    then obtain A where A: "facts_of g n = [A]" and c: "infer_reshape shape A = Inr (node_outputs ?node)"
      using i by (auto simp: infer_outputs_def bindR_Inr one_input_Inr)
    then obtain G where G: "node_outputs ?node = [G]" unfolding infer_reshape_def bindR_Inr by (metis sum.inject(2))
    obtain v where v: "node_inputs ?node = [v]" using A by (auto simp: facts_of_def map_eq_Cons_conv)
    then show ?thesis using Reshape G k
      by (simp add: static_origin_def node_output_alias_input_def node_origin_def origin_index_def)
  qed (auto simp: static_origin_def node_output_alias_input_def node_origin_def origin_index_def split: list.splits)
qed

lemma produced_index:
  assumes wf: "wf_graph g" and n: "n < length (graph_nodes g)"
    and p: "produces (node_operation (graph_nodes g ! n)) (facts_of g n) iv (node_outputs (graph_nodes g ! n)) x"
    and k: "k < length (node_outputs (graph_nodes g ! n))"
  shows "origin_index (produced_origin (execution_outputs x ! k)) = static_origin g n k"
    and "byte_len (node_outputs (graph_nodes g ! n) ! k) = value_bytes g (NodeOutput n k)"
  using p k static_origin_run[OF wf n k] n
  by (simp_all add: produces_def value_bytes_def graph_facts_def value_facts_def list_get_def)

text \<open>Accounting one executed node: the new runtime map holds the values that stay live.\<close>

lemma account_runtime:
  assumes wf: "wf_graph g" and n: "n < length (graph_nodes g)" and node: "node = graph_nodes g ! n"
    and acc: "account_node g (static_origin g) (\<lambda>_. 0) n s = Inr s'"
    and d: "dom rt = dom (live_values s)"
    and al: "\<forall>v x. rt v = Some x \<longrightarrow> live_values s v = Some (rv_allocation x)"
    and unused: "\<forall>k. rt (NodeOutput n k) = None"
    and iv: "\<forall>i < length (node_inputs node). rt (node_inputs node ! i) = Some (iv ! i)" "length iv = length (node_inputs node)"
    and p: "produces (node_operation node) (facts_of g n) iv (node_outputs node) x"
  shows "\<exists>s1 s2 sr rt1 rt'. foldR (place_produced n iv) (enumerate 0 (zip (execution_outputs x) (node_outputs node))) ((s, rt), [])
        = Inr ((s1, rt1), outputs_of g n)
    \<and> observe_transient (transient_scratch x) s1 = Inr s2
    \<and> consume_runtime_inputs (node_inputs node) (s2, rt1) = Inr sr
    \<and> remove_unused_runtime (outputs_of g n) sr = Inr (s', rt')
    \<and> dom rt' = dom (live_values s')
    \<and> (\<forall>v x. rt' v = Some x \<longrightarrow> live_values s' v = Some (rv_allocation x))
    \<and> (\<forall>v y. rt' v = Some y \<longrightarrow> (\<forall>k. v \<noteq> NodeOutput n k) \<and> rt v = Some y
         \<or> (\<exists>k < length (node_outputs node). v = NodeOutput n k \<and> rv_bytes y = produced_bytes (execution_outputs x ! k)))"
proof -
  let ?K = "length (node_outputs node)" let ?ps = "execution_outputs x"
  have wfn: "wf_nodes (graph_inputs g) (graph_nodes g)" using wf by (simp add: wf_graph_def)
  have K: "?K \<le> u32_bound" using wf_nodes_node[OF wfn n] node less_imp_le by metis
  have len: "length ?ps = ?K" and t0: "transient_scratch x = 0" using p by (simp_all add: produces_def)
  from acc obtain s1 s2 s3 where po: "place_outputs g (static_origin g) n s = Inr s1"
    and ob: "observe_transient 0 s1 = Inr s2" and co: "consume_inputs (node_inputs node) s2 = Inr s3"
    and re: "remove_unused (outputs_of g n) s3 = Inr s'"
    by (auto simp: account_node_def bindR_Inr node)
  note idx = produced_index[OF wf n p[unfolded node]]
  have po': "foldR (\<lambda>k. place_output (node_inputs node) (origin_index (produced_origin (?ps ! k)))
      (byte_len (node_outputs node ! k)) (NodeOutput n k)) [0..<?K] s = Inr s1"
    using po idx unfolding place_outputs_def node
    by (subst foldR_cong[where h = "\<lambda>k. place_output (node_inputs (graph_nodes g ! n)) (static_origin g n k)
         (value_bytes g (NodeOutput n k)) (NodeOutput n k)"]) simp_all
  have org: "\<forall>k < ?K. \<forall>i. produced_origin (?ps ! k) = Alias i \<longrightarrow> i < length (node_inputs node)"
  proof (intro allI impI)
    fix k i assume k: "k < ?K" and "produced_origin (?ps ! k) = Alias i"
    then have "static_origin g n k = Some i" using idx(1)[of k] by (simp add: node origin_index_def)
    then show "i < length (node_inputs node)" unfolding node by (rule static_origin_edge)
  qed
  have ivl: "\<forall>i < length (node_inputs node). live_values s (node_inputs node ! i) = Some (rv_allocation (iv ! i))"
    using iv al by blast
  have sep: "\<forall>v \<in> set (node_inputs node). \<forall>k. v \<noteq> NodeOutput n k"
    using wf_nodes_edges[OF wfn n, of "NodeOutput n _"] node by (auto simp: available_def)
  obtain a where
    run: "foldR (place_produced n iv) (map (\<lambda>k. (k, ?ps ! k, node_outputs node ! k)) [0..<?K]) ((s, rt), []) =
      Inr ((s1, \<lambda>v. case v of NodeOutput m k \<Rightarrow> if m = n \<and> k < ?K
            then Some \<lparr>rv_bytes = produced_bytes (?ps ! k), rv_allocation = a k\<rparr> else rt v | _ \<Rightarrow> rt v),
        map (NodeOutput n) [0..<?K])"
    and live1: "live_values s1 = (\<lambda>v. case v of NodeOutput m k \<Rightarrow> if m = n \<and> k < ?K then Some (a k) else live_values s v
        | _ \<Rightarrow> live_values s v)"
    using place_all[OF po' order_refl K iv(2) org ivl sep, of rt] by blast
  define rt1 where "rt1 = (\<lambda>v. case v of NodeOutput m k \<Rightarrow> if m = n \<and> k < ?K
            then Some \<lparr>rv_bytes = produced_bytes (?ps ! k), rv_allocation = a k\<rparr> else rt v | _ \<Rightarrow> rt v)"
  have live2: "live_values s2 = live_values s1" using ob by (auto simp: observe_transient_def bindR_Inr)
  have d1: "dom rt1 = dom (live_values s2)"
    using d unfolding live2 live1 rt1_def by (auto simp: dom_def set_eq_iff split: ValueRef.splits)
  note c = consume_runtime[OF d1 co]
  let ?rt2 = "rt1 |` dom (live_values s3)"
  have d2: "dom ?rt2 = dom (live_values s3)" using c d1 by (metis dom_restrict)
  note r = remove_unused_run[OF d2 re]
  have d3: "dom (?rt2 |` dom (live_values s')) = dom (live_values s')" using r d2 by (metis dom_restrict)
  have live3: "live_values s' v = live_values s1 v" if "v \<in> dom (live_values s')" for v
    using that c r live2 by (metis domIff restrict_in restrict_out)
  have sub: "rt1 v = Some y" if "(?rt2 |` dom (live_values s')) v = Some y" for v y
    using that by (auto simp: restrict_map_def split: if_splits)
  have al1: "live_values s1 v = Some (rv_allocation y)" if "rt1 v = Some y" for v y
    using that al unfolding live1 rt1_def by (auto split: ValueRef.splits if_splits)
  have "live_values s' v = Some (rv_allocation y)" if "(?rt2 |` dom (live_values s')) v = Some y" for v y
    using al1[OF sub[OF that]] live3[of v] that d3 by (metis domI)
  moreover have "(\<forall>k. v \<noteq> NodeOutput n k) \<and> rt v = Some y
         \<or> (\<exists>k < ?K. v = NodeOutput n k \<and> rv_bytes y = produced_bytes (?ps ! k))"
    if "(?rt2 |` dom (live_values s')) v = Some y" for v y
    using sub[OF that] unused unfolding rt1_def by (cases v) (auto split: if_splits)
  moreover have "foldR (place_produced n iv) (enumerate 0 (zip ?ps (node_outputs node))) ((s, rt), []) = Inr ((s1, rt1), outputs_of g n)"
  proof -
    have "enumerate 0 (zip ?ps (node_outputs node)) = map (\<lambda>k. (k, ?ps ! k, node_outputs node ! k)) [0..<?K]"
      unfolding enumerate_eq_map using len by simp
    then show ?thesis using run unfolding rt1_def outputs_of_def node by simp
  qed
  moreover have "observe_transient (transient_scratch x) s1 = Inr s2" using ob t0 by simp
  ultimately show ?thesis using conjunct1[OF c] conjunct1[OF r] d3 by blast
qed

section \<open>The loop\<close>

text \<open>The bytes of every value are related to the bytes of the inputs, node by node.\<close>

definition computed :: "OperationGraph \<Rightarrow> ByteView list \<Rightarrow> nat \<Rightarrow> (ValueRef \<Rightarrow> u8 list) \<Rightarrow> bool" where
  "computed g views n vals \<longleftrightarrow> (\<forall>i < length views. vals (Input i) = as_slice (views ! i))
     \<and> (\<forall>m < n. node_spec (node_operation (graph_nodes g ! m)) (facts_of g m) (map vals (node_inputs (graph_nodes g ! m)))
          (node_outputs (graph_nodes g ! m)) (map vals (outputs_of g m)))"

definition held :: "OperationGraph \<Rightarrow> runtime \<Rightarrow> (ValueRef \<Rightarrow> u8 list) \<Rightarrow> bool" where
  "held g rt vals \<longleftrightarrow> (\<forall>v x. rt v = Some x \<longrightarrow> as_slice (rv_bytes x) = vals v
     \<and> (\<exists>F. graph_facts g v = Some F \<and> view_of F (rv_bytes x)))"

text \<open>Between nodes the runtime map follows the schedule \<open>s\<close>.\<close>

definition running :: "OperationGraph \<Rightarrow> ByteView list \<Rightarrow> nat \<Rightarrow> LivenessSchedule \<Rightarrow> run_state \<Rightarrow> bool" where
  "running g views n s st \<longleftrightarrow> fst (fst st) = s \<and> dom (snd (fst st)) = dom (live_values s)
     \<and> (\<forall>v x. snd (fst st) v = Some x \<longrightarrow> live_values s v = Some (rv_allocation x))
     \<and> (\<exists>vals. computed g views n vals \<and> held g (snd (fst st)) vals)"

text \<open>A graph that the host executor runs without providers, on tensors that are not empty.\<close>

definition host_ready :: "OperationGraph \<Rightarrow> bool" where
  "host_ready g \<longleftrightarrow> wf_graph g
     \<and> (\<forall>i < length (graph_inputs g). 0 \<notin> set (logical_shape (input_facts (graph_inputs g ! i))))
     \<and> (\<forall>node \<in> set (graph_nodes g). (\<forall>tr. node_operation node \<noteq> Prepare tr)
         \<and> builtin_implementation (node_operation node) = Inr (node_implementation node)
         \<and> (\<forall>G \<in> set (node_outputs node). 0 \<notin> set (logical_shape G)))"

lemma host_ready_facts:
  assumes "host_ready g" and "graph_facts g v = Some F"
  shows "0 \<notin> set (logical_shape F)"
  using assms unfolding host_ready_def graph_facts_def value_facts_def
  by (cases v) (auto simp: list_get_def split: if_splits option.splits dest!: bspec[OF _ nth_mem])

lemma computed_extend:
  assumes wf: "wf_graph g" and n: "n < length (graph_nodes g)" and c: "computed g views n vals"
    and spec: "node_spec (node_operation (graph_nodes g ! n)) (facts_of g n) (map vals (node_inputs (graph_nodes g ! n)))
        (node_outputs (graph_nodes g ! n)) bs"
  shows "computed g views (Suc n) (\<lambda>v. case v of NodeOutput m k \<Rightarrow> if m = n then bs ! k else vals v | _ \<Rightarrow> vals v)"
    (is "computed g views (Suc n) ?vals")
proof -
  have wfn: "wf_nodes (graph_inputs g) (graph_nodes g)" using wf by (simp add: wf_graph_def)
  have same: "?vals v = vals v" if "available (graph_inputs g) (graph_nodes g) n v" for v
    using that by (auto simp: available_def split: ValueRef.splits)
  have ins: "map ?vals (node_inputs (graph_nodes g ! m)) = map vals (node_inputs (graph_nodes g ! m))" if "m \<le> n" for m
  proof (intro map_cong refl same)
    fix v assume "v \<in> set (node_inputs (graph_nodes g ! m))"
    then have "available (graph_inputs g) (graph_nodes g) m v" using wf_nodes_edges[OF wfn] that n by simp
    then show "available (graph_inputs g) (graph_nodes g) n v"
      using that by (auto simp: available_def split: ValueRef.splits)
  qed
  have len: "length bs = length (node_outputs (graph_nodes g ! n))" using spec by (simp add: node_spec_def)
  have outs: "map ?vals (outputs_of g n) = bs"
    using len by (intro nth_equalityI) (simp_all add: outputs_of_def)
  have outs': "map ?vals (outputs_of g m) = map vals (outputs_of g m)" if "m < n" for m
    using that by (simp add: outputs_of_def)
  have "node_spec (node_operation (graph_nodes g ! m)) (facts_of g m) (map ?vals (node_inputs (graph_nodes g ! m)))
          (node_outputs (graph_nodes g ! m)) (map ?vals (outputs_of g m))" if "m < Suc n" for m
  proof (cases "m = n")
    case True
    show ?thesis unfolding True ins[OF order_refl] outs by (rule spec)
  next
    case False
    then have m: "m < n" using that by simp
    then show ?thesis unfolding ins[OF less_imp_le[OF m]] outs'[OF m] using c by (simp add: computed_def)
  qed
  then show ?thesis using c by (simp add: computed_def)
qed

lemma step_inputs:
  assumes ready: "host_ready g" and n: "n < length (graph_nodes g)" and node: "node = graph_nodes g ! n"
    and live: "set (node_inputs node) \<subseteq> dom rt" and h: "held g rt vals"
  shows "\<exists>iv. mapR (\<lambda>v. ok_or Integrity (rt v)) (node_inputs node) = Inr iv
    \<and> mapR (\<lambda>v. ok_or Integrity (graph_facts g v)) (node_inputs node) = Inr (facts_of g n)
    \<and> length iv = length (node_inputs node) \<and> (\<forall>i < length (node_inputs node). rt (node_inputs node ! i) = Some (iv ! i))
    \<and> node_inputs_ok (facts_of g n) iv \<and> bytes_of iv = map vals (node_inputs node)"
proof -
  let ?iv = "map (\<lambda>v. the (rt v)) (node_inputs node)"
  have wf: "wf_graph g" using ready by (simp add: host_ready_def)
  note F = facts_of_node(1)[OF wf n]
  have at: "rt (node_inputs node ! i) = Some (?iv ! i)" if "i < length (node_inputs node)" for i
  proof -
    have "node_inputs node ! i \<in> dom rt" using live nth_mem[OF that] by blast
    then show ?thesis using that by auto
  qed
  have fa: "graph_facts g (node_inputs node ! i) = Some (facts_of g n ! i)" if "i < length (node_inputs node)" for i
    using F that nth_mem[OF that] node by (simp add: facts_of_def)
  have ok: "as_slice (rv_bytes (?iv ! i)) = vals (node_inputs node ! i) \<and> view_of (facts_of g n ! i) (rv_bytes (?iv ! i))
      \<and> 0 \<notin> set (logical_shape (facts_of g n ! i))" if "i < length (node_inputs node)" for i
    using h at[OF that] fa[OF that] host_ready_facts[OF ready fa[OF that]] unfolding held_def by (metis option.inject)
  have "length (facts_of g n) = length (node_inputs node)" by (simp add: facts_of_def node)
  moreover have "bytes_of ?iv = map vals (node_inputs node)"
    unfolding bytes_of_def using ok by (intro nth_equalityI) simp_all
  ultimately show ?thesis
    using at fa ok by (intro exI[of _ ?iv]) (simp add: mapR_Inr node_inputs_ok_def)
qed

lemma held_extend:
  assumes h: "held g rt vals" and n: "n < length (graph_nodes g)" and node: "node = graph_nodes g ! n"
    and p: "produces op Fs iv (node_outputs node) x"
    and new: "\<forall>v y. rt' v = Some y \<longrightarrow> (\<forall>k. v \<noteq> NodeOutput n k) \<and> rt v = Some y
         \<or> (\<exists>k < length (node_outputs node). v = NodeOutput n k \<and> rv_bytes y = produced_bytes (execution_outputs x ! k))"
  shows "held g rt' (\<lambda>v. case v of NodeOutput m k \<Rightarrow>
      if m = n then map (\<lambda>p. as_slice (produced_bytes p)) (execution_outputs x) ! k else vals v | _ \<Rightarrow> vals v)"
  unfolding held_def
proof (intro allI impI)
  fix v y assume "rt' v = Some y"
  with new consider (old) "\<forall>k. v \<noteq> NodeOutput n k" "rt v = Some y"
    | (out) k where "k < length (node_outputs node)" "v = NodeOutput n k" "rv_bytes y = produced_bytes (execution_outputs x ! k)"
    by blast
  then show "as_slice (rv_bytes y) = (case v of NodeOutput m k \<Rightarrow>
      if m = n then map (\<lambda>p. as_slice (produced_bytes p)) (execution_outputs x) ! k else vals v | _ \<Rightarrow> vals v)
    \<and> (\<exists>F. graph_facts g v = Some F \<and> view_of F (rv_bytes y))"
  proof cases
    case old
    then have "as_slice (rv_bytes y) = vals v \<and> (\<exists>F. graph_facts g v = Some F \<and> view_of F (rv_bytes y))"
      using h by (simp add: held_def)
    then show ?thesis using old by (cases v) auto
  next
    case out
    have "graph_facts g v = Some (node_outputs node ! k)"
      using out(1,2) n node by (simp add: graph_facts_def value_facts_def list_get_def)
    then show ?thesis using out p by (simp add: produces_def)
  qed
qed

lemma execute_step_runs:
  assumes ready: "host_ready g" and n: "n < length (graph_nodes g)"
    and live: "dom (live_values s) = live_at g n"
    and acc: "account_node g (static_origin g) (\<lambda>_. 0) n s = Inr s'"
    and st: "running g views n s st"
  shows "delivers (execute_step avx2 providers observation g (n, graph_nodes g ! n) st) (running g views (Suc n) s')"
proof -
  let ?node = "graph_nodes g ! n" let ?rt = "snd (fst st)"
  have wf: "wf_graph g" using ready by (simp add: host_ready_def)
  have wfn: "wf_nodes (graph_inputs g) (graph_nodes g)" using wf by (simp add: wf_graph_def)
  have id: "index_as_u32 n = Inr n" using n wfn by (simp add: index_as_u32_def try_from_ok wf_nodes_def)
  from st obtain vals where s: "fst (fst st) = s" and d: "dom ?rt = dom (live_values s)"
    and al: "\<forall>v x. ?rt v = Some x \<longrightarrow> live_values s v = Some (rv_allocation x)"
    and c: "computed g views n vals" and h: "held g ?rt vals" by (auto simp: running_def)
  have sub: "set (node_inputs ?node) \<subseteq> dom ?rt" using node_inputs_live[OF wf n] d live by simp
  have np: "\<forall>tr. node_operation ?node \<noteq> Prepare tr" and imp: "builtin_implementation (node_operation ?node) = Inr (node_implementation ?node)"
    and nz: "\<forall>G \<in> set (node_outputs ?node). 0 \<notin> set (logical_shape G)"
    using ready nth_mem[OF n] unfolding host_ready_def by blast+
  have un: "\<forall>k. ?rt (NodeOutput n k) = None"
    using d live by (auto simp: domIff[symmetric] live_at_def external_live_def set_produced_before)
  from step_inputs[OF ready n refl sub h] obtain iv where
    m1: "mapR (\<lambda>v. ok_or Integrity (?rt v)) (node_inputs ?node) = Inr iv"
    and m2: "mapR (\<lambda>v. ok_or Integrity (graph_facts g v)) (node_inputs ?node) = Inr (facts_of g n)"
    and il: "length iv = length (node_inputs ?node)" and iv: "\<forall>i < length (node_inputs ?node). ?rt (node_inputs ?node ! i) = Some (iv ! i)"
    and ok: "node_inputs_ok (facts_of g n) iv" and bytes: "bytes_of iv = map vals (node_inputs ?node)" by blast
  have rest: "delivers (bindE (liftE (ensure (length (execution_outputs x) = length (node_outputs ?node)) Integrity)) (\<lambda>_.
     bindE (liftE (mapR (\<lambda>p. validate_view_len (produced_bytes (fst p)) (byte_len (snd p)))
              (zip (execution_outputs x) (node_outputs ?node)))) (\<lambda>_.
     let events = (case observation of None \<Rightarrow> snd st
           | Some ordinal \<Rightarrow> snd st @ [finished_event ordinal n ?node (facts_of g n) x]) in
     bindE (liftE (foldR (place_produced n iv)
              (enumerate 0 (zip (execution_outputs x) (node_outputs ?node))) (fst st, []))) (\<lambda>placed.
     bindE (liftE (observe_transient (transient_scratch x) (fst (fst placed)))) (\<lambda>s.
     bindE (liftE (consume_runtime_inputs (node_inputs ?node) (s, snd (fst placed)))) (\<lambda>sr.
     bindE (liftE (remove_unused_runtime (snd placed) sr)) (\<lambda>sr.
       retE (sr, events)))))))) (running g views (Suc n) s')"
    if p: "produces (node_operation ?node) (facts_of g n) iv (node_outputs ?node) x" for x
  proof -
    have len: "length (execution_outputs x) = length (node_outputs ?node)"
      and spec: "node_spec (node_operation ?node) (facts_of g n) (map vals (node_inputs ?node)) (node_outputs ?node)
        (map (\<lambda>p. as_slice (produced_bytes p)) (execution_outputs x))"
      using p bytes by (simp_all add: produces_def)
    have "mapR (\<lambda>p. validate_view_len (produced_bytes (fst p)) (byte_len (snd p)))
        (zip (execution_outputs x) (node_outputs ?node)) = Inr (map (\<lambda>_. ()) (zip (execution_outputs x) (node_outputs ?node)))"
      using p by (simp add: mapR_Inr produces_def view_of_bytes)
    moreover from account_runtime[OF wf n refl acc d al un iv il p] obtain s1 s2 sr rt1 rt' where
      run: "foldR (place_produced n iv) (enumerate 0 (zip (execution_outputs x) (node_outputs ?node))) ((s, ?rt), [])
          = Inr ((s1, rt1), outputs_of g n)" "observe_transient (transient_scratch x) s1 = Inr s2"
        "consume_runtime_inputs (node_inputs ?node) (s2, rt1) = Inr sr" "remove_unused_runtime (outputs_of g n) sr = Inr (s', rt')"
      and d': "dom rt' = dom (live_values s')" and al': "\<forall>v x. rt' v = Some x \<longrightarrow> live_values s' v = Some (rv_allocation x)"
      and new: "\<forall>v y. rt' v = Some y \<longrightarrow> (\<forall>k. v \<noteq> NodeOutput n k) \<and> ?rt v = Some y
         \<or> (\<exists>k < length (node_outputs ?node). v = NodeOutput n k \<and> rv_bytes y = produced_bytes (execution_outputs x ! k))"
      by (elim exE conjE) (rule that; assumption)
    moreover have "fst st = (s, ?rt)" using s by (cases st) auto
    moreover have "running g views (Suc n) s' ((s', rt'), ev)" for ev
      using d' al' computed_extend[OF wf n c spec] held_extend[OF h n refl p new] unfolding running_def by auto
    ultimately show ?thesis using len by (simp add: delivers_retE Let_def del: retE_apply)
  qed
  show ?thesis
    unfolding execute_step_def Let_def fst_conv snd_conv
    apply (rule delivers_bindE[OF delivers_check[of "\<lambda>_. True"]], rule TrueI)
    apply (simp add: id imp m1 m2 del: retE_apply)
    apply (rule delivers_bindE[OF execute_node_produces[OF facts_of_node(2)[OF wf n] ok nz np]])
    apply (rule rest[unfolded Let_def])
    apply assumption
    done
qed

section \<open>A whole run\<close>

lemma foldR_trace:
  assumes "foldR f [0..<N] s = Inr t"
  shows "\<exists>S. S 0 = s \<and> S N = t \<and> (\<forall>n < N. f n (S n) = Inr (S (Suc n)))"
  using assms
proof (induction N arbitrary: t)
  case 0
  then show ?case by auto
next
  case (Suc N)
  from Suc.prems obtain t1 where "foldR f [0..<N] s = Inr t1" and last: "f N t1 = Inr t"
    by (auto simp: foldR_append bindR_Inr)
  with Suc.IH obtain S where S: "S 0 = s" "S N = t1" "\<forall>n < N. f n (S n) = Inr (S (Suc n))" by blast
  then have "\<forall>n < Suc N. f n ((S(Suc N := t)) n) = Inr ((S(Suc N := t)) (Suc n))"
    using last by (auto simp: less_Suc_eq)
  then show ?case using S by (intro exI[of _ "S(Suc N := t)"]) auto
qed

lemma host_ready_transient: "host_ready g \<Longrightarrow> n < length (graph_nodes g) \<Longrightarrow> static_transient g n = 0"
  by (auto simp: host_ready_def static_transient_def node_transient_def dest!: bspec[OF _ nth_mem] split: Operation.splits)

lemma account_no_transient:
  assumes "host_ready g" and "n < length (graph_nodes g)"
  shows "account_node g (static_origin g) (static_transient g) n s = account_node g (static_origin g) (\<lambda>_. 0) n s"
  by (simp add: account_node_def host_ready_transient[OF assms])

text \<open>The states of a successful estimate, and what is live in each.\<close>

lemma estimate_states:
  assumes ready: "host_ready g" and est: "estimate_host_scratch_bytes g = Inr b"
  shows "\<exists>S. schedule_new g = Inr (S 0) \<and> (\<forall>n \<le> length (graph_nodes g). dom (live_values (S n)) = live_at g n)
    \<and> (\<forall>n < length (graph_nodes g). account_node g (static_origin g) (\<lambda>_. 0) n (S n) = Inr (S (Suc n)))
    \<and> scratch_excluding_output (graph_output g) (S (length (graph_nodes g))) = Inr b"
proof -
  let ?N = "length (graph_nodes g)" let ?own = "static_owner g" let ?T = "static_transient g"
  have wf: "wf_graph g" using ready by (simp add: host_ready_def)
  have "foldR (estimate_node g) (enumerate 0 (graph_nodes g)) s =
      foldR (account_node g (static_origin g) ?T) [0..<?N] s" for s
    unfolding enumerate_eq_map foldR_map by (rule foldR_cong) (simp add: estimate_node_account[OF wf])
  with est obtain s t where s: "schedule_new g = Inr s"
    and t: "foldR (account_node g (static_origin g) ?T) [0..<?N] s = Inr t"
    and out: "scratch_excluding_output (graph_output g) t = Inr b"
    by (auto simp: estimate_host_scratch_bytes_def bindR_Inr)
  from foldR_trace[OF t] obtain S where S: "S 0 = s" "S ?N = t"
    and step: "\<forall>n < ?N. account_node g (static_origin g) ?T n (S n) = Inr (S (Suc n))" by blast
  have "between g ?own ?T n (S n)" if "n \<le> ?N" for n
    using that
  proof (induction n)
    case 0
    have "meets False (schedule_new g) (between g ?own ?T 0)"
      using wf static.own_input by (intro schedule_new_between) simp_all
    then show ?case using s S by simp
  next
    case (Suc n)
    then show ?case
      using static.account_node_between[OF wf, of n ?T "S n"] step by (simp add: Suc_le_eq)
  qed
  then have "\<forall>n \<le> ?N. dom (live_values (S n)) = live_at g n"
    by (auto simp: between_def tracks_def tracks_by_def)
  then show ?thesis
    using s S step out account_no_transient[OF ready] by (intro exI[of _ S]) auto
qed

text \<open>The views that are bound to the inputs.\<close>

definition inputs_bound :: "OperationGraph \<Rightarrow> ByteView list \<Rightarrow> bool" where
  "inputs_bound g views \<longleftrightarrow> list_all2 (\<lambda>i v. view_of (input_facts i) v) (graph_inputs g) views"

definition initial_runtime :: "ByteView list \<Rightarrow> nat \<Rightarrow> runtime" where
  "initial_runtime views n v = (case v of
     Input i \<Rightarrow> if i < n then Some \<lparr>rv_bytes = views ! i, rv_allocation = None\<rparr> else None | _ \<Rightarrow> None)"

lemma initial_runtime_run:
  assumes b: "inputs_bound g views" and u: "length (graph_inputs g) \<le> u32_bound"
    and n: "n \<le> length (graph_inputs g)"
  shows "foldR (\<lambda>p runtime.
         bindR (validate_view_len (snd (snd p)) (byte_len (input_facts (fst (snd p))))) (\<lambda>_.
         bindR (index_as_u32 (fst p)) (\<lambda>i.
           Inr (runtime(Input i \<mapsto> \<lparr>rv_bytes = snd (snd p), rv_allocation = None\<rparr>)))))
       (map (\<lambda>k. (k, graph_inputs g ! k, views ! k)) [0..<n]) Map.empty = Inr (initial_runtime views n)"
  using n
proof (induction n)
  case 0
  show ?case by (auto simp: initial_runtime_def split: ValueRef.splits)
next
  case (Suc n)
  have "validate_view_len (views ! n) (byte_len (input_facts (graph_inputs g ! n))) = Inr ()"
    using b Suc.prems by (intro view_of_bytes) (simp add: inputs_bound_def list_all2_conv_all_nth)
  moreover have "index_as_u32 n = Inr n" using u Suc.prems by (simp add: index_as_u32_def try_from_ok)
  ultimately show ?case using Suc
    by (auto simp: foldR_append initial_runtime_def fun_eq_iff less_Suc_eq split: ValueRef.splits)
qed

lemma schedule_new_live:
  assumes "schedule_new g = Inr s" and "length (graph_inputs g) \<le> u32_bound"
  shows "live_values s = (\<lambda>v. case v of Input i \<Rightarrow> if i < length (graph_inputs g) then Some None else None | NodeOutput _ _ \<Rightarrow> None)"
  using assms(1) unfolding schedule_new_def initial_values[OF assms(2)] by (auto simp: bindR_Inr)

lemma initial_running:
  assumes wf: "wf_graph g" and b: "inputs_bound g views" and s: "schedule_new g = Inr s"
  shows "running g views 0 s ((s, initial_runtime views (length (graph_inputs g))), [])"
proof -
  have u: "length (graph_inputs g) \<le> u32_bound" using wf by (simp add: wf_graph_def wf_nodes_def)
  note live = schedule_new_live[OF s u]
  let ?rt = "initial_runtime views (length (graph_inputs g))"
  let ?vals = "\<lambda>v. case v of Input i \<Rightarrow> as_slice (views ! i) | _ \<Rightarrow> []"
  have len: "length views = length (graph_inputs g)" using b by (simp add: inputs_bound_def list_all2_lengthD)
  have "dom ?rt = dom (live_values s)"
    unfolding live by (auto simp: initial_runtime_def dom_def set_eq_iff split: ValueRef.splits)
  moreover have "live_values s v = Some (rv_allocation x)" if "?rt v = Some x" for v x
    using that unfolding live by (auto simp: initial_runtime_def split: ValueRef.splits if_splits)
  moreover have "computed g views 0 ?vals" by (simp add: computed_def)
  moreover have "held g ?rt ?vals"
    unfolding held_def using b
    by (auto simp: initial_runtime_def inputs_bound_def list_all2_conv_all_nth graph_facts_def value_facts_def list_get_def
        split: ValueRef.splits if_splits)
  ultimately show ?thesis unfolding running_def fst_conv snd_conv by blast
qed

lemma execute_host_inner_runs:
  assumes ready: "host_ready g" and b: "inputs_bound g views" and est: "estimate_host_scratch_bytes g = Inr bytes"
  shows "delivers (execute_host_inner avx2 providers observation g views) (\<lambda>r. peak_scratch_bytes (fst r) = bytes
    \<and> (\<exists>vals. computed g views (length (graph_nodes g)) vals \<and> as_slice (host_output (fst r)) = vals (graph_output g)))"
    (is "delivers _ ?P")
proof -
  let ?N = "length (graph_nodes g)"
  have wf: "wf_graph g" using ready by (simp add: host_ready_def)
  have u: "length (graph_inputs g) \<le> u32_bound" using wf by (simp add: wf_graph_def wf_nodes_def)
  have len: "length views = length (graph_inputs g)" using b by (simp add: inputs_bound_def list_all2_lengthD)
  from estimate_states[OF ready est] obtain S where s: "schedule_new g = Inr (S 0)"
    and live: "\<forall>n \<le> ?N. dom (live_values (S n)) = live_at g n"
    and acc: "\<forall>n < ?N. account_node g (static_origin g) (\<lambda>_. 0) n (S n) = Inr (S (Suc n))"
    and out: "scratch_excluding_output (graph_output g) (S ?N) = Inr bytes" by blast
  let ?rt = "initial_runtime views (length (graph_inputs g))"
  have "enumerate 0 (zip (graph_inputs g) views) = map (\<lambda>k. (k, graph_inputs g ! k, views ! k)) [0..<length (graph_inputs g)]"
    unfolding enumerate_eq_map using len by simp
  note init = initial_runtime_run[OF b u order_refl, folded this]
  have "delivers (foldE (execute_step avx2 providers observation g) (enumerate 0 (graph_nodes g)) ((S 0, ?rt), []))
      (running g views (length (enumerate 0 (graph_nodes g))) (S (length (enumerate 0 (graph_nodes g)))))"
  proof (rule delivers_foldE[where I = "\<lambda>n. running g views n (S n)"])
    show "running g views 0 (S 0) ((S 0, ?rt), [])" by (rule initial_running[OF wf b s])
    fix n and st :: run_state assume n: "n < length (enumerate 0 (graph_nodes g))" and r: "running g views n (S n) st"
    then show "delivers (execute_step avx2 providers observation g (enumerate 0 (graph_nodes g) ! n) st) (running g views (Suc n) (S (Suc n)))"
      using execute_step_runs[OF ready _ _ _ r, of "S (Suc n)" avx2 providers observation] live acc
      by (simp add: nth_enumerate_eq)
  qed
  then have loop: "delivers (foldE (execute_step avx2 providers observation g) (enumerate 0 (graph_nodes g)) ((S 0, ?rt), []))
      (running g views ?N (S ?N))" by simp
  have final: "delivers (bindE check (\<lambda>_.
     bindE (liftE (ok_or Integrity (snd (fst st) (graph_output g)))) (\<lambda>output.
     bindE (liftE (scratch_excluding_output (graph_output g) (fst (fst st)))) (\<lambda>peak.
       retE (\<lparr>host_output = rv_bytes output, peak_scratch_bytes = peak\<rparr>, snd st))))) ?P"
    if r: "running g views ?N (S ?N) st" for st
  proof -
    have "graph_output g \<in> dom (snd (fst st))" using r live output_live_at[OF wf] by (simp add: running_def)
    then obtain x where x: "snd (fst st) (graph_output g) = Some x" by blast
    moreover have "?P (\<lparr>host_output = rv_bytes x, peak_scratch_bytes = bytes\<rparr>, snd st)"
      using r x by (auto simp: running_def held_def)
    moreover have "fst (fst st) = S ?N" using r by (simp add: running_def)
    ultimately show ?thesis
      using out by (intro delivers_bindE[OF delivers_check[of "\<lambda>_. True"]]) (simp_all add: delivers_retE del: retE_apply)
  qed
  show ?thesis
    unfolding execute_host_inner_def
    apply (rule delivers_bindE[OF delivers_check[of "\<lambda>_. True"]], rule TrueI)
    apply (simp add: len s init del: retE_apply)
    apply (rule delivers_bindE[OF loop])
    apply (rule final, assumption)
    done
qed

section \<open>Observation\<close>

text \<open>An observed node computes what an unobserved one does; only the events differ.\<close>

lemma bindE_assoc: "bindE (bindE m f) h = bindE m (\<lambda>x. bindE (f x) h)"
  by (simp add: bindE_def fun_eq_iff split: sum.splits prod.splits)

lemma execute_step_unobserved:
  "bindE (execute_step avx2 providers observation g n (sr, ev)) (\<lambda>st. retE (fst st)) =
   bindE (execute_step avx2 providers None g n (sr, [])) (\<lambda>st. retE (fst st))"
  by (simp add: execute_step_def Let_def bindE_assoc)

lemma execute_steps_unobserved:
  "bindE (foldE (execute_step avx2 providers observation g) ns (sr, ev)) (\<lambda>st. retE (fst st)) =
   bindE (foldE (execute_step avx2 providers None g) ns (sr, [])) (\<lambda>st. retE (fst st))"
proof (induction ns arbitrary: sr ev observation)
  case Nil
  show ?case unfolding foldE.simps liftE_bind by simp
next
  case (Cons n ns)
  let ?go = "\<lambda>sr. bindE (foldE (execute_step avx2 providers None g) ns (sr, [])) (\<lambda>st. retE (fst st))"
  have go: "bindE (foldE (execute_step avx2 providers obs g) (n # ns) (sr, e)) (\<lambda>st. retE (fst st)) =
      bindE (bindE (execute_step avx2 providers obs g n (sr, e)) (\<lambda>st. retE (fst st))) ?go" for obs e
    unfolding foldE.simps bindE_assoc liftE_bind
  proof (rule arg_cong[where f = "bindE _"], rule ext)
    fix st show "bindE (foldE (execute_step avx2 providers obs g) ns st) (\<lambda>st. retE (fst st)) = ?go (fst st)"
      using Cons.IH[of obs "fst st" "snd st"] unfolding prod.collapse .
  qed
  show ?case unfolding go execute_step_unobserved[of avx2 providers observation] ..
qed

lemma execute_host_inner_unobserved:
  "bindE (execute_host_inner avx2 providers observation g inputs) (\<lambda>r. retE (fst r)) =
   execute_host avx2 providers g inputs"
proof -
  have tail: "bindE (execute_host_inner avx2 providers obs g inputs) (\<lambda>r. retE (fst r)) =
     bindE check (\<lambda>_.
     bindE (liftE (ensure (length inputs = length (graph_inputs g)) Binding)) (\<lambda>_.
     bindE (liftE (schedule_new g)) (\<lambda>s.
     bindE (liftE (foldR (\<lambda>p runtime.
         bindR (validate_view_len (snd (snd p)) (byte_len (input_facts (fst (snd p))))) (\<lambda>_.
         bindR (index_as_u32 (fst p)) (\<lambda>i.
           Inr (runtime(Input i \<mapsto> \<lparr>rv_bytes = snd (snd p), rv_allocation = None\<rparr>)))))
       (enumerate 0 (zip (graph_inputs g) inputs)) Map.empty)) (\<lambda>runtime.
     bindE (bindE (foldE (execute_step avx2 providers obs g) (enumerate 0 (graph_nodes g)) ((s, runtime), [])) (\<lambda>st. retE (fst st))) (\<lambda>st.
     bindE check (\<lambda>_.
     bindE (liftE (ok_or Integrity (snd st (graph_output g)))) (\<lambda>output.
     bindE (liftE (scratch_excluding_output (graph_output g) (fst st))) (\<lambda>peak.
       retE \<lparr>host_output = rv_bytes output, peak_scratch_bytes = peak\<rparr>))))))))" for obs
    unfolding execute_host_inner_def bindE_assoc liftE_bind fst_conv ..
  show ?thesis unfolding execute_host_def tail execute_steps_unobserved[of _ _ observation] ..
qed

end
