(* ===== verification/MW_Samples.thy ===== *)
theory MW_Samples
  imports MW_Run MW_Casts
begin

text \<open>
  Concrete tensors and views on which the properties are instantiated: row-major facts of a
  given shape and dtype, and the view that \<open>ByteView::from_owner\<close> makes of a whole buffer.
\<close>

definition row_major :: "nat list \<Rightarrow> DType \<Rightarrow> TensorFacts" where
  "row_major shape dt = \<lparr>logical_shape = shape, storage_shape = shape,
     logical_strides = row_strides shape, storage_strides = row_strides shape,
     representation = Representation_contiguous dt, byte_len = prod_list shape * (bits dt div 8)\<rparr>"

definition whole :: "u8 list \<Rightarrow> ByteView" where
  "whole bytes = \<lparr>view_owner = 1, owner_bytes = bytes, range_start = 0, range_end = length bytes\<rparr>"

lemma row_major_sel [simp]:
  "logical_shape (row_major shape dt) = shape" "storage_shape (row_major shape dt) = shape"
  "logical_strides (row_major shape dt) = row_strides shape"
  "storage_strides (row_major shape dt) = row_strides shape"
  "representation (row_major shape dt) = Representation_contiguous dt"
  "byte_len (row_major shape dt) = prod_list shape * (bits dt div 8)"
  by (simp_all add: row_major_def)

lemma row_major_contiguous:
  assumes "0 \<notin> set shape" and "length shape < 100" and "prod_list shape * (bits dt div 8) < 2 ^ 64"
  shows "TensorFacts_contiguous shape (Representation_contiguous dt) = Inr (row_major shape dt)"
proof -
  obtain F where F: "TensorFacts_contiguous shape (Representation_contiguous dt) = Inr F"
    using TensorFacts_contiguous_total[of shape "Representation_contiguous dt"] assms
    by (auto simp: u32_bound_def u64_bound_def)
  have "F = row_major shape dt"
    using TensorFacts_contiguous_Inr[OF F] wf_facts_byte_len(1)[of F]
    by (intro TensorFacts.equality) (simp_all add: width_def)
  then show ?thesis using F by simp
qed

lemma row_major_ok:
  assumes "0 \<notin> set shape" and "length shape < 100" and "prod_list shape * (bits dt div 8) < 2 ^ 64"
  shows "wf_facts (row_major shape dt)" "is_canonical_contiguous (row_major shape dt)"
    "rows_fit (row_major shape dt)"
  using TensorFacts_contiguous_Inr[OF row_major_contiguous[OF assms]] rows_fit_canonical by blast+

lemma whole_view [simp]: "as_slice (whole bytes) = bytes" "view_len (whole bytes) = length bytes"
  by (simp_all add: whole_def as_slice_def view_len_def)

lemma whole_wf: "length bytes < 2 ^ 64 \<Longrightarrow> wf_view (whole bytes)"
  by (simp add: whole_def wf_view_def usize_bound_def)

lemma row_major_view:
  assumes "0 \<notin> set shape" and "length shape < 100" and "prod_list shape * (bits dt div 8) < 2 ^ 64"
    and "length bytes = prod_list shape * (bits dt div 8)"
  shows "view_of (row_major shape dt) (whole bytes)"
  using row_major_ok[OF assms(1-3)] assms(3,4) by (simp add: view_of_def whole_wf)


text \<open>A graph: transpose a 2 by 3 tensor, then reshape the result to six elements.\<close>

definition builtin_id :: "string \<Rightarrow> ImplementationId" where
  "builtin_id name = ImplementationId_new ''model-weights'' name 1"

definition transpose_node :: OperationNode where
  "transpose_node = \<lparr>node_implementation = builtin_id ''permute'', node_inputs = [Input 0],
     node_operation = Permute \<lparr>permute_order = [1, 0], permute_mode = Logical\<rparr>,
     node_outputs = [row_major [3, 2] U8]\<rparr>"

definition flatten_node :: OperationNode where
  "flatten_node = \<lparr>node_implementation = builtin_id ''reshape'', node_inputs = [NodeOutput 0 0],
     node_operation = Reshape [6], node_outputs = [row_major [6] U8]\<rparr>"

definition sample_graph :: OperationGraph where
  "sample_graph = \<lparr>schema_version = 1,
     graph_inputs = [\<lparr>input_name = ''x'', input_facts = row_major [2, 3] U8\<rparr>],
     graph_nodes = [transpose_node, flatten_node], graph_output = NodeOutput 1 0\<rparr>"

lemma small_ok:
  "u32_try_from 0 = Inr 0" "u32_try_from 1 = Inr 1" "u32_try_from (Suc 0) = Inr (Suc 0)"
  "usize_try_from 0 = Inr 0" "usize_try_from 1 = Inr 1" "usize_try_from (Suc 0) = Inr (Suc 0)"
  by (simp_all add: u32_try_from_def usize_try_from_def u32_bound_def usize_bound_def)

lemma infer_transpose:
  "infer_outputs (Permute \<lparr>permute_order = [1, 0], permute_mode = Logical\<rparr>) [row_major [2, 3] U8] =
     Inr [row_major [3, 2] U8]"
proof -
  have "validate_permutation [1, 0] = Inr ()"
    by (simp add: validate_permutation_def validate_rank_def u32_try_from_def u32_bound_def
        permutation_step_def small_ok bindR_def ensure_def)
  then show ?thesis
    using row_major_contiguous[of "[3, 2]" U8]
    by (simp add: infer_outputs_def one_input_def infer_permute_def permutation_indices_def small_ok Let_def)
qed

lemma infer_flatten: "infer_outputs (Reshape [6]) [row_major [3, 2] U8] = Inr [row_major [6] U8]"
proof -
  have c: "is_canonical_contiguous (row_major [3, 2] U8)" using row_major_ok by simp
  have n: "checked_element_count [6] = Inr 6" by (simp add: facts_eval)
  have e: "element_count (row_major [3, 2] U8) = 6"
    using element_count_wf[of "row_major [3, 2] U8"] row_major_ok(1)[of "[3, 2]" U8] by simp
  show ?thesis
    using c n e row_major_contiguous[of "[6]" U8]
    by (simp add: infer_outputs_def one_input_def infer_reshape_def validate_rank_def small_ok)
qed

lemma sample_built:
  "\<exists>b. built b \<and> builder_build b (NodeOutput 1 0) = Inr sample_graph"
proof -
  let ?x = "\<lparr>input_name = ''x'', input_facts = row_major [2, 3] U8\<rparr>"
  let ?b1 = "\<lparr>builder_inputs = [?x], input_names = {''x''}, builder_nodes = []\<rparr>"
  let ?b2 = "?b1\<lparr>builder_nodes := [transpose_node]\<rparr>"
  let ?b3 = "?b1\<lparr>builder_nodes := [transpose_node, flatten_node]\<rparr>"
  have add: "add_input ''x'' (row_major [2, 3] U8) builder_new = Inr (Input 0, ?b1)"
    by (simp add: add_input_def builder_new_def small_ok)
  have "wf_facts (row_major [2, 3] U8)" by (rule row_major_ok) simp_all
  then have b1: "built ?b1" by (rule built_input[OF built_new _ add])
  have "add_operation (builtin_id ''permute'') (Permute \<lparr>permute_order = [1, 0], permute_mode = Logical\<rparr>)
      [Input 0] ?b1 = Inr ([NodeOutput 0 0], ?b2)"
    using infer_transpose
    by (simp add: add_operation_def builder_facts_def value_facts_def list_get_def small_ok transpose_node_def)
  then have b2: "built ?b2" using b1 by (rule built_operation[rotated])
  have "add_operation (builtin_id ''reshape'') (Reshape [6]) [NodeOutput 0 0] ?b2 = Inr ([NodeOutput 1 0], ?b3)"
    using infer_flatten
    by (simp add: add_operation_def builder_facts_def value_facts_def list_get_def small_ok transpose_node_def
        flatten_node_def)
  then have "built ?b3" using b2 by (rule built_operation[rotated])
  moreover have "builder_build ?b3 (NodeOutput 1 0) = Inr sample_graph"
    by (simp add: builder_build_def builder_facts_def value_facts_def list_get_def flatten_node_def
        sample_graph_def OPERATION_GRAPH_SCHEMA_VERSION_def)
  ultimately show ?thesis by blast
qed

lemma sample_graph_wf: "wf_graph sample_graph"
  using sample_built built_wf builder_build_wf by blast

lemma sample_names: "StableName_parse ''model-weights'' = Inr ''model-weights''" 
  "StableName_parse ''permute'' = Inr ''permute''"  "StableName_parse ''reshape'' = Inr ''reshape''" 
  by (simp_all add: StableName_parse_def stable_byte_def)

lemma sample_estimate: "estimate_host_scratch_bytes sample_graph = Inr 0"
proof -
  have own: "static_owner sample_graph (NodeOutput 0 0) = Some (NodeOutput 0 0)"
    "static_owner sample_graph (NodeOutput 1 0) = Some (NodeOutput 0 0)"
    by (simp_all add: static_owner_def value_owner_def static_origin_def sample_graph_def transpose_node_def flatten_node_def
      node_output_alias_input_def is_identity_order_def small_ok)
  have held: "held_values sample_graph 0 = [NodeOutput 0 0]" "held_values sample_graph (Suc 0) = [NodeOutput 0 0, NodeOutput 1 0]"
    by (simp_all add: held_values_def produced_before_def outputs_of_def pending_def sample_graph_def transpose_node_def flatten_node_def)
  have vb: "value_bytes sample_graph (NodeOutput 0 0) = 6"
    by (simp add: value_bytes_def graph_facts_def value_facts_def sample_graph_def transpose_node_def list_get_def)
  have hb: "held_bytes sample_graph (static_owner sample_graph) 0 = 6" "held_bytes sample_graph (static_owner sample_graph) (Suc 0) = 6"
    by (simp_all add: held_bytes_def held own[simplified] vb List.map_filter_def)
  have t: "static_transient sample_graph 0 = 0" "static_transient sample_graph 1 = 0"
    by (simp_all add: static_transient_def node_transient_def sample_graph_def transpose_node_def flatten_node_def)
  have n: "length (graph_nodes sample_graph) = 2" "graph_output sample_graph = NodeOutput 1 0" by (simp_all add: sample_graph_def)
  have "fits sample_graph (static_owner sample_graph) (static_transient sample_graph)"
    using hb t by (simp add: fits_def n less_2_cases_iff u64_bound_def)
      (simp add: produced_before_def outputs_of_def pending_def sample_graph_def transpose_node_def flatten_node_def numeral_2_eq_2)
  moreover have "scratch_spec sample_graph (static_owner sample_graph) (static_transient sample_graph) = 0"
    using hb t by (simp add: scratch_spec_def n owned_bytes_def own[simplified] vb numeral_2_eq_2)
  ultimately show ?thesis
    using estimate_meets[OF sample_graph_wf] by (auto simp: meets_def split: sum.splits)
qed

lemma sample_ready: "host_ready sample_graph"
  by (simp add: host_ready_def sample_graph_wf)
   (simp add: sample_graph_def transpose_node_def flatten_node_def builtin_implementation_def sample_names builtin_operation_name_def builtin_id_def)

lemma sample_bound: "length bs = 6 \<Longrightarrow> inputs_bound sample_graph [whole bs]"
  using row_major_view[of "[2, 3]" U8] by (simp add: inputs_bound_def sample_graph_def)


text \<open>A cast of two bytes to 32-bit floats, planned and requested.\<close>

definition zero_half :: half where
  "zero_half = \<lparr>f16_from_f32 = (\<lambda>_. 0), f16_to_f32 = (\<lambda>_. 0), bf16_from_f32 = (\<lambda>_. 0), bf16_to_f32 = (\<lambda>_. 0)\<rparr>"

definition sample_env :: Env where
  "sample_env = \<lparr>polls_left = None, reserves_left = None, next_owner = 2\<rparr>"

definition sample_planned :: PlannedTransform where
  "sample_planned = \<lparr>planned_transform = \<lparr>transform_implementation = contiguous_id,
     transform_source = Representation_contiguous U8, transform_target = Representation_contiguous F32\<rparr>,
     output_size = 8, transform_scratch = 0\<rparr>"

definition sample_request :: PrepareRequest where
  "sample_request = chain_request sample_planned [2] (whole [7, 9])"

lemma sample_unlimited [simp]: "unlimited sample_env"
  by (simp add: unlimited_def sample_env_def)

lemma sample_request_size [simp]: "expected_output_bytes sample_request = 8"
  by (simp add: sample_request_def chain_request_def sample_planned_def with_expected_scratch_bytes_def PrepareRequest_new_def)

lemma sample_request_accepted: "contiguous_accepts sample_request"
  using whole_wf[of "[7, 9]"]
  by (simp add: contiguous_accepts_def sample_request_def chain_request_def sample_planned_def source_type_def target_type_def
      with_expected_scratch_bytes_def PrepareRequest_new_def Representation_contiguous_def is_builtin_float_def
      byte_len_Inr checked_product_def checked_mul_def u64_bound_def)

lemma builtins_registered: "\<exists>providers. registry_with_builtins h = Inr providers"
  by (simp add: registry_with_builtins_def ContiguousProvider_new_Inr registry_new_def register_shared_def)

lemma sample_prepares:
  "delivers (prepare_with_cancellation [(contiguous_id, contiguous_provider zero_half)] sample_request) (\<lambda>v. True)"
proof (rule delivers_mono[OF contiguous.engine_prepares[OF _ sample_request_accepted]])
  show "resolve [(contiguous_id, contiguous_provider zero_half)] (transform_implementation (req_transform sample_request)) =
      Inr (contiguous_provider zero_half)"
    using sample_request_accepted by (simp add: resolve_def contiguous_accepts_def)
  show "wf_view (req_source sample_request)" using sample_request_accepted by (simp add: contiguous_accepts_def)
qed simp

lemma sample_prepared:
  "\<exists>v e'. prepare_with_cancellation [(contiguous_id, contiguous_provider zero_half)] sample_request sample_env = Inr (v, e')"
  using delivers_unlimited[OF sample_prepares, of sample_env] by auto

lemma sample_chain:
  "\<exists>v e'. prepare_chain_with_cancellation [(contiguous_id, contiguous_provider zero_half)] [sample_planned] [2]
      (whole [7, 9]) sample_env = Inr (v, e')"
proof -
  have "delivers (prepare_chain_with_cancellation [(contiguous_id, contiguous_provider zero_half)] [sample_planned] [2] (whole [7, 9]))
      (\<lambda>v. True)"
    unfolding prepare_chain_with_cancellation_def foldE.simps sample_request_def[symmetric]
    by (rule delivers_bindE[where P = "\<lambda>_. True"], rule delivers_bindE[where P = "\<lambda>_. True"],
        rule delivers_bindE[where P = "\<lambda>_. True"], rule delivers_check, rule TrueI, rule sample_prepares,
        rule delivers_retE, rule TrueI, rule delivers_bindE[where P = "\<lambda>_. True"], rule delivers_check, rule TrueI,
        rule delivers_retE, rule TrueI)
  from delivers_unlimited[OF this, of sample_env] show ?thesis by auto
qed

end
