(* ===== verification/MW_Ordered.thy ===== *)
theory MW_Ordered
  imports MW_Prelude "HOL-Library.Char_ord" "HOL-Library.List_Lexorder"
begin

text \<open>
  Ordered collections of the standard library. Strings are byte strings in lexicographic order.
  A \<open>BTreeMap\<close> is its list of entries with increasing keys. The locale \<open>keyed_store\<close> is what the
  loops that insert entries and refuse duplicates rely on; it is interpreted on these lists.
\<close>

section \<open>Windows of a slice\<close>

text \<open>\<open>slice.windows(2).any(..)\<close>.\<close>

fun any_window2 :: "('a \<Rightarrow> 'a \<Rightarrow> bool) \<Rightarrow> 'a list \<Rightarrow> bool" where
  "any_window2 P (x # y # zs) = (P x y \<or> any_window2 P (y # zs))"
| "any_window2 P _ = False"

text \<open>In a sorted list, equal keys are neighbours.\<close>

lemma window_duplicates:
  "sorted (map f xs) \<Longrightarrow> any_window2 (\<lambda>a b. f a = f b) xs \<longleftrightarrow> \<not> distinct (map f xs)"
proof (induction xs rule: induct_list012)
  case (3 x y zs)
  have "f x \<in> set (map f (y # zs)) \<longleftrightarrow> f x = f y"
  proof
    assume "f x \<in> set (map f (y # zs))"
    moreover have "\<forall>v \<in> set (map f (y # zs)). f y \<le> v" "f x \<le> f y" using "3.prems" by auto
    ultimately show "f x = f y" using order_antisym by blast
  qed simp
  then show ?case using 3 by auto
qed simp_all

lemma window_pairwise:
  assumes trans: "\<And>a b c. Q a b \<Longrightarrow> Q b c \<Longrightarrow> Q a c" and "\<not> any_window2 (\<lambda>a b. \<not> Q a b) xs"
  shows "sorted_wrt Q xs"
  using assms(2)
proof (induction xs rule: induct_list012)
  case (3 x y zs)
  then have "Q x y" "sorted_wrt Q (y # zs)" by auto
  then show ?case using trans by auto
qed simp_all

section \<open>Ordered maps\<close>

type_synonym ('k, 'v) btree = "('k \<times> 'v) list"

definition increasing :: "('k :: linorder, 'v) btree \<Rightarrow> bool" where
  "increasing m \<longleftrightarrow> sorted_wrt (<) (map fst m)"

definition btree_insert :: "'k :: linorder \<Rightarrow> 'v \<Rightarrow> ('k, 'v) btree \<Rightarrow> ('k, 'v) btree" where
  "btree_insert k v m = takeWhile (\<lambda>p. fst p < k) m @ (k, v) # dropWhile (\<lambda>p. fst p \<le> k) m"

text \<open>\<open>if map.insert(k, v).is_some() { return Err(..) }\<close>.\<close>

definition insert_unique ::
    "ErrorCategory \<Rightarrow> 'k :: linorder \<times> 'v \<Rightarrow> ('k, 'v) btree \<Rightarrow> ('k, 'v) btree result" where
  "insert_unique e p m = bindR (ensure (map_of m (fst p) = None) e) (\<lambda>_. Inr (btree_insert (fst p) (snd p) m))"

lemma increasing_distinct: "increasing m \<Longrightarrow> distinct (map fst m)"
  unfolding increasing_def by (induction m) auto

lemma increasing_Cons:
  "increasing (p # m) \<longleftrightarrow> (\<forall>q \<in> set m. fst p < fst q) \<and> increasing m"
  by (auto simp: increasing_def)

lemma btree_insert_Cons:
  assumes "increasing (p # m)"
  shows "btree_insert k v (p # m) =
    (if k < fst p then (k, v) # p # m else if k = fst p then (k, v) # m else p # btree_insert k v m)"
proof -
  have "dropWhile (\<lambda>p. fst p \<le> k) m = m" "takeWhile (\<lambda>p. fst p < k) m = []" if "k \<le> fst p"
    using assms that by (cases m; force simp: increasing_Cons)+
  then show ?thesis by (auto simp: btree_insert_def)
qed

lemma map_of_btree_insert: "increasing m \<Longrightarrow> map_of (btree_insert k v m) = (map_of m)(k \<mapsto> v)"
proof (induction m)
  case Nil
  then show ?case by (simp add: btree_insert_def)
next
  case (Cons p m)
  then show ?case by (cases p) (auto simp: btree_insert_Cons increasing_Cons fun_eq_iff)
qed

lemma set_btree_insert: "set (btree_insert k v m) \<subseteq> insert (k, v) (set m)"
  by (auto simp: btree_insert_def dest: set_takeWhileD set_dropWhileD)

lemma increasing_btree_insert: "increasing m \<Longrightarrow> increasing (btree_insert k v m)"
proof (induction m)
  case Nil
  then show ?case by (simp add: btree_insert_def increasing_def)
next
  case (Cons p m)
  have "\<forall>q \<in> set (btree_insert k v m). fst p < fst q" if "fst p < k"
    using Cons.prems that set_btree_insert[of k v m] by (auto simp: increasing_Cons)
  then show ?case using Cons by (auto simp: btree_insert_Cons increasing_Cons not_less le_less)
qed

text \<open>An ordered map is determined by its lookups.\<close>

lemma increasing_unique:
  assumes "increasing m" and "increasing m'" and "map_of m = map_of m'"
  shows "m = m'"
proof -
  have "sorted_wrt (<) (map fst m)" "sorted_wrt (<) (map fst m')" using assms by (simp_all add: increasing_def)
  moreover have "set (map fst m) = set (map fst m')" using assms(3) by (metis dom_map_of_conv_image_fst set_map)
  ultimately have keys: "map fst m = map fst m'" using strict_sorted_equal by blast
  have d: "distinct (map fst m)" "distinct (map fst m')"
    using assms(1,2) by (simp_all add: increasing_distinct)
  show ?thesis
  proof (rule nth_equalityI)
    show len: "length m = length m'" using keys by (metis length_map)
    fix i assume i: "i < length m"
    have k: "fst (m ! i) = fst (m' ! i)" using keys i len by (metis nth_map)
    have "map_of m (fst (m ! i)) = Some (snd (m ! i))" using d(1) i by (simp add: map_of_eq_Some_iff)
    moreover have "map_of m' (fst (m' ! i)) = Some (snd (m' ! i))" using d(2) i len by (simp add: map_of_eq_Some_iff)
    ultimately show "m ! i = m' ! i" using k assms(3) by (simp add: prod_eq_iff)
  qed
qed

section \<open>Inserting many entries\<close>

locale keyed_store =
  fixes lookup :: "'m \<Rightarrow> 'k \<Rightarrow> 'v option"
    and add :: "ErrorCategory \<Rightarrow> 'k \<times> 'v \<Rightarrow> 'm \<Rightarrow> 'm result"
    and inv :: "'m \<Rightarrow> bool"
  assumes add_new: "inv m \<Longrightarrow> lookup m k = None \<Longrightarrow>
      \<exists>m'. add e (k, v) m = Inr m' \<and> inv m' \<and> lookup m' = (lookup m)(k \<mapsto> v)"
    and add_old: "lookup m k \<noteq> None \<Longrightarrow> add e (k, v) m = Inl e"
begin

lemma add_all:
  assumes "inv m"
  shows "(\<exists>m'. foldR (add e) kvs m = Inr m' \<and> inv m' \<and> lookup m' = lookup m ++ map_of kvs
      \<and> distinct (map fst kvs) \<and> (\<forall>k \<in> fst ` set kvs. lookup m k = None))
    \<or> foldR (add e) kvs m = Inl e \<and> \<not> (distinct (map fst kvs) \<and> (\<forall>k \<in> fst ` set kvs. lookup m k = None))"
  using assms
proof (induction kvs arbitrary: m)
  case Nil
  then show ?case by simp
next
  case (Cons p kvs)
  obtain k v where p: "p = (k, v)" by (cases p)
  show ?case
  proof (cases "lookup m k")
    case None
    with add_new[OF Cons.prems] p obtain m1 where m1: "add e p m = Inr m1" "inv m1" "lookup m1 = (lookup m)(k \<mapsto> v)" by blast
    have keys: "(\<forall>j \<in> fst ` set kvs. lookup m1 j = None) \<longleftrightarrow> k \<notin> fst ` set kvs \<and> (\<forall>j \<in> fst ` set kvs. lookup m j = None)"
      using m1(3) by auto
    have none: "map_of kvs k = None" if "k \<notin> fst ` set kvs" using that by (simp add: map_of_eq_None_iff)
    have m: "lookup m1 ++ map_of kvs = lookup m ++ map_of (p # kvs)" if "k \<notin> fst ` set kvs"
      using that m1(3) p by (auto simp: fun_eq_iff map_add_def none split: option.splits)
    have dist: "distinct (map fst (p # kvs)) \<and> (\<forall>j \<in> fst ` set (p # kvs). lookup m j = None) \<longleftrightarrow>
        distinct (map fst kvs) \<and> (\<forall>j \<in> fst ` set kvs. lookup m1 j = None)"
      unfolding keys using p None by auto
    have run: "foldR (add e) (p # kvs) m = foldR (add e) kvs m1" using m1(1) by simp
    from Cons.IH[OF m1(2)] show ?thesis unfolding run dist using m keys by metis
  next
    case (Some x)
    then have "add e p m = Inl e" using add_old p by simp
    then show ?thesis using Some p by auto
  qed
qed

end

interpretation btree: keyed_store map_of insert_unique increasing
proof
  fix m :: "('k :: linorder, 'v) btree" and k v e
  show "\<exists>m'. insert_unique e (k, v) m = Inr m' \<and> increasing m' \<and> map_of m' = (map_of m)(k \<mapsto> v)"
    if "increasing m" "map_of m k = None"
    using that by (simp add: insert_unique_def increasing_btree_insert map_of_btree_insert)
  show "insert_unique e (k, v) m = Inl e" if "map_of m k \<noteq> None"
    using that by (simp add: insert_unique_def)
qed

text \<open>Collecting entries: the result holds exactly them, in key order, unless a key is repeated.\<close>

lemma collect_unique:
  "foldR (insert_unique e) kvs [] = Inr m \<longleftrightarrow> distinct (map fst kvs) \<and> increasing m \<and> map_of m = map_of kvs"
proof -
  have i: "increasing ([] :: ('a, 'b) btree)" by (simp add: increasing_def)
  show ?thesis
  proof (cases "distinct (map fst kvs)")
    case True
    with btree.add_all[OF i, of e kvs] obtain m' where m': "foldR (insert_unique e) kvs [] = Inr m'" "increasing m'" "map_of m' = map_of kvs"
      by (auto simp: map_add_def)
    then show ?thesis using True increasing_unique[of m' m] by auto
  next
    case False
    with btree.add_all[OF i, of e kvs] show ?thesis by auto
  qed
qed

lemma collect_unique_error: "foldR (insert_unique e) kvs [] = Inl c \<longleftrightarrow> \<not> distinct (map fst kvs) \<and> c = e"
proof -
  have "increasing ([] :: ('a, 'b) btree)" by (simp add: increasing_def)
  from btree.add_all[OF this, of e kvs] show ?thesis by auto
qed

text \<open>Collecting the entries of an ordered map gives the map back.\<close>

lemma collect_increasing:
  assumes "increasing m"
  shows "foldR (insert_unique e) m [] = Inr m"
proof -
  have "distinct (map fst m)" using assms by (rule increasing_distinct)
  then show ?thesis using assms by (simp add: collect_unique)
qed

end
