(* ===== verification/MW_Quantization.thy ===== *)
theory MW_Quantization
  imports MW_Representation MW_Ordered "HOL-Library.Multiset"
begin

text \<open>
  quantization.rs: packed storage descriptors with their builder and deserialization, and the
  declarations of routes over packed weights. Adapters describe block-packed payloads here; the
  builder checks that the payload length follows from the logical shape and the packing.
\<close>

section \<open>Descriptors\<close>

datatype MetadataValue =
    MetaBool bool | MetaI64 int | MetaU64 nat | MetaText string | MetaBytes "u8 list"
  | MetaSequence "MetadataValue list" | MetaObject "(StableName \<times> MetadataValue) list"

datatype PackingOrder = Flat | Axis nat

record BlockPacking =
  values_per_block :: nat
  bytes_per_block :: nat
  packing_order :: PackingOrder

definition BlockPacking_new :: "nat \<Rightarrow> nat \<Rightarrow> PackingOrder \<Rightarrow> BlockPacking result" where
  "BlockPacking_new v b order =
     bindR (ensure (\<not> (v = 0 \<or> b = 0)) InvalidFormat) (\<lambda>_.
       Inr \<lparr>values_per_block = v, bytes_per_block = b, packing_order = order\<rparr>)"

definition BlockPacking_try_from :: "BlockPacking \<Rightarrow> BlockPacking result" where
  "BlockPacking_try_from wire = BlockPacking_new (values_per_block wire) (bytes_per_block wire) (packing_order wire)"

datatype Packing = Blocks BlockPacking | Opaque

definition flat_blocks :: "nat \<Rightarrow> nat \<Rightarrow> Packing result" where
  "flat_blocks v b = bindR (BlockPacking_new v b Flat) (\<lambda>block. Inr (Blocks block))"

record Grouping =
  grouping_axis :: nat
  values_per_group :: nat

definition Grouping_new :: "nat \<Rightarrow> nat \<Rightarrow> Grouping result" where
  "Grouping_new axis v =
     bindR (ensure (v \<noteq> 0) InvalidFormat) (\<lambda>_. Inr \<lparr>grouping_axis = axis, values_per_group = v\<rparr>)"

definition Grouping_try_from :: "Grouping \<Rightarrow> Grouping result" where
  "Grouping_try_from wire = Grouping_new (grouping_axis wire) (values_per_group wire)"

record CompanionTensor =
  companion_tensor :: string
  companion_dtype :: DType
  companion_shape :: "nat list"
  companion_span :: SourceSpan

definition CompanionTensor_new :: "string \<Rightarrow> DType \<Rightarrow> nat list \<Rightarrow> SourceSpan \<Rightarrow> CompanionTensor result" where
  "CompanionTensor_new tensor dt shape span =
     bindR (ensure (tensor \<noteq> []) InvalidFormat) (\<lambda>_.
     bindR (DType_byte_len dt shape) (\<lambda>bytes.
     bindR (ensure (bytes = span_length span) InvalidFormat) (\<lambda>_.
       Inr \<lparr>companion_tensor = tensor, companion_dtype = dt, companion_shape = shape, companion_span = span\<rparr>)))"

definition CompanionTensor_try_from :: "CompanionTensor \<Rightarrow> CompanionTensor result" where
  "CompanionTensor_try_from wire = CompanionTensor_new (companion_tensor wire) (companion_dtype wire)
     (companion_shape wire) (companion_span wire)"

type_synonym Companion = "StableName \<times> CompanionTensor"

definition QUANTIZED_STORAGE_SCHEMA_VERSION :: nat where
  "QUANTIZED_STORAGE_SCHEMA_VERSION = 1"

record QuantizedStorage =
  q_schema_version :: nat
  q_encoding :: ImplementationId
  q_logical_shape :: "nat list"
  q_payload :: SourceSpan
  q_packing :: Packing
  q_grouping :: "Grouping option"
  q_required_companions :: "StableName list"
  q_companions :: "(StableName, CompanionTensor) btree"
  q_metadata :: "(StableName, MetadataValue) btree"

record QuantizedStorageBuilder =
  qb_encoding :: ImplementationId
  qb_logical_shape :: "nat list"
  qb_payload :: SourceSpan
  qb_packing :: Packing
  qb_grouping :: "Grouping option"
  qb_required_companions :: "StableName list"
  qb_companions :: "Companion list"
  qb_metadata :: "(StableName, MetadataValue) btree"

definition QuantizedStorage_builder ::
    "ImplementationId \<Rightarrow> nat list \<Rightarrow> SourceSpan \<Rightarrow> Packing \<Rightarrow> QuantizedStorageBuilder" where
  "QuantizedStorage_builder encoding shape payload packing =
     \<lparr>qb_encoding = encoding, qb_logical_shape = shape, qb_payload = payload, qb_packing = packing,
      qb_grouping = None, qb_required_companions = [], qb_companions = [], qb_metadata = []\<rparr>"

definition with_grouping :: "Grouping \<Rightarrow> QuantizedStorageBuilder \<Rightarrow> QuantizedStorageBuilder" where
  "with_grouping grouping b = b\<lparr>qb_grouping := Some grouping\<rparr>"

definition with_required_companions :: "StableName list \<Rightarrow> QuantizedStorageBuilder \<Rightarrow> QuantizedStorageBuilder" where
  "with_required_companions roles b = b\<lparr>qb_required_companions := qb_required_companions b @ roles\<rparr>"

definition with_companions :: "Companion list \<Rightarrow> QuantizedStorageBuilder \<Rightarrow> QuantizedStorageBuilder" where
  "with_companions companions b = b\<lparr>qb_companions := qb_companions b @ companions\<rparr>"

definition with_metadata :: "(StableName, MetadataValue) btree \<Rightarrow> QuantizedStorageBuilder \<Rightarrow> QuantizedStorageBuilder" where
  "with_metadata metadata b = b\<lparr>qb_metadata := metadata\<rparr>"

section \<open>Validation\<close>

text \<open>Block sizes are positive by \<open>BlockPacking_new\<close>, so \<open>per_block - 1\<close> does not underflow.\<close>

definition block_bytes :: "nat \<Rightarrow> nat \<Rightarrow> nat \<Rightarrow> nat result" where
  "block_bytes n per_block bytes_per =
     (if n = 0 then Inr 0 else
      bindR (ok_or ResourceLimit (checked_add n (per_block - 1))) (\<lambda>rounded.
      let blocks = rounded div per_block in
        ok_or ResourceLimit (checked_mul blocks bytes_per)))"

definition quantized_validate_axis :: "nat \<Rightarrow> nat \<Rightarrow> unit result" where
  "quantized_validate_axis axis rank =
     bindR (usize_try_from axis) (\<lambda>axis. ensure (axis < rank) InvalidFormat)"

definition validate_shape_and_packing :: "nat list \<Rightarrow> SourceSpan \<Rightarrow> Packing \<Rightarrow> unit result" where
  "validate_shape_and_packing shape payload packing =
     bindR (checked_product shape) (\<lambda>elements.
     case packing of Opaque \<Rightarrow> Inr () | Blocks block \<Rightarrow>
     bindR (case packing_order block of
         Flat \<Rightarrow> block_bytes elements (values_per_block block) (bytes_per_block block)
       | Axis axis \<Rightarrow>
           bindR (quantized_validate_axis axis (length shape)) (\<lambda>_.
           bindR (usize_try_from axis) (\<lambda>axis_index.
           let axis_values = shape ! axis_index in
           if axis_values \<noteq> 0 then
             let lines = elements div axis_values in
             bindR (block_bytes axis_values (values_per_block block) (bytes_per_block block)) (\<lambda>bytes_per_line.
               ok_or ResourceLimit (checked_mul lines bytes_per_line))
           else Inr 0))) (\<lambda>expected.
       ensure (expected = span_length payload) InvalidFormat))"

definition builder_build_quantized :: "QuantizedStorageBuilder \<Rightarrow> QuantizedStorage result" where
  "builder_build_quantized b =
     bindR (validate_shape_and_packing (qb_logical_shape b) (qb_payload b) (qb_packing b)) (\<lambda>_.
     bindR (case qb_grouping b of None \<Rightarrow> Inr ()
        | Some grouping \<Rightarrow> quantized_validate_axis (grouping_axis grouping) (length (qb_logical_shape b))) (\<lambda>_.
     let required = sort (qb_required_companions b) in
     bindR (ensure (\<not> any_window2 (=) required) Binding) (\<lambda>_.
     bindR (foldR (insert_unique Binding) (qb_companions b) []) (\<lambda>companions.
     bindR (ensure (\<not> list_ex (\<lambda>role. map_of companions role = None) required) Binding) (\<lambda>_.
       Inr \<lparr>q_schema_version = QUANTIZED_STORAGE_SCHEMA_VERSION, q_encoding = qb_encoding b,
            q_logical_shape = qb_logical_shape b, q_payload = qb_payload b, q_packing = qb_packing b,
            q_grouping = qb_grouping b, q_required_companions = required, q_companions = companions,
            q_metadata = qb_metadata b\<rparr>)))))"

definition QuantizedStorage_new ::
    "ImplementationId \<Rightarrow> nat list \<Rightarrow> SourceSpan \<Rightarrow> Packing \<Rightarrow> QuantizedStorage result" where
  "QuantizedStorage_new encoding shape payload packing =
     builder_build_quantized (QuantizedStorage_builder encoding shape payload packing)"

text \<open>
  Deserialization. The wire struct has the fields of the descriptor; its own parts are
  deserialized by their constructors first.
\<close>

definition QuantizedStorage_try_from :: "QuantizedStorage \<Rightarrow> QuantizedStorage result" where
  "QuantizedStorage_try_from wire =
     bindR (ensure (q_schema_version wire = QUANTIZED_STORAGE_SCHEMA_VERSION) InvalidFormat) (\<lambda>_.
     let builder = with_metadata (q_metadata wire) (with_companions (q_companions wire)
           (with_required_companions (q_required_companions wire)
             (QuantizedStorage_builder (q_encoding wire) (q_logical_shape wire) (q_payload wire) (q_packing wire)))) in
     case q_grouping wire of
       Some grouping \<Rightarrow> builder_build_quantized (with_grouping grouping builder)
     | None \<Rightarrow> builder_build_quantized builder)"

datatype Storage = Plain DType SourceSpan | Quantized QuantizedStorage

definition storage_span :: "Storage \<Rightarrow> SourceSpan" where
  "storage_span s = (case s of Plain _ span \<Rightarrow> span | Quantized q \<Rightarrow> q_payload q)"

definition logical_dtype :: "Storage \<Rightarrow> DType option" where
  "logical_dtype s = (case s of Plain dt _ \<Rightarrow> Some dt | Quantized _ \<Rightarrow> None)"

section \<open>Routes\<close>

datatype QuantizedRoute =
    HostDequant DType | PackedDirect | FusedInTile | DeviceDequantToScratch DType | Repack ImplementationId

record LayoutRequirement =
  requirement_name :: StableName
  requirement_version :: nat
  requirement_parameters :: "u8 list"

definition LayoutRequirement_from_layout :: "Layout \<Rightarrow> LayoutRequirement option" where
  "LayoutRequirement_from_layout l = map_option (\<lambda>p.
     \<lparr>requirement_name = fst p, requirement_version = fst (snd p), requirement_parameters = snd (snd p)\<rparr>)
     (custom_parts l)"

definition matches_layout :: "LayoutRequirement \<Rightarrow> Layout \<Rightarrow> bool" where
  "matches_layout r l = (case custom_parts l of None \<Rightarrow> False
     | Some (name, v, parameters) \<Rightarrow>
         name = requirement_name r \<and> v = requirement_version r \<and> parameters = requirement_parameters r)"

record RouteCapability =
  source_encoding :: ImplementationId
  route :: QuantizedRoute
  hook :: ImplementationId
  backend :: "ContentDigest option"
  target_layout :: "LayoutRequirement option"

definition needs_backend :: "QuantizedRoute \<Rightarrow> bool" where
  "needs_backend r = (case r of PackedDirect \<Rightarrow> True | FusedInTile \<Rightarrow> True | DeviceDequantToScratch _ \<Rightarrow> True | _ \<Rightarrow> False)"

definition RouteCapability_new ::
    "ImplementationId \<Rightarrow> QuantizedRoute \<Rightarrow> ImplementationId \<Rightarrow> ContentDigest option \<Rightarrow> LayoutRequirement option
       \<Rightarrow> RouteCapability result" where
  "RouteCapability_new source r implementation b l =
     bindR (ensure (\<not> (needs_backend r \<and> b = None)) Unsupported) (\<lambda>_.
       Inr \<lparr>source_encoding = source, route = r, hook = implementation, backend = b, target_layout = l\<rparr>)"

definition RouteCapability_try_from :: "RouteCapability \<Rightarrow> RouteCapability result" where
  "RouteCapability_try_from wire = RouteCapability_new (source_encoding wire) (route wire) (hook wire)
     (backend wire) (target_layout wire)"

definition capability_matches ::
    "RouteCapability \<Rightarrow> ImplementationId \<Rightarrow> QuantizedRoute \<Rightarrow> ContentDigest option \<Rightarrow> LayoutRequirement option \<Rightarrow> bool" where
  "capability_matches c source r b l \<longleftrightarrow>
     source_encoding c = source \<and> route c = r \<and> backend c = b \<and> target_layout c = l"

text \<open>
  The derived order of capabilities: field by field in declaration order, enum values by variant
  and then by field, \<open>None\<close> before \<open>Some\<close>. The key lists the compared parts from left to right.
\<close>

definition text_key :: "string \<Rightarrow> nat list" where
  "text_key s = map of_char s"

definition implementation_key :: "ImplementationId \<Rightarrow> nat list list" where
  "implementation_key i = [text_key (provider i), text_key (operation_name i), [version i]]"

fun dtype_ordinal :: "DType \<Rightarrow> nat" where
  "dtype_ordinal Bool = 0" | "dtype_ordinal U8 = 1" | "dtype_ordinal I8 = 2" | "dtype_ordinal U16 = 3"
| "dtype_ordinal I16 = 4" | "dtype_ordinal U32 = 5" | "dtype_ordinal I32 = 6" | "dtype_ordinal U64 = 7"
| "dtype_ordinal I64 = 8" | "dtype_ordinal F16 = 9" | "dtype_ordinal Bf16 = 10" | "dtype_ordinal F32 = 11"
| "dtype_ordinal F64 = 12" | "dtype_ordinal C64 = 13" | "dtype_ordinal F8E5M2 = 14" | "dtype_ordinal F8E4M3 = 15"
| "dtype_ordinal F8E8M0 = 16" | "dtype_ordinal F8E4M3Fnuz = 17" | "dtype_ordinal F8E5M2Fnuz = 18"

fun route_key :: "QuantizedRoute \<Rightarrow> nat list list" where
  "route_key (HostDequant dt) = [[0], [dtype_ordinal dt]]"
| "route_key PackedDirect = [[1]]"
| "route_key FusedInTile = [[2]]"
| "route_key (DeviceDequantToScratch dt) = [[3], [dtype_ordinal dt]]"
| "route_key (Repack i) = [4] # implementation_key i"

definition digest_key :: "ContentDigest \<Rightarrow> nat list" where
  "digest_key d = map unat d"

definition requirement_key :: "LayoutRequirement \<Rightarrow> nat list list" where
  "requirement_key r = [text_key (requirement_name r), [requirement_version r], map unat (requirement_parameters r)]"

definition capability_key :: "RouteCapability \<Rightarrow> nat list list" where
  "capability_key c = implementation_key (source_encoding c) @ route_key (route c) @ implementation_key (hook c)
     @ (case backend c of None \<Rightarrow> [[0]] | Some d \<Rightarrow> [[1], digest_key d])
     @ (case target_layout c of None \<Rightarrow> [[0]] | Some r \<Rightarrow> [1] # requirement_key r)"

type_synonym CapabilitySet = "RouteCapability list"

definition CapabilitySet_new :: "RouteCapability list \<Rightarrow> CapabilitySet result" where
  "CapabilitySet_new capabilities =
     (let sorted_list = sort_key capability_key capabilities in
     bindR (ensure (\<not> any_window2 (=) sorted_list) Binding) (\<lambda>_. Inr sorted_list))"

definition matching ::
    "CapabilitySet \<Rightarrow> ImplementationId \<Rightarrow> QuantizedRoute \<Rightarrow> ContentDigest option \<Rightarrow> LayoutRequirement option \<Rightarrow> RouteCapability list" where
  "matching capabilities source r b l = filter (\<lambda>c. capability_matches c source r b l) capabilities"

section \<open>Payload lengths\<close>

definition blocks_of :: "nat \<Rightarrow> nat \<Rightarrow> nat" where
  "blocks_of v n = (n + (v - 1)) div v"

text \<open>The bytes of a block-packed tensor: blocks restart for every line along the axis.\<close>

definition packed_bytes :: "nat list \<Rightarrow> BlockPacking \<Rightarrow> nat" where
  "packed_bytes shape block = (case packing_order block of
     Flat \<Rightarrow> blocks_of (values_per_block block) (prod_list shape) * bytes_per_block block
   | Axis a \<Rightarrow> prod_list (take a shape @ drop (Suc a) shape)
       * (blocks_of (values_per_block block) (shape ! a) * bytes_per_block block))"

definition wf_packing :: "nat \<Rightarrow> Packing \<Rightarrow> bool" where
  "wf_packing rank packing = (case packing of Opaque \<Rightarrow> True | Blocks block \<Rightarrow>
     0 < values_per_block block \<and> 0 < bytes_per_block block
     \<and> (case packing_order block of Flat \<Rightarrow> True | Axis a \<Rightarrow> a < rank))"

lemma block_bytes_Inr:
  assumes "0 < v"
  shows "block_bytes n v b = Inr m \<Longrightarrow> m = blocks_of v n * b"
  using assms by (auto simp: block_bytes_def blocks_of_def bindR_Inr checked_Some split: if_splits)

lemma prod_list_axis:
  assumes "a < length (shape :: nat list)"
  shows "prod_list shape = shape ! a * prod_list (take a shape @ drop (Suc a) shape)"
proof -
  have "prod_list shape = prod_list (take a shape @ shape ! a # drop (Suc a) shape)"
    by (rule arg_cong[OF id_take_nth_drop[OF assms]])
  then show ?thesis by (simp add: mult.left_commute)
qed

lemma validate_packing_Inr:
  assumes "validate_shape_and_packing shape payload packing = Inr ()"
    and pos: "\<forall>block. packing = Blocks block \<longrightarrow> 0 < values_per_block block \<and> 0 < bytes_per_block block"
  shows "wf_packing (length shape) packing \<and> prod_list shape < u64_bound
    \<and> (\<forall>block. packing = Blocks block \<longrightarrow> span_length payload = packed_bytes shape block)"
proof -
  from assms(1) have prod: "checked_product shape = Inr (prod_list shape)" "prod_list shape < u64_bound"
    using checked_product_exact by (auto simp: validate_shape_and_packing_def bindR_Inr)
  show ?thesis
  proof (cases packing)
    case Opaque
    then show ?thesis using prod by (simp add: wf_packing_def)
  next
    case (Blocks block)
    then have v: "0 < values_per_block block" "0 < bytes_per_block block" using pos by auto
    show ?thesis
    proof (cases "packing_order block")
      case Flat
      then show ?thesis
        using assms(1) Blocks prod v block_bytes_Inr[OF v(1)]
        by (auto simp: validate_shape_and_packing_def bindR_Inr wf_packing_def packed_bytes_def)
    next
      case (Axis a)
      have a: "a < length shape"
        using assms(1) Blocks Axis prod
        by (auto simp: validate_shape_and_packing_def bindR_Inr quantized_validate_axis_def try_from_Inr)
      show ?thesis
      proof (cases "shape ! a = 0")
        case True
        then have "blocks_of (values_per_block block) (shape ! a) = 0" using v by (simp add: blocks_of_def)
        then show ?thesis
          using assms(1) Blocks Axis prod True a v
          by (auto simp: validate_shape_and_packing_def bindR_Inr wf_packing_def packed_bytes_def try_from_Inr)
      next
        case False
        then have "prod_list shape div shape ! a = prod_list (take a shape @ drop (Suc a) shape)"
          using prod_list_axis[OF a] by simp
        then show ?thesis
          using assms(1) Blocks Axis prod False a v block_bytes_Inr[OF v(1)]
          by (auto simp: validate_shape_and_packing_def bindR_Inr wf_packing_def packed_bytes_def try_from_Inr checked_Some
              simp del: prod_list.append)
      qed
    qed
  qed
qed

section \<open>Built descriptors\<close>

definition wf_quantized :: "QuantizedStorage \<Rightarrow> bool" where
  "wf_quantized q \<longleftrightarrow> q_schema_version q = QUANTIZED_STORAGE_SCHEMA_VERSION
     \<and> validate_shape_and_packing (q_logical_shape q) (q_payload q) (q_packing q) = Inr ()
     \<and> (\<forall>grouping. q_grouping q = Some grouping \<longrightarrow> grouping_axis grouping < usize_bound
          \<and> grouping_axis grouping < length (q_logical_shape q))
     \<and> sorted (q_required_companions q) \<and> distinct (q_required_companions q)
     \<and> increasing (q_companions q) \<and> set (q_required_companions q) \<subseteq> dom (map_of (q_companions q))"

lemma required_window: "any_window2 (=) (sort roles) \<longleftrightarrow> \<not> distinct (roles :: StableName list)"
  using window_duplicates[of "\<lambda>x. x" "sort roles"] by simp

lemma build_quantized_wf:
  assumes "builder_build_quantized b = Inr q"
  shows "wf_quantized q"
  using assms
  by (auto simp: builder_build_quantized_def wf_quantized_def bindR_Inr Let_def required_window collect_unique
      quantized_validate_axis_def try_from_Inr list_ex_iff domIff split: option.splits)

text \<open>Deserializing a serialized descriptor gives it back.\<close>

lemma quantized_round_trip:
  assumes "wf_quantized q"
  shows "QuantizedStorage_try_from q = Inr q"
proof -
  have s: "sort (q_required_companions q) = q_required_companions q" using assms by (simp add: wf_quantized_def sorted_sort_id)
  have w: "\<not> any_window2 (=) (q_required_companions q)" using assms required_window[of "q_required_companions q"] s
    by (simp add: wf_quantized_def)
  have c: "foldR (insert_unique Binding) (q_companions q) [] = Inr (q_companions q)"
    using assms by (intro collect_increasing) (simp add: wf_quantized_def)
  have r: "\<not> list_ex (\<lambda>role. map_of (q_companions q) role = None) (q_required_companions q)"
    using assms by (auto simp: wf_quantized_def list_ex_iff domIff[symmetric] subset_iff)
  show ?thesis
    using assms s w c r
    by (cases "q_grouping q") (simp_all add: QuantizedStorage_try_from_def builder_build_quantized_def wf_quantized_def
        with_metadata_def with_companions_def with_required_companions_def with_grouping_def QuantizedStorage_builder_def
        quantized_validate_axis_def try_from_ok Let_def)
qed

section \<open>Capability sets\<close>

lemma text_key_inj: "text_key s = text_key t \<longleftrightarrow> s = t"
  unfolding text_key_def by (auto dest: map_injective[OF _ inj_onI] simp: inj_def)

lemma implementation_key_inj: "implementation_key i = implementation_key j \<longleftrightarrow> i = j"
  by (cases i; cases j) (simp add: implementation_key_def text_key_inj)

lemma length_implementation_key [simp]: "length (implementation_key i) = 3"
  by (simp add: implementation_key_def)

lemma dtype_ordinal_inj: "dtype_ordinal a = dtype_ordinal b \<longleftrightarrow> a = b"
  by (cases a; cases b) simp_all

lemma route_key_inj: "route_key r @ xs = route_key r' @ xs' \<longleftrightarrow> r = r' \<and> xs = xs'"
  by (cases r; cases r') (auto simp: dtype_ordinal_inj implementation_key_def text_key_inj)

lemma bytes_key_inj: "map unat xs = map unat ys \<longleftrightarrow> xs = (ys :: u8 list)"
  by (rule inj_map_eq_map) (rule injI, erule unsigned_word_eqI)

lemma requirement_key_inj: "requirement_key a = requirement_key b \<longleftrightarrow> a = b"
  by (cases a; cases b) (simp add: requirement_key_def text_key_inj bytes_key_inj)

lemma implementation_key_append: "implementation_key i @ xs = implementation_key j @ ys \<longleftrightarrow> i = j \<and> xs = ys"
  using append_eq_append_conv[of "implementation_key i" "implementation_key j" xs ys] by (simp add: implementation_key_inj)

lemma capability_key_inj: "capability_key a = capability_key b \<longleftrightarrow> a = b"
  by (cases a; cases b)
    (auto simp: capability_key_def implementation_key_append route_key_inj requirement_key_inj digest_key_def
      bytes_key_inj split: option.splits)

text \<open>A set is accepted when no declaration is repeated; the order of the declarations does not matter.\<close>

lemma capability_windows:
  "any_window2 (=) (sort_key capability_key cs) \<longleftrightarrow> \<not> distinct cs"
proof -
  have "any_window2 (\<lambda>a b. capability_key a = capability_key b) (sort_key capability_key cs) \<longleftrightarrow>
      \<not> distinct (map capability_key (sort_key capability_key cs))"
    by (rule window_duplicates) simp
  moreover have "inj capability_key" by (rule injI) (simp add: capability_key_inj)
  ultimately show ?thesis by (simp add: capability_key_inj distinct_map inj_on_subset)
qed

lemma CapabilitySet_new_Inr:
  "CapabilitySet_new cs = Inr caps \<longleftrightarrow> distinct cs \<and> caps = sort_key capability_key cs"
  by (auto simp: CapabilitySet_new_def Let_def bindR_Inr capability_windows)

lemma sort_key_permutation:
  assumes "mset cs = mset cs'"
  shows "sort_key capability_key cs = sort_key capability_key cs'"
proof (rule properties_for_sort_key)
  show "mset (sort_key capability_key cs') = mset cs" using assms by simp
  show "sorted (map capability_key (sort_key capability_key cs'))" by simp
  fix k assume "k \<in> set (sort_key capability_key cs')"
  have "filter (\<lambda>x. capability_key k = capability_key x) xs = replicate (count (mset xs) k) k" for xs
    by (induction xs) (auto simp: capability_key_inj)
  then show "filter (\<lambda>x. capability_key k = capability_key x) (sort_key capability_key cs') =
      filter (\<lambda>x. capability_key k = capability_key x) cs"
    using assms by (metis mset_sort)
qed

text \<open>Capability sets are canonical: declarations in any order give the same set, the set is refused
as a binding error exactly when a declaration is repeated, and matching returns exactly the
declared capabilities for an encoding, route, backend and layout.\<close>

lemma capability_sets_canonical:
  assumes "mset cs = mset cs'"
  shows "CapabilitySet_new cs = CapabilitySet_new cs'
    \<and> (CapabilitySet_new cs = Inl Binding \<longleftrightarrow> \<not> distinct cs)
    \<and> (\<forall>caps. CapabilitySet_new cs = Inr caps \<longrightarrow>
        set (matching caps source r b l) = {c \<in> set cs. capability_matches c source r b l})"
proof (intro conjI allI impI)
  show "CapabilitySet_new cs = CapabilitySet_new cs'"
    using sort_key_permutation[OF assms] by (simp add: CapabilitySet_new_def)
  show "CapabilitySet_new cs = Inl Binding \<longleftrightarrow> \<not> distinct cs"
    by (cases "distinct cs") (simp_all add: CapabilitySet_new_def Let_def capability_windows)
  fix caps assume "CapabilitySet_new cs = Inr caps"
  then show "set (matching caps source r b l) = {c \<in> set cs. capability_matches c source r b l}"
    by (auto simp: CapabilitySet_new_Inr matching_def)
qed

end
