(* ===== verification/MW_Source.thy ===== *)
theory MW_Source
  imports MW_Identity MW_Ordered
begin

text \<open>
  source.rs: safe repository paths and source descriptors, and positioned reads. Positioned reads of an opened source file (checkpoint.rs, \<open>read_exact_at\<close>). The file is
  a parameter: what one positioned read returns for an offset and a buffer length. The law
  \<open>reads file contents\<close> states what the operating system documents for a file that is not
  modified: a read returns a prefix of the remaining bytes, at most as long as the buffer, and is
  empty only at the end of the file.
\<close>

section \<open>Repository paths\<close>

type_synonym RepoPath = string

text \<open>\<open>str::split\<close> on a character.\<close>

fun split_char :: "char \<Rightarrow> string \<Rightarrow> string list" where
  "split_char c [] = [[]]"
| "split_char c (x # xs) = (if x = c then [] # split_char c xs
     else case split_char c xs of [] \<Rightarrow> [[x]] | y # ys \<Rightarrow> (x # y) # ys)"

text \<open>
  \<open>char::is_control\<close> on UTF-8 text: C0 controls, DEL, and the C1 controls, which are the two-byte
  sequences C2 80 to C2 9F.
\<close>

fun contains_control :: "string \<Rightarrow> bool" where
  "contains_control [] = False"
| "contains_control (x # xs) = ((of_char x :: nat) < 32 \<or> (of_char x :: nat) = 127
     \<or> (of_char x = (194 :: nat) \<and> (case xs of [] \<Rightarrow> False | y # _ \<Rightarrow> (128 :: nat) \<le> of_char y \<and> of_char y \<le> (159 :: nat)))
     \<or> contains_control xs)"

text \<open>
  \<open>Path::components\<close> of the Unix targets has a root component exactly for a leading slash and a
  parent component exactly for \<open>..\<close>; it never has a prefix.
\<close>

definition platform_absolute :: "string \<Rightarrow> bool" where
  "platform_absolute path = ((case path of [] \<Rightarrow> False | x # _ \<Rightarrow> x = CHR ''/'') \<or> ''..'' \<in> set (split_char CHR ''/'' path))"

definition RepoPath_parse :: "string \<Rightarrow> RepoPath result" where
  "RepoPath_parse path =
     (let invalid_text = path = [] \<or> CHR 0x5C \<in> set path \<or> CHR '':'' \<in> set path \<or> CHR 0x00 \<in> set path
            \<or> contains_control path \<or> hd path = CHR ''/'' \<or> last path = CHR ''/'';
          invalid_component = list_ex (\<lambda>c. c = [] \<or> c = ''.'' \<or> c = ''..'') (split_char CHR ''/'' path)
      in bindR (ensure (\<not> (invalid_text \<or> invalid_component \<or> platform_absolute path)) InvalidPath) (\<lambda>_.
           Inr path))"

section \<open>Source descriptors\<close>

datatype DigestPolicy =
    ComputeOnDemand | VerifyOnDemand ContentDigest | TrustExternal ContentDigest | TrustRetained ContentDigest

datatype SourceKind = Local | RetainedSnapshot

text \<open>
  A descriptor without its handles: \<open>retained_file\<close> and \<open>retention\<close> say whether a file handle and a
  guard are kept. \<open>local_path\<close> is the path that is opened when no handle is kept.
\<close>

record SourceDescriptor =
  logical_path :: RepoPath
  local_path :: string
  retained_file :: bool
  expected_size :: "nat option"
  digest_policy :: DigestPolicy
  source_kind :: SourceKind
  retention :: bool

text \<open>\<open>file_name\<close> is the final component of the path, when it has one and it is UTF-8 text.\<close>

definition SourceDescriptor_local :: "string \<Rightarrow> string option \<Rightarrow> SourceDescriptor result" where
  "SourceDescriptor_local path file_name =
     bindR (ok_or InvalidPath file_name) (\<lambda>name.
     bindR (RepoPath_parse name) (\<lambda>logical.
       Inr \<lparr>logical_path = logical, local_path = path, retained_file = False, expected_size = None,
            digest_policy = ComputeOnDemand, source_kind = Local, retention = False\<rparr>))"

definition local_with_digest :: "string \<Rightarrow> string option \<Rightarrow> nat \<Rightarrow> ContentDigest \<Rightarrow> SourceDescriptor result" where
  "local_with_digest path file_name n digest =
     bindR (SourceDescriptor_local path file_name) (\<lambda>d.
       Inr (d\<lparr>expected_size := Some n, digest_policy := VerifyOnDemand digest\<rparr>))"

definition local_with_trusted_digest :: "string \<Rightarrow> string option \<Rightarrow> nat \<Rightarrow> ContentDigest \<Rightarrow> SourceDescriptor result" where
  "local_with_trusted_digest path file_name n digest =
     bindR (SourceDescriptor_local path file_name) (\<lambda>d.
       Inr (d\<lparr>expected_size := Some n, digest_policy := TrustExternal digest\<rparr>))"

definition SourceDescriptor_retained :: "string \<Rightarrow> string \<Rightarrow> nat \<Rightarrow> ContentDigest \<Rightarrow> SourceDescriptor result" where
  "SourceDescriptor_retained logical path n digest =
     bindR (RepoPath_parse logical) (\<lambda>logical.
       Inr \<lparr>logical_path = logical, local_path = path, retained_file = False, expected_size = Some n,
            digest_policy = TrustRetained digest, source_kind = RetainedSnapshot, retention = True\<rparr>)"

text \<open>The metadata of the handle is an argument: whether it is a regular file, and its length.\<close>

definition SourceDescriptor_retained_file ::
    "string \<Rightarrow> (bool \<times> nat) result \<Rightarrow> nat \<Rightarrow> ContentDigest \<Rightarrow> SourceDescriptor result" where
  "SourceDescriptor_retained_file logical file_metadata n digest =
     bindR (RepoPath_parse logical) (\<lambda>logical.
     bindR file_metadata (\<lambda>m.
     bindR (ensure (fst m) InvalidFormat) (\<lambda>_.
     bindR (ensure (snd m = n) Integrity) (\<lambda>_.
       Inr \<lparr>logical_path = logical, local_path = logical, retained_file = True, expected_size = Some n,
            digest_policy = TrustRetained digest, source_kind = RetainedSnapshot, retention = True\<rparr>))))"

definition with_logical_path :: "string \<Rightarrow> SourceDescriptor \<Rightarrow> SourceDescriptor result" where
  "with_logical_path path d =
     bindR (RepoPath_parse path) (\<lambda>logical.
     let d = d\<lparr>logical_path := logical\<rparr> in
       Inr (if retained_file d then d\<lparr>local_path := logical\<rparr> else d))"

section \<open>Positioned reads\<close>

type_synonym File = "nat \<Rightarrow> nat \<Rightarrow> u8 list result"

text \<open>A read never returns more than the buffer holds, which \<open>take\<close> makes explicit.\<close>

function read_exact_at :: "File \<Rightarrow> nat \<Rightarrow> nat \<Rightarrow> u8 list result" where
  "read_exact_at file start n =
     (if n = 0 then Inr []
      else bindR (file start n) (\<lambda>bytes.
        let got = take n bytes in
        if got = [] then Inl Integrity
        else bindR (ok_or ResourceLimit (checked_add start (length got))) (\<lambda>start.
             bindR (read_exact_at file start (n - length got)) (\<lambda>rest.
               Inr (got @ rest)))))"
  by pat_completeness auto
termination
  by (relation "measure (\<lambda>(_, _, n). n)") auto

declare read_exact_at.simps [simp del]

definition reads :: "File \<Rightarrow> u8 list \<Rightarrow> bool" where
  "reads file contents \<longleftrightarrow> (\<forall>start n. \<exists>k. file start n = Inr (take k (drop start contents)) \<and> k \<le> n
     \<and> (k = 0 \<longrightarrow> n = 0 \<or> length contents \<le> start))"

text \<open>The loop assembles exactly the requested bytes from whatever pieces the reads return.\<close>

lemma read_exact_at_reads:
  assumes r: "reads file contents" and "length contents < u64_bound" and "start + n \<le> length contents"
  shows "read_exact_at file start n = Inr (take n (drop start contents))"
  using assms(3)
proof (induction n arbitrary: start rule: less_induct)
  case (less n)
  show ?case
  proof (cases "n = 0")
    case True
    then show ?thesis by (simp add: read_exact_at.simps)
  next
    case False
    from r obtain k where k: "file start n = Inr (take k (drop start contents))" "k \<le> n"
      "k = 0 \<longrightarrow> n = 0 \<or> length contents \<le> start" unfolding reads_def by blast
    have k0: "0 < k" using k(3) less.prems False by auto
    let ?got = "take k (drop start contents)"
    have got: "take n ?got = ?got" "length ?got = k" "?got \<noteq> []" using k(2) k0 less.prems by auto
    have "checked_add start k = Some (start + k)" using less.prems k(2) assms(2) by (simp add: checked_add_def)
    moreover have "read_exact_at file (start + k) (n - k) = Inr (take (n - k) (drop (start + k) contents))"
      using less.IH[of "n - k" "start + k"] k0 k(2) False less.prems by simp
    moreover have "?got @ take (n - k) (drop (start + k) contents) = take n (drop start contents)"
      using take_add[of k "n - k" "drop start contents"] k(2) by (simp add: add.commute)
    ultimately show ?thesis using False k(1) got by (subst read_exact_at.simps) (simp add: Let_def)
  qed
qed

text \<open>A file that is read in one piece.\<close>

definition whole_file :: "u8 list \<Rightarrow> File" where
  "whole_file contents start n = Inr (take n (drop start contents))"

lemma whole_file_reads: "reads (whole_file contents) contents"
  unfolding reads_def whole_file_def by (metis le_refl)

section \<open>Safe paths\<close>

text \<open>What a file system does with the components of a relative path, starting in a directory.\<close>

fun walk :: "string list \<Rightarrow> string list \<Rightarrow> string list" where
  "walk dir [] = dir"
| "walk dir (c # cs) = walk (if c = [] \<or> c = ''.'' then dir else if c = ''..'' then butlast dir else dir @ [c]) cs"

lemma walk_safe:
  "\<not> list_ex (\<lambda>c. c = [] \<or> c = ''.'' \<or> c = ''..'') cs \<Longrightarrow> walk dir cs = dir @ cs"
  by (induction cs arbitrary: dir) auto

lemma split_char_ne [simp]: "split_char c s \<noteq> []"
  by (induction s) (auto split: list.splits)

lemma split_char_parts: "x \<in> set (split_char c s) \<Longrightarrow> c \<notin> set x"
  by (induction s arbitrary: x) (auto split: if_splits list.splits)

text \<open>Joining the components gives the path back.\<close>

lemma split_char_join: "concat (map (\<lambda>x. c # x) (split_char c s)) = c # s"
proof (induction s)
  case Nil
  then show ?case by simp
next
  case (Cons x s)
  obtain y ys where y: "split_char c s = y # ys" using split_char_ne[of c s] by (cases "split_char c s") auto
  then show ?case using Cons by auto
qed

lemma RepoPath_parse_Inr:
  assumes "RepoPath_parse path = Inr p"
  shows "p = path \<and> walk dir (split_char CHR ''/'' p) = dir @ split_char CHR ''/'' p
    \<and> (\<forall>c \<in> set (split_char CHR ''/'' p). c \<noteq> [] \<and> c \<noteq> ''.'' \<and> c \<noteq> ''..'' \<and> CHR ''/'' \<notin> set c)"
  using assms walk_safe split_char_parts
  by (auto simp: RepoPath_parse_def Let_def bindR_Inr list_ex_iff)

end
