(* ===== verification/MW_Inventory.thy ===== *)
theory MW_Inventory
  imports MW_Quantization MW_Source
begin

text \<open>
  inventory.rs: file and tensor records and the validated inventory with its lookup. The JSON
  shard index, which is driven by the serde_json parser, is not modelled.
\<close>

section \<open>Records\<close>

datatype DigestState = Deferred | Expected ContentDigest | Trusted ContentDigest

definition DigestState_from :: "DigestPolicy \<Rightarrow> DigestState" where
  "DigestState_from policy = (case policy of ComputeOnDemand \<Rightarrow> Deferred | VerifyOnDemand d \<Rightarrow> Expected d
     | TrustExternal d \<Rightarrow> Trusted d | TrustRetained d \<Rightarrow> Trusted d)"

record FileRecord =
  file_id :: FileId
  file_path :: RepoPath
  file_bytes :: nat
  file_kind :: SourceKind
  file_digest :: DigestState

record TensorRecord =
  tensor_name :: string
  tensor_shape :: "nat list"
  tensor_storage :: Storage

record Inventory =
  inventory_files :: "FileRecord list"
  inventory_tensors :: "TensorRecord list"

section \<open>Validation\<close>

definition validate_inventory_span :: "SourceSpan \<Rightarrow> FileRecord list \<Rightarrow> unit result" where
  "validate_inventory_span span files =
     bindR (usize_try_from (span_file span)) (\<lambda>file_index.
     bindR (ok_or InvalidFormat (if file_index < length files then Some (files ! file_index) else None)) (\<lambda>file.
       ensure (\<not> span_end span > file_bytes file) InvalidFormat))"

definition validate_inventory_file :: "FileRecord list \<Rightarrow> nat \<Rightarrow> unit result" where
  "validate_inventory_file files index =
     bindR (u32_try_from index) (\<lambda>ordinal.
     bindR (ensure (file_id (files ! index) = ordinal) InvalidFormat) (\<lambda>_.
       ensure (\<not> (index > 0 \<and> file_path (files ! (index - 1)) \<ge> file_path (files ! index))) InvalidFormat))"

definition validate_inventory_tensor :: "FileRecord list \<Rightarrow> TensorRecord \<Rightarrow> unit result" where
  "validate_inventory_tensor files tensor =
     bindR (ensure (tensor_name tensor \<noteq> []) InvalidFormat) (\<lambda>_.
     case tensor_storage tensor of
       Plain dt span \<Rightarrow>
         bindR (DType_byte_len dt (tensor_shape tensor)) (\<lambda>bytes.
         bindR (ensure (bytes = span_length span) InvalidFormat) (\<lambda>_.
           validate_inventory_span span files))
     | Quantized q \<Rightarrow>
         bindR (ensure (q_logical_shape q = tensor_shape tensor) InvalidFormat) (\<lambda>_.
         bindR (validate_inventory_span (q_payload q) files) (\<lambda>_.
         bindR (mapR (\<lambda>p. validate_inventory_span (companion_span (snd p)) files) (q_companions q)) (\<lambda>_.
           Inr ()))))"

definition Inventory_new :: "FileRecord list \<Rightarrow> TensorRecord list \<Rightarrow> Inventory result" where
  "Inventory_new files tensors =
     bindR (ensure (files \<noteq> []) InvalidFormat) (\<lambda>_.
     bindR (mapR (validate_inventory_file files) [0..<length files]) (\<lambda>_.
     let tensors = sort_key tensor_name tensors in
     bindR (ensure (\<not> any_window2 (\<lambda>a b. tensor_name a = tensor_name b) tensors) InvalidFormat) (\<lambda>_.
     bindR (mapR (validate_inventory_tensor files) tensors) (\<lambda>_.
       Inr \<lparr>inventory_files = files, inventory_tensors = tensors\<rparr>))))"

definition Inventory_try_from :: "Inventory \<Rightarrow> Inventory result" where
  "Inventory_try_from wire = Inventory_new (inventory_files wire) (inventory_tensors wire)"

section \<open>Lookup\<close>

text \<open>\<open>slice::binary_search_by\<close>: the base keeps the last position that is not greater.\<close>

function search_base :: "('a \<Rightarrow> bool) \<Rightarrow> 'a list \<Rightarrow> nat \<Rightarrow> nat \<Rightarrow> nat" where
  "search_base beyond xs base n =
     (if n \<le> 1 then base
      else let half = n div 2; mid = base + half in
        search_base beyond xs (if beyond (xs ! mid) then base else mid) (n - half))"
  by pat_completeness auto
termination
  by (relation "measure (\<lambda>(_, _, _, n). n)") auto

declare search_base.simps [simp del]

definition binary_search :: "('a \<Rightarrow> 'k :: linorder) \<Rightarrow> 'k \<Rightarrow> 'a list \<Rightarrow> nat option" where
  "binary_search key k xs =
     (if xs = [] then None
      else let base = search_base (\<lambda>x. key x > k) xs 0 (length xs) in
        if key (xs ! base) = k then Some base else None)"

definition Inventory_tensor :: "Inventory \<Rightarrow> string \<Rightarrow> TensorRecord option" where
  "Inventory_tensor inventory name =
     map_option (\<lambda>i. inventory_tensors inventory ! i) (binary_search tensor_name name (inventory_tensors inventory))"

section \<open>Binary search\<close>

lemma search_base_range: "0 < n \<Longrightarrow> base \<le> search_base g xs base n \<and> search_base g xs base n < base + n"
proof (induction n arbitrary: base rule: less_induct)
  case (less n)
  show ?case
  proof (cases "n \<le> 1")
    case True
    then show ?thesis using less.prems by (simp add: search_base.simps)
  next
    case False
    let ?h = "n div 2" let ?b = "if g (xs ! (base + ?h)) then base else base + ?h"
    have "?b \<le> search_base g xs ?b (n - ?h) \<and> search_base g xs ?b (n - ?h) < ?b + (n - ?h)"
      using False by (intro less.IH) auto
    moreover have "search_base g xs base n = search_base g xs ?b (n - ?h)"
      using False by (subst search_base.simps) (simp add: Let_def)
    moreover have "base \<le> ?b" "?b + (n - ?h) \<le> base + n" using False by auto
    ultimately show ?thesis by linarith
  qed
qed

text \<open>The invariant: the sought position is not outside the current window.\<close>

lemma search_base_finds:
  fixes key :: "'a \<Rightarrow> 'k :: linorder"
  assumes s: "sorted_wrt (<) (map key xs)" and k: "key (xs ! i) = k" and "base \<le> i" "i < base + n" "base + n \<le> length xs"
  shows "search_base (\<lambda>x. key x > k) xs base n = i"
  using assms(3-5)
proof (induction n arbitrary: base rule: less_induct)
  case (less n)
  have mono: "key (xs ! a) < key (xs ! b)" if "a < b" "b < length xs" for a b
    using sorted_wrt_nth_less[OF s, of a b] that by simp
  show ?case
  proof (cases "n \<le> 1")
    case True
    then show ?thesis using less.prems by (simp add: search_base.simps)
  next
    case False
    let ?h = "n div 2" let ?m = "base + ?h"
    have m: "?m < length xs" using less.prems False by linarith
    have g: "key (xs ! ?m) > k \<longleftrightarrow> i < ?m"
    proof (cases "i < ?m")
      case True
      then show ?thesis using mono[OF True m] k by simp
    next
      case False
      then have "?m = i \<or> ?m < i" by linarith
      moreover have "i < length xs" using less.prems by linarith
      ultimately have "key (xs ! ?m) \<le> k" using mono[of ?m i] k by (elim disjE) (simp_all add: less_imp_le)
      then show ?thesis using False by (simp add: not_less)
    qed
    let ?b = "if key (xs ! ?m) > k then base else ?m"
    have "search_base (\<lambda>x. key x > k) xs ?b (n - ?h) = i"
    proof (rule less.IH)
      show "n - ?h < n" using False by auto
      show "?b \<le> i" "i < ?b + (n - ?h)" "?b + (n - ?h) \<le> length xs" using g less.prems False by auto
    qed
    then show ?thesis using False by (subst search_base.simps) (simp add: Let_def)
  qed
qed

lemma binary_search_sorted:
  assumes s: "sorted_wrt (<) (map key xs)"
  shows "binary_search key k xs = Some i \<longleftrightarrow> i < length xs \<and> key (xs ! i) = k"
proof
  assume "binary_search key k xs = Some i"
  then show "i < length xs \<and> key (xs ! i) = k"
    using search_base_range[of "length xs" 0 "\<lambda>x. key x > k" xs]
    by (auto simp: binary_search_def Let_def split: if_splits)
next
  assume i: "i < length xs \<and> key (xs ! i) = k"
  then show "binary_search key k xs = Some i"
    using search_base_finds[OF s, of i k 0 "length xs"] by (auto simp: binary_search_def Let_def)
qed

section \<open>Valid inventories\<close>

definition span_within :: "SourceSpan \<Rightarrow> FileRecord list \<Rightarrow> bool" where
  "span_within span files \<longleftrightarrow> span_file span < length files \<and> span_end span \<le> file_bytes (files ! span_file span)"

definition wf_inventory :: "Inventory \<Rightarrow> bool" where
  "wf_inventory invt \<longleftrightarrow> inventory_files invt \<noteq> []
     \<and> (\<forall>i < length (inventory_files invt). file_id (inventory_files invt ! i) = i)
     \<and> sorted_wrt (<) (map file_path (inventory_files invt))
     \<and> sorted_wrt (<) (map tensor_name (inventory_tensors invt))
     \<and> (\<forall>t \<in> set (inventory_tensors invt). tensor_name t \<noteq> []
         \<and> span_within (storage_span (tensor_storage t)) (inventory_files invt)
         \<and> (case tensor_storage t of
              Plain dt span \<Rightarrow> DType_byte_len dt (tensor_shape t) = Inr (span_length span)
            | Quantized q \<Rightarrow> q_logical_shape q = tensor_shape t
                \<and> (\<forall>c \<in> set (q_companions q). span_within (companion_span (snd c)) (inventory_files invt))))"

lemma validate_inventory_span_Inr: "validate_inventory_span span files = Inr () \<Longrightarrow> span_within span files"
  by (auto simp: validate_inventory_span_def bindR_Inr try_from_Inr span_within_def split: if_splits)

lemma validate_inventory_tensor_Inr:
  "validate_inventory_tensor files t = Inr () \<Longrightarrow> tensor_name t \<noteq> []
     \<and> span_within (storage_span (tensor_storage t)) files
     \<and> (case tensor_storage t of
          Plain dt span \<Rightarrow> DType_byte_len dt (tensor_shape t) = Inr (span_length span)
        | Quantized q \<Rightarrow> q_logical_shape q = tensor_shape t
            \<and> (\<forall>c \<in> set (q_companions q). span_within (companion_span (snd c)) files))"
  by (auto simp: validate_inventory_tensor_def bindR_Inr mapR_Inr storage_span_def in_set_conv_nth
      dest!: validate_inventory_span_Inr split: Storage.splits)
    (metis snd_conv validate_inventory_span_Inr)+

lemma sort_key_strict:
  assumes "\<not> any_window2 (\<lambda>a b. f a = f b) (sort_key f xs)"
  shows "sorted_wrt (<) (map f (sort_key f xs))"
proof -
  have "sorted (map f (sort_key f xs))" by simp
  moreover have "distinct (map f (sort_key f xs))" using assms window_duplicates[of f "sort_key f xs"] by simp
  ultimately show ?thesis by (simp add: strict_sorted_iff)
qed

lemma Inventory_new_Inr:
  assumes "Inventory_new files tensors = Inr invt"
  shows "wf_inventory invt \<and> inventory_files invt = files \<and> inventory_tensors invt = sort_key tensor_name tensors"
proof -
  from assms have invt: "invt = \<lparr>inventory_files = files, inventory_tensors = sort_key tensor_name tensors\<rparr>"
    and ne: "files \<noteq> []" and f: "\<forall>i < length files. validate_inventory_file files i = Inr ()"
    and w: "\<not> any_window2 (\<lambda>a b. tensor_name a = tensor_name b) (sort_key tensor_name tensors)"
    and t: "\<forall>t \<in> set tensors. validate_inventory_tensor files t = Inr ()"
    by (auto simp: Inventory_new_def bindR_Inr Let_def mapR_Inr in_set_conv_nth)
      (metis (no_types, lifting) in_set_conv_nth length_sort set_sort)
  have id: "file_id (files ! i) = i" if "i < length files" for i
    using f that by (auto simp: validate_inventory_file_def bindR_Inr try_from_Inr)
  have "file_path (files ! i) < file_path (files ! Suc i)" if "Suc i < length files" for i
    using f[rule_format, OF that] by (auto simp: validate_inventory_file_def bindR_Inr not_le)
  then have "sorted_wrt (<) (map file_path files)"
    by (simp add: sorted_wrt_iff_nth_Suc_transp[OF transp_on_less])
  then show ?thesis
    unfolding wf_inventory_def invt Inventory.simps set_sort
    using ne id sort_key_strict[OF w] t[THEN bspec, THEN validate_inventory_tensor_Inr]
    by simp
qed

lemma sort_key_again: "sort_key f (sort_key f xs) = sort_key f xs"
  by (rule properties_for_sort_key) simp_all

text \<open>Deserializing an inventory replays its construction.\<close>

lemma inventory_replay:
  assumes "Inventory_new files tensors = Inr invt"
  shows "Inventory_try_from invt = Inr invt"
proof -
  have "invt = \<lparr>inventory_files = files, inventory_tensors = sort_key tensor_name tensors\<rparr>"
    using Inventory_new_Inr[OF assms] by (cases invt) auto
  then show ?thesis
    using assms unfolding Inventory_try_from_def by (simp add: Inventory_new_def sort_key_again Let_def)
qed

lemma inventory_lookup:
  assumes "Inventory_new files tensors = Inr invt"
  shows "Inventory_tensor invt name = Some t \<longleftrightarrow> t \<in> set tensors \<and> tensor_name t = name"
proof -
  have s: "sorted_wrt (<) (map tensor_name (inventory_tensors invt))" and e: "inventory_tensors invt = sort_key tensor_name tensors"
    using Inventory_new_Inr[OF assms] by (auto simp: wf_inventory_def)
  have "Inventory_tensor invt name = Some t \<longleftrightarrow>
      (\<exists>i < length (inventory_tensors invt). tensor_name (inventory_tensors invt ! i) = name \<and> inventory_tensors invt ! i = t)"
    unfolding Inventory_tensor_def map_option_eq_Some binary_search_sorted[OF s] by blast
  also have "\<dots> \<longleftrightarrow> t \<in> set (inventory_tensors invt) \<and> tensor_name t = name" by (auto simp: in_set_conv_nth)
  finally show ?thesis unfolding e set_sort .
qed

end
