(* ===== verification/MW_Ggml.thy ===== *)
theory MW_Ggml
  imports MW_Inventory
begin

text \<open>
  gguf.rs, the part below the byte reader: GGML storage types with their codes and block sizes,
  the storage of a described tensor, alignment, and the tensor records of a parsed inventory.
\<close>

section \<open>GGML storage types\<close>

datatype GgmlType =
    GF32 | GF16 | Q4_0 | Q4_1 | Q5_0 | Q5_1 | Q8_0 | Q8_1 | Q2K
  | Q3K | Q4K | Q5K | Q6K | Q8K | Iq2Xxs | Iq2Xs | Iq3Xxs | Iq1S
  | Iq4Nl | Iq3S | Iq2S | Iq4Xs | GI8 | GI16 | GI32 | GI64 | GF64
  | Iq1M | GBf16 | Tq1_0 | Tq2_0 | Mxfp4 | Nvfp4 | Q1_0 | Q2_0

definition GgmlType_ALL :: "GgmlType list" where
  "GgmlType_ALL =
     [GF32, GF16, Q4_0, Q4_1, Q5_0, Q5_1, Q8_0, Q8_1, Q2K,
      Q3K, Q4K, Q5K, Q6K, Q8K, Iq2Xxs, Iq2Xs, Iq3Xxs, Iq1S,
      Iq4Nl, Iq3S, Iq2S, Iq4Xs, GI8, GI16, GI32, GI64, GF64,
      Iq1M, GBf16, Tq1_0, Tq2_0, Mxfp4, Nvfp4, Q1_0, Q2_0]"

fun ggml_code :: "GgmlType \<Rightarrow> nat" where
  "ggml_code GF32 = 0" | "ggml_code GF16 = 1" | "ggml_code Q4_0 = 2" | "ggml_code Q4_1 = 3"
| "ggml_code Q5_0 = 6" | "ggml_code Q5_1 = 7" | "ggml_code Q8_0 = 8" | "ggml_code Q8_1 = 9"
| "ggml_code Q2K = 10" | "ggml_code Q3K = 11" | "ggml_code Q4K = 12" | "ggml_code Q5K = 13"
| "ggml_code Q6K = 14" | "ggml_code Q8K = 15" | "ggml_code Iq2Xxs = 16" | "ggml_code Iq2Xs = 17"
| "ggml_code Iq3Xxs = 18" | "ggml_code Iq1S = 19" | "ggml_code Iq4Nl = 20" | "ggml_code Iq3S = 21"
| "ggml_code Iq2S = 22" | "ggml_code Iq4Xs = 23" | "ggml_code GI8 = 24" | "ggml_code GI16 = 25"
| "ggml_code GI32 = 26" | "ggml_code GI64 = 27" | "ggml_code GF64 = 28" | "ggml_code Iq1M = 29"
| "ggml_code GBf16 = 30" | "ggml_code Tq1_0 = 34" | "ggml_code Tq2_0 = 35" | "ggml_code Mxfp4 = 39"
| "ggml_code Nvfp4 = 40" | "ggml_code Q1_0 = 41" | "ggml_code Q2_0 = 42"

fun ggml_name :: "GgmlType \<Rightarrow> string" where
  "ggml_name GF32 = ''f32''" | "ggml_name GF16 = ''f16''" | "ggml_name Q4_0 = ''q4_0''"
| "ggml_name Q4_1 = ''q4_1''" | "ggml_name Q5_0 = ''q5_0''" | "ggml_name Q5_1 = ''q5_1''"
| "ggml_name Q8_0 = ''q8_0''" | "ggml_name Q8_1 = ''q8_1''" | "ggml_name Q2K = ''q2_k''"
| "ggml_name Q3K = ''q3_k''" | "ggml_name Q4K = ''q4_k''" | "ggml_name Q5K = ''q5_k''"
| "ggml_name Q6K = ''q6_k''" | "ggml_name Q8K = ''q8_k''" | "ggml_name Iq2Xxs = ''iq2_xxs''"
| "ggml_name Iq2Xs = ''iq2_xs''" | "ggml_name Iq3Xxs = ''iq3_xxs''" | "ggml_name Iq1S = ''iq1_s''"
| "ggml_name Iq4Nl = ''iq4_nl''" | "ggml_name Iq3S = ''iq3_s''" | "ggml_name Iq2S = ''iq2_s''"
| "ggml_name Iq4Xs = ''iq4_xs''" | "ggml_name GI8 = ''i8''" | "ggml_name GI16 = ''i16''"
| "ggml_name GI32 = ''i32''" | "ggml_name GI64 = ''i64''" | "ggml_name GF64 = ''f64''"
| "ggml_name Iq1M = ''iq1_m''" | "ggml_name GBf16 = ''bf16''" | "ggml_name Tq1_0 = ''tq1_0''"
| "ggml_name Tq2_0 = ''tq2_0''" | "ggml_name Mxfp4 = ''mxfp4''" | "ggml_name Nvfp4 = ''nvfp4''"
| "ggml_name Q1_0 = ''q1_0''" | "ggml_name Q2_0 = ''q2_0''"

fun ggml_values_per_block :: "GgmlType \<Rightarrow> nat" where
  "ggml_values_per_block GF32 = 1" | "ggml_values_per_block GF16 = 1" | "ggml_values_per_block Q4_0 = 32"
| "ggml_values_per_block Q4_1 = 32" | "ggml_values_per_block Q5_0 = 32" | "ggml_values_per_block Q5_1 = 32"
| "ggml_values_per_block Q8_0 = 32" | "ggml_values_per_block Q8_1 = 32" | "ggml_values_per_block Q2K = 256"
| "ggml_values_per_block Q3K = 256" | "ggml_values_per_block Q4K = 256" | "ggml_values_per_block Q5K = 256"
| "ggml_values_per_block Q6K = 256" | "ggml_values_per_block Q8K = 256" | "ggml_values_per_block Iq2Xxs = 256"
| "ggml_values_per_block Iq2Xs = 256" | "ggml_values_per_block Iq3Xxs = 256" | "ggml_values_per_block Iq1S = 256"
| "ggml_values_per_block Iq4Nl = 32" | "ggml_values_per_block Iq3S = 256" | "ggml_values_per_block Iq2S = 256"
| "ggml_values_per_block Iq4Xs = 256" | "ggml_values_per_block GI8 = 1" | "ggml_values_per_block GI16 = 1"
| "ggml_values_per_block GI32 = 1" | "ggml_values_per_block GI64 = 1" | "ggml_values_per_block GF64 = 1"
| "ggml_values_per_block Iq1M = 256" | "ggml_values_per_block GBf16 = 1" | "ggml_values_per_block Tq1_0 = 256"
| "ggml_values_per_block Tq2_0 = 256" | "ggml_values_per_block Mxfp4 = 32" | "ggml_values_per_block Nvfp4 = 64"
| "ggml_values_per_block Q1_0 = 128" | "ggml_values_per_block Q2_0 = 64"

fun ggml_bytes_per_block :: "GgmlType \<Rightarrow> nat" where
  "ggml_bytes_per_block GF32 = 4" | "ggml_bytes_per_block GF16 = 2" | "ggml_bytes_per_block Q4_0 = 18"
| "ggml_bytes_per_block Q4_1 = 20" | "ggml_bytes_per_block Q5_0 = 22" | "ggml_bytes_per_block Q5_1 = 24"
| "ggml_bytes_per_block Q8_0 = 34" | "ggml_bytes_per_block Q8_1 = 36" | "ggml_bytes_per_block Q2K = 84"
| "ggml_bytes_per_block Q3K = 110" | "ggml_bytes_per_block Q4K = 144" | "ggml_bytes_per_block Q5K = 176"
| "ggml_bytes_per_block Q6K = 210" | "ggml_bytes_per_block Q8K = 292" | "ggml_bytes_per_block Iq2Xxs = 66"
| "ggml_bytes_per_block Iq2Xs = 74" | "ggml_bytes_per_block Iq3Xxs = 98" | "ggml_bytes_per_block Iq1S = 50"
| "ggml_bytes_per_block Iq4Nl = 18" | "ggml_bytes_per_block Iq3S = 110" | "ggml_bytes_per_block Iq2S = 82"
| "ggml_bytes_per_block Iq4Xs = 136" | "ggml_bytes_per_block GI8 = 1" | "ggml_bytes_per_block GI16 = 2"
| "ggml_bytes_per_block GI32 = 4" | "ggml_bytes_per_block GI64 = 8" | "ggml_bytes_per_block GF64 = 8"
| "ggml_bytes_per_block Iq1M = 56" | "ggml_bytes_per_block GBf16 = 2" | "ggml_bytes_per_block Tq1_0 = 54"
| "ggml_bytes_per_block Tq2_0 = 66" | "ggml_bytes_per_block Mxfp4 = 17" | "ggml_bytes_per_block Nvfp4 = 36"
| "ggml_bytes_per_block Q1_0 = 18" | "ggml_bytes_per_block Q2_0 = 18"

definition ggml_dtype :: "GgmlType \<Rightarrow> DType option" where
  "ggml_dtype t = (case t of GF32 \<Rightarrow> Some F32 | GF16 \<Rightarrow> Some F16 | GI8 \<Rightarrow> Some I8 | GI16 \<Rightarrow> Some I16 | GI32 \<Rightarrow> Some I32 | GI64 \<Rightarrow> Some I64 | GF64 \<Rightarrow> Some F64 | GBf16 \<Rightarrow> Some Bf16
     | _ \<Rightarrow> None)"

definition ggml_from_code :: "nat \<Rightarrow> GgmlType result" where
  "ggml_from_code code =
     (if code = 0 then Inr GF32
      else if code = 1 then Inr GF16
      else if code = 2 then Inr Q4_0
      else if code = 3 then Inr Q4_1
      else if code = 6 then Inr Q5_0
      else if code = 7 then Inr Q5_1
      else if code = 8 then Inr Q8_0
      else if code = 9 then Inr Q8_1
      else if code = 10 then Inr Q2K
      else if code = 11 then Inr Q3K
      else if code = 12 then Inr Q4K
      else if code = 13 then Inr Q5K
      else if code = 14 then Inr Q6K
      else if code = 15 then Inr Q8K
      else if code = 16 then Inr Iq2Xxs
      else if code = 17 then Inr Iq2Xs
      else if code = 18 then Inr Iq3Xxs
      else if code = 19 then Inr Iq1S
      else if code = 20 then Inr Iq4Nl
      else if code = 21 then Inr Iq3S
      else if code = 22 then Inr Iq2S
      else if code = 23 then Inr Iq4Xs
      else if code = 24 then Inr GI8
      else if code = 25 then Inr GI16
      else if code = 26 then Inr GI32
      else if code = 27 then Inr GI64
      else if code = 28 then Inr GF64
      else if code = 29 then Inr Iq1M
      else if code = 30 then Inr GBf16
      else if code = 34 then Inr Tq1_0
      else if code = 35 then Inr Tq2_0
      else if code = 39 then Inr Mxfp4
      else if code = 40 then Inr Nvfp4
      else if code = 41 then Inr Q1_0
      else if code = 42 then Inr Q2_0
      else Inl Unsupported)"

definition ENCODING_VERSION :: nat where
  "ENCODING_VERSION = 1"

text \<open>The \<open>expect\<close> calls never fail: both names are stable names for every type.\<close>

definition ggml_encoding :: "GgmlType \<Rightarrow> ImplementationId option" where
  "ggml_encoding t = (if ggml_dtype t = None
     then Some (ImplementationId_new ''gguf'' (ggml_name t) ENCODING_VERSION) else None)"

section \<open>Counts and alignment\<close>

definition bounded_count :: "nat \<Rightarrow> nat \<Rightarrow> nat result" where
  "bounded_count n maximum =
     bindR (usize_try_from n) (\<lambda>n. bindR (ensure (\<not> n > maximum) ResourceLimit) (\<lambda>_. Inr n))"

text \<open>\<open>value & !(alignment - 1)\<close> on 64-bit words; the alignment is not zero.\<close>

definition align_up :: "nat \<Rightarrow> nat \<Rightarrow> nat result" where
  "align_up n alignment =
     ok_or ResourceLimit (map_option (\<lambda>rounded.
       unat ((of_nat rounded :: 64 word) AND NOT (of_nat (alignment - 1))))
       (checked_add n (alignment - 1)))"

text \<open>\<open>u64::is_power_of_two\<close>: exactly one bit is set.\<close>

definition is_power_of_two :: "nat \<Rightarrow> bool" where
  "is_power_of_two n = (length (filter (bit n) [0..<64]) = 1)"

section \<open>Storage of a described tensor\<close>

definition gguf_storage :: "FileId \<Rightarrow> nat \<Rightarrow> nat list \<Rightarrow> nat \<Rightarrow> Storage result" where
  "gguf_storage file start shape code =
     bindR (ggml_from_code code) (\<lambda>t.
     case ggml_dtype t of
       Some dt \<Rightarrow>
         bindR (DType_byte_len dt shape) (\<lambda>len.
         bindR (SourceSpan_new file start len) (\<lambda>span. Inr (Plain dt span)))
     | None \<Rightarrow>
         bindR (ok_or InvalidFormat (checked_sub (length shape) 1)) (\<lambda>axis.
         let v = ggml_values_per_block t; b = ggml_bytes_per_block t in
         bindR (ensure (shape ! axis mod v = 0) InvalidFormat) (\<lambda>_.
         bindR (checked_product shape) (\<lambda>elements.
         bindR (ok_or ResourceLimit (checked_mul (elements div v) b)) (\<lambda>len.
         bindR (SourceSpan_new file start len) (\<lambda>span.
         bindR (u32_try_from axis) (\<lambda>axis.
         bindR (BlockPacking_new v b (Axis axis)) (\<lambda>block.
         bindR (ok_or InvalidFormat (ggml_encoding t)) (\<lambda>encoding.
         bindR (QuantizedStorage_new encoding shape span (Blocks block)) (\<lambda>q.
           Inr (Quantized q)))))))))))"

record RawTensor =
  raw_name :: string
  raw_dimensions :: "nat list"
  raw_type :: nat
  raw_offset :: nat

text \<open>One tensor description: its absolute span and its record.\<close>

definition build_tensor_record ::
    "FileId \<Rightarrow> nat \<Rightarrow> nat \<Rightarrow> nat \<Rightarrow> RawTensor \<Rightarrow> TensorRecord result" where
  "build_tensor_record file file_size data_base alignment raw =
     bindR (ensure (raw_offset raw mod alignment = 0) InvalidFormat) (\<lambda>_.
     bindR (ok_or ResourceLimit (checked_add data_base (raw_offset raw))) (\<lambda>absolute.
     let shape = rev (raw_dimensions raw) in
     bindR (gguf_storage file absolute shape (raw_type raw)) (\<lambda>storage.
     bindR (ensure (\<not> span_end (storage_span storage) > file_size) InvalidFormat) (\<lambda>_.
       Inr \<lparr>tensor_name = raw_name raw, tensor_shape = shape, tensor_storage = storage\<rparr>))))"

definition record_range :: "TensorRecord \<Rightarrow> nat \<times> nat" where
  "record_range r = (let span = storage_span (tensor_storage r) in (span_offset span, span_end span))"

definition build_tensor_records ::
    "FileId \<Rightarrow> nat \<Rightarrow> nat \<Rightarrow> nat \<Rightarrow> RawTensor list \<Rightarrow> TensorRecord list exec" where
  "build_tensor_records file file_size data_base alignment raws =
     bindE (try_reserve (length raws)) (\<lambda>_.
     bindE (try_reserve (length raws)) (\<lambda>_.
     bindE (mapE (\<lambda>raw. bindE check (\<lambda>_. liftE (build_tensor_record file file_size data_base alignment raw))) raws) (\<lambda>tensors.
     let occupied = sort_key (\<lambda>p. [fst p, snd p]) (map record_range tensors) in
     bindE (liftE (ensure (\<not> any_window2 (\<lambda>a b. snd a > fst b) occupied) InvalidFormat)) (\<lambda>_.
       retE tensors))))"

section \<open>Codes\<close>

lemma ggml_code_round_trip: "ggml_from_code (ggml_code t) = Inr t"
  by (cases t) (simp_all add: ggml_from_code_def)

lemma ggml_from_code_Inr: "ggml_from_code c = Inr t \<Longrightarrow> ggml_code t = c"
  by (auto simp: ggml_from_code_def split: if_splits)

lemma ggml_all: "t \<in> set GgmlType_ALL"
  by (cases t) (simp_all add: GgmlType_ALL_def)

lemma ggml_sizes: "0 < ggml_values_per_block t" "0 < ggml_bytes_per_block t"
  "ggml_values_per_block t < 2 ^ 32" "ggml_bytes_per_block t < 2 ^ 32"
  by (cases t; simp)+

lemma ggml_names: "StableName_parse (ggml_name t) = Inr (ggml_name t)"
  by (cases t) (simp_all add: StableName_parse_def stable_byte_def)

section \<open>Alignment\<close>

lemma filter_upt_single: "k < n \<Longrightarrow> filter (\<lambda>j. j = k) [0..<n] = [k]"
  by (induction n) (auto simp: less_Suc_eq filter_empty_conv)

lemma power_of_two_iff:
  assumes "n < 2 ^ 64"
  shows "is_power_of_two n \<longleftrightarrow> (\<exists>k < 64. n = 2 ^ k)"
proof
  assume "is_power_of_two n"
  then obtain k where k: "filter (bit n) [0..<64] = [k]"
    unfolding is_power_of_two_def by (metis One_nat_def length_0_conv length_Suc_conv)
  have "set (filter (bit n) [0..<64]) = {k}" using k by simp
  then have mem: "j < 64 \<and> bit n j \<longleftrightarrow> j = k" for j by auto
  have bits: "bit n j \<longleftrightarrow> j = k" for j
  proof (cases "j < 64")
    case True
    then show ?thesis using mem by blast
  next
    case False
    then have "n < 2 ^ j" using assms power_increasing[of 64 j "2 :: nat"] by (simp add: order.strict_trans2)
    then have "\<not> bit n j" by (simp add: bit_iff_odd)
    moreover have "k < 64" using mem by blast
    ultimately show ?thesis using False by auto
  qed
  have "n = 2 ^ k" by (rule bit_eqI) (simp only: bits bit_exp_iff, auto)
  then show "\<exists>k < 64. n = 2 ^ k" using mem by blast
next
  assume "\<exists>k < 64. n = 2 ^ k"
  then obtain k where k: "k < 64" "n = 2 ^ k" by blast
  then have "filter (bit n) [0..<64] = filter (\<lambda>j. j = k) [0..<64]"
    by (intro filter_cong) (auto simp: bit_simps)
  also have "\<dots> = [k]" by (rule filter_upt_single[OF k(1)])
  finally show "is_power_of_two n" by (simp add: is_power_of_two_def)
qed

lemma bit_below: "n < 2 ^ j \<Longrightarrow> \<not> bit (n :: nat) j"
  by (simp add: bit_iff_odd)

lemma clear_low_bits:
  assumes "x < 2 ^ 64" and "k < 64"
  shows "unat ((of_nat x :: 64 word) AND NOT (of_nat (2 ^ k - 1))) = x div 2 ^ k * 2 ^ k"
proof -
  have m: "(of_nat (2 ^ k - 1) :: 64 word) = mask k" by (simp add: mask_eq_exp_minus_1 of_nat_diff)
  have hi: "\<not> bit x i" if "\<not> i < 64" for i
  proof (rule bit_below)
    show "x < 2 ^ i" using assms(1) that power_increasing[of 64 i "2 :: nat"] by simp
  qed
  have "bit (unat ((of_nat x :: 64 word) AND NOT (mask k))) i \<longleftrightarrow> k \<le> i \<and> bit x i" for i
    using hi[of i] by (auto simp: bit_simps)
  moreover have "bit (push_bit k (drop_bit k x)) i \<longleftrightarrow> k \<le> i \<and> bit x i" for i by (auto simp: bit_simps)
  ultimately have "unat ((of_nat x :: 64 word) AND NOT (mask k)) = push_bit k (drop_bit k x)" by (auto intro: bit_eqI)
  then show ?thesis unfolding m by (simp add: push_bit_nat_def drop_bit_nat_def)
qed

lemma align_up_Inr:
  assumes "is_power_of_two a" and "a < u64_bound"
  shows "align_up n a = Inr m \<longleftrightarrow> n + (a - 1) < u64_bound \<and> m = (n + (a - 1)) div a * a"
proof -
  obtain k where k: "k < 64" "a = 2 ^ k" using assms power_of_two_iff[of a] by (auto simp: u64_bound_def)
  show ?thesis
    using clear_low_bits[of "n + (a - 1)" k] k by (auto simp: align_up_def checked_add_def u64_bound_def)
qed

lemma align_up_least:
  assumes "is_power_of_two a" "a < u64_bound" and "align_up n a = Inr m"
  shows "n \<le> m \<and> m mod a = 0 \<and> m < n + a"
proof -
  have a: "0 < a" using assms(1,2) power_of_two_iff[of a] by (auto simp: u64_bound_def)
  have m: "m = (n + (a - 1)) div a * a" using assms align_up_Inr by blast
  have "(n + (a - 1)) div a * a + (n + (a - 1)) mod a = n + (a - 1)" by simp
  moreover have "(n + (a - 1)) mod a < a" using a by simp
  ultimately have "n \<le> m" "m < n + a" using a m by linarith+
  moreover have "m mod a = 0" using m by simp
  ultimately show ?thesis by blast
qed

section \<open>Spans of described tensors\<close>

definition ggml_bytes :: "GgmlType \<Rightarrow> nat list \<Rightarrow> nat" where
  "ggml_bytes t shape = prod_list shape div ggml_values_per_block t * ggml_bytes_per_block t"

lemma ggml_scalar: "ggml_dtype t = Some dt \<Longrightarrow> ggml_values_per_block t = 1 \<and> ggml_bytes_per_block t = bits dt div 8"
  by (cases t) (auto simp: ggml_dtype_def)

lemma SourceSpan_new_Inr:
  "SourceSpan_new f start n = Inr s \<longleftrightarrow> s = \<lparr>span_file = f, span_offset = start, span_length = n\<rparr> \<and> start + n < u64_bound"
  by (auto simp: SourceSpan_new_def bindR_Inr checked_Some)

lemma build_quantized_payload: "builder_build_quantized b = Inr q \<Longrightarrow> q_payload q = qb_payload b"
  by (auto simp: builder_build_quantized_def bindR_Inr Let_def)

lemma gguf_storage_Inr:
  assumes "gguf_storage file start shape code = Inr s"
  shows "\<exists>t. ggml_code t = code \<and> storage_span s =
      \<lparr>span_file = file, span_offset = start, span_length = ggml_bytes t shape\<rparr> \<and> start + ggml_bytes t shape < u64_bound
    \<and> logical_dtype s = ggml_dtype t"
proof -
  from assms obtain t where t: "ggml_from_code code = Inr t" by (auto simp: gguf_storage_def bindR_Inr)
  show ?thesis
  proof (cases "ggml_dtype t")
    case (Some dt)
    then obtain len where "DType_byte_len dt shape = Inr len" "start + len < u64_bound"
        "s = Plain dt \<lparr>span_file = file, span_offset = start, span_length = len\<rparr>"
      using assms t by (auto simp: gguf_storage_def bindR_Inr SourceSpan_new_Inr)
    then show ?thesis
      using ggml_scalar[OF Some] ggml_from_code_Inr[OF t] Some
      by (intro exI[of _ t]) (auto simp: byte_len_Inr ggml_bytes_def storage_span_def logical_dtype_def)
  next
    case None
    then obtain q b where q: "s = Quantized q" "builder_build_quantized b = Inr q" "qb_payload b =
          \<lparr>span_file = file, span_offset = start, span_length = ggml_bytes t shape\<rparr>" "start + ggml_bytes t shape < u64_bound"
      using assms t checked_product_exact
      by (fastforce simp: gguf_storage_def bindR_Inr SourceSpan_new_Inr QuantizedStorage_new_def QuantizedStorage_builder_def
          Let_def checked_Some ggml_bytes_def)
    then show ?thesis using build_quantized_payload[OF q(2)] ggml_from_code_Inr[OF t] None
      by (intro exI[of _ t]) (simp add: storage_span_def logical_dtype_def)
  qed
qed

section \<open>Disjoint payloads\<close>

text \<open>A symmetric relation between all pairs of a list does not depend on the order of the list.\<close>

lemma sorted_wrt_symmetric:
  assumes sym: "\<And>a b. R a b \<Longrightarrow> R b a"
  shows "sorted_wrt R xs \<longleftrightarrow> (\<forall>a \<in># mset xs. \<forall>b \<in># mset xs - {#a#}. R a b)"
proof (induction xs)
  case Nil
  then show ?case by simp
next
  case (Cons x xs)
  have "(\<forall>a \<in># add_mset x M. \<forall>b \<in># add_mset x M - {#a#}. R a b) \<longleftrightarrow>
      (\<forall>b \<in># M. R x b) \<and> (\<forall>a \<in># M. \<forall>b \<in># M - {#a#}. R a b)" (is "?L \<longleftrightarrow> ?A \<and> ?B") for M
  proof
    assume L: ?L
    have "R a b" if "a \<in># M" "b \<in># M - {#a#}" for a b
    proof -
      have "add_mset x M - {#a#} = add_mset x (M - {#a#})" using that(1) by (metis diff_union_swap insert_DiffM add_mset_commute add_mset_remove_trivial)
      then show ?thesis using L that by simp
    qed
    moreover have ?A using L by simp
    ultimately show "?A \<and> ?B" by blast
  next
    assume AB: "?A \<and> ?B"
    show ?L
    proof (intro ballI)
      fix a b assume a: "a \<in># add_mset x M" and b: "b \<in># add_mset x M - {#a#}"
      show "R a b"
      proof (cases "a \<in># M")
        case True
        then have "add_mset x M - {#a#} = add_mset x (M - {#a#})"
          by (metis add_mset_commute add_mset_remove_trivial insert_DiffM)
        then show ?thesis using b AB True sym by auto
      next
        case False
        then show ?thesis using a b AB by simp
      qed
    qed
  qed
  from this[of "mset xs"] Cons show ?case by simp
qed

definition apart :: "nat \<times> nat \<Rightarrow> nat \<times> nat \<Rightarrow> bool" where
  "apart a b \<longleftrightarrow> snd a \<le> fst b \<or> snd b \<le> fst a"

lemma sorted_apart:
  assumes ends: "\<forall>p \<in> set ps. fst p \<le> snd p"
    and w: "\<not> any_window2 (\<lambda>a b. snd a > fst b) (sort_key (\<lambda>p. [fst p, snd p]) ps)"
  shows "sorted_wrt apart (ps :: (nat \<times> nat) list)"
proof -
  let ?qs = "sort_key (\<lambda>p. [fst p, snd p]) ps"
  have "sorted_wrt apart qs" if "\<forall>p \<in> set qs. fst p \<le> snd p" "\<not> any_window2 (\<lambda>a b. snd a > fst b) qs"
    for qs :: "(nat \<times> nat) list"
    using that
  proof (induction qs rule: induct_list012)
    case (3 p q qs)
    then have IH: "sorted_wrt apart (q # qs)" and pq: "snd p \<le> fst q" by auto
    have "snd p \<le> fst r" if "r \<in> set (q # qs)" for r
      using "3.prems" that
    proof (induction qs arbitrary: q)
      case Nil
      then show ?case by simp
    next
      case (Cons s qs)
      show ?case
      proof (cases "r = q")
        case True
        then show ?thesis using Cons.prems by auto
      next
        case False
        then have "snd p \<le> fst s" using Cons.prems(1,2) by auto
        then show ?thesis using Cons.IH[of s] Cons.prems False by auto
      qed
    qed
    then have "\<forall>r \<in> set (q # qs). apart p r" by (simp add: apart_def)
    then show ?case using IH by simp
  qed simp_all
  from this[of ?qs] have "sorted_wrt apart ?qs" using ends w by simp
  moreover have "apart b a" if "apart a b" for a b using that by (auto simp: apart_def)
  ultimately show ?thesis by (simp add: sorted_wrt_symmetric)
qed

section \<open>Records\<close>

lemma mapE_Inr: "mapE f xs e = Inr (ys, e') \<Longrightarrow> list_all2 (\<lambda>x y. \<exists>e1 e2. f x e1 = Inr (y, e2)) xs ys"
  by (induction xs arbitrary: ys e) (auto simp: bindE_Inr)

text \<open>What a record promises about a tensor description.\<close>

definition describes ::
    "FileId \<Rightarrow> nat \<Rightarrow> nat \<Rightarrow> nat \<Rightarrow> RawTensor \<Rightarrow> TensorRecord \<Rightarrow> bool" where
  "describes file file_size data_base alignment raw r \<longleftrightarrow>
     tensor_name r = raw_name raw \<and> tensor_shape r = rev (raw_dimensions raw)
   \<and> (\<exists>t. ggml_code t = raw_type raw \<and> logical_dtype (tensor_storage r) = ggml_dtype t
      \<and> storage_span (tensor_storage r) = \<lparr>span_file = file, span_offset = data_base + raw_offset raw,
          span_length = ggml_bytes t (tensor_shape r)\<rparr>
      \<and> data_base + raw_offset raw + ggml_bytes t (tensor_shape r) \<le> file_size)
   \<and> raw_offset raw mod alignment = 0"

lemma build_tensor_record_Inr:
  assumes "build_tensor_record file file_size data_base alignment raw = Inr r"
  shows "describes file file_size data_base alignment raw r \<and> fst (record_range r) \<le> snd (record_range r)"
proof -
  from assms obtain s where s: "gguf_storage file (data_base + raw_offset raw) (rev (raw_dimensions raw)) (raw_type raw) = Inr s"
    and r: "r = \<lparr>tensor_name = raw_name raw, tensor_shape = rev (raw_dimensions raw), tensor_storage = s\<rparr>"
    and m: "raw_offset raw mod alignment = 0" and e: "span_end (storage_span s) \<le> file_size"
    by (auto simp: build_tensor_record_def bindR_Inr Let_def checked_Some)
  from gguf_storage_Inr[OF s] show ?thesis
    using r m e by (auto simp: describes_def span_end_def record_range_def Let_def)
qed

lemma build_tensor_records_Inr:
  assumes "build_tensor_records file file_size data_base alignment raws e = Inr (tensors, e')"
  shows "list_all2 (describes file file_size data_base alignment) raws tensors
    \<and> sorted_wrt (\<lambda>a b. apart (record_range a) (record_range b)) tensors"
proof -
  from assms obtain e1 e2 where m: "mapE (\<lambda>raw. bindE check (\<lambda>_. liftE (build_tensor_record file file_size data_base alignment raw))) raws e1 = Inr (tensors, e2)"
    and w: "\<not> any_window2 (\<lambda>a b. snd a > fst b) (sort_key (\<lambda>p. [fst p, snd p]) (map record_range tensors))"
    by (auto simp: build_tensor_records_def bindE_Inr liftE_Inr Let_def)
  have "list_all2 (\<lambda>raw r. build_tensor_record file file_size data_base alignment raw = Inr r) raws tensors"
    using mapE_Inr[OF m] by (rule list_all2_mono) (auto simp: bindE_Inr liftE_Inr)
  then have all: "list_all2 (\<lambda>raw r. describes file file_size data_base alignment raw r
      \<and> fst (record_range r) \<le> snd (record_range r)) raws tensors"
    by (rule list_all2_mono) (rule build_tensor_record_Inr)
  then have "\<forall>p \<in> set (map record_range tensors). fst p \<le> snd p"
    by (auto simp: list_all2_conv_all_nth in_set_conv_nth)
  from sorted_apart[OF this w] have "sorted_wrt (\<lambda>a b. apart (record_range a) (record_range b)) tensors"
    by (simp add: sorted_wrt_map)
  moreover have "list_all2 (describes file file_size data_base alignment) raws tensors"
    using all by (rule list_all2_mono) blast
  ultimately show ?thesis by blast
qed

end
