(* ===== verification/MW_Limits.thy ===== *)
theory MW_Limits
  imports MW_Prelude
begin

text \<open>
  limits.rs: the bounds applied to untrusted metadata (\<open>ResourceLimits\<close> with its builder)
  and to pipeline execution (\<open>ExecutionLimits\<close>). Both refuse a zero in any field.
\<close>

section \<open>Parsing limits\<close>

record ResourceLimits =
  max_header_bytes :: nat
  max_tensors :: nat
  max_shards :: nat
  max_rank :: nat
  max_name_bytes :: nat
  max_metadata_bytes :: nat

definition ResourceLimits_default :: ResourceLimits where
  "ResourceLimits_default =
     \<lparr>max_header_bytes = 16 * 1024 * 1024, max_tensors = 1000000, max_shards = 16384,
      max_rank = 64, max_name_bytes = 16 * 1024, max_metadata_bytes = 4 * 1024 * 1024\<rparr>"

record ResourceLimitsBuilder =
  builder_limits :: ResourceLimits

definition ResourceLimits_builder :: ResourceLimitsBuilder where
  "ResourceLimits_builder = \<lparr>builder_limits = ResourceLimits_default\<rparr>"

datatype LimitField = Header | Tensors | Shards | Rank | NameBytes | MetadataBytes

text \<open>The six setters of the builder, one per field.\<close>

fun builder_set :: "LimitField \<Rightarrow> nat \<Rightarrow> ResourceLimitsBuilder \<Rightarrow> ResourceLimitsBuilder" where
  "builder_set Header v b = b\<lparr>builder_limits := (builder_limits b)\<lparr>max_header_bytes := v\<rparr>\<rparr>"
| "builder_set Tensors v b = b\<lparr>builder_limits := (builder_limits b)\<lparr>max_tensors := v\<rparr>\<rparr>"
| "builder_set Shards v b = b\<lparr>builder_limits := (builder_limits b)\<lparr>max_shards := v\<rparr>\<rparr>"
| "builder_set Rank v b = b\<lparr>builder_limits := (builder_limits b)\<lparr>max_rank := v\<rparr>\<rparr>"
| "builder_set NameBytes v b = b\<lparr>builder_limits := (builder_limits b)\<lparr>max_name_bytes := v\<rparr>\<rparr>"
| "builder_set MetadataBytes v b = b\<lparr>builder_limits := (builder_limits b)\<lparr>max_metadata_bytes := v\<rparr>\<rparr>"

definition ResourceLimits_build :: "ResourceLimitsBuilder \<Rightarrow> ResourceLimits result" where
  "ResourceLimits_build b =
     (let limits = builder_limits b;
          all_nonzero = max_header_bytes limits > 0 \<and> max_tensors limits > 0
            \<and> max_shards limits > 0 \<and> max_rank limits > 0
            \<and> max_name_bytes limits > 0 \<and> max_metadata_bytes limits > 0
      in if \<not> all_nonzero then Inl ResourceLimit else Inr limits)"

section \<open>Execution limits\<close>

record ExecutionLimits =
  workers :: nat
  max_work_items :: nat
  delivery_queue_depth :: nat
  dispatch_lookahead :: nat
  source_bytes :: nat
  scratch_bytes :: nat
  prepared_bytes :: nat

definition ExecutionLimits_validate :: "ExecutionLimits \<Rightarrow> unit result" where
  "ExecutionLimits_validate l =
     (if workers l = 0 \<or> max_work_items l = 0 \<or> delivery_queue_depth l = 0
         \<or> dispatch_lookahead l = 0 \<or> source_bytes l = 0 \<or> scratch_bytes l = 0
         \<or> prepared_bytes l = 0
      then Inl ResourceLimit else Inr ())"

text \<open>The default takes the host's reported parallelism, at least one, as its argument.\<close>

definition ExecutionLimits_default :: "nat option \<Rightarrow> ExecutionLimits" where
  "ExecutionLimits_default parallelism =
     (let n = (case parallelism of None \<Rightarrow> 1 | Some k \<Rightarrow> k)
      in \<lparr>workers = n, max_work_items = 1000000, delivery_queue_depth = 2,
          dispatch_lookahead = n, source_bytes = 256 * 1024 * 1024,
          scratch_bytes = 64 * 1024 * 1024, prepared_bytes = 512 * 1024 * 1024\<rparr>)"

section \<open>Lemmas\<close>

definition limits_positive :: "ResourceLimits \<Rightarrow> bool" where
  "limits_positive l \<longleftrightarrow> (\<forall>field \<in> {max_header_bytes, max_tensors, max_shards, max_rank,
     max_name_bytes, max_metadata_bytes}. 0 < field l)"

lemma ResourceLimits_build_Inr:
  "ResourceLimits_build b = Inr l \<longleftrightarrow> l = builder_limits b \<and> limits_positive l"
  by (auto simp: ResourceLimits_build_def limits_positive_def Let_def)

lemma builder_set_read:
  "builder_limits (builder_set Header v b) = (builder_limits b)\<lparr>max_header_bytes := v\<rparr>"
  "builder_limits (builder_set Tensors v b) = (builder_limits b)\<lparr>max_tensors := v\<rparr>"
  "builder_limits (builder_set Shards v b) = (builder_limits b)\<lparr>max_shards := v\<rparr>"
  "builder_limits (builder_set Rank v b) = (builder_limits b)\<lparr>max_rank := v\<rparr>"
  "builder_limits (builder_set NameBytes v b) = (builder_limits b)\<lparr>max_name_bytes := v\<rparr>"
  "builder_limits (builder_set MetadataBytes v b) = (builder_limits b)\<lparr>max_metadata_bytes := v\<rparr>"
  by simp_all

end
