(* ===== verification/MW_Gguf.thy ===== *)
theory MW_Gguf
  imports MW_Ggml MW_Limits
begin

text \<open>
  gguf.rs, the byte reader and the parser. Readers thread the \<open>Reader\<close> state through the
  execution monad. The buffer of the reader is the list of its valid bytes. Numbers are decoded
  from little-endian bytes to naturals or integers, floats keep their bit patterns.
\<close>

section \<open>Readers\<close>

definition READER_BUFFER_BYTES :: nat where
  "READER_BUFFER_BYTES = 64 * 1024"

record Reader =
  rd_file :: File
  rd_file_size :: nat
  rd_limit :: nat
  rd_offset :: nat
  rd_buffer :: "u8 list"
  rd_buffer_start :: nat

definition Reader_new :: "File \<Rightarrow> nat \<Rightarrow> nat \<Rightarrow> Reader" where
  "Reader_new file file_size limit = \<lparr>rd_file = file, rd_file_size = file_size, rd_limit = limit,
     rd_offset = 0, rd_buffer = [], rd_buffer_start = 0\<rparr>"

type_synonym 'a reader = "Reader \<Rightarrow> ('a \<times> Reader) exec"

definition retS :: "'a \<Rightarrow> 'a reader" where
  "retS x r = retE (x, r)"

definition bindS :: "'a reader \<Rightarrow> ('a \<Rightarrow> 'b reader) \<Rightarrow> 'b reader" where
  "bindS m f r = bindE (m r) (\<lambda>p. f (fst p) (snd p))"

definition liftS :: "'a result \<Rightarrow> 'a reader" where
  "liftS x r = bindE (liftE x) (\<lambda>v. retE (v, r))"

definition runS :: "'a exec \<Rightarrow> 'a reader" where
  "runS m r = bindE m (\<lambda>v. retE (v, r))"

text \<open>\<open>for _ in 0..n { values.push(read(reader)?) }\<close>.\<close>

primrec repeatS :: "nat \<Rightarrow> 'a reader \<Rightarrow> 'a list reader" where
  "repeatS 0 m = retS []"
| "repeatS (Suc n) m = bindS m (\<lambda>x. bindS (repeatS n m) (\<lambda>xs. retS (x # xs)))"

primrec loopS :: "nat \<Rightarrow> ('s \<Rightarrow> 's reader) \<Rightarrow> 's \<Rightarrow> 's reader" where
  "loopS 0 f s = retS s"
| "loopS (Suc n) f s = bindS (f s) (loopS n f)"

section \<open>Buffered reads\<close>

definition fill_buffer :: "Reader \<Rightarrow> Reader result" where
  "fill_buffer r =
     (let remaining = min (rd_file_size r) (rd_limit r) - rd_offset r in
     bindR (ensure (remaining \<noteq> 0) InvalidFormat) (\<lambda>_.
     bindR (usize_try_from (min remaining READER_BUFFER_BYTES)) (\<lambda>amount.
     bindR (read_exact_at (rd_file r) (rd_offset r) amount) (\<lambda>bytes.
       Inr (r\<lparr>rd_buffer := bytes, rd_buffer_start := rd_offset r\<rparr>)))))"

text \<open>The first half of an iteration: make sure that the byte at the offset is buffered.\<close>

definition refill :: "Reader \<Rightarrow> Reader result" where
  "refill r =
     bindR (u64_try_from (length (rd_buffer r))) (\<lambda>len.
     bindR (ok_or ResourceLimit (checked_add (rd_buffer_start r) len)) (\<lambda>buffer_end.
       if rd_offset r < rd_buffer_start r \<or> rd_offset r \<ge> buffer_end then fill_buffer r else Inr r))"

lemma read_exact_at_length: "read_exact_at file start n = Inr bytes \<Longrightarrow> length bytes = n"
proof (induction n arbitrary: start bytes rule: less_induct)
  case (less n)
  show ?case
  proof (cases "n = 0")
    case True
    then show ?thesis using less.prems by (simp add: read_exact_at.simps)
  next
    case False
    then obtain got rest start' where g: "bytes = got @ rest" "got \<noteq> []" "length got \<le> n"
        and rest: "read_exact_at file start' (n - length got) = Inr rest"
      using less.prems by (subst (asm) read_exact_at.simps) (auto simp: bindR_Inr Let_def split: if_splits)
    then show ?thesis using less.IH[OF _ rest] False by (cases got) auto
  qed
qed

lemma refill_progress:
  assumes "refill r = Inr r'"
  shows "rd_offset r' - rd_buffer_start r' < length (rd_buffer r')"
  using assms
  by (auto simp: refill_def fill_buffer_def bindR_Inr Let_def try_from_Inr checked_Some READER_BUFFER_BYTES_def
      dest!: read_exact_at_length split: if_splits)

function read_into :: "nat \<Rightarrow> u8 list reader" where
  "read_into n r =
     (if n = 0 then retE ([], r)
      else bindE check (\<lambda>_.
           bindE (liftE (refill r)) (\<lambda>r.
           bindE (liftE (usize_try_from (rd_offset r - rd_buffer_start r))) (\<lambda>relative.
           let available = length (rd_buffer r) - (rd_offset r - rd_buffer_start r);
               amount = min available n in
           bindE (liftE (ok_or ResourceLimit (checked_add (rd_offset r) amount))) (\<lambda>offset'.
           bindE (read_into (n - amount) (r\<lparr>rd_offset := offset'\<rparr>)) (\<lambda>p.
             retE (take amount (drop relative (rd_buffer r)) @ fst p, snd p)))))))"
  by pat_completeness auto
termination
  by (relation "measure fst") (auto simp: liftE_Inr dest!: refill_progress)

declare read_into.simps [simp del]

section \<open>Primitive readers\<close>

definition reserve_end :: "nat \<Rightarrow> Reader \<Rightarrow> unit result" where
  "reserve_end n r =
     bindR (u64_try_from n) (\<lambda>len.
     bindR (ok_or ResourceLimit (checked_add (rd_offset r) len)) (\<lambda>end.
     bindR (ensure (\<not> end > rd_limit r) ResourceLimit) (\<lambda>_.
       ensure (\<not> end > rd_file_size r) InvalidFormat)))"

definition read_fixed :: "nat \<Rightarrow> u8 list reader" where
  "read_fixed n r = bindE check (\<lambda>_. bindE (liftE (reserve_end n r)) (\<lambda>_. read_into n r))"

definition read_bytes :: "nat \<Rightarrow> u8 list reader" where
  "read_bytes n r = bindE (liftE (reserve_end n r)) (\<lambda>_. bindE (try_reserve n) (\<lambda>_. read_into n r))"

primrec le_nat :: "u8 list \<Rightarrow> nat" where
  "le_nat [] = 0"
| "le_nat (b # bs) = unat b + 256 * le_nat bs"

text \<open>Two's complement of a little-endian number.\<close>

definition le_int :: "u8 list \<Rightarrow> int" where
  "le_int bs = (let n = le_nat bs; w = 8 * length bs in
     if n < 2 ^ (w - 1) then int n else int n - 2 ^ w)"

definition rd_u8 :: "nat reader" where "rd_u8 = bindS (read_fixed 1) (\<lambda>b. retS (le_nat b))"
definition rd_i8 :: "int reader" where "rd_i8 = bindS (read_fixed 1) (\<lambda>b. retS (le_int b))"
definition rd_u16 :: "nat reader" where "rd_u16 = bindS (read_fixed 2) (\<lambda>b. retS (le_nat b))"
definition rd_i16 :: "int reader" where "rd_i16 = bindS (read_fixed 2) (\<lambda>b. retS (le_int b))"
definition rd_u32 :: "nat reader" where "rd_u32 = bindS (read_fixed 4) (\<lambda>b. retS (le_nat b))"
definition rd_i32 :: "int reader" where "rd_i32 = bindS (read_fixed 4) (\<lambda>b. retS (le_int b))"
definition rd_f32 :: "nat reader" where "rd_f32 = bindS (read_fixed 4) (\<lambda>b. retS (le_nat b))"
definition rd_u64 :: "nat reader" where "rd_u64 = bindS (read_fixed 8) (\<lambda>b. retS (le_nat b))"
definition rd_i64 :: "int reader" where "rd_i64 = bindS (read_fixed 8) (\<lambda>b. retS (le_int b))"
definition rd_f64 :: "nat reader" where "rd_f64 = bindS (read_fixed 8) (\<lambda>b. retS (le_nat b))"

definition rd_boolean :: "bool reader" where
  "rd_boolean = bindS rd_u8 (\<lambda>v.
     liftS (if v = 0 then Inr False else if v = 1 then Inr True else Inl InvalidFormat))"

text \<open>\<open>String::from_utf8\<close>: the well-formed byte sequences of the Unicode standard.\<close>

definition cont :: "u8 \<Rightarrow> bool" where
  "cont b \<longleftrightarrow> 128 \<le> unat b \<and> unat b \<le> 191"

fun valid_utf8 :: "u8 list \<Rightarrow> bool" where
  "valid_utf8 [] = True"
| "valid_utf8 (a # bs) = (let n = unat a in
     if n \<le> 127 then valid_utf8 bs
     else case bs of [] \<Rightarrow> False | b # cs \<Rightarrow>
       if 194 \<le> n \<and> n \<le> 223 then cont b \<and> valid_utf8 cs
       else case cs of [] \<Rightarrow> False | c # ds \<Rightarrow>
         if 224 \<le> n \<and> n \<le> 239 then
           cont b \<and> (n = 224 \<longrightarrow> 160 \<le> unat b) \<and> (n = 237 \<longrightarrow> unat b \<le> 159) \<and> cont c \<and> valid_utf8 ds
         else case ds of [] \<Rightarrow> False | d # es \<Rightarrow>
           240 \<le> n \<and> n \<le> 244 \<and> cont b \<and> (n = 240 \<longrightarrow> 144 \<le> unat b) \<and> (n = 244 \<longrightarrow> unat b \<le> 143)
           \<and> cont c \<and> cont d \<and> valid_utf8 es)"

definition string_of :: "u8 list \<Rightarrow> string" where
  "string_of bs = map (\<lambda>b. char_of (unat b)) bs"

definition rd_string :: "nat \<Rightarrow> string reader" where
  "rd_string maximum =
     bindS rd_u64 (\<lambda>n.
     bindS (liftS (bounded_count n maximum)) (\<lambda>len.
     bindS (read_bytes len) (\<lambda>bytes.
       liftS (if valid_utf8 bytes then Inr (string_of bytes) else Inl InvalidFormat))))"

section \<open>Metadata values\<close>

datatype GgufArray =
    ArrayOfArray "GgufArray list" | ArrayU8 "nat list" | ArrayI8 "int list" | ArrayU16 "nat list" | ArrayI16 "int list"
  | ArrayU32 "nat list" | ArrayI32 "int list" | ArrayF32 "nat list" | ArrayBool "bool list" | ArrayString "string list"
  | ArrayU64 "nat list" | ArrayI64 "int list" | ArrayF64 "nat list"

datatype GgufValue =
    ValueU8 nat | ValueI8 int | ValueU16 nat | ValueI16 int | ValueU32 nat | ValueI32 int | ValueF32 nat
  | ValueBool bool | ValueString string | ValueArray GgufArray | ValueU64 nat | ValueI64 int | ValueF64 nat

definition as_u64 :: "GgufValue \<Rightarrow> nat option" where
  "as_u64 v = (case v of ValueU8 n \<Rightarrow> Some n | ValueU16 n \<Rightarrow> Some n | ValueU32 n \<Rightarrow> Some n | ValueU64 n \<Rightarrow> Some n
     | _ \<Rightarrow> None)"

definition as_str :: "GgufValue \<Rightarrow> string option" where
  "as_str v = (case v of ValueString s \<Rightarrow> Some s | _ \<Rightarrow> None)"

datatype ValueType =
    TU8 | TI8 | TU16 | TI16 | TU32 | TI32 | TF32 | TBool | TString | TArray | TU64 | TI64 | TF64

definition ValueType_from_raw :: "nat \<Rightarrow> ValueType result" where
  "ValueType_from_raw n =
     (if n = 0 then Inr TU8 else if n = 1 then Inr TI8 else if n = 2 then Inr TU16 else if n = 3 then Inr TI16
      else if n = 4 then Inr TU32 else if n = 5 then Inr TI32 else if n = 6 then Inr TF32 else if n = 7 then Inr TBool
      else if n = 8 then Inr TString else if n = 9 then Inr TArray else if n = 10 then Inr TU64
      else if n = 11 then Inr TI64 else if n = 12 then Inr TF64 else Inl InvalidFormat)"

definition MAX_METADATA_NESTING_DEPTH :: nat where
  "MAX_METADATA_NESTING_DEPTH = 64"

definition read_elements :: "nat \<Rightarrow> 'a reader \<Rightarrow> 'a list reader" where
  "read_elements n m = bindS (runS (try_reserve n)) (\<lambda>_. repeatS n m)"

fun element_bytes :: "ValueType \<Rightarrow> nat" where
  "element_bytes TU8 = 1" | "element_bytes TI8 = 1" | "element_bytes TBool = 1"
| "element_bytes TU16 = 2" | "element_bytes TI16 = 2"
| "element_bytes TU32 = 4" | "element_bytes TI32 = 4" | "element_bytes TF32 = 4"
| "element_bytes TString = 8" | "element_bytes TU64 = 8" | "element_bytes TI64 = 8" | "element_bytes TF64 = 8"
| "element_bytes TArray = 12"

text \<open>
  The first argument is the number of nesting levels that are still allowed,
  \<open>MAX_METADATA_NESTING_DEPTH - nesting_depth\<close>.
\<close>

primrec read_array :: "nat \<Rightarrow> nat \<Rightarrow> GgufArray reader" where
  "read_array 0 metadata_limit = liftS (Inl ResourceLimit)"
| "read_array (Suc levels) metadata_limit =
     bindS rd_u32 (\<lambda>raw.
     bindS (liftS (ValueType_from_raw raw)) (\<lambda>element_type.
     bindS rd_u64 (\<lambda>n.
     bindS (liftS (bounded_count n (metadata_limit div element_bytes element_type))) (\<lambda>k.
     case element_type of
       TU8 \<Rightarrow> bindS (read_elements k rd_u8) (\<lambda>xs. retS (ArrayU8 xs))
     | TI8 \<Rightarrow> bindS (read_elements k rd_i8) (\<lambda>xs. retS (ArrayI8 xs))
     | TU16 \<Rightarrow> bindS (read_elements k rd_u16) (\<lambda>xs. retS (ArrayU16 xs))
     | TI16 \<Rightarrow> bindS (read_elements k rd_i16) (\<lambda>xs. retS (ArrayI16 xs))
     | TU32 \<Rightarrow> bindS (read_elements k rd_u32) (\<lambda>xs. retS (ArrayU32 xs))
     | TI32 \<Rightarrow> bindS (read_elements k rd_i32) (\<lambda>xs. retS (ArrayI32 xs))
     | TF32 \<Rightarrow> bindS (read_elements k rd_f32) (\<lambda>xs. retS (ArrayF32 xs))
     | TBool \<Rightarrow> bindS (read_elements k rd_boolean) (\<lambda>xs. retS (ArrayBool xs))
     | TString \<Rightarrow> bindS (read_elements k (rd_string metadata_limit)) (\<lambda>xs. retS (ArrayString xs))
     | TU64 \<Rightarrow> bindS (read_elements k rd_u64) (\<lambda>xs. retS (ArrayU64 xs))
     | TI64 \<Rightarrow> bindS (read_elements k rd_i64) (\<lambda>xs. retS (ArrayI64 xs))
     | TF64 \<Rightarrow> bindS (read_elements k rd_f64) (\<lambda>xs. retS (ArrayF64 xs))
     | TArray \<Rightarrow> bindS (read_elements k (read_array levels metadata_limit)) (\<lambda>xs. retS (ArrayOfArray xs))))))"

definition read_value :: "ValueType \<Rightarrow> nat \<Rightarrow> GgufValue reader" where
  "read_value value_type metadata_limit = (case value_type of
       TU8 \<Rightarrow> bindS rd_u8 (\<lambda>x. retS (ValueU8 x))
     | TI8 \<Rightarrow> bindS rd_i8 (\<lambda>x. retS (ValueI8 x))
     | TU16 \<Rightarrow> bindS rd_u16 (\<lambda>x. retS (ValueU16 x))
     | TI16 \<Rightarrow> bindS rd_i16 (\<lambda>x. retS (ValueI16 x))
     | TU32 \<Rightarrow> bindS rd_u32 (\<lambda>x. retS (ValueU32 x))
     | TI32 \<Rightarrow> bindS rd_i32 (\<lambda>x. retS (ValueI32 x))
     | TF32 \<Rightarrow> bindS rd_f32 (\<lambda>x. retS (ValueF32 x))
     | TBool \<Rightarrow> bindS rd_boolean (\<lambda>x. retS (ValueBool x))
     | TString \<Rightarrow> bindS (rd_string metadata_limit) (\<lambda>x. retS (ValueString x))
     | TArray \<Rightarrow> bindS (read_array MAX_METADATA_NESTING_DEPTH metadata_limit) (\<lambda>x. retS (ValueArray x))
     | TU64 \<Rightarrow> bindS rd_u64 (\<lambda>x. retS (ValueU64 x))
     | TI64 \<Rightarrow> bindS rd_i64 (\<lambda>x. retS (ValueI64 x))
     | TF64 \<Rightarrow> bindS rd_f64 (\<lambda>x. retS (ValueF64 x)))"

section \<open>The container\<close>

definition GGUF_MAGIC :: "u8 list" where
  "GGUF_MAGIC = [71, 71, 85, 70]"

definition DEFAULT_ALIGNMENT :: nat where "DEFAULT_ALIGNMENT = 32"
definition MIN_VERSION :: nat where "MIN_VERSION = 2"
definition MAX_VERSION :: nat where "MAX_VERSION = 3"

record GgufMetadata =
  gguf_version :: nat
  gguf_alignment :: nat
  gguf_entries :: "(string, GgufValue) btree"

record ParsedGguf =
  parsed_metadata :: GgufMetadata
  parsed_tensors :: "TensorRecord list"

definition current_offset :: "nat reader" where
  "current_offset r = retE (rd_offset r, r)"

definition read_entry :: "ResourceLimits \<Rightarrow> nat \<Rightarrow> nat \<Rightarrow> (string, GgufValue) btree \<Rightarrow> (string, GgufValue) btree reader" where
  "read_entry limits metadata_limit metadata_start entries =
     bindS (runS check) (\<lambda>_.
     bindS (rd_string (max_name_bytes limits)) (\<lambda>key.
     bindS rd_u32 (\<lambda>raw.
     bindS (liftS (ValueType_from_raw raw)) (\<lambda>value_type.
     bindS (read_value value_type metadata_limit) (\<lambda>v.
     bindS current_offset (\<lambda>pos.
     bindS (liftS (usize_try_from (pos - metadata_start))) (\<lambda>metadata_bytes.
     bindS (liftS (ensure (\<not> metadata_bytes > metadata_limit) ResourceLimit)) (\<lambda>_.
       liftS (insert_unique InvalidFormat (key, v) entries)))))))))"

definition read_metadata :: "ResourceLimits \<Rightarrow> (string, GgufValue) btree reader" where
  "read_metadata limits =
     (let metadata_limit = (if max_header_bytes limits < usize_bound then max_header_bytes limits else usize_bound - 1);
          metadata_count_limit = metadata_limit div 12 in
     bindS rd_u64 (\<lambda>n.
     bindS (liftS (bounded_count n metadata_count_limit)) (\<lambda>metadata_count.
     bindS current_offset (\<lambda>metadata_start.
       loopS metadata_count (read_entry limits metadata_limit metadata_start) []))))"

definition metadata_alignment :: "(string, GgufValue) btree \<Rightarrow> nat result" where
  "metadata_alignment entries =
     (let alignment = (case Option.bind (map_of entries ''general.alignment'') as_u64 of
            None \<Rightarrow> DEFAULT_ALIGNMENT | Some a \<Rightarrow> a) in
     bindR (ensure (\<not> (alignment = 0 \<or> \<not> is_power_of_two alignment)) InvalidFormat) (\<lambda>_. Inr alignment))"

definition read_tensor_info :: "ResourceLimits \<Rightarrow> RawTensor reader" where
  "read_tensor_info limits =
     bindS (runS check) (\<lambda>_.
     bindS (rd_string (max_name_bytes limits)) (\<lambda>name.
     bindS rd_u32 (\<lambda>raw_rank.
     bindS (liftS (bounded_count raw_rank (max_rank limits))) (\<lambda>rank.
     bindS (liftS (ensure (rank \<noteq> 0) InvalidFormat)) (\<lambda>_.
     bindS (read_elements rank rd_u64) (\<lambda>dimensions.
     bindS rd_u32 (\<lambda>ggml_type.
     bindS rd_u64 (\<lambda>relative_offset.
       retS \<lparr>raw_name = name, raw_dimensions = dimensions, raw_type = ggml_type, raw_offset = relative_offset\<rparr>))))))))"

definition read_tensor_infos :: "nat \<Rightarrow> ResourceLimits \<Rightarrow> RawTensor list reader" where
  "read_tensor_infos tensor_count limits = read_elements tensor_count (read_tensor_info limits)"

definition gguf_parse :: "File \<Rightarrow> FileId \<Rightarrow> nat \<Rightarrow> ResourceLimits \<Rightarrow> ParsedGguf exec" where
  "gguf_parse file fid file_size limits =
     bindE (bindS (read_fixed 4) (\<lambda>magic.
       bindS (liftS (ensure (magic = GGUF_MAGIC) InvalidFormat)) (\<lambda>_.
       bindS rd_u32 (\<lambda>v.
       bindS (liftS (ensure (MIN_VERSION \<le> v \<and> v \<le> MAX_VERSION) Unsupported)) (\<lambda>_.
       bindS rd_u64 (\<lambda>n.
       bindS (liftS (bounded_count n (max_tensors limits))) (\<lambda>tensor_count.
       bindS (read_metadata limits) (\<lambda>entries.
       bindS (liftS (metadata_alignment entries)) (\<lambda>alignment.
       bindS (read_tensor_infos tensor_count limits) (\<lambda>raw_tensors.
       bindS current_offset (\<lambda>pos.
       bindS (liftS (align_up pos alignment)) (\<lambda>data_base.
         retS (v, entries, alignment, raw_tensors, data_base))))))))))))
       (Reader_new file file_size (max_header_bytes limits))) (\<lambda>p.
     case fst p of (v, entries, alignment, raw_tensors, data_base) \<Rightarrow>
     bindE (liftE (ensure (\<not> data_base > file_size) InvalidFormat)) (\<lambda>_.
     bindE (liftE (ensure (\<not> data_base > max_header_bytes limits) ResourceLimit)) (\<lambda>_.
     bindE (build_tensor_records fid file_size data_base alignment raw_tensors) (\<lambda>tensors.
       retE \<lparr>parsed_metadata = \<lparr>gguf_version = v, gguf_alignment = alignment, gguf_entries = entries\<rparr>,
             parsed_tensors = tensors\<rparr>))))"

end
