(* ===== verification/MW_GgufFormat.thy ===== *)
theory MW_GgufFormat
  imports MW_Gguf
begin

text \<open>
  What the GGUF parser guarantees of every file it accepts, and the buffered reader: at any
  position it returns the bytes of the file contents, whatever pieces single reads return.
\<close>

section \<open>Sound results\<close>

lemma loopS_invariant:
  assumes "I s" and "\<And>s r e s' r' e'. I s \<Longrightarrow> f s r e = Inr ((s', r'), e') \<Longrightarrow> I s'"
    and "loopS n f s r e = Inr ((s', r'), e')"
  shows "I s'"
  using assms(1,3)
proof (induction n arbitrary: s r e)
  case 0
  then show ?case by (simp add: retS_def)
next
  case (Suc n)
  then show ?case using assms(2) by (fastforce simp: bindS_def bindE_Inr)
qed

lemma insert_unique_increasing: "increasing m \<Longrightarrow> insert_unique e p m = Inr m' \<Longrightarrow> increasing m'"
  by (auto simp: insert_unique_def bindR_Inr increasing_btree_insert)

lemma read_entry_increasing:
  assumes "increasing m" and "read_entry limits ml ms m r e = Inr ((m', r'), e')"
  shows "increasing m'"
  using assms insert_unique_increasing[OF assms(1)]
  by (auto simp: read_entry_def bindS_def bindE_Inr liftS_def liftE_Inr)

lemma read_metadata_increasing:
  assumes "read_metadata limits r e = Inr ((entries, r'), e')"
  shows "increasing entries"
proof -
  from assms obtain n ml ms r0 e0 where "loopS n (read_entry limits ml ms) [] r0 e0 = Inr ((entries, r'), e')"
    by (auto simp: read_metadata_def Let_def bindS_def bindE_Inr)
  then show ?thesis
  proof (rule loopS_invariant[where I = increasing, rotated 2])
    show "increasing ([] :: (string, GgufValue) btree)" by (simp add: increasing_def)
  qed (rule read_entry_increasing)
qed

lemma align_up_aligned:
  assumes a: "is_power_of_two a" and u: "align_up n a = Inr m"
  shows "m mod a = 0 \<and> n \<le> m"
proof -
  have "n + (a - 1) < u64_bound" using u by (auto simp: align_up_def checked_Some)
  then have "a \<le> u64_bound" by linarith
  moreover have "a \<noteq> u64_bound"
  proof
    assume "a = u64_bound"
    then have "bit a j \<longleftrightarrow> j = 64" for j unfolding u64_bound_def by (simp only: bit_exp_iff) auto
    then have "filter (bit a) [0..<64] = []" by (auto simp: filter_empty_conv)
    then show False using a by (simp add: is_power_of_two_def)
  qed
  ultimately show ?thesis using align_up_least[OF a _ u] by simp
qed

lemma gguf_parse_sound:
  assumes "gguf_parse file fid file_size limits e = Inr (p, e')"
  shows "\<exists>raws data_base.
      gguf_version (parsed_metadata p) \<in> {MIN_VERSION..MAX_VERSION}
    \<and> is_power_of_two (gguf_alignment (parsed_metadata p))
    \<and> increasing (gguf_entries (parsed_metadata p))
    \<and> data_base \<le> file_size \<and> data_base \<le> max_header_bytes limits
    \<and> data_base mod gguf_alignment (parsed_metadata p) = 0
    \<and> list_all2 (describes fid file_size data_base (gguf_alignment (parsed_metadata p))) raws (parsed_tensors p)
    \<and> sorted_wrt (\<lambda>a b. apart (record_range a) (record_range b)) (parsed_tensors p)"
proof -
  from assms obtain v entries alignment raws data_base tensors r0 e0 e1 r1 pos e3 e4 where
    p: "p = \<lparr>parsed_metadata = \<lparr>gguf_version = v, gguf_alignment = alignment, gguf_entries = entries\<rparr>, parsed_tensors = tensors\<rparr>"
    and v: "MIN_VERSION \<le> v" "v \<le> MAX_VERSION"
    and m: "read_metadata limits r0 e0 = Inr ((entries, r1), e1)"
    and a: "metadata_alignment entries = Inr alignment" and u: "align_up pos alignment = Inr data_base"
    and d: "data_base \<le> file_size" "data_base \<le> max_header_bytes limits"
    and t: "build_tensor_records fid file_size data_base alignment raws e3 = Inr (tensors, e4)"
    by (auto simp: gguf_parse_def bindE_Inr bindS_def liftS_def liftE_Inr retS_def not_less)
  have "increasing entries" by (rule read_metadata_increasing[OF m])
  moreover have al: "is_power_of_two alignment" using a by (auto simp: metadata_alignment_def bindR_Inr Let_def)
  ultimately show ?thesis
    using build_tensor_records_Inr[OF t] v d align_up_aligned[OF al u] unfolding p
    by (intro exI[of _ raws] exI[of _ data_base]) simp
qed

section \<open>The buffered reader\<close>

text \<open>The reader stands at a position of the contents and its buffer holds bytes of the contents.\<close>

definition stands :: "u8 list \<Rightarrow> nat \<Rightarrow> nat \<Rightarrow> Reader \<Rightarrow> bool" where
  "stands contents limit pos r \<longleftrightarrow> reads (rd_file r) contents \<and> length contents < u64_bound
     \<and> rd_file_size r = length contents \<and> rd_limit r = limit \<and> rd_offset r = pos \<and> pos \<le> length contents
     \<and> rd_buffer_start r + length (rd_buffer r) \<le> length contents
     \<and> rd_buffer r = take (length (rd_buffer r)) (drop (rd_buffer_start r) contents)"

lemma refill_stands:
  assumes st: "stands contents limit pos r" and pos: "pos < limit" "pos < length contents"
  shows "\<exists>r'. refill r = Inr r' \<and> stands contents limit pos r'
    \<and> rd_buffer_start r' \<le> pos \<and> pos < rd_buffer_start r' + length (rd_buffer r')"
proof -
  have b: "length (rd_buffer r) < u64_bound" "rd_buffer_start r + length (rd_buffer r) < u64_bound"
    using st by (auto simp: stands_def)
  then have e: "refill r = (if rd_offset r < rd_buffer_start r \<or> rd_offset r \<ge> rd_buffer_start r + length (rd_buffer r)
      then fill_buffer r else Inr r)"
    by (simp add: refill_def try_from_ok checked_add_def)
  show ?thesis
  proof (cases "rd_offset r < rd_buffer_start r \<or> rd_offset r \<ge> rd_buffer_start r + length (rd_buffer r)")
    case False
    have "refill r = Inr r" unfolding e using False by (rule if_not_P)
    moreover have off: "rd_offset r = pos" using st unfolding stands_def by blast
    moreover have "rd_buffer_start r \<le> pos" "pos < rd_buffer_start r + length (rd_buffer r)"
      using False unfolding off by linarith+
    ultimately show ?thesis using st by (intro exI[of _ r] conjI)
  next
    case True
    let ?n = "min (min (length contents) limit - pos) READER_BUFFER_BYTES"
    have n: "?n < usize_bound" "0 < ?n" "pos + ?n \<le> length contents" using pos
      by (auto simp: READER_BUFFER_BYTES_def usize_bound_def)
    have "read_exact_at (rd_file r) pos ?n = Inr (take ?n (drop pos contents))"
      using read_exact_at_reads[of "rd_file r" contents pos ?n] st n(3) by (simp add: stands_def)
    then have "fill_buffer r = Inr (r\<lparr>rd_buffer := take ?n (drop pos contents), rd_buffer_start := pos\<rparr>)"
      using st pos n(1) by (simp add: fill_buffer_def stands_def Let_def try_from_ok)
    moreover have "refill r = fill_buffer r" unfolding e using True by (rule if_P)
    moreover have len: "length (take ?n (drop pos contents)) = ?n" using n(3) by simp
    moreover have "stands contents limit pos (r\<lparr>rd_buffer := take ?n (drop pos contents), rd_buffer_start := pos\<rparr>)"
      using st n(3) unfolding stands_def by (simp del: take_take add: len)
    ultimately show ?thesis using n(2)
      by (intro exI[of _ "r\<lparr>rd_buffer := take ?n (drop pos contents), rd_buffer_start := pos\<rparr>"]) simp
  qed
qed

lemma take_drop_chunk:
  assumes "buf = take (length buf) (drop start xs)" and "start \<le> pos" and "pos + k \<le> start + length buf"
  shows "take k (drop (pos - start) buf) = take k (drop pos xs)"
proof -
  have "take k (drop (pos - start) buf) = take k (drop (pos - start) (take (length buf) (drop start xs)))"
    using assms(1) by simp
  also have "\<dots> = take k (drop pos xs)" using assms(2,3) by (simp add: drop_take min_def)
  finally show ?thesis .
qed

lemma read_into_stands:
  assumes "stands contents limit pos r" and "pos + n \<le> limit" and "pos + n \<le> length contents"
  shows "delivers (read_into n r) (\<lambda>p. fst p = take n (drop pos contents) \<and> stands contents limit (pos + n) (snd p))"
  using assms
proof (induction n arbitrary: pos r rule: less_induct)
  case (less n)
  show ?case
  proof (cases "n = 0")
    case True
    then show ?thesis using less.prems by (simp add: read_into.simps delivers_retE del: retE_apply)
  next
    case False
    obtain r' where r: "refill r = Inr r'" "stands contents limit pos r'"
      and in_buf: "rd_buffer_start r' \<le> pos" "pos < rd_buffer_start r' + length (rd_buffer r')"
      using refill_stands[OF less.prems(1)] less.prems(2,3) False by auto
    have off: "rd_offset r' = pos" using r(2) by (simp add: stands_def)
    let ?k = "min (length (rd_buffer r') - (pos - rd_buffer_start r')) n"
    have k: "0 < ?k" "?k \<le> n" "pos + ?k \<le> rd_buffer_start r' + length (rd_buffer r')" using in_buf False by auto
    have rel: "pos - rd_buffer_start r' < usize_bound" using r(2) by (auto simp: stands_def usize_is_u64)
    have add: "checked_add pos ?k = Some (pos + ?k)"
      using r(2) k(2) less.prems(3) by (auto simp: stands_def checked_add_def)
    have st': "stands contents limit (pos + ?k) (r'\<lparr>rd_offset := pos + ?k\<rparr>)"
      using r(2) less.prems(3) k(2) by (auto simp: stands_def)
    have chunk: "take ?k (drop (pos - rd_buffer_start r') (rd_buffer r')) = take ?k (drop pos contents)"
      using r(2) in_buf(1) k(3) by (intro take_drop_chunk) (simp_all add: stands_def)
    have glue: "take ?k (drop pos contents) @ take (n - ?k) (drop (pos + ?k) contents) = take n (drop pos contents)"
      using take_add[of ?k "n - ?k" "drop pos contents"] k(2) by (simp add: add.commute)
    have IH: "delivers (read_into (n - ?k) (r'\<lparr>rd_offset := pos + ?k\<rparr>))
        (\<lambda>p. fst p = take (n - ?k) (drop (pos + ?k) contents) \<and> stands contents limit (pos + ?k + (n - ?k)) (snd p))"
      using less.prems k by (intro less.IH[OF _ st']) auto
    have fin: "pos + ?k + (n - ?k) = pos + n" using k(2) by simp
    have tail: "delivers (bindE (read_into (n - ?k) (r'\<lparr>rd_offset := pos + ?k\<rparr>)) (\<lambda>p.
        retE (take ?k (drop (pos - rd_buffer_start r') (rd_buffer r')) @ fst p, snd p)))
        (\<lambda>p. fst p = take n (drop pos contents) \<and> stands contents limit (pos + n) (snd p))"
      by (rule delivers_bindE[OF IH], rule delivers_retE) (use chunk glue fin in auto)
    show ?thesis
      using False tail
      by (subst read_into.simps)
        (simp add: r(1) off add rel try_from_ok Let_def delivers_bindE[OF delivers_check[of "\<lambda>_. True"]] del: retE_apply)
  qed
qed

end
