(* ===== verification/MW_GgufCodec.thy ===== *)
theory MW_GgufCodec
  imports MW_GgufFormat
begin

text \<open>
  The encoding of GGUF containers and its inverse. \<open>parses_at\<close> says that a reader consumes exactly
  the given bytes at a position and returns the given value. The encoding is specified
  independently of the parser, and parsing an encoded container within the limits gives it back.
\<close>

section \<open>Consuming bytes\<close>

text \<open>
  Started at \<open>pos\<close> on the bytes \<open>bs\<close>, which must lie inside the header limit, the reader returns
  \<open>x\<close> and stands behind them.
\<close>

definition parses_at :: "u8 list \<Rightarrow> nat \<Rightarrow> nat \<Rightarrow> 'a reader \<Rightarrow> u8 list \<Rightarrow> 'a \<Rightarrow> bool" where
  "parses_at contents limit pos m bs x \<longleftrightarrow> (\<forall>r. stands contents limit pos r \<and> pos + length bs \<le> limit
     \<and> pos + length bs \<le> length contents \<and> take (length bs) (drop pos contents) = bs \<longrightarrow>
     delivers (m r) (\<lambda>p. fst p = x \<and> stands contents limit (pos + length bs) (snd p)))"

lemma parses_limit:
  assumes "pos + length bs \<le> limit \<Longrightarrow> pos + length bs < u64_bound \<Longrightarrow> parses_at contents limit pos m bs x"
  shows "parses_at contents limit pos m bs x"
  unfolding parses_at_def
proof (intro allI impI, elim conjE)
  fix r assume r: "stands contents limit pos r" "pos + length bs \<le> limit" "pos + length bs \<le> length contents"
    "take (length bs) (drop pos contents) = bs"
  then have "pos + length bs < u64_bound" by (simp add: stands_def)
  with assms r show "delivers (m r) (\<lambda>p. fst p = x \<and> stands contents limit (pos + length bs) (snd p))"
    by (simp add: parses_at_def)
qed

lemma parses_retS: "parses_at contents limit pos (retS x) [] x"
  by (simp add: parses_at_def retS_def delivers_retE del: retE_apply)

lemma parses_liftS: "m = Inr x \<Longrightarrow> parses_at contents limit pos (liftS m) [] x"
  by (simp add: parses_at_def liftS_def delivers_retE del: retE_apply)

lemma parses_runS: "delivers m (\<lambda>v. v = x) \<Longrightarrow> parses_at contents limit pos (runS m) [] x"
  unfolding parses_at_def runS_def
  by (auto intro!: delivers_bindE delivers_retE simp del: retE_apply)

lemma parses_check: "parses_at contents limit pos (runS check) [] ()"
  by (rule parses_runS) (rule delivers_check, rule refl)

lemma parses_reserve: "parses_at contents limit pos (runS (try_reserve n)) [] ()"
  by (rule parses_runS) (rule delivers_try_reserve, rule refl)

lemma parses_offset: "parses_at contents limit pos current_offset [] pos"
  by (simp add: parses_at_def current_offset_def stands_def delivers_retE del: retE_apply)

lemma parses_bind:
  assumes m: "parses_at contents limit pos m bs x" and f: "parses_at contents limit (pos + length bs) (f x) cs y"
  shows "parses_at contents limit pos (bindS m f) (bs @ cs) y"
  unfolding parses_at_def
proof (intro allI impI)
  fix r assume r: "stands contents limit pos r \<and> pos + length (bs @ cs) \<le> limit
     \<and> pos + length (bs @ cs) \<le> length contents \<and> take (length (bs @ cs)) (drop pos contents) = bs @ cs"
  then have split: "take (length bs + length cs) (drop pos contents) = bs @ cs" by simp
  have b: "take (length bs) (drop pos contents) = bs"
    using arg_cong[OF split, of "take (length bs)"] by simp
  have c: "take (length cs) (drop (pos + length bs) contents) = cs"
    using arg_cong[OF split, of "drop (length bs)"] by (simp add: drop_take add.commute)
  have "delivers (m r) (\<lambda>p. fst p = x \<and> stands contents limit (pos + length bs) (snd p))"
    using m r b unfolding parses_at_def by simp
  then show "delivers (bindS m f r) (\<lambda>p. fst p = y \<and> stands contents limit (pos + length (bs @ cs)) (snd p))"
    unfolding bindS_def
  proof (rule delivers_bindE)
    fix p assume "fst p = x \<and> stands contents limit (pos + length bs) (snd p)"
    then show "delivers (f (fst p) (snd p)) (\<lambda>p. fst p = y \<and> stands contents limit (pos + length (bs @ cs)) (snd p))"
      using f r c unfolding parses_at_def by (simp add: add.assoc)
  qed
qed

text \<open>Steps that consume nothing.\<close>

lemma parses_then: "parses_at contents limit pos m [] x \<Longrightarrow> parses_at contents limit pos (f x) cs y \<Longrightarrow>
    parses_at contents limit pos (bindS m f) cs y"
  using parses_bind[of contents limit pos m "[]" x f cs y] by simp

lemma parses_map: "parses_at contents limit pos m bs x \<Longrightarrow> parses_at contents limit pos (bindS m (\<lambda>x. retS (h x))) bs (h x)"
  using parses_bind[of contents limit pos m bs x "\<lambda>x. retS (h x)" "[]" "h x", OF _ parses_retS] by simp

lemma reserve_end_ok:
  assumes "stands contents limit pos r" and "pos + n \<le> limit" and "pos + n \<le> length contents"
  shows "reserve_end n r = Inr ()"
  using assms by (auto simp: reserve_end_def stands_def try_from_ok checked_add_def)

lemma parses_fixed: "length bs = n \<Longrightarrow> parses_at contents limit pos (read_fixed n) bs bs"
  unfolding parses_at_def
proof (intro allI impI)
  fix r assume n: "length bs = n" and r: "stands contents limit pos r \<and> pos + length bs \<le> limit
     \<and> pos + length bs \<le> length contents \<and> take (length bs) (drop pos contents) = bs"
  have "delivers (read_into n r) (\<lambda>p. fst p = bs \<and> stands contents limit (pos + length bs) (snd p))"
    using read_into_stands[of contents limit pos r n] r n by simp
  then show "delivers (read_fixed n r) (\<lambda>p. fst p = bs \<and> stands contents limit (pos + length bs) (snd p))"
    using reserve_end_ok[of contents limit pos r n] r n
    by (simp add: read_fixed_def delivers_bindE[OF delivers_check[of "\<lambda>_. True"]])
qed

lemma parses_bytes: "length bs = n \<Longrightarrow> parses_at contents limit pos (read_bytes n) bs bs"
  unfolding parses_at_def
proof (intro allI impI)
  fix r assume n: "length bs = n" and r: "stands contents limit pos r \<and> pos + length bs \<le> limit
     \<and> pos + length bs \<le> length contents \<and> take (length bs) (drop pos contents) = bs"
  have "delivers (read_into n r) (\<lambda>p. fst p = bs \<and> stands contents limit (pos + length bs) (snd p))"
    using read_into_stands[of contents limit pos r n] r n by simp
  then show "delivers (read_bytes n r) (\<lambda>p. fst p = bs \<and> stands contents limit (pos + length bs) (snd p))"
    using reserve_end_ok[of contents limit pos r n] r n
    by (simp add: read_bytes_def delivers_bindE[OF delivers_try_reserve[of "\<lambda>_. True"]])
qed

section \<open>Numbers and strings\<close>

lemma le_nat_bytes: "n < 256 ^ k \<Longrightarrow> le_nat (le_bytes k n) = n"
proof (induction k arbitrary: n)
  case 0
  then show ?case by simp
next
  case (Suc k)
  have "unat (of_nat n :: u8) = n mod 256" by (simp add: unat_of_nat)
  moreover have "n div 256 < 256 ^ k" using Suc.prems by (simp add: less_mult_imp_div_less mult.commute)
  ultimately show ?case using Suc.IH[of "n div 256"] by (simp add: mod_mult_div_eq)
qed

definition int_bytes :: "nat \<Rightarrow> int \<Rightarrow> u8 list" where
  "int_bytes k i = le_bytes k (nat (i mod 256 ^ k))"

lemma le_int_bytes:
  assumes "0 < k" and lo: "- (2 ^ (8 * k - 1)) \<le> i" and hi: "i < 2 ^ (8 * k - 1)"
  shows "le_int (int_bytes k i) = i"
proof -
  let ?W = "(2 :: int) ^ (8 * k)" and ?H = "(2 :: int) ^ (8 * k - 1)"
  have w: "(256 :: int) ^ k = ?W" using power_mult[of "2 :: int" 8 k] by simp
  have w2: "(256 :: nat) ^ k = 2 ^ (8 * k)" using power_mult[of "2 :: nat" 8 k] by simp
  have half: "?W = 2 * ?H" using assms(1) power_Suc[of "2 :: int" "8 * k - 1"] by simp
  have pos: "0 < ?W" by simp
  have "i mod ?W < ?W" "0 \<le> i mod ?W" using pos by simp_all
  then have n: "nat (i mod 256 ^ k) < 256 ^ k" unfolding w w2 by (simp add: nat_less_iff)
  have l: "int (le_nat (int_bytes k i)) = i mod ?W" unfolding int_bytes_def le_nat_bytes[OF n] using w by simp
  have len: "length (int_bytes k i) = k" by (simp add: int_bytes_def)
  show ?thesis
  proof (cases "0 \<le> i")
    case True
    then have v: "int (le_nat (int_bytes k i)) = i" using l hi half by simp
    then have "int (le_nat (int_bytes k i)) < int (2 ^ (8 * k - 1))" using hi by simp
    then show ?thesis using v len by (simp add: le_int_def Let_def del: of_nat_power)
  next
    case False
    have "(i + ?W) mod ?W = i + ?W" using False lo half by (intro mod_pos_pos_trivial) linarith+
    then have v: "int (le_nat (int_bytes k i)) = i + ?W" using l by simp
    have "\<not> int (le_nat (int_bytes k i)) < int (2 ^ (8 * k - 1))" using v lo half by simp
    then show ?thesis using v len by (simp add: le_int_def Let_def del: of_nat_power)
  qed
qed

text \<open>The readers of numbers consume their little-endian encodings.\<close>

lemma parses_nat:
  assumes "n < 256 ^ k"
  shows "parses_at contents limit pos (bindS (read_fixed k) (\<lambda>b. retS (le_nat b))) (le_bytes k n) n"
  using parses_map[OF parses_fixed[of "le_bytes k n" k contents limit pos], of le_nat] le_nat_bytes[OF assms] by simp

lemma parses_int:
  assumes "0 < k" and "- (2 ^ (8 * k - 1)) \<le> i" and "i < 2 ^ (8 * k - 1)"
  shows "parses_at contents limit pos (bindS (read_fixed k) (\<lambda>b. retS (le_int b))) (int_bytes k i) i"
  using parses_map[OF parses_fixed[of "int_bytes k i" k contents limit pos], of le_int] le_int_bytes[OF assms]
  by (simp add: int_bytes_def)

lemma parses_unsigned:
  "n < 2 ^ 8 \<Longrightarrow> parses_at contents limit pos rd_u8 (le_bytes 1 n) n"
  "n < 2 ^ 16 \<Longrightarrow> parses_at contents limit pos rd_u16 (le_bytes 2 n) n"
  "n < 2 ^ 32 \<Longrightarrow> parses_at contents limit pos rd_u32 (le_bytes 4 n) n"
  "n < 2 ^ 32 \<Longrightarrow> parses_at contents limit pos rd_f32 (le_bytes 4 n) n"
  "n < 2 ^ 64 \<Longrightarrow> parses_at contents limit pos rd_u64 (le_bytes 8 n) n"
  "n < 2 ^ 64 \<Longrightarrow> parses_at contents limit pos rd_f64 (le_bytes 8 n) n"
  unfolding rd_u8_def rd_u16_def rd_u32_def rd_f32_def rd_u64_def rd_f64_def by (rule parses_nat; simp)+

definition fits_int :: "nat \<Rightarrow> int \<Rightarrow> bool" where
  "fits_int k i \<longleftrightarrow> - (2 ^ (8 * k - 1)) \<le> i \<and> i < 2 ^ (8 * k - 1)"

lemma parses_signed:
  "fits_int 1 i \<Longrightarrow> parses_at contents limit pos rd_i8 (int_bytes 1 i) i"
  "fits_int 2 i \<Longrightarrow> parses_at contents limit pos rd_i16 (int_bytes 2 i) i"
  "fits_int 4 i \<Longrightarrow> parses_at contents limit pos rd_i32 (int_bytes 4 i) i"
  "fits_int 8 i \<Longrightarrow> parses_at contents limit pos rd_i64 (int_bytes 8 i) i"
  unfolding rd_i8_def rd_i16_def rd_i32_def rd_i64_def fits_int_def by (rule parses_int; simp)+

definition bool_bytes :: "bool \<Rightarrow> u8 list" where
  "bool_bytes b = [if b then 1 else 0]"

lemma parses_boolean: "parses_at contents limit pos rd_boolean (bool_bytes b) b"
proof -
  let ?n = "if b then 1 else 0 :: nat"
  have e: "bool_bytes b = le_bytes 1 ?n @ []" by (simp add: bool_bytes_def)
  show ?thesis unfolding rd_boolean_def e
    by (rule parses_bind, rule parses_unsigned, simp, rule parses_liftS, simp)
qed

text \<open>Text: UTF-8 bytes behind their length.\<close>

definition text_bytes :: "string \<Rightarrow> u8 list" where
  "text_bytes s = map (\<lambda>c. of_nat (of_char c)) s"

definition string_bytes :: "string \<Rightarrow> u8 list" where
  "string_bytes s = le_bytes 8 (length s) @ text_bytes s"

lemma char_of_byte: "char_of (unat (of_nat (of_char c) :: u8)) = c"
proof -
  have "unat (of_nat (of_char c) :: u8) = of_char c" by (simp add: unat_of_nat)
  then show ?thesis by simp
qed

lemma string_of_text: "string_of (text_bytes s) = s"
  by (simp add: string_of_def text_bytes_def comp_def char_of_byte)

lemma length_string_bytes [simp]: "length (string_bytes s) = 8 + length s"
  by (simp add: string_bytes_def text_bytes_def)

lemma bounded_count_ok: "n \<le> m \<Longrightarrow> n < u64_bound \<Longrightarrow> bounded_count n m = Inr n"
  by (simp add: bounded_count_def try_from_ok usize_is_u64)

lemma parses_string:
  assumes s: "valid_utf8 (text_bytes s)" and m: "8 + length s \<le> limit \<Longrightarrow> 8 + length s < u64_bound \<Longrightarrow> length s \<le> maximum"
  shows "parses_at contents limit pos (rd_string maximum) (string_bytes s) s"
proof (rule parses_limit)
  assume l: "pos + length (string_bytes s) \<le> limit" "pos + length (string_bytes s) < u64_bound"
  then have b: "bounded_count (length s) maximum = Inr (length s)" and s3: "length s < 2 ^ 64"
    using m by (simp_all add: bounded_count_ok u64_bound_def)
  have len: "length (text_bytes s) = length s" by (simp add: text_bytes_def)
  have "parses_at contents limit (pos + length (le_bytes 8 (length s)))
      (bindS (read_bytes (length s)) (\<lambda>bytes. liftS (if valid_utf8 bytes then Inr (string_of bytes) else Inl InvalidFormat)))
      (text_bytes s @ []) s"
    by (rule parses_bind[OF parses_bytes[OF len]]) (rule parses_liftS, simp add: s string_of_text)
  then have t: "parses_at contents limit (pos + length (le_bytes 8 (length s)))
      (bindS (liftS (bounded_count (length s) maximum)) (\<lambda>len. bindS (read_bytes len)
        (\<lambda>bytes. liftS (if valid_utf8 bytes then Inr (string_of bytes) else Inl InvalidFormat)))) (text_bytes s) s"
    by (intro parses_then[OF parses_liftS[OF b]]) simp
  show "parses_at contents limit pos (rd_string maximum) (string_bytes s) s"
    unfolding rd_string_def string_bytes_def by (rule parses_bind) (rule parses_unsigned(5)[OF s3], rule t)
qed

section \<open>Sequences\<close>

lemma parses_repeat:
  assumes "\<forall>x \<in> set xs. \<forall>pos. parses_at contents limit pos m (enc x) x"
  shows "parses_at contents limit pos (repeatS (length xs) m) (concat (map enc xs)) xs"
  using assms
proof (induction xs arbitrary: pos)
  case Nil
  then show ?case by (simp add: parses_retS)
next
  case (Cons x xs)
  have "parses_at contents limit (pos + length (enc x)) (bindS (repeatS (length xs) m) (\<lambda>xs. retS (x # xs)))
      (concat (map enc xs)) (x # xs)"
    using Cons by (intro parses_map) simp
  then show ?case using Cons.prems by (simp, intro parses_bind) simp_all
qed

lemma parses_elements:
  assumes "\<forall>x \<in> set xs. \<forall>pos. parses_at contents limit pos m (enc x) x" and "n = length xs"
  shows "parses_at contents limit pos (read_elements n m) (concat (map enc xs)) xs"
  unfolding read_elements_def assms(2) by (rule parses_then[OF parses_reserve parses_repeat[OF assms(1)]])

section \<open>Metadata values\<close>

fun type_code :: "ValueType \<Rightarrow> nat" where
  "type_code TU8 = 0" | "type_code TI8 = 1" | "type_code TU16 = 2" | "type_code TI16 = 3" | "type_code TU32 = 4"
| "type_code TI32 = 5" | "type_code TF32 = 6" | "type_code TBool = 7" | "type_code TString = 8" | "type_code TArray = 9"
| "type_code TU64 = 10" | "type_code TI64 = 11" | "type_code TF64 = 12"

lemma type_code_round_trip: "ValueType_from_raw (type_code t) = Inr t"
  by (cases t) (simp_all add: ValueType_from_raw_def)

lemma parses_type:
  "parses_at contents limit (pos + 4) (f t) bs y \<Longrightarrow>
   parses_at contents limit pos (bindS rd_u32 (\<lambda>raw. bindS (liftS (ValueType_from_raw raw)) f)) (le_bytes 4 (type_code t) @ bs) y"
proof (rule parses_bind)
  show "parses_at contents limit pos rd_u32 (le_bytes 4 (type_code t)) (type_code t)"
    by (rule parses_unsigned) (cases t; simp)
  assume "parses_at contents limit (pos + 4) (f t) bs y"
  then show "parses_at contents limit (pos + length (le_bytes 4 (type_code t)))
      (bindS (liftS (ValueType_from_raw (type_code t))) f) bs y"
    by (intro parses_then[OF parses_liftS[OF type_code_round_trip]]) simp
qed

text \<open>An array is its element type, its length and its elements.\<close>

definition array_bytes :: "ValueType \<Rightarrow> ('a \<Rightarrow> u8 list) \<Rightarrow> 'a list \<Rightarrow> u8 list" where
  "array_bytes t enc xs = le_bytes 4 (type_code t) @ le_bytes 8 (length xs) @ concat (map enc xs)"

primrec encode_array :: "GgufArray \<Rightarrow> u8 list" where
  "encode_array (ArrayOfArray xs) = array_bytes TArray (\<lambda>bs. bs) (map encode_array xs)"
| "encode_array (ArrayU8 xs) = array_bytes TU8 (le_bytes 1) xs"
| "encode_array (ArrayI8 xs) = array_bytes TI8 (int_bytes 1) xs"
| "encode_array (ArrayU16 xs) = array_bytes TU16 (le_bytes 2) xs"
| "encode_array (ArrayI16 xs) = array_bytes TI16 (int_bytes 2) xs"
| "encode_array (ArrayU32 xs) = array_bytes TU32 (le_bytes 4) xs"
| "encode_array (ArrayI32 xs) = array_bytes TI32 (int_bytes 4) xs"
| "encode_array (ArrayF32 xs) = array_bytes TF32 (le_bytes 4) xs"
| "encode_array (ArrayBool xs) = array_bytes TBool bool_bytes xs"
| "encode_array (ArrayString xs) = array_bytes TString string_bytes xs"
| "encode_array (ArrayU64 xs) = array_bytes TU64 (le_bytes 8) xs"
| "encode_array (ArrayI64 xs) = array_bytes TI64 (int_bytes 8) xs"
| "encode_array (ArrayF64 xs) = array_bytes TF64 (le_bytes 8) xs"

text \<open>The values of an array fit their type, and arrays nest at most the given number of levels.\<close>

primrec encodable_array :: "nat \<Rightarrow> GgufArray \<Rightarrow> bool" where
  "encodable_array 0 a = False"
| "encodable_array (Suc levels) a = (case a of
     ArrayOfArray xs \<Rightarrow> \<forall>x \<in> set xs. encodable_array levels x
   | ArrayU8 xs \<Rightarrow> \<forall>x \<in> set xs. x < 2 ^ 8
   | ArrayI8 xs \<Rightarrow> \<forall>x \<in> set xs. fits_int 1 x
   | ArrayU16 xs \<Rightarrow> \<forall>x \<in> set xs. x < 2 ^ 16
   | ArrayI16 xs \<Rightarrow> \<forall>x \<in> set xs. fits_int 2 x
   | ArrayU32 xs \<Rightarrow> \<forall>x \<in> set xs. x < 2 ^ 32
   | ArrayI32 xs \<Rightarrow> \<forall>x \<in> set xs. fits_int 4 x
   | ArrayF32 xs \<Rightarrow> \<forall>x \<in> set xs. x < 2 ^ 32
   | ArrayBool xs \<Rightarrow> True
   | ArrayString xs \<Rightarrow> \<forall>x \<in> set xs. valid_utf8 (text_bytes x)
   | ArrayU64 xs \<Rightarrow> \<forall>x \<in> set xs. x < 2 ^ 64
   | ArrayI64 xs \<Rightarrow> \<forall>x \<in> set xs. fits_int 8 x
   | ArrayF64 xs \<Rightarrow> \<forall>x \<in> set xs. x < 2 ^ 64)"

lemma concat_length_bound: "\<forall>x \<in> set xs. k \<le> length (enc x) \<Longrightarrow> length xs * k \<le> length (concat (map enc xs))"
  by (induction xs) auto

lemma element_bytes_pos: "0 < element_bytes t"
  by (cases t) simp_all

text \<open>The limit that the metadata readers use.\<close>

definition metadata_bound :: "nat \<Rightarrow> nat" where
  "metadata_bound limit = (if limit < usize_bound then limit else usize_bound - 1)"

lemma metadata_bound_le: "n \<le> limit \<Longrightarrow> n < u64_bound \<Longrightarrow> n \<le> metadata_bound limit"
  by (auto simp: metadata_bound_def usize_is_u64)

lemma parses_array_body:
  assumes elements: "\<forall>x \<in> set xs. \<forall>pos. parses_at contents limit pos m (enc x) x"
    and width: "\<forall>x \<in> set xs. element_bytes t \<le> length (enc x)"
  shows "parses_at contents limit pos
    (bindS rd_u64 (\<lambda>n. bindS (liftS (bounded_count n (metadata_bound limit div element_bytes t))) (\<lambda>k.
       bindS (read_elements k m) (\<lambda>xs. retS (C xs))))) (le_bytes 8 (length xs) @ concat (map enc xs)) (C xs)"
    (is "parses_at _ _ _ _ ?bs _")
proof (rule parses_limit)
  assume l: "pos + length ?bs \<le> limit" "pos + length ?bs < u64_bound"
  let ?w = "element_bytes t"
  have w: "length xs * ?w \<le> length (concat (map enc xs))" by (rule concat_length_bound[OF width])
  then have "length xs * ?w \<le> metadata_bound limit" using l by (intro metadata_bound_le) simp_all
  then have "length xs \<le> metadata_bound limit div ?w" using element_bytes_pos[of t] by (simp add: less_eq_div_iff_mult_less_eq)
  moreover have "length xs \<le> length xs * ?w" using element_bytes_pos[of t] by simp
  then have n: "length xs < u64_bound" using w l(2) unfolding length_append by linarith
  ultimately have b: "bounded_count (length xs) (metadata_bound limit div ?w) = Inr (length xs)" by (intro bounded_count_ok)
  have "parses_at contents limit (pos + length (le_bytes 8 (length xs)))
     (bindS (liftS (bounded_count (length xs) (metadata_bound limit div ?w))) (\<lambda>k.
       bindS (read_elements k m) (\<lambda>xs. retS (C xs)))) (concat (map enc xs)) (C xs)"
    by (rule parses_then[OF parses_liftS[OF b]], rule parses_map, rule parses_elements[OF elements refl])
  then show "parses_at contents limit pos
    (bindS rd_u64 (\<lambda>n. bindS (liftS (bounded_count n (metadata_bound limit div element_bytes t))) (\<lambda>k.
       bindS (read_elements k m) (\<lambda>xs. retS (C xs))))) ?bs (C xs)"
    using n by (intro parses_bind[OF parses_unsigned(5)]) (simp_all add: u64_bound_def)
qed

lemma length_int_bytes [simp]: "length (int_bytes k i) = k"
  by (simp add: int_bytes_def)

lemma length_bool_bytes [simp]: "length (bool_bytes b) = 1"
  by (simp add: bool_bytes_def)

lemma length_encode_array: "12 \<le> length (encode_array a)"
  by (cases a) (simp_all add: array_bytes_def)

lemma parses_metadata_string: "valid_utf8 (text_bytes s) \<Longrightarrow>
    parses_at contents limit pos (rd_string (metadata_bound limit)) (string_bytes s) s"
  by (rule parses_string) (auto dest: metadata_bound_le)

lemma parses_array:
  assumes "encodable_array levels a"
  shows "parses_at contents limit pos (read_array levels (metadata_bound limit)) (encode_array a) a"
  using assms
proof (induction levels arbitrary: a pos)
  case 0
  then show ?case by simp
next
  case (Suc levels)
  have IH: "\<forall>x \<in> set xs. \<forall>pos. parses_at contents limit pos (read_array levels (metadata_bound limit)) (encode_array x) x"
    if "a = ArrayOfArray xs" for xs using Suc that by simp
  have e: "encode_array (ArrayOfArray xs) = array_bytes TArray encode_array xs" for xs
    by (simp add: array_bytes_def comp_def)
  note parses = parses_unsigned parses_signed parses_boolean parses_metadata_string
  show ?case
    using Suc.prems IH
    by (cases a)
      (simp only: e encode_array.simps(2-) array_bytes_def read_array.simps,
       rule parses_type, simp only: ValueType.case, rule parses_array_body; simp add: parses length_encode_array del: le_bytes.simps One_nat_def)+
qed

primrec value_type :: "GgufValue \<Rightarrow> ValueType" where
  "value_type (ValueU8 x) = TU8" | "value_type (ValueI8 x) = TI8" | "value_type (ValueU16 x) = TU16"
| "value_type (ValueI16 x) = TI16" | "value_type (ValueU32 x) = TU32" | "value_type (ValueI32 x) = TI32"
| "value_type (ValueF32 x) = TF32" | "value_type (ValueBool x) = TBool" | "value_type (ValueString x) = TString"
| "value_type (ValueArray x) = TArray" | "value_type (ValueU64 x) = TU64" | "value_type (ValueI64 x) = TI64"
| "value_type (ValueF64 x) = TF64"

primrec encode_value :: "GgufValue \<Rightarrow> u8 list" where
  "encode_value (ValueU8 x) = le_bytes 1 x" | "encode_value (ValueI8 x) = int_bytes 1 x"
| "encode_value (ValueU16 x) = le_bytes 2 x" | "encode_value (ValueI16 x) = int_bytes 2 x"
| "encode_value (ValueU32 x) = le_bytes 4 x" | "encode_value (ValueI32 x) = int_bytes 4 x"
| "encode_value (ValueF32 x) = le_bytes 4 x" | "encode_value (ValueBool x) = bool_bytes x"
| "encode_value (ValueString x) = string_bytes x" | "encode_value (ValueArray x) = encode_array x"
| "encode_value (ValueU64 x) = le_bytes 8 x" | "encode_value (ValueI64 x) = int_bytes 8 x"
| "encode_value (ValueF64 x) = le_bytes 8 x"

primrec encodable :: "GgufValue \<Rightarrow> bool" where
  "encodable (ValueU8 x) = (x < 2 ^ 8)" | "encodable (ValueI8 x) = fits_int 1 x"
| "encodable (ValueU16 x) = (x < 2 ^ 16)" | "encodable (ValueI16 x) = fits_int 2 x"
| "encodable (ValueU32 x) = (x < 2 ^ 32)" | "encodable (ValueI32 x) = fits_int 4 x"
| "encodable (ValueF32 x) = (x < 2 ^ 32)" | "encodable (ValueBool x) = True"
| "encodable (ValueString x) = valid_utf8 (text_bytes x)"
| "encodable (ValueArray x) = encodable_array MAX_METADATA_NESTING_DEPTH x"
| "encodable (ValueU64 x) = (x < 2 ^ 64)" | "encodable (ValueI64 x) = fits_int 8 x"
| "encodable (ValueF64 x) = (x < 2 ^ 64)"

lemma parses_value:
  assumes "encodable v"
  shows "parses_at contents limit pos (read_value (value_type v) (metadata_bound limit)) (encode_value v) v"
  using assms unfolding read_value_def
  by (cases v) (simp only: encodable.simps encode_value.simps value_type.simps ValueType.case,
    rule parses_map, (rule parses_unsigned parses_signed parses_boolean parses_metadata_string parses_array; simp only:)[1])+

section \<open>Entries and tensor descriptions\<close>

definition encode_entry :: "string \<times> GgufValue \<Rightarrow> u8 list" where
  "encode_entry p = string_bytes (fst p) @ le_bytes 4 (type_code (value_type (snd p))) @ encode_value (snd p)"

definition encodable_name :: "ResourceLimits \<Rightarrow> string \<Rightarrow> bool" where
  "encodable_name limits s \<longleftrightarrow> valid_utf8 (text_bytes s) \<and> length s \<le> max_name_bytes limits"

lemma parses_name: "encodable_name limits s \<Longrightarrow>
    parses_at contents limit pos (rd_string (max_name_bytes limits)) (string_bytes s) s"
  by (rule parses_string) (simp_all add: encodable_name_def)

lemma parses_entry:
  assumes name: "encodable_name limits (fst p)" and v: "encodable (snd p)" and new: "insert_unique InvalidFormat p m = Inr m'"
  shows "parses_at contents limit pos (read_entry limits (metadata_bound limit) start m) (encode_entry p) m'"
proof (rule parses_limit)
  assume l: "pos + length (encode_entry p) \<le> limit" "pos + length (encode_entry p) < u64_bound"
  let ?stop = "pos + length (encode_entry p)"
  have u: "usize_try_from (?stop - start) = Inr (?stop - start)" using l(2) by (simp add: try_from_ok usize_is_u64)
  have "?stop - start \<le> metadata_bound limit" by (rule metadata_bound_le) (use l in linarith)+
  then have g: "ensure (\<not> ?stop - start > metadata_bound limit) ResourceLimit = Inr ()" by simp
  have fin: "parses_at contents limit ?stop (bindS current_offset (\<lambda>pos.
     bindS (liftS (usize_try_from (pos - start))) (\<lambda>metadata_bytes.
     bindS (liftS (ensure (\<not> metadata_bytes > metadata_bound limit) ResourceLimit)) (\<lambda>_.
       liftS (insert_unique InvalidFormat (fst p, snd p) m))))) [] m'"
    by (rule parses_then[OF parses_offset], rule parses_then[OF parses_liftS[OF u]],
        rule parses_then[OF parses_liftS[OF g]], rule parses_liftS) (simp add: new)
  have len: "?stop = pos + (8 + length (fst p)) + 4 + length (encode_value (snd p))"
    by (simp add: encode_entry_def)
  have "parses_at contents limit (pos + (8 + length (fst p)) + 4)
     (bindS (read_value (value_type (snd p)) (metadata_bound limit)) (\<lambda>v.
     bindS current_offset (\<lambda>pos.
     bindS (liftS (usize_try_from (pos - start))) (\<lambda>metadata_bytes.
     bindS (liftS (ensure (\<not> metadata_bytes > metadata_bound limit) ResourceLimit)) (\<lambda>_.
       liftS (insert_unique InvalidFormat (fst p, v) m)))))) (encode_value (snd p) @ []) m'"
    by (rule parses_bind[OF parses_value[OF v]]) (use fin len in simp)
  then show "parses_at contents limit pos (read_entry limits (metadata_bound limit) start m) (encode_entry p) m'"
    unfolding read_entry_def encode_entry_def
    by (intro parses_then[OF parses_check] parses_bind[OF parses_name[OF name]] parses_type) simp
qed

lemma parses_entries:
  assumes "\<forall>p \<in> set ps. encodable_name limits (fst p) \<and> encodable (snd p)"
    and "foldR (insert_unique InvalidFormat) ps m = Inr m'"
  shows "parses_at contents limit pos (loopS (length ps) (read_entry limits (metadata_bound limit) start) m)
    (concat (map encode_entry ps)) m'"
  using assms
proof (induction ps arbitrary: pos m)
  case Nil
  then show ?case by (simp add: parses_retS)
next
  case (Cons p ps)
  then obtain m1 where m1: "insert_unique InvalidFormat p m = Inr m1" "foldR (insert_unique InvalidFormat) ps m1 = Inr m'"
    by (auto simp: bindR_Inr)
  have "parses_at contents limit pos (bindS (read_entry limits (metadata_bound limit) start m)
      (loopS (length ps) (read_entry limits (metadata_bound limit) start))) (encode_entry p @ concat (map encode_entry ps)) m'"
    using Cons m1 by (intro parses_bind[OF parses_entry]) simp_all
  then show ?case by simp
qed

definition encode_tensor :: "RawTensor \<Rightarrow> u8 list" where
  "encode_tensor t = string_bytes (raw_name t) @ le_bytes 4 (length (raw_dimensions t))
     @ concat (map (le_bytes 8) (raw_dimensions t)) @ le_bytes 4 (raw_type t) @ le_bytes 8 (raw_offset t)"

definition encodable_tensor :: "ResourceLimits \<Rightarrow> RawTensor \<Rightarrow> bool" where
  "encodable_tensor limits t \<longleftrightarrow> encodable_name limits (raw_name t) \<and> raw_dimensions t \<noteq> []
     \<and> length (raw_dimensions t) \<le> max_rank limits \<and> length (raw_dimensions t) < 2 ^ 32
     \<and> (\<forall>d \<in> set (raw_dimensions t). d < 2 ^ 64) \<and> raw_type t < 2 ^ 32 \<and> raw_offset t < 2 ^ 64"

lemma parses_tensor:
  assumes t: "encodable_tensor limits t"
  shows "parses_at contents limit pos (read_tensor_info limits) (encode_tensor t) t"
proof -
  have n: "encodable_name limits (raw_name t)" and r: "length (raw_dimensions t) < 2 ^ 32"
    and dims: "\<forall>d \<in> set (raw_dimensions t). \<forall>pos. parses_at contents limit pos rd_u64 (le_bytes 8 d) d"
    and ty: "raw_type t < 2 ^ 32" and off: "raw_offset t < 2 ^ 64"
    and nz: "ensure (length (raw_dimensions t) \<noteq> 0) InvalidFormat = Inr ()"
    using t by (auto simp: encodable_tensor_def parses_unsigned(5))
  have b: "bounded_count (length (raw_dimensions t)) (max_rank limits) = Inr (length (raw_dimensions t))"
    using t r by (intro bounded_count_ok) (simp_all add: encodable_tensor_def u64_bound_def)
  let ?mk = "\<lambda>x. \<lparr>raw_name = raw_name t, raw_dimensions = raw_dimensions t, raw_type = raw_type t, raw_offset = x\<rparr>"
  have mk: "?mk (raw_offset t) = t" by simp
  note fin = parses_map[OF parses_unsigned(5)[OF off], of contents limit _ ?mk, unfolded mk]
  show ?thesis
    unfolding read_tensor_info_def encode_tensor_def
    by (rule parses_then[OF parses_check], rule parses_bind[OF parses_name[OF n]], rule parses_bind[OF parses_unsigned(3)[OF r]],
        rule parses_then[OF parses_liftS[OF b]], rule parses_then[OF parses_liftS[OF nz]],
        rule parses_bind[OF parses_elements[OF dims refl]], rule parses_bind[OF parses_unsigned(3)[OF ty]],
        rule fin)
qed

section \<open>Containers\<close>

record GgufDocument =
  doc_version :: nat
  doc_entries :: "(string \<times> GgufValue) list"
  doc_tensors :: "RawTensor list"

definition encode_metadata :: "(string \<times> GgufValue) list \<Rightarrow> u8 list" where
  "encode_metadata ps = le_bytes 8 (length ps) @ concat (map encode_entry ps)"

definition encode_document :: "GgufDocument \<Rightarrow> u8 list" where
  "encode_document d = GGUF_MAGIC @ le_bytes 4 (doc_version d) @ le_bytes 8 (length (doc_tensors d))
     @ encode_metadata (doc_entries d)
     @ concat (map encode_tensor (doc_tensors d))"

text \<open>Documents that the format can express and the limits admit.\<close>

definition encodable_document :: "ResourceLimits \<Rightarrow> GgufDocument \<Rightarrow> bool" where
  "encodable_document limits d \<longleftrightarrow> MIN_VERSION \<le> doc_version d \<and> doc_version d \<le> MAX_VERSION
     \<and> length (doc_tensors d) \<le> max_tensors limits \<and> length (encode_document d) \<le> max_header_bytes limits
     \<and> (\<forall>p \<in> set (doc_entries d). encodable_name limits (fst p) \<and> encodable (snd p))
     \<and> distinct (map fst (doc_entries d))
     \<and> (\<forall>t \<in> set (doc_tensors d). encodable_tensor limits t)"

lemma length_encode_entry: "12 \<le> length (encode_entry p)"
  by (simp add: encode_entry_def)

lemma parses_metadata:
  assumes ps: "\<forall>p \<in> set ps. encodable_name limits (fst p) \<and> encodable (snd p)"
    and m: "foldR (insert_unique InvalidFormat) ps [] = Inr m"
  shows "parses_at contents (max_header_bytes limits) pos (read_metadata limits)
    (encode_metadata ps) m" (is "parses_at _ ?limit _ _ ?bs _")
proof (rule parses_limit)
  assume l: "pos + length ?bs \<le> ?limit" "pos + length ?bs < u64_bound"
  have w: "length ps * 12 \<le> length (concat (map encode_entry ps))"
    by (rule concat_length_bound) (simp add: length_encode_entry)
  then have "length ps * 12 \<le> metadata_bound ?limit" using l by (intro metadata_bound_le) (simp_all add: encode_metadata_def)
  then have "length ps \<le> metadata_bound ?limit div 12" by linarith
  moreover have n: "length ps < u64_bound" using w l(2) by (simp add: encode_metadata_def)
  ultimately have b: "bounded_count (length ps) (metadata_bound ?limit div 12) = Inr (length ps)" by (intro bounded_count_ok)
  have n64: "length ps < 2 ^ 64" using n by (simp add: u64_bound_def)
  show "parses_at contents ?limit pos (read_metadata limits) ?bs m"
    unfolding read_metadata_def encode_metadata_def Let_def metadata_bound_def[symmetric]
    by (rule parses_bind[OF parses_unsigned(5)[OF n64]], rule parses_then[OF parses_liftS[OF b]],
        rule parses_then[OF parses_offset], rule parses_entries[OF ps m])
qed

section \<open>Acceptable tensor layouts\<close>

lemma any_window2_nth: "any_window2 P xs \<longleftrightarrow> (\<exists>i. Suc i < length xs \<and> P (xs ! i) (xs ! Suc i))"
proof (induction xs rule: induct_list012)
  case (3 x y zs)
  have "(\<exists>i. Suc i < length (x # y # zs) \<and> P ((x # y # zs) ! i) ((x # y # zs) ! Suc i)) \<longleftrightarrow>
      P x y \<or> (\<exists>i. Suc i < length (y # zs) \<and> P ((y # zs) ! i) ((y # zs) ! Suc i))" (is "(\<exists>i. ?Q i) \<longleftrightarrow> _")
  proof -
    have "(\<exists>i. ?Q i) \<longleftrightarrow> ?Q 0 \<or> (\<exists>i. ?Q (Suc i))" by (metis not0_implies_Suc)
    then show ?thesis by simp
  qed
  then show ?case using "3.IH"(2) by simp
qed simp_all

text \<open>The check of neighbours in order of their ranges accepts all layouts of pairwise disjoint ranges.\<close>

lemma apart_accepted:
  assumes ends: "\<forall>p \<in> set ps. fst p \<le> snd p" and ap: "sorted_wrt apart (ps :: (nat \<times> nat) list)"
  shows "\<not> any_window2 (\<lambda>a b. snd a > fst b) (sort_key (\<lambda>p. [fst p, snd p]) ps)"
proof
  let ?qs = "sort_key (\<lambda>p. [fst p, snd p]) ps"
  assume "any_window2 (\<lambda>a b. snd a > fst b) ?qs"
  then obtain i where i: "Suc i < length ?qs" "fst (?qs ! Suc i) < snd (?qs ! i)" by (auto simp: any_window2_nth)
  have "apart b a" if "apart a b" for a b using that by (auto simp: apart_def)
  then have "sorted_wrt apart ?qs" using ap by (simp add: sorted_wrt_symmetric)
  then have "apart (?qs ! i) (?qs ! Suc i)" using i(1) by (simp add: sorted_wrt_iff_nth_less)
  then have a: "snd (?qs ! Suc i) \<le> fst (?qs ! i)" using i(2) by (simp add: apart_def)
  have "?qs ! Suc i \<in> set ps" using i(1) nth_mem[of "Suc i" ?qs] by simp
  then have "fst (?qs ! Suc i) \<le> snd (?qs ! Suc i)" using ends by blast
  moreover have "sorted (map (\<lambda>p. [fst p, snd p]) ?qs)" by simp
  then have "[fst (?qs ! i), snd (?qs ! i)] \<le> [fst (?qs ! Suc i), snd (?qs ! Suc i)]"
    using i(1) sorted_nth_mono[of "map (\<lambda>p. [fst p, snd p]) ?qs" i "Suc i"] by simp
  then have "fst (?qs ! i) < fst (?qs ! Suc i) \<or> fst (?qs ! i) = fst (?qs ! Suc i) \<and> snd (?qs ! i) \<le> snd (?qs ! Suc i)"
    by (auto simp: less_eq_list_code)
  ultimately show False using a i(2) by linarith
qed

lemma build_tensor_records_complete:
  assumes rs: "list_all2 (\<lambda>raw r. build_tensor_record fid file_size data_base alignment raw = Inr r) raws rs"
    and ap: "sorted_wrt (\<lambda>a b. apart (record_range a) (record_range b)) rs"
  shows "delivers (build_tensor_records fid file_size data_base alignment raws) (\<lambda>v. v = rs)"
proof -
  have "list_all2 (\<lambda>raw r. fst (record_range r) \<le> snd (record_range r)) raws rs"
    using rs by (rule list_all2_mono) (use build_tensor_record_Inr in blast)
  then have "\<forall>p \<in> set (map record_range rs). fst p \<le> snd p"
    by (auto simp: list_all2_conv_all_nth in_set_conv_nth)
  then have w: "\<not> any_window2 (\<lambda>a b. snd a > fst b) (sort_key (\<lambda>p. [fst p, snd p]) (map record_range rs))"
    using ap by (intro apart_accepted) (simp_all add: sorted_wrt_map)
  have "list_all2 (\<lambda>raw r. delivers (bindE check (\<lambda>_. liftE (build_tensor_record fid file_size data_base alignment raw)))
      (\<lambda>v. v = r)) raws rs"
    using rs by (rule list_all2_mono) (auto intro!: delivers_bindE[OF delivers_check[of "\<lambda>_. True"]] delivers_liftE)
  note recs = delivers_mapE[OF this]
  show ?thesis
    unfolding build_tensor_records_def
    by (rule delivers_bindE[OF delivers_try_reserve[of "\<lambda>_. True"]], simp,
        rule delivers_bindE[OF delivers_try_reserve[of "\<lambda>_. True"]], simp,
        rule delivers_bindE[OF recs]) (use w in \<open>simp add: Let_def delivers_retE del: retE_apply\<close>)
qed

section \<open>Parsing an encoded container\<close>

text \<open>
  The header of an encoded document is parsed to its version, entries and tensor descriptions; the
  records are then built from them.
\<close>

lemma gguf_parse_document:
  assumes d: "encodable_document limits d" and f: "reads file contents"
    and size: "length contents < u64_bound" and pre: "take (length (encode_document d)) contents = encode_document d"
    and len: "length (encode_document d) \<le> length contents"
    and m: "foldR (insert_unique InvalidFormat) (doc_entries d) [] = Inr m"
    and al: "metadata_alignment m = Inr alignment" and base: "align_up (length (encode_document d)) alignment = Inr data_base"
    and fits: "data_base \<le> length contents" "data_base \<le> max_header_bytes limits"
    and tensors: "delivers (build_tensor_records fid (length contents) data_base alignment (doc_tensors d)) Q"
  shows "delivers (gguf_parse file fid (length contents) limits) (\<lambda>p. gguf_version (parsed_metadata p) = doc_version d
    \<and> gguf_alignment (parsed_metadata p) = alignment \<and> gguf_entries (parsed_metadata p) = m \<and> Q (parsed_tensors p))"
proof -
  let ?limit = "max_header_bytes limits" and ?n = "length (encode_document d)"
  have v: "doc_version d < 2 ^ 32" and vr: "ensure (MIN_VERSION \<le> doc_version d \<and> doc_version d \<le> MAX_VERSION) Unsupported = Inr ()"
    using d by (simp_all add: encodable_document_def MIN_VERSION_def MAX_VERSION_def)
  have es: "\<forall>p \<in> set (doc_entries d). encodable_name limits (fst p) \<and> encodable (snd p)"
    and ts: "\<forall>t \<in> set (doc_tensors d). \<forall>pos. parses_at contents ?limit pos (read_tensor_info limits) (encode_tensor t) t"
    using d by (simp_all add: encodable_document_def parses_tensor)
  have "length (doc_tensors d) * 1 \<le> length (concat (map encode_tensor (doc_tensors d)))"
    by (rule concat_length_bound) (simp add: encode_tensor_def)
  then have nt: "length (doc_tensors d) < 2 ^ 64" using len size by (simp add: encode_document_def u64_bound_def)
  have bt: "bounded_count (length (doc_tensors d)) (max_tensors limits) = Inr (length (doc_tensors d))"
    using d nt by (intro bounded_count_ok) (simp_all add: encodable_document_def u64_bound_def)
  have magic: "length GGUF_MAGIC = 4" "ensure (GGUF_MAGIC = GGUF_MAGIC) InvalidFormat = Inr ()" by (simp_all add: GGUF_MAGIC_def)
  let ?rd = "bindS (read_fixed 4) (\<lambda>magic.
       bindS (liftS (ensure (magic = GGUF_MAGIC) InvalidFormat)) (\<lambda>_.
       bindS rd_u32 (\<lambda>v.
       bindS (liftS (ensure (MIN_VERSION \<le> v \<and> v \<le> MAX_VERSION) Unsupported)) (\<lambda>_.
       bindS rd_u64 (\<lambda>n.
       bindS (liftS (bounded_count n (max_tensors limits))) (\<lambda>tensor_count.
       bindS (read_metadata limits) (\<lambda>entries.
       bindS (liftS (metadata_alignment entries)) (\<lambda>alignment.
       bindS (read_tensor_infos tensor_count limits) (\<lambda>raw_tensors.
       bindS current_offset (\<lambda>pos.
       bindS (liftS (align_up pos alignment)) (\<lambda>data_base.
         retS (v, entries, alignment, raw_tensors, data_base))))))))))))"
  let ?x = "(doc_version d, m, alignment, doc_tensors d, data_base)"
  let ?pos = "0 + length GGUF_MAGIC + length (le_bytes 4 (doc_version d)) + length (le_bytes 8 (length (doc_tensors d)))
    + length (encode_metadata (doc_entries d))"
  have n: "?pos + length (concat (map encode_tensor (doc_tensors d))) = ?n" by (simp add: encode_document_def)
  have fin: "parses_at contents ?limit ?n (bindS current_offset (\<lambda>pos.
       bindS (liftS (align_up pos alignment)) (\<lambda>data_base.
         retS (doc_version d, m, alignment, doc_tensors d, data_base)))) [] ?x"
    by (rule parses_then[OF parses_offset], rule parses_then[OF parses_liftS[OF base]], rule parses_retS)
  have infos: "parses_at contents ?limit ?pos (bindS (read_tensor_infos (length (doc_tensors d)) limits) (\<lambda>raw_tensors.
       bindS current_offset (\<lambda>pos. bindS (liftS (align_up pos alignment)) (\<lambda>data_base.
         retS (doc_version d, m, alignment, raw_tensors, data_base))))) (concat (map encode_tensor (doc_tensors d)) @ []) ?x"
    unfolding read_tensor_infos_def
    by (rule parses_bind[OF parses_elements[OF ts refl]]) (use fin in \<open>simp only: n\<close>)
  have "parses_at contents ?limit 0 ?rd (encode_document d) ?x"
    unfolding encode_document_def
    by (rule parses_bind[OF parses_fixed[OF magic(1)]], rule parses_then[OF parses_liftS[OF magic(2)]],
        rule parses_bind[OF parses_unsigned(3)[OF v]], rule parses_then[OF parses_liftS[OF vr]],
        rule parses_bind[OF parses_unsigned(5)[OF nt]], rule parses_then[OF parses_liftS[OF bt]],
        rule parses_bind[OF parses_metadata[OF es m]], rule parses_then[OF parses_liftS[OF al]])
      (use infos in \<open>simp only: append_Nil2\<close>)
  moreover have "stands contents ?limit 0 (Reader_new file (length contents) ?limit)"
    using f size by (simp add: stands_def Reader_new_def)
  ultimately have "delivers (?rd (Reader_new file (length contents) ?limit)) (\<lambda>p. fst p = ?x)"
    using d pre len unfolding parses_at_def by (auto simp: encodable_document_def elim: delivers_mono)
  then show ?thesis unfolding gguf_parse_def
  proof (rule delivers_bindE)
    fix p :: "(nat \<times> (string, GgufValue) btree \<times> nat \<times> RawTensor list \<times> nat) \<times> Reader"
    assume "fst p = ?x"
    then show "delivers (case fst p of (v, entries, alignment, raw_tensors, data_base) \<Rightarrow>
       bindE (liftE (ensure (\<not> data_base > length contents) InvalidFormat)) (\<lambda>_.
       bindE (liftE (ensure (\<not> data_base > ?limit) ResourceLimit)) (\<lambda>_.
       bindE (build_tensor_records fid (length contents) data_base alignment raw_tensors) (\<lambda>tensors.
       retE \<lparr>parsed_metadata = \<lparr>gguf_version = v, gguf_alignment = alignment, gguf_entries = entries\<rparr>,
             parsed_tensors = tensors\<rparr>))))
      (\<lambda>p. gguf_version (parsed_metadata p) = doc_version d \<and> gguf_alignment (parsed_metadata p) = alignment
        \<and> gguf_entries (parsed_metadata p) = m \<and> Q (parsed_tensors p))"
      using fits by (simp add: not_less del: retE_apply) (rule delivers_bindE[OF tensors], rule delivers_retE, simp)
  qed
qed

end
