(* ===== verification/MW_GgufSamples.thy ===== *)
theory MW_GgufSamples
  imports MW_GgufCodec MW_Samples
begin

text \<open>
  A GGUF container with two metadata entries and two tensors, one of them block-packed, on which
  the properties of the reader are instantiated.
\<close>

definition sample_limits :: ResourceLimits where
  "sample_limits = \<lparr>max_header_bytes = 1000, max_tensors = 10, max_shards = 10, max_rank = 8,
     max_name_bytes = 64, max_metadata_bytes = 1000\<rparr>"

definition sample_entries :: "(string \<times> GgufValue) list" where
  "sample_entries = [(''general.alignment'', ValueU32 32), (''tags'', ValueArray (ArrayOfArray [ArrayI8 [-1, 5]]))]"

definition sample_raws :: "RawTensor list" where
  "sample_raws = [\<lparr>raw_name = ''w'', raw_dimensions = [2], raw_type = 1, raw_offset = 64\<rparr>,
     \<lparr>raw_name = ''q'', raw_dimensions = [32, 2], raw_type = 2, raw_offset = 0\<rparr>]"

definition sample_document :: GgufDocument where
  "sample_document = \<lparr>doc_version = 3, doc_entries = sample_entries, doc_tensors = sample_raws\<rparr>"

definition sample_contents :: "u8 list" where
  "sample_contents = encode_document sample_document @ replicate 99 0"

lemmas sample_doc_defs = sample_document_def sample_entries_def sample_raws_def

lemma sample_length: "length (encode_document sample_document) = 173" "length sample_contents = 272"
  by (simp_all add: sample_contents_def sample_doc_defs encode_document_def encode_metadata_def encode_entry_def
      encode_tensor_def GGUF_MAGIC_def array_bytes_def)

lemma ascii_utf8: "\<forall>c \<in> set s. (of_char c :: nat) \<le> 127 \<Longrightarrow> valid_utf8 (text_bytes s)"
  by (induction s) (auto simp: text_bytes_def unat_of_nat)

lemma sample_depth: "encodable_array MAX_METADATA_NESTING_DEPTH (ArrayOfArray [ArrayI8 [-1, 5]])"
proof -
  have depth: "MAX_METADATA_NESTING_DEPTH = Suc (Suc 62)" by (simp add: MAX_METADATA_NESTING_DEPTH_def)
  show ?thesis unfolding depth by (simp only: encodable_array.simps) (simp add: fits_int_def)
qed

lemma sample_encodable: "encodable_document sample_limits sample_document"
proof -
  have "doc_version sample_document = 3" "doc_entries sample_document = sample_entries" "doc_tensors sample_document = sample_raws"
    by (simp_all add: sample_document_def)
  then show ?thesis
    using sample_depth
    by (simp add: encodable_document_def sample_length sample_limits_def MIN_VERSION_def MAX_VERSION_def)
      (simp add: sample_entries_def sample_raws_def encodable_name_def encodable_tensor_def ascii_utf8)
qed

lemma sample_power: "is_power_of_two 32"
  by (subst power_of_two_iff) (auto intro: exI[of _ 5])

lemma sample_alignment: "metadata_alignment sample_entries = Inr 32"
  by (simp add: metadata_alignment_def sample_entries_def as_u64_def sample_power)

lemma sample_collected: "foldR (insert_unique InvalidFormat) sample_entries [] = Inr sample_entries"
  by (simp add: sample_entries_def insert_unique_def btree_insert_def)

lemma sample_base: "align_up 173 32 = Inr 192"
  by (subst align_up_Inr) (simp_all add: u64_bound_def sample_power)

definition sample_w :: TensorRecord where
  "sample_w = \<lparr>tensor_name = ''w'', tensor_shape = [2],
     tensor_storage = Plain F16 \<lparr>span_file = 0, span_offset = 256, span_length = 4\<rparr>\<rparr>"

definition sample_q :: TensorRecord where
  "sample_q = \<lparr>tensor_name = ''q'', tensor_shape = [2, 32],
     tensor_storage = Quantized \<lparr>q_schema_version = 1, q_encoding = the (ggml_encoding Q4_0), q_logical_shape = [2, 32],
       q_payload = \<lparr>span_file = 0, span_offset = 192, span_length = 36\<rparr>,
       q_packing = Blocks \<lparr>values_per_block = 32, bytes_per_block = 18, packing_order = Axis 1\<rparr>,
       q_grouping = None, q_required_companions = [], q_companions = [], q_metadata = []\<rparr>\<rparr>"

lemmas storage_eval = build_tensor_record_def sample_raws_def gguf_storage_def ggml_from_code_def Let_def
  ggml_dtype_def DType_byte_len_def checked_product_def checked_add_def checked_mul_def u64_bound_def
  SourceSpan_new_def span_end_def storage_span_def

lemma sample_w_built: "build_tensor_record 0 272 192 32 (sample_raws ! 0) = Inr sample_w"
  by (simp add: storage_eval sample_w_def)

lemma sample_q_built: "build_tensor_record 0 272 192 32 (sample_raws ! 1) = Inr sample_q"
  by (simp add: storage_eval sample_q_def checked_sub_def try_from_ok u32_bound_def BlockPacking_new_def QuantizedStorage_new_def
    builder_build_quantized_def QuantizedStorage_builder_def validate_shape_and_packing_def block_bytes_def quantized_validate_axis_def
    usize_bound_def QUANTIZED_STORAGE_SCHEMA_VERSION_def ggml_encoding_def)

lemma sample_records_built:
  "list_all2 (\<lambda>raw r. build_tensor_record 0 272 192 32 raw = Inr r) sample_raws [sample_w, sample_q]"
  using sample_w_built sample_q_built by (simp add: sample_raws_def)

lemma sample_records_apart: "sorted_wrt (\<lambda>a b. apart (record_range a) (record_range b)) [sample_w, sample_q]"
  by (simp add: apart_def record_range_def sample_w_def sample_q_def storage_span_def span_end_def u64_bound_def)

lemma sample_prefix: "take (length (encode_document sample_document)) sample_contents = encode_document sample_document"
  by (simp add: sample_contents_def)

lemma sample_size: "length sample_contents < u64_bound"
  by (simp add: sample_length u64_bound_def)

lemma sample_parsed:
  "delivers (gguf_parse (whole_file sample_contents) 0 272 sample_limits) (\<lambda>p.
     gguf_version (parsed_metadata p) = 3 \<and> gguf_alignment (parsed_metadata p) = 32
     \<and> gguf_entries (parsed_metadata p) = sample_entries \<and> parsed_tensors p = [sample_w, sample_q])"
proof -
  have d: "doc_version sample_document = 3" "doc_entries sample_document = sample_entries" "doc_tensors sample_document = sample_raws"
    by (simp_all add: sample_document_def)
  have t: "delivers (build_tensor_records 0 (length sample_contents) 192 32 sample_raws) (\<lambda>v. v = [sample_w, sample_q])"
    unfolding sample_length by (rule build_tensor_records_complete[OF sample_records_built sample_records_apart])
  show ?thesis
    using gguf_parse_document[OF sample_encodable whole_file_reads[of sample_contents] sample_size sample_prefix, unfolded d,
        OF _ sample_collected sample_alignment _ _ _ t]
    by (simp add: sample_length sample_base sample_limits_def)
qed

definition sample_file :: FileRecord where
  "sample_file = \<lparr>file_id = 0, file_path = ''model.gguf'', file_bytes = 272, file_kind = Local, file_digest = Deferred\<rparr>"

lemma sample_inventory: "\<exists>invt. Inventory_new [sample_file] [sample_w, sample_q] = Inr invt"
proof -
  have s: "sort_key tensor_name [sample_w, sample_q] = [sample_q, sample_w]" by (simp add: sample_w_def sample_q_def)
  have "validate_inventory_tensor [sample_file] sample_w = Inr ()" "validate_inventory_tensor [sample_file] sample_q = Inr ()"
    by (simp_all add: validate_inventory_tensor_def validate_inventory_span_def sample_w_def sample_q_def sample_file_def storage_eval
        try_from_ok usize_bound_def)
  then show ?thesis unfolding Inventory_new_def s
    by (simp add: validate_inventory_file_def sample_file_def try_from_ok u32_bound_def sample_w_def sample_q_def)
qed

lemma sample_packed:
  "\<exists>b q blk. builder_build_quantized b = Inr q \<and> q_packing q = Blocks blk \<and> BlockPacking_try_from blk = Inr blk
     \<and> span_length (q_payload q) = 36"
proof -
  let ?blk = "\<lparr>values_per_block = 32, bytes_per_block = 18, packing_order = Axis 1\<rparr>"
  let ?b = "QuantizedStorage_builder (the (ggml_encoding Q4_0)) [2, 32] \<lparr>span_file = 0, span_offset = 192, span_length = 36\<rparr> (Blocks ?blk)"
  have "\<exists>q. builder_build_quantized ?b = Inr q \<and> q_packing q = Blocks ?blk \<and> span_length (q_payload q) = 36"
    by (simp add: builder_build_quantized_def QuantizedStorage_builder_def validate_shape_and_packing_def block_bytes_def
        quantized_validate_axis_def storage_eval try_from_ok usize_bound_def)
  moreover have "BlockPacking_try_from ?blk = Inr ?blk" by (simp add: BlockPacking_try_from_def BlockPacking_new_def)
  ultimately show ?thesis by blast
qed

definition sample_capability :: "nat \<Rightarrow> RouteCapability" where
  "sample_capability v = \<lparr>source_encoding = \<lparr>provider = ''ggml'', operation_name = ''q4_0'', version = v\<rparr>, route = HostDequant F32,
     hook = \<lparr>provider = ''host'', operation_name = ''dequant'', version = v\<rparr>, backend = None, target_layout = None\<rparr>"

end
