(* ===== verification/MW_Pipeline.thy ===== *)
theory MW_Pipeline
  imports MW_Limits MW_Ordered
begin

text \<open>
  pipeline.rs and the report of telemetry.rs: weighted budgets, the dispatch window, the thread
  that dispatches work, the workers, and the coordinator that delivers results in ordinal order.
  Every thread is a function that performs one access to the shared state, or none when the
  thread waits; \<open>pipeline_step\<close> interleaves them. Observers and durations are left out.
\<close>

section \<open>Weights\<close>

record ResourceWeights =
  weight_source :: nat
  weight_scratch :: nat
  weight_prepared :: nat

definition ResourceWeights_new :: "nat \<Rightarrow> nat \<Rightarrow> nat \<Rightarrow> ResourceWeights" where
  "ResourceWeights_new source scratch prepared =
     \<lparr>weight_source = source, weight_scratch = scratch, weight_prepared = prepared\<rparr>"

abbreviation no_weights :: ResourceWeights where
  "no_weights \<equiv> ResourceWeights_new 0 0 0"

text \<open>
  The code subtracts without a check in \<open>fits\<close>; the used bytes never exceed the limit
  (\<open>budget_ok\<close> below), so the difference is exact.
\<close>

definition fits_budget :: "ResourceWeights \<Rightarrow> ResourceWeights \<Rightarrow> ResourceWeights \<Rightarrow> bool" where
  "fits_budget used requested limit \<longleftrightarrow>
     weight_source requested \<le> weight_source limit - weight_source used
   \<and> weight_scratch requested \<le> weight_scratch limit - weight_scratch used
   \<and> weight_prepared requested \<le> weight_prepared limit - weight_prepared used"

definition add_weights :: "ResourceWeights \<Rightarrow> ResourceWeights \<Rightarrow> ResourceWeights" where
  "add_weights l r = ResourceWeights_new (weight_source l + weight_source r)
     (weight_scratch l + weight_scratch r) (weight_prepared l + weight_prepared r)"

definition subtract_weights :: "ResourceWeights \<Rightarrow> ResourceWeights \<Rightarrow> ResourceWeights" where
  "subtract_weights l r = ResourceWeights_new (weight_source l - weight_source r)
     (weight_scratch l - weight_scratch r) (weight_prepared l - weight_prepared r)"

definition max_weights :: "ResourceWeights \<Rightarrow> ResourceWeights \<Rightarrow> ResourceWeights" where
  "max_weights l r = ResourceWeights_new
     (if weight_source l > weight_source r then weight_source l else weight_source r)
     (if weight_scratch l > weight_scratch r then weight_scratch l else weight_scratch r)
     (if weight_prepared l > weight_prepared r then weight_prepared l else weight_prepared r)"

section \<open>Budgets and permits\<close>

record ResourceBudget =
  budget_limit :: ResourceWeights
  budget_used :: ResourceWeights
  budget_peaks :: ResourceWeights

definition ResourceBudget_new :: "ExecutionLimits \<Rightarrow> ResourceBudget" where
  "ResourceBudget_new limits =
     \<lparr>budget_limit = ResourceWeights_new (source_bytes limits) (scratch_bytes limits) (prepared_bytes limits),
      budget_used = no_weights, budget_peaks = no_weights\<rparr>"

text \<open>
  One pass of the loop in \<open>acquire\<close>: refuse, take the request, or wait (\<open>None\<close>) and try again
  later. A permit is its reserved weights.
\<close>

definition budget_acquire :: "ResourceWeights \<Rightarrow> bool \<Rightarrow> ResourceBudget \<Rightarrow> ResourceBudget result option" where
  "budget_acquire requested cancelled b =
     (if cancelled then Some (Inl Cancelled)
      else if \<not> fits_budget no_weights requested (budget_limit b) then Some (Inl ResourceLimit)
      else if fits_budget (budget_used b) requested (budget_limit b) then
        (let used = add_weights (budget_used b) requested in
          Some (Inr (b\<lparr>budget_used := used, budget_peaks := max_weights (budget_peaks b) used\<rparr>)))
      else None)"

definition budget_release :: "ResourceWeights \<Rightarrow> ResourceBudget \<Rightarrow> ResourceBudget" where
  "budget_release released b = b\<lparr>budget_used := subtract_weights (budget_used b) released\<rparr>"

type_synonym ResourcePermit = ResourceWeights

definition release_prepared :: "ResourcePermit \<Rightarrow> ResourceBudget \<Rightarrow> ResourcePermit \<times> ResourceBudget" where
  "release_prepared permit b =
     (permit\<lparr>weight_prepared := 0\<rparr>, budget_release (ResourceWeights_new 0 0 (weight_prepared permit)) b)"

definition split_prepared :: "ResourcePermit \<Rightarrow> ResourcePermit \<times> ResourcePermit option" where
  "split_prepared permit = (permit\<lparr>weight_prepared := 0\<rparr>,
     if weight_prepared permit > 0 then Some (ResourceWeights_new 0 0 (weight_prepared permit)) else None)"

definition retain_prepared :: "nat \<Rightarrow> ResourcePermit \<Rightarrow> ResourceBudget \<Rightarrow> ResourcePermit \<times> ResourceBudget" where
  "retain_prepared bytes permit b =
     (let retained = ResourceWeights_new 0 0 (min (weight_prepared permit) bytes) in
       (retained, budget_release (subtract_weights permit retained) b))"

definition drop_permits :: "ResourcePermit list \<Rightarrow> ResourceBudget \<Rightarrow> ResourceBudget" where
  "drop_permits permits b = fold budget_release permits b"

record OutputReservation =
  reservation_initial :: ResourcePermit
  reservation_promoted :: "ResourcePermit list"

fun retain_promoted :: "nat \<Rightarrow> ResourcePermit list \<Rightarrow> ResourceBudget \<Rightarrow> ResourcePermit list \<times> ResourceBudget" where
  "retain_promoted remaining [] b = ([], b)"
| "retain_promoted remaining (p # ps) b =
     (let retained = min (weight_prepared p) remaining;
          b = budget_release (subtract_weights p (ResourceWeights_new 0 0 retained)) b;
          (ps, b) = retain_promoted (remaining - retained) ps b
      in (ResourceWeights_new 0 0 retained # ps, b))"

definition OutputReservation_retain_prepared ::
    "nat \<Rightarrow> OutputReservation \<Rightarrow> ResourceBudget \<Rightarrow> OutputReservation \<times> ResourceBudget" where
  "OutputReservation_retain_prepared bytes r b =
     (let (initial, b) = retain_prepared bytes (reservation_initial r) b;
          (promoted, b) = retain_promoted (bytes - weight_prepared initial) (reservation_promoted r) b
      in (\<lparr>reservation_initial = initial, reservation_promoted = promoted\<rparr>, b))"

record DispatchWindow =
  window_limit :: nat
  window_used :: nat

definition window_acquire :: "bool \<Rightarrow> DispatchWindow \<Rightarrow> DispatchWindow result option" where
  "window_acquire cancelled w =
     (if cancelled then Some (Inl Cancelled)
      else if window_used w < window_limit w then Some (Inr (w\<lparr>window_used := window_used w + 1\<rparr>))
      else None)"

definition window_release :: "DispatchWindow \<Rightarrow> DispatchWindow" where
  "window_release w = w\<lparr>window_used := window_used w - 1\<rparr>"

section \<open>Work and reports\<close>

record 't WorkItem =
  item_ordinal :: nat
  item_value :: 't
  item_resources :: ResourceWeights

record 'u PreparedItem =
  prepared_value :: 'u
  prepared_size :: nat

definition collect_step ::
    "nat \<Rightarrow> 't WorkItem \<Rightarrow> 't WorkItem list \<Rightarrow> 't WorkItem list exec" where
  "collect_step maximum item collected =
     bindE check (\<lambda>_.
     bindE (liftE (ensure (\<not> length collected \<ge> maximum) ResourceLimit)) (\<lambda>_.
     bindE (try_reserve 1) (\<lambda>_. retE (collected @ [item]))))"

definition collect_bounded_work :: "'t WorkItem list \<Rightarrow> nat \<Rightarrow> 't WorkItem list exec" where
  "collect_bounded_work work maximum =
     bindE check (\<lambda>_.
     bindE (foldE (collect_step maximum) work []) (\<lambda>collected.
     bindE check (\<lambda>_. retE collected)))"

definition validate_item :: "ExecutionLimits \<Rightarrow> 't WorkItem \<Rightarrow> nat list \<Rightarrow> nat list result" where
  "validate_item limits item ordinals =
     bindR (ensure (item_ordinal item \<notin> set ordinals) Delivery) (\<lambda>_.
     let r = item_resources item in
     bindR (ensure (\<not> (weight_source r > source_bytes limits \<or> weight_scratch r > scratch_bytes limits
         \<or> weight_prepared r > prepared_bytes limits)) ResourceLimit) (\<lambda>_.
       Inr (item_ordinal item # ordinals)))"

definition validate_work :: "'t WorkItem list \<Rightarrow> ExecutionLimits \<Rightarrow> unit result" where
  "validate_work work limits = bindR (foldR (validate_item limits) work []) (\<lambda>_. Inr ())"

record ExecutionCounters =
  submitted_count :: nat
  prepared_count :: nat
  delivered_count :: nat
  failed_count :: nat
  delivered_total :: nat

record ExecutionReport =
  report_counters :: ExecutionCounters
  report_peaks :: ResourceWeights
  report_depth :: nat

definition report_new :: "nat \<Rightarrow> ExecutionReport" where
  "report_new submitted = \<lparr>report_counters = \<lparr>submitted_count = (if submitted < u64_bound then submitted else u64_bound - 1),
      prepared_count = 0, delivered_count = 0, failed_count = 0, delivered_total = 0\<rparr>,
     report_peaks = no_weights, report_depth = 0\<rparr>"

definition report_prepared :: "ExecutionReport \<Rightarrow> ExecutionReport" where
  "report_prepared r = r\<lparr>report_counters := (report_counters r)\<lparr>prepared_count :=
     saturating_add (prepared_count (report_counters r)) 1\<rparr>\<rparr>"

definition report_delivered :: "nat \<Rightarrow> ExecutionReport \<Rightarrow> ExecutionReport" where
  "report_delivered bytes r = r\<lparr>report_counters := (report_counters r)\<lparr>
     delivered_count := saturating_add (delivered_count (report_counters r)) 1,
     delivered_total := saturating_add (delivered_total (report_counters r)) bytes\<rparr>\<rparr>"

definition report_failed :: "ExecutionReport \<Rightarrow> ExecutionReport" where
  "report_failed r = r\<lparr>report_counters := (report_counters r)\<lparr>failed_count :=
     saturating_add (failed_count (report_counters r)) 1\<rparr>\<rparr>"

definition observe_delivery_queue_depth :: "nat \<Rightarrow> ExecutionReport \<Rightarrow> ExecutionReport" where
  "observe_delivery_queue_depth depth r = (if depth > report_depth r then r\<lparr>report_depth := depth\<rparr> else r)"

definition report_finish :: "ResourceWeights \<Rightarrow> ExecutionReport \<Rightarrow> ExecutionReport" where
  "report_finish peaks r = r\<lparr>report_peaks := peaks\<rparr>"

section \<open>Preparation callbacks\<close>

text \<open>
  A callback is a parameter of the pipeline. It may look at the cancellation flag, run an inner
  part under additional resources (\<open>PrepareContext::with_resources\<close>) and use its result, and
  finally return. The value type also carries the results of inner parts.
\<close>

datatype 'u prep =
    Finish "'u PreparedItem result"
  | Poll "bool \<Rightarrow> 'u prep"
  | Require ResourceWeights "'u prep" "'u PreparedItem result \<Rightarrow> 'u prep"

record PrepareContext =
  ctx_ordinal :: nat
  ctx_initial :: ResourcePermit
  ctx_reserved :: ResourceWeights
  ctx_promoted :: "ResourcePermit list"

definition PrepareContext_new :: "nat \<Rightarrow> ResourcePermit \<Rightarrow> PrepareContext" where
  "PrepareContext_new ordinal permit =
     \<lparr>ctx_ordinal = ordinal, ctx_initial = permit, ctx_reserved = permit, ctx_promoted = []\<rparr>"

text \<open>What happens to the result of an inner part: nothing, or the end of \<open>with_resources\<close>.\<close>

datatype 'u pframe =
    Direct "'u PreparedItem result \<Rightarrow> 'u prep"
  | Held ResourcePermit ResourceWeights nat "'u PreparedItem result \<Rightarrow> 'u prep"

record 'u WorkerOutput =
  output_ordinal :: nat
  output_result :: "'u PreparedItem result"
  output_reservation :: "OutputReservation option"

record 't QueuedWork =
  queued_item :: "'t WorkItem"
  queued_reservation :: ResourcePermit

datatype ('t, 'u) worker =
    Idle
  | Starting PrepareContext 't
  | Preparing PrepareContext "'u prep" "'u pframe list"
  | Acquiring PrepareContext ResourceWeights ResourceWeights "'u prep" "'u PreparedItem result \<Rightarrow> 'u prep" "'u pframe list"
  | Sending "'u WorkerOutput"
  | Stopped

text \<open>The part of \<open>with_resources\<close> before the additional resources are acquired.\<close>

definition with_resources_begin ::
    "ResourceWeights \<Rightarrow> PrepareContext \<Rightarrow> ResourceBudget \<Rightarrow> (PrepareContext \<times> ResourceWeights \<times> ResourceBudget) option" where
  "with_resources_begin required ctx b =
     (let missing = subtract_weights required (ctx_reserved ctx) in
      if missing = no_weights then None
      else if weight_prepared missing > 0 then
        (let (initial, b) = release_prepared (ctx_initial ctx) b;
             b = drop_permits (ctx_promoted ctx) b;
             ctx = ctx\<lparr>ctx_initial := initial, ctx_promoted := [],
               ctx_reserved := (ctx_reserved ctx)\<lparr>weight_prepared := 0\<rparr>\<rparr>
         in Some (ctx, subtract_weights required (ctx_reserved ctx), b))
      else Some (ctx, missing, b))"

text \<open>The part between the acquisition of the missing resources and the inner part.\<close>

definition with_resources_acquired ::
    "ResourceWeights \<Rightarrow> ResourceWeights \<Rightarrow> ('u PreparedItem result \<Rightarrow> 'u prep) \<Rightarrow> PrepareContext \<Rightarrow> PrepareContext \<times> 'u pframe" where
  "with_resources_acquired required missing k ctx =
     (let previous = ctx_reserved ctx;
          previous_promotions = length (ctx_promoted ctx);
          (reservation, promoted) = split_prepared missing
      in (ctx\<lparr>ctx_promoted := ctx_promoted ctx @ (case promoted of None \<Rightarrow> [] | Some p \<Rightarrow> [p]),
              ctx_reserved := max_weights (ctx_reserved ctx) required\<rparr>,
          Held reservation previous previous_promotions k))"

text \<open>The part after the inner part, which returned the given result.\<close>

definition with_resources_end ::
    "'u PreparedItem result \<Rightarrow> ResourcePermit \<Rightarrow> ResourceWeights \<Rightarrow> nat \<Rightarrow> PrepareContext \<Rightarrow> ResourceBudget
       \<Rightarrow> PrepareContext \<times> ResourceBudget" where
  "with_resources_end r reservation previous previous_promotions ctx b =
     (let (ctx, b) = (case r of
          Inr _ \<Rightarrow> (ctx\<lparr>ctx_reserved := ResourceWeights_new (weight_source previous) (weight_scratch previous)
              (weight_prepared (ctx_reserved ctx))\<rparr>, b)
        | Inl _ \<Rightarrow> (ctx\<lparr>ctx_promoted := take previous_promotions (ctx_promoted ctx), ctx_reserved := previous\<rparr>,
              drop_permits (drop previous_promotions (ctx_promoted ctx)) b))
      in (ctx, budget_release reservation b))"

text \<open>The end of an iteration of \<open>worker_loop\<close>: the output, which keeps only prepared bytes.\<close>

definition worker_output ::
    "'u PreparedItem result \<Rightarrow> PrepareContext \<Rightarrow> ResourceBudget \<Rightarrow> 'u WorkerOutput \<times> ResourceBudget" where
  "worker_output r ctx b =
     (let r = bindR r (\<lambda>prepared.
            if prepared_size prepared > weight_prepared (ctx_reserved ctx) then Inl ResourceLimit else Inr prepared)
      in case r of
        Inr prepared \<Rightarrow>
          (let (reservation, b) = OutputReservation_retain_prepared (prepared_size prepared)
                 \<lparr>reservation_initial = ctx_initial ctx, reservation_promoted = ctx_promoted ctx\<rparr> b
           in (\<lparr>output_ordinal = ctx_ordinal ctx, output_result = r, output_reservation = Some reservation\<rparr>, b))
      | Inl _ \<Rightarrow> (\<lparr>output_ordinal = ctx_ordinal ctx, output_result = r, output_reservation = None\<rparr>,
          drop_permits (ctx_initial ctx # ctx_promoted ctx) b))"

section \<open>Threads\<close>

datatype 't dispatcher = Next | AwaitWindow "'t WorkItem" | AwaitBudget "'t WorkItem" | Send "'t QueuedWork" | Exited

datatype coordinator = Receive | Deliver | Leave "ErrorCategory option" | Returned "unit result"

text \<open>The parameters of an execution: limits, callbacks, the sorted ordinals and the number of workers.\<close>

record ('t, 'u, 's) config =
  cfg_limits :: ExecutionLimits
  cfg_prepare :: "'t \<Rightarrow> 'u prep"
  cfg_sink :: "'s \<Rightarrow> nat \<Rightarrow> 'u PreparedItem \<Rightarrow> bool \<Rightarrow> unit result \<times> 's"
  cfg_ordinals :: "nat list"
  cfg_workers :: nat

text \<open>
  The shared state: the cancellation flag, the budget, the window, the local state of every thread
  and the two bounded channels. \<open>st_log\<close> records the items that the sink accepted.
\<close>

record ('t, 'u, 's) pstate =
  st_cancelled :: bool
  st_budget :: ResourceBudget
  st_window :: DispatchWindow
  st_work :: "'t WorkItem list"
  st_dispatcher :: "'t dispatcher"
  st_queue :: "'t QueuedWork list"
  st_workers :: "('t, 'u) worker list"
  st_results :: "'u WorkerOutput list"
  st_coordinator :: coordinator
  st_pending :: "(nat, 'u WorkerOutput) btree"
  st_next :: nat
  st_report :: ExecutionReport
  st_sink :: 's
  st_log :: "(nat \<times> 'u PreparedItem) list"

text \<open>Dropping a queued item or an output releases its permits.\<close>

definition reservation_permits :: "OutputReservation option \<Rightarrow> ResourcePermit list" where
  "reservation_permits r = (case r of None \<Rightarrow> [] | Some r \<Rightarrow> reservation_initial r # reservation_promoted r)"

definition release_all :: "ResourcePermit list \<Rightarrow> ('t, 'u, 's) pstate \<Rightarrow> ('t, 'u, 's) pstate" where
  "release_all permits s = s\<lparr>st_budget := drop_permits permits (st_budget s), st_window := window_release (st_window s)\<rparr>"

definition drop_output :: "'u WorkerOutput \<Rightarrow> ('t, 'u, 's) pstate \<Rightarrow> ('t, 'u, 's) pstate" where
  "drop_output out = release_all (reservation_permits (output_reservation out))"

definition dispatcher_step :: "('t, 'u, 's) config \<Rightarrow> ('t, 'u, 's) pstate \<Rightarrow> ('t, 'u, 's) pstate option" where
  "dispatcher_step cfg s = (case st_dispatcher s of
     Next \<Rightarrow> (case st_work s of
         [] \<Rightarrow> Some (s\<lparr>st_dispatcher := Exited\<rparr>)
       | item # rest \<Rightarrow>
           if st_cancelled s then Some (s\<lparr>st_work := [], st_dispatcher := Exited\<rparr>)
           else Some (s\<lparr>st_work := rest, st_dispatcher := AwaitWindow item\<rparr>))
   | AwaitWindow item \<Rightarrow> (case window_acquire (st_cancelled s) (st_window s) of
         None \<Rightarrow> None
       | Some (Inl _) \<Rightarrow> Some (s\<lparr>st_work := [], st_dispatcher := Exited\<rparr>)
       | Some (Inr w) \<Rightarrow> Some (s\<lparr>st_window := w, st_dispatcher := AwaitBudget item\<rparr>))
   | AwaitBudget item \<Rightarrow> (case budget_acquire (item_resources item) (st_cancelled s) (st_budget s) of
         None \<Rightarrow> None
       | Some (Inl _) \<Rightarrow> Some (release_all [] (s\<lparr>st_work := [], st_dispatcher := Exited\<rparr>))
       | Some (Inr b) \<Rightarrow> Some (s\<lparr>st_budget := b,
           st_dispatcher := Send \<lparr>queued_item = item, queued_reservation = item_resources item\<rparr>\<rparr>))
   | Send q \<Rightarrow>
       if \<forall>w \<in> set (st_workers s). w = Stopped then
         Some (release_all [queued_reservation q] (s\<lparr>st_work := [], st_dispatcher := Exited\<rparr>))
       else if length (st_queue s) < cfg_workers cfg then
         Some (s\<lparr>st_queue := st_queue s @ [q], st_dispatcher := Next\<rparr>)
       else None
   | Exited \<Rightarrow> None)"

definition set_worker :: "nat \<Rightarrow> ('t, 'u) worker \<Rightarrow> ('t, 'u, 's) pstate \<Rightarrow> ('t, 'u, 's) pstate" where
  "set_worker i w s = s\<lparr>st_workers := (st_workers s)[i := w]\<rparr>"

definition worker_step :: "('t, 'u, 's) config \<Rightarrow> nat \<Rightarrow> ('t, 'u, 's) pstate \<Rightarrow> ('t, 'u, 's) pstate option" where
  "worker_step cfg i s = (case st_workers s ! i of
     Idle \<Rightarrow> (case st_queue s of
         q # qs \<Rightarrow> Some (set_worker i (Starting (PrepareContext_new (item_ordinal (queued_item q)) (queued_reservation q))
             (item_value (queued_item q))) (s\<lparr>st_queue := qs\<rparr>))
       | [] \<Rightarrow> if st_dispatcher s = Exited then Some (set_worker i Stopped s) else None)
   | Starting ctx v \<Rightarrow> Some (set_worker i (Preparing ctx
         (if st_cancelled s then Finish (Inl Cancelled) else cfg_prepare cfg v) []) s)
   | Preparing ctx (Poll k) frames \<Rightarrow> Some (set_worker i (Preparing ctx (k (st_cancelled s)) frames) s)
   | Preparing ctx (Require required body k) frames \<Rightarrow>
       (case with_resources_begin required ctx (st_budget s) of
         None \<Rightarrow> Some (set_worker i (Preparing ctx body (Direct k # frames)) s)
       | Some (ctx, missing, b) \<Rightarrow>
           Some (set_worker i (Acquiring ctx required missing body k frames) (s\<lparr>st_budget := b\<rparr>)))
   | Acquiring ctx required missing body k frames \<Rightarrow>
       (case budget_acquire missing (st_cancelled s) (st_budget s) of
         None \<Rightarrow> None
       | Some (Inl e) \<Rightarrow> Some (set_worker i (Preparing ctx (k (Inl e)) frames) s)
       | Some (Inr b) \<Rightarrow> (let (ctx, frame) = with_resources_acquired required missing k ctx in
           Some (set_worker i (Preparing ctx body (frame # frames)) (s\<lparr>st_budget := b\<rparr>))))
   | Preparing ctx (Finish r) (Direct k # frames) \<Rightarrow> Some (set_worker i (Preparing ctx (k r) frames) s)
   | Preparing ctx (Finish r) (Held reservation previous promotions k # frames) \<Rightarrow>
       (let (ctx, b) = with_resources_end r reservation previous promotions ctx (st_budget s) in
         Some (set_worker i (Preparing ctx (k r) frames) (s\<lparr>st_budget := b\<rparr>)))
   | Preparing ctx (Finish r) [] \<Rightarrow>
       (let (out, b) = worker_output r ctx (st_budget s) in
         Some (set_worker i (Sending out) (s\<lparr>st_budget := b\<rparr>)))
   | Sending out \<Rightarrow>
       (case st_coordinator s of
         Returned _ \<Rightarrow> Some (drop_output out (set_worker i Stopped s))
       | _ \<Rightarrow> if length (st_results s) < delivery_queue_depth (cfg_limits cfg)
           then Some (set_worker i Idle (s\<lparr>st_results := st_results s @ [out]\<rparr>))
           else None)
   | Stopped \<Rightarrow> None)"

text \<open>The allocation of a prepared permit may fail before the resources are acquired.\<close>

definition worker_exhausted :: "nat \<Rightarrow> ('t, 'u, 's) pstate \<Rightarrow> ('t, 'u, 's) pstate option" where
  "worker_exhausted i s = (case st_workers s ! i of
     Acquiring ctx required missing body k frames \<Rightarrow>
       if weight_prepared missing > 0 then Some (set_worker i (Preparing ctx (k (Inl ResourceLimit)) frames) s) else None
   | _ \<Rightarrow> None)"

definition deliver_output ::
    "('t, 'u, 's) config \<Rightarrow> 'u WorkerOutput \<Rightarrow> ('t, 'u, 's) pstate \<Rightarrow> unit result \<times> ('t, 'u, 's) pstate" where
  "deliver_output cfg out s = (case output_result out of
     Inl e \<Rightarrow> (Inl e, drop_output out s)
   | Inr prepared \<Rightarrow>
       (let (delivered, sink) = cfg_sink cfg (st_sink s) (output_ordinal out) prepared (st_cancelled s);
            s = s\<lparr>st_sink := sink\<rparr>
        in case delivered of
          Inl e \<Rightarrow> (Inl e, drop_output out (s\<lparr>st_report := report_failed (st_report s)\<rparr>))
        | Inr _ \<Rightarrow> (Inr (), drop_output out (s\<lparr>st_report := report_delivered (prepared_size prepared) (st_report s),
            st_log := st_log s @ [(output_ordinal out, prepared)]\<rparr>))))"

definition pending_remove :: "nat \<Rightarrow> (nat, 'u WorkerOutput) btree \<Rightarrow> (nat, 'u WorkerOutput) btree" where
  "pending_remove ordinal pending = filter (\<lambda>p. fst p \<noteq> ordinal) pending"

definition observe_depth :: "('t, 'u, 's) pstate \<Rightarrow> ('t, 'u, 's) pstate" where
  "observe_depth s = s\<lparr>st_report := observe_delivery_queue_depth (length (st_pending s)) (st_report s)\<rparr>"

definition coordinator_step :: "('t, 'u, 's) config \<Rightarrow> ('t, 'u, 's) pstate \<Rightarrow> ('t, 'u, 's) pstate option" where
  "coordinator_step cfg s = (case st_coordinator s of
     Receive \<Rightarrow>
       if \<not> st_next s < length (cfg_ordinals cfg) then Some (s\<lparr>st_coordinator := Leave None\<rparr>)
       else (case st_results s of
         out # rest \<Rightarrow>
           (let s = s\<lparr>st_results := rest, st_report :=
                  (case output_result out of Inr _ \<Rightarrow> report_prepared (st_report s) | Inl _ \<Rightarrow> report_failed (st_report s))\<rparr>
            in case map_of (st_pending s) (output_ordinal out) of
              Some previous \<Rightarrow> Some (drop_output previous (s\<lparr>st_cancelled := True,
                  st_pending := btree_insert (output_ordinal out) out (st_pending s), st_coordinator := Leave (Some Delivery)\<rparr>))
            | None \<Rightarrow> Some (s\<lparr>st_pending := btree_insert (output_ordinal out) out (st_pending s), st_coordinator := Deliver\<rparr>))
       | [] \<Rightarrow> if \<forall>w \<in> set (st_workers s). w = Stopped then Some (s\<lparr>st_coordinator := Leave None\<rparr>) else None)
   | Deliver \<Rightarrow>
       (case (if st_next s < length (cfg_ordinals cfg) then map_of (st_pending s) (cfg_ordinals cfg ! st_next s) else None) of
         None \<Rightarrow> Some (observe_depth (s\<lparr>st_coordinator := Receive\<rparr>))
       | Some out \<Rightarrow>
           (case deliver_output cfg out (s\<lparr>st_pending := pending_remove (cfg_ordinals cfg ! st_next s) (st_pending s)\<rparr>) of
             (Inr _, s) \<Rightarrow> Some (s\<lparr>st_next := st_next s + 1\<rparr>)
           | (Inl e, s) \<Rightarrow> Some (observe_depth (s\<lparr>st_cancelled := True, st_coordinator := Leave (Some e)\<rparr>))))
   | Leave e \<Rightarrow>
       (let s = fold (\<lambda>p. drop_output (snd p)) (st_pending s) (s\<lparr>st_pending := []\<rparr>) in
        case e of
          Some e \<Rightarrow> Some (s\<lparr>st_coordinator := Returned (Inl e)\<rparr>)
        | None \<Rightarrow> if st_next s = length (cfg_ordinals cfg) then Some (s\<lparr>st_coordinator := Returned (Inr ())\<rparr>)
            else Some (s\<lparr>st_cancelled := True, st_coordinator := Returned (Inl Cancelled)\<rparr>))
   | Returned _ \<Rightarrow> None)"

section \<open>Executions\<close>

text \<open>One step of any thread, or the cancellation of the token by anyone who holds it.\<close>

inductive pipeline_step :: "('t, 'u, 's) config \<Rightarrow> ('t, 'u, 's) pstate \<Rightarrow> ('t, 'u, 's) pstate \<Rightarrow> bool" for cfg where
  dispatch: "dispatcher_step cfg s = Some s' \<Longrightarrow> pipeline_step cfg s s'"
| work: "i < length (st_workers s) \<Longrightarrow> worker_step cfg i s = Some s' \<Longrightarrow> pipeline_step cfg s s'"
| exhausted: "i < length (st_workers s) \<Longrightarrow> worker_exhausted i s = Some s' \<Longrightarrow> pipeline_step cfg s s'"
| coordinate: "coordinator_step cfg s = Some s' \<Longrightarrow> pipeline_step cfg s s'"
| cancel: "\<not> st_cancelled s \<Longrightarrow> pipeline_step cfg s (s\<lparr>st_cancelled := True\<rparr>)"

text \<open>The part of \<open>execute\<close> before the threads are started: the accepted work in ordinal order.\<close>

definition accept_work :: "ExecutionLimits \<Rightarrow> 't WorkItem list \<Rightarrow> 't WorkItem list exec" where
  "accept_work limits work =
     bindE (liftE (ExecutionLimits_validate limits)) (\<lambda>_.
     bindE (collect_bounded_work work (max_work_items limits)) (\<lambda>work.
     let work = sort_key item_ordinal work in
     bindE (liftE (validate_work work limits)) (\<lambda>_. retE work)))"

definition worker_count :: "ExecutionLimits \<Rightarrow> 't WorkItem list \<Rightarrow> nat" where
  "worker_count limits work = min (min (workers limits) (dispatch_lookahead limits)) (length work)"

definition execution_config ::
    "ExecutionLimits \<Rightarrow> ('t \<Rightarrow> 'u prep) \<Rightarrow> ('s \<Rightarrow> nat \<Rightarrow> 'u PreparedItem \<Rightarrow> bool \<Rightarrow> unit result \<times> 's)
       \<Rightarrow> 't WorkItem list \<Rightarrow> ('t, 'u, 's) config" where
  "execution_config limits prepare sink work = \<lparr>cfg_limits = limits, cfg_prepare = prepare, cfg_sink = sink,
     cfg_ordinals = map item_ordinal work, cfg_workers = worker_count limits work\<rparr>"

definition start_execution :: "ExecutionLimits \<Rightarrow> 't WorkItem list \<Rightarrow> 's \<Rightarrow> ('t, 'u, 's) pstate" where
  "start_execution limits work sink =
     \<lparr>st_cancelled = False, st_budget = ResourceBudget_new limits,
      st_window = \<lparr>window_limit = dispatch_lookahead limits, window_used = 0\<rparr>,
      st_work = work, st_dispatcher = Next, st_queue = [],
      st_workers = replicate (worker_count limits work) Idle, st_results = [],
      st_coordinator = Receive, st_pending = [], st_next = 0,
      st_report = report_new (length work), st_sink = sink, st_log = []\<rparr>"

text \<open>The threads are joined when all of them ended.\<close>

definition joined :: "('t, 'u, 's) pstate \<Rightarrow> bool" where
  "joined s \<longleftrightarrow> st_dispatcher s = Exited \<and> (\<forall>w \<in> set (st_workers s). w = Stopped)
     \<and> (case st_coordinator s of Returned _ \<Rightarrow> True | _ \<Rightarrow> False)"

definition execution_result :: "('t, 'u, 's) pstate \<Rightarrow> ExecutionReport result option" where
  "execution_result s = (case st_coordinator s of
     Returned r \<Rightarrow> Some (bindR r (\<lambda>_. Inr (report_finish (budget_peaks (st_budget s)) (st_report s))))
   | _ \<Rightarrow> None)"

text \<open>
  \<open>execute\<close> returns a report at once when there is no work, and otherwise the work for the threads.
\<close>

definition begin_execution :: "ExecutionLimits \<Rightarrow> 't WorkItem list \<Rightarrow> (ExecutionReport + 't WorkItem list) exec" where
  "begin_execution limits work =
     bindE (accept_work limits work) (\<lambda>work.
       if work = [] then retE (Inl (report_finish no_weights (report_new 0)))
       else bindE check (\<lambda>_. retE (Inr work)))"

end
