(* ===== verification/MW_PipelineBudget.thy ===== *)
theory MW_PipelineBudget
  imports MW_Pipeline "HOL-Library.Multiset"
begin

text \<open>
  The budgets of the pipeline: in every state that a run can reach, the used weights are exactly
  the sum of all permits that threads, channels and the coordinator hold, and stay within the
  limits; the window counts exactly the items in flight.
\<close>

section \<open>Permits and budgets\<close>

definition dims :: "(ResourceWeights \<Rightarrow> nat) set" where
  "dims = {weight_source, weight_scratch, weight_prepared}"

lemma dims_all: "(\<forall>f \<in> dims. P f) \<longleftrightarrow> P weight_source \<and> P weight_scratch \<and> P weight_prepared"
  by (simp add: dims_def)

lemma weights_new [simp]:
  "weight_source (ResourceWeights_new a b c) = a" "weight_scratch (ResourceWeights_new a b c) = b"
  "weight_prepared (ResourceWeights_new a b c) = c"
  by (simp_all add: ResourceWeights_new_def)

lemma weights_ops [simp]:
  assumes "f \<in> dims"
  shows "f (add_weights a b) = f a + f b" "f (subtract_weights a b) = f a - f b" "f (max_weights a b) = max (f a) (f b)"
    "f no_weights = 0"
  using assms by (auto simp: dims_def add_weights_def subtract_weights_def max_weights_def)

lemma fits_budget_iff: "fits_budget used req limit \<longleftrightarrow> (\<forall>f \<in> dims. f req \<le> f limit - f used)"
  by (simp add: fits_budget_def dims_all)

definition total_of :: "(ResourceWeights \<Rightarrow> nat) \<Rightarrow> ResourceWeights multiset \<Rightarrow> nat" where
  "total_of f M = sum_mset (image_mset f M)"

lemma total_of_simps [simp]:
  "total_of f {#} = 0" "total_of f (add_mset p M) = f p + total_of f M" "total_of f (M + N) = total_of f M + total_of f N"
  by (simp_all add: total_of_def)

text \<open>The budget accounts exactly for the permits in \<open>M\<close>.\<close>

definition accounts :: "ResourceBudget \<Rightarrow> ResourceWeights multiset \<Rightarrow> bool" where
  "accounts b M \<longleftrightarrow> (\<forall>f \<in> dims. f (budget_used b) = total_of f M \<and> total_of f M \<le> f (budget_limit b)
     \<and> total_of f M \<le> f (budget_peaks b) \<and> f (budget_peaks b) \<le> f (budget_limit b))"

lemma accountsD:
  assumes "accounts b M" and "f \<in> dims"
  shows "f (budget_used b) = total_of f M" "total_of f M \<le> f (budget_limit b)" "total_of f M \<le> f (budget_peaks b)"
    "f (budget_peaks b) \<le> f (budget_limit b)"
  using assms unfolding accounts_def by blast+

lemma accountsI:
  assumes "\<And>f. f \<in> dims \<Longrightarrow> f (budget_used b) = total_of f M \<and> total_of f M \<le> f (budget_limit b)
     \<and> total_of f M \<le> f (budget_peaks b) \<and> f (budget_peaks b) \<le> f (budget_limit b)"
  shows "accounts b M"
  using assms unfolding accounts_def by blast

lemma accounts_cong:
  assumes "accounts b M" and "\<forall>f \<in> dims. total_of f M = total_of f N"
  shows "accounts b N"
  using accountsD[OF assms(1)] bspec[OF assms(2)] by (intro accountsI) metis

lemma accounts_release:
  assumes "accounts b (add_mset p M)" and "\<forall>f \<in> dims. f p = f released + f kept"
  shows "accounts (budget_release released b) (add_mset kept M)"
proof (rule accountsI)
  fix f assume f: "f \<in> dims"
  from accountsD[OF assms(1) f] bspec[OF assms(2) f] f
  show "f (budget_used (budget_release released b)) = total_of f (add_mset kept M)
    \<and> total_of f (add_mset kept M) \<le> f (budget_limit (budget_release released b))
    \<and> total_of f (add_mset kept M) \<le> f (budget_peaks (budget_release released b))
    \<and> f (budget_peaks (budget_release released b)) \<le> f (budget_limit (budget_release released b))"
    by (simp add: budget_release_def)
qed

lemma accounts_drop_one:
  assumes "accounts b (add_mset p M)"
  shows "accounts (budget_release p b) M"
proof (rule accounts_cong)
  show "accounts (budget_release p b) (add_mset no_weights M)" by (rule accounts_release[OF assms]) simp
qed simp

lemma accounts_drop: "accounts b (mset ps + M) \<Longrightarrow> accounts (drop_permits ps b) M"
  unfolding drop_permits_def by (induction ps arbitrary: b) (simp_all add: accounts_drop_one)

lemma accounts_acquire:
  assumes "accounts b M" and "budget_acquire req c b = Some (Inr b')"
  shows "accounts b' (add_mset req M)"
proof (rule accountsI)
  fix f assume f: "f \<in> dims"
  have b': "b' = b\<lparr>budget_used := add_weights (budget_used b) req,
      budget_peaks := max_weights (budget_peaks b) (add_weights (budget_used b) req)\<rparr>"
    and fit: "fits_budget (budget_used b) req (budget_limit b)"
    using assms(2) by (auto simp: budget_acquire_def Let_def split: if_splits)
  have "f req \<le> f (budget_limit b) - f (budget_used b)" using fit f by (simp add: fits_budget_iff)
  with accountsD[OF assms(1) f] f
  show "f (budget_used b') = total_of f (add_mset req M) \<and> total_of f (add_mset req M) \<le> f (budget_limit b')
     \<and> total_of f (add_mset req M) \<le> f (budget_peaks b') \<and> f (budget_peaks b') \<le> f (budget_limit b')"
    by (auto simp: b' max_def)
qed

lemma limit_unchanged [simp]:
  "budget_limit (budget_release p b) = budget_limit b" "budget_limit (drop_permits ps b) = budget_limit b"
  "budget_limit (snd (retain_prepared n p b)) = budget_limit b"
proof -
  show r: "budget_limit (budget_release p b) = budget_limit b" for p b by (simp add: budget_release_def)
  show "budget_limit (drop_permits ps b) = budget_limit b"
    unfolding drop_permits_def by (induction ps arbitrary: b) (simp_all add: r)
  show "budget_limit (snd (retain_prepared n p b)) = budget_limit b" by (simp add: retain_prepared_def Let_def r)
qed

lemma acquire_limit: "budget_acquire req c b = Some (Inr b') \<Longrightarrow> budget_limit b' = budget_limit b"
  by (auto simp: budget_acquire_def Let_def split: if_splits)

text \<open>Keeping only prepared bytes of a permit.\<close>

lemma accounts_retain:
  assumes "accounts b (add_mset p M)"
  shows "accounts (snd (retain_prepared n p b)) (add_mset (fst (retain_prepared n p b)) M)"
  using accounts_release[OF assms] by (simp add: retain_prepared_def Let_def dims_all subtract_weights_def)

lemma accounts_retain_promoted:
  assumes "accounts b (mset ps + M)" and "retain_promoted n ps b = (qs, b')"
  shows "accounts b' (mset qs + M) \<and> budget_limit b' = budget_limit b"
  using assms
proof (induction n ps b arbitrary: M qs b' rule: retain_promoted.induct)
  case (1 remaining b)
  then show ?case by simp
next
  case (2 remaining p ps b)
  let ?kept = "ResourceWeights_new 0 0 (min (weight_prepared p) remaining)"
  let ?b = "budget_release (subtract_weights p ?kept) b"
  obtain rs where rs: "retain_promoted (remaining - min (weight_prepared p) remaining) ps ?b = (rs, b')" "qs = ?kept # rs"
    using "2.prems"(2) by (auto simp: Let_def split: prod.splits)
  have "accounts b (add_mset p (mset ps + M))" using "2.prems"(1) by simp
  then have "accounts ?b (add_mset ?kept (mset ps + M))"
    by (rule accounts_release) (simp add: dims_all subtract_weights_def)
  then have "accounts ?b (mset ps + add_mset ?kept M)" by simp
  from "2.IH"[OF refl refl this rs(1)] show ?case using rs(2) by simp
qed

lemma accounts_release_prepared:
  assumes "accounts b (add_mset p M)"
  shows "accounts (snd (release_prepared p b)) (add_mset (fst (release_prepared p b)) M)"
  using accounts_release[OF assms] by (simp add: release_prepared_def dims_all)

section \<open>The permits of a state\<close>

definition context_permits :: "PrepareContext \<Rightarrow> ResourcePermit list" where
  "context_permits ctx = ctx_initial ctx # ctx_promoted ctx"

primrec frame_permits :: "'u pframe \<Rightarrow> ResourcePermit list" where
  "frame_permits (Direct k) = []"
| "frame_permits (Held permit previous n k) = [permit]"

definition output_permits :: "'u WorkerOutput \<Rightarrow> ResourcePermit list" where
  "output_permits out = reservation_permits (output_reservation out)"

primrec worker_permits :: "('t, 'u) worker \<Rightarrow> ResourcePermit list" where
  "worker_permits Idle = []"
| "worker_permits (Starting ctx v) = context_permits ctx"
| "worker_permits (Preparing ctx p frames) = context_permits ctx @ concat (map frame_permits frames)"
| "worker_permits (Acquiring ctx required missing body k frames) = context_permits ctx @ concat (map frame_permits frames)"
| "worker_permits (Sending out) = output_permits out"
| "worker_permits Stopped = []"

primrec dispatcher_permits :: "'t dispatcher \<Rightarrow> ResourcePermit list" where
  "dispatcher_permits Next = []"
| "dispatcher_permits (AwaitWindow item) = []"
| "dispatcher_permits (AwaitBudget item) = []"
| "dispatcher_permits (Send q) = [queued_reservation q]"
| "dispatcher_permits Exited = []"

definition held_permits :: "('t, 'u, 's) pstate \<Rightarrow> ResourceWeights multiset" where
  "held_permits s = mset (dispatcher_permits (st_dispatcher s)) + mset (map queued_reservation (st_queue s))
     + mset (concat (map worker_permits (st_workers s))) + mset (concat (map output_permits (st_results s)))
     + mset (concat (map (output_permits \<circ> snd) (st_pending s)))"

lemma mset_concat_update:
  "i < length ws \<Longrightarrow> g z = [] \<Longrightarrow> mset (concat (map g (ws[i := w]))) = mset (g w) + mset (concat (map g (ws[i := z])))"
  by (induction ws arbitrary: i) (auto split: nat.splits)

text \<open>The permits of one worker and of everyone else.\<close>

lemma held_worker:
  assumes "i < length (st_workers s)"
  shows "held_permits (set_worker i w s) = mset (worker_permits w) + held_permits (set_worker i Stopped s)"
  using mset_concat_update[of i "st_workers s" worker_permits Stopped w] assms by (simp add: held_permits_def set_worker_def)

lemma set_worker_same: "i < length (st_workers s) \<Longrightarrow> set_worker i (st_workers s ! i) s = s"
  by (simp add: set_worker_def)

lemma held_split:
  assumes "i < length (st_workers s)"
  shows "held_permits s = mset (worker_permits (st_workers s ! i)) + held_permits (set_worker i Stopped s)"
  using held_worker[OF assms, of "st_workers s ! i"] set_worker_same[OF assms] by simp

definition budget_ok :: "('t, 'u, 's) pstate \<Rightarrow> bool" where
  "budget_ok s \<longleftrightarrow> accounts (st_budget s) (held_permits s)"

section \<open>Operations on permits\<close>

lemma accounts_begin:
  assumes "with_resources_begin required ctx b = Some (ctx', missing, b')" and "accounts b (mset (context_permits ctx) + M)"
  shows "accounts b' (mset (context_permits ctx') + M) \<and> budget_limit b' = budget_limit b \<and> ctx_ordinal ctx' = ctx_ordinal ctx"
proof (cases "weight_prepared (subtract_weights required (ctx_reserved ctx)) > 0")
  case True
  let ?b = "snd (release_prepared (ctx_initial ctx) b)" and ?p = "fst (release_prepared (ctx_initial ctx) b)"
  have "accounts b (add_mset (ctx_initial ctx) (mset (ctx_promoted ctx) + M))" using assms(2) by (simp add: context_permits_def)
  then have "accounts ?b (mset (ctx_promoted ctx) + add_mset ?p M)" using accounts_release_prepared by fastforce
  then have "accounts (drop_permits (ctx_promoted ctx) ?b) (add_mset ?p M)" by (rule accounts_drop)
  then show ?thesis using assms(1) True
    by (auto simp: with_resources_begin_def Let_def context_permits_def release_prepared_def split: if_splits prod.splits)
next
  case False
  then show ?thesis using assms by (auto simp: with_resources_begin_def Let_def split: if_splits)
qed

lemma accounts_acquired:
  assumes "with_resources_acquired required missing k ctx = (ctx', frame)"
    and "accounts b (add_mset missing (mset (context_permits ctx) + M))"
  shows "accounts b (mset (context_permits ctx') + mset (frame_permits frame) + M) \<and> ctx_ordinal ctx' = ctx_ordinal ctx"
proof
  show "ctx_ordinal ctx' = ctx_ordinal ctx" using assms(1) by (auto simp: with_resources_acquired_def Let_def split: prod.splits)
  show "accounts b (mset (context_permits ctx') + mset (frame_permits frame) + M)"
    by (rule accounts_cong[OF assms(2)])
      (use assms(1) in \<open>auto simp: with_resources_acquired_def split_prepared_def Let_def context_permits_def dims_all\<close>)
qed

lemma accounts_end:
  assumes "with_resources_end r reservation previous n ctx b = (ctx', b')"
    and "accounts b (mset (context_permits ctx) + add_mset reservation M)"
  shows "accounts b' (mset (context_permits ctx') + M) \<and> budget_limit b' = budget_limit b \<and> ctx_ordinal ctx' = ctx_ordinal ctx"
proof (cases r)
  case (Inr x)
  then show ?thesis using assms by (auto simp: with_resources_end_def context_permits_def intro: accounts_drop_one)
next
  case (Inl e)
  have "mset (ctx_promoted ctx) = mset (drop n (ctx_promoted ctx)) + mset (take n (ctx_promoted ctx))"
    by (metis append_take_drop_id mset_append union_commute)
  then have "accounts b (mset (drop n (ctx_promoted ctx)) + add_mset reservation (add_mset (ctx_initial ctx) (mset (take n (ctx_promoted ctx))) + M))"
    using assms(2) by (simp add: context_permits_def union_assoc)
  from accounts_drop_one[OF accounts_drop[OF this]] show ?thesis
    using assms(1) Inl by (auto simp: with_resources_end_def context_permits_def)
qed

lemma accounts_output:
  assumes "worker_output r ctx b = (out, b')" and "accounts b (mset (context_permits ctx) + M)"
  shows "accounts b' (mset (output_permits out) + M) \<and> budget_limit b' = budget_limit b \<and> output_ordinal out = ctx_ordinal ctx"
proof (cases "bindR r (\<lambda>p. if prepared_size p > weight_prepared (ctx_reserved ctx) then Inl ResourceLimit else Inr p)")
  case (Inl e)
  have "accounts (drop_permits (context_permits ctx) b) M" using assms(2) by (rule accounts_drop)
  then show ?thesis using assms(1) Inl
    by (auto simp: worker_output_def Let_def output_permits_def reservation_permits_def context_permits_def)
next
  case (Inr p)
  let ?i = "fst (retain_prepared (prepared_size p) (ctx_initial ctx) b)" and ?b = "snd (retain_prepared (prepared_size p) (ctx_initial ctx) b)"
  obtain qs b1 where q: "retain_promoted (prepared_size p - weight_prepared ?i) (ctx_promoted ctx) ?b = (qs, b1)"
    by (cases "retain_promoted (prepared_size p - weight_prepared ?i) (ctx_promoted ctx) ?b") auto
  have "accounts b (add_mset (ctx_initial ctx) (mset (ctx_promoted ctx) + M))" using assms(2) by (simp add: context_permits_def)
  from accounts_retain[OF this, of "prepared_size p"]
  have "accounts ?b (mset (ctx_promoted ctx) + add_mset ?i M)" by simp
  from accounts_retain_promoted[OF this q]
  have "accounts b1 (add_mset ?i (mset qs) + M)" "budget_limit b1 = budget_limit b" by simp_all
  moreover have "out = \<lparr>output_ordinal = ctx_ordinal ctx, output_result = Inr p,
      output_reservation = Some \<lparr>reservation_initial = ?i, reservation_promoted = qs\<rparr>\<rparr>" "b' = b1"
    using assms(1) Inr q by (auto simp: worker_output_def OutputReservation_retain_prepared_def Let_def split: prod.splits)
  ultimately show ?thesis by (simp add: output_permits_def reservation_permits_def)
qed

section \<open>Budgets of a run\<close>

lemma release_all_fields [simp]:
  "st_dispatcher (release_all ps s) = st_dispatcher s" "st_queue (release_all ps s) = st_queue s"
  "st_results (release_all ps s) = st_results s" "st_pending (release_all ps s) = st_pending s"
  "st_workers (release_all ps s) = st_workers s" "st_work (release_all ps s) = st_work s"
  "st_next (release_all ps s) = st_next s" "st_log (release_all ps s) = st_log s"
  "st_coordinator (release_all ps s) = st_coordinator s" "st_cancelled (release_all ps s) = st_cancelled s"
  "st_report (release_all ps s) = st_report s" "st_budget (release_all ps s) = drop_permits ps (st_budget s)"
  "st_window (release_all ps s) = window_release (st_window s)"
  by (simp_all add: release_all_def)

lemma drop_no_permits [simp]: "drop_permits [] b = b"
  by (simp add: drop_permits_def)

lemma set_worker_fields [simp]:
  "st_budget (set_worker i w s) = st_budget s" "st_dispatcher (set_worker i w s) = st_dispatcher s"
  "st_queue (set_worker i w s) = st_queue s" "st_results (set_worker i w s) = st_results s"
  "st_pending (set_worker i w s) = st_pending s" "st_workers (set_worker i w s) = (st_workers s)[i := w]"
  "st_window (set_worker i w s) = st_window s" "st_work (set_worker i w s) = st_work s"
  "st_next (set_worker i w s) = st_next s" "st_log (set_worker i w s) = st_log s"
  "st_coordinator (set_worker i w s) = st_coordinator s" "st_cancelled (set_worker i w s) = st_cancelled s"
  "st_report (set_worker i w s) = st_report s"
  by (simp_all add: set_worker_def)

lemma dispatcher_budget:
  assumes "budget_ok s" and "dispatcher_step cfg s = Some s'"
  shows "budget_ok s'"
proof -
  have a: "accounts (st_budget s) (held_permits s)" using assms(1) by (simp add: budget_ok_def)
  show ?thesis
  proof (cases "st_dispatcher s")
    case (AwaitBudget item)
    show ?thesis
    proof (cases "budget_acquire (item_resources item) (st_cancelled s) (st_budget s)")
      case None
      then show ?thesis using assms(2) AwaitBudget by (simp add: dispatcher_step_def)
    next
      case (Some r)
      show ?thesis
      proof (cases r)
        case (Inl e)
        then show ?thesis using assms(2) AwaitBudget Some a
          by (auto simp: dispatcher_step_def budget_ok_def held_permits_def)
      next
        case (Inr b)
        then have "accounts b (add_mset (item_resources item) (held_permits s))" using accounts_acquire[OF a] Some by simp
        then show ?thesis using assms(2) AwaitBudget Some Inr
          by (auto simp: dispatcher_step_def budget_ok_def held_permits_def)
      qed
    qed
  next
    case (Send q)
    have "held_permits s = mset [queued_reservation q] + held_permits (s\<lparr>st_dispatcher := Exited\<rparr>)"
      using Send by (simp add: held_permits_def)
    then have "accounts (drop_permits [queued_reservation q] (st_budget s)) (held_permits (s\<lparr>st_dispatcher := Exited\<rparr>))"
      using a by (intro accounts_drop) simp
    then show ?thesis using assms(2) Send a
      by (auto simp: dispatcher_step_def budget_ok_def held_permits_def split: if_splits)
  qed (use assms(2) a in \<open>auto simp: dispatcher_step_def budget_ok_def held_permits_def
      split: list.splits option.splits sum.splits if_splits\<close>)
qed

lemma drop_output_ok:
  assumes "accounts (st_budget s) (mset (output_permits out) + held_permits s)"
  shows "budget_ok (drop_output out s)"
proof -
  have "held_permits (drop_output out s) = held_permits s" by (simp add: drop_output_def held_permits_def)
  then show ?thesis using accounts_drop[OF assms] by (simp add: budget_ok_def drop_output_def output_permits_def)
qed

lemma worker_budget:
  assumes ok: "budget_ok s" and i: "i < length (st_workers s)" and step: "worker_step cfg i s = Some s'"
  shows "budget_ok s'"
proof -
  let ?rest = "held_permits (set_worker i Stopped s)"
  have a: "accounts (st_budget s) (mset (worker_permits (st_workers s ! i)) + ?rest)"
    using ok held_split[OF i] by (simp add: budget_ok_def)
  have held: "held_permits (set_worker i w (s\<lparr>st_budget := b\<rparr>)) = mset (worker_permits w) + ?rest" for w b
    using held_worker[of i "s\<lparr>st_budget := b\<rparr>" w] i by (simp add: held_permits_def)
  have same: "budget_ok (set_worker i w s)" if "mset (worker_permits w) = mset (worker_permits (st_workers s ! i))" for w
    using a held_worker[OF i, of w] that by (simp add: budget_ok_def)
  have upd: "budget_ok (set_worker i w (s\<lparr>st_budget := b\<rparr>))" if "accounts b (mset (worker_permits w) + ?rest)" for w b
    using that by (simp add: budget_ok_def held)
  show ?thesis
  proof (cases "st_workers s ! i")
    case Idle
    show ?thesis
    proof (cases "st_queue s")
      case Nil
      then show ?thesis using step Idle same by (auto simp: worker_step_def split: if_splits)
    next
      case (Cons q qs)
      let ?w = "Starting (PrepareContext_new (item_ordinal (queued_item q)) (queued_reservation q)) (item_value (queued_item q)) :: ('a, 'b) worker"
      have "held_permits (set_worker i ?w (s\<lparr>st_queue := qs\<rparr>)) =
          mset (worker_permits ?w) + held_permits (set_worker i Stopped (s\<lparr>st_queue := qs\<rparr>))"
        using i by (intro held_worker) simp
      moreover have "?rest = add_mset (queued_reservation q) (held_permits (set_worker i Stopped (s\<lparr>st_queue := qs\<rparr>)))"
        using Cons by (simp add: held_permits_def)
      ultimately show ?thesis using step Idle Cons a
        by (auto simp: worker_step_def budget_ok_def PrepareContext_new_def context_permits_def)
    qed
  next
    case (Starting ctx v)
    then show ?thesis using step same by (auto simp: worker_step_def)
  next
    case (Preparing ctx p frames)
    show ?thesis
    proof (cases p)
      case (Poll k)
      then show ?thesis using step Preparing same by (auto simp: worker_step_def)
    next
      case (Require required body k)
      show ?thesis
      proof (cases "with_resources_begin required ctx (st_budget s)")
        case None
        then show ?thesis using step Preparing Require same by (auto simp: worker_step_def)
      next
        case (Some x)
        then obtain ctx' missing b where x: "with_resources_begin required ctx (st_budget s) = Some (ctx', missing, b)" by (cases x) auto
        from accounts_begin[OF x, of "mset (concat (map frame_permits frames)) + ?rest"] a Preparing
        have "accounts b (mset (worker_permits (Acquiring ctx' required missing body k frames :: ('a, 'b) worker)) + ?rest)"
          by (simp add: union_assoc)
        from upd[OF this] show ?thesis using step Preparing Require x by (auto simp: worker_step_def)
      qed
    next
      case (Finish r)
      show ?thesis
      proof (cases frames)
        case Nil
        obtain out b where o: "worker_output r ctx (st_budget s) = (out, b)" by (cases "worker_output r ctx (st_budget s)") auto
        have "accounts b (mset (output_permits out) + ?rest)" using accounts_output[OF o, of ?rest] a Preparing Nil by simp
        then show ?thesis using step Preparing Finish Nil o upd[of b "Sending out"] by (auto simp: worker_step_def)
      next
        case (Cons f fs)
        show ?thesis
        proof (cases f)
          case (Direct k)
          then show ?thesis using step Preparing Finish Cons same by (auto simp: worker_step_def)
        next
          case (Held reservation previous n k)
          obtain ctx' b where e: "with_resources_end r reservation previous n ctx (st_budget s) = (ctx', b)"
            by (cases "with_resources_end r reservation previous n ctx (st_budget s)") auto
          from accounts_end[OF e, of "mset (concat (map frame_permits fs)) + ?rest"] a Preparing Cons Held
          have "accounts b (mset (worker_permits (Preparing ctx' (k r) fs :: ('a, 'b) worker)) + ?rest)" by (simp add: union_assoc)
          from upd[OF this] show ?thesis using step Preparing Finish Cons Held e by (auto simp: worker_step_def)
        qed
      qed
    qed
  next
    case (Acquiring ctx required missing body k frames)
    show ?thesis
    proof (cases "budget_acquire missing (st_cancelled s) (st_budget s)")
      case None
      then show ?thesis using step Acquiring by (simp add: worker_step_def)
    next
      case (Some r)
      show ?thesis
      proof (cases r)
        case (Inl e)
        then show ?thesis using step Acquiring Some same by (auto simp: worker_step_def)
      next
        case (Inr b)
        obtain ctx' frame where q: "with_resources_acquired required missing k ctx = (ctx', frame)"
          by (cases "with_resources_acquired required missing k ctx") auto
        have "accounts b (add_mset missing (mset (context_permits ctx) + (mset (concat (map frame_permits frames)) + ?rest)))"
          using accounts_acquire[OF a] Some Inr Acquiring by (simp add: union_assoc)
        from accounts_acquired[OF q this]
        have "accounts b (mset (worker_permits (Preparing ctx' body (frame # frames) :: ('a, 'b) worker)) + ?rest)"
          by (simp add: union_assoc)
        from upd[OF this] show ?thesis using step Acquiring Some Inr q by (auto simp: worker_step_def)
      qed
    qed
  next
    case (Sending out)
    have r: "held_permits (set_worker i Idle (s\<lparr>st_results := st_results s @ [out]\<rparr>)) = mset (output_permits out) + ?rest"
      using held_worker[of i "s\<lparr>st_results := st_results s @ [out]\<rparr>" Idle] i by (simp add: held_permits_def)
    show ?thesis
    proof (cases "\<exists>x. st_coordinator s = Returned x")
      case True
      then have "s' = drop_output out (set_worker i Stopped s)" using step Sending by (auto simp: worker_step_def)
      then show ?thesis using drop_output_ok[of "set_worker i Stopped s" out] a Sending by simp
    next
      case False
      then have "s' = set_worker i Idle (s\<lparr>st_results := st_results s @ [out]\<rparr>)"
        using step Sending by (auto simp: worker_step_def split: coordinator.splits if_splits)
      then show ?thesis using a Sending r by (simp add: budget_ok_def)
    qed
  next
    case Stopped
    then show ?thesis using step by (simp add: worker_step_def)
  qed
qed

lemma exhausted_budget:
  assumes ok: "budget_ok s" and i: "i < length (st_workers s)" and step: "worker_exhausted i s = Some s'"
  shows "budget_ok s'"
proof -
  obtain ctx required missing body k frames where w: "st_workers s ! i = Acquiring ctx required missing body k frames"
      "s' = set_worker i (Preparing ctx (k (Inl ResourceLimit)) frames) s"
    using step by (auto simp: worker_exhausted_def split: worker.splits if_splits)
  show ?thesis
    using ok held_worker[OF i, of "Preparing ctx (k (Inl ResourceLimit)) frames"] held_split[OF i] w by (simp add: budget_ok_def)
qed

text \<open>The coordinator drops outputs one at a time.\<close>

lemma drop_pending_ok:
  assumes "accounts (st_budget s) (mset (concat (map (output_permits \<circ> snd) ps)) + held_permits s)"
  shows "budget_ok (fold (\<lambda>p. drop_output (snd p)) ps s)"
  using assms
proof (induction ps arbitrary: s)
  case Nil
  then show ?case by (simp add: budget_ok_def)
next
  case (Cons p ps)
  have h: "held_permits (drop_output (snd p) s) = held_permits s" by (simp add: drop_output_def held_permits_def)
  have "accounts (st_budget s) (mset (output_permits (snd p)) + (mset (concat (map (output_permits \<circ> snd) ps)) + held_permits s))"
    using Cons.prems by (simp add: union_assoc comp_def)
  note acc = accounts_drop[OF this]
  have b: "st_budget (drop_output (snd p) s) = drop_permits (output_permits (snd p)) (st_budget s)"
    by (simp add: drop_output_def output_permits_def)
  have "budget_ok (fold (\<lambda>p. drop_output (snd p)) ps (drop_output (snd p) s))"
    using acc by (intro Cons.IH) (simp only: b h)
  then show ?case by simp
qed

lemma pending_permits_insert:
  assumes "increasing m" and "map_of m k = None"
  shows "mset (btree_insert k v m) = add_mset (k, v) (mset m)"
proof -
  have "dropWhile (\<lambda>p. fst p \<le> k) m = dropWhile (\<lambda>p. fst p < k) m"
    using assms(2) by (intro dropWhile_cong) (auto simp: map_of_eq_None_iff le_less)
  then show ?thesis
    unfolding btree_insert_def by (metis (no_types, lifting) mset.simps(2) mset_append takeWhile_dropWhile_id union_mset_add_mset_right)
qed

lemma pending_remove_permits:
  assumes "increasing m" and "map_of m k = Some v"
  shows "mset m = add_mset (k, v) (mset (pending_remove k m))"
  using assms
proof (induction m)
  case (Cons p m)
  then show ?case
  proof (cases "fst p = k")
    case True
    then have "\<forall>q \<in> set m. fst q \<noteq> k" using Cons.prems(1) by (auto simp: increasing_Cons)
    then show ?thesis using Cons.prems(2) True by (cases p) (auto simp: pending_remove_def filter_id_conv)
  next
    case False
    then show ?thesis using Cons by (cases p) (auto simp: pending_remove_def increasing_Cons)
  qed
qed simp

lemma mset_concat_eq: "mset xs = mset ys \<Longrightarrow> mset (concat (map g xs)) = mset (concat (map g ys))"
proof -
  assume "mset xs = mset ys"
  then have "image_mset (mset \<circ> g) (mset xs) = image_mset (mset \<circ> g) (mset ys)" by simp
  then have "sum_list (map (mset \<circ> g) xs) = sum_list (map (mset \<circ> g) ys)" by (metis mset_map sum_mset_sum_list)
  moreover have "mset (concat (map g zs)) = sum_list (map (mset \<circ> g) zs)" for zs by (induction zs) simp_all
  ultimately show ?thesis by simp
qed

lemma coordinator_budget:
  assumes ok: "budget_ok s" and inc: "increasing (st_pending s)" and step: "coordinator_step cfg s = Some s'"
    and fresh: "st_coordinator s = Receive \<longrightarrow> (\<forall>out \<in> set (st_results s). map_of (st_pending s) (output_ordinal out) = None)"
  shows "budget_ok s'"
proof -
  have a: "accounts (st_budget s) (held_permits s)" using ok by (simp add: budget_ok_def)
  show ?thesis
  proof (cases "st_coordinator s")
    case Receive
    show ?thesis
    proof (cases "st_next s < length (cfg_ordinals cfg)")
      case False
      then show ?thesis using step Receive a by (auto simp: coordinator_step_def budget_ok_def held_permits_def)
    next
      case True
      show ?thesis
      proof (cases "st_results s")
        case Nil
        then show ?thesis using step Receive True a
          by (auto simp: coordinator_step_def budget_ok_def held_permits_def split: if_splits)
      next
        case (Cons out rest)
        then have none: "map_of (st_pending s) (output_ordinal out) = None" using fresh Receive by simp
        let ?p = "btree_insert (output_ordinal out) out (st_pending s)"
        have "mset ?p = mset ((output_ordinal out, out) # st_pending s)" using pending_permits_insert[OF inc none] by simp
        from mset_concat_eq[OF this, of "output_permits \<circ> snd"]
        have "held_permits s' = held_permits s" "st_budget s' = st_budget s"
          using step Receive True Cons none by (auto simp: coordinator_step_def held_permits_def Let_def)
        then show ?thesis using a by (simp add: budget_ok_def)
      qed
    qed
  next
    case Deliver
    show ?thesis
    proof (cases "if st_next s < length (cfg_ordinals cfg) then map_of (st_pending s) (cfg_ordinals cfg ! st_next s) else None")
      case None
      then show ?thesis using step Deliver a by (auto simp: coordinator_step_def budget_ok_def held_permits_def observe_depth_def)
    next
      case (Some out)
      let ?o = "cfg_ordinals cfg ! st_next s"
      have "map_of (st_pending s) ?o = Some out" using Some by (simp split: if_splits)
      from mset_concat_eq[of _ "(?o, out) # pending_remove ?o (st_pending s)" "output_permits \<circ> snd"] pending_remove_permits[OF inc this]
      have h: "held_permits s = mset (output_permits out) + held_permits (s\<lparr>st_pending := pending_remove ?o (st_pending s)\<rparr>)"
        by (simp add: held_permits_def)
      have drop: "budget_ok (drop_output out s1)" if "st_budget s1 = st_budget s"
        "held_permits s1 = held_permits (s\<lparr>st_pending := pending_remove ?o (st_pending s)\<rparr>)" for s1
        using drop_output_ok[of s1 out] a h that by simp
      have same: "budget_ok s2" if "budget_ok s1" "st_budget s2 = st_budget s1" "held_permits s2 = held_permits s1" for s1 s2
        using that by (simp add: budget_ok_def)
      obtain r s1 where d: "deliver_output cfg out (s\<lparr>st_pending := pending_remove ?o (st_pending s)\<rparr>) = (r, s1)"
        by (cases "deliver_output cfg out (s\<lparr>st_pending := pending_remove ?o (st_pending s)\<rparr>)") auto
      have "budget_ok s1" using d
        by (auto simp: deliver_output_def Let_def split: sum.splits prod.splits intro!: drop) (simp_all add: held_permits_def)
      moreover have "st_budget s' = st_budget s1" "held_permits s' = held_permits s1"
        using step Deliver Some d by (auto simp: coordinator_step_def observe_depth_def held_permits_def split: sum.splits)
      ultimately show ?thesis using same by blast
    qed
  next
    case (Leave e)
    have "held_permits s = mset (concat (map (output_permits \<circ> snd) (st_pending s))) + held_permits (s\<lparr>st_pending := []\<rparr>)"
      by (simp add: held_permits_def)
    then have "budget_ok (fold (\<lambda>p. drop_output (snd p)) (st_pending s) (s\<lparr>st_pending := []\<rparr>))"
      using a by (intro drop_pending_ok) simp
    then show ?thesis using step Leave
      by (auto simp: coordinator_step_def Let_def budget_ok_def held_permits_def split: option.splits if_splits)
  next
    case (Returned r)
    then show ?thesis using step by (simp add: coordinator_step_def)
  qed
qed

end
