(* ===== verification/MW_PipelineOrder.thy ===== *)
theory MW_PipelineOrder
  imports MW_PipelineBudget
begin

text \<open>
  The order of the pipeline: the items in flight are always a contiguous range of the submitted
  ordinals, the dispatch window counts them, and the sink receives ordinals in ascending order.
\<close>

section \<open>Items in flight\<close>

primrec dispatcher_items :: "'t dispatcher \<Rightarrow> 't WorkItem list" where
  "dispatcher_items Next = []"
| "dispatcher_items (AwaitWindow item) = [item]"
| "dispatcher_items (AwaitBudget item) = [item]"
| "dispatcher_items (Send q) = [queued_item q]"
| "dispatcher_items Exited = []"

primrec worker_ordinals :: "('t, 'u) worker \<Rightarrow> nat list" where
  "worker_ordinals Idle = []"
| "worker_ordinals (Starting ctx v) = [ctx_ordinal ctx]"
| "worker_ordinals (Preparing ctx p frames) = [ctx_ordinal ctx]"
| "worker_ordinals (Acquiring ctx required missing body k frames) = [ctx_ordinal ctx]"
| "worker_ordinals (Sending out) = [output_ordinal out]"
| "worker_ordinals Stopped = []"

definition in_flight :: "('t, 'u, 's) pstate \<Rightarrow> nat multiset" where
  "in_flight s = mset (map item_ordinal (dispatcher_items (st_dispatcher s)))
     + mset (map (item_ordinal \<circ> queued_item) (st_queue s)) + mset (concat (map worker_ordinals (st_workers s)))
     + mset (map output_ordinal (st_results s)) + mset (map fst (st_pending s))"

definition awaits_window :: "('t, 'u, 's) pstate \<Rightarrow> nat" where
  "awaits_window s = (case st_dispatcher s of AwaitWindow _ \<Rightarrow> 1 | _ \<Rightarrow> 0)"

lemma in_flight_worker:
  assumes "i < length (st_workers s)"
  shows "in_flight (set_worker i w s) = mset (worker_ordinals w) + in_flight (set_worker i Stopped s)"
  using mset_concat_update[of i "st_workers s" worker_ordinals Stopped w] assms by (simp add: in_flight_def)

lemma in_flight_split:
  assumes "i < length (st_workers s)"
  shows "in_flight s = mset (worker_ordinals (st_workers s ! i)) + in_flight (set_worker i Stopped s)"
  using in_flight_worker[OF assms, of "st_workers s ! i"] set_worker_same[OF assms] by simp

lemma awaits_window_le: "awaits_window s \<le> size (in_flight s)"
  by (simp add: awaits_window_def in_flight_def split: dispatcher.splits)

section \<open>What the steps change\<close>

text \<open>A worker passes its item on, or drops it when the coordinator has returned.\<close>

definition same_control :: "('t, 'u, 's) pstate \<Rightarrow> ('t, 'u, 's) pstate \<Rightarrow> bool" where
  "same_control s s' \<longleftrightarrow> st_next s' = st_next s \<and> st_log s' = st_log s \<and> st_work s' = st_work s
     \<and> st_dispatcher s' = st_dispatcher s \<and> st_coordinator s' = st_coordinator s \<and> st_pending s' = st_pending s
     \<and> st_report s' = st_report s \<and> st_cancelled s' = st_cancelled s \<and> length (st_workers s') = length (st_workers s)
     \<and> budget_limit (st_budget s') = budget_limit (st_budget s) \<and> st_sink s' = st_sink s"

lemma begin_effect: "with_resources_begin required ctx b = Some (ctx', missing, b') \<Longrightarrow>
    ctx_ordinal ctx' = ctx_ordinal ctx \<and> budget_limit b' = budget_limit b"
  by (auto simp: with_resources_begin_def Let_def release_prepared_def split: if_splits)

lemma retain_promoted_limit: "budget_limit (snd (retain_promoted n ps b)) = budget_limit b"
  by (induction n ps b rule: retain_promoted.induct) (auto simp: Let_def split: prod.splits)

lemma output_effect: "worker_output r ctx b = (out, b') \<Longrightarrow> output_ordinal out = ctx_ordinal ctx \<and> budget_limit b' = budget_limit b"
  using retain_promoted_limit
  by (auto simp: worker_output_def Let_def OutputReservation_retain_prepared_def retain_prepared_def
      split: sum.splits prod.splits) (metis limit_unchanged(1) snd_conv)+

lemma end_effect: "with_resources_end r reservation previous n ctx b = (ctx', b') \<Longrightarrow>
    ctx_ordinal ctx' = ctx_ordinal ctx \<and> budget_limit b' = budget_limit b"
  by (auto simp: with_resources_end_def split: sum.splits)

lemma acquired_effect: "with_resources_acquired required missing k ctx = (ctx', frame) \<Longrightarrow> ctx_ordinal ctx' = ctx_ordinal ctx"
  by (auto simp: with_resources_acquired_def Let_def split: prod.splits)

lemmas worker_effects = begin_effect output_effect end_effect acquired_effect acquire_limit

lemma set_worker_sink [simp]: "st_sink (set_worker i w s) = st_sink s" "st_sink (release_all ps s) = st_sink s"
  by (simp_all add: set_worker_def release_all_def)

lemma worker_control:
  assumes i: "i < length (st_workers s)" and step: "worker_step cfg i s = Some s'"
  shows "same_control s s'"
  using step
  by (auto simp: worker_step_def same_control_def drop_output_def Let_def dest: worker_effects
      split: worker.splits prep.splits list.splits pframe.splits option.splits sum.splits prod.splits coordinator.splits if_splits)

text \<open>The five kinds of worker steps, seen from the channels.\<close>

lemma worker_cases [consumes 1, case_names pass take stop push drop]:
  assumes "worker_step cfg i s = Some s'"
    and "\<And>w b. s' = set_worker i w (s\<lparr>st_budget := b\<rparr>) \<Longrightarrow> worker_ordinals w = worker_ordinals (st_workers s ! i) \<Longrightarrow>
      w \<noteq> Stopped \<Longrightarrow> w \<noteq> Idle \<Longrightarrow> st_workers s ! i \<noteq> Idle \<Longrightarrow> st_workers s ! i \<noteq> Stopped \<Longrightarrow> P"
    and "\<And>q qs. st_workers s ! i = Idle \<Longrightarrow> st_queue s = q # qs \<Longrightarrow> s' = set_worker i
      (Starting (PrepareContext_new (item_ordinal (queued_item q)) (queued_reservation q)) (item_value (queued_item q))) (s\<lparr>st_queue := qs\<rparr>) \<Longrightarrow> P"
    and "st_workers s ! i = Idle \<Longrightarrow> st_queue s = [] \<Longrightarrow> st_dispatcher s = Exited \<Longrightarrow> s' = set_worker i Stopped s \<Longrightarrow> P"
    and "\<And>out. st_workers s ! i = Sending out \<Longrightarrow> length (st_results s) < delivery_queue_depth (cfg_limits cfg) \<Longrightarrow>
      (\<forall>x. st_coordinator s \<noteq> Returned x) \<Longrightarrow> s' = set_worker i Idle (s\<lparr>st_results := st_results s @ [out]\<rparr>) \<Longrightarrow> P"
    and "\<And>out x. st_workers s ! i = Sending out \<Longrightarrow> st_coordinator s = Returned x \<Longrightarrow> s' = drop_output out (set_worker i Stopped s) \<Longrightarrow> P"
  shows P
proof (cases "st_workers s ! i")
  case Idle
  then show ?thesis using assms(1,3,4) by (auto simp: worker_step_def split: list.splits if_splits)
next
  case (Sending out)
  then show ?thesis using assms(1,5,6) by (auto simp: worker_step_def split: coordinator.splits if_splits)
next
  case Stopped
  then show ?thesis using assms(1) by (simp add: worker_step_def)
next
  case (Starting ctx v)
  have "s = s\<lparr>st_budget := st_budget s\<rparr>" by simp
  then show ?thesis using assms(1) assms(2)[of _ "st_budget s"] Starting by (auto simp: worker_step_def)
next
  case (Preparing ctx p frames)
  show ?thesis using assms(1) assms(2) assms(2)[of _ "st_budget s", simplified] Preparing
    by (auto simp: worker_step_def Let_def dest!: worker_effects split: prep.splits list.splits pframe.splits option.splits prod.splits)
next
  case (Acquiring ctx required missing body k frames)
  show ?thesis using assms(1) assms(2) assms(2)[of _ "st_budget s", simplified] Acquiring
    by (auto simp: worker_step_def Let_def dest!: acquired_effect split: option.splits sum.splits prod.splits)
qed

lemma exhausted_cases [consumes 1]:
  assumes "worker_exhausted i s = Some s'"
  obtains w where "s' = set_worker i w s" and "worker_ordinals w = worker_ordinals (st_workers s ! i)"
    and "w \<noteq> Stopped" "w \<noteq> Idle" "st_workers s ! i \<noteq> Idle" "st_workers s ! i \<noteq> Stopped"
  using assms by (auto simp: worker_exhausted_def split: worker.splits if_splits)

section \<open>The invariant\<close>

text \<open>Executions of accepted, non-empty work under valid limits.\<close>

definition valid_run :: "('t, 'u, 's) config \<Rightarrow> 't WorkItem list \<Rightarrow> bool" where
  "valid_run cfg W \<longleftrightarrow> cfg_ordinals cfg = map item_ordinal W \<and> sorted_wrt (<) (map item_ordinal W)
     \<and> 0 < cfg_workers cfg \<and> 0 < delivery_queue_depth (cfg_limits cfg) \<and> 0 < dispatch_lookahead (cfg_limits cfg)
     \<and> (\<forall>item \<in> set W. fits_budget no_weights (item_resources item) (budget_limit (ResourceBudget_new (cfg_limits cfg))))"

definition active :: "('t, 'u, 's) pstate \<Rightarrow> bool" where
  "active s \<longleftrightarrow> st_coordinator s = Receive \<or> st_coordinator s = Deliver"

definition windows_ok :: "('t, 'u, 's) config \<Rightarrow> ('t, 'u, 's) pstate \<Rightarrow> bool" where
  "windows_ok cfg s \<longleftrightarrow> window_limit (st_window s) = dispatch_lookahead (cfg_limits cfg)
     \<and> window_used (st_window s) + awaits_window s = size (in_flight s)
     \<and> window_used (st_window s) \<le> window_limit (st_window s)
     \<and> length (st_queue s) \<le> cfg_workers cfg \<and> length (st_results s) \<le> delivery_queue_depth (cfg_limits cfg)
     \<and> length (st_workers s) = cfg_workers cfg
     \<and> budget_limit (st_budget s) = budget_limit (ResourceBudget_new (cfg_limits cfg))"

text \<open>
  The items in flight are the submitted ones from \<open>st_next\<close> to \<open>d\<close>; the dispatcher holds the last of
  them, or has ended.
\<close>

definition flying :: "'t WorkItem list \<Rightarrow> ('t, 'u, 's) pstate \<Rightarrow> nat \<Rightarrow> bool" where
  "flying W s d \<longleftrightarrow> st_next s \<le> d \<and> d \<le> length W \<and> in_flight s = mset (map item_ordinal (drop (st_next s) (take d W)))
     \<and> (if st_dispatcher s = Exited then st_work s = [] \<and> (\<not> st_cancelled s \<longrightarrow> d = length W) else st_work s = drop d W)
     \<and> (\<forall>item. dispatcher_items (st_dispatcher s) = [item] \<longrightarrow> st_next s < d \<and> item = W ! (d - 1))"

definition flight_ok :: "'t WorkItem list \<Rightarrow> ('t, 'u, 's) pstate \<Rightarrow> bool" where
  "flight_ok W s \<longleftrightarrow> st_next s \<le> length W \<and> map fst (st_log s) = take (st_next s) (map item_ordinal W)
     \<and> increasing (st_pending s) \<and> (\<forall>p \<in> set (st_pending s). fst p = output_ordinal (snd p))
     \<and> (active s \<longrightarrow> (\<exists>d. flying W s d))
     \<and> (active s \<and> Stopped \<in> set (st_workers s) \<longrightarrow> st_dispatcher s = Exited \<and> st_queue s = [])
     \<and> (st_coordinator s = Receive \<and> st_next s < length W \<longrightarrow> map_of (st_pending s) (item_ordinal (W ! st_next s)) = None)
     \<and> (st_coordinator s = Leave None \<longrightarrow> st_next s = length W \<or> st_cancelled s)
     \<and> (st_coordinator s = Returned (Inr ()) \<longrightarrow> st_next s = length W)
     \<and> (st_coordinator s \<in> {Leave None, Returned (Inr ())} \<and> st_next s = length W \<longrightarrow> in_flight s = {#} \<and> st_work s = [])
     \<and> (\<forall>e. st_coordinator s \<in> {Leave (Some e), Returned (Inl e)} \<longrightarrow> st_cancelled s)"

lemma flight_ok_cong:
  assumes "flight_ok W s" and "same_control s s'" and "in_flight s' = in_flight s"
    and "active s \<and> Stopped \<in> set (st_workers s') \<longrightarrow> st_dispatcher s = Exited \<and> st_queue s' = []"
  shows "flight_ok W s'"
proof -
  have "active s' = active s" "flying W s' = flying W s"
    using assms(2,3) by (auto simp: active_def flying_def same_control_def fun_eq_iff)
  then show ?thesis using assms unfolding flight_ok_def same_control_def by simp
qed

lemma set_worker_mem: "w \<in> set (ws[i := v]) \<Longrightarrow> w = v \<or> w \<in> set ws"
  using set_update_subset_insert by fastforce

lemma worker_invariants:
  assumes f: "flight_ok W s" and w: "windows_ok cfg s" and i: "i < length (st_workers s)" and step: "worker_step cfg i s = Some s'"
  shows "flight_ok W s' \<and> windows_ok cfg s'"
proof -
  have c: "same_control s s'" by (rule worker_control[OF i step])
  have "awaits_window s' = awaits_window s" using c by (simp add: awaits_window_def same_control_def)
  note c' = this c[unfolded same_control_def]
  have split: "in_flight s = mset (worker_ordinals (st_workers s ! i)) + in_flight (set_worker i Stopped s)"
    by (rule in_flight_split[OF i])
  have stopped: "active s \<Longrightarrow> Stopped \<in> set (st_workers s) \<Longrightarrow> st_dispatcher s = Exited \<and> st_queue s = []"
    using f by (simp add: flight_ok_def)
  show ?thesis using step
  proof (cases rule: worker_cases)
    case (pass v b)
    have e: "in_flight s' = in_flight s"
      using in_flight_worker[of i "s\<lparr>st_budget := b\<rparr>" v] split pass(1,2) i by (simp add: in_flight_def)
    have "flight_ok W s'" by (rule flight_ok_cong[OF f c e]) (use pass stopped in \<open>auto dest: set_worker_mem\<close>)
    moreover have "windows_ok cfg s'" using w c' e pass(1) by (simp add: windows_ok_def)
    ultimately show ?thesis ..
  next
    case (take q qs)
    have e: "in_flight s' = in_flight s"
      using in_flight_worker[of i "s\<lparr>st_queue := qs\<rparr>" "Starting (PrepareContext_new (item_ordinal (queued_item q)) (queued_reservation q)) (item_value (queued_item q))"]
        split take i by (simp add: in_flight_def PrepareContext_new_def)
    have "flight_ok W s'" by (rule flight_ok_cong[OF f c e]) (use take stopped in \<open>auto dest: set_worker_mem\<close>)
    moreover have "windows_ok cfg s'" using w c' e take by (simp add: windows_ok_def)
    ultimately show ?thesis ..
  next
    case stop
    have e: "in_flight s' = in_flight s" using split stop by simp
    have "flight_ok W s'" by (rule flight_ok_cong[OF f c e]) (use stop in auto)
    moreover have "windows_ok cfg s'" using w c' e stop by (simp add: windows_ok_def)
    ultimately show ?thesis ..
  next
    case (push out)
    have e: "in_flight s' = in_flight s"
      using in_flight_worker[of i "s\<lparr>st_results := st_results s @ [out]\<rparr>" Idle] split push i by (simp add: in_flight_def)
    have "flight_ok W s'" by (rule flight_ok_cong[OF f c e]) (use push stopped in \<open>auto dest: set_worker_mem\<close>)
    moreover have "windows_ok cfg s'" using w c' e push by (simp add: windows_ok_def)
    ultimately show ?thesis ..
  next
    case (drop out x)
    have e: "in_flight s = add_mset (output_ordinal out) (in_flight s')"
      using split drop by (simp add: in_flight_def drop_output_def)
    have n: "\<not> active s" "\<not> active s'" using drop(2) c by (auto simp: active_def same_control_def)
    have "flight_ok W s'" using f c e n drop(2) unfolding flight_ok_def same_control_def by auto
    moreover have "windows_ok cfg s'"
      using w c' e drop(3) awaits_window_le[of s'] by (auto simp: windows_ok_def drop_output_def window_release_def)
    ultimately show ?thesis ..
  qed
qed

lemma exhausted_invariants:
  assumes f: "flight_ok W s" and w: "windows_ok cfg s" and i: "i < length (st_workers s)" and step: "worker_exhausted i s = Some s'"
  shows "flight_ok W s' \<and> windows_ok cfg s'"
proof -
  obtain v where v: "s' = set_worker i v s" "worker_ordinals v = worker_ordinals (st_workers s ! i)" "v \<noteq> Stopped"
    using step by (rule exhausted_cases)
  have e: "in_flight s' = in_flight s" using in_flight_worker[OF i, of v] in_flight_split[OF i] v by simp
  have c: "same_control s s'" using v(1) by (simp add: same_control_def)
  have "flight_ok W s'"
    by (rule flight_ok_cong[OF f c e]) (use v f in \<open>auto simp: flight_ok_def dest: set_worker_mem\<close>)
  moreover have "windows_ok cfg s'" using w e v(1) by (simp add: windows_ok_def awaits_window_def)
  ultimately show ?thesis ..
qed

section \<open>The dispatcher\<close>

lemma flying_unique_tail:
  assumes "d < length W" and "n \<le> d"
  shows "mset (map f (drop n (take (Suc d) W))) = add_mset (f (W ! d)) (mset (map f (drop n (take d W))))"
  using assms by (simp add: take_Suc_conv_app_nth)

text \<open>The dispatcher gives up its item, which is the last one in flight.\<close>

lemma exit_flying:
  assumes "flying W s d" and "dispatcher_items (st_dispatcher s) = [item]" and "st_cancelled s'" and "st_next s' = st_next s"
    and "in_flight s = add_mset (item_ordinal item) (in_flight s')" and "st_dispatcher s' = Exited" and "st_work s' = []"
  shows "flying W s' (d - 1)"
proof -
  obtain e where d: "d = Suc e" "e < length W" "st_next s \<le> e" "item = W ! e"
    using assms(1,2) by (cases d) (auto simp: flying_def)
  have "in_flight s = add_mset (item_ordinal (W ! e)) (mset (map item_ordinal (drop (st_next s) (take e W))))"
    using assms(1) flying_unique_tail[OF d(2,3), of item_ordinal] unfolding flying_def d(1) by simp
  then show ?thesis using assms d by (simp add: flying_def)
qed

definition gave_up :: "'t WorkItem \<Rightarrow> ('t, 'u, 's) pstate \<Rightarrow> ('t, 'u, 's) pstate \<Rightarrow> bool" where
  "gave_up item s s' \<longleftrightarrow> dispatcher_items (st_dispatcher s) = [item] \<and> st_dispatcher s' = Exited \<and> st_work s' = []
     \<and> st_next s' = st_next s \<and> st_log s' = st_log s \<and> st_pending s' = st_pending s \<and> st_workers s' = st_workers s
     \<and> st_queue s' = st_queue s \<and> st_results s' = st_results s \<and> st_coordinator s' = st_coordinator s
     \<and> st_cancelled s' = st_cancelled s"

lemma gave_up_in_flight: "gave_up item s s' \<Longrightarrow> in_flight s = add_mset (item_ordinal item) (in_flight s')"
  by (simp add: gave_up_def in_flight_def)

lemma gave_up_flight:
  assumes f: "flight_ok W s" and g: "gave_up item s s'" and c: "active s \<longrightarrow> st_cancelled s"
  shows "flight_ok W s'"
proof -
  note i = gave_up_in_flight[OF g]
  have a: "active s' = active s" using g by (simp add: active_def gave_up_def)
  have "\<exists>d. flying W s' d" if "active s'"
    using exit_flying[of W s _ item s'] f g c a that i by (auto simp: flight_ok_def gave_up_def)
  moreover have "active s \<and> Stopped \<in> set (st_workers s) \<longrightarrow> False" using f g by (auto simp: flight_ok_def gave_up_def)
  moreover have "\<not> (st_coordinator s \<in> {Leave None, Returned (Inr ())} \<and> st_next s = length W)"
    using f i by (auto simp: flight_ok_def)
  ultimately show ?thesis using f g a unfolding flight_ok_def gave_up_def by auto
qed

lemma dispatcher_invariants:
  assumes v: "valid_run cfg W" and f: "flight_ok W s" and w: "windows_ok cfg s" and step: "dispatcher_step cfg s = Some s'"
  shows "flight_ok W s' \<and> windows_ok cfg s'"
proof (cases "st_dispatcher s")
  case Exited
  then show ?thesis using step by (simp add: dispatcher_step_def)
next
  case Next
  show ?thesis
  proof (cases "st_work s")
    case Nil
    then have s': "s' = s\<lparr>st_dispatcher := Exited\<rparr>" using step Next by (simp add: dispatcher_step_def)
    have "active s' = active s" "in_flight s' = in_flight s" "awaits_window s' = awaits_window s"
      using Next s' by (simp_all add: active_def in_flight_def awaits_window_def)
    moreover have "flying W s' d" if "flying W s d" for d
      using that s' Next Nil calculation(2) by (auto simp: flying_def)
    ultimately show ?thesis using f w s' Next by (auto simp: flight_ok_def windows_ok_def)
  next
    case (Cons item rest)
    show ?thesis
    proof (cases "st_cancelled s")
      case True
      then have s': "s' = s\<lparr>st_work := [], st_dispatcher := Exited\<rparr>" using step Next Cons by (simp add: dispatcher_step_def)
      have "active s' = active s" "in_flight s' = in_flight s" "awaits_window s' = awaits_window s"
        using Next s' by (simp_all add: active_def in_flight_def awaits_window_def)
      moreover have "flying W s' d" if "flying W s d" for d
        using that s' Next True calculation(2) by (auto simp: flying_def)
      ultimately show ?thesis using f w s' Next by (auto simp: flight_ok_def windows_ok_def)
    next
      case False
      then have s': "s' = s\<lparr>st_work := rest, st_dispatcher := AwaitWindow item\<rparr>" using step Next Cons by (simp add: dispatcher_step_def)
      have a: "active s' = active s" "in_flight s' = add_mset (item_ordinal item) (in_flight s)"
          "awaits_window s' = 1" "awaits_window s = 0"
        using Next s' by (simp_all add: active_def in_flight_def awaits_window_def)
      have "flying W s' (Suc d)" if fl: "flying W s d" for d
      proof -
        have d: "drop d W = item # rest" using fl Next Cons by (simp add: flying_def)
        then have d': "d < length W" "W ! d = item" "drop (Suc d) W = rest"
          by (metis drop_eq_Nil list.distinct(1) not_le, metis nth_via_drop, metis drop_Suc list.sel(3) tl_drop)
        show ?thesis using fl d' s' a(2) flying_unique_tail[OF d'(1), of "st_next s" item_ordinal]
          by (simp add: flying_def)
      qed
      moreover have "\<not> (st_coordinator s \<in> {Leave None, Returned (Inr ())} \<and> st_next s = length W)"
        using f Cons by (auto simp: flight_ok_def)
      ultimately show ?thesis using f w s' Next a by (auto simp: flight_ok_def windows_ok_def)
    qed
  qed
next
  case (AwaitWindow item)
  show ?thesis
  proof (cases "st_cancelled s")
    case True
    then have s': "s' = s\<lparr>st_work := [], st_dispatcher := Exited\<rparr>"
      using step AwaitWindow by (simp add: dispatcher_step_def window_acquire_def)
    then have g: "gave_up item s s'" using AwaitWindow by (simp add: gave_up_def)
    have "awaits_window s = 1" "awaits_window s' = 0" using AwaitWindow s' by (simp_all add: awaits_window_def)
    then have "windows_ok cfg s'" using w s' gave_up_in_flight[OF g] by (simp add: windows_ok_def)
    then show ?thesis using gave_up_flight[OF f g] True by simp
  next
    case False
    then have u: "window_used (st_window s) < window_limit (st_window s)"
      and s': "s' = s\<lparr>st_window := (st_window s)\<lparr>window_used := window_used (st_window s) + 1\<rparr>, st_dispatcher := AwaitBudget item\<rparr>"
      using step AwaitWindow by (auto simp: dispatcher_step_def window_acquire_def split: if_splits)
    have a: "active s' = active s" "in_flight s' = in_flight s" "awaits_window s' = 0" "awaits_window s = 1"
      using AwaitWindow s' by (simp_all add: active_def in_flight_def awaits_window_def)
    moreover have "flying W s' = flying W s" using s' a(2) AwaitWindow by (auto simp: flying_def fun_eq_iff)
    ultimately show ?thesis using f w s' u AwaitWindow by (auto simp: flight_ok_def windows_ok_def)
  qed
next
  case (AwaitBudget item)
  have held: "awaits_window s = 0" using AwaitBudget by (simp add: awaits_window_def)
  show ?thesis
  proof (cases "\<exists>e. budget_acquire (item_resources item) (st_cancelled s) (st_budget s) = Some (Inl e)")
    case True
    then have s': "s' = release_all [] (s\<lparr>st_work := [], st_dispatcher := Exited\<rparr>)" using step AwaitBudget by (auto simp: dispatcher_step_def)
    then have g: "gave_up item s s'" using AwaitBudget by (simp add: gave_up_def)
    have "st_cancelled s" if "active s"
    proof -
      obtain d where "flying W s d" using f \<open>active s\<close> by (auto simp: flight_ok_def)
      then have "item \<in> set W" using AwaitBudget by (auto simp: flying_def)
      then have "fits_budget no_weights (item_resources item) (budget_limit (st_budget s))"
        using v w by (simp add: valid_run_def windows_ok_def)
      then show ?thesis using True by (auto simp: budget_acquire_def Let_def split: if_splits)
    qed
    moreover have "windows_ok cfg s'"
      using w s' held gave_up_in_flight[OF g] by (simp add: windows_ok_def window_release_def awaits_window_def)
    ultimately show ?thesis using gave_up_flight[OF f g] by blast
  next
    case False
    then obtain b where b: "budget_acquire (item_resources item) (st_cancelled s) (st_budget s) = Some (Inr b)"
      and s': "s' = s\<lparr>st_budget := b, st_dispatcher := Send \<lparr>queued_item = item, queued_reservation = item_resources item\<rparr>\<rparr>"
      using step AwaitBudget by (auto simp: dispatcher_step_def split: option.splits sum.splits)
    have a: "active s' = active s" "in_flight s' = in_flight s" "awaits_window s' = 0"
      using AwaitBudget s' by (simp_all add: active_def in_flight_def awaits_window_def)
    moreover have "flying W s' = flying W s" using s' a(2) AwaitBudget by (auto simp: flying_def fun_eq_iff)
    ultimately show ?thesis using f w s' held AwaitBudget acquire_limit[OF b] by (auto simp: flight_ok_def windows_ok_def)
  qed
next
  case (Send q)
  have held: "awaits_window s = 0" using Send by (simp add: awaits_window_def)
  show ?thesis
  proof (cases "\<forall>x \<in> set (st_workers s). x = Stopped")
    case True
    then have s': "s' = release_all [queued_reservation q] (s\<lparr>st_work := [], st_dispatcher := Exited\<rparr>)"
      using step Send by (simp add: dispatcher_step_def)
    then have g: "gave_up (queued_item q) s s'" using Send by (simp add: gave_up_def)
    have "st_workers s \<noteq> []" using v w by (auto simp: valid_run_def windows_ok_def)
    then have "Stopped \<in> set (st_workers s)" using True by (metis last_in_set)
    then have "\<not> active s" using f Send by (auto simp: flight_ok_def)
    moreover have "windows_ok cfg s'"
      using w s' held gave_up_in_flight[OF g] by (simp add: windows_ok_def window_release_def awaits_window_def)
    ultimately show ?thesis using gave_up_flight[OF f g] by blast
  next
    case False
    then have q: "length (st_queue s) < cfg_workers cfg" and s': "s' = s\<lparr>st_queue := st_queue s @ [q], st_dispatcher := Next\<rparr>"
      using step Send by (auto simp: dispatcher_step_def split: if_splits)
    have a: "active s' = active s" "in_flight s' = in_flight s" "awaits_window s' = 0"
      using Send s' by (simp_all add: active_def in_flight_def awaits_window_def)
    moreover have "flying W s' d" if "flying W s d" for d using that s' a(2) Send by (auto simp: flying_def)
    ultimately show ?thesis using f w s' held Send q by (auto simp: flight_ok_def windows_ok_def)
  qed
qed

section \<open>The coordinator\<close>

lemma flying_distinct:
  assumes "valid_run cfg W" and "flying W s d"
  shows "count (in_flight s) x \<le> 1"
proof -
  have "distinct (map item_ordinal W)" using assms(1) by (simp add: valid_run_def strict_sorted_iff)
  then have "distinct (map item_ordinal (drop (st_next s) (take d W)))"
    by (metis distinct_drop distinct_take drop_map take_map)
  moreover have "in_flight s = mset (map item_ordinal (drop (st_next s) (take d W)))" using assms(2) by (simp add: flying_def)
  ultimately show ?thesis by (metis distinct_count_atmost_1 le_numeral_extra(4) zero_le_one)
qed

lemma flying_next:
  assumes "flying W s d" and "st_next s < d"
  shows "in_flight s = add_mset (item_ordinal (W ! st_next s)) (mset (map item_ordinal (drop (Suc (st_next s)) (take d W))))"
proof -
  have "drop (st_next s) (take d W) = W ! st_next s # drop (Suc (st_next s)) (take d W)"
    using assms by (simp add: flying_def Cons_nth_drop_Suc[symmetric])
  then show ?thesis using assms(1) by (simp add: flying_def)
qed

lemma pending_in_flight: "x \<in> fst ` set (st_pending s) \<Longrightarrow> x \<in># in_flight s"
  by (auto simp: in_flight_def)

lemma flying_nonempty: "flying W s d \<Longrightarrow> x \<in># in_flight s \<Longrightarrow> st_next s < d"
  by (cases "st_next s < d") (auto simp: flying_def)

text \<open>The outputs that wait for an earlier ordinal leave room for that one in the window.\<close>

lemma pending_bound:
  assumes v: "valid_run cfg W" and f: "flight_ok W s" and w: "windows_ok cfg s" and act: "active s"
    and none: "st_next s < length W \<longrightarrow> map_of (st_pending s) (item_ordinal (W ! st_next s)) = None"
  shows "length (st_pending s) \<le> dispatch_lookahead (cfg_limits cfg) - 1"
proof (cases "st_pending s = []")
  case True
  then show ?thesis by simp
next
  case False
  then obtain p where p: "p \<in> set (st_pending s)" by (cases "st_pending s") auto
  obtain d where d: "flying W s d" using f act by (auto simp: flight_ok_def)
  let ?others = "in_flight (s\<lparr>st_pending := []\<rparr>)" and ?o = "item_ordinal (W ! st_next s)"
  have split: "in_flight s = ?others + mset (map fst (st_pending s))" by (simp add: in_flight_def)
  have pin: "fst p \<in># in_flight s" using p by (intro pending_in_flight) simp
  have nd: "st_next s < d" "d \<le> length W" using flying_nonempty[OF d pin] d by (simp_all add: flying_def)
  have o: "?o \<in># in_flight s" using flying_next[OF d nd(1)] by simp
  have out: "?o \<notin> fst ` set (st_pending s)" using none nd by (simp add: map_of_eq_None_iff)
  then have in_others: "?o \<in># ?others" using o split by (auto simp: image_iff)
  have "Suc (awaits_window s) \<le> size ?others"
  proof (cases "\<exists>item. st_dispatcher s = AwaitWindow item")
    case True
    then obtain item where item: "st_dispatcher s = AwaitWindow item" ..
    then have last: "item = W ! (d - 1)" using d by (simp add: flying_def)
    have "fst p \<in># mset (map item_ordinal (drop (Suc (st_next s)) (take d W)))"
      using pin flying_next[OF d nd(1)] out p by (auto simp: image_iff)
    then have "Suc (st_next s) < d" by (cases "Suc (st_next s) < d") auto
    then have "?o < item_ordinal item"
      using v nd last sorted_wrt_nth_less[of "(<)" "map item_ordinal W" "st_next s" "d - 1"] by (simp add: valid_run_def)
    moreover have "?others = add_mset (item_ordinal item) (in_flight (s\<lparr>st_pending := [], st_dispatcher := Next\<rparr>))"
      using item by (simp add: in_flight_def)
    ultimately have "?o \<in># in_flight (s\<lparr>st_pending := [], st_dispatcher := Next\<rparr>)" using in_others by auto
    then have "0 < size (in_flight (s\<lparr>st_pending := [], st_dispatcher := Next\<rparr>))" by (metis gr0I size_eq_0_iff_empty empty_iff set_mset_empty)
    then show ?thesis using \<open>?others = _\<close> item by (simp add: awaits_window_def)
  next
    case False
    then have "awaits_window s = 0" by (simp add: awaits_window_def split: dispatcher.splits)
    moreover have "0 < size ?others" using in_others by (metis gr0I size_eq_0_iff_empty empty_iff set_mset_empty)
    ultimately show ?thesis by simp
  qed
  moreover have "size (in_flight s) = size ?others + length (st_pending s)" using split by simp
  ultimately show ?thesis using w by (auto simp: windows_ok_def)
qed

definition depth_ok :: "('t, 'u, 's) config \<Rightarrow> ('t, 'u, 's) pstate \<Rightarrow> bool" where
  "depth_ok cfg s \<longleftrightarrow> report_depth (st_report s) \<le> dispatch_lookahead (cfg_limits cfg) - 1"

lemma report_depth_simps [simp]:
  "report_depth (report_prepared r) = report_depth r" "report_depth (report_failed r) = report_depth r"
  "report_depth (report_delivered n r) = report_depth r"
  "report_depth (observe_delivery_queue_depth n r) = max (report_depth r) n"
  by (simp_all add: report_prepared_def report_failed_def report_delivered_def observe_delivery_queue_depth_def)

lemma drop_output_fields [simp]:
  "st_dispatcher (drop_output out s) = st_dispatcher s" "st_queue (drop_output out s) = st_queue s"
  "st_results (drop_output out s) = st_results s" "st_pending (drop_output out s) = st_pending s"
  "st_workers (drop_output out s) = st_workers s" "st_work (drop_output out s) = st_work s"
  "st_next (drop_output out s) = st_next s" "st_log (drop_output out s) = st_log s"
  "st_coordinator (drop_output out s) = st_coordinator s" "st_cancelled (drop_output out s) = st_cancelled s"
  "st_report (drop_output out s) = st_report s" "budget_limit (st_budget (drop_output out s)) = budget_limit (st_budget s)"
  "st_window (drop_output out s) = window_release (st_window s)" "st_sink (drop_output out s) = st_sink s"
  by (simp_all add: drop_output_def)

lemma results_fresh:
  assumes "valid_run cfg W" and "flight_ok W s" and "active s" and "out \<in> set (st_results s)"
  shows "map_of (st_pending s) (output_ordinal out) = None"
proof (rule ccontr)
  assume "map_of (st_pending s) (output_ordinal out) \<noteq> None"
  then have "output_ordinal out \<in> fst ` set (st_pending s)" by (auto simp: map_of_eq_None_iff)
  then have "output_ordinal out \<in># mset (map fst (st_pending s))" "output_ordinal out \<in># mset (map output_ordinal (st_results s))"
    using assms(4) by auto
  then have "0 < count (mset (map fst (st_pending s))) (output_ordinal out)" "0 < count (mset (map output_ordinal (st_results s))) (output_ordinal out)"
    unfolding count_greater_zero_iff .
  then have "2 \<le> count (in_flight s) (output_ordinal out)" unfolding in_flight_def count_union by linarith
  moreover obtain d where "flying W s d" using assms(2,3) by (auto simp: flight_ok_def)
  ultimately show False using flying_distinct[OF assms(1), of s d "output_ordinal out"] by simp
qed

lemma receive_invariants:
  assumes v: "valid_run cfg W" and f: "flight_ok W s" and w: "windows_ok cfg s" and dep: "depth_ok cfg s"
    and step: "coordinator_step cfg s = Some s'" and c: "st_coordinator s = Receive"
  shows "flight_ok W s' \<and> windows_ok cfg s' \<and> depth_ok cfg s'"
proof -
  have act: "active s" using c by (simp add: active_def)
  then obtain d where d: "flying W s d" using f by (auto simp: flight_ok_def)
  have len: "length (cfg_ordinals cfg) = length W" using v by (simp add: valid_run_def)
  have same: "in_flight (s\<lparr>st_coordinator := k\<rparr>) = in_flight s" "awaits_window (s\<lparr>st_coordinator := k\<rparr>) = awaits_window s" for k
    by (simp_all add: in_flight_def awaits_window_def)
  have leave: ?thesis if s': "s' = s\<lparr>st_coordinator := Leave None\<rparr>" and why: "st_next s = length W \<or> st_cancelled s"
  proof -
    have "in_flight s = {#} \<and> st_work s = []" if "st_next s = length W"
      using d that by (auto simp: flying_def split: if_splits)
    then show ?thesis using f w dep s' why same
      by (auto simp: flight_ok_def windows_ok_def depth_ok_def active_def)
  qed
  show ?thesis
  proof (cases "st_next s < length W")
    case False
    then have "st_next s = length W" using f by (simp add: flight_ok_def)
    then show ?thesis using leave step c len by (simp add: coordinator_step_def)
  next
    case True
    show ?thesis
    proof (cases "st_results s")
      case (Cons out rest)
      have none: "map_of (st_pending s) (output_ordinal out) = None" using results_fresh[OF v f act] Cons by simp
      let ?p = "btree_insert (output_ordinal out) out (st_pending s)"
      have inc: "increasing (st_pending s)" and keys: "\<forall>p \<in> set (st_pending s). fst p = output_ordinal (snd p)"
        using f by (simp_all add: flight_ok_def)
      have m: "mset ?p = add_mset (output_ordinal out, out) (mset (st_pending s))" by (rule pending_permits_insert[OF inc none])
      have "set_mset (mset ?p) = set_mset (add_mset (output_ordinal out, out) (mset (st_pending s)))" using m by simp
      then have keys': "\<forall>p \<in> set ?p. fst p = output_ordinal (snd p)" using keys by auto
      obtain r where s': "s' = s\<lparr>st_results := rest, st_report := r, st_pending := ?p, st_coordinator := Deliver\<rparr>"
          and r: "report_depth r = report_depth (st_report s)"
        using step c True len Cons none by (auto simp: coordinator_step_def Let_def split: sum.splits)
      have "in_flight s' = in_flight s" "awaits_window s' = awaits_window s"
        using s' Cons m by (simp_all add: in_flight_def awaits_window_def mset_map)
      moreover have "flying W s' d" using d s' calculation by (simp add: flying_def)
      ultimately show ?thesis
        using f w dep s' r Cons keys' increasing_btree_insert[OF inc] act by (auto simp: flight_ok_def windows_ok_def depth_ok_def active_def)
    next
      case Nil
      then have all: "\<forall>x \<in> set (st_workers s). x = Stopped" and s': "s' = s\<lparr>st_coordinator := Leave None\<rparr>"
        using step c True len by (auto simp: coordinator_step_def split: if_splits)
      have "st_cancelled s"
      proof (rule ccontr)
        assume nc: "\<not> st_cancelled s"
        have "st_workers s \<noteq> []" using v w by (auto simp: valid_run_def windows_ok_def)
        then have "Stopped \<in> set (st_workers s)" using all by (metis last_in_set)
        then have ex: "st_dispatcher s = Exited" "st_queue s = []" using f act by (auto simp: flight_ok_def)
        have "concat (map worker_ordinals (st_workers s)) = []" using all by (auto simp: concat_eq_Nil_conv)
        then have pend: "in_flight s = mset (map fst (st_pending s))" using ex Nil by (simp add: in_flight_def)
        have "st_next s < d" using d ex nc True by (auto simp: flying_def)
        from flying_next[OF d this] pend have "item_ordinal (W ! st_next s) \<in># mset (map fst (st_pending s))" by simp
        moreover have "map_of (st_pending s) (item_ordinal (W ! st_next s)) = None" using f c True by (auto simp: flight_ok_def)
        ultimately show False by (auto simp: map_of_eq_None_iff)
      qed
      then show ?thesis using leave s' by blast
    qed
  qed
qed

lemma take_snoc_nth: "n < length xs \<Longrightarrow> take n xs @ [xs ! n] = take (Suc n) xs"
  by (simp add: take_Suc_conv_app_nth)

lemma deliver_invariants:
  assumes v: "valid_run cfg W" and f: "flight_ok W s" and w: "windows_ok cfg s" and dep: "depth_ok cfg s"
    and step: "coordinator_step cfg s = Some s'" and c: "st_coordinator s = Deliver"
  shows "flight_ok W s' \<and> windows_ok cfg s' \<and> depth_ok cfg s'"
proof -
  have act: "active s" using c by (simp add: active_def)
  then obtain d where d: "flying W s d" using f by (auto simp: flight_ok_def)
  let ?n = "st_next s" and ?o = "cfg_ordinals cfg ! st_next s"
  have len: "length (cfg_ordinals cfg) = length W" using v by (simp add: valid_run_def)
  show ?thesis
  proof (cases "if ?n < length (cfg_ordinals cfg) then map_of (st_pending s) ?o else None")
    case None
    then have s': "s' = observe_depth (s\<lparr>st_coordinator := Receive\<rparr>)" using step c by (simp add: coordinator_step_def)
    have none: "?n < length W \<longrightarrow> map_of (st_pending s) (item_ordinal (W ! ?n)) = None"
      using None v len by (auto simp: valid_run_def)
    have b: "length (st_pending s) \<le> dispatch_lookahead (cfg_limits cfg) - 1" by (rule pending_bound[OF v f w act none])
    have "in_flight s' = in_flight s" "awaits_window s' = awaits_window s"
      using s' by (simp_all add: in_flight_def awaits_window_def observe_depth_def)
    moreover have "flying W s' d" using d s' calculation by (simp add: flying_def observe_depth_def)
    ultimately show ?thesis using f w dep s' b none act
      by (auto simp: flight_ok_def windows_ok_def depth_ok_def active_def observe_depth_def)
  next
    case (Some out)
    then have n: "?n < length W" and out: "map_of (st_pending s) ?o = Some out" using len by (auto split: if_splits)
    have o: "?o = item_ordinal (W ! ?n)" using v n by (simp add: valid_run_def)
    have inc: "increasing (st_pending s)" and keys: "\<forall>p \<in> set (st_pending s). fst p = output_ordinal (snd p)"
      using f by (simp_all add: flight_ok_def)
    have oo: "output_ordinal out = ?o" using keys map_of_SomeD[OF out] by fastforce
    let ?p = "pending_remove ?o (st_pending s)"
    have m: "mset (st_pending s) = add_mset (?o, out) (mset ?p)" by (rule pending_remove_permits[OF inc out])
    have inc': "increasing ?p" using inc by (simp add: increasing_def pending_remove_def sorted_wrt_map sorted_wrt_filter)
    have keys': "\<forall>p \<in> set ?p. fst p = output_ordinal (snd p)" using keys by (simp add: pending_remove_def)
    have fl: "in_flight s = add_mset ?o (in_flight (s\<lparr>st_pending := ?p\<rparr>))"
      using arg_cong[OF m, of "image_mset fst"] by (simp add: in_flight_def)
    have nd: "?n < d" using fl by (intro flying_nonempty[OF d, of ?o]) simp
    have fl': "in_flight (s\<lparr>st_pending := ?p\<rparr>) = mset (map item_ordinal (drop (Suc ?n) (take d W)))"
      using fl flying_next[OF d nd] o by simp
    have holds: "Suc ?n < d" if "dispatcher_items (st_dispatcher s) = [item]" for item
    proof (rule ccontr)
      assume "\<not> Suc ?n < d"
      then have "d - 1 = ?n" using nd by simp
      then have "item = W ! ?n" using d that by (simp add: flying_def)
      then have "?o \<in># in_flight (s\<lparr>st_pending := ?p\<rparr>)" using that o by (simp add: in_flight_def)
      then have "2 \<le> count (in_flight s) ?o" using fl by (simp add: Suc_le_eq)
      then show False using flying_distinct[OF v d, of ?o] by simp
    qed
    have len_p: "length (st_pending s) = Suc (length ?p)" using arg_cong[OF m, of size] by simp
    have used: "1 \<le> window_used (st_window s)" "length ?p \<le> dispatch_lookahead (cfg_limits cfg) - 1"
    proof -
      have "size (in_flight (s\<lparr>st_pending := []\<rparr>)) + length (st_pending s) = size (in_flight s)" by (simp add: in_flight_def)
      moreover have "awaits_window s \<le> size (in_flight (s\<lparr>st_pending := []\<rparr>))"
        using awaits_window_le[of "s\<lparr>st_pending := []\<rparr>"] by (simp add: awaits_window_def)
      ultimately have "length (st_pending s) \<le> window_used (st_window s)" using w by (simp add: windows_ok_def)
      then show "1 \<le> window_used (st_window s)" "length ?p \<le> dispatch_lookahead (cfg_limits cfg) - 1"
        using w len_p by (auto simp: windows_ok_def)
    qed
    obtain r s1 where del: "deliver_output cfg out (s\<lparr>st_pending := ?p\<rparr>) = (r, s1)"
      by (cases "deliver_output cfg out (s\<lparr>st_pending := ?p\<rparr>)") auto
    have same1: "st_next s1 = ?n" "st_pending s1 = ?p" "st_workers s1 = st_workers s" "st_queue s1 = st_queue s"
        "st_results s1 = st_results s" "st_dispatcher s1 = st_dispatcher s" "st_work s1 = st_work s"
        "st_cancelled s1 = st_cancelled s" "st_window s1 = window_release (st_window s)"
        "budget_limit (st_budget s1) = budget_limit (st_budget s)" "st_coordinator s1 = Deliver"
        "report_depth (st_report s1) = report_depth (st_report s)"
        "st_log s1 = (case r of Inr _ \<Rightarrow> st_log s @ [(?o, projr (output_result out))] | Inl _ \<Rightarrow> st_log s)"
      using del c oo by (auto simp: deliver_output_def Let_def split: sum.splits prod.splits)
    have fl1: "in_flight s1 = in_flight (s\<lparr>st_pending := ?p\<rparr>)" "awaits_window s1 = awaits_window s"
      using same1 by (simp_all add: in_flight_def awaits_window_def)
    have sz: "size (in_flight s) = Suc (size (in_flight s1))" using fl fl1 by simp
    show ?thesis
    proof (cases r)
      case (Inl e)
      then have s': "s' = observe_depth (s1\<lparr>st_cancelled := True, st_coordinator := Leave (Some e)\<rparr>)"
        using step c Some del by (simp add: coordinator_step_def)
      have "in_flight s' = in_flight s1" "awaits_window s' = awaits_window s1" using s' by (simp_all add: in_flight_def awaits_window_def observe_depth_def)
      note e = this
      have F: "st_next s' = ?n" "st_log s' = st_log s" "st_pending s' = ?p" "st_coordinator s' = Leave (Some e)" "st_cancelled s'"
          "st_window s' = window_release (st_window s)" "st_queue s' = st_queue s" "st_results s' = st_results s"
          "st_workers s' = st_workers s" "budget_limit (st_budget s') = budget_limit (st_budget s)"
          "report_depth (st_report s') = max (report_depth (st_report s)) (length ?p)"
        by (simp_all add: s' observe_depth_def same1 Inl)
      have "flight_ok W s'" using f inc' keys' F(1-5) by (simp add: flight_ok_def active_def)
      moreover have "windows_ok cfg s'" using w F(6-10) e fl1(2) sz used(1) by (auto simp: windows_ok_def window_release_def)
      moreover have "depth_ok cfg s'" using dep F(11) used(2) by (simp add: depth_ok_def)
      ultimately show ?thesis by blast
    next
      case (Inr u)
      then have s': "s' = s1\<lparr>st_next := Suc ?n\<rparr>" using step c Some del same1(1) by (simp add: coordinator_step_def)
      have e: "in_flight s' = in_flight s1" "awaits_window s' = awaits_window s1" using s' by (simp_all add: in_flight_def awaits_window_def)
      have "flying W s' d" using d nd s' same1 e fl1 fl' holds by (auto simp: flying_def)
      moreover have "map fst (st_log s') = take (Suc ?n) (map item_ordinal W)"
        using f s' same1(13) Inr o n take_snoc_nth[of ?n "map item_ordinal W"] by (simp add: flight_ok_def)
      moreover have F: "st_next s' = Suc ?n" "st_pending s' = ?p" "st_coordinator s' = Deliver" "st_cancelled s' = st_cancelled s"
          "st_dispatcher s' = st_dispatcher s" "st_window s' = window_release (st_window s)" "st_queue s' = st_queue s"
          "st_results s' = st_results s" "st_workers s' = st_workers s" "budget_limit (st_budget s') = budget_limit (st_budget s)"
          "report_depth (st_report s') = report_depth (st_report s)"
        by (simp_all add: s' same1)
      moreover have "Stopped \<in> set (st_workers s) \<longrightarrow> st_dispatcher s = Exited \<and> st_queue s = []"
        using f act by (simp add: flight_ok_def)
      ultimately have "flight_ok W s'" using inc' keys' n by (auto simp: flight_ok_def active_def)
      moreover have "windows_ok cfg s'" using w F(6-10) e fl1(2) sz used(1) by (auto simp: windows_ok_def window_release_def)
      moreover have "depth_ok cfg s'" using dep F(11) by (simp add: depth_ok_def)
      ultimately show ?thesis by blast
    qed
  qed
qed

lemma fold_drop_fields:
  "let s' = fold (\<lambda>p. drop_output (snd p)) ps s in st_dispatcher s' = st_dispatcher s \<and> st_queue s' = st_queue s
     \<and> st_results s' = st_results s \<and> st_pending s' = st_pending s \<and> st_workers s' = st_workers s \<and> st_work s' = st_work s
     \<and> st_next s' = st_next s \<and> st_log s' = st_log s \<and> st_coordinator s' = st_coordinator s \<and> st_cancelled s' = st_cancelled s
     \<and> st_report s' = st_report s \<and> budget_limit (st_budget s') = budget_limit (st_budget s) \<and> st_sink s' = st_sink s
     \<and> window_limit (st_window s') = window_limit (st_window s)
     \<and> window_used (st_window s') = window_used (st_window s) - length ps"
  by (induction ps arbitrary: s) (auto simp: Let_def window_release_def)

lemma leave_invariants:
  assumes f: "flight_ok W s" and w: "windows_ok cfg s" and dep: "depth_ok cfg s" and v: "valid_run cfg W"
    and step: "coordinator_step cfg s = Some s'" and c: "st_coordinator s = Leave e"
  shows "flight_ok W s' \<and> windows_ok cfg s' \<and> depth_ok cfg s'"
proof -
  let ?s = "s\<lparr>st_pending := []\<rparr>"
  define s1 where "s1 = fold (\<lambda>p. drop_output (snd p)) (st_pending s) ?s"
  have F: "st_dispatcher s1 = st_dispatcher s" "st_queue s1 = st_queue s" "st_results s1 = st_results s" "st_pending s1 = []"
      "st_workers s1 = st_workers s" "st_work s1 = st_work s" "st_next s1 = st_next s" "st_log s1 = st_log s"
      "st_cancelled s1 = st_cancelled s" "st_report s1 = st_report s" "budget_limit (st_budget s1) = budget_limit (st_budget s)"
      "window_limit (st_window s1) = window_limit (st_window s)"
      "window_used (st_window s1) = window_used (st_window s) - length (st_pending s)"
    using fold_drop_fields[of "st_pending s" ?s] unfolding s1_def Let_def by simp_all
  have split: "size (in_flight s) = size (in_flight ?s) + length (st_pending s)" by (simp add: in_flight_def)
  have fl: "in_flight s1 = in_flight ?s" "awaits_window s1 = awaits_window s" using F by (simp_all add: in_flight_def awaits_window_def)
  have aw: "awaits_window s \<le> size (in_flight ?s)" using awaits_window_le[of ?s] by (simp add: awaits_window_def)
  have sub: "in_flight s = {#} \<Longrightarrow> in_flight ?s = {#}" by (simp add: in_flight_def)
  have len: "length (cfg_ordinals cfg) = length W" using v by (simp add: valid_run_def)
  have step': "s' = (case e of Some x \<Rightarrow> s1\<lparr>st_coordinator := Returned (Inl x)\<rparr>
      | None \<Rightarrow> if st_next s = length W then s1\<lparr>st_coordinator := Returned (Inr ())\<rparr>
          else s1\<lparr>st_cancelled := True, st_coordinator := Returned (Inl Cancelled)\<rparr>)"
    using step c len F(7) by (auto simp: coordinator_step_def Let_def s1_def[symmetric] split: option.splits)
  define k where "k = st_coordinator s'"
  define b where "b = st_cancelled s'"
  have s': "s' = s1\<lparr>st_cancelled := b, st_coordinator := k\<rparr>"
    and k: "(\<exists>x. e = Some x \<and> k = Returned (Inl x) \<and> b = st_cancelled s) \<or>
      (e = None \<and> st_next s = length W \<and> k = Returned (Inr ()) \<and> b = st_cancelled s) \<or> (e = None \<and> k = Returned (Inl Cancelled) \<and> b)"
    unfolding k_def b_def step' using F(9) by (auto split: option.splits)
  have e': "in_flight s' = in_flight ?s" "awaits_window s' = awaits_window s" using s' fl by (simp_all add: in_flight_def awaits_window_def)
  have "flight_ok W s'" using f s' F k e'(1) sub c by (auto simp: flight_ok_def active_def increasing_def)
  moreover have "windows_ok cfg s'" using w s' F e' split aw by (auto simp: windows_ok_def)
  moreover have "depth_ok cfg s'" using dep s' F by (simp add: depth_ok_def)
  ultimately show ?thesis by blast
qed

section \<open>Reachable states\<close>

definition pipeline_ok :: "('t, 'u, 's) config \<Rightarrow> 't WorkItem list \<Rightarrow> ('t, 'u, 's) pstate \<Rightarrow> bool" where
  "pipeline_ok cfg W s \<longleftrightarrow> flight_ok W s \<and> windows_ok cfg s \<and> depth_ok cfg s \<and> budget_ok s"

lemma pipeline_step_ok:
  assumes v: "valid_run cfg W" and ok: "pipeline_ok cfg W s" and step: "pipeline_step cfg s s'"
  shows "pipeline_ok cfg W s'"
proof -
  have f: "flight_ok W s" and w: "windows_ok cfg s" and d: "depth_ok cfg s" and b: "budget_ok s"
    using ok by (simp_all add: pipeline_ok_def)
  show ?thesis using step
  proof cases
    case dispatch
    have "st_report s' = st_report s" using dispatch
      by (auto simp: dispatcher_step_def split: dispatcher.splits list.splits option.splits sum.splits if_splits)
    then show ?thesis using dispatcher_invariants[OF v f w dispatch] dispatcher_budget[OF b dispatch] d
      by (simp add: pipeline_ok_def depth_ok_def)
  next
    case (work i)
    then show ?thesis using worker_invariants[OF f w work] worker_budget[OF b work] worker_control[OF work] d
      by (simp add: pipeline_ok_def depth_ok_def same_control_def)
  next
    case (exhausted i)
    have "st_report s' = st_report s" using exhausted(2) by (rule exhausted_cases) simp
    then show ?thesis using exhausted_invariants[OF f w exhausted] exhausted_budget[OF b exhausted] d
      by (simp add: pipeline_ok_def depth_ok_def)
  next
    case coordinate
    have "budget_ok s'"
      by (rule coordinator_budget[OF b _ coordinate])
        (use f results_fresh[OF v f] in \<open>auto simp: flight_ok_def active_def\<close>)
    moreover have "flight_ok W s' \<and> windows_ok cfg s' \<and> depth_ok cfg s'"
    proof (cases "st_coordinator s")
      case (Returned x)
      then show ?thesis using coordinate by (simp add: coordinator_step_def)
    qed (use receive_invariants[OF v f w d coordinate] deliver_invariants[OF v f w d coordinate]
        leave_invariants[OF f w d v coordinate] in blast)+
    ultimately show ?thesis by (simp add: pipeline_ok_def)
  next
    case cancel
    have "in_flight s' = in_flight s" "awaits_window s' = awaits_window s" "active s' = active s" "held_permits s' = held_permits s"
      using cancel by (simp_all add: in_flight_def awaits_window_def active_def held_permits_def)
    moreover have "flying W s' d" if "flying W s d" for d using that cancel calculation(1) by (auto simp: flying_def)
    ultimately show ?thesis using f w d b cancel
      by (auto simp: pipeline_ok_def flight_ok_def windows_ok_def depth_ok_def budget_ok_def)
  qed
qed

lemma start_ok:
  assumes v: "valid_run cfg W" and "cfg_workers cfg = worker_count (cfg_limits cfg) W"
  shows "pipeline_ok cfg W (start_execution (cfg_limits cfg) W sink)" (is "pipeline_ok _ _ ?s")
proof -
  have r: "concat (map g (replicate n Idle)) = []" if "g Idle = []" for g n using that by (induction n) simp_all
  have i: "in_flight ?s = {#}" "held_permits ?s = {#}" "awaits_window ?s = 0"
    by (simp_all add: start_execution_def in_flight_def held_permits_def awaits_window_def r del: map_replicate)
  have "flying W ?s 0" using i(1) by (simp add: flying_def start_execution_def)
  moreover have "windows_ok cfg ?s" using i assms(2) by (simp add: windows_ok_def start_execution_def)
  moreover have "budget_ok ?s" using i(2) by (simp add: budget_ok_def accounts_def start_execution_def ResourceBudget_new_def)
  moreover have "depth_ok cfg ?s" by (simp add: depth_ok_def start_execution_def report_new_def)
  ultimately show ?thesis using i(1)
    by (auto simp: pipeline_ok_def flight_ok_def start_execution_def increasing_def active_def)
qed

lemma reachable_ok:
  assumes "valid_run cfg W" and "cfg_workers cfg = worker_count (cfg_limits cfg) W"
    and "(pipeline_step cfg)\<^sup>*\<^sup>* (start_execution (cfg_limits cfg) W sink) s"
  shows "pipeline_ok cfg W s"
  using assms(3) by (induction rule: rtranclp_induct) (auto intro: start_ok[OF assms(1,2)] pipeline_step_ok[OF assms(1)])

end
