(* ===== verification/MW_PipelineValues.thy ===== *)
theory MW_PipelineValues
  imports MW_PipelineOrder
begin

text \<open>
  What the sink receives: every delivered value is one that the preparation callback of its own
  work item can return.
\<close>

section \<open>Results of callbacks\<close>

text \<open>The results that a callback can return, for all states of the cancellation flag and all refused requests.\<close>

inductive may_return :: "'u prep \<Rightarrow> 'u PreparedItem result \<Rightarrow> bool" where
  finish: "may_return (Finish r) r"
| poll: "may_return (k b) r \<Longrightarrow> may_return (Poll k) r"
| granted: "may_return body r1 \<Longrightarrow> may_return (k r1) r \<Longrightarrow> may_return (Require required body k) r"
| refused: "e \<in> {Cancelled, ResourceLimit} \<Longrightarrow> may_return (k (Inl e)) r \<Longrightarrow> may_return (Require required body k) r"

inductive_simps may_return_simps [simp]:
  "may_return (Finish r') r" "may_return (Poll k) r" "may_return (Require required body k) r"

primrec continuation :: "'u pframe \<Rightarrow> 'u PreparedItem result \<Rightarrow> 'u prep" where
  "continuation (Direct k) = k"
| "continuation (Held reservation previous n k) = k"

primrec resumes :: "'u pframe list \<Rightarrow> 'u prep \<Rightarrow> 'u PreparedItem result \<Rightarrow> bool" where
  "resumes [] p r = may_return p r"
| "resumes (f # fs) p r = (\<exists>r1. may_return p r1 \<and> resumes fs (continuation f r1) r)"

lemma resumes_poll: "resumes fs (k b) r \<Longrightarrow> resumes fs (Poll k) r"
  by (cases fs) auto

lemma resumes_granted: "continuation f = k \<Longrightarrow> resumes (f # fs) body r \<Longrightarrow> resumes fs (Require required body k) r"
  by (cases fs) auto

lemma resumes_refused: "e \<in> {Cancelled, ResourceLimit} \<Longrightarrow> resumes fs (k (Inl e)) r \<Longrightarrow> resumes fs (Require required body k) r"
  by (cases fs) auto

section \<open>The invariant\<close>

definition returned_by :: "('t, 'u, 's) config \<Rightarrow> 't WorkItem list \<Rightarrow> nat \<Rightarrow> 'u PreparedItem \<Rightarrow> bool" where
  "returned_by cfg W ordinal x \<longleftrightarrow> (\<exists>item \<in> set W. item_ordinal item = ordinal \<and> may_return (cfg_prepare cfg (item_value item)) (Inr x))"

definition output_good :: "('t, 'u, 's) config \<Rightarrow> 't WorkItem list \<Rightarrow> 'u WorkerOutput \<Rightarrow> bool" where
  "output_good cfg W out \<longleftrightarrow> (\<forall>x. output_result out = Inr x \<longrightarrow> returned_by cfg W (output_ordinal out) x)"

primrec worker_good :: "('t, 'u, 's) config \<Rightarrow> 't WorkItem list \<Rightarrow> ('t, 'u) worker \<Rightarrow> bool" where
  "worker_good cfg W Idle = True"
| "worker_good cfg W (Starting ctx v) = (\<exists>item \<in> set W. item_ordinal item = ctx_ordinal ctx \<and> item_value item = v)"
| "worker_good cfg W (Preparing ctx p fs) = (\<forall>x. resumes fs p (Inr x) \<longrightarrow> returned_by cfg W (ctx_ordinal ctx) x)"
| "worker_good cfg W (Acquiring ctx required missing body k fs) =
     (\<forall>x. resumes fs (Require required body k) (Inr x) \<longrightarrow> returned_by cfg W (ctx_ordinal ctx) x)"
| "worker_good cfg W (Sending out) = output_good cfg W out"
| "worker_good cfg W Stopped = True"

definition values_ok :: "('t, 'u, 's) config \<Rightarrow> 't WorkItem list \<Rightarrow> ('t, 'u, 's) pstate \<Rightarrow> bool" where
  "values_ok cfg W s \<longleftrightarrow> set (st_work s) \<subseteq> set W \<and> set (dispatcher_items (st_dispatcher s)) \<subseteq> set W
     \<and> (\<forall>q \<in> set (st_queue s). queued_item q \<in> set W) \<and> (\<forall>w \<in> set (st_workers s). worker_good cfg W w)
     \<and> (\<forall>out \<in> set (st_results s). output_good cfg W out) \<and> (\<forall>p \<in> set (st_pending s). output_good cfg W (snd p))
     \<and> (\<forall>(ordinal, x) \<in> set (st_log s). returned_by cfg W ordinal x)"

lemma output_result_good:
  assumes "worker_output r ctx b = (out, b')" and "\<forall>x. r = Inr x \<longrightarrow> returned_by cfg W (ctx_ordinal ctx) x"
  shows "output_good cfg W out"
  using assms output_effect[OF assms(1)]
  by (auto simp: worker_output_def Let_def output_good_def bindR_Inr split: sum.splits prod.splits if_splits)

lemma worker_values:
  assumes ok: "values_ok cfg W s" and i: "i < length (st_workers s)" and step: "worker_step cfg i s = Some s'"
  shows "values_ok cfg W s'"
proof -
  have w: "worker_good cfg W (st_workers s ! i)" using ok i by (simp add: values_ok_def)
  have upd: "values_ok cfg W (set_worker i v (s\<lparr>st_budget := b\<rparr>))" if "worker_good cfg W v" for v b
    using ok that by (auto simp: values_ok_def dest: set_worker_mem)
  have same: "values_ok cfg W (set_worker i v s)" if "worker_good cfg W v" for v
    using ok that by (auto simp: values_ok_def dest: set_worker_mem)
  show ?thesis
  proof (cases "st_workers s ! i")
    case Idle
    show ?thesis
    proof (cases "st_queue s")
      case Nil
      then show ?thesis using step Idle same[of Stopped] by (auto simp: worker_step_def split: if_splits)
    next
      case (Cons q qs)
      then have "queued_item q \<in> set W" using ok by (simp add: values_ok_def)
      then have g: "worker_good cfg W (Starting (PrepareContext_new (item_ordinal (queued_item q)) (queued_reservation q)) (item_value (queued_item q)))"
        by (auto simp: PrepareContext_new_def)
      show ?thesis using step Idle Cons ok g by (auto simp: worker_step_def values_ok_def simp del: worker_good.simps dest!: set_worker_mem)
    qed
  next
    case (Starting ctx v)
    then obtain item where "item \<in> set W" "item_ordinal item = ctx_ordinal ctx" "item_value item = v" using w by auto
    then have "worker_good cfg W (Preparing ctx (if st_cancelled s then Finish (Inl Cancelled) else cfg_prepare cfg v) [])"
      by (auto simp: returned_by_def)
    from same[OF this] show ?thesis using step Starting by (auto simp: worker_step_def)
  next
    case (Sending out)
    then have "output_good cfg W out" using w by simp
    then show ?thesis using step Sending ok same[of Stopped] same[of Idle]
      by (auto simp: worker_step_def values_ok_def dest!: set_worker_mem split: coordinator.splits if_splits)
  next
    case (Acquiring ctx required missing body k fs)
    have refuse: "worker_good cfg W (Preparing ctx (k (Inl e)) fs)" if "e \<in> {Cancelled, ResourceLimit}" for e
      using w Acquiring resumes_refused[OF that, of fs k _ required body] by auto
    have errors: "e \<in> {Cancelled, ResourceLimit}" if "budget_acquire missing c b = Some (Inl e)" for c b e
      using that by (auto simp: budget_acquire_def Let_def split: if_splits)
    have grant: "worker_good cfg W (Preparing ctx' body (f # fs))" if "with_resources_acquired required missing k ctx = (ctx', f)" for ctx' f
    proof -
      have f: "continuation f = k" "ctx_ordinal ctx' = ctx_ordinal ctx"
        using that by (auto simp: with_resources_acquired_def Let_def split: prod.splits)
      show ?thesis using w Acquiring resumes_granted[OF f(1), of fs body _ required] f(2) by auto
    qed
    show ?thesis using step Acquiring same[OF refuse] upd[OF grant] errors
      by (auto simp: worker_step_def Let_def split: option.splits sum.splits prod.splits)
  next
    case (Preparing ctx p fs)
    show ?thesis
    proof (cases p)
      case (Poll k)
      have "worker_good cfg W (Preparing ctx (k (st_cancelled s)) fs)" using w Preparing Poll resumes_poll[of fs k] by auto
      from same[OF this] show ?thesis using step Preparing Poll by (auto simp: worker_step_def)
    next
      case (Require required body k)
      have "worker_good cfg W (Preparing ctx body (Direct k # fs))"
        using w Preparing Require resumes_granted[of "Direct k" k fs body _ required] by auto
      moreover have "worker_good cfg W (Acquiring ctx' required missing body k fs)"
        if "with_resources_begin required ctx (st_budget s) = Some (ctx', missing, b)" for ctx' missing b
        using w Preparing Require begin_effect[OF that] by auto
      ultimately show ?thesis using step Preparing Require same upd
        by (auto simp: worker_step_def simp del: worker_good.simps split: option.splits)
    next
      case (Finish r)
      show ?thesis
      proof (cases fs)
        case Nil
        have "worker_good cfg W (Sending out)" if "worker_output r ctx (st_budget s) = (out, b)" for out b
          using output_result_good[OF that, of cfg W] w Preparing Finish Nil by auto
        then show ?thesis using step Preparing Finish Nil upd
          by (auto simp: worker_step_def Let_def simp del: worker_good.simps split: prod.splits)
      next
        case (Cons f gs)
        have "worker_good cfg W (Preparing ctx' (continuation f r) gs)" if "ctx_ordinal ctx' = ctx_ordinal ctx" for ctx'
          using w Preparing Finish Cons that by auto
        then show ?thesis using step Preparing Finish Cons upd same
          by (cases f) (auto simp: worker_step_def Let_def simp del: worker_good.simps dest!: end_effect split: prod.splits)
      qed
    qed
  next
    case Stopped
    then show ?thesis using step by (simp add: worker_step_def)
  qed
qed

lemma exhausted_values:
  assumes ok: "values_ok cfg W s" and i: "i < length (st_workers s)" and step: "worker_exhausted i s = Some s'"
  shows "values_ok cfg W s'"
proof -
  obtain ctx required missing body k fs where w: "st_workers s ! i = Acquiring ctx required missing body k fs"
      "s' = set_worker i (Preparing ctx (k (Inl ResourceLimit)) fs) s"
    using step by (auto simp: worker_exhausted_def split: worker.splits if_splits)
  have "worker_good cfg W (st_workers s ! i)" using ok i by (simp add: values_ok_def)
  then have "worker_good cfg W (Preparing ctx (k (Inl ResourceLimit)) fs)"
    using w(1) resumes_refused[of ResourceLimit fs k _ required body] by auto
  then show ?thesis using ok w(2) by (auto simp: values_ok_def simp del: worker_good.simps dest!: set_worker_mem)
qed

lemma dispatcher_values: "values_ok cfg W s \<Longrightarrow> dispatcher_step cfg s = Some s' \<Longrightarrow> values_ok cfg W s'"
  by (auto simp: dispatcher_step_def values_ok_def split: dispatcher.splits list.splits option.splits sum.splits if_splits)

lemma values_fold_drop:
  "values_ok cfg W s \<Longrightarrow> values_ok cfg W (fold (\<lambda>p. drop_output (snd p)) ps (s\<lparr>st_pending := []\<rparr>))"
  using fold_drop_fields[of ps "s\<lparr>st_pending := []\<rparr>"] by (simp add: Let_def values_ok_def)

lemma deliver_values:
  assumes ok: "values_ok cfg W s" and out: "output_good cfg W out" and d: "deliver_output cfg out s = (r, s')"
  shows "values_ok cfg W s' \<and> st_coordinator s' = st_coordinator s"
  using assms by (auto simp: deliver_output_def Let_def values_ok_def output_good_def split: sum.splits prod.splits)

lemma coordinator_values:
  assumes ok: "values_ok cfg W s" and step: "coordinator_step cfg s = Some s'"
  shows "values_ok cfg W s'"
proof (cases "st_coordinator s")
  case Receive
  show ?thesis
  proof (cases "st_results s")
    case Nil
    then show ?thesis using step Receive ok by (auto simp: coordinator_step_def values_ok_def split: if_splits)
  next
    case (Cons out rest)
    have ins: "\<forall>p \<in> set (btree_insert (output_ordinal out) out (st_pending s)). output_good cfg W (snd p)"
      using ok Cons set_btree_insert[of "output_ordinal out" out "st_pending s"] by (auto simp: values_ok_def)
    define s1 where "s1 r k c = s\<lparr>st_results := rest, st_report := r, st_cancelled := c,
        st_pending := btree_insert (output_ordinal out) out (st_pending s), st_coordinator := k\<rparr>" for r k c
    have "values_ok cfg W (s1 r k c)" for r k c using ok ins Cons by (simp add: values_ok_def s1_def)
    moreover from this have "values_ok cfg W (drop_output prev (s1 r k c))" for prev r k c by (simp add: values_ok_def)
    moreover have "s' = s\<lparr>st_coordinator := Leave None\<rparr> \<or> (\<exists>r. s' = s1 r Deliver (st_cancelled s)) \<or>
        (\<exists>prev r. s' = drop_output prev (s1 r (Leave (Some Delivery)) True))"
      using step Receive Cons by (auto simp: coordinator_step_def Let_def s1_def split: option.splits if_splits)
    moreover have "values_ok cfg W (s\<lparr>st_coordinator := Leave None\<rparr>)" using ok by (simp add: values_ok_def)
    ultimately show ?thesis by blast
  qed
next
  case Deliver
  show ?thesis
  proof (cases "if st_next s < length (cfg_ordinals cfg) then map_of (st_pending s) (cfg_ordinals cfg ! st_next s) else None")
    case None
    then show ?thesis using step Deliver ok by (auto simp: coordinator_step_def values_ok_def observe_depth_def)
  next
    case (Some out)
    let ?s = "s\<lparr>st_pending := pending_remove (cfg_ordinals cfg ! st_next s) (st_pending s)\<rparr>"
    have "output_good cfg W out" using Some ok by (auto simp: values_ok_def dest!: map_of_SomeD split: if_splits)
    moreover have "values_ok cfg W ?s" using ok by (auto simp: values_ok_def pending_remove_def)
    moreover obtain r s1 where d: "deliver_output cfg out ?s = (r, s1)" by (cases "deliver_output cfg out ?s") auto
    ultimately have "values_ok cfg W s1" using deliver_values by blast
    then show ?thesis using step Deliver Some d
      by (auto simp: coordinator_step_def values_ok_def observe_depth_def split: sum.splits)
  qed
next
  case (Leave e)
  then show ?thesis using step values_fold_drop[OF ok, of "st_pending s"]
    by (auto simp: coordinator_step_def Let_def values_ok_def split: option.splits if_splits)
next
  case (Returned r)
  then show ?thesis using step by (simp add: coordinator_step_def)
qed

lemma pipeline_step_values: "pipeline_step cfg s s' \<Longrightarrow> values_ok cfg W s \<Longrightarrow> values_ok cfg W s'"
proof (induction rule: pipeline_step.induct)
  case (cancel s)
  then show ?case by (simp add: values_ok_def)
qed (auto intro: dispatcher_values worker_values exhausted_values coordinator_values)

lemma reachable_values:
  assumes "(pipeline_step cfg)\<^sup>*\<^sup>* (start_execution limits W sink) s"
  shows "values_ok cfg W s"
  using assms
proof (induction rule: rtranclp_induct)
  case base
  show ?case by (simp add: values_ok_def start_execution_def)
next
  case (step s s')
  then show ?case by (blast intro: pipeline_step_values)
qed

end
