(* ===== verification/MW_PipelineLive.thy ===== *)
theory MW_PipelineLive
  imports MW_PipelineValues
begin

text \<open>
  The pipeline ends: the number of steps of a run is bounded by the number of items and the steps
  of their callbacks, and a run that cannot continue has joined all threads, provided that
  callbacks ask for additional resources only in ways that cannot block each other. Without that
  proviso there is a run that cannot continue, which is shown at the end.
\<close>

section \<open>The length of a run\<close>

text \<open>A callback takes at most the given number of steps, whatever it is told.\<close>

primrec prep_within :: "'u prep \<Rightarrow> nat \<Rightarrow> bool" where
  "prep_within (Finish r) n = True"
| "prep_within (Poll k) n = (\<exists>m. n = Suc m \<and> (\<forall>b. prep_within (k b) m))"
| "prep_within (Require required body k) n =
     (\<exists>m l. n = m + l + 3 \<and> prep_within body m \<and> (\<forall>r. prep_within (k r) l))"

primrec stack_within :: "'u pframe list \<Rightarrow> 'u prep \<Rightarrow> nat \<Rightarrow> bool" where
  "stack_within [] p n = prep_within p n"
| "stack_within (f # fs) p n = (\<exists>m l. n = m + l + 1 \<and> prep_within p m \<and> (\<forall>r. stack_within fs (continuation f r) l))"

lemma stack_poll: "stack_within fs (Poll k) n \<Longrightarrow> stack_within fs (k b) (n - 1) \<and> 0 < n"
  by (cases fs) (auto, blast)

lemma stack_finish:
  assumes "stack_within (f # fs) (Finish r) n"
  shows "\<exists>m < n. stack_within fs (continuation f r) m"
proof -
  obtain m l where "n = m + l + 1" "stack_within fs (continuation f r) l" using assms by auto
  then show ?thesis by (intro exI[of _ l]) simp
qed

lemma stack_refused: "stack_within fs (Require required body k) (Suc n) \<Longrightarrow> \<exists>m < n. stack_within fs (k r) m"
proof (cases fs)
  case Nil
  assume "stack_within fs (Require required body k) (Suc n)"
  then obtain m l where "Suc n = m + l + 3" "prep_within (k r) l" using Nil by auto
  then show ?thesis using Nil by (intro exI[of _ l]) simp
next
  case (Cons f gs)
  assume "stack_within fs (Require required body k) (Suc n)"
  then obtain m l l' where "n = m + l + 3 + l'" "prep_within (k r) l" "\<forall>r. stack_within gs (continuation f r) l'" using Cons by auto
  then show ?thesis using Cons by (intro exI[of _ "l + l' + 1"]) auto
qed

lemma stack_granted:
  assumes "stack_within fs (Require required body k) (Suc n)" and "continuation f = k"
  shows "\<exists>m < n. stack_within (f # fs) body m"
proof (cases fs)
  case Nil
  then obtain m l where "Suc n = m + l + 3" "prep_within body m" "\<forall>r. prep_within (k r) l" using assms by auto
  then show ?thesis using Nil assms(2) by (intro exI[of _ "m + l + 1"]) auto
next
  case (Cons g gs)
  then obtain m l l' where n: "n = m + l + 3 + l'" "prep_within body m" "\<forall>r. prep_within (k r) l" "\<forall>r. stack_within gs (continuation g r) l'"
    using assms by auto
  have "\<forall>r. stack_within fs (continuation f r) (l + l' + 1)" using n Cons assms(2) by auto
  then have "stack_within (f # fs) body (m + (l + l' + 1) + 1)" unfolding stack_within.simps using n(2) by blast
  then show ?thesis using n(1) by (intro exI[of _ "m + (l + l' + 1) + 1"] conjI) simp
qed

text \<open>The steps that are left: of a worker, of the dispatcher, of the coordinator and of a whole state.\<close>

primrec worker_within :: "nat \<Rightarrow> ('t \<Rightarrow> 'u prep) \<Rightarrow> ('t, 'u) worker \<Rightarrow> nat \<Rightarrow> bool" where
  "worker_within c prepare Idle n = (n = 1)"
| "worker_within c prepare (Starting ctx v) n = (n = c + 7 \<and> prep_within (prepare v) c)"
| "worker_within c prepare (Preparing ctx p fs) n = (\<exists>m. n = m + 6 \<and> stack_within fs p m)"
| "worker_within c prepare (Acquiring ctx required missing body k fs) n =
     (\<exists>m. n = m + 6 \<and> stack_within fs (Require required body k) (Suc m))"
| "worker_within c prepare (Sending out) n = (n = 5)"
| "worker_within c prepare Stopped n = (n = 0)"

primrec dispatcher_left :: "nat \<Rightarrow> 't dispatcher \<Rightarrow> nat" where
  "dispatcher_left c Next = 1"
| "dispatcher_left c (AwaitWindow item) = c + 11"
| "dispatcher_left c (AwaitBudget item) = c + 10"
| "dispatcher_left c (Send q) = c + 9"
| "dispatcher_left c Exited = 0"

primrec coordinator_left :: "coordinator \<Rightarrow> nat" where
  "coordinator_left Receive = 2"
| "coordinator_left Deliver = 3"
| "coordinator_left (Leave e) = 1"
| "coordinator_left (Returned r) = 0"

definition control_left :: "nat \<Rightarrow> ('t, 'u, 's) pstate \<Rightarrow> nat" where
  "control_left c s = dispatcher_left c (st_dispatcher s) + (c + 11) * length (st_work s) + (c + 7) * length (st_queue s)
     + 3 * length (st_results s) + length (st_pending s) + coordinator_left (st_coordinator s) + (if st_cancelled s then 0 else 1)"

definition steps_left :: "nat \<Rightarrow> ('t, 'u, 's) config \<Rightarrow> ('t, 'u, 's) pstate \<Rightarrow> nat \<Rightarrow> bool" where
  "steps_left c cfg s n \<longleftrightarrow> (\<exists>ns. list_all2 (worker_within c (cfg_prepare cfg)) (st_workers s) ns \<and> n = sum_list ns + control_left c s)"

text \<open>A step that moves one worker.\<close>

lemma steps_left_worker:
  assumes n: "steps_left c cfg s n" and i: "i < length (st_workers s)" and ws: "st_workers s' = (st_workers s)[i := w]"
    and less: "\<And>m. worker_within c (cfg_prepare cfg) (st_workers s ! i) m \<Longrightarrow>
      \<exists>m'. worker_within c (cfg_prepare cfg) w m' \<and> m' + control_left c s' < m + control_left c s"
  shows "\<exists>n' < n. steps_left c cfg s' n'"
proof -
  obtain ns where ns: "list_all2 (worker_within c (cfg_prepare cfg)) (st_workers s) ns" "n = sum_list ns + control_left c s"
    using n by (auto simp: steps_left_def)
  have i': "i < length ns" using ns(1) i by (simp add: list_all2_lengthD)
  obtain m' where m': "worker_within c (cfg_prepare cfg) w m'" "m' + control_left c s' < ns ! i + control_left c s"
    using less[OF list_all2_nthD[OF ns(1) i]] by blast
  have "list_all2 (worker_within c (cfg_prepare cfg)) (st_workers s') (ns[i := m'])"
    unfolding ws by (rule list_all2_update_cong[OF ns(1) m'(1)])
  moreover have "sum_list (ns[i := m']) + ns ! i = sum_list ns + m'"
    using i' member_le_sum_list[of "ns ! i" ns] by (simp add: sum_list_update)
  ultimately show ?thesis using ns(2) m'(2)
    by (intro exI[of _ "sum_list (ns[i := m']) + control_left c s'"]) (auto simp: steps_left_def)
qed

lemma steps_left_control:
  assumes "steps_left c cfg s n" and "st_workers s' = st_workers s" and "control_left c s' < control_left c s"
  shows "\<exists>n' < n. steps_left c cfg s' n'"
proof -
  obtain ns where ns: "list_all2 (worker_within c (cfg_prepare cfg)) (st_workers s) ns" "n = sum_list ns + control_left c s"
    using assms(1) by (auto simp: steps_left_def)
  then show ?thesis using assms(2,3) by (intro exI[of _ "sum_list ns + control_left c s'"]) (auto simp: steps_left_def)
qed

lemma control_left_fields: "control_left c (set_worker i w s) = control_left c s" "control_left c (s\<lparr>st_budget := b\<rparr>) = control_left c s"
  "control_left c (drop_output out s) = control_left c s" "control_left c (release_all ps s) = control_left c s"
  by (simp_all add: control_left_def)

lemma dispatcher_shorter:
  assumes "steps_left c cfg s n" and "dispatcher_step cfg s = Some s'"
  shows "\<exists>n' < n. steps_left c cfg s' n'"
proof (rule steps_left_control[OF assms(1)])
  show "st_workers s' = st_workers s" using assms(2)
    by (auto simp: dispatcher_step_def split: dispatcher.splits list.splits option.splits sum.splits if_splits)
  show "control_left c s' < control_left c s" using assms(2)
    by (auto simp: dispatcher_step_def control_left_def split: dispatcher.splits list.splits option.splits sum.splits if_splits)
qed

lemma worker_shorter:
  assumes n: "steps_left c cfg s n" and ok: "values_ok cfg W s" and p: "\<forall>item \<in> set W. prep_within (cfg_prepare cfg (item_value item)) c"
    and i: "i < length (st_workers s)" and step: "worker_step cfg i s = Some s'"
  shows "\<exists>n' < n. steps_left c cfg s' n'"
proof -
  let ?within = "worker_within c (cfg_prepare cfg)" and ?w = "st_workers s ! i"
  have upd: ?thesis if "s' = set_worker i w (s\<lparr>st_budget := b\<rparr>)" "\<And>m. ?within ?w m \<Longrightarrow> \<exists>m' < m. ?within w m'" for w b
    using that by (intro steps_left_worker[OF n i, of s' w]) (auto simp: control_left_fields)
  have same: ?thesis if "s' = set_worker i w s" "\<And>m. ?within ?w m \<Longrightarrow> \<exists>m' < m. ?within w m'" for w
    using that by (intro steps_left_worker[OF n i, of s' w]) (auto simp: control_left_fields)
  show ?thesis
  proof (cases ?w)
    case Idle
    show ?thesis
    proof (cases "st_queue s")
      case Nil
      then show ?thesis using step Idle same[of Stopped] by (auto simp: worker_step_def split: if_splits)
    next
      case (Cons q qs)
      have "prep_within (cfg_prepare cfg (item_value (queued_item q))) c" using ok p Cons by (simp add: values_ok_def)
      then show ?thesis using step Idle Cons
        by (intro steps_left_worker[OF n i]) (auto simp: worker_step_def control_left_def)
    qed
  next
    case (Starting ctx v)
    let ?v = "Preparing ctx (if st_cancelled s then Finish (Inl Cancelled) else cfg_prepare cfg v) []"
    have "\<exists>m' < m. ?within ?v m'" if "?within ?w m" for m
      using that Starting by (intro exI[of _ "c + 6"]) auto
    moreover have "s' = set_worker i ?v s" using step Starting by (simp add: worker_step_def)
    ultimately show ?thesis using same by blast
  next
    case (Preparing ctx pr fs)
    show ?thesis
    proof (cases pr)
      case (Poll k)
      have "\<exists>m' < m. ?within (Preparing ctx (k (st_cancelled s)) fs) m'" if h: "?within ?w m" for m
      proof -
        obtain m1 where m1: "m = m1 + 6" "stack_within fs (Poll k) m1" using h Preparing Poll by auto
        then show ?thesis using stack_poll[OF m1(2), of "st_cancelled s"] by (intro exI[of _ "m1 - 1 + 6"]) (auto intro!: exI[of _ "m1 - 1"])
      qed
      moreover have "s' = set_worker i (Preparing ctx (k (st_cancelled s)) fs) s" using step Preparing Poll by (simp add: worker_step_def)
      ultimately show ?thesis using same by blast
    next
      case (Require required body k)
      have pos: "0 < m" if "stack_within fs (Require required body k) m" for m using that by (cases fs) auto
      have dir: "\<exists>m' < m + 6. ?within (Preparing ctx body (Direct k # fs)) m'" if h: "stack_within fs (Require required body k) m" for m
      proof -
        obtain m1 where "m = Suc m1" using pos[OF h] by (cases m) auto
        then obtain m2 where "m2 < m1" "stack_within (Direct k # fs) body m2"
          using stack_granted[of fs required body k m1 "Direct k"] h by (auto simp del: stack_within.simps)
        then show ?thesis using \<open>m = Suc m1\<close> by (intro exI[of _ "m2 + 6"]) (simp del: stack_within.simps)
      qed
      have acq: "\<exists>m' < m + 6. ?within (Acquiring ctx' required missing body k fs) m'"
        if "stack_within fs (Require required body k) m" for m ctx' missing
        using that pos[OF that] by (intro exI[of _ "m - 1 + 6"]) (auto intro!: exI[of _ "m - 1"])
      show ?thesis
      proof (cases "with_resources_begin required ctx (st_budget s)")
        case None
        then have "s' = set_worker i (Preparing ctx body (Direct k # fs)) s" using step Preparing Require by (simp add: worker_step_def)
        then show ?thesis using dir Preparing Require by (intro same) auto
      next
        case (Some y)
        then obtain ctx' missing b where "s' = set_worker i (Acquiring ctx' required missing body k fs) (s\<lparr>st_budget := b\<rparr>)"
          using step Preparing Require by (cases y) (auto simp: worker_step_def)
        then show ?thesis using acq Preparing Require by (intro upd) auto
      qed
    next
      case (Finish r)
      show ?thesis
      proof (cases fs)
        case Nil
        then obtain out b where "s' = set_worker i (Sending out) (s\<lparr>st_budget := b\<rparr>)"
          using step Preparing Finish by (auto simp: worker_step_def Let_def split: prod.splits)
        then show ?thesis using Preparing Finish Nil by (intro upd) auto
      next
        case (Cons f gs)
        have fin: "\<exists>m' < m. ?within (Preparing ctx' (continuation f r) gs) m'" if h: "?within ?w m" for m ctx'
        proof -
          obtain m1 where m1: "m = m1 + 6" "stack_within (f # gs) (Finish r) m1" using h Preparing Finish Cons by auto
          then obtain m2 where "m2 < m1" "stack_within gs (continuation f r) m2" using stack_finish by blast
          then show ?thesis using m1(1) by (intro exI[of _ "m2 + 6"]) simp
        qed
        have "\<exists>ctx' b. s' = set_worker i (Preparing ctx' (continuation f r) gs) (s\<lparr>st_budget := b\<rparr>)"
        proof (cases f)
          case (Direct k)
          then show ?thesis using step Preparing Finish Cons
            by (intro exI[of _ ctx] exI[of _ "st_budget s"]) (simp add: worker_step_def)
        qed (use step Preparing Finish Cons in \<open>auto simp: worker_step_def Let_def split: prod.splits\<close>)
        then show ?thesis using upd fin by blast
      qed
    qed
  next
    case (Acquiring ctx required missing body k fs)
    have ref: "\<exists>m' < m. ?within (Preparing ctx (k (Inl e)) fs) m'" if h: "?within ?w m" for m e
    proof -
      obtain m1 where m1: "m = m1 + 6" "stack_within fs (Require required body k) (Suc m1)" using h Acquiring by auto
      then obtain m2 where "m2 < m1" "stack_within fs (k (Inl e)) m2" using stack_refused by blast
      then show ?thesis using m1(1) by (intro exI[of _ "m2 + 6"]) simp
    qed
    have gr: "\<exists>m' < m. ?within (Preparing ctx' body (f # fs)) m'" if h: "?within ?w m" "continuation f = k" for m ctx' f
    proof -
      obtain m1 where m1: "m = m1 + 6" "stack_within fs (Require required body k) (Suc m1)" using h Acquiring by auto
      then obtain m2 where "m2 < m1" "stack_within (f # fs) body m2" using stack_granted[OF m1(2) h(2)] by blast
      then show ?thesis using m1(1) by (intro exI[of _ "m2 + 6"]) (simp del: stack_within.simps)
    qed
    have k: "continuation f = k" if "with_resources_acquired required missing k ctx = (ctx', f)" for ctx' f
      using that by (auto simp: with_resources_acquired_def Let_def split: prod.splits)
    consider e where "s' = set_worker i (Preparing ctx (k (Inl e)) fs) s"
      | ctx' f b where "s' = set_worker i (Preparing ctx' body (f # fs)) (s\<lparr>st_budget := b\<rparr>)" "continuation f = k"
      using step Acquiring k by (auto simp: worker_step_def Let_def split: option.splits sum.splits prod.splits)
    then show ?thesis
    proof cases
      case 1
      then show ?thesis using ref by (intro same)
    next
      case 2
      then show ?thesis using gr by (intro upd) auto
    qed
  next
    case (Sending out)
    show ?thesis
    proof (cases "\<exists>x. st_coordinator s = Returned x")
      case True
      then have "s' = drop_output out (set_worker i Stopped s)" using step Sending by (auto simp: worker_step_def)
      then show ?thesis using Sending by (intro steps_left_worker[OF n i, of s' Stopped]) (auto simp: control_left_fields)
    next
      case False
      then have "s' = set_worker i Idle (s\<lparr>st_results := st_results s @ [out]\<rparr>)"
        using step Sending by (auto simp: worker_step_def split: coordinator.splits if_splits)
      then show ?thesis using Sending by (intro steps_left_worker[OF n i, of s' Idle]) (auto simp: control_left_def)
    qed
  next
    case Stopped
    then show ?thesis using step by (simp add: worker_step_def)
  qed
qed

lemma exhausted_shorter:
  assumes n: "steps_left c cfg s n" and i: "i < length (st_workers s)" and step: "worker_exhausted i s = Some s'"
  shows "\<exists>n' < n. steps_left c cfg s' n'"
proof -
  obtain ctx required missing body k fs where w: "st_workers s ! i = Acquiring ctx required missing body k fs"
      "s' = set_worker i (Preparing ctx (k (Inl ResourceLimit)) fs) s"
    using step by (auto simp: worker_exhausted_def split: worker.splits if_splits)
  have "\<exists>m' < m. worker_within c (cfg_prepare cfg) (Preparing ctx (k (Inl ResourceLimit)) fs) m'"
    if h: "worker_within c (cfg_prepare cfg) (st_workers s ! i) m" for m
  proof -
    obtain m1 where m1: "m = m1 + 6" "stack_within fs (Require required body k) (Suc m1)" using h w(1) by auto
    then obtain m2 where "m2 < m1" "stack_within fs (k (Inl ResourceLimit)) m2" using stack_refused by blast
    then show ?thesis using m1(1) by (intro exI[of _ "m2 + 6"]) simp
  qed
  then have "\<exists>m'. worker_within c (cfg_prepare cfg) (Preparing ctx (k (Inl ResourceLimit)) fs) m' \<and> m' < m"
    if "worker_within c (cfg_prepare cfg) (st_workers s ! i) m" for m using that by blast
  then show ?thesis using w(2)
    by (intro steps_left_worker[OF n i, of s']) (simp_all add: control_left_fields del: worker_within.simps)
qed

lemma coordinator_shorter:
  assumes n: "steps_left c cfg s n" and inc: "increasing (st_pending s)" and step: "coordinator_step cfg s = Some s'"
    and fresh: "st_coordinator s = Receive \<longrightarrow> (\<forall>out \<in> set (st_results s). map_of (st_pending s) (output_ordinal out) = None)"
  shows "\<exists>n' < n. steps_left c cfg s' n'"
proof (rule steps_left_control[OF n])
  have ws: "st_workers s' = st_workers s \<and> control_left c s' < control_left c s"
  proof (cases "st_coordinator s")
    case Receive
    show ?thesis
    proof (cases "st_results s")
      case Nil
      then show ?thesis using step Receive by (auto simp: coordinator_step_def control_left_def split: if_splits)
    next
      case (Cons out rest)
      then have none: "map_of (st_pending s) (output_ordinal out) = None" using fresh Receive by simp
      have "size (mset (btree_insert (output_ordinal out) out (st_pending s))) = Suc (size (mset (st_pending s)))"
        unfolding pending_permits_insert[OF inc none] by simp
      then show ?thesis using step Receive Cons none
        by (auto simp: coordinator_step_def control_left_def Let_def split: if_splits)
    qed
  next
    case Deliver
    show ?thesis
    proof (cases "if st_next s < length (cfg_ordinals cfg) then map_of (st_pending s) (cfg_ordinals cfg ! st_next s) else None")
      case None
      then show ?thesis using step Deliver by (auto simp: coordinator_step_def control_left_def observe_depth_def)
    next
      case (Some out)
      let ?o = "cfg_ordinals cfg ! st_next s" and ?s = "s\<lparr>st_pending := pending_remove (cfg_ordinals cfg ! st_next s) (st_pending s)\<rparr>"
      have "map_of (st_pending s) ?o = Some out" using Some by (simp split: if_splits)
      from arg_cong[OF pending_remove_permits[OF inc this], of size]
      have len: "length (st_pending s) = Suc (length (pending_remove ?o (st_pending s)))" by simp
      obtain r s1 where d: "deliver_output cfg out ?s = (r, s1)" by (cases "deliver_output cfg out ?s") auto
      have "control_left c s1 = control_left c ?s \<and> st_workers s1 = st_workers s \<and> st_coordinator s1 = Deliver"
        using d Deliver by (auto simp: deliver_output_def Let_def control_left_def split: sum.splits prod.splits)
      then show ?thesis using step Deliver Some d len
        by (auto simp: coordinator_step_def control_left_def observe_depth_def split: sum.splits if_splits)
    qed
  next
    case (Leave e)
    let ?s = "fold (\<lambda>p. drop_output (snd p)) (st_pending s) (s\<lparr>st_pending := []\<rparr>)"
    have "st_workers ?s = st_workers s" "control_left c ?s = control_left c (s\<lparr>st_pending := []\<rparr>)"
      using fold_drop_fields[of "st_pending s" "s\<lparr>st_pending := []\<rparr>"] by (simp_all add: Let_def control_left_def)
    then show ?thesis using step Leave fold_drop_fields[of "st_pending s" "s\<lparr>st_pending := []\<rparr>"]
      by (auto simp: coordinator_step_def control_left_def Let_def split: option.splits if_splits)
  next
    case (Returned r)
    then show ?thesis using step by (simp add: coordinator_step_def)
  qed
  then show "st_workers s' = st_workers s" "control_left c s' < control_left c s" by simp_all
qed

lemma pipeline_step_shorter:
  assumes v: "valid_run cfg W" and ok: "pipeline_ok cfg W s" "values_ok cfg W s"
    and p: "\<forall>item \<in> set W. prep_within (cfg_prepare cfg (item_value item)) c"
    and n: "steps_left c cfg s n" and step: "pipeline_step cfg s s'"
  shows "\<exists>n' < n. steps_left c cfg s' n'"
proof -
  have f: "flight_ok W s" using ok(1) by (simp add: pipeline_ok_def)
  show ?thesis using step
  proof cases
    case dispatch
    then show ?thesis by (rule dispatcher_shorter[OF n])
  next
    case (work i)
    then show ?thesis by (rule worker_shorter[OF n ok(2) p])
  next
    case (exhausted i)
    then show ?thesis by (rule exhausted_shorter[OF n])
  next
    case coordinate
    show ?thesis
      by (rule coordinator_shorter[OF n _ coordinate])
        (use f results_fresh[OF v f] in \<open>auto simp: flight_ok_def active_def\<close>)
  next
    case cancel
    then show ?thesis by (intro steps_left_control[OF n]) (auto simp: control_left_def)
  qed
qed

text \<open>The bound for a whole run.\<close>

definition run_bound :: "nat \<Rightarrow> ('t, 'u, 's) config \<Rightarrow> nat" where
  "run_bound c cfg = (c + 11) * length (cfg_ordinals cfg) + cfg_workers cfg + 4"

lemma run_length:
  assumes v: "valid_run cfg W" and c: "cfg_workers cfg = worker_count (cfg_limits cfg) W"
    and p: "\<forall>item \<in> set W. prep_within (cfg_prepare cfg (item_value item)) c"
    and run: "((pipeline_step cfg) ^^ k) (start_execution (cfg_limits cfg) W sink) s"
  shows "\<exists>n. steps_left c cfg s n \<and> n + k \<le> run_bound c cfg"
  using run
proof (induction k arbitrary: s)
  case 0
  then have s: "s = start_execution (cfg_limits cfg) W sink" by simp
  have "steps_left c cfg s (cfg_workers cfg + control_left c s)"
    unfolding steps_left_def s by (intro exI[of _ "replicate (cfg_workers cfg) 1"])
      (simp add: start_execution_def c list_all2_conv_all_nth sum_list_replicate)
  moreover have "cfg_workers cfg + control_left c s \<le> run_bound c cfg"
    using v unfolding s by (simp add: control_left_def start_execution_def run_bound_def valid_run_def)
  ultimately show ?case by auto
next
  case (Suc k)
  then obtain t where t: "((pipeline_step cfg) ^^ k) (start_execution (cfg_limits cfg) W sink) t" "pipeline_step cfg t s" by auto
  then have r: "(pipeline_step cfg)\<^sup>*\<^sup>* (start_execution (cfg_limits cfg) W sink) t" by (metis relpowp_imp_rtranclp)
  obtain n where n: "steps_left c cfg t n" "n + k \<le> run_bound c cfg" using Suc.IH[OF t(1)] by blast
  obtain n' where "n' < n" "steps_left c cfg s n'"
    using pipeline_step_shorter[OF v reachable_ok[OF v c r] reachable_values[OF r] p n(1) t(2)] by blast
  then show ?case using n(2) by (intro exI[of _ n']) simp
qed

end
