(* ===== verification/MW_PipelineProgress.thy ===== *)
theory MW_PipelineProgress
  imports MW_PipelineLive
begin

text \<open>
  Runs of the pipeline do not get stuck when callbacks ask for additional resources in a way
  that cannot block: either no callback asks for more than its reservation (\<open>calm\<close>), or no item
  reserves source and scratch bytes in advance and callbacks ask for them one request at a time,
  within their prepared bytes (\<open>lean\<close>).
\<close>

section \<open>Disciplined callbacks\<close>

primrec calm :: "ResourceWeights \<Rightarrow> 'u prep \<Rightarrow> bool" where
  "calm w (Finish r) = True"
| "calm w (Poll k) = (\<forall>b. calm w (k b))"
| "calm w (Require required body k) = (subtract_weights required w = no_weights \<and> calm w body \<and> (\<forall>r. calm w (k r)))"

primrec lean :: "ResourceWeights \<Rightarrow> 'u prep \<Rightarrow> bool" where
  "lean w (Finish r) = True"
| "lean w (Poll k) = (\<forall>b. lean w (k b))"
| "lean w (Require required body k) =
     (weight_prepared required \<le> weight_prepared w \<and> calm (max_weights w required) body \<and> (\<forall>r. lean w (k r)))"

definition light_start :: "'t WorkItem list \<Rightarrow> bool" where
  "light_start W \<longleftrightarrow> (\<forall>item \<in> set W. weight_source (item_resources item) = 0 \<and> weight_scratch (item_resources item) = 0)"

definition patient :: "'t WorkItem list \<Rightarrow> ResourceWeights \<Rightarrow> 'u prep \<Rightarrow> bool" where
  "patient W = (if light_start W then lean else calm)"

definition disciplined :: "('t, 'u, 's) config \<Rightarrow> 't WorkItem list \<Rightarrow> bool" where
  "disciplined cfg W \<longleftrightarrow> (\<forall>item \<in> set W. patient W (item_resources item) (cfg_prepare cfg (item_value item)))"

lemma subtract_none: "subtract_weights a b = no_weights \<longleftrightarrow> (\<forall>f \<in> dims. f a \<le> f b)"
  by (auto simp: subtract_weights_def ResourceWeights_new_def dims_all)

lemma max_covered:
  assumes "subtract_weights required w = no_weights"
  shows "max_weights w required = w"
proof -
  have "weight_source required \<le> weight_source w" "weight_scratch required \<le> weight_scratch w"
      "weight_prepared required \<le> weight_prepared w"
    using assms by (simp_all add: subtract_none dims_all)
  then show ?thesis by (cases w) (auto simp: max_weights_def ResourceWeights_new_def)
qed

lemma calm_lean: "calm w p \<Longrightarrow> lean w p"
  by (induction p) (auto simp: max_covered, auto simp: subtract_none dims_all)

lemma calm_patient: "calm w p \<Longrightarrow> patient W w p"
  by (simp add: patient_def calm_lean)

lemma patient_simps:
  "patient W w (Finish r)" "patient W w (Poll p) \<Longrightarrow> patient W w (p b)"
  "patient W w (Require required body k) \<Longrightarrow> subtract_weights required w = no_weights \<Longrightarrow> calm w body \<and> (\<forall>r. patient W w (k r))"
  "patient W w (Require required body k) \<Longrightarrow> subtract_weights required w \<noteq> no_weights \<Longrightarrow>
     light_start W \<and> weight_prepared required \<le> weight_prepared w \<and> calm (max_weights w required) body \<and> (\<forall>r. lean w (k r))"
  by (auto simp: patient_def max_covered split: if_splits)

section \<open>The invariant of disciplined runs\<close>

primrec good_stack :: "'t WorkItem list \<Rightarrow> ResourceWeights \<Rightarrow> ResourceWeights \<Rightarrow> 'u pframe list \<Rightarrow> 'u prep \<Rightarrow> bool" where
  "good_stack W w R [] p = (R = w \<and> patient W w p)"
| "good_stack W w R (f # fs) p = (calm R p \<and> (case f of
     Direct k \<Rightarrow> \<forall>r. good_stack W w R fs (k r)
   | Held permit previous n k \<Rightarrow> previous = w \<and> weight_prepared permit = 0 \<and> weight_prepared R = weight_prepared w
       \<and> (\<forall>r. good_stack W w w fs (k r))))"

lemma good_stack_calm: "good_stack W w R fs p \<Longrightarrow> calm R p' \<Longrightarrow> good_stack W w R fs p'"
  by (cases fs) (auto simp: calm_patient)

definition slim :: "'u WorkerOutput \<Rightarrow> bool" where
  "slim out \<longleftrightarrow> (\<forall>p \<in> set (output_permits out). weight_source p = 0 \<and> weight_scratch p = 0)"

primrec worker_lean :: "('t, 'u, 's) config \<Rightarrow> 't WorkItem list \<Rightarrow> ('t, 'u) worker \<Rightarrow> bool" where
  "worker_lean cfg W Idle = True"
| "worker_lean cfg W (Starting ctx v) = (\<exists>item \<in> set W. item_value item = v \<and> ctx_initial ctx = item_resources item
     \<and> ctx_reserved ctx = item_resources item \<and> ctx_promoted ctx = [])"
| "worker_lean cfg W (Preparing ctx p fs) = (\<exists>item \<in> set W. ctx_initial ctx = item_resources item
     \<and> ctx_promoted ctx = [] \<and> good_stack W (item_resources item) (ctx_reserved ctx) fs p)"
| "worker_lean cfg W (Acquiring ctx required missing body k fs) = (\<exists>item \<in> set W. light_start W \<and> fs = []
     \<and> ctx_initial ctx = item_resources item \<and> ctx_reserved ctx = item_resources item \<and> ctx_promoted ctx = []
     \<and> weight_prepared missing = 0 \<and> weight_prepared required \<le> weight_prepared (item_resources item)
     \<and> calm (max_weights (item_resources item) required) body \<and> (\<forall>r. lean (item_resources item) (k r)))"
| "worker_lean cfg W (Sending out) = slim out"
| "worker_lean cfg W Stopped = True"

definition lean_ok :: "('t, 'u, 's) config \<Rightarrow> 't WorkItem list \<Rightarrow> ('t, 'u, 's) pstate \<Rightarrow> bool" where
  "lean_ok cfg W s \<longleftrightarrow> (\<forall>q \<in> set (st_queue s). queued_reservation q = item_resources (queued_item q))
     \<and> (\<forall>q. st_dispatcher s = Send q \<longrightarrow> queued_reservation q = item_resources (queued_item q))
     \<and> (\<forall>w \<in> set (st_workers s). worker_lean cfg W w)
     \<and> (\<forall>out \<in> set (st_results s). slim out) \<and> (\<forall>p \<in> set (st_pending s). slim (snd p))"

lemma slim_output:
  assumes "worker_output r ctx b = (out, b')" and "ctx_promoted ctx = []"
  shows "slim out"
  using assms
  by (auto simp: worker_output_def Let_def OutputReservation_retain_prepared_def retain_prepared_def slim_def
      output_permits_def reservation_permits_def split: sum.splits prod.splits)

lemma worker_lean_step:
  assumes d: "disciplined cfg W" and ok: "lean_ok cfg W s" and v: "values_ok cfg W s" and i: "i < length (st_workers s)"
    and step: "worker_step cfg i s = Some s'"
  shows "lean_ok cfg W s'"
proof -
  have w: "worker_lean cfg W (st_workers s ! i)" using ok i by (simp add: lean_ok_def)
  have upd: "lean_ok cfg W (set_worker i x (s\<lparr>st_budget := b\<rparr>))" if "worker_lean cfg W x" for x b
    using ok that by (auto simp: lean_ok_def simp del: worker_lean.simps dest!: set_worker_mem)
  have same: "lean_ok cfg W (set_worker i x s)" if "worker_lean cfg W x" for x
    using ok that by (auto simp: lean_ok_def simp del: worker_lean.simps dest!: set_worker_mem)
  show ?thesis
  proof (cases "st_workers s ! i")
    case Idle
    show ?thesis
    proof (cases "st_queue s")
      case Nil
      then show ?thesis using step Idle same[of Stopped] by (auto simp: worker_step_def split: if_splits)
    next
      case (Cons q qs)
      have "queued_item q \<in> set W" "queued_reservation q = item_resources (queued_item q)"
        using ok v Cons by (simp_all add: values_ok_def lean_ok_def)
      then have g: "worker_lean cfg W (Starting (PrepareContext_new (item_ordinal (queued_item q)) (queued_reservation q)) (item_value (queued_item q)))"
        by (auto simp: PrepareContext_new_def)
      show ?thesis using step Idle Cons ok g by (auto simp: worker_step_def lean_ok_def simp del: worker_lean.simps dest!: set_worker_mem)
    qed
  next
    case (Starting ctx x)
    then obtain item where it: "item \<in> set W" "item_value item = x" "ctx_initial ctx = item_resources item"
        "ctx_reserved ctx = item_resources item" "ctx_promoted ctx = []" using w by auto
    then have "worker_lean cfg W (Preparing ctx (if st_cancelled s then Finish (Inl Cancelled) else cfg_prepare cfg x) [])"
      using d by (auto simp: disciplined_def patient_simps(1))
    from same[OF this] show ?thesis using step Starting by (auto simp: worker_step_def)
  next
    case (Sending out)
    then have "slim out" using w by simp
    then show ?thesis using step Sending ok same[of Stopped] same[of Idle]
      by (auto simp: worker_step_def lean_ok_def dest!: set_worker_mem split: coordinator.splits if_splits)
  next
    case (Acquiring ctx required missing body k fs)
    then obtain item where it: "item \<in> set W" "light_start W" "fs = []" "ctx_initial ctx = item_resources item"
        "ctx_reserved ctx = item_resources item" "ctx_promoted ctx = []" "weight_prepared missing = 0"
        "weight_prepared required \<le> weight_prepared (item_resources item)"
        "calm (max_weights (item_resources item) required) body" "\<forall>r. lean (item_resources item) (k r)" using w by auto
    have refuse: "worker_lean cfg W (Preparing ctx (k (Inl e)) fs)" for e
      using it by (auto simp: patient_def)
    have grant: "worker_lean cfg W (Preparing ctx' body (f # fs))" if "with_resources_acquired required missing k ctx = (ctx', f)" for ctx' f
      using that it by (auto simp: with_resources_acquired_def split_prepared_def Let_def patient_def max_weights_def intro!: bexI[of _ item])
    show ?thesis using step Acquiring same[OF refuse] upd[OF grant]
      by (auto simp: worker_step_def Let_def split: option.splits sum.splits prod.splits)
  next
    case (Preparing ctx p fs)
    then obtain item where it: "item \<in> set W" "ctx_initial ctx = item_resources item" "ctx_promoted ctx = []"
        and g: "good_stack W (item_resources item) (ctx_reserved ctx) fs p" using w by auto
    show ?thesis
    proof (cases p)
      case (Poll k)
      have "good_stack W (item_resources item) (ctx_reserved ctx) fs (k (st_cancelled s))"
        using g Poll by (cases fs) (auto intro: patient_simps(2))
      then have "worker_lean cfg W (Preparing ctx (k (st_cancelled s)) fs)" using it by auto
      from same[OF this] show ?thesis using step Preparing Poll by (auto simp: worker_step_def)
    next
      case (Require required body k)
      show ?thesis
      proof (cases "subtract_weights required (ctx_reserved ctx) = no_weights")
        case True
        have "calm (ctx_reserved ctx) body \<and> (\<forall>r. good_stack W (item_resources item) (ctx_reserved ctx) fs (k r))"
        proof (cases fs)
          case Nil
          then show ?thesis using g Require True patient_simps(3)[of W "item_resources item" required body k] by auto
        next
          case (Cons f gs)
          then show ?thesis using g Require good_stack_calm[OF g] by auto
        qed
        then have "worker_lean cfg W (Preparing ctx body (Direct k # fs))" using it by auto
        from same[OF this] show ?thesis using step Preparing Require True
          by (auto simp: worker_step_def with_resources_begin_def)
      next
        case False
        then have nil: "fs = []" using g Require by (cases fs) auto
        then have R: "ctx_reserved ctx = item_resources item" and pat: "patient W (item_resources item) (Require required body k)"
          using g Require by auto
        from patient_simps(4)[OF pat] False R
        have q: "light_start W" "weight_prepared required \<le> weight_prepared (item_resources item)"
            "calm (max_weights (item_resources item) required) body" "\<forall>r. lean (item_resources item) (k r)" by auto
        let ?m = "subtract_weights required (ctx_reserved ctx)"
        have z: "weight_prepared ?m = 0" using q(2) R by (simp add: subtract_weights_def)
        then have beg: "with_resources_begin required ctx (st_budget s) = Some (ctx, ?m, st_budget s)"
          using False by (simp add: with_resources_begin_def Let_def)
        have "worker_lean cfg W (Acquiring ctx required ?m body k fs)" using it q R z nil by auto
        from upd[OF this, of "st_budget s"] show ?thesis using step Preparing Require beg by (auto simp: worker_step_def)
      qed
    next
      case (Finish r)
      show ?thesis
      proof (cases fs)
        case Nil
        have "worker_lean cfg W (Sending out)" if "worker_output r ctx (st_budget s) = (out, b)" for out b
          using slim_output[OF that it(3)] by simp
        then show ?thesis using step Preparing Finish Nil upd
          by (auto simp: worker_step_def Let_def simp del: worker_lean.simps split: prod.splits)
      next
        case (Cons f gs)
        show ?thesis
        proof (cases f)
          case (Direct k)
          then have "worker_lean cfg W (Preparing ctx (k r) gs)" using g Cons it by auto
          from same[OF this] show ?thesis using step Preparing Finish Cons Direct by (auto simp: worker_step_def)
        next
          case (Held permit previous n k)
          then have h: "previous = item_resources item" "weight_prepared (ctx_reserved ctx) = weight_prepared (item_resources item)"
              "\<forall>r. good_stack W (item_resources item) (item_resources item) gs (k r)" using g Cons by auto
          have new: "ResourceWeights_new (weight_source w) (weight_scratch w) (weight_prepared w) = w" for w
            by (cases w) (simp add: ResourceWeights_new_def)
          have "worker_lean cfg W (Preparing ctx' (k r) gs)" if "with_resources_end r permit previous n ctx (st_budget s) = (ctx', b)" for ctx' b
            using that h it by (auto simp: with_resources_end_def new split: sum.splits intro!: bexI[of _ item])
          then show ?thesis using step Preparing Finish Cons Held upd
            by (auto simp: worker_step_def Let_def simp del: worker_lean.simps split: prod.splits)
        qed
      qed
    qed
  next
    case Stopped
    then show ?thesis using step by (simp add: worker_step_def)
  qed
qed

lemma exhausted_lean:
  assumes ok: "lean_ok cfg W s" and i: "i < length (st_workers s)" and step: "worker_exhausted i s = Some s'"
  shows "lean_ok cfg W s'"
proof -
  have "worker_lean cfg W (st_workers s ! i)" using ok i by (simp add: lean_ok_def)
  then show ?thesis using step by (auto simp: worker_exhausted_def split: worker.splits if_splits)
qed

lemma dispatcher_lean: "lean_ok cfg W s \<Longrightarrow> dispatcher_step cfg s = Some s' \<Longrightarrow> lean_ok cfg W s'"
  by (auto simp: dispatcher_step_def lean_ok_def split: dispatcher.splits list.splits option.splits sum.splits if_splits)

lemma coordinator_lean:
  assumes ok: "lean_ok cfg W s" and step: "coordinator_step cfg s = Some s'"
  shows "lean_ok cfg W s'"
proof -
  have keep: "lean_ok cfg W s'" if "st_queue s' = st_queue s" "st_dispatcher s' = st_dispatcher s" "st_workers s' = st_workers s"
    "set (st_results s') \<subseteq> set (st_results s)" "\<forall>p \<in> set (st_pending s'). slim (snd p)"
    using ok that by (auto simp: lean_ok_def)
  show ?thesis
  proof (cases "st_coordinator s")
    case Receive
    show ?thesis
    proof (cases "st_results s")
      case Nil
      then show ?thesis using step Receive ok by (intro keep) (auto simp: coordinator_step_def lean_ok_def split: if_splits)
    next
      case (Cons out rest)
      have "\<forall>p \<in> set (btree_insert (output_ordinal out) out (st_pending s)). slim (snd p)"
        using ok Cons set_btree_insert[of "output_ordinal out" out "st_pending s"] by (auto simp: lean_ok_def)
      moreover have "st_pending s' \<in> {st_pending s, btree_insert (output_ordinal out) out (st_pending s)}"
          "st_queue s' = st_queue s" "st_dispatcher s' = st_dispatcher s" "st_workers s' = st_workers s"
          "set (st_results s') \<subseteq> set (st_results s)"
        using step Receive Cons by (auto simp: coordinator_step_def Let_def split: option.splits if_splits)
      ultimately show ?thesis using ok by (intro keep) (auto simp: lean_ok_def)
    qed
  next
    case Deliver
    have "st_pending s' \<in> {st_pending s, pending_remove (cfg_ordinals cfg ! st_next s) (st_pending s)}"
        "st_queue s' = st_queue s" "st_dispatcher s' = st_dispatcher s" "st_workers s' = st_workers s" "st_results s' = st_results s"
      using step Deliver by (auto simp: coordinator_step_def deliver_output_def Let_def observe_depth_def
          split: option.splits sum.splits prod.splits if_splits)
    then show ?thesis using ok by (intro keep) (auto simp: lean_ok_def pending_remove_def)
  next
    case (Leave e)
    then show ?thesis using step fold_drop_fields[of "st_pending s" "s\<lparr>st_pending := []\<rparr>"]
      by (intro keep) (auto simp: coordinator_step_def Let_def split: option.splits if_splits)
  next
    case (Returned r)
    then show ?thesis using step by (simp add: coordinator_step_def)
  qed
qed

lemma reachable_lean:
  assumes d: "disciplined cfg W" and run: "(pipeline_step cfg)\<^sup>*\<^sup>* (start_execution limits W sink) s"
  shows "lean_ok cfg W s"
  using run
proof (induction rule: rtranclp_induct)
  case base
  show ?case by (simp add: lean_ok_def start_execution_def)
next
  case (step s s')
  note v = reachable_values[OF step.hyps(1)]
  from step.hyps(2) show ?case
  proof cases
    case cancel
    then show ?thesis using step.IH by (simp add: lean_ok_def)
  qed (use step.IH worker_lean_step[OF d step.IH v] in \<open>auto intro: dispatcher_lean exhausted_lean coordinator_lean\<close>)
qed

section \<open>Progress\<close>

text \<open>No thread can take a step: every thread has ended or waits.\<close>

definition stuck :: "('t, 'u, 's) config \<Rightarrow> ('t, 'u, 's) pstate \<Rightarrow> bool" where
  "stuck cfg s \<longleftrightarrow> dispatcher_step cfg s = None \<and> coordinator_step cfg s = None
     \<and> (\<forall>i < length (st_workers s). worker_step cfg i s = None)"

text \<open>Why a thread waits.\<close>

lemma dispatcher_waits:
  assumes "dispatcher_step cfg s = None"
  shows "st_dispatcher s = Exited
    \<or> (\<exists>item. st_dispatcher s = AwaitWindow item \<and> \<not> st_cancelled s \<and> window_limit (st_window s) \<le> window_used (st_window s))
    \<or> (\<exists>item. st_dispatcher s = AwaitBudget item \<and> \<not> st_cancelled s
        \<and> \<not> fits_budget (budget_used (st_budget s)) (item_resources item) (budget_limit (st_budget s)))
    \<or> (\<exists>q. st_dispatcher s = Send q \<and> (\<exists>w \<in> set (st_workers s). w \<noteq> Stopped) \<and> cfg_workers cfg \<le> length (st_queue s))"
  using assms
  by (auto simp: dispatcher_step_def window_acquire_def budget_acquire_def Let_def
      split: dispatcher.splits list.splits option.splits sum.splits if_splits)

lemma worker_waits:
  assumes "worker_step cfg i s = None"
  shows "st_workers s ! i = Stopped
    \<or> (st_workers s ! i = Idle \<and> st_queue s = [] \<and> st_dispatcher s \<noteq> Exited)
    \<or> (\<exists>ctx required missing body k fs. st_workers s ! i = Acquiring ctx required missing body k fs \<and> \<not> st_cancelled s
        \<and> fits_budget no_weights missing (budget_limit (st_budget s))
        \<and> \<not> fits_budget (budget_used (st_budget s)) missing (budget_limit (st_budget s)))
    \<or> (\<exists>out. st_workers s ! i = Sending out \<and> (\<forall>x. st_coordinator s \<noteq> Returned x)
        \<and> delivery_queue_depth (cfg_limits cfg) \<le> length (st_results s))"
proof (cases "st_workers s ! i")
  case (Preparing ctx p fs)
  then show ?thesis using assms
    by (auto simp: worker_step_def Let_def split: prep.splits list.splits pframe.splits option.splits prod.splits)
qed (use assms in \<open>auto simp: worker_step_def budget_acquire_def Let_def
    split: list.splits option.splits sum.splits coordinator.splits prod.splits if_splits\<close>)

lemma coordinator_waits:
  assumes "coordinator_step cfg s = None"
  shows "(\<exists>r. st_coordinator s = Returned r) \<or> (st_coordinator s = Receive \<and> st_next s < length (cfg_ordinals cfg)
    \<and> st_results s = [] \<and> (\<exists>w \<in> set (st_workers s). w \<noteq> Stopped))"
  using assms
  by (auto simp: coordinator_step_def Let_def split: coordinator.splits list.splits option.splits sum.splits prod.splits if_splits)

text \<open>After the coordinator returned, everyone else ends.\<close>

lemma returned_joins:
  assumes v: "valid_run cfg W" and ok: "pipeline_ok cfg W s" and stuck: "stuck cfg s" and r: "st_coordinator s = Returned r"
  shows "joined s"
proof -
  have f: "flight_ok W s" and w: "windows_ok cfg s" using ok by (simp_all add: pipeline_ok_def)
  have dw: "dispatcher_step cfg s = None" and ww: "\<And>i. i < length (st_workers s) \<Longrightarrow> worker_step cfg i s = None"
    using stuck by (simp_all add: stuck_def)
  have empty: "\<not> st_cancelled s \<Longrightarrow> in_flight s = {#}"
    using f r by (cases r) (auto simp: flight_ok_def)
  have idle: "x = Stopped \<or> (x = Idle \<and> st_queue s = [] \<and> st_dispatcher s \<noteq> Exited)" if x: "x \<in> set (st_workers s)" for x
  proof -
    obtain i where i: "i < length (st_workers s)" "x = st_workers s ! i" using x by (auto simp: in_set_conv_nth)
    show ?thesis
    proof (cases "st_cancelled s")
      case True
      then show ?thesis using worker_waits[OF ww[OF i(1)]] r i(2) by auto
    next
      case False
      then have "worker_ordinals x = []" using empty x by (auto simp: in_flight_def)
      then show ?thesis using worker_waits[OF ww[OF i(1)]] r i(2) by auto
    qed
  qed
  have "st_dispatcher s = Exited"
  proof (rule ccontr)
    assume ne: "st_dispatcher s \<noteq> Exited"
    then consider (items) "dispatcher_items (st_dispatcher s) \<noteq> []" "\<not> st_cancelled s"
      | (send) q where "st_dispatcher s = Send q" "\<exists>x \<in> set (st_workers s). x \<noteq> Stopped" "cfg_workers cfg \<le> length (st_queue s)"
      using dispatcher_waits[OF dw] by auto
    then show False
    proof cases
      case items
      then show False using empty by (simp add: in_flight_def)
    next
      case send
      then obtain x where "x \<in> set (st_workers s)" "x \<noteq> Stopped" by blast
      then have "st_queue s = []" using idle by blast
      then show False using send(3) v by (simp add: valid_run_def)
    qed
  qed
  then show ?thesis using idle r by (auto simp: joined_def)
qed

text \<open>Without waiting callbacks, a coordinator never waits in vain.\<close>

lemma no_idle_deadlock:
  assumes v: "valid_run cfg W" and ok: "pipeline_ok cfg W s" and stuck: "stuck cfg s" and r: "st_coordinator s = Receive"
    and n: "st_next s < length W" and res: "st_results s = []" and q: "st_queue s = []" and ne: "st_dispatcher s \<noteq> Exited"
    and quiet: "\<forall>x \<in> set (st_workers s). x = Idle \<or> x = Stopped" and alive: "Idle \<in> set (st_workers s)"
  shows False
proof -
  have f: "flight_ok W s" and w: "windows_ok cfg s" and b: "budget_ok s" using ok by (simp_all add: pipeline_ok_def)
  have dw: "dispatcher_step cfg s = None" using stuck by (simp add: stuck_def)
  have "0 < cfg_workers cfg" using v by (simp add: valid_run_def)
  then obtain item where item: "st_dispatcher s = AwaitWindow item \<and> window_limit (st_window s) \<le> window_used (st_window s) \<or>
      st_dispatcher s = AwaitBudget item \<and> \<not> fits_budget (budget_used (st_budget s)) (item_resources item) (budget_limit (st_budget s))"
    using dispatcher_waits[OF dw] ne q by auto
  then have items: "dispatcher_items (st_dispatcher s) = [item]" by auto
  have act: "active s" using r by (simp add: active_def)
  obtain d where d: "flying W s d" using f act by (auto simp: flight_ok_def)
  then have last: "st_next s < d" "d \<le> length W" "item = W ! (d - 1)" using items by (auto simp: flying_def)
  have no_ord: "concat (map worker_ordinals (st_workers s)) = []" "concat (map worker_permits (st_workers s)) = []"
    using quiet by (auto simp: concat_eq_Nil_conv)
  have fl: "in_flight s = add_mset (item_ordinal item) (mset (map fst (st_pending s)))"
    using items q res no_ord by (simp add: in_flight_def)
  have none: "map_of (st_pending s) (item_ordinal (W ! st_next s)) = None" using f r n by (simp add: flight_ok_def)
  have "item_ordinal (W ! st_next s) \<in># in_flight s" using flying_next[OF d last(1)] by simp
  then have "item_ordinal (W ! st_next s) = item_ordinal (W ! (d - 1))" using fl none last(3) by (auto simp: map_of_eq_None_iff)
  moreover have "item_ordinal (W ! st_next s) < item_ordinal (W ! (d - 1))" if "st_next s < d - 1"
    using v last that sorted_wrt_nth_less[of "(<)" "map item_ordinal W" "st_next s" "d - 1"] by (simp add: valid_run_def)
  ultimately have "d = Suc (st_next s)" using last(1) by (cases "st_next s < d - 1") auto
  then have "size (in_flight s) \<le> 1" using d by (simp add: flying_def)
  then have pend: "st_pending s = []" using fl by (cases "st_pending s") auto
  have lim: "0 < window_limit (st_window s)" using v w by (simp add: valid_run_def windows_ok_def)
  from item show False
  proof
    assume aw: "st_dispatcher s = AwaitWindow item \<and> window_limit (st_window s) \<le> window_used (st_window s)"
    have "window_used (st_window s) = 0" using w aw fl pend by (simp add: windows_ok_def awaits_window_def)
    then show False using aw lim by simp
  next
    assume ab: "st_dispatcher s = AwaitBudget item \<and> \<not> fits_budget (budget_used (st_budget s)) (item_resources item) (budget_limit (st_budget s))"
    have "held_permits s = {#}" using ab q res pend no_ord by (simp add: held_permits_def)
    then have used: "\<forall>g \<in> dims. g (budget_used (st_budget s)) = 0" using b by (simp add: budget_ok_def accounts_def)
    have "item \<in> set W" using last by auto
    then have "fits_budget no_weights (item_resources item) (budget_limit (st_budget s))" using v w by (simp add: valid_run_def windows_ok_def)
    then show False using ab used by (auto simp: fits_budget_iff)
  qed
qed

text \<open>A waiting request of a disciplined callback can be granted.\<close>

lemma no_request_deadlock:
  assumes ok: "pipeline_ok cfg W s" "lean_ok cfg W s" "values_ok cfg W s" and stuck: "stuck cfg s" and res: "st_results s = []"
    and depth: "0 < delivery_queue_depth (cfg_limits cfg)" and i: "i < length (st_workers s)"
    and a: "st_workers s ! i = Acquiring ctx required missing body k fs"
  shows False
proof -
  have b: "accounts (st_budget s) (held_permits s)" using ok(1) by (simp add: pipeline_ok_def budget_ok_def)
  have lw: "\<And>x. x \<in> set (st_workers s) \<Longrightarrow> worker_lean cfg W x" using ok(2) by (simp add: lean_ok_def)
  have Z: "light_start W" and m: "weight_prepared missing = 0" using lw[OF nth_mem[OF i]] a by auto
  have wait: "fits_budget no_weights missing (budget_limit (st_budget s))"
      "\<not> fits_budget (budget_used (st_budget s)) missing (budget_limit (st_budget s))"
    using worker_waits[of cfg i s] stuck i a by (auto simp: stuck_def)
  have zero: "g p = 0" if g: "g = weight_source \<or> g = weight_scratch" and p: "p \<in># held_permits s" for g p
  proof -
    have items: "weight_source (item_resources it) = 0 \<and> weight_scratch (item_resources it) = 0" if "it \<in> set W" for it
      using Z that by (simp add: light_start_def)
    have ws: "weight_source x = 0 \<and> weight_scratch x = 0" if x: "x \<in> set (concat (map worker_permits (st_workers s)))" for x
    proof -
      obtain y where "y \<in> set (st_workers s)" "x \<in> set (worker_permits y)" using x by auto
      then obtain j where j: "j < length (st_workers s)" "x \<in> set (worker_permits (st_workers s ! j))" by (auto simp: in_set_conv_nth[of y])
      have "worker_step cfg j s = None" using stuck j(1) by (simp add: stuck_def)
      from worker_waits[OF this] show ?thesis
      proof (elim disjE exE conjE)
        fix ctx required missing body k fs
        assume w: "st_workers s ! j = Acquiring ctx required missing body k fs"
        then obtain it where "it \<in> set W" "ctx_initial ctx = item_resources it" "ctx_promoted ctx = []" "fs = []"
          using lw[OF nth_mem[OF j(1)]] w by auto
        then show ?thesis using j(2) w items by (auto simp: context_permits_def)
      next
        fix out assume "delivery_queue_depth (cfg_limits cfg) \<le> length (st_results s)"
        then show ?thesis using res depth by simp
      qed (use j(2) in auto)
    qed
    have disp: "weight_source x = 0 \<and> weight_scratch x = 0" if "x \<in> set (dispatcher_permits (st_dispatcher s))" for x
      using that ok(2,3) items by (cases "st_dispatcher s") (auto simp: lean_ok_def values_ok_def)
    have "p \<in> set (dispatcher_permits (st_dispatcher s)) \<or> p \<in> queued_reservation ` set (st_queue s)
        \<or> p \<in> set (concat (map worker_permits (st_workers s))) \<or> (\<exists>y \<in> set (st_pending s). p \<in> set (output_permits (snd y)))"
      using p res by (auto simp: held_permits_def)
    then have "weight_source p = 0 \<and> weight_scratch p = 0"
      using disp ws ok(2,3) items by (elim disjE) (auto simp: lean_ok_def values_ok_def slim_def)
    then show ?thesis using g by auto
  qed
  have "total_of g (held_permits s) = 0" if "g = weight_source \<or> g = weight_scratch" for g
    using zero[OF that] by (simp add: total_of_def)
  then have "weight_source (budget_used (st_budget s)) = 0" "weight_scratch (budget_used (st_budget s)) = 0"
    using accountsD(1)[OF b, of weight_source] accountsD(1)[OF b, of weight_scratch] by (simp_all add: dims_def)
  then show False using wait m by (auto simp: fits_budget_def)
qed

lemma stuck_joined:
  assumes v: "valid_run cfg W" and ok: "pipeline_ok cfg W s" "lean_ok cfg W s" "values_ok cfg W s" and stuck: "stuck cfg s"
  shows "joined s"
proof (cases "\<exists>r. st_coordinator s = Returned r")
  case True
  then show ?thesis using returned_joins[OF v ok(1) stuck] by blast
next
  case False
  have depth: "0 < delivery_queue_depth (cfg_limits cfg)" and len: "length (cfg_ordinals cfg) = length W" using v by (simp_all add: valid_run_def)
  have c: "st_coordinator s = Receive" "st_next s < length W" "st_results s = []" "\<exists>w \<in> set (st_workers s). w \<noteq> Stopped"
    using coordinator_waits[of cfg s] stuck False len by (auto simp: stuck_def)
  have quiet: "x = Stopped \<or> (x = Idle \<and> st_queue s = [] \<and> st_dispatcher s \<noteq> Exited)" if x: "x \<in> set (st_workers s)" for x
  proof -
    obtain i where i: "i < length (st_workers s)" "x = st_workers s ! i" using x by (auto simp: in_set_conv_nth)
    have "worker_step cfg i s = None" using stuck i(1) by (simp add: stuck_def)
    from worker_waits[OF this] show ?thesis
      using no_request_deadlock[OF ok stuck c(3) depth i(1)] i(2) c(3) depth by auto
  qed
  obtain x where x: "x \<in> set (st_workers s)" "x \<noteq> Stopped" using c(4) by blast
  then have xi: "x = Idle" "st_queue s = []" "st_dispatcher s \<noteq> Exited" using quiet by blast+
  have "False"
    by (rule no_idle_deadlock[OF v ok(1) stuck c(1-3) xi(2,3)]) (use quiet x xi in auto)
  then show ?thesis ..
qed

end
