(* ===== verification/MW_PipelineSamples.thy ===== *)
theory MW_PipelineSamples
  imports MW_PipelineProgress
begin

text \<open>
  Concrete executions: two items with two workers, and a run that gets stuck. In the second
  one a callback asks for source bytes that are reserved by an item which waits in the queue for
  the only worker.
\<close>

section \<open>Accepted work\<close>

lemma collect_step_Inr: "collect_step maximum item collected e = Inr (r, e') \<Longrightarrow> r = collected @ [item]"
  by (auto simp: collect_step_def bindE_Inr)

lemma collect_fold:
  assumes "foldE (collect_step maximum) work acc e = Inr (out, e')"
  shows "out = acc @ work"
  using assms
proof (induction work arbitrary: acc e)
  case Nil
  then show ?case by simp
next
  case (Cons x work)
  then obtain r e1 where "collect_step maximum x acc e = Inr (r, e1)"
    and r: "foldE (collect_step maximum) work r e1 = Inr (out, e')"
    by (auto simp: bindE_Inr)
  then have "r = acc @ [x]" by (simp add: collect_step_Inr)
  then show ?case using Cons.IH[OF r] by simp
qed

lemma validate_item_Inr:
  assumes "validate_item limits item seen = Inr out"
  shows "item_ordinal item \<notin> set seen \<and> out = item_ordinal item # seen
    \<and> fits_budget no_weights (item_resources item) (budget_limit (ResourceBudget_new limits))"
  using assms by (auto simp: validate_item_def bindR_Inr Let_def fits_budget_def ResourceBudget_new_def ResourceWeights_new_def)

lemma validate_items:
  assumes "foldR (validate_item limits) W seen = Inr out"
  shows "distinct (map item_ordinal W) \<and> set (map item_ordinal W) \<inter> set seen = {}
    \<and> (\<forall>item \<in> set W. fits_budget no_weights (item_resources item) (budget_limit (ResourceBudget_new limits)))"
  using assms
proof (induction W arbitrary: seen)
  case Nil
  then show ?case by simp
next
  case (Cons item W)
  then obtain seen' where item: "validate_item limits item seen = Inr seen'"
    and rest: "foldR (validate_item limits) W seen' = Inr out"
    by (auto simp: bindR_Inr)
  show ?case using Cons.IH[OF rest] validate_item_Inr[OF item] by auto
qed

lemma accepted_valid:
  assumes "accept_work limits work e = Inr (W, e')" and "W \<noteq> []"
  shows "valid_run (execution_config limits prepare sink W) W \<and> mset W = mset work"
proof -
  from assms(1) obtain col out e1 e2 where l: "ExecutionLimits_validate limits = Inr ()" and W: "W = sort_key item_ordinal col"
    and v: "foldR (validate_item limits) W [] = Inr out" and c: "foldE (collect_step (max_work_items limits)) work [] e1 = Inr (col, e2)"
    by (auto simp: accept_work_def bindE_Inr liftE_Inr Let_def validate_work_def bindR_Inr collect_bounded_work_def)
  have "sorted (map item_ordinal W)" using W by simp
  then have "sorted_wrt (<) (map item_ordinal W)" using validate_items[OF v] by (simp add: strict_sorted_iff)
  moreover have "0 < workers limits" "0 < delivery_queue_depth limits" "0 < dispatch_lookahead limits"
    using l by (auto simp: ExecutionLimits_validate_def split: if_splits)
  moreover have "mset W = mset work" using W collect_fold[OF c] by simp
  ultimately show ?thesis using validate_items[OF v] assms(2)
    by (simp add: valid_run_def execution_config_def worker_count_def)
qed

lemma begun_valid:
  assumes "begin_execution limits work e = Inr (Inr W, e')"
  shows "valid_run (execution_config limits prepare sink W) W" "mset W = mset work"
proof -
  obtain e1 where a: "accept_work limits work e = Inr (W, e1)" "W \<noteq> []"
    using assms by (auto simp: begin_execution_def bindE_Inr split: if_splits)
  show "valid_run (execution_config limits prepare sink W) W" "mset W = mset work"
    using accepted_valid[OF a, of prepare sink] by simp_all
qed

lemma begun_sorted:
  assumes "begin_execution limits work e = Inr (Inr W, e')"
  shows "W = sort_key item_ordinal work \<and> distinct (map item_ordinal work)"
proof -
  from assms obtain col e1 e2 where W: "W = sort_key item_ordinal col"
    and c: "foldE (collect_step (max_work_items limits)) work [] e1 = Inr (col, e2)"
    by (auto simp: begin_execution_def accept_work_def bindE_Inr liftE_Inr Let_def collect_bounded_work_def split: if_splits)
  have "distinct (map item_ordinal W)"
    using begun_valid(1)[OF assms] by (auto simp: valid_run_def strict_sorted_iff)
  moreover have "mset (map item_ordinal W) = mset (map item_ordinal work)" using begun_valid(2)[OF assms] by (metis mset_map)
  ultimately show ?thesis using W collect_fold[OF c] by (metis append_Nil mset_eq_imp_distinct_iff)
qed

lemma begun_config:
  "cfg_limits (execution_config limits prepare sink W) = limits"
  "cfg_workers (execution_config limits prepare sink W) = worker_count limits W"
  "cfg_prepare (execution_config limits prepare sink W) = prepare"
  by (simp_all add: execution_config_def)

text \<open>The invariants of the previous theories for the executions that the code starts.\<close>

lemma begun_reachable:
  assumes "begin_execution limits work e = Inr (Inr W, e')"
    and "(pipeline_step (execution_config limits prepare sink W))\<^sup>*\<^sup>* (start_execution limits W state) s"
  shows "pipeline_ok (execution_config limits prepare sink W) W s"
    and "values_ok (execution_config limits prepare sink W) W s"
  using reachable_ok[OF begun_valid(1)[OF assms(1), of prepare sink]] reachable_values[OF assms(2)] assms(2)
  by (simp_all add: begun_config)

text \<open>Nothing is held when no item is in flight.\<close>

lemma idle_worker_permits: "worker_ordinals w = [] \<Longrightarrow> worker_permits w = []"
  by (cases w) simp_all

lemma idle_dispatcher_permits: "dispatcher_items d = [] \<Longrightarrow> dispatcher_permits d = []"
  by (cases d) simp_all

lemma nothing_held: "in_flight s = {#} \<Longrightarrow> held_permits s = {#}"
  by (auto simp: in_flight_def held_permits_def idle_worker_permits idle_dispatcher_permits)

section \<open>Schedules\<close>

text \<open>Thread 0 is the dispatcher, thread 1 the coordinator, the others are workers.\<close>

definition thread_step :: "('t, 'u, 's) config \<Rightarrow> nat \<Rightarrow> ('t, 'u, 's) pstate \<Rightarrow> ('t, 'u, 's) pstate option" where
  "thread_step cfg t s = (if t = 0 then dispatcher_step cfg s else if t = 1 then coordinator_step cfg s
     else if t - 2 < length (st_workers s) then worker_step cfg (t - 2) s else None)"

primrec run_schedule :: "('t, 'u, 's) config \<Rightarrow> nat list \<Rightarrow> ('t, 'u, 's) pstate \<Rightarrow> ('t, 'u, 's) pstate option" where
  "run_schedule cfg [] s = Some s"
| "run_schedule cfg (t # ts) s = Option.bind (thread_step cfg t s) (run_schedule cfg ts)"

lemma run_schedule_steps: "run_schedule cfg ts s = Some s' \<Longrightarrow> (pipeline_step cfg ^^ length ts) s s'"
proof (induction ts arbitrary: s)
  case Nil
  then show ?case by simp
next
  case (Cons t ts)
  then obtain s1 where s1: "thread_step cfg t s = Some s1" "run_schedule cfg ts s1 = Some s'" by (auto simp: bind_eq_Some_conv)
  have "pipeline_step cfg s s1"
    using s1(1) by (auto simp: thread_step_def intro: pipeline_step.intros split: if_splits)
  then show ?case using relpowp_Suc_I2[OF _ Cons.IH[OF s1(2)]] by simp
qed

lemmas run_schedule_reaches = relpowp_imp_rtranclp[OF run_schedule_steps]

section \<open>A run that gets stuck\<close>

definition tight_limits :: ExecutionLimits where
  "tight_limits = \<lparr>workers = 1, max_work_items = 2, delivery_queue_depth = 1, dispatch_lookahead = 2,
     source_bytes = 5, scratch_bytes = 1, prepared_bytes = 4\<rparr>"

definition unit_item :: "unit PreparedItem" where
  "unit_item = \<lparr>prepared_value = (), prepared_size = 1\<rparr>"

text \<open>The first item defers its source bytes, the second one reserves them in advance.\<close>

definition tight_work :: "bool WorkItem list" where
  "tight_work = [\<lparr>item_ordinal = 0, item_value = True, item_resources = ResourceWeights_new 0 0 1\<rparr>,
     \<lparr>item_ordinal = 1, item_value = False, item_resources = ResourceWeights_new 5 0 1\<rparr>]"

definition tight_prepare :: "bool \<Rightarrow> unit prep" where
  "tight_prepare deferred = (if deferred then Require (ResourceWeights_new 5 0 1) (Finish (Inr unit_item)) Finish
     else Finish (Inr unit_item))"

definition accept_all :: "unit \<Rightarrow> nat \<Rightarrow> unit PreparedItem \<Rightarrow> bool \<Rightarrow> unit result \<times> unit" where
  "accept_all u ordinal x cancelled = (Inr (), u)"

definition tight_config :: "(bool, unit, unit) config" where
  "tight_config = execution_config tight_limits tight_prepare accept_all tight_work"

lemmas run_eval = thread_step_def dispatcher_step_def worker_step_def coordinator_step_def
  window_acquire_def budget_acquire_def fits_budget_def add_weights_def subtract_weights_def max_weights_def
  ResourceWeights_new_def with_resources_begin_def set_worker_def PrepareContext_new_def Let_def

lemma tight_stuck:
  "\<exists>s. run_schedule tight_config [0, 0, 0, 0, 2, 2, 0, 0, 0, 0, 2, 0] (start_execution tight_limits tight_work ()) = Some s
     \<and> stuck tight_config s \<and> \<not> joined s \<and> \<not> st_cancelled s"
  by (simp add: run_eval tight_config_def execution_config_def start_execution_def tight_limits_def tight_work_def
      worker_count_def ResourceBudget_new_def tight_prepare_def stuck_def joined_def)

lemma tight_accepted:
  "\<exists>e'. begin_execution tight_limits tight_work \<lparr>polls_left = None, reserves_left = None, next_owner = 0\<rparr> = Inr (Inr tight_work, e')"
  by (simp add: begin_execution_def accept_work_def tight_limits_def ExecutionLimits_validate_def collect_bounded_work_def collect_step_def
      check_def is_cancelled_def try_reserve_def tight_work_def validate_work_def validate_item_def Let_def ResourceWeights_new_def bindE_def retE_def liftE_def)

section \<open>A run that ends\<close>

definition roomy_limits :: ExecutionLimits where
  "roomy_limits = \<lparr>workers = 2, max_work_items = 2, delivery_queue_depth = 1, dispatch_lookahead = 2,
     source_bytes = 9, scratch_bytes = 1, prepared_bytes = 4\<rparr>"

definition roomy_work :: "bool WorkItem list" where
  "roomy_work = [\<lparr>item_ordinal = 3, item_value = True, item_resources = ResourceWeights_new 5 0 1\<rparr>,
     \<lparr>item_ordinal = 1, item_value = False, item_resources = ResourceWeights_new 0 0 1\<rparr>]"

definition roomy_config :: "(bool, unit, unit) config" where
  "roomy_config = execution_config roomy_limits tight_prepare accept_all (rev roomy_work)"

lemma roomy_accepted:
  "\<exists>e'. begin_execution roomy_limits roomy_work \<lparr>polls_left = None, reserves_left = None, next_owner = 0\<rparr> = Inr (Inr (rev roomy_work), e')"
  by (simp add: begin_execution_def accept_work_def roomy_limits_def ExecutionLimits_validate_def collect_bounded_work_def collect_step_def
      check_def is_cancelled_def try_reserve_def roomy_work_def validate_work_def validate_item_def Let_def ResourceWeights_new_def bindE_def retE_def liftE_def)

text \<open>The second item is prepared first and has to wait.\<close>

definition roomy_schedule :: "nat list" where
  "roomy_schedule = [0, 0, 0, 0, 0, 0, 0, 0, 0, 2, 3, 3, 3, 3, 3, 3, 3, 1, 1, 2, 2, 2, 2, 1, 1, 1, 1, 1, 1]"

lemma roomy_run:
  "\<exists>s. run_schedule roomy_config roomy_schedule (start_execution roomy_limits (rev roomy_work) ()) = Some s
     \<and> joined s \<and> st_log s = [(1, unit_item), (3, unit_item)]"
  by (simp add: run_eval roomy_config_def roomy_schedule_def execution_config_def start_execution_def roomy_limits_def roomy_work_def
      worker_count_def ResourceBudget_new_def tight_prepare_def joined_def accept_all_def unit_item_def worker_output_def
      OutputReservation_retain_prepared_def retain_prepared_def budget_release_def deliver_output_def drop_output_def release_all_def
      reservation_permits_def drop_permits_def pending_remove_def observe_depth_def window_release_def btree_insert_def)

lemma roomy_disciplined: "disciplined roomy_config (rev roomy_work)"
  by (simp add: disciplined_def patient_def light_start_def roomy_config_def execution_config_def roomy_work_def tight_prepare_def
      subtract_weights_def ResourceWeights_new_def)

lemma roomy_within: "\<forall>item \<in> set (rev roomy_work). prep_within (tight_prepare (item_value item)) 3"
  by (simp add: roomy_work_def tight_prepare_def)

end
