(* ===== verification/MW_Plan.thy ===== *)
theory MW_Plan
  imports MW_Graph MW_Inventory
begin

text \<open>
  plan.rs: conversion recipes, inventory sources, target contracts, and the planner that resolves
  every target against the inventory and reports diagnostics. Serialization is left to serde_json
  and SHA-256 to a library; both are parameters. A diagnostic is modelled without its message, so
  diagnostics that differ only in their message are one diagnostic here.
\<close>

section \<open>Ordered collections\<close>

text \<open>Collecting into a \<open>BTreeSet\<close>, and \<open>sort_unstable(); dedup()\<close> on a vector.\<close>

definition btree_set :: "'a :: linorder list \<Rightarrow> 'a list" where
  "btree_set xs = remdups_adj (sort xs)"

text \<open>\<open>map.entry(k).or_default().push(v)\<close>.\<close>

definition push_entry :: "'k :: linorder \<Rightarrow> 'v \<Rightarrow> ('k, 'v list) btree \<Rightarrow> ('k, 'v list) btree" where
  "push_entry k v m = btree_insert k ((case map_of m k of None \<Rightarrow> [] | Some vs \<Rightarrow> vs) @ [v]) m"

definition push_entries :: "('k :: linorder \<times> 'v) list \<Rightarrow> ('k, 'v list) btree" where
  "push_entries entries = fold (\<lambda>p. push_entry (fst p) (snd p)) entries []"

definition group_names :: "(TensorName \<times> nat) list \<Rightarrow> (TensorName, nat list) btree" where
  "group_names entries = push_entries entries"

section \<open>Conversion recipes\<close>

datatype RecipeValue =
    RecipeBool bool | RecipeI64 int | RecipeU64 nat | RecipeText string | RecipeBytes "u8 list"
  | RecipeSequence "RecipeValue list" | RecipeObject "(StableName \<times> RecipeValue) list"

datatype RecipeInput = External TensorName | StepOutput StableName

record RecipeStep =
  step_name :: StableName
  step_operation :: ImplementationId
  step_inputs :: "RecipeInput list"
  step_parameters :: "(StableName, RecipeValue) btree"

definition RecipeStep_new ::
    "StableName \<Rightarrow> ImplementationId \<Rightarrow> RecipeInput list \<Rightarrow> (StableName, RecipeValue) btree \<Rightarrow> RecipeStep" where
  "RecipeStep_new out operation inputs parameters =
     \<lparr>step_name = out, step_operation = operation, step_inputs = inputs, step_parameters = parameters\<rparr>"

record ConversionRecipe =
  recipe_schema :: nat
  recipe_implementation :: ImplementationId
  recipe_inputs :: "TensorName list"
  recipe_steps :: "RecipeStep list"
  recipe_outputs :: "(TensorName, RecipeInput) btree"

definition input_available :: "TensorName set \<Rightarrow> StableName set \<Rightarrow> RecipeInput \<Rightarrow> bool" where
  "input_available declared produced i = (case i of External name \<Rightarrow> name \<in> declared | StepOutput name \<Rightarrow> name \<in> produced)"

definition recipe_step :: "TensorName set \<Rightarrow> RecipeStep \<Rightarrow> StableName set \<Rightarrow> StableName set result" where
  "recipe_step declared step produced =
     bindR (ensure (step_name step \<notin> produced) Binding) (\<lambda>_.
     bindR (foldR (\<lambda>i _. ensure (input_available declared produced i) Binding) (step_inputs step) ()) (\<lambda>_.
       Inr (insert (step_name step) produced)))"

definition ConversionRecipe_new ::
    "nat \<Rightarrow> ImplementationId \<Rightarrow> TensorName list \<Rightarrow> RecipeStep list \<Rightarrow> (TensorName, RecipeInput) btree
       \<Rightarrow> ConversionRecipe result" where
  "ConversionRecipe_new schema implementation inputs steps outs =
     bindR (ensure (schema \<noteq> 0) Binding) (\<lambda>_.
     let declared = set inputs in
     bindR (ensure (card declared = length inputs) Binding) (\<lambda>_.
     bindR (ensure (outs \<noteq> []) Binding) (\<lambda>_.
     bindR (foldR (recipe_step declared) steps {}) (\<lambda>produced.
     bindR (foldR (\<lambda>out _. ensure (input_available declared produced out) Binding) (map snd outs) ()) (\<lambda>_.
       Inr \<lparr>recipe_schema = schema, recipe_implementation = implementation, recipe_inputs = inputs,
            recipe_steps = steps, recipe_outputs = outs\<rparr>)))))"

definition ConversionRecipe_try_from :: "ConversionRecipe \<Rightarrow> ConversionRecipe result" where
  "ConversionRecipe_try_from wire = ConversionRecipe_new (recipe_schema wire) (recipe_implementation wire)
     (recipe_inputs wire) (recipe_steps wire) (recipe_outputs wire)"

text \<open>\<open>serde_json::to_vec\<close> is the parameter \<open>json\<close>; it may fail.\<close>

definition canonical_json :: "('a \<Rightarrow> u8 list option) \<Rightarrow> 'a \<Rightarrow> u8 list result" where
  "canonical_json json x = ok_or InvalidFormat (json x)"

definition recipe_digest ::
    "(ConversionRecipe \<Rightarrow> u8 list option) \<Rightarrow> (u8 list \<Rightarrow> ContentDigest) \<Rightarrow> ConversionRecipe \<Rightarrow> ContentDigest result" where
  "recipe_digest json sha256 recipe =
     bindR (canonical_json json recipe) (\<lambda>bytes.
       Inr (ContentDigest_hash sha256 (map of_char ''conversion-recipe-v1'') [bytes]))"

section \<open>Sources\<close>

record SourceTensor =
  src_name :: TensorName
  src_shape :: "nat list"
  src_storage :: Storage

definition SourceTensor_new :: "TensorName \<Rightarrow> nat list \<Rightarrow> Storage \<Rightarrow> SourceTensor result" where
  "SourceTensor_new name shape storage =
     bindR (case storage of
         Plain dt span \<Rightarrow> bindR (DType_byte_len dt shape) (\<lambda>bytes. ensure (\<not> bytes \<noteq> span_length span) InvalidFormat)
       | Quantized q \<Rightarrow> ensure (\<not> q_logical_shape q \<noteq> shape) InvalidFormat) (\<lambda>_.
       Inr \<lparr>src_name = name, src_shape = shape, src_storage = storage\<rparr>)"

definition SourceTensor_try_from :: "SourceTensor \<Rightarrow> SourceTensor result" where
  "SourceTensor_try_from wire = SourceTensor_new (src_name wire) (src_shape wire) (src_storage wire)"

definition SourceTensor_from_record :: "TensorRecord \<Rightarrow> SourceTensor result" where
  "SourceTensor_from_record r =
     bindR (TensorName_parse (tensor_name r)) (\<lambda>name. SourceTensor_new name (tensor_shape r) (tensor_storage r))"

section \<open>Targets\<close>

datatype Requirement = Required | Optional

definition checked_elements :: "nat list \<Rightarrow> nat result" where
  "checked_elements shape = foldR (\<lambda>d product. ok_or ResourceLimit (checked_mul product d)) shape 1"

definition checked_contiguous_strides :: "nat list \<Rightarrow> nat list result" where
  "checked_contiguous_strides shape = bindR (foldR strides_step (rev shape) ([], 1)) (\<lambda>acc. Inr (fst acc))"

definition transform_size_step :: "nat list \<Rightarrow> nat \<Rightarrow> PlannedTransform \<Rightarrow> unit \<Rightarrow> unit result" where
  "transform_size_step shape elements planned _ =
     bindR (ensure (\<not> (elements > 0 \<and> output_size planned = 0)) Binding) (\<lambda>_.
     let target = transform_target (planned_transform planned) in
     if is_contiguous (layout target) then
       bindR (DType_byte_len (dtype target) shape) (\<lambda>bytes. ensure (\<not> bytes \<noteq> output_size planned) Binding)
     else Inr ())"

definition validate_transform_chain :: "PlannedTransform list \<Rightarrow> Representation \<Rightarrow> nat list \<Rightarrow> nat \<Rightarrow> unit result" where
  "validate_transform_chain transforms target shape final_size =
     bindR (ensure (\<not> any_window2 (\<lambda>a b. transform_target (planned_transform a) \<noteq> transform_source (planned_transform b)) transforms)
       Binding) (\<lambda>_.
     bindR (ensure (\<not> (transforms \<noteq> [] \<and> (transform_target (planned_transform (last transforms)) \<noteq> target
         \<or> output_size (last transforms) \<noteq> final_size))) Binding) (\<lambda>_.
     bindR (checked_elements shape) (\<lambda>elements.
       foldR (transform_size_step shape elements) transforms ())))"

record TargetTensor =
  tgt_name :: TensorName
  tgt_aliases :: "TensorName list"
  tgt_requirement :: Requirement
  tgt_source_shape :: "nat list"
  tgt_shape :: "nat list"
  tgt_storage_shape :: "nat list"
  tgt_logical_strides :: "nat list"
  tgt_storage_strides :: "nat list"
  tgt_representation :: Representation
  tgt_transforms :: "PlannedTransform list"
  tgt_graph :: "OperationGraph option"
  tgt_route :: "RouteCapability option"
  tgt_recipe :: "ConversionRecipe option"
  tgt_output_size :: nat
  tgt_group :: "StableName option"

record TargetTensorBuilder =
  tb_name :: TensorName
  tb_aliases :: "TensorName list"
  tb_requirement :: Requirement
  tb_source_shape :: "nat list"
  tb_shape :: "nat list"
  tb_storage_shape :: "nat list option"
  tb_logical_strides :: "nat list option"
  tb_storage_strides :: "nat list option"
  tb_representation :: Representation
  tb_transforms :: "PlannedTransform list"
  tb_graph :: "OperationGraph option"
  tb_route :: "RouteCapability option"
  tb_recipe :: "ConversionRecipe option"
  tb_output_size :: nat
  tb_group :: "StableName option"

definition TargetTensor_builder ::
    "TensorName \<Rightarrow> Requirement \<Rightarrow> nat list \<Rightarrow> Representation \<Rightarrow> nat \<Rightarrow> TargetTensorBuilder" where
  "TargetTensor_builder name requirement shape repr bytes =
     \<lparr>tb_name = name, tb_aliases = [], tb_requirement = requirement, tb_source_shape = shape, tb_shape = shape,
      tb_storage_shape = None, tb_logical_strides = None, tb_storage_strides = None, tb_representation = repr,
      tb_transforms = [], tb_graph = None, tb_route = None, tb_recipe = None, tb_output_size = bytes, tb_group = None\<rparr>"

definition with_aliases :: "TensorName list \<Rightarrow> TargetTensorBuilder \<Rightarrow> TargetTensorBuilder" where
  "with_aliases names b = b\<lparr>tb_aliases := tb_aliases b @ names\<rparr>"

definition with_source_shape :: "nat list \<Rightarrow> TargetTensorBuilder \<Rightarrow> TargetTensorBuilder" where
  "with_source_shape shape b = b\<lparr>tb_source_shape := shape\<rparr>"

definition with_storage_shape :: "nat list \<Rightarrow> TargetTensorBuilder \<Rightarrow> TargetTensorBuilder" where
  "with_storage_shape shape b = b\<lparr>tb_storage_shape := Some shape\<rparr>"

definition with_logical_strides :: "nat list \<Rightarrow> TargetTensorBuilder \<Rightarrow> TargetTensorBuilder" where
  "with_logical_strides strides b = b\<lparr>tb_logical_strides := Some strides\<rparr>"

definition with_storage_strides :: "nat list \<Rightarrow> TargetTensorBuilder \<Rightarrow> TargetTensorBuilder" where
  "with_storage_strides strides b = b\<lparr>tb_storage_strides := Some strides\<rparr>"

definition with_transforms :: "PlannedTransform list \<Rightarrow> TargetTensorBuilder \<Rightarrow> TargetTensorBuilder" where
  "with_transforms transforms b = b\<lparr>tb_transforms := tb_transforms b @ transforms\<rparr>"

definition with_operation_graph :: "OperationGraph \<Rightarrow> TargetTensorBuilder \<Rightarrow> TargetTensorBuilder" where
  "with_operation_graph graph b = b\<lparr>tb_graph := Some graph\<rparr>"

definition with_quantized_route :: "RouteCapability \<Rightarrow> TargetTensorBuilder \<Rightarrow> TargetTensorBuilder" where
  "with_quantized_route capability b = b\<lparr>tb_route := Some capability\<rparr>"

definition with_conversion_recipe :: "ConversionRecipe \<Rightarrow> TargetTensorBuilder \<Rightarrow> TargetTensorBuilder" where
  "with_conversion_recipe recipe b = b\<lparr>tb_recipe := Some recipe\<rparr>"

definition with_shared_source_group :: "StableName \<Rightarrow> TargetTensorBuilder \<Rightarrow> TargetTensorBuilder" where
  "with_shared_source_group tied b = b\<lparr>tb_group := Some tied\<rparr>"

definition given_strides :: "nat list option \<Rightarrow> nat list \<Rightarrow> nat list result" where
  "given_strides strides shape = (case strides of Some s \<Rightarrow> Inr s | None \<Rightarrow> checked_contiguous_strides shape)"

definition target_recipe_check :: "TargetTensorBuilder \<Rightarrow> unit result" where
  "target_recipe_check b = (case tb_recipe b of None \<Rightarrow> Inr () | Some recipe \<Rightarrow>
     bindR (ensure (\<not> tb_route b \<noteq> None) Binding) (\<lambda>_.
     bindR (ensure (\<not> length (recipe_inputs recipe) \<noteq> 1) Binding) (\<lambda>_.
       ensure (map_of (recipe_outputs recipe) (tb_name b) \<noteq> None) Binding)))"

definition target_graph_check ::
    "TargetTensorBuilder \<Rightarrow> nat list \<Rightarrow> nat list \<Rightarrow> nat list \<Rightarrow> unit result" where
  "target_graph_check b sshape lstrides sstrides = (case tb_graph b of None \<Rightarrow> Inr () | Some graph \<Rightarrow>
     bindR (TensorFacts_new (tb_shape b) sshape lstrides sstrides (tb_representation b) (tb_output_size b)) (\<lambda>facts.
     ensure (output_facts graph = Some facts) Binding))"

definition target_build :: "TargetTensorBuilder \<Rightarrow> TargetTensor result" where
  "target_build b =
     (let sshape = (case tb_storage_shape b of Some s \<Rightarrow> s | None \<Rightarrow> tb_shape b) in
     bindR (given_strides (tb_logical_strides b) (tb_shape b)) (\<lambda>lstrides.
     bindR (given_strides (tb_storage_strides b) (tb_shape b)) (\<lambda>sstrides.
     let aliases = sort (tb_aliases b) in
     bindR (ensure (\<not> any_window2 (=) aliases) Binding) (\<lambda>_.
     bindR (ensure (tb_name b \<notin> set aliases) Binding) (\<lambda>_.
     bindR (ensure (\<not> (tb_recipe b \<noteq> None \<and> tb_transforms b \<noteq> [])) Binding) (\<lambda>_.
     bindR (ensure (\<not> (tb_graph b \<noteq> None \<and> (tb_transforms b \<noteq> [] \<or> tb_recipe b \<noteq> None \<or> tb_route b \<noteq> None))) Binding) (\<lambda>_.
     bindR (ensure (\<not> (tb_graph b \<noteq> None \<and> aliases \<noteq> [])) Binding) (\<lambda>_.
     bindR (validate_transform_chain (tb_transforms b) (tb_representation b) (tb_shape b) (tb_output_size b)) (\<lambda>_.
     bindR (ensure (\<not> (tb_source_shape b \<noteq> tb_shape b \<and> tb_recipe b = None \<and> tb_graph b = None \<and> tb_route b = None)) Binding) (\<lambda>_.
     bindR (ensure (\<not> length lstrides \<noteq> length (tb_shape b)) Binding) (\<lambda>_.
     bindR (ensure (\<not> length sstrides \<noteq> length (tb_shape b)) Binding) (\<lambda>_.
     bindR (checked_elements (tb_shape b)) (\<lambda>elements.
     bindR (ensure (\<not> (elements > 0 \<and> tb_output_size b = 0)) Binding) (\<lambda>_.
     bindR (target_recipe_check b) (\<lambda>_.
     bindR (target_graph_check b sshape lstrides sstrides) (\<lambda>_.
       Inr \<lparr>tgt_name = tb_name b, tgt_aliases = aliases, tgt_requirement = tb_requirement b,
         tgt_source_shape = tb_source_shape b, tgt_shape = tb_shape b, tgt_storage_shape = sshape,
         tgt_logical_strides = lstrides, tgt_storage_strides = sstrides, tgt_representation = tb_representation b,
         tgt_transforms = tb_transforms b, tgt_graph = tb_graph b, tgt_route = tb_route b, tgt_recipe = tb_recipe b,
         tgt_output_size = tb_output_size b, tgt_group = tb_group b\<rparr>))))))))))))))))"

definition TargetTensor_try_from :: "TargetTensor \<Rightarrow> TargetTensor result" where
  "TargetTensor_try_from wire =
     (let b = with_transforms (tgt_transforms wire) (with_storage_strides (tgt_storage_strides wire)
          (with_logical_strides (tgt_logical_strides wire) (with_storage_shape (tgt_storage_shape wire)
          (with_source_shape (tgt_source_shape wire) (with_aliases (tgt_aliases wire)
          (TargetTensor_builder (tgt_name wire) (tgt_requirement wire) (tgt_shape wire) (tgt_representation wire)
             (tgt_output_size wire)))))));
        b = (case tgt_graph wire of Some graph \<Rightarrow> with_operation_graph graph b | None \<Rightarrow> b);
        b = (case tgt_route wire of Some capability \<Rightarrow> with_quantized_route capability b | None \<Rightarrow> b);
        b = (case tgt_recipe wire of Some recipe \<Rightarrow> with_conversion_recipe recipe b | None \<Rightarrow> b);
        b = (case tgt_group wire of Some tied \<Rightarrow> with_shared_source_group tied b | None \<Rightarrow> b)
     in target_build b)"

section \<open>Plan inputs and diagnostics\<close>

record PlanInputs =
  plan_manifest :: ContentDigest
  plan_selection :: ContentDigest
  plan_contract :: ContentDigest
  plan_backend :: ContentDigest
  plan_digests :: "ContentDigest list"

datatype ExtraSourcePolicy = Reject | Allow

datatype DiagnosticSeverity = Info | Warning | Error

datatype DiagnosticCode =
    DuplicateSource | DuplicateTarget | MissingRequired | MissingOptional | AmbiguousBinding | ShapeMismatch
  | MissingSourceDigest | ConflictingSourceReuse | UnsupportedTransform | UnsupportedQuantizedRoute | ExtraSource

fun DiagnosticCode_as_str :: "DiagnosticCode \<Rightarrow> string" where
  "DiagnosticCode_as_str DuplicateSource = ''duplicate_source''"
| "DiagnosticCode_as_str DuplicateTarget = ''duplicate_target''"
| "DiagnosticCode_as_str MissingRequired = ''missing_required''"
| "DiagnosticCode_as_str MissingOptional = ''missing_optional''"
| "DiagnosticCode_as_str AmbiguousBinding = ''ambiguous_binding''"
| "DiagnosticCode_as_str ShapeMismatch = ''shape_mismatch''"
| "DiagnosticCode_as_str MissingSourceDigest = ''missing_source_digest''"
| "DiagnosticCode_as_str ConflictingSourceReuse = ''conflicting_source_reuse''"
| "DiagnosticCode_as_str UnsupportedTransform = ''unsupported_transform''"
| "DiagnosticCode_as_str UnsupportedQuantizedRoute = ''unsupported_quantized_route''"
| "DiagnosticCode_as_str ExtraSource = ''extra_source''"

record PlanDiagnostic =
  diagnostic_severity :: DiagnosticSeverity
  diagnostic_code :: DiagnosticCode
  diagnostic_subject :: TensorName
  diagnostic_related :: "TensorName list"

definition PlanDiagnostic_new ::
    "DiagnosticSeverity \<Rightarrow> DiagnosticCode \<Rightarrow> TensorName \<Rightarrow> TensorName list \<Rightarrow> PlanDiagnostic" where
  "PlanDiagnostic_new severity code subject related = \<lparr>diagnostic_severity = severity, diagnostic_code = code,
     diagnostic_subject = subject, diagnostic_related = btree_set related\<rparr>"

text \<open>The derived order: severity, code, subject, related names.\<close>

fun severity_ordinal :: "DiagnosticSeverity \<Rightarrow> nat" where
  "severity_ordinal Info = 0" | "severity_ordinal Warning = 1" | "severity_ordinal Error = 2"

fun code_ordinal :: "DiagnosticCode \<Rightarrow> nat" where
  "code_ordinal DuplicateSource = 0" | "code_ordinal DuplicateTarget = 1" | "code_ordinal MissingRequired = 2"
| "code_ordinal MissingOptional = 3" | "code_ordinal AmbiguousBinding = 4" | "code_ordinal ShapeMismatch = 5"
| "code_ordinal MissingSourceDigest = 6" | "code_ordinal ConflictingSourceReuse = 7"
| "code_ordinal UnsupportedTransform = 8" | "code_ordinal UnsupportedQuantizedRoute = 9" | "code_ordinal ExtraSource = 10"

definition diagnostic_key :: "PlanDiagnostic \<Rightarrow> nat list list" where
  "diagnostic_key d = [[severity_ordinal (diagnostic_severity d)], [code_ordinal (diagnostic_code d)],
     text_key (diagnostic_subject d)] @ map text_key (diagnostic_related d)"

definition plan_is_valid :: "PlanDiagnostic list \<Rightarrow> bool" where
  "plan_is_valid diagnostics \<longleftrightarrow> \<not> list_ex (\<lambda>d. diagnostic_severity d = Error) diagnostics"

section \<open>Validation of one binding\<close>

definition missing_ordinal :: "nat \<Rightarrow> nat \<Rightarrow> bool" where
  "missing_ordinal digest_count ordinal = (case usize_try_from ordinal of Inl _ \<Rightarrow> True | Inr index \<Rightarrow> index \<ge> digest_count)"

definition first_missing_digest_ordinal :: "Storage \<Rightarrow> nat \<Rightarrow> nat option" where
  "first_missing_digest_ordinal storage digest_count =
     (let primary = span_file (storage_span storage) in
      if missing_ordinal digest_count primary then Some primary
      else case storage of Plain _ _ \<Rightarrow> None
      | Quantized q \<Rightarrow> List.find (missing_ordinal digest_count)
          (map (\<lambda>c. span_file (companion_span (snd c))) (q_companions q)))"

definition layout_matches :: "Layout \<Rightarrow> LayoutRequirement option \<Rightarrow> bool" where
  "layout_matches l requirement = (case (custom_parts l, requirement) of
     (None, None) \<Rightarrow> True | (Some _, Some r) \<Rightarrow> matches_layout r l | _ \<Rightarrow> False)"

definition validate_contiguous_output :: "TargetTensor \<Rightarrow> unit result" where
  "validate_contiguous_output t =
     (if is_contiguous (layout (tgt_representation t)) then
       bindR (checked_contiguous_strides (tgt_shape t)) (\<lambda>expected.
       bindR (ensure (\<not> (tgt_storage_shape t \<noteq> tgt_shape t \<or> tgt_logical_strides t \<noteq> expected
           \<or> tgt_storage_strides t \<noteq> expected)) Binding) (\<lambda>_.
       bindR (DType_byte_len (dtype (tgt_representation t)) (tgt_shape t)) (\<lambda>bytes.
         ensure (\<not> bytes \<noteq> tgt_output_size t) Binding)))
      else Inr ())"

definition validate_conversion_binding :: "SourceTensor \<Rightarrow> TargetTensor \<Rightarrow> unit result" where
  "validate_conversion_binding s t = (case tgt_recipe t of None \<Rightarrow> Inr () | Some recipe \<Rightarrow>
     bindR (ensure (\<not> tgt_transforms t \<noteq> []) Binding) (\<lambda>_.
     bindR (ensure (\<not> (length (recipe_inputs recipe) \<noteq> 1 \<or> recipe_inputs recipe \<noteq> [] \<and> hd (recipe_inputs recipe) \<noteq> src_name s)) Binding) (\<lambda>_.
       ensure (map_of (recipe_outputs recipe) (tgt_name t) \<noteq> None) Binding)))"

definition validate_plain_binding :: "DType \<Rightarrow> SourceSpan \<Rightarrow> TargetTensor \<Rightarrow> unit result" where
  "validate_plain_binding dt span t =
     bindR (ensure (\<not> tgt_route t \<noteq> None) Unsupported) (\<lambda>_.
     if tgt_recipe t \<noteq> None then validate_contiguous_output t
     else
       (let source = Representation_contiguous dt in
       bindR (case tgt_transforms t of
           first # _ \<Rightarrow> ensure (\<not> transform_source (planned_transform first) \<noteq> source) Unsupported
         | [] \<Rightarrow> ensure (\<not> tgt_representation t \<noteq> source) Unsupported) (\<lambda>_.
       bindR (ensure (\<not> (tgt_transforms t = [] \<and> tgt_output_size t \<noteq> span_length span)) Binding) (\<lambda>_.
         validate_contiguous_output t))))"

definition validate_quantized_binding :: "PlanInputs \<Rightarrow> QuantizedStorage \<Rightarrow> TargetTensor \<Rightarrow> unit result" where
  "validate_quantized_binding inputs q t =
     bindR (ensure (\<not> tgt_transforms t \<noteq> []) Unsupported) (\<lambda>_.
     bindR (ok_or Unsupported (tgt_route t)) (\<lambda>capability.
     bindR (ensure (\<not> source_encoding capability \<noteq> q_encoding q) Unsupported) (\<lambda>_.
     bindR (ensure (\<not> (case backend capability of None \<Rightarrow> False | Some b \<Rightarrow> b \<noteq> plan_backend inputs)) Unsupported) (\<lambda>_.
     bindR (ensure (layout_matches (layout (tgt_representation t)) (target_layout capability)) Unsupported) (\<lambda>_.
     let dequant = (\<lambda>dt. bindR (ensure (\<not> dt \<noteq> dtype (tgt_representation t)) Unsupported) (\<lambda>_. validate_contiguous_output t)) in
     case route capability of
       HostDequant dt \<Rightarrow> dequant dt
     | DeviceDequantToScratch dt \<Rightarrow> dequant dt
     | PackedDirect \<Rightarrow> ensure (\<not> tgt_output_size t \<noteq> span_length (q_payload q)) Binding
     | FusedInTile \<Rightarrow> Inr ()
     | Repack _ \<Rightarrow> Inr ())))))"

definition validate_binding :: "PlanInputs \<Rightarrow> SourceTensor \<Rightarrow> TargetTensor \<Rightarrow> unit result" where
  "validate_binding inputs s t =
     bindR (ensure (\<not> src_shape s \<noteq> tgt_source_shape t) Binding) (\<lambda>_.
     bindR (ensure (\<not> first_missing_digest_ordinal (src_storage s) (length (plan_digests inputs)) \<noteq> None) Binding) (\<lambda>_.
     bindR (validate_conversion_binding s t) (\<lambda>_.
     case src_storage s of
       Plain dt span \<Rightarrow> validate_plain_binding dt span t
     | Quantized q \<Rightarrow> validate_quantized_binding inputs q t)))"

definition validate_operation_input :: "PlanInputs \<Rightarrow> OperationInput \<times> SourceTensor \<Rightarrow> unit \<Rightarrow> unit result" where
  "validate_operation_input inputs p _ = (case p of (i, s) \<Rightarrow>
     bindR (ensure (\<not> input_name i \<noteq> src_name s) Binding) (\<lambda>_.
     bindR (ensure (\<not> first_missing_digest_ordinal (src_storage s) (length (plan_digests inputs)) \<noteq> None) Binding) (\<lambda>_.
     case src_storage s of
       Quantized _ \<Rightarrow> Inl Unsupported
     | Plain dt span \<Rightarrow>
         bindR (TensorFacts_contiguous (src_shape s) (Representation_contiguous dt)) (\<lambda>actual.
         ensure (\<not> (input_facts i \<noteq> actual \<or> byte_len (input_facts i) \<noteq> span_length span)) Binding))))"

definition validate_operation_binding :: "PlanInputs \<Rightarrow> SourceTensor list \<Rightarrow> TargetTensor \<Rightarrow> unit result" where
  "validate_operation_binding inputs sources t =
     bindR (ok_or Binding (tgt_graph t)) (\<lambda>graph.
     bindR (ensure (\<not> length (graph_inputs graph) \<noteq> length sources) Binding) (\<lambda>_.
       foldR (validate_operation_input inputs) (zip (graph_inputs graph) sources) ()))"

section \<open>Resolution\<close>

text \<open>The targets that are matched so far with their sources, and the diagnostics.\<close>

type_synonym resolution = "(nat, nat list) btree \<times> PlanDiagnostic list"

definition report :: "DiagnosticSeverity \<Rightarrow> DiagnosticCode \<Rightarrow> TensorName \<Rightarrow> TensorName list \<Rightarrow> resolution \<Rightarrow> resolution" where
  "report severity code subject related acc = (fst acc, snd acc @ [PlanDiagnostic_new severity code subject related])"

definition record_match :: "nat \<Rightarrow> nat list \<Rightarrow> resolution \<Rightarrow> resolution" where
  "record_match t ss acc = (btree_insert t ss (fst acc), snd acc)"

definition report_missing :: "TargetTensor \<Rightarrow> TensorName list \<Rightarrow> resolution \<Rightarrow> resolution" where
  "report_missing t related = (case tgt_requirement t of
     Required \<Rightarrow> report Error MissingRequired (tgt_name t) related
   | Optional \<Rightarrow> report Info MissingOptional (tgt_name t) related)"

text \<open>Per graph input: names that are missing, sources of ambiguous names, and the chosen sources.\<close>

definition graph_input_step ::
    "(TensorName, nat list) btree \<Rightarrow> SourceTensor list \<Rightarrow> OperationInput
       \<Rightarrow> TensorName list \<times> TensorName list \<times> nat list \<Rightarrow> TensorName list \<times> TensorName list \<times> nat list" where
  "graph_input_step source_names sources i acc = (case acc of (missing, ambiguous, chosen) \<Rightarrow>
     (case map_of source_names (input_name i) of
       None \<Rightarrow> (missing @ [input_name i], ambiguous, chosen)
     | Some [] \<Rightarrow> (missing @ [input_name i], ambiguous, chosen)
     | Some [s] \<Rightarrow> (missing, ambiguous, chosen @ [s])
     | Some ss \<Rightarrow> (missing, ambiguous @ map (\<lambda>s. src_name (sources ! s)) ss, chosen)))"

text \<open>
  The argument \<open>reserved\<close> tells whether the reservation of the source indices of a target
  succeeds. The code calls this function for targets with a graph only.
\<close>

definition resolve_operation_graph_binding ::
    "(nat \<Rightarrow> bool) \<Rightarrow> PlanInputs \<Rightarrow> SourceTensor list \<Rightarrow> (TensorName, nat list) btree \<Rightarrow> TargetTensor \<Rightarrow> nat
       \<Rightarrow> resolution \<Rightarrow> resolution" where
  "resolve_operation_graph_binding reserved inputs sources source_names t index acc =
     (case tgt_graph t of None \<Rightarrow> report Error UnsupportedTransform (tgt_name t) [] acc
      | Some graph \<Rightarrow>
        if \<not> reserved index then report Error UnsupportedTransform (tgt_name t) [] acc
        else (case fold (graph_input_step source_names sources) (graph_inputs graph) ([], [], []) of (missing, ambiguous, chosen) \<Rightarrow>
          if ambiguous \<noteq> [] then report Error AmbiguousBinding (tgt_name t) ambiguous acc
          else if missing \<noteq> [] then report_missing t missing acc
          else
            (let selected = map (\<lambda>s. sources ! s) chosen;
                 acc = (case validate_operation_binding inputs selected t of Inr _ \<Rightarrow> acc
                   | Inl _ \<Rightarrow> report Error UnsupportedTransform (tgt_name t) (map src_name selected) acc)
             in record_match index chosen acc)))"

definition target_candidates :: "(TensorName, nat list) btree \<Rightarrow> TargetTensor \<Rightarrow> nat list" where
  "target_candidates source_names t = btree_set (concat (map (\<lambda>name.
     case map_of source_names name of None \<Rightarrow> [] | Some indices \<Rightarrow> indices) (tgt_name t # tgt_aliases t)))"

definition resolve_single ::
    "PlanInputs \<Rightarrow> SourceTensor list \<Rightarrow> TargetTensor \<Rightarrow> nat \<Rightarrow> nat \<Rightarrow> resolution \<Rightarrow> resolution" where
  "resolve_single inputs sources t index source_index acc =
     (let s = sources ! source_index;
          acc = (if src_shape s \<noteq> tgt_source_shape t then report Error ShapeMismatch (tgt_name t) [src_name s] acc else acc);
          acc = (if first_missing_digest_ordinal (src_storage s) (length (plan_digests inputs)) \<noteq> None
            then report Error MissingSourceDigest (src_name s) [tgt_name t] acc else acc);
          acc = (case validate_binding inputs s t of Inr _ \<Rightarrow> acc
            | Inl _ \<Rightarrow> report Error (case src_storage s of Plain _ _ \<Rightarrow> UnsupportedTransform | Quantized _ \<Rightarrow> UnsupportedQuantizedRoute)
                (tgt_name t) [src_name s] acc)
      in record_match index [source_index] acc)"

definition resolve_target ::
    "(nat \<Rightarrow> bool) \<Rightarrow> PlanInputs \<Rightarrow> SourceTensor list \<Rightarrow> TargetTensor list \<Rightarrow> (TensorName, nat list) btree
       \<Rightarrow> (TensorName, nat list) btree \<Rightarrow> nat \<Rightarrow> resolution \<Rightarrow> resolution" where
  "resolve_target reserved inputs sources targets source_names target_names index acc =
     (let t = targets ! index in
      if (case map_of target_names (tgt_name t) of None \<Rightarrow> False | Some indices \<Rightarrow> length indices > 1) then acc
      else if tgt_graph t \<noteq> None then resolve_operation_graph_binding reserved inputs sources source_names t index acc
      else (case target_candidates source_names t of
          [] \<Rightarrow> report_missing t (tgt_aliases t) acc
        | [source_index] \<Rightarrow> resolve_single inputs sources t index source_index acc
        | candidates \<Rightarrow> report Error AmbiguousBinding (tgt_name t) (map (\<lambda>s. src_name (sources ! s)) candidates) acc))"

definition duplicate_diagnostics :: "DiagnosticCode \<Rightarrow> (TensorName, nat list) btree \<Rightarrow> PlanDiagnostic list" where
  "duplicate_diagnostics code names =
     map (\<lambda>p. PlanDiagnostic_new Error code (fst p) []) (filter (\<lambda>p. length (snd p) > 1) names)"

text \<open>The targets of every matched source.\<close>

definition source_uses :: "(nat, nat list) btree \<Rightarrow> (nat, nat list) btree" where
  "source_uses matches = push_entries (concat (map (\<lambda>p. map (\<lambda>s. (s, fst p)) (btree_set (snd p))) matches))"

definition reuse_diagnostics :: "TargetTensor list \<Rightarrow> nat list \<Rightarrow> PlanDiagnostic list" where
  "reuse_diagnostics targets indices =
     (if length indices < 2 then [] else
      let tied = tgt_group (targets ! hd indices) in
      if tied \<noteq> None \<and> list_all (\<lambda>i. tgt_group (targets ! i) = tied) indices then []
      else map (\<lambda>i. PlanDiagnostic_new Error ConflictingSourceReuse (tgt_name (targets ! i))
             (map (\<lambda>i. tgt_name (targets ! i)) indices)) indices)"

record Resolution =
  res_matches :: "(nat, nat list) btree"
  res_unused :: "nat list"
  res_diagnostics :: "PlanDiagnostic list"

definition resolve_bindings ::
    "(nat \<Rightarrow> bool) \<Rightarrow> PlanInputs \<Rightarrow> SourceTensor list \<Rightarrow> TargetTensor list \<Rightarrow> ExtraSourcePolicy \<Rightarrow> Resolution" where
  "resolve_bindings reserved inputs sources targets policy =
     (let source_names = group_names (map (\<lambda>i. (src_name (sources ! i), i)) [0..<length sources]);
          target_names = group_names (map (\<lambda>i. (tgt_name (targets ! i), i)) [0..<length targets]);
          diagnostics = duplicate_diagnostics DuplicateSource source_names @ duplicate_diagnostics DuplicateTarget target_names;
          target_order = sort_key (\<lambda>i. tgt_name (targets ! i)) [0..<length targets];
          (matches, diagnostics) = fold (resolve_target reserved inputs sources targets source_names target_names)
            target_order ([], diagnostics);
          diagnostics = diagnostics @ concat (map (\<lambda>p. reuse_diagnostics targets (snd p)) (source_uses matches));
          used = set (concat (map snd matches));
          unused = filter (\<lambda>i. i \<notin> used) [0..<length sources];
          severity = (case policy of Reject \<Rightarrow> Error | Allow \<Rightarrow> Warning);
          diagnostics = diagnostics @ map (\<lambda>i. PlanDiagnostic_new severity ExtraSource (src_name (sources ! i)) []) unused
      in \<lparr>res_matches = matches, res_unused = unused, res_diagnostics = remdups_adj (sort_key diagnostic_key diagnostics)\<rparr>)"

section \<open>Plans\<close>

record Binding =
  binding_sources :: "SourceTensor list"
  binding_target :: TargetTensor

definition Binding_new :: "SourceTensor list \<Rightarrow> TargetTensor \<Rightarrow> Binding result" where
  "Binding_new sources t = bindR (ensure (sources \<noteq> []) ErrorCategory.Binding) (\<lambda>_.
     Inr \<lparr>binding_sources = sources, binding_target = t\<rparr>)"

definition Binding_try_from :: "Binding \<Rightarrow> Binding result" where
  "Binding_try_from wire = Binding_new (binding_sources wire) (binding_target wire)"

definition PLAN_SCHEMA_VERSION :: nat where
  "PLAN_SCHEMA_VERSION = 2"

record PlanIdentityPayload =
  plan_schema :: nat
  plan_inputs :: PlanInputs
  plan_sources :: "SourceTensor list"
  plan_targets :: "TargetTensor list"
  plan_policy :: ExtraSourcePolicy
  plan_bindings :: "Binding list"
  plan_missing :: "TensorName list"
  plan_unused :: "TensorName list"

record BindingPlan = PlanIdentityPayload +
  plan_id :: ContentDigest

definition compute_plan_id ::
    "(PlanIdentityPayload \<Rightarrow> u8 list option) \<Rightarrow> (u8 list \<Rightarrow> ContentDigest) \<Rightarrow> PlanIdentityPayload \<Rightarrow> ContentDigest result" where
  "compute_plan_id json sha256 payload =
     bindR (canonical_json json payload) (\<lambda>bytes.
       Inr (ContentDigest_hash sha256 (map of_char ''binding-plan-v2'') [bytes]))"

record PlanBuilder =
  pb_inputs :: PlanInputs
  pb_sources :: "SourceTensor list"
  pb_targets :: "TargetTensor list"
  pb_policy :: ExtraSourcePolicy

definition BindingPlan_builder :: "PlanInputs \<Rightarrow> PlanBuilder" where
  "BindingPlan_builder inputs = \<lparr>pb_inputs = inputs, pb_sources = [], pb_targets = [], pb_policy = Reject\<rparr>"

definition with_sources :: "SourceTensor list \<Rightarrow> PlanBuilder \<Rightarrow> PlanBuilder" where
  "with_sources sources b = b\<lparr>pb_sources := pb_sources b @ sources\<rparr>"

definition with_targets :: "TargetTensor list \<Rightarrow> PlanBuilder \<Rightarrow> PlanBuilder" where
  "with_targets targets b = b\<lparr>pb_targets := pb_targets b @ targets\<rparr>"

definition with_extra_source_policy :: "ExtraSourcePolicy \<Rightarrow> PlanBuilder \<Rightarrow> PlanBuilder" where
  "with_extra_source_policy policy b = b\<lparr>pb_policy := policy\<rparr>"

definition plan_analyze :: "(nat \<Rightarrow> bool) \<Rightarrow> PlanBuilder \<Rightarrow> PlanDiagnostic list" where
  "plan_analyze reserved b =
     res_diagnostics (resolve_bindings reserved (pb_inputs b) (pb_sources b) (pb_targets b) (pb_policy b))"

definition bind_match :: "SourceTensor list \<Rightarrow> TargetTensor list \<Rightarrow> nat \<times> nat list \<Rightarrow> Binding result" where
  "bind_match sources targets p = Binding_new (map (\<lambda>s. sources ! s) (snd p)) (targets ! fst p)"

definition plan_build ::
    "(nat \<Rightarrow> bool) \<Rightarrow> (PlanIdentityPayload \<Rightarrow> u8 list option) \<Rightarrow> (u8 list \<Rightarrow> ContentDigest) \<Rightarrow> PlanBuilder
       \<Rightarrow> BindingPlan result" where
  "plan_build reserved json sha256 b =
     (let sources = sort_key src_name (pb_sources b);
          targets = sort_key tgt_name (pb_targets b);
          resolution = resolve_bindings reserved (pb_inputs b) sources targets (pb_policy b) in
     bindR (ensure (plan_is_valid (res_diagnostics resolution)) ErrorCategory.Binding) (\<lambda>_.
     bindR (mapR (bind_match sources targets) (res_matches resolution)) (\<lambda>bindings.
     let bindings = sort_key (\<lambda>b. tgt_name (binding_target b)) bindings;
         missing = btree_set (map tgt_name (filter (\<lambda>t. tgt_requirement t = Optional
           \<and> \<not> list_ex (\<lambda>b. tgt_name (binding_target b) = tgt_name t) bindings) targets));
         unused = btree_set (map (\<lambda>i. src_name (sources ! i)) (res_unused resolution));
         payload = \<lparr>plan_schema = PLAN_SCHEMA_VERSION, plan_inputs = pb_inputs b, plan_sources = sources,
           plan_targets = targets, plan_policy = pb_policy b, plan_bindings = bindings, plan_missing = missing,
           plan_unused = unused\<rparr> in
     bindR (compute_plan_id json sha256 payload) (\<lambda>i.
       Inr (PlanIdentityPayload.extend payload \<lparr>plan_id = i\<rparr>)))))"

section \<open>Serialized plans\<close>

fun sorted_unique_from :: "TensorName option \<Rightarrow> TensorName list \<Rightarrow> unit result" where
  "sorted_unique_from previous [] = Inr ()"
| "sorted_unique_from previous (v # vs) =
     bindR (ensure (\<not> (case previous of None \<Rightarrow> False | Some p \<Rightarrow> p \<ge> v)) InvalidFormat) (\<lambda>_.
       sorted_unique_from (Some v) vs)"

definition validate_sorted_unique :: "TensorName list \<Rightarrow> unit result" where
  "validate_sorted_unique vs = sorted_unique_from None vs"

text \<open>
  \<open>serde_json::from_slice\<close> is the parameter \<open>parse\<close>. It fills the wire struct, whose sources,
  targets and bindings are then converted by their \<open>TryFrom\<close> implementations; a failure of these is
  reported as a parse error.
\<close>

definition convert_wire :: "BindingPlan \<Rightarrow> BindingPlan result" where
  "convert_wire wire =
     bindR (mapR SourceTensor_try_from (plan_sources wire)) (\<lambda>sources.
     bindR (mapR TargetTensor_try_from (plan_targets wire)) (\<lambda>targets.
     bindR (mapR (\<lambda>b.
         bindR (mapR SourceTensor_try_from (binding_sources b)) (\<lambda>ss.
         bindR (TargetTensor_try_from (binding_target b)) (\<lambda>t.
           Binding_try_from \<lparr>binding_sources = ss, binding_target = t\<rparr>))) (plan_bindings wire)) (\<lambda>bindings.
       Inr (wire\<lparr>plan_sources := sources, plan_targets := targets, plan_bindings := bindings\<rparr>))))"

definition parse_wire :: "(u8 list \<Rightarrow> BindingPlan option) \<Rightarrow> u8 list \<Rightarrow> BindingPlan result" where
  "parse_wire parse bytes =
     bindR (ok_or InvalidFormat (parse bytes)) (\<lambda>wire.
       case convert_wire wire of Inl _ \<Rightarrow> Inl InvalidFormat | Inr wire \<Rightarrow> Inr wire)"

definition to_canonical_json :: "(BindingPlan \<Rightarrow> u8 list option) \<Rightarrow> BindingPlan \<Rightarrow> u8 list result" where
  "to_canonical_json json_plan plan = canonical_json json_plan plan"

definition from_canonical_json ::
    "(nat \<Rightarrow> bool) \<Rightarrow> (u8 list \<Rightarrow> BindingPlan option) \<Rightarrow> (BindingPlan \<Rightarrow> u8 list option)
       \<Rightarrow> (PlanIdentityPayload \<Rightarrow> u8 list option) \<Rightarrow> (u8 list \<Rightarrow> ContentDigest) \<Rightarrow> u8 list \<Rightarrow> BindingPlan result" where
  "from_canonical_json reserved parse json_plan json sha256 bytes =
     bindR (parse_wire parse bytes) (\<lambda>wire.
     bindR (canonical_json json_plan wire) (\<lambda>canonical.
     bindR (ensure (\<not> canonical \<noteq> bytes) InvalidFormat) (\<lambda>_.
     bindR (ensure (\<not> plan_schema wire \<noteq> PLAN_SCHEMA_VERSION) InvalidFormat) (\<lambda>_.
     bindR (validate_sorted_unique (map src_name (plan_sources wire))) (\<lambda>_.
     bindR (validate_sorted_unique (map tgt_name (plan_targets wire))) (\<lambda>_.
     bindR (validate_sorted_unique (map (\<lambda>b. tgt_name (binding_target b)) (plan_bindings wire))) (\<lambda>_.
     bindR (validate_sorted_unique (plan_missing wire)) (\<lambda>_.
     bindR (validate_sorted_unique (plan_unused wire)) (\<lambda>_.
     bindR (plan_build reserved json sha256 (with_extra_source_policy (plan_policy wire)
         (with_targets (plan_targets wire) (with_sources (plan_sources wire) (BindingPlan_builder (plan_inputs wire)))))) (\<lambda>rebuilt.
     bindR (ensure (\<not> plan_bindings rebuilt \<noteq> plan_bindings wire) ErrorCategory.Binding) (\<lambda>_.
     bindR (ensure (\<not> plan_missing rebuilt \<noteq> plan_missing wire) ErrorCategory.Binding) (\<lambda>_.
     bindR (ensure (\<not> plan_unused rebuilt \<noteq> plan_unused wire) ErrorCategory.Binding) (\<lambda>_.
     bindR (ensure (\<not> plan_id rebuilt \<noteq> plan_id wire) Integrity) (\<lambda>_.
       Inr rebuilt))))))))))))))"

end
