(* ===== verification/MW_PlanSound.thy ===== *)
theory MW_PlanSound
  imports MW_Plan
begin

text \<open>
  What an accepted plan guarantees: the grouping of names, the outcome of every target, and from
  them the bindings, the missing optional targets, the unused sources and the shared sources.
\<close>

section \<open>Grouping\<close>

lemma set_btree_set [simp]: "set (btree_set xs) = set xs"
  by (simp add: btree_set_def)

lemma btree_set_strict: "sorted_wrt (<) (btree_set xs)"
proof -
  have "sorted (remdups_adj (sort xs))" by (simp add: sorted_remdups_adj)
  moreover have "distinct (remdups_adj ys)" if "sorted ys" for ys :: "'a list"
    using that by (induction ys rule: remdups_adj.induct) auto
  ultimately show ?thesis by (simp add: btree_set_def strict_sorted_iff)
qed

lemma btree_set_strict_id: "sorted_wrt (<) xs \<Longrightarrow> btree_set xs = xs"
  using btree_set_strict[of xs] set_btree_set[of xs] strict_sorted_equal by blast

definition values_of :: "'k \<Rightarrow> ('k \<times> 'v) list \<Rightarrow> 'v list" where
  "values_of k entries = map snd (filter (\<lambda>p. fst p = k) entries)"

lemma push_entries_snoc: "push_entries (es @ [p]) = push_entry (fst p) (snd p) (push_entries es)"
  by (simp add: push_entries_def)

lemma push_entries_lookup:
  "increasing (push_entries es) \<and> map_of (push_entries es) k = (if values_of k es = [] then None else Some (values_of k es))"
proof (induction es arbitrary: k rule: rev_induct)
  case Nil
  then show ?case by (simp add: push_entries_def increasing_def values_of_def)
next
  case (snoc p es)
  have i: "increasing (push_entries es)" using snoc by blast
  have "map_of (push_entry (fst p) (snd p) (push_entries es)) =
      (map_of (push_entries es))(fst p \<mapsto> (case map_of (push_entries es) (fst p) of None \<Rightarrow> [] | Some vs \<Rightarrow> vs) @ [snd p])"
    using i by (simp add: push_entry_def map_of_btree_insert)
  moreover have "increasing (push_entry (fst p) (snd p) (push_entries es))"
    using i by (simp add: push_entry_def increasing_btree_insert)
  ultimately show ?case
    using snoc[THEN conjunct2, of k] snoc[THEN conjunct2, of "fst p"] by (auto simp: push_entries_snoc values_of_def)
qed

lemmas push_entries_increasing = push_entries_lookup[THEN conjunct1]
lemmas push_entries_map_of = push_entries_lookup[THEN conjunct2]

text \<open>The positions of a name.\<close>

definition positions :: "('a \<Rightarrow> 'k) \<Rightarrow> 'a list \<Rightarrow> 'k \<Rightarrow> nat list" where
  "positions f xs k = filter (\<lambda>i. f (xs ! i) = k) [0..<length xs]"

abbreviation indexed :: "('a \<Rightarrow> 'k) \<Rightarrow> 'a list \<Rightarrow> ('k \<times> nat) list" where
  "indexed f xs \<equiv> map (\<lambda>i. (f (xs ! i), i)) [0..<length xs]"

lemma values_of_indexed: "values_of k (indexed f xs) = positions f xs k"
  by (simp add: values_of_def positions_def filter_map comp_def)

lemma group_names_lookup:
  "map_of (group_names (indexed f xs)) k = (if positions f xs k = [] then None else Some (positions f xs k))"
  by (simp add: group_names_def push_entries_map_of values_of_indexed)

lemma set_positions: "set (positions f xs k) = {i. i < length xs \<and> f (xs ! i) = k}"
  by (auto simp: positions_def)

lemma positions_unique:
  assumes "distinct (map f xs)" and "i < length xs"
  shows "positions f xs (f (xs ! i)) = [i]"
proof -
  have s: "set (positions f xs (f (xs ! i))) = {i}"
    using assms by (auto simp: set_positions distinct_conv_nth)
  moreover have "distinct (positions f xs (f (xs ! i)))" by (simp add: positions_def)
  ultimately have "length (positions f xs (f (xs ! i))) = 1" by (metis card.empty card_insert_disjoint distinct_card empty_iff finite.emptyI One_nat_def)
  then show ?thesis using s by (cases "positions f xs (f (xs ! i))") auto
qed

lemma positions_distinct: "distinct (map f xs) \<Longrightarrow> length (positions f xs k) \<le> 1"
proof (cases "positions f xs k = []")
  case False
  assume d: "distinct (map f xs)"
  obtain i where "i \<in> set (positions f xs k)" using False by fastforce
  then show ?thesis using positions_unique[OF d] by (auto simp: set_positions)
qed simp

section \<open>Diagnostics\<close>

lemma plan_is_valid_append [simp]: "plan_is_valid (d @ d') \<longleftrightarrow> plan_is_valid d \<and> plan_is_valid d'"
  by (auto simp: plan_is_valid_def)

lemma plan_is_valid_Nil [simp]: "plan_is_valid []"
  by (simp add: plan_is_valid_def)

lemma plan_is_valid_sorted [simp]: "plan_is_valid (remdups_adj (sort_key f d)) = plan_is_valid d"
  by (simp add: plan_is_valid_def list_ex_iff)

lemma plan_is_valid_single [simp]: "plan_is_valid [PlanDiagnostic_new severity code subject related] \<longleftrightarrow> severity \<noteq> Error"
  by (simp add: plan_is_valid_def PlanDiagnostic_new_def)

lemma no_duplicates:
  "plan_is_valid (duplicate_diagnostics code (group_names (indexed f xs))) \<longleftrightarrow> distinct (map f xs)"
proof
  let ?g = "group_names (indexed f xs)"
  assume v: "plan_is_valid (duplicate_diagnostics code ?g)"
  have short: "length is \<le> 1" if "(k, is) \<in> set ?g" for k "is"
  proof -
    have "\<not> length is > 1"
      using v that by (auto simp: plan_is_valid_def duplicate_diagnostics_def PlanDiagnostic_new_def list_ex_iff)
    then show ?thesis by simp
  qed
  have "i = j" if ij: "i < length xs" "j < length xs" "f (xs ! i) = f (xs ! j)" for i j
  proof -
    have m: "i \<in> set (positions f xs (f (xs ! i)))" "j \<in> set (positions f xs (f (xs ! i)))"
      using ij by (simp_all add: set_positions)
    then have "map_of ?g (f (xs ! i)) = Some (positions f xs (f (xs ! i)))"
      by (auto simp: group_names_lookup)
    then have "length (positions f xs (f (xs ! i))) \<le> 1" using short map_of_SomeD by fast
    then show "i = j" using m by (cases "positions f xs (f (xs ! i))") auto
  qed
  then show "distinct (map f xs)" by (auto simp: distinct_conv_nth)
next
  let ?g = "group_names (indexed f xs)"
  assume d: "distinct (map f xs)"
  have "\<not> length is > 1" if "(k, is) \<in> set ?g" for k "is"
  proof -
    have "map_of ?g k = Some is"
      using that push_entries_increasing increasing_distinct unfolding group_names_def by (metis map_of_is_SomeI)
    then have "is = positions f xs k" by (simp add: group_names_lookup split: if_splits)
    then show ?thesis using positions_distinct[OF d, of k] by simp
  qed
  then show "plan_is_valid (duplicate_diagnostics code ?g)"
    by (auto simp: plan_is_valid_def duplicate_diagnostics_def PlanDiagnostic_new_def list_ex_iff)
qed

section \<open>The outcome of a target\<close>

text \<open>The sources at positions \<open>ss\<close> are what a target asked for.\<close>

definition selects :: "PlanInputs \<Rightarrow> SourceTensor list \<Rightarrow> TargetTensor \<Rightarrow> nat list \<Rightarrow> bool" where
  "selects inputs sources t ss \<longleftrightarrow> (\<forall>s \<in> set ss. s < length sources)
     \<and> (case tgt_graph t of
          Some graph \<Rightarrow> map (\<lambda>s. src_name (sources ! s)) ss = map input_name (graph_inputs graph)
            \<and> validate_operation_binding inputs (map (\<lambda>s. sources ! s) ss) t = Inr ()
        | None \<Rightarrow> \<exists>s. ss = [s] \<and> {i. i < length sources \<and> src_name (sources ! i) \<in> set (tgt_name t # tgt_aliases t)} = {s}
            \<and> validate_binding inputs (sources ! s) t = Inr ())"

text \<open>
  The effect of a step for the target at an index: diagnostics are only added, and if none of them is
  an error the target is skipped as a duplicate, is optional and missing, or is matched.
\<close>

definition step_effect ::
    "PlanInputs \<Rightarrow> SourceTensor list \<Rightarrow> TargetTensor list \<Rightarrow> nat \<Rightarrow> resolution \<Rightarrow> resolution \<Rightarrow> bool" where
  "step_effect inputs sources targets i acc acc' \<longleftrightarrow> (\<exists>added. snd acc' = snd acc @ added
     \<and> (fst acc' = fst acc \<or> (\<exists>ss. fst acc' = btree_insert i ss (fst acc)))
     \<and> (plan_is_valid added \<longrightarrow>
          fst acc' = fst acc \<and> (length (positions tgt_name targets (tgt_name (targets ! i))) > 1 \<or> tgt_requirement (targets ! i) = Optional)
        \<or> (\<exists>ss. fst acc' = btree_insert i ss (fst acc) \<and> selects inputs sources (targets ! i) ss)))"

lemma effect_report_error: "step_effect inputs sources targets i acc (report Error code subject related acc)"
  by (simp add: step_effect_def report_def)

lemma effect_missing:
  "t = targets ! i \<Longrightarrow> step_effect inputs sources targets i acc (report_missing t related acc)"
  by (auto simp: step_effect_def report_def report_missing_def split: Requirement.splits)

lemma effect_match:
  assumes "snd acc' = snd acc @ added" and "fst acc' = fst acc"
    and "plan_is_valid added \<Longrightarrow> selects inputs sources (targets ! i) ss"
  shows "step_effect inputs sources targets i acc (record_match i ss acc')"
  using assms by (auto simp: step_effect_def record_match_def)

lemma graph_inputs_fold:
  assumes "fold (graph_input_step (group_names (indexed src_name sources)) sources) ins ([], [], []) = (missing, ambiguous, chosen)"
    and "missing = []" and "ambiguous = []"
  shows "map (\<lambda>s. src_name (sources ! s)) chosen = map input_name ins \<and> (\<forall>s \<in> set chosen. s < length sources)"
  using assms
proof (induction ins arbitrary: missing ambiguous chosen rule: rev_induct)
  case Nil
  then show ?case by simp
next
  case (snoc x ins)
  obtain m a c where acc: "fold (graph_input_step (group_names (indexed src_name sources)) sources) ins ([], [], []) = (m, a, c)"
    by (rule prod_cases3)
  let ?p = "positions src_name sources (input_name x)"
  have step: "graph_input_step (group_names (indexed src_name sources)) sources x (m, a, c) = ([], [], chosen)"
    using snoc.prems acc by simp
  then obtain s where s: "?p = [s]" "m = []" "a = []" "chosen = c @ [s]"
    by (auto simp: graph_input_step_def group_names_lookup split: if_splits list.splits)
  have "s \<in> set ?p" using s(1) by simp
  then have "s < length sources" "src_name (sources ! s) = input_name x" by (simp_all add: set_positions)
  then show ?case using snoc.IH[OF acc s(2,3)] s(4) by simp
qed

lemma effect_graph:
  assumes g: "tgt_graph (targets ! i) \<noteq> None"
  shows "step_effect inputs sources targets i acc
    (resolve_operation_graph_binding reserved inputs sources (group_names (indexed src_name sources)) (targets ! i) i acc)"
proof -
  let ?t = "targets ! i"
  obtain graph where graph: "tgt_graph ?t = Some graph" using g by blast
  obtain m a c where fold: "fold (graph_input_step (group_names (indexed src_name sources)) sources) (graph_inputs graph) ([], [], []) = (m, a, c)"
    by (rule prod_cases3)
  consider "\<not> reserved i" | "reserved i" "a \<noteq> []" | "reserved i" "a = []" "m \<noteq> []" | "reserved i" "a = []" "m = []" by blast
  then show ?thesis
  proof cases
    case 4
    note names = graph_inputs_fold[OF fold 4(3,2)]
    let ?acc = "case validate_operation_binding inputs (map (\<lambda>s. sources ! s) c) ?t of Inr _ \<Rightarrow> acc
      | Inl _ \<Rightarrow> report Error UnsupportedTransform (tgt_name ?t) (map src_name (map (\<lambda>s. sources ! s) c)) acc"
    obtain added where "snd ?acc = snd acc @ added" "fst ?acc = fst acc"
      "plan_is_valid added \<longrightarrow> validate_operation_binding inputs (map (\<lambda>s. sources ! s) c) ?t = Inr ()"
      by (cases "validate_operation_binding inputs (map (\<lambda>s. sources ! s) c) ?t") (auto simp: report_def)
    then have "step_effect inputs sources targets i acc (record_match i c ?acc)"
      using names graph by (intro effect_match) (auto simp: selects_def)
    then show ?thesis using 4 fold graph by (simp add: resolve_operation_graph_binding_def Let_def)
  qed (use fold graph in \<open>auto simp: resolve_operation_graph_binding_def intro: effect_report_error effect_missing\<close>)
qed

lemma set_candidates:
  "set (target_candidates (group_names (indexed src_name sources)) t)
    = {i. i < length sources \<and> src_name (sources ! i) \<in> set (tgt_name t # tgt_aliases t)}"
proof -
  have "set (case map_of (group_names (indexed src_name sources)) name of None \<Rightarrow> [] | Some is \<Rightarrow> is)
      = {i. i < length sources \<and> src_name (sources ! i) = name}" for name
    by (simp add: group_names_lookup set_positions[symmetric])
  then show ?thesis unfolding target_candidates_def set_btree_set by (auto simp: set_concat)
qed

lemma resolve_single_effect:
  "\<exists>acc' added. resolve_single inputs sources t i s acc = record_match i [s] acc' \<and> snd acc' = snd acc @ added
     \<and> fst acc' = fst acc \<and> (plan_is_valid added \<longrightarrow> validate_binding inputs (sources ! s) t = Inr ())"
proof -
  define a1 where "a1 = (if src_shape (sources ! s) \<noteq> tgt_source_shape t
    then report Error ShapeMismatch (tgt_name t) [src_name (sources ! s)] acc else acc)"
  define a2 where "a2 = (if first_missing_digest_ordinal (src_storage (sources ! s)) (length (plan_digests inputs)) \<noteq> None
    then report Error MissingSourceDigest (src_name (sources ! s)) [tgt_name t] a1 else a1)"
  define a3 where "a3 = (case validate_binding inputs (sources ! s) t of Inr _ \<Rightarrow> a2
    | Inl _ \<Rightarrow> report Error (case src_storage (sources ! s) of Plain _ _ \<Rightarrow> UnsupportedTransform | Quantized _ \<Rightarrow> UnsupportedQuantizedRoute)
        (tgt_name t) [src_name (sources ! s)] a2)"
  obtain d1 where d1: "snd a1 = snd acc @ d1" "fst a1 = fst acc" unfolding a1_def report_def by (cases "src_shape (sources ! s) \<noteq> tgt_source_shape t") auto
  obtain d2 where d2: "snd a2 = snd a1 @ d2" "fst a2 = fst a1" unfolding a2_def report_def
    by (cases "first_missing_digest_ordinal (src_storage (sources ! s)) (length (plan_digests inputs))") auto
  obtain d3 where d3: "snd a3 = snd a2 @ d3" "fst a3 = fst a2" "plan_is_valid d3 \<longrightarrow> validate_binding inputs (sources ! s) t = Inr ()"
    unfolding a3_def report_def by (cases "validate_binding inputs (sources ! s) t") auto
  have "resolve_single inputs sources t i s acc = record_match i [s] a3"
    unfolding resolve_single_def Let_def a1_def[symmetric] a2_def[symmetric] a3_def[symmetric] by (rule refl)
  then show ?thesis using d1 d2 d3 by (intro exI[of _ a3] exI[of _ "d1 @ d2 @ d3"]) auto
qed

lemma effect_step:
  "step_effect inputs sources targets i acc (resolve_target reserved inputs sources targets
     (group_names (indexed src_name sources)) (group_names (indexed tgt_name targets)) i acc)"
proof -
  let ?t = "targets ! i"
  let ?cs = "target_candidates (group_names (indexed src_name sources)) ?t"
  let ?dup = "case map_of (group_names (indexed tgt_name targets)) (tgt_name ?t) of None \<Rightarrow> False | Some indices \<Rightarrow> length indices > 1"
  have dup: "?dup \<longleftrightarrow> length (positions tgt_name targets (tgt_name ?t)) > 1" by (simp add: group_names_lookup)
  consider "?dup" | "\<not> ?dup" "tgt_graph ?t \<noteq> None" | "\<not> ?dup" "tgt_graph ?t = None" "?cs = []"
    | s where "\<not> ?dup" "tgt_graph ?t = None" "?cs = [s]" | a b rest where "\<not> ?dup" "tgt_graph ?t = None" "?cs = a # b # rest"
    by (metis list.exhaust)
  then show ?thesis
  proof cases
    case 1
    then show ?thesis using dup by (simp add: resolve_target_def Let_def step_effect_def)
  next
    case 2
    then show ?thesis using effect_graph by (auto simp: resolve_target_def Let_def)
  next
    case 3
    then show ?thesis using effect_missing[OF refl] by (simp add: resolve_target_def Let_def)
  next
    case (4 s)
    have s: "{i. i < length sources \<and> src_name (sources ! i) \<in> set (tgt_name ?t # tgt_aliases ?t)} = {s}"
      using set_candidates[of sources ?t] 4(3) by simp
    then have sel: "selects inputs sources ?t [s]" if "validate_binding inputs (sources ! s) ?t = Inr ()"
      using that 4(2) by (auto simp: selects_def)
    obtain acc' added where "resolve_single inputs sources ?t i s acc = record_match i [s] acc'" "snd acc' = snd acc @ added"
      "fst acc' = fst acc" "plan_is_valid added \<longrightarrow> validate_binding inputs (sources ! s) ?t = Inr ()"
      using resolve_single_effect by blast
    then have "step_effect inputs sources targets i acc (resolve_single inputs sources ?t i s acc)"
      using effect_match[of acc' acc added inputs sources targets i "[s]"] sel by auto
    then show ?thesis using 4 by (simp add: resolve_target_def Let_def)
  next
    case (5 a b rest)
    then show ?thesis using effect_report_error by (simp add: resolve_target_def Let_def)
  qed
qed

section \<open>All targets\<close>

definition settled ::
    "PlanInputs \<Rightarrow> SourceTensor list \<Rightarrow> TargetTensor list \<Rightarrow> (nat, nat list) btree \<Rightarrow> nat \<Rightarrow> bool" where
  "settled inputs sources targets m i \<longleftrightarrow> (case map_of m i of
     None \<Rightarrow> length (positions tgt_name targets (tgt_name (targets ! i))) > 1 \<or> tgt_requirement (targets ! i) = Optional
   | Some ss \<Rightarrow> selects inputs sources (targets ! i) ss)"

lemma resolve_fold:
  assumes "distinct order"
    and "fold (resolve_target reserved inputs sources targets (group_names (indexed src_name sources))
      (group_names (indexed tgt_name targets))) order ([], d) = (m, d')"
  shows "increasing m \<and> fst ` set m \<subseteq> set order \<and> (\<exists>added. d' = d @ added)
    \<and> (plan_is_valid d' \<longrightarrow> (\<forall>i \<in> set order. settled inputs sources targets m i))"
  using assms
proof (induction order arbitrary: m d' rule: rev_induct)
  case Nil
  then show ?case by (simp add: increasing_def)
next
  case (snoc i order)
  let ?step = "resolve_target reserved inputs sources targets (group_names (indexed src_name sources)) (group_names (indexed tgt_name targets))"
  obtain m1 d1 where acc: "fold ?step order ([], d) = (m1, d1)" by (rule prod.exhaust)
  have d: "distinct order" "i \<notin> set order" using snoc.prems(1) by simp_all
  note IH = snoc.IH[OF d(1) acc]
  have new: "map_of m1 i = None" using IH d(2) by (auto simp: map_of_eq_None_iff)
  have step: "?step i (m1, d1) = (m, d')" using snoc.prems(2) acc by simp
  have eff: "step_effect inputs sources targets i (m1, d1) (m, d')" using effect_step[of inputs sources targets i "(m1, d1)" reserved] step by simp
  then obtain added where a: "d' = d1 @ added" "m = m1 \<or> (\<exists>ss. m = btree_insert i ss m1)"
    and good: "plan_is_valid added \<Longrightarrow> m = m1 \<and> (length (positions tgt_name targets (tgt_name (targets ! i))) > 1 \<or> tgt_requirement (targets ! i) = Optional)
      \<or> (\<exists>ss. m = btree_insert i ss m1 \<and> selects inputs sources (targets ! i) ss)"
    by (auto simp: step_effect_def)
  have inc: "increasing m1" using IH by blast
  then have m: "increasing m" "\<forall>j \<noteq> i. map_of m j = map_of m1 j"
    using a(2) by (auto simp: increasing_btree_insert map_of_btree_insert)
  have "fst ` set (btree_insert i ss m1) \<subseteq> insert i (fst ` set m1)" for ss
    using image_mono[OF set_btree_insert[of i ss m1], of fst] by simp
  then have "fst ` set m \<subseteq> insert i (fst ` set m1)" using a(2) by auto
  then have keys: "fst ` set m \<subseteq> insert i (set order)" using IH by auto
  have "settled inputs sources targets m i" if "plan_is_valid added"
    using good[OF that] new inc by (auto simp: settled_def map_of_btree_insert)
  moreover have "settled inputs sources targets m j = settled inputs sources targets m1 j" if "j \<noteq> i" for j
    using m(2) that by (simp add: settled_def)
  ultimately have "\<forall>j \<in> set (order @ [i]). settled inputs sources targets m j" if "plan_is_valid d'"
    using IH that a(1) d(2) by (metis (no_types, lifting) plan_is_valid_append UnE set_append list.set(1,2) singletonD insertE)
  then show ?case using m(1) keys a(1) IH by auto
qed

lemma source_uses_members:
  assumes "increasing m" and "(s, ts) \<in> set (source_uses m)"
  shows "set ts = {t. \<exists>ss. map_of m t = Some ss \<and> s \<in> set ss}"
proof -
  have "distinct (map fst (source_uses m))" unfolding source_uses_def by (rule increasing_distinct[OF push_entries_increasing])
  then have "map_of (source_uses m) s = Some ts" using assms(2) by (rule map_of_is_SomeI)
  then have "ts = values_of s (concat (map (\<lambda>p. map (\<lambda>s. (s, fst p)) (btree_set (snd p))) m))"
    by (simp add: source_uses_def push_entries_map_of split: if_splits)
  then have "set ts = {t. \<exists>ss. (t, ss) \<in> set m \<and> s \<in> set ss}" by (force simp: values_of_def)
  then show ?thesis using increasing_distinct[OF assms(1)] by (auto simp: map_of_eq_Some_iff)
qed

lemma source_uses_all:
  assumes "increasing m" and "map_of m t = Some ss" and "s \<in> set ss"
  shows "\<exists>ts. (s, ts) \<in> set (source_uses m)"
proof -
  let ?es = "concat (map (\<lambda>p. map (\<lambda>s. (s, fst p)) (btree_set (snd p))) m)"
  have "(s, t) \<in> set ?es" using map_of_SomeD[OF assms(2)] assms(3) by force
  then have "values_of s ?es \<noteq> []" by (auto simp: values_of_def filter_empty_conv)
  then have "map_of (source_uses m) s = Some (values_of s ?es)" by (simp add: source_uses_def push_entries_map_of)
  then show ?thesis by (blast dest: map_of_SomeD)
qed

lemma shared_groups:
  assumes m: "increasing m" and v: "plan_is_valid (concat (map (\<lambda>p. reuse_diagnostics targets (snd p)) (source_uses m)))"
    and t: "map_of m t = Some ss" "s \<in> set ss" and t': "map_of m t' = Some ss'" "s \<in> set ss'" and "t \<noteq> t'"
  shows "tgt_group (targets ! t) = tgt_group (targets ! t') \<and> tgt_group (targets ! t) \<noteq> None"
proof -
  obtain ts where ts: "(s, ts) \<in> set (source_uses m)" using source_uses_all[OF m t] by blast
  have mem: "t \<in> set ts" "t' \<in> set ts" using source_uses_members[OF m ts] t t' by auto
  then have len: "\<not> length ts < 2" using \<open>t \<noteq> t'\<close> by (cases ts rule: remdups_adj.cases) auto
  have valid: "plan_is_valid (reuse_diagnostics targets ts)" using v ts by (force simp: plan_is_valid_def list_ex_iff)
  let ?g = "tgt_group (targets ! hd ts)"
  have "?g \<noteq> None \<and> list_all (\<lambda>i. tgt_group (targets ! i) = ?g) ts"
  proof (rule ccontr)
    assume "\<not> ?thesis"
    then have "reuse_diagnostics targets ts = map (\<lambda>i. PlanDiagnostic_new Error ConflictingSourceReuse (tgt_name (targets ! i))
        (map (\<lambda>i. tgt_name (targets ! i)) ts)) ts"
      using len by (auto simp: reuse_diagnostics_def Let_def)
    then show False using valid mem(1) by (auto simp: plan_is_valid_def list_ex_iff PlanDiagnostic_new_def)
  qed
  then show ?thesis using mem by (auto simp: list_all_iff)
qed

text \<open>The resolution of a valid input.\<close>

lemma resolve_valid:
  assumes "plan_is_valid (res_diagnostics (resolve_bindings reserved inputs sources targets policy))"
  shows "distinct (map src_name sources)" and "distinct (map tgt_name targets)"
    and "increasing (res_matches (resolve_bindings reserved inputs sources targets policy))"
    and "\<forall>i < length targets. settled inputs sources targets (res_matches (resolve_bindings reserved inputs sources targets policy)) i"
    and "fst ` set (res_matches (resolve_bindings reserved inputs sources targets policy)) \<subseteq> {..<length targets}"
    and "plan_is_valid (concat (map (\<lambda>p. reuse_diagnostics targets (snd p))
      (source_uses (res_matches (resolve_bindings reserved inputs sources targets policy)))))"
    and "res_unused (resolve_bindings reserved inputs sources targets policy) = filter (\<lambda>i. i \<notin>
      set (concat (map snd (res_matches (resolve_bindings reserved inputs sources targets policy))))) [0..<length sources]"
    and "policy = Reject \<Longrightarrow> res_unused (resolve_bindings reserved inputs sources targets policy) = []"
proof -
  let ?r = "resolve_bindings reserved inputs sources targets policy"
  let ?order = "sort_key (\<lambda>i. tgt_name (targets ! i)) [0..<length targets]"
  let ?dup = "duplicate_diagnostics DuplicateSource (group_names (indexed src_name sources))
    @ duplicate_diagnostics DuplicateTarget (group_names (indexed tgt_name targets))"
  obtain m d where f: "fold (resolve_target reserved inputs sources targets (group_names (indexed src_name sources))
      (group_names (indexed tgt_name targets))) ?order ([], ?dup) = (m, d)" by (rule prod.exhaust)
  have order: "distinct ?order" "set ?order = {..<length targets}" by (auto simp: distinct_sort)
  note F = resolve_fold[OF order(1) f]
  let ?unused = "filter (\<lambda>i. i \<notin> set (concat (map snd m))) [0..<length sources]"
  let ?extra = "map (\<lambda>i. PlanDiagnostic_new (case policy of Reject \<Rightarrow> Error | Allow \<Rightarrow> Warning) ExtraSource (src_name (sources ! i)) []) ?unused"
  have r: "res_matches ?r = m" "res_unused ?r = ?unused"
    "res_diagnostics ?r = remdups_adj (sort_key diagnostic_key
       ((d @ concat (map (\<lambda>p. reuse_diagnostics targets (snd p)) (source_uses m))) @ ?extra))"
    by (simp_all add: resolve_bindings_def Let_def f)
  have v: "plan_is_valid d" "plan_is_valid (concat (map (\<lambda>p. reuse_diagnostics targets (snd p)) (source_uses m)))"
    "plan_is_valid ?extra"
    using assms unfolding r(3) plan_is_valid_sorted plan_is_valid_append by blast+
  obtain added where "d = ?dup @ added" using F by blast
  then have dup: "plan_is_valid ?dup" using v(1) by simp
  then show "distinct (map src_name sources)" "distinct (map tgt_name targets)"
    using no_duplicates unfolding plan_is_valid_append by blast+
  show "increasing (res_matches ?r)" "fst ` set (res_matches ?r) \<subseteq> {..<length targets}"
    "\<forall>i < length targets. settled inputs sources targets (res_matches ?r) i"
    using F order(2) v(1) unfolding r(1) by auto
  show "plan_is_valid (concat (map (\<lambda>p. reuse_diagnostics targets (snd p)) (source_uses (res_matches ?r))))"
    using v(2) unfolding r(1) .
  show "res_unused ?r = filter (\<lambda>i. i \<notin> set (concat (map snd (res_matches ?r)))) [0..<length sources]"
    unfolding r(1,2) ..
  show "res_unused ?r = []" if "policy = Reject"
  proof (rule ccontr)
    assume "res_unused ?r \<noteq> []"
    then have "\<not> plan_is_valid ?extra" using that unfolding r(2) by (cases ?unused) (auto simp: plan_is_valid_def PlanDiagnostic_new_def)
    then show False using v(3) by blast
  qed
qed

end
