(* ===== verification/MW_PlanBuild.thy ===== *)
theory MW_PlanBuild
  imports MW_PlanSound
begin

text \<open>
  Properties of whole plans: every accepted plan binds its targets correctly, the plan does not depend
  on the order of the inputs, and the serialized form of a plan is parsed back to it.
\<close>

section \<open>Accepted plans\<close>

definition plan_payload ::
    "PlanBuilder \<Rightarrow> Resolution \<Rightarrow> Binding list \<Rightarrow> PlanIdentityPayload" where
  "plan_payload b r bindings =
     \<lparr>plan_schema = PLAN_SCHEMA_VERSION, plan_inputs = pb_inputs b, plan_sources = sort_key src_name (pb_sources b),
      plan_targets = sort_key tgt_name (pb_targets b), plan_policy = pb_policy b, plan_bindings = bindings,
      plan_missing = btree_set (map tgt_name (filter (\<lambda>t. tgt_requirement t = Optional
        \<and> \<not> list_ex (\<lambda>b. tgt_name (binding_target b) = tgt_name t) bindings) (sort_key tgt_name (pb_targets b)))),
      plan_unused = btree_set (map (\<lambda>i. src_name (sort_key src_name (pb_sources b) ! i)) (res_unused r))\<rparr>"

lemma plan_build_Inr:
  assumes "plan_build reserved json sha256 b = Inr plan"
  obtains bs where
    "plan_is_valid (res_diagnostics (resolve_bindings reserved (pb_inputs b) (sort_key src_name (pb_sources b))
       (sort_key tgt_name (pb_targets b)) (pb_policy b)))"
    "mapR (bind_match (sort_key src_name (pb_sources b)) (sort_key tgt_name (pb_targets b)))
       (res_matches (resolve_bindings reserved (pb_inputs b) (sort_key src_name (pb_sources b))
         (sort_key tgt_name (pb_targets b)) (pb_policy b))) = Inr bs"
    "compute_plan_id json sha256 (plan_payload b (resolve_bindings reserved (pb_inputs b) (sort_key src_name (pb_sources b))
       (sort_key tgt_name (pb_targets b)) (pb_policy b)) (sort_key (\<lambda>b. tgt_name (binding_target b)) bs)) = Inr (plan_id plan)"
    "PlanIdentityPayload.truncate plan = plan_payload b (resolve_bindings reserved (pb_inputs b) (sort_key src_name (pb_sources b))
       (sort_key tgt_name (pb_targets b)) (pb_policy b)) (sort_key (\<lambda>b. tgt_name (binding_target b)) bs)"
proof -
  let ?r = "resolve_bindings reserved (pb_inputs b) (sort_key src_name (pb_sources b)) (sort_key tgt_name (pb_targets b)) (pb_policy b)"
  obtain bs i where v: "plan_is_valid (res_diagnostics ?r)"
    and bs: "mapR (bind_match (sort_key src_name (pb_sources b)) (sort_key tgt_name (pb_targets b))) (res_matches ?r) = Inr bs"
    and i: "compute_plan_id json sha256 (plan_payload b ?r (sort_key (\<lambda>b. tgt_name (binding_target b)) bs)) = Inr i"
    and p: "plan = PlanIdentityPayload.extend (plan_payload b ?r (sort_key (\<lambda>b. tgt_name (binding_target b)) bs)) \<lparr>plan_id = i\<rparr>"
    using assms unfolding plan_build_def Let_def plan_payload_def by (auto simp: bindR_Inr)
  show ?thesis
    by (rule that[OF v bs]) (use i p in \<open>simp_all add: PlanIdentityPayload.defs BindingPlan.defs plan_payload_def\<close>)
qed

lemma truncate_fields:
  "plan_schema (PlanIdentityPayload.truncate p) = plan_schema p" "plan_inputs (PlanIdentityPayload.truncate p) = plan_inputs p"
  "plan_sources (PlanIdentityPayload.truncate p) = plan_sources p" "plan_targets (PlanIdentityPayload.truncate p) = plan_targets p"
  "plan_policy (PlanIdentityPayload.truncate p) = plan_policy p" "plan_bindings (PlanIdentityPayload.truncate p) = plan_bindings p"
  "plan_missing (PlanIdentityPayload.truncate p) = plan_missing p" "plan_unused (PlanIdentityPayload.truncate p) = plan_unused p"
  by (simp_all add: PlanIdentityPayload.defs)

lemma plan_fields:
  assumes "PlanIdentityPayload.truncate plan = plan_payload b r bs"
  shows "plan_schema plan = PLAN_SCHEMA_VERSION" "plan_inputs plan = pb_inputs b" "plan_sources plan = sort_key src_name (pb_sources b)"
    "plan_targets plan = sort_key tgt_name (pb_targets b)" "plan_policy plan = pb_policy b" "plan_bindings plan = bs"
    "plan_missing plan = btree_set (map tgt_name (filter (\<lambda>t. tgt_requirement t = Optional
        \<and> \<not> list_ex (\<lambda>b. tgt_name (binding_target b) = tgt_name t) bs) (plan_targets plan)))"
    "plan_unused plan = btree_set (map (\<lambda>i. src_name (plan_sources plan ! i)) (res_unused r))"
  unfolding truncate_fields[of plan, symmetric] assms by (simp_all add: plan_payload_def)

text \<open>A binding gives a target the sources that its contract names.\<close>

definition binding_correct :: "PlanInputs \<Rightarrow> SourceTensor list \<Rightarrow> Binding \<Rightarrow> bool" where
  "binding_correct inputs sources b \<longleftrightarrow> binding_sources b \<noteq> [] \<and> set (binding_sources b) \<subseteq> set sources
     \<and> (case tgt_graph (binding_target b) of
          Some graph \<Rightarrow> map src_name (binding_sources b) = map input_name (graph_inputs graph)
            \<and> validate_operation_binding inputs (binding_sources b) (binding_target b) = Inr ()
        | None \<Rightarrow> \<exists>s. binding_sources b = [s]
            \<and> {s' \<in> set sources. src_name s' \<in> set (tgt_name (binding_target b) # tgt_aliases (binding_target b))} = {s}
            \<and> validate_binding inputs s (binding_target b) = Inr ())"

lemma selects_correct:
  assumes "selects inputs sources t ss" and "ss \<noteq> []"
  shows "binding_correct inputs sources \<lparr>binding_sources = map (\<lambda>s. sources ! s) ss, binding_target = t\<rparr>"
proof (cases "tgt_graph t")
  case None
  with assms obtain s where s: "ss = [s]" "s < length sources"
    "{i. i < length sources \<and> src_name (sources ! i) \<in> set (tgt_name t # tgt_aliases t)} = {s}"
    "validate_binding inputs (sources ! s) t = Inr ()" by (auto simp: selects_def)
  have "{s' \<in> set sources. src_name s' \<in> set (tgt_name t # tgt_aliases t)}
      = (\<lambda>i. sources ! i) ` {i. i < length sources \<and> src_name (sources ! i) \<in> set (tgt_name t # tgt_aliases t)}"
    by (auto simp: in_set_conv_nth)
  then have "{s' \<in> set sources. src_name s' \<in> set (tgt_name t # tgt_aliases t)} = {sources ! s}" unfolding s(3) by simp
  then show ?thesis using None s by (auto simp: binding_correct_def)
next
  case (Some graph)
  then show ?thesis using assms by (auto simp: selects_def binding_correct_def comp_def)
qed

lemma bind_match_Inr:
  "bind_match sources targets p = Inr b \<longleftrightarrow>
     snd p \<noteq> [] \<and> b = \<lparr>binding_sources = map (\<lambda>s. sources ! s) (snd p), binding_target = targets ! fst p\<rparr>"
  by (auto simp: bind_match_def Binding_new_def bindR_Inr)

lemma mapR_set: "mapR f xs = Inr ys \<Longrightarrow> y \<in> set ys \<longleftrightarrow> (\<exists>x \<in> set xs. f x = Inr y)"
  unfolding mapR_Inr by (metis (no_types, lifting) in_set_conv_nth Inr_inject)

lemma mapR_map:
  assumes "mapR f xs = Inr ys" and "\<And>x y. f x = Inr y \<Longrightarrow> g y = h x"
  shows "map g ys = map h xs"
  using assms unfolding mapR_Inr by (auto intro: nth_equalityI)

text \<open>The members of the bindings.\<close>

lemma plan_members:
  assumes "plan_build reserved json sha256 b = Inr plan"
  defines "r \<equiv> resolve_bindings reserved (plan_inputs plan) (plan_sources plan) (plan_targets plan) (plan_policy plan)"
  shows "plan_is_valid (res_diagnostics r)"
    and "x \<in> set (plan_bindings plan) \<longleftrightarrow> (\<exists>i ss. map_of (res_matches r) i = Some ss \<and> i < length (plan_targets plan) \<and> ss \<noteq> []
      \<and> selects (plan_inputs plan) (plan_sources plan) (plan_targets plan ! i) ss
      \<and> x = \<lparr>binding_sources = map (\<lambda>s. plan_sources plan ! s) ss, binding_target = plan_targets plan ! i\<rparr>)"
    and "\<forall>i ss. map_of (res_matches r) i = Some ss \<longrightarrow> ss \<noteq> []"
    and "sorted_wrt (<) (map (\<lambda>b. tgt_name (binding_target b)) (plan_bindings plan))"
    and "plan_unused plan = btree_set (map (\<lambda>i. src_name (plan_sources plan ! i)) (res_unused r))"
    and "sorted_wrt (<) (map src_name (plan_sources plan))" and "sorted_wrt (<) (map tgt_name (plan_targets plan))"
proof -
  obtain bs where v0: "plan_is_valid (res_diagnostics (resolve_bindings reserved (pb_inputs b) (sort_key src_name (pb_sources b))
       (sort_key tgt_name (pb_targets b)) (pb_policy b)))"
    and bs0: "mapR (bind_match (sort_key src_name (pb_sources b)) (sort_key tgt_name (pb_targets b)))
       (res_matches (resolve_bindings reserved (pb_inputs b) (sort_key src_name (pb_sources b))
         (sort_key tgt_name (pb_targets b)) (pb_policy b))) = Inr bs"
    and p0: "PlanIdentityPayload.truncate plan = plan_payload b (resolve_bindings reserved (pb_inputs b) (sort_key src_name (pb_sources b))
       (sort_key tgt_name (pb_targets b)) (pb_policy b)) (sort_key (\<lambda>b. tgt_name (binding_target b)) bs)"
    by (rule plan_build_Inr[OF assms(1)])
  have r: "resolve_bindings reserved (pb_inputs b) (sort_key src_name (pb_sources b)) (sort_key tgt_name (pb_targets b)) (pb_policy b) = r"
    unfolding r_def plan_fields(2-5)[OF p0] ..
  note v = v0[unfolded r] and p = p0[unfolded r]
  note F = plan_fields[OF p]
  have bs: "mapR (bind_match (plan_sources plan) (plan_targets plan)) (res_matches r) = Inr bs"
    using bs0 unfolding r F(3,4) .
  show "plan_is_valid (res_diagnostics r)" by (rule v)
  note R = resolve_valid[OF v[unfolded r_def], folded r_def]
  have d: "distinct (map fst (res_matches r))" using R(3) by (rule increasing_distinct)
  have ne: "snd q \<noteq> []" if "q \<in> set (res_matches r)" for q
    using bs that unfolding mapR_Inr by (auto simp: in_set_conv_nth bind_match_Inr)
  then show "\<forall>i ss. map_of (res_matches r) i = Some ss \<longrightarrow> ss \<noteq> []" by (force dest: map_of_SomeD)
  have lt: "i < length (plan_targets plan)" "selects (plan_inputs plan) (plan_sources plan) (plan_targets plan ! i) ss"
    if "map_of (res_matches r) i = Some ss" for i ss
  proof -
    show i: "i < length (plan_targets plan)" using R(5) map_of_SomeD[OF that] by force
    show "selects (plan_inputs plan) (plan_sources plan) (plan_targets plan ! i) ss"
      using R(4)[rule_format, OF i] that by (simp add: settled_def)
  qed
  have "x \<in> set (plan_bindings plan) \<longleftrightarrow> (\<exists>q \<in> set (res_matches r). bind_match (plan_sources plan) (plan_targets plan) q = Inr x)"
    unfolding F(6) set_sort by (rule mapR_set[OF bs])
  also have "\<dots> \<longleftrightarrow> (\<exists>i ss. map_of (res_matches r) i = Some ss
      \<and> bind_match (plan_sources plan) (plan_targets plan) (i, ss) = Inr x)"
    using d by auto
  finally have e: "x \<in> set (plan_bindings plan) \<longleftrightarrow> (\<exists>i ss. map_of (res_matches r) i = Some ss
      \<and> bind_match (plan_sources plan) (plan_targets plan) (i, ss) = Inr x)" .
  show "x \<in> set (plan_bindings plan) \<longleftrightarrow> (\<exists>i ss. map_of (res_matches r) i = Some ss \<and> i < length (plan_targets plan) \<and> ss \<noteq> []
      \<and> selects (plan_inputs plan) (plan_sources plan) (plan_targets plan ! i) ss
      \<and> x = \<lparr>binding_sources = map (\<lambda>s. plan_sources plan ! s) ss, binding_target = plan_targets plan ! i\<rparr>)"
    unfolding e bind_match_Inr fst_conv snd_conv using lt by blast
  have "map (\<lambda>b. tgt_name (binding_target b)) bs = map (\<lambda>q. tgt_name (plan_targets plan ! fst q)) (res_matches r)"
    by (rule mapR_map[OF bs]) (auto simp: bind_match_Inr)
  also have "distinct \<dots>"
  proof -
    have "inj_on (\<lambda>i. tgt_name (plan_targets plan ! i)) (set (map fst (res_matches r)))"
      using R(2) R(5) by (auto simp: inj_on_def distinct_conv_nth)
    then have "distinct (map (\<lambda>i. tgt_name (plan_targets plan ! i)) (map fst (res_matches r)))"
      using d by (simp only: distinct_map)
    then show ?thesis by (simp add: comp_def)
  qed
  finally show "sorted_wrt (<) (map (\<lambda>b. tgt_name (binding_target b)) (plan_bindings plan))"
    unfolding F(6) strict_sorted_iff by (simp add: distinct_map)
  show "plan_unused plan = btree_set (map (\<lambda>i. src_name (plan_sources plan ! i)) (res_unused r))" by (rule F(8))
  show "sorted_wrt (<) (map src_name (plan_sources plan))" "sorted_wrt (<) (map tgt_name (plan_targets plan))"
    using R(1,2) unfolding strict_sorted_iff by (simp_all add: F(3,4))
qed

lemma plan_bindings_correct:
  assumes "plan_build reserved json sha256 b = Inr plan" and "x \<in> set (plan_bindings plan)"
  shows "binding_correct (plan_inputs plan) (plan_sources plan) x \<and> binding_target x \<in> set (plan_targets plan)"
  using assms(2) selects_correct unfolding plan_members(2)[OF assms(1)] by fastforce

text \<open>Every target is bound or is an optional one that is recorded as missing.\<close>

lemma plan_targets_covered:
  assumes b: "plan_build reserved json sha256 b = Inr plan" and t: "t \<in> set (plan_targets plan)"
  shows "(\<exists>x \<in> set (plan_bindings plan). binding_target x = t) \<or> tgt_requirement t = Optional \<and> tgt_name t \<in> set (plan_missing plan)"
proof -
  let ?r = "resolve_bindings reserved (plan_inputs plan) (plan_sources plan) (plan_targets plan) (plan_policy plan)"
  note P = plan_members[OF b] and R = resolve_valid[OF plan_members(1)[OF b]]
  obtain i where i: "i < length (plan_targets plan)" "t = plan_targets plan ! i" using t by (auto simp: in_set_conv_nth)
  have set: "settled (plan_inputs plan) (plan_sources plan) (plan_targets plan) (res_matches ?r) i" using R(4) i(1) by blast
  show ?thesis
  proof (cases "map_of (res_matches ?r) i")
    case (Some ss)
    then have "\<lparr>binding_sources = map (\<lambda>s. plan_sources plan ! s) ss, binding_target = t\<rparr> \<in> set (plan_bindings plan)"
      unfolding P(2) i(2) using set P(3) i(1) Some by (intro exI[of _ i] exI[of _ ss]) (auto simp: settled_def)
    then show ?thesis by (metis Binding.select_convs(2))
  next
    case None
    have "\<not> length (positions tgt_name (plan_targets plan) (tgt_name t)) > 1"
      using positions_distinct[OF R(2), of "tgt_name t"] by simp
    then have opt: "tgt_requirement t = Optional" using set None i(2) by (simp add: settled_def)
    have "tgt_name (binding_target x) \<noteq> tgt_name t" if x: "x \<in> set (plan_bindings plan)" for x
    proof
      assume n: "tgt_name (binding_target x) = tgt_name t"
      obtain j ss where j: "map_of (res_matches ?r) j = Some ss" "j < length (plan_targets plan)" "binding_target x = plan_targets plan ! j"
        using x unfolding P(2) by auto
      then have "j = i" using n R(2) i by (simp add: distinct_conv_nth) metis
      then show False using j(1) None by simp
    qed
    then have "tgt_name t \<in> set (plan_missing plan)"
      using b t opt by (elim plan_build_Inr) (auto simp: plan_fields(6,7) list_ex_iff)
    then show ?thesis using opt by blast
  qed
qed

lemma filtered_image:
  assumes "\<And>s. s < length xs \<Longrightarrow> s \<in> U \<longleftrightarrow> xs ! s \<in> V"
  shows "(\<lambda>i. xs ! i) ` set (filter (\<lambda>i. i \<notin> U) [0..<length xs]) = set xs - V"
  using assms by (auto simp: in_set_conv_nth image_iff) blast

text \<open>The unused sources are those that no binding contains.\<close>

lemma plan_unused_exact:
  assumes b: "plan_build reserved json sha256 b = Inr plan"
  shows "set (plan_unused plan) = src_name ` (set (plan_sources plan) - (\<Union>x \<in> set (plan_bindings plan). set (binding_sources x)))"
    and "plan_policy plan = Reject \<Longrightarrow> plan_unused plan = []"
proof -
  let ?S = "plan_sources plan"
  let ?r = "resolve_bindings reserved (plan_inputs plan) ?S (plan_targets plan) (plan_policy plan)"
  note P = plan_members[OF b] and R = resolve_valid[OF plan_members(1)[OF b]]
  have d: "distinct (map fst (res_matches ?r))" using R(3) by (rule increasing_distinct)
  have sel: "\<exists>i. map_of (res_matches ?r) i = Some ss \<and> i < length (plan_targets plan) \<and> ss \<noteq> []
      \<and> selects (plan_inputs plan) ?S (plan_targets plan ! i) ss" if ss: "(i, ss) \<in> set (res_matches ?r)" for i ss
  proof -
    have m: "map_of (res_matches ?r) i = Some ss" using d ss by simp
    have i: "i < length (plan_targets plan)" using R(5) ss by force
    show ?thesis using R(4) P(3) m i by (auto simp: settled_def split: option.splits)
  qed
  have "s \<in> set (concat (map snd (res_matches ?r))) \<longleftrightarrow> ?S ! s \<in> (\<Union>x \<in> set (plan_bindings plan). set (binding_sources x))"
    if s: "s < length ?S" for s
  proof
    assume "s \<in> set (concat (map snd (res_matches ?r)))"
    then obtain i ss where ss: "(i, ss) \<in> set (res_matches ?r)" "s \<in> set ss" by auto
    from sel[OF ss(1)] obtain i where i: "map_of (res_matches ?r) i = Some ss" "i < length (plan_targets plan)" "ss \<noteq> []"
      "selects (plan_inputs plan) ?S (plan_targets plan ! i) ss" by blast
    have "\<lparr>binding_sources = map (\<lambda>s. ?S ! s) ss, binding_target = plan_targets plan ! i\<rparr> \<in> set (plan_bindings plan)"
      unfolding P(2) using i by blast
    then show "?S ! s \<in> (\<Union>x \<in> set (plan_bindings plan). set (binding_sources x))" using ss(2) by force
  next
    assume "?S ! s \<in> (\<Union>x \<in> set (plan_bindings plan). set (binding_sources x))"
    then obtain x where x: "x \<in> set (plan_bindings plan)" "?S ! s \<in> set (binding_sources x)" by blast
    obtain i ss where i0: "map_of (res_matches ?r) i = Some ss" "selects (plan_inputs plan) ?S (plan_targets plan ! i) ss"
      "x = \<lparr>binding_sources = map (\<lambda>s. ?S ! s) ss, binding_target = plan_targets plan ! i\<rparr>"
      using x(1) unfolding P(2) by blast
    then obtain s' where i: "map_of (res_matches ?r) i = Some ss" "selects (plan_inputs plan) ?S (plan_targets plan ! i) ss"
      "s' \<in> set ss" "?S ! s = ?S ! s'" using x(2) by auto
    have "s' < length ?S" using i(2,3) by (simp add: selects_def)
    then have "s = s'" using i(4) s R(1) by (metis nth_map distinct_conv_nth length_map)
    then show "s \<in> set (concat (map snd (res_matches ?r)))" using map_of_SomeD[OF i(1)] i(3) by force
  qed
  then have "(\<lambda>i. ?S ! i) ` set (res_unused ?r) = set ?S - (\<Union>x \<in> set (plan_bindings plan). set (binding_sources x))"
    unfolding R(7) by (rule filtered_image)
  then show "set (plan_unused plan) = src_name ` (set ?S - (\<Union>x \<in> set (plan_bindings plan). set (binding_sources x)))"
    unfolding P(5) set_btree_set set_map by (metis image_image)
  show "plan_unused plan = []" if "plan_policy plan = Reject"
    unfolding P(5) R(8)[OF that] by (simp add: btree_set_def)
qed

text \<open>Two bindings share a source only inside one tied-weight group.\<close>

lemma plan_sharing:
  assumes b: "plan_build reserved json sha256 b = Inr plan"
    and x: "x \<in> set (plan_bindings plan)" "y \<in> set (plan_bindings plan)" "x \<noteq> y" and s: "s \<in> set (binding_sources x)" "s \<in> set (binding_sources y)"
  shows "tgt_group (binding_target x) = tgt_group (binding_target y) \<and> tgt_group (binding_target x) \<noteq> None"
proof -
  let ?r = "resolve_bindings reserved (plan_inputs plan) (plan_sources plan) (plan_targets plan) (plan_policy plan)"
  note P = plan_members[OF b] and R = resolve_valid[OF plan_members(1)[OF b]]
  obtain i ss where i: "map_of (res_matches ?r) i = Some ss" "selects (plan_inputs plan) (plan_sources plan) (plan_targets plan ! i) ss"
    "x = \<lparr>binding_sources = map (\<lambda>s. plan_sources plan ! s) ss, binding_target = plan_targets plan ! i\<rparr>"
    using x(1) unfolding P(2) by blast
  obtain j ts where j: "map_of (res_matches ?r) j = Some ts" "selects (plan_inputs plan) (plan_sources plan) (plan_targets plan ! j) ts"
    "y = \<lparr>binding_sources = map (\<lambda>s. plan_sources plan ! s) ts, binding_target = plan_targets plan ! j\<rparr>"
    using x(2) unfolding P(2) by blast
  obtain k l where k: "k \<in> set ss" "s = plan_sources plan ! k" and l: "l \<in> set ts" "s = plan_sources plan ! l"
    using s i(3) j(3) by auto
  have "k < length (plan_sources plan)" "l < length (plan_sources plan)" using i(2) j(2) k(1) l(1) by (simp_all add: selects_def)
  then have kl: "k = l" using k(2) l(2) R(1) by (metis nth_map distinct_conv_nth length_map)
  have "i \<noteq> j" using i j x(3) by auto
  then have "tgt_group (plan_targets plan ! i) = tgt_group (plan_targets plan ! j) \<and> tgt_group (plan_targets plan ! i) \<noteq> None"
    using shared_groups[OF R(3,6) i(1) k(1) j(1) l(1)[folded kl]] by blast
  then show ?thesis unfolding i(3) j(3) Binding.select_convs .
qed

end
