(* ===== verification/MW_PlanCanonical.thy ===== *)
theory MW_PlanCanonical
  imports MW_PlanBuild
begin

text \<open>
  Plans are canonical: the order in which sources and targets were added has no influence, and the
  serialized form of a plan is parsed back to it and to nothing else.
\<close>

section \<open>The order of the inputs\<close>

lemma sort_key_sorted: "sorted (map f xs) \<Longrightarrow> sort_key f xs = xs"
  by (induction xs) (simp_all add: insort_is_Cons)

lemma sort_key_permuted:
  assumes "mset xs = mset ys" and "distinct (map f xs)"
  shows "sort_key f xs = sort_key f ys"
proof (rule sort_key_inj_key_eq)
  show "mset xs = mset (sort_key f ys)" using assms(1) by simp
  show "inj_on f (set xs)" using assms(2) by (simp add: distinct_map)
  show "sorted (map f (sort_key f ys))" by simp
qed

lemma distinct_sort_key: "distinct (map f (sort_key f xs)) = distinct (map f xs)"
  by (simp add: distinct_map)

lemma plan_build_invalid:
  assumes "\<not> (distinct (map src_name (pb_sources b)) \<and> distinct (map tgt_name (pb_targets b)))"
  shows "plan_build reserved json sha256 b = Inl ErrorCategory.Binding"
proof -
  let ?S = "sort_key src_name (pb_sources b)" and ?T = "sort_key tgt_name (pb_targets b)"
  have "\<not> (distinct (map src_name ?S) \<and> distinct (map tgt_name ?T))" using assms by (simp only: distinct_sort_key simp_thms)
  then have "\<not> plan_is_valid (res_diagnostics (resolve_bindings reserved (pb_inputs b) ?S ?T (pb_policy b)))"
    using resolve_valid(1,2) by blast
  then show ?thesis by (simp add: plan_build_def Let_def)
qed

lemma plan_build_cong:
  assumes "pb_inputs b = pb_inputs b'" "pb_policy b = pb_policy b'"
    and "sort_key src_name (pb_sources b) = sort_key src_name (pb_sources b')"
    and "sort_key tgt_name (pb_targets b) = sort_key tgt_name (pb_targets b')"
  shows "plan_build reserved json sha256 b = plan_build reserved json sha256 b'"
  unfolding plan_build_def assms ..

lemma plan_build_permuted:
  assumes "pb_inputs b = pb_inputs b'" "pb_policy b = pb_policy b'"
    and S: "mset (pb_sources b) = mset (pb_sources b')" and T: "mset (pb_targets b) = mset (pb_targets b')"
  shows "plan_build reserved json sha256 b = plan_build reserved json sha256 b'"
proof (cases "distinct (map src_name (pb_sources b)) \<and> distinct (map tgt_name (pb_targets b))")
  case True
  then show ?thesis using assms by (intro plan_build_cong) (auto intro: sort_key_permuted)
next
  case False
  have "mset (map src_name (pb_sources b)) = mset (map src_name (pb_sources b'))"
    "mset (map tgt_name (pb_targets b)) = mset (map tgt_name (pb_targets b'))" using S T by simp_all
  then have "\<not> (distinct (map src_name (pb_sources b')) \<and> distinct (map tgt_name (pb_targets b')))"
    using False by (metis mset_eq_imp_distinct_iff)
  then show ?thesis using False by (simp add: plan_build_invalid)
qed

section \<open>Values that constructors return\<close>

lemma built_source: "SourceTensor_new n shape storage = Inr s \<Longrightarrow> SourceTensor_try_from s = Inr s"
  by (auto simp: SourceTensor_new_def SourceTensor_try_from_def bindR_Inr split: Storage.splits)

lemma bindR_InrE: "bindR m f = Inr y \<Longrightarrow> (\<And>x. m = Inr x \<Longrightarrow> f x = Inr y \<Longrightarrow> P) \<Longrightarrow> P"
  by (cases m) simp_all

lemma target_build_Inr:
  assumes "target_build b = Inr t"
  shows "t = \<lparr>tgt_name = tb_name b, tgt_aliases = sort (tb_aliases b), tgt_requirement = tb_requirement b,
         tgt_source_shape = tb_source_shape b, tgt_shape = tb_shape b, tgt_storage_shape = tgt_storage_shape t,
         tgt_logical_strides = tgt_logical_strides t, tgt_storage_strides = tgt_storage_strides t,
         tgt_representation = tb_representation b,
         tgt_transforms = tb_transforms b, tgt_graph = tb_graph b, tgt_route = tb_route b, tgt_recipe = tb_recipe b,
         tgt_output_size = tb_output_size b, tgt_group = tb_group b\<rparr>"
    and "\<not> any_window2 (=) (sort (tb_aliases b))" "tb_name b \<notin> set (tb_aliases b)"
    and "\<not> (tb_recipe b \<noteq> None \<and> tb_transforms b \<noteq> [])"
    and "\<not> (tb_graph b \<noteq> None \<and> (tb_transforms b \<noteq> [] \<or> tb_recipe b \<noteq> None \<or> tb_route b \<noteq> None))"
    and "\<not> (tb_graph b \<noteq> None \<and> sort (tb_aliases b) \<noteq> [])"
    and "validate_transform_chain (tb_transforms b) (tb_representation b) (tb_shape b) (tb_output_size b) = Inr ()"
    and "\<not> (tb_source_shape b \<noteq> tb_shape b \<and> tb_recipe b = None \<and> tb_graph b = None \<and> tb_route b = None)"
    and "length (tgt_logical_strides t) = length (tb_shape b)" "length (tgt_storage_strides t) = length (tb_shape b)"
    and "\<exists>elements. checked_elements (tb_shape b) = Inr elements \<and> \<not> (elements > 0 \<and> tb_output_size b = 0)"
    and "target_recipe_check b = Inr ()"
    and "target_graph_check b (tgt_storage_shape t) (tgt_logical_strides t) (tgt_storage_strides t) = Inr ()"
  using assms unfolding target_build_def Let_def
  by ((elim bindR_InrE, clarsimp)+)

definition rebuilder :: "TargetTensor \<Rightarrow> TargetTensorBuilder" where
  "rebuilder t = \<lparr>tb_name = tgt_name t, tb_aliases = tgt_aliases t, tb_requirement = tgt_requirement t,
     tb_source_shape = tgt_source_shape t, tb_shape = tgt_shape t, tb_storage_shape = Some (tgt_storage_shape t),
     tb_logical_strides = Some (tgt_logical_strides t), tb_storage_strides = Some (tgt_storage_strides t),
     tb_representation = tgt_representation t, tb_transforms = tgt_transforms t, tb_graph = tgt_graph t, tb_route = tgt_route t,
     tb_recipe = tgt_recipe t, tb_output_size = tgt_output_size t, tb_group = tgt_group t\<rparr>"

lemma TargetTensor_try_from_rebuilder: "TargetTensor_try_from t = target_build (rebuilder t)"
  by (auto simp: TargetTensor_try_from_def rebuilder_def TargetTensor_builder_def with_aliases_def with_source_shape_def
      with_storage_shape_def with_logical_strides_def with_storage_strides_def with_transforms_def with_operation_graph_def
      with_quantized_route_def with_conversion_recipe_def with_shared_source_group_def Let_def split: option.splits)

lemma built_target:
  assumes "target_build b = Inr t"
  shows "TargetTensor_try_from t = Inr t"
proof -
  note B = target_build_Inr[OF assms]
  obtain elements where el: "checked_elements (tb_shape b) = Inr elements" "\<not> (elements > 0 \<and> tb_output_size b = 0)"
    using B(11) by blast
  obtain sshape lstrides sstrides where t: "t = \<lparr>tgt_name = tb_name b, tgt_aliases = sort (tb_aliases b), tgt_requirement = tb_requirement b,
         tgt_source_shape = tb_source_shape b, tgt_shape = tb_shape b, tgt_storage_shape = sshape,
         tgt_logical_strides = lstrides, tgt_storage_strides = sstrides,
         tgt_representation = tb_representation b,
         tgt_transforms = tb_transforms b, tgt_graph = tb_graph b, tgt_route = tb_route b, tgt_recipe = tb_recipe b,
         tgt_output_size = tb_output_size b, tgt_group = tb_group b\<rparr>" using B(1) by blast
  have checks: "target_recipe_check (rebuilder t) = Inr ()"
    "target_graph_check (rebuilder t) sshape lstrides sstrides = Inr ()"
    using B(12,13) unfolding t by (simp_all add: target_recipe_check_def target_graph_check_def rebuilder_def split: option.splits)
  have "target_build (rebuilder t) = Inr t"
    using B(2-10) el checks unfolding target_build_def Let_def t by (simp add: rebuilder_def given_strides_def sorted_sort_id)
  then show ?thesis by (simp add: TargetTensor_try_from_rebuilder)
qed

section \<open>Serialization\<close>

lemma sorted_unique_from_Inr:
  "sorted_unique_from p vs = Inr () \<longleftrightarrow> sorted_wrt (<) vs \<and> (case p of None \<Rightarrow> True | Some p \<Rightarrow> \<forall>v \<in> set vs. p < v)"
proof (induction vs arbitrary: p)
  case Nil
  then show ?case by (simp split: option.splits)
next
  case (Cons v vs)
  show ?case by (cases p) (auto simp: bindR_Inr Cons)
qed

lemma validate_sorted_unique_Inr: "validate_sorted_unique vs = Inr () \<longleftrightarrow> sorted_wrt (<) vs"
  by (simp add: validate_sorted_unique_def sorted_unique_from_Inr)

lemma mapR_id: "(\<And>x. x \<in> set xs \<Longrightarrow> f x = Inr x) \<Longrightarrow> mapR f xs = Inr xs"
  by (simp add: mapR_Inr)

lemma plan_rebuilds:
  assumes "plan_build reserved json sha256 b = Inr plan"
  shows "plan_build reserved json sha256 (with_extra_source_policy (plan_policy plan) (with_targets (plan_targets plan)
    (with_sources (plan_sources plan) (BindingPlan_builder (plan_inputs plan))))) = Inr plan"
proof -
  obtain r bs where p: "PlanIdentityPayload.truncate plan = plan_payload b r bs"
    using plan_build_Inr[OF assms] by blast
  show ?thesis
    unfolding assms[symmetric]
    by (rule plan_build_cong) (simp_all add: plan_fields(2-5)[OF p] with_extra_source_policy_def with_targets_def with_sources_def BindingPlan_builder_def sort_key_sorted)
qed

lemma plan_converts:
  assumes b: "plan_build reserved json sha256 b = Inr plan"
    and S: "\<And>s. s \<in> set (pb_sources b) \<Longrightarrow> SourceTensor_try_from s = Inr s"
    and T: "\<And>t. t \<in> set (pb_targets b) \<Longrightarrow> TargetTensor_try_from t = Inr t"
  shows "convert_wire plan = Inr plan"
proof -
  obtain r bs where p: "PlanIdentityPayload.truncate plan = plan_payload b r bs"
    using plan_build_Inr[OF b] by blast
  have src: "SourceTensor_try_from s = Inr s" if "s \<in> set (plan_sources plan)" for s using S that by (simp add: plan_fields(3)[OF p])
  have tgt: "TargetTensor_try_from t = Inr t" if "t \<in> set (plan_targets plan)" for t using T that by (simp add: plan_fields(4)[OF p])
  have "bindR (mapR SourceTensor_try_from (binding_sources x)) (\<lambda>ss. bindR (TargetTensor_try_from (binding_target x)) (\<lambda>t.
      Binding_try_from \<lparr>binding_sources = ss, binding_target = t\<rparr>)) = Inr x" if x: "x \<in> set (plan_bindings plan)" for x
  proof -
    have c: "binding_sources x \<noteq> []" "set (binding_sources x) \<subseteq> set (plan_sources plan)" "binding_target x \<in> set (plan_targets plan)"
      using plan_bindings_correct[OF b x] by (simp_all add: binding_correct_def)
    then have "mapR SourceTensor_try_from (binding_sources x) = Inr (binding_sources x)" using src by (intro mapR_id) blast
    then show ?thesis using c(1) tgt[OF c(3)] by (simp add: Binding_try_from_def Binding_new_def)
  qed
  then have "mapR (\<lambda>x. bindR (mapR SourceTensor_try_from (binding_sources x)) (\<lambda>ss. bindR (TargetTensor_try_from (binding_target x)) (\<lambda>t.
      Binding_try_from \<lparr>binding_sources = ss, binding_target = t\<rparr>))) (plan_bindings plan) = Inr (plan_bindings plan)" by (rule mapR_id)
  moreover have "mapR SourceTensor_try_from (plan_sources plan) = Inr (plan_sources plan)" using src by (rule mapR_id)
  moreover have "mapR TargetTensor_try_from (plan_targets plan) = Inr (plan_targets plan)" using tgt by (rule mapR_id)
  ultimately show ?thesis by (simp add: convert_wire_def)
qed

lemma plan_sorted_fields:
  assumes b: "plan_build reserved json sha256 b = Inr plan"
  shows "sorted_wrt (<) (plan_missing plan)" "sorted_wrt (<) (plan_unused plan)" "plan_schema plan = PLAN_SCHEMA_VERSION"
proof -
  obtain r bs where p: "PlanIdentityPayload.truncate plan = plan_payload b r bs"
    using plan_build_Inr[OF b] by blast
  show "sorted_wrt (<) (plan_missing plan)" "sorted_wrt (<) (plan_unused plan)" "plan_schema plan = PLAN_SCHEMA_VERSION"
    by (simp_all only: plan_fields(1,7,8)[OF p] btree_set_strict)
qed

lemma from_canonical_built:
  assumes b: "plan_build reserved json sha256 b = Inr plan"
    and S: "\<And>s. s \<in> set (pb_sources b) \<Longrightarrow> SourceTensor_try_from s = Inr s"
    and T: "\<And>t. t \<in> set (pb_targets b) \<Longrightarrow> TargetTensor_try_from t = Inr t"
    and j: "json_plan plan = Some bytes" "parse bytes = Some plan"
  shows "from_canonical_json reserved parse json_plan json sha256 bytes = Inr plan"
proof -
  have "parse_wire parse bytes = Inr plan"
    using plan_converts[OF b S T] j(2) by (simp add: parse_wire_def)
  moreover have "validate_sorted_unique (map src_name (plan_sources plan)) = Inr ()"
    "validate_sorted_unique (map tgt_name (plan_targets plan)) = Inr ()"
    "validate_sorted_unique (map (\<lambda>b. tgt_name (binding_target b)) (plan_bindings plan)) = Inr ()"
    "validate_sorted_unique (plan_missing plan) = Inr ()" "validate_sorted_unique (plan_unused plan) = Inr ()"
    using plan_members(4,6,7)[OF b] plan_sorted_fields[OF b] by (simp_all add: validate_sorted_unique_Inr)
  ultimately show ?thesis
    using plan_rebuilds[OF b] plan_sorted_fields(3)[OF b] j(1) by (simp add: from_canonical_json_def canonical_json_def)
qed

text \<open>What is accepted is the serialized form of the result, and the result is what planning gives.\<close>

lemma from_canonical_exact:
  assumes "from_canonical_json reserved parse json_plan json sha256 bytes = Inr plan"
  shows "json_plan plan = Some bytes \<and> plan_build reserved json sha256 (with_extra_source_policy (plan_policy plan)
    (with_targets (plan_targets plan) (with_sources (plan_sources plan) (BindingPlan_builder (plan_inputs plan))))) = Inr plan"
proof -
  obtain wire where pw: "parse_wire parse bytes = Inr wire"
    using assms by (cases "parse_wire parse bytes") (simp_all add: from_canonical_json_def)
  have w: "canonical_json json_plan wire = Inr bytes" "plan_schema wire = PLAN_SCHEMA_VERSION"
    "validate_sorted_unique (map src_name (plan_sources wire)) = Inr ()" "validate_sorted_unique (map tgt_name (plan_targets wire)) = Inr ()"
    "plan_build reserved json sha256 (with_extra_source_policy (plan_policy wire)
      (with_targets (plan_targets wire) (with_sources (plan_sources wire) (BindingPlan_builder (plan_inputs wire))))) = Inr plan"
    "plan_bindings plan = plan_bindings wire" "plan_missing plan = plan_missing wire" "plan_unused plan = plan_unused wire"
    "plan_id plan = plan_id wire"
    using assms pw unfolding from_canonical_json_def by ((elim bindR_InrE, clarsimp)+)
  obtain r bs where p: "PlanIdentityPayload.truncate plan = plan_payload (with_extra_source_policy (plan_policy wire)
      (with_targets (plan_targets wire) (with_sources (plan_sources wire) (BindingPlan_builder (plan_inputs wire))))) r bs"
    using plan_build_Inr[OF w(5)] by blast
  have sort: "sort_key f xs = xs" if "validate_sorted_unique (map f xs) = Inr ()" for f :: "'a \<Rightarrow> string" and xs
    using that by (simp add: validate_sorted_unique_Inr strict_sorted_iff sort_key_sorted)
  have "plan = wire"
    using w(2,6-9) sort[OF w(3)] sort[OF w(4)] plan_fields(1-5)[OF p]
    by (intro BindingPlan.equality) (simp_all add: with_extra_source_policy_def with_targets_def with_sources_def BindingPlan_builder_def)
  then show ?thesis using w(1,5) by (simp add: canonical_json_def)
qed

end
