(* ===== verification/MW_PlanSamples.thy ===== *)
theory MW_PlanSamples
  imports MW_PlanCanonical
begin

text \<open>A small plan: one source under an alias of its target, an optional target, and no other source.\<close>

definition plan_json :: "'a \<Rightarrow> u8 list option" where
  "plan_json x = Some [123, 125]"

definition plan_sha :: "u8 list \<Rightarrow> ContentDigest" where
  "plan_sha bytes = replicate 32 7"

definition weight_source_tensor :: SourceTensor where
  "weight_source_tensor = \<lparr>src_name = ''w.old'', src_shape = [2],
     src_storage = Plain F32 \<lparr>span_file = 0, span_offset = 16, span_length = 8\<rparr>\<rparr>"

definition weight_target :: TargetTensor where
  "weight_target = \<lparr>tgt_name = ''w'', tgt_aliases = [''w.old''], tgt_requirement = Required, tgt_source_shape = [2],
     tgt_shape = [2], tgt_storage_shape = [2], tgt_logical_strides = [1], tgt_storage_strides = [1],
     tgt_representation = Representation_contiguous F32, tgt_transforms = [], tgt_graph = None, tgt_route = None,
     tgt_recipe = None, tgt_output_size = 8, tgt_group = None\<rparr>"

definition bias_target :: TargetTensor where
  "bias_target = weight_target\<lparr>tgt_name := ''b'', tgt_aliases := [], tgt_requirement := Optional\<rparr>"

definition plan_request :: PlanBuilder where
  "plan_request = \<lparr>pb_inputs = \<lparr>plan_manifest = [], plan_selection = [], plan_contract = [], plan_backend = [], plan_digests = [[1]]\<rparr>,
     pb_sources = [weight_source_tensor], pb_targets = [weight_target, bias_target], pb_policy = Reject\<rparr>"

definition weight_plan :: BindingPlan where
  "weight_plan = \<lparr>plan_schema = 2, plan_inputs = pb_inputs plan_request, plan_sources = [weight_source_tensor],
     plan_targets = [bias_target, weight_target], plan_policy = Reject,
     plan_bindings = [\<lparr>binding_sources = [weight_source_tensor], binding_target = weight_target\<rparr>],
     plan_missing = [''b''], plan_unused = [], plan_id = replicate 32 7\<rparr>"

lemma weight_source_built: "SourceTensor_new ''w.old'' [2] (Plain F32 \<lparr>span_file = 0, span_offset = 16, span_length = 8\<rparr>) = Inr weight_source_tensor"
  by (simp add: SourceTensor_new_def weight_source_tensor_def DType_byte_len_def checked_product_def checked_mul_def u64_bound_def)

lemma weight_target_built: "target_build (with_aliases [''w.old''] (TargetTensor_builder ''w'' Required [2] (Representation_contiguous F32) 8)) = Inr weight_target"
  by (simp add: target_build_def with_aliases_def TargetTensor_builder_def weight_target_def given_strides_def Let_def
      checked_contiguous_strides_def strides_step_def checked_mul_def u64_bound_def validate_transform_chain_def checked_elements_def
      target_recipe_check_def target_graph_check_def)

lemma bias_target_built: "target_build (TargetTensor_builder ''b'' Optional [2] (Representation_contiguous F32) 8) = Inr bias_target"
  by (simp add: target_build_def TargetTensor_builder_def bias_target_def weight_target_def given_strides_def Let_def
      checked_contiguous_strides_def strides_step_def checked_mul_def u64_bound_def validate_transform_chain_def checked_elements_def
      target_recipe_check_def target_graph_check_def)

lemmas plan_eval = group_names_def push_entries_def push_entry_def btree_insert_def btree_set_def duplicate_diagnostics_def
  resolve_target_def target_candidates_def resolve_single_def record_match_def report_missing_def report_def PlanDiagnostic_new_def
  validate_binding_def first_missing_digest_ordinal_def missing_ordinal_def usize_try_from_def usize_bound_def u64_bound_def
  validate_conversion_binding_def validate_plain_binding_def validate_contiguous_output_def checked_contiguous_strides_def
  strides_step_def checked_mul_def DType_byte_len_def checked_product_def storage_span_def source_uses_def reuse_diagnostics_def
  diagnostic_key_def text_key_def plan_is_valid_def

lemma sample_resolution:
  "resolve_bindings (\<lambda>_. True) (pb_inputs plan_request) [weight_source_tensor] [bias_target, weight_target] Reject
    = \<lparr>res_matches = [(1, [0])], res_unused = [], res_diagnostics = [PlanDiagnostic_new Info MissingOptional ''b'' []]\<rparr>"
  by (simp add: plan_eval resolve_bindings_def Let_def plan_request_def weight_target_def bias_target_def weight_source_tensor_def upt_rec)

lemma target_names:
  "tgt_name weight_target = ''w''" "tgt_name bias_target = ''b''" "tgt_requirement weight_target = Required"
  "tgt_requirement bias_target = Optional"
  by (simp_all add: weight_target_def bias_target_def)

lemma plan_request_built: "plan_build (\<lambda>_. True) plan_json plan_sha plan_request = Inr weight_plan"
proof -
  have "sort_key src_name (pb_sources plan_request) = [weight_source_tensor]" "pb_policy plan_request = Reject"
    "sort_key tgt_name (pb_targets plan_request) = [bias_target, weight_target]"
    by (simp_all add: plan_request_def target_names)
  then show ?thesis
    by (simp add: Let_def plan_build_def sample_resolution bind_match_def Binding_new_def compute_plan_id_def canonical_json_def plan_json_def
        plan_sha_def ContentDigest_hash_def PLAN_SCHEMA_VERSION_def weight_plan_def PlanIdentityPayload.defs BindingPlan.defs
        plan_is_valid_def PlanDiagnostic_new_def btree_set_def target_names)
qed

end
