(* ===== verification/MW_Overlay.thy ===== *)
theory MW_Overlay
  imports MW_Plan MW_Inventory
begin

text \<open>
  overlay.rs: exact-name alias tables, overlay operations and their content-addressed layers, and
  the plan that assigns every operation of the ordered layers to one base tensor. Following an
  alias chain ends only when the table has no cycle, so \<open>AliasTable_resolve\<close> is a
  \<open>partial_function\<close> and code that calls it returns a \<open>computation\<close>, which is \<open>None\<close> when it does
  not return. \<open>serde_json\<close> and SHA-256 are parameters.
\<close>

section \<open>Computations that may not return\<close>

type_synonym 'a computation = "'a result option"

definition bindC :: "'a computation \<Rightarrow> ('a \<Rightarrow> 'b computation) \<Rightarrow> 'b computation" where
  "bindC m f = (case m of None \<Rightarrow> None | Some (Inl e) \<Rightarrow> Some (Inl e) | Some (Inr x) \<Rightarrow> f x)"

primrec foldC :: "('a \<Rightarrow> 's \<Rightarrow> 's computation) \<Rightarrow> 'a list \<Rightarrow> 's \<Rightarrow> 's computation" where
  "foldC f [] s = Some (Inr s)"
| "foldC f (x # xs) s = bindC (f x s) (\<lambda>s'. foldC f xs s')"

section \<open>Alias tables\<close>

record Alias =
  alias_name :: TensorName
  alias_target :: TensorName

definition Alias_new :: "TensorName \<Rightarrow> TensorName \<Rightarrow> Alias" where
  "Alias_new name target = \<lparr>alias_name = name, alias_target = target\<rparr>"

record AliasTable =
  alias_entries :: "(TensorName, TensorName) btree"

text \<open>The walk from one key; a name that was seen before closes a cycle.\<close>

function alias_walk :: "(TensorName, TensorName) btree \<Rightarrow> TensorName set \<Rightarrow> TensorName \<Rightarrow> unit result" where
  "alias_walk entries seen current =
     (case map_of entries current of
       None \<Rightarrow> Inr ()
     | Some target \<Rightarrow> if current \<in> seen then Inl Binding else alias_walk entries (insert current seen) target)"
  by pat_completeness auto
termination
proof (relation "measure (\<lambda>p. card (fst ` set (fst p) - fst (snd p)))")
  fix entries :: "(TensorName, TensorName) btree" and seen :: "TensorName set" and current target
  assume h: "map_of entries current = Some target" "current \<notin> seen"
  have "current \<in> fst ` set entries - seen" using h(2) image_eqI[OF _ map_of_SomeD[OF h(1)], of current fst] by simp
  then have "card (fst ` set entries - seen - {current}) < card (fst ` set entries - seen)"
    by (rule card_Diff1_less[OF finite_Diff[OF finite_imageI[OF finite_set]]])
  moreover have "fst ` set entries - insert current seen = fst ` set entries - seen - {current}" by blast
  ultimately show "((entries, insert current seen, target), entries, seen, current)
      \<in> measure (\<lambda>p. card (fst ` set (fst p) - fst (snd p)))" by simp
qed simp

declare alias_walk.simps [simp del]

definition validate_alias_cycles :: "(TensorName, TensorName) btree \<Rightarrow> unit result" where
  "validate_alias_cycles entries = foldR (\<lambda>start _. alias_walk entries {} start) (map fst entries) ()"

definition insert_alias :: "Alias \<Rightarrow> (TensorName, TensorName) btree \<Rightarrow> (TensorName, TensorName) btree result" where
  "insert_alias a entries =
     bindR (ensure (\<not> alias_name a = alias_target a) Binding) (\<lambda>_.
       insert_unique Binding (alias_name a, alias_target a) entries)"

definition AliasTable_empty :: AliasTable where
  "AliasTable_empty = \<lparr>alias_entries = []\<rparr>"

definition AliasTable_new :: "Alias list \<Rightarrow> AliasTable result" where
  "AliasTable_new aliases =
     bindR (foldR insert_alias aliases []) (\<lambda>entries.
     bindR (validate_alias_cycles entries) (\<lambda>_.
       Inr \<lparr>alias_entries = entries\<rparr>))"

partial_function (option) resolve_loop :: "(TensorName, TensorName) btree \<Rightarrow> TensorName \<Rightarrow> TensorName option" where
  "resolve_loop entries current =
     (case map_of entries current of None \<Rightarrow> Some current | Some target \<Rightarrow> resolve_loop entries target)"

definition AliasTable_resolve :: "AliasTable \<Rightarrow> TensorName \<Rightarrow> TensorName option" where
  "AliasTable_resolve table name = resolve_loop (alias_entries table) name"

definition AliasTable_try_from :: "AliasTable \<Rightarrow> AliasTable result" where
  "AliasTable_try_from wire = AliasTable_new (map (\<lambda>p. Alias_new (fst p) (snd p)) (alias_entries wire))"

definition AliasTable_digest ::
    "(AliasTable \<Rightarrow> u8 list option) \<Rightarrow> (u8 list \<Rightarrow> ContentDigest) \<Rightarrow> AliasTable \<Rightarrow> ContentDigest result" where
  "AliasTable_digest json sha256 table =
     bindR (canonical_json json table) (\<lambda>bytes.
       Inr (ContentDigest_hash sha256 (map of_char ''alias-table-v1'') [bytes]))"

section \<open>Scales and base tensors\<close>

text \<open>
  A scale is the bit pattern of an \<open>f64\<close>: finite when the exponent is not all ones, and equal to
  zero when everything but the sign is zero.
\<close>

type_synonym FiniteScale = "64 word"

definition f64_is_finite :: "64 word \<Rightarrow> bool" where
  "f64_is_finite v \<longleftrightarrow> v AND 0x7FF0000000000000 \<noteq> 0x7FF0000000000000"

definition f64_is_zero :: "64 word \<Rightarrow> bool" where
  "f64_is_zero v \<longleftrightarrow> v AND 0x7FFFFFFFFFFFFFFF = 0"

definition FiniteScale_new :: "64 word \<Rightarrow> FiniteScale result" where
  "FiniteScale_new v =
     bindR (ensure (\<not> \<not> f64_is_finite v) InvalidFormat) (\<lambda>_. Inr (if f64_is_zero v then 0 else v))"

record BaseTensor =
  base_name :: TensorName
  base_shape :: "nat list"
  base_content :: ContentDigest

definition BaseTensor_new :: "TensorName \<Rightarrow> nat list \<Rightarrow> ContentDigest \<Rightarrow> BaseTensor result" where
  "BaseTensor_new name shape content =
     bindR (checked_elements shape) (\<lambda>_.
       Inr \<lparr>base_name = name, base_shape = shape, base_content = content\<rparr>)"

definition BaseTensor_try_from :: "BaseTensor \<Rightarrow> BaseTensor result" where
  "BaseTensor_try_from wire = BaseTensor_new (base_name wire) (base_shape wire) (base_content wire)"

section \<open>Overlay operations\<close>

datatype OverlayOperation =
    Replace TensorName SourceTensor ImplementationId
  | Add TensorName SourceTensor FiniteScale ImplementationId
  | LowRank TensorName SourceTensor SourceTensor nat FiniteScale ImplementationId
  | Recipe TensorName "(TensorName, SourceTensor) btree" "nat list" ConversionRecipe

definition overlay_target :: "OverlayOperation \<Rightarrow> TensorName" where
  "overlay_target operation = (case operation of
     Replace target _ _ \<Rightarrow> target | Add target _ _ _ \<Rightarrow> target
   | LowRank target _ _ _ _ _ \<Rightarrow> target | Recipe target _ _ _ \<Rightarrow> target)"

definition overlay_sources :: "OverlayOperation \<Rightarrow> SourceTensor list" where
  "overlay_sources operation = (case operation of
     Replace _ value _ \<Rightarrow> [value] | Add _ value _ _ \<Rightarrow> [value]
   | LowRank _ down up _ _ _ \<Rightarrow> [down, up] | Recipe _ inputs _ _ \<Rightarrow> map snd inputs)"

text \<open>The companions are visited in order, so the first failure decides.\<close>

definition storage_has_missing_digest :: "Storage \<Rightarrow> nat \<Rightarrow> bool result" where
  "storage_has_missing_digest storage digest_count =
     bindR (usize_try_from (span_file (storage_span storage))) (\<lambda>file_index.
     if file_index \<ge> digest_count then Inr True else
     case storage of Plain _ _ \<Rightarrow> Inr False | Quantized q \<Rightarrow>
       foldR (\<lambda>c found. if found then Inr True else
           bindR (usize_try_from (span_file (companion_span (snd c)))) (\<lambda>file_index. Inr (file_index \<ge> digest_count)))
         (q_companions q) False)"

definition validate_operation_sources :: "OverlayOperation \<Rightarrow> nat \<Rightarrow> unit result" where
  "validate_operation_sources operation digest_count =
     foldR (\<lambda>source _.
         bindR (storage_has_missing_digest (src_storage source) digest_count) (\<lambda>missing.
           ensure (\<not> missing) Binding))
       (overlay_sources operation) ()"

definition validate_recipe_inputs :: "OverlayOperation \<Rightarrow> unit result" where
  "validate_recipe_inputs operation = (case operation of
     Recipe target inputs output_shape recipe \<Rightarrow>
       bindR (checked_elements output_shape) (\<lambda>_.
       bindR (ensure (\<not> (length (recipe_inputs recipe) \<noteq> length inputs
           \<or> list_ex (\<lambda>name. case map_of inputs name of None \<Rightarrow> True | Some source \<Rightarrow> src_name source \<noteq> name)
               (recipe_inputs recipe))) Binding) (\<lambda>_.
         ensure (map_of (recipe_outputs recipe) target \<noteq> None) Binding))
   | _ \<Rightarrow> Inr ())"

definition validate_operation_shape :: "OverlayOperation \<Rightarrow> BaseTensor \<Rightarrow> unit result" where
  "validate_operation_shape operation base = (case operation of
     Replace _ value _ \<Rightarrow> ensure (\<not> src_shape value \<noteq> base_shape base) Binding
   | Add _ value _ _ \<Rightarrow> ensure (\<not> src_shape value \<noteq> base_shape base) Binding
   | LowRank _ down up rank _ _ \<Rightarrow>
       (case base_shape base of
          [rows, columns] \<Rightarrow> ensure (\<not> (rank = 0 \<or> src_shape down \<noteq> [rank, columns] \<or> src_shape up \<noteq> [rows, rank])) Binding
        | _ \<Rightarrow> Inl Binding)
   | Recipe _ _ output_shape _ \<Rightarrow> ensure (\<not> output_shape \<noteq> base_shape base) Binding)"

section \<open>Layers\<close>

definition OVERLAY_SCHEMA_VERSION :: nat where
  "OVERLAY_SCHEMA_VERSION = 1"

record OverlayLayerIdentity =
  layer_schema :: nat
  layer_digests :: "ContentDigest list"
  layer_operations :: "OverlayOperation list"

record OverlayLayer = OverlayLayerIdentity +
  layer_id :: ContentDigest

definition OverlayLayer_new ::
    "(OverlayLayerIdentity \<Rightarrow> u8 list option) \<Rightarrow> (u8 list \<Rightarrow> ContentDigest) \<Rightarrow> ContentDigest list
       \<Rightarrow> OverlayOperation list \<Rightarrow> OverlayLayer result" where
  "OverlayLayer_new json sha256 digests operations =
     bindR (ensure (operations \<noteq> []) Binding) (\<lambda>_.
     bindR (foldR (\<lambda>operation _.
         bindR (validate_operation_sources operation (length digests)) (\<lambda>_. validate_recipe_inputs operation))
       operations ()) (\<lambda>_.
     let payload = \<lparr>layer_schema = OVERLAY_SCHEMA_VERSION, layer_digests = digests, layer_operations = operations\<rparr> in
     bindR (canonical_json json payload) (\<lambda>bytes.
       Inr (OverlayLayerIdentity.extend payload
         \<lparr>layer_id = ContentDigest_hash sha256 (map of_char ''overlay-layer-v1'') [bytes]\<rparr>))))"

definition OverlayLayer_try_from ::
    "(OverlayLayerIdentity \<Rightarrow> u8 list option) \<Rightarrow> (u8 list \<Rightarrow> ContentDigest) \<Rightarrow> OverlayLayer \<Rightarrow> OverlayLayer result" where
  "OverlayLayer_try_from json sha256 wire =
     bindR (ensure (\<not> layer_schema wire \<noteq> OVERLAY_SCHEMA_VERSION) InvalidFormat) (\<lambda>_.
     bindR (OverlayLayer_new json sha256 (layer_digests wire) (layer_operations wire)) (\<lambda>layer.
     bindR (ensure (\<not> layer_id layer \<noteq> layer_id wire) Integrity) (\<lambda>_.
       Inr layer)))"

section \<open>Plans\<close>

datatype ConflictPolicy = RejectConflict | Ordered

datatype CompositionMode = Lazy | Eager

record OverlayOperationRef =
  ref_layer :: ContentDigest
  ref_index :: nat

record OverlayBinding =
  overlay_base :: BaseTensor
  overlay_refs :: "OverlayOperationRef list"

record OverlayPlanIdentity =
  overlay_schema :: nat
  overlay_mode :: CompositionMode
  overlay_policy :: ConflictPolicy
  overlay_aliases :: AliasTable
  overlay_bases :: "BaseTensor list"
  overlay_layers :: "OverlayLayer list"
  overlay_bindings :: "OverlayBinding list"

record OverlayPlan = OverlayPlanIdentity +
  overlay_digest :: ContentDigest

text \<open>\<open>collect::<BTreeMap<_, _>>()\<close>: a later entry replaces an earlier one.\<close>

definition btree_collect :: "('k :: linorder \<times> 'v) list \<Rightarrow> ('k, 'v) btree" where
  "btree_collect entries = fold (\<lambda>p. btree_insert (fst p) (snd p)) entries []"

definition check_alias :: "(TensorName, nat) btree \<Rightarrow> AliasTable \<Rightarrow> TensorName \<Rightarrow> unit \<Rightarrow> unit computation" where
  "check_alias base_indices aliases name _ =
     bindC (Some (ensure (\<not> map_of base_indices name \<noteq> None) Binding)) (\<lambda>_.
       case AliasTable_resolve aliases name of None \<Rightarrow> None
       | Some canonical \<Rightarrow> Some (ensure (map_of base_indices canonical \<noteq> None) Binding))"

definition assign_operation ::
    "BaseTensor list \<Rightarrow> (TensorName, nat) btree \<Rightarrow> ConflictPolicy \<Rightarrow> ContentDigest \<Rightarrow> TensorName
       \<Rightarrow> nat \<times> OverlayOperation \<Rightarrow> OverlayOperationRef list list \<Rightarrow> OverlayOperationRef list list result" where
  "assign_operation bases base_indices policy layer canonical p refs =
     bindR (ok_or Binding (map_of base_indices canonical)) (\<lambda>base_index.
     bindR (validate_operation_shape (snd p) (bases ! base_index)) (\<lambda>_.
     bindR (ensure (\<not> (policy = RejectConflict \<and> refs ! base_index \<noteq> [])) Binding) (\<lambda>_.
     bindR (u32_try_from (fst p)) (\<lambda>operation_index.
       Inr (refs[base_index := refs ! base_index @ [\<lparr>ref_layer = layer, ref_index = operation_index\<rparr>]])))))"

definition operation_step ::
    "BaseTensor list \<Rightarrow> (TensorName, nat) btree \<Rightarrow> AliasTable \<Rightarrow> ConflictPolicy \<Rightarrow> ContentDigest
       \<Rightarrow> nat \<times> OverlayOperation \<Rightarrow> OverlayOperationRef list list \<Rightarrow> OverlayOperationRef list list computation" where
  "operation_step bases base_indices aliases policy layer p refs =
     (case AliasTable_resolve aliases (overlay_target (snd p)) of None \<Rightarrow> None
      | Some canonical \<Rightarrow> Some (assign_operation bases base_indices policy layer canonical p refs))"

definition layer_step ::
    "BaseTensor list \<Rightarrow> (TensorName, nat) btree \<Rightarrow> AliasTable \<Rightarrow> ConflictPolicy \<Rightarrow> OverlayLayer
       \<Rightarrow> ContentDigest set \<times> OverlayOperationRef list list \<Rightarrow> (ContentDigest set \<times> OverlayOperationRef list list) computation" where
  "layer_step bases base_indices aliases policy layer st =
     bindC (Some (ensure (layer_id layer \<notin> fst st) Binding)) (\<lambda>_.
     bindC (foldC (operation_step bases base_indices aliases policy (layer_id layer))
         (enumerate 0 (layer_operations layer)) (snd st)) (\<lambda>refs.
       Some (Inr (insert (layer_id layer) (fst st), refs))))"

definition overlay_seal ::
    "(OverlayPlanIdentity \<Rightarrow> u8 list option) \<Rightarrow> (u8 list \<Rightarrow> ContentDigest) \<Rightarrow> OverlayPlanIdentity \<Rightarrow> OverlayPlan result" where
  "overlay_seal json sha256 payload =
     bindR (canonical_json json payload) (\<lambda>bytes.
       Inr (OverlayPlanIdentity.extend payload
         \<lparr>overlay_digest = ContentDigest_hash sha256 (map of_char ''overlay-plan-v1'') [bytes]\<rparr>))"

definition OverlayPlan_build ::
    "(OverlayPlanIdentity \<Rightarrow> u8 list option) \<Rightarrow> (u8 list \<Rightarrow> ContentDigest) \<Rightarrow> BaseTensor list \<Rightarrow> AliasTable
       \<Rightarrow> OverlayLayer list \<Rightarrow> ConflictPolicy \<Rightarrow> CompositionMode \<Rightarrow> OverlayPlan computation" where
  "OverlayPlan_build json sha256 bases aliases layers policy mode =
     (let bases = sort_key base_name bases in
     bindC (Some (ensure (\<not> any_window2 (\<lambda>a b. base_name a = base_name b) bases) Binding)) (\<lambda>_.
     let base_indices = btree_collect (map (\<lambda>p. (base_name (snd p), fst p)) (enumerate 0 bases)) in
     bindC (foldC (check_alias base_indices aliases) (map fst (alias_entries aliases)) ()) (\<lambda>_.
     bindC (foldC (layer_step bases base_indices aliases policy) layers ({}, replicate (length bases) [])) (\<lambda>st.
       let bindings = map2 (\<lambda>base refs. \<lparr>overlay_base = base, overlay_refs = refs\<rparr>) bases (snd st) in
       Some (overlay_seal json sha256
         \<lparr>overlay_schema = OVERLAY_SCHEMA_VERSION, overlay_mode = mode, overlay_policy = policy,
          overlay_aliases = aliases, overlay_bases = bases, overlay_layers = layers, overlay_bindings = bindings\<rparr>)))))"

definition OverlayPlan_try_from ::
    "(OverlayPlanIdentity \<Rightarrow> u8 list option) \<Rightarrow> (u8 list \<Rightarrow> ContentDigest) \<Rightarrow> OverlayPlan \<Rightarrow> OverlayPlan computation" where
  "OverlayPlan_try_from json sha256 wire =
     bindC (Some (ensure (\<not> overlay_schema wire \<noteq> OVERLAY_SCHEMA_VERSION) InvalidFormat)) (\<lambda>_.
     bindC (OverlayPlan_build json sha256 (overlay_bases wire) (overlay_aliases wire) (overlay_layers wire)
         (overlay_policy wire) (overlay_mode wire)) (\<lambda>plan.
     bindC (Some (ensure (\<not> (overlay_bindings plan \<noteq> overlay_bindings wire \<or> overlay_digest plan \<noteq> overlay_digest wire))
         Integrity)) (\<lambda>_.
       Some (Inr plan))))"

section \<open>Identities of single targets\<close>

record ReferencedSourceDigest =
  digest_ordinal :: nat
  digest_content :: ContentDigest

record TargetOperationIdentity =
  identity_operation :: OverlayOperation
  identity_digests :: "ReferencedSourceDigest list"

record TargetOverlayIdentity =
  identity_mode :: CompositionMode
  identity_policy :: ConflictPolicy
  identity_base :: BaseTensor
  identity_operations :: "ContentDigest list"

text \<open>The reservation is made whenever the addition of the companion count does not overflow.\<close>

definition extend_storage_file_ordinals :: "Storage \<Rightarrow> nat list \<Rightarrow> nat list exec" where
  "extend_storage_file_ordinals storage ordinals =
     (let companions = (case storage of Plain _ _ \<Rightarrow> [] | Quantized q \<Rightarrow> q_companions q) in
     bindE (liftE (ok_or ResourceLimit (checked_add (length companions) 1))) (\<lambda>additional.
     bindE (try_reserve additional) (\<lambda>_.
       foldE (\<lambda>c ordinals. bindE check (\<lambda>_. retE (ordinals @ [span_file (companion_span (snd c))])))
         companions (ordinals @ [span_file (storage_span storage)]))))"

definition referenced_source_digests :: "OverlayLayer \<Rightarrow> OverlayOperation \<Rightarrow> ReferencedSourceDigest list exec" where
  "referenced_source_digests layer operation =
     bindE (foldE (\<lambda>source ordinals. bindE check (\<lambda>_. extend_storage_file_ordinals (src_storage source) ordinals))
         (overlay_sources operation) []) (\<lambda>ordinals.
     let ordinals = btree_set ordinals in
     bindE (try_reserve (length ordinals)) (\<lambda>_.
     bindE (mapE (\<lambda>ordinal.
         bindE check (\<lambda>_.
         bindE (liftE (usize_try_from ordinal)) (\<lambda>index.
         bindE (liftE (ok_or Integrity (list_get (layer_digests layer) index))) (\<lambda>content.
           retE \<lparr>digest_ordinal = ordinal, digest_content = content\<rparr>)))) ordinals) (\<lambda>digests.
     bindE check (\<lambda>_.
       retE digests))))"

definition target_operation_digest ::
    "(TargetOperationIdentity \<Rightarrow> u8 list option) \<Rightarrow> (u8 list \<Rightarrow> ContentDigest) \<Rightarrow> OverlayLayer
       \<Rightarrow> OverlayOperation \<Rightarrow> ContentDigest exec" where
  "target_operation_digest json sha256 layer operation =
     bindE check (\<lambda>_.
     bindE (referenced_source_digests layer operation) (\<lambda>digests.
     bindE (liftE (canonical_json json \<lparr>identity_operation = operation, identity_digests = digests\<rparr>)) (\<lambda>bytes.
     bindE check (\<lambda>_.
       retE (ContentDigest_hash sha256 (map of_char ''overlay-target-operation-v1'') [bytes])))))"

definition ref_digest ::
    "(TargetOperationIdentity \<Rightarrow> u8 list option) \<Rightarrow> (u8 list \<Rightarrow> ContentDigest) \<Rightarrow> (ContentDigest, OverlayLayer) btree
       \<Rightarrow> OverlayOperationRef \<Rightarrow> ContentDigest exec" where
  "ref_digest json sha256 layers operation_ref =
     bindE check (\<lambda>_.
     bindE (liftE (ok_or Integrity (map_of layers (ref_layer operation_ref)))) (\<lambda>layer.
     bindE (liftE (usize_try_from (ref_index operation_ref))) (\<lambda>index.
     bindE (liftE (ok_or Integrity (list_get (layer_operations layer) index))) (\<lambda>operation.
       target_operation_digest json sha256 layer operation))))"

definition canonical_target_digest ::
    "(TargetOperationIdentity \<Rightarrow> u8 list option) \<Rightarrow> (TargetOverlayIdentity \<Rightarrow> u8 list option)
       \<Rightarrow> (u8 list \<Rightarrow> ContentDigest) \<Rightarrow> OverlayPlan \<Rightarrow> TensorName \<Rightarrow> ContentDigest exec" where
  "canonical_target_digest json_operation json sha256 plan canonical =
     bindE check (\<lambda>_.
     bindE (liftE (ok_or Binding (map_option (\<lambda>i. overlay_bindings plan ! i)
         (binary_search (\<lambda>b. base_name (overlay_base b)) canonical (overlay_bindings plan))))) (\<lambda>binding.
     bindE check (\<lambda>_.
     bindE (foldE (\<lambda>layer layers. bindE check (\<lambda>_. retE (btree_insert (layer_id layer) layer layers)))
         (overlay_layers plan) []) (\<lambda>layers.
     bindE check (\<lambda>_.
     bindE (try_reserve (length (overlay_refs binding))) (\<lambda>_.
     bindE (mapE (ref_digest json_operation sha256 layers) (overlay_refs binding)) (\<lambda>operations.
     bindE check (\<lambda>_.
     bindE (liftE (canonical_json json \<lparr>identity_mode = overlay_mode plan, identity_policy = overlay_policy plan,
         identity_base = overlay_base binding, identity_operations = operations\<rparr>)) (\<lambda>bytes.
     bindE check (\<lambda>_.
     let digest = ContentDigest_hash sha256 (map of_char ''overlay-target-v2'') [bytes] in
     bindE check (\<lambda>_.
       retE digest)))))))))))"

definition target_digest_with_cancellation ::
    "(TargetOperationIdentity \<Rightarrow> u8 list option) \<Rightarrow> (TargetOverlayIdentity \<Rightarrow> u8 list option)
       \<Rightarrow> (u8 list \<Rightarrow> ContentDigest) \<Rightarrow> OverlayPlan \<Rightarrow> TensorName \<Rightarrow> Env \<Rightarrow> (ContentDigest \<times> Env) computation" where
  "target_digest_with_cancellation json_operation json sha256 plan target env =
     bindC (Some (check env)) (\<lambda>r.
       case AliasTable_resolve (overlay_aliases plan) target of None \<Rightarrow> None
       | Some canonical \<Rightarrow> Some (canonical_target_digest json_operation json sha256 plan canonical (snd r)))"

section \<open>Serialized plans\<close>

text \<open>
  \<open>serde_json::from_slice\<close> converts every nested wire struct with its \<open>TryFrom\<close> implementation; a
  failure of one of them is a parse error.
\<close>

definition OverlayOperation_convert :: "OverlayOperation \<Rightarrow> OverlayOperation result" where
  "OverlayOperation_convert operation = (case operation of
     Replace target value implementation \<Rightarrow>
       bindR (SourceTensor_try_from value) (\<lambda>value. Inr (Replace target value implementation))
   | Add target value scale implementation \<Rightarrow>
       bindR (SourceTensor_try_from value) (\<lambda>value.
       bindR (FiniteScale_new scale) (\<lambda>scale. Inr (Add target value scale implementation)))
   | LowRank target down up rank scale implementation \<Rightarrow>
       bindR (SourceTensor_try_from down) (\<lambda>down.
       bindR (SourceTensor_try_from up) (\<lambda>up.
       bindR (FiniteScale_new scale) (\<lambda>scale. Inr (LowRank target down up rank scale implementation))))
   | Recipe target inputs output_shape recipe \<Rightarrow>
       bindR (mapR (\<lambda>p. bindR (SourceTensor_try_from (snd p)) (\<lambda>source. Inr (fst p, source))) inputs) (\<lambda>inputs.
       bindR (ConversionRecipe_try_from recipe) (\<lambda>recipe. Inr (Recipe target inputs output_shape recipe))))"

definition OverlayPlan_convert ::
    "(OverlayLayerIdentity \<Rightarrow> u8 list option) \<Rightarrow> (u8 list \<Rightarrow> ContentDigest) \<Rightarrow> OverlayPlan \<Rightarrow> OverlayPlan result" where
  "OverlayPlan_convert json_layer sha256 wire =
     bindR (AliasTable_try_from (overlay_aliases wire)) (\<lambda>aliases.
     bindR (mapR BaseTensor_try_from (overlay_bases wire)) (\<lambda>bases.
     bindR (mapR (\<lambda>layer.
         bindR (mapR OverlayOperation_convert (layer_operations layer)) (\<lambda>operations.
           OverlayLayer_try_from json_layer sha256 (layer\<lparr>layer_operations := operations\<rparr>))) (overlay_layers wire)) (\<lambda>layers.
     bindR (mapR (\<lambda>b. bindR (BaseTensor_try_from (overlay_base b)) (\<lambda>base. Inr (b\<lparr>overlay_base := base\<rparr>)))
         (overlay_bindings wire)) (\<lambda>bindings.
       Inr (wire\<lparr>overlay_aliases := aliases, overlay_bases := bases, overlay_layers := layers,
         overlay_bindings := bindings\<rparr>)))))"

definition OverlayPlan_parse ::
    "(u8 list \<Rightarrow> OverlayPlan option) \<Rightarrow> (OverlayLayerIdentity \<Rightarrow> u8 list option) \<Rightarrow> (OverlayPlanIdentity \<Rightarrow> u8 list option)
       \<Rightarrow> (u8 list \<Rightarrow> ContentDigest) \<Rightarrow> u8 list \<Rightarrow> OverlayPlan computation" where
  "OverlayPlan_parse parse json_layer json_identity sha256 bytes =
     bindC (Some (ok_or InvalidFormat (parse bytes))) (\<lambda>wire.
     case bindC (Some (OverlayPlan_convert json_layer sha256 wire)) (OverlayPlan_try_from json_identity sha256) of
       None \<Rightarrow> None | Some (Inl _) \<Rightarrow> Some (Inl InvalidFormat) | Some (Inr plan) \<Rightarrow> Some (Inr plan))"

definition OverlayPlan_to_canonical_json :: "(OverlayPlan \<Rightarrow> u8 list option) \<Rightarrow> OverlayPlan \<Rightarrow> u8 list result" where
  "OverlayPlan_to_canonical_json json plan = canonical_json json plan"

definition OverlayPlan_from_canonical_json ::
    "(u8 list \<Rightarrow> OverlayPlan option) \<Rightarrow> (OverlayPlan \<Rightarrow> u8 list option) \<Rightarrow> (OverlayLayerIdentity \<Rightarrow> u8 list option)
       \<Rightarrow> (OverlayPlanIdentity \<Rightarrow> u8 list option) \<Rightarrow> (u8 list \<Rightarrow> ContentDigest) \<Rightarrow> u8 list \<Rightarrow> OverlayPlan computation" where
  "OverlayPlan_from_canonical_json parse json json_layer json_identity sha256 bytes =
     bindC (OverlayPlan_parse parse json_layer json_identity sha256 bytes) (\<lambda>plan.
     bindC (Some (OverlayPlan_to_canonical_json json plan)) (\<lambda>canonical.
     bindC (Some (ensure (\<not> canonical \<noteq> bytes) InvalidFormat)) (\<lambda>_.
       Some (Inr plan))))"

end
