(* ===== verification/MW_OverlaySound.thy ===== *)
theory MW_OverlaySound
  imports MW_Overlay
begin

text \<open>
  Overlay plans are exact. Alias tables are accepted if and only if every chain ends, and then
  resolution returns the end of the chain. A plan is built if and only if bases, aliases, layers
  and operations satisfy \<open>overlay_accepted\<close>, and its bindings list, for every base, the operations
  whose target resolves to it, in layer and operation order.
\<close>

section \<open>Computations\<close>

lemma bindC_simps [simp]:
  "bindC None f = None" "bindC (Some (Inl e)) f = Some (Inl e)" "bindC (Some (Inr x)) f = f x"
  by (simp_all add: bindC_def)

lemma bindC_Some [simp]: "bindC (Some r) (\<lambda>x. Some (f x)) = Some (bindR r f)"
  by (cases r) simp_all

lemma bindC_Inr: "bindC m f = Some (Inr y) \<longleftrightarrow> (\<exists>x. m = Some (Inr x) \<and> f x = Some (Inr y))"
  by (auto simp: bindC_def split: option.splits sum.splits)

text \<open>A loop whose steps return, returns.\<close>

lemma foldC_total: "(\<And>x s. x \<in> set xs \<Longrightarrow> f x s = Some (h x s)) \<Longrightarrow> foldC f xs s = Some (foldR h xs s)"
proof (induction xs arbitrary: s)
  case (Cons x xs)
  then have "foldC f xs s' = Some (foldR h xs s')" for s' by simp
  then show ?case using Cons.prems by simp
qed simp

lemma foldC_returns: "(\<And>x s. \<exists>r. f x s = Some r) \<Longrightarrow> \<exists>r. foldC f xs s = Some r"
proof (induction xs arbitrary: s)
  case (Cons x xs)
  obtain r where r: "f x s = Some r" using Cons.prems by blast
  then show ?case using Cons.IH[OF Cons.prems] by (cases r) auto
qed simp

section \<open>Alias chains\<close>

inductive resolves :: "(TensorName, TensorName) btree \<Rightarrow> TensorName \<Rightarrow> TensorName \<Rightarrow> bool" for entries where
  end_of_chain: "map_of entries n = None \<Longrightarrow> resolves entries n n"
| follow: "map_of entries n = Some m \<Longrightarrow> resolves entries m b \<Longrightarrow> resolves entries n b"

inductive_cases resolves_cases: "resolves entries n b"

lemma resolve_loop_resolves: "resolves entries n b \<Longrightarrow> resolve_loop entries n = Some b"
  by (induction rule: resolves.induct) (simp_all add: resolve_loop.simps)

lemma resolves_resolve_loop: "resolve_loop entries n = Some b \<Longrightarrow> resolves entries n b"
  by (erule resolve_loop.raw_induct[rotated]) (auto split: option.splits intro: resolves.intros)

lemma resolve_loop_iff: "resolve_loop entries n = Some b \<longleftrightarrow> resolves entries n b"
  using resolve_loop_resolves resolves_resolve_loop by blast

lemma resolves_end: "resolves entries n b \<Longrightarrow> map_of entries b = None"
  by (induction rule: resolves.induct)

text \<open>An accepted walk follows the chain to its end.\<close>

lemma walk_resolves: "alias_walk entries seen n = Inr () \<Longrightarrow> \<exists>b. resolves entries n b"
proof (induction entries seen n rule: alias_walk.induct)
  case (1 entries seen n)
  show ?case
  proof (cases "map_of entries n")
    case None
    then show ?thesis using end_of_chain by blast
  next
    case (Some m)
    then show ?thesis using 1 follow by (fastforce simp: alias_walk.simps[of _ _ n] split: if_splits)
  qed
qed

text \<open>A chain that ends has no cycle, so the walk from any of its names is accepted.\<close>

lemma resolves_acyclic: "resolves entries n b \<Longrightarrow> \<not> (\<lambda>x y. map_of entries x = Some y)\<^sup>+\<^sup>+ n n"
proof (induction rule: resolves.induct)
  case (end_of_chain n)
  then show ?case by (auto dest: tranclpD)
next
  case (follow n m b)
  show ?case
  proof
    assume "(\<lambda>x y. map_of entries x = Some y)\<^sup>+\<^sup>+ n n"
    then obtain k where "map_of entries n = Some k" "(\<lambda>x y. map_of entries x = Some y)\<^sup>*\<^sup>* k n" by (blast dest: tranclpD)
    then have "(\<lambda>x y. map_of entries x = Some y)\<^sup>*\<^sup>* m n" using follow.hyps(1) by simp
    then have "(\<lambda>x y. map_of entries x = Some y)\<^sup>+\<^sup>+ m m" using follow.hyps(1) by (auto intro: rtranclp_into_tranclp1)
    then show False using follow.IH by blast
  qed
qed

lemma resolves_walk:
  "resolves entries n b \<Longrightarrow> \<forall>x \<in> seen. (\<lambda>x y. map_of entries x = Some y)\<^sup>+\<^sup>+ x n \<Longrightarrow> alias_walk entries seen n = Inr ()"
proof (induction arbitrary: seen rule: resolves.induct)
  case (end_of_chain n)
  then show ?case by (simp add: alias_walk.simps)
next
  case (follow n m b)
  have "n \<notin> seen" using resolves_acyclic[OF resolves.follow[OF follow.hyps]] follow.prems by blast
  moreover have "\<forall>x \<in> insert n seen. (\<lambda>x y. map_of entries x = Some y)\<^sup>+\<^sup>+ x m"
    using follow.prems follow.hyps(1) by (auto intro: tranclp.intros)
  ultimately show ?case using follow.IH follow.hyps(1) by (simp add: alias_walk.simps[of _ _ n])
qed

lemma foldR_unit: "foldR (\<lambda>x _. f x) xs () = Inr () \<longleftrightarrow> (\<forall>x \<in> set xs. f x = Inr ())"
  by (induction xs) (auto simp: bindR_Inr)

lemma validate_alias_cycles_iff:
  "validate_alias_cycles entries = Inr () \<longleftrightarrow> (\<forall>n. \<exists>b. resolves entries n b)"
proof -
  have "alias_walk entries {} n = Inr () \<longleftrightarrow> (\<exists>b. resolves entries n b)" for n
    using walk_resolves resolves_walk[where seen = "{}"] by blast
  moreover have "\<exists>b. resolves entries n b" if "n \<notin> fst ` set entries" for n
    using that end_of_chain by (metis map_of_eq_None_iff)
  ultimately show ?thesis unfolding validate_alias_cycles_def foldR_unit by (metis set_map)
qed

lemma insert_aliases:
  "foldR insert_alias aliases m =  Inr entries \<longleftrightarrow> (\<forall>a \<in> set aliases. alias_name a \<noteq> alias_target a)
     \<and> foldR (insert_unique Binding) (map (\<lambda>a. (alias_name a, alias_target a)) aliases) m = Inr entries"
  by (induction aliases arbitrary: m) (auto simp: insert_alias_def bindR_Inr)

text \<open>Acceptance of an alias table.\<close>

definition alias_pairs :: "Alias list \<Rightarrow> (TensorName \<times> TensorName) list" where
  "alias_pairs aliases = map (\<lambda>a. (alias_name a, alias_target a)) aliases"

lemma AliasTable_new_iff:
  "AliasTable_new aliases = Inr table \<longleftrightarrow> distinct (map alias_name aliases) \<and> increasing (alias_entries table)
     \<and> map_of (alias_entries table) = map_of (alias_pairs aliases) \<and> (\<forall>n. \<exists>b. resolves (alias_entries table) n b)"
proof -
  have self: "alias_name a \<noteq> alias_target a" if d: "distinct (map alias_name aliases)" and a: "a \<in> set aliases"
    and m: "map_of (alias_entries table) = map_of (alias_pairs aliases)" and r: "\<forall>n. \<exists>b. resolves (alias_entries table) n b" for a
  proof
    assume eq: "alias_name a = alias_target a"
    have "map_of (alias_pairs aliases) (alias_name a) = Some (alias_target a)"
      using d a by (auto simp: alias_pairs_def map_of_eq_Some_iff comp_def)
    then have "(\<lambda>x y. map_of (alias_entries table) x = Some y)\<^sup>+\<^sup>+ (alias_name a) (alias_name a)"
      using m eq by (intro tranclp.r_into_trancl) simp
    then show False using r resolves_acyclic by blast
  qed
  have keys: "map fst (alias_pairs aliases) = map alias_name aliases" by (simp add: alias_pairs_def comp_def)
  have "AliasTable_new aliases = Inr table \<longleftrightarrow> foldR insert_alias aliases [] = Inr (alias_entries table)
      \<and> validate_alias_cycles (alias_entries table) = Inr ()"
    by (cases table) (auto simp: AliasTable_new_def bindR_Inr)
  then have iff: "AliasTable_new aliases = Inr table \<longleftrightarrow> (\<forall>a \<in> set aliases. alias_name a \<noteq> alias_target a)
      \<and> distinct (map alias_name aliases) \<and> increasing (alias_entries table)
      \<and> map_of (alias_entries table) = map_of (alias_pairs aliases) \<and> (\<forall>n. \<exists>b. resolves (alias_entries table) n b)"
    unfolding insert_aliases alias_pairs_def[symmetric] collect_unique keys validate_alias_cycles_iff by simp
  show ?thesis unfolding iff using self by blast
qed

lemma accepted_resolves:
  assumes "AliasTable_new aliases = Inr table"
  shows "\<exists>b. AliasTable_resolve table n = Some b"
  using assms unfolding AliasTable_new_iff AliasTable_resolve_def resolve_loop_iff by blast

section \<open>Indices of bases\<close>

lemma btree_collect_map:
  assumes "distinct (map fst kvs)"
  shows "map_of (btree_collect kvs) = map_of kvs"
proof -
  have "increasing (fold (\<lambda>p. btree_insert (fst p) (snd p)) kvs m)
      \<and> map_of (fold (\<lambda>p. btree_insert (fst p) (snd p)) kvs m) = map_of m ++ map_of (rev kvs)" if "increasing m"
    for m :: "('a, 'b) btree"
    using that
    by (induction kvs arbitrary: m) (simp_all add: increasing_btree_insert map_of_btree_insert map_add_upd_left map_add_upd)
  then have "map_of (btree_collect kvs) = map_of (rev kvs)" by (simp add: btree_collect_def increasing_def)
  also have "\<dots> = map_of kvs" using assms by (subst map_of_inject_set) (simp_all add: rev_map[symmetric])
  finally show ?thesis .
qed

lemma base_index:
  assumes "distinct (map base_name bases)"
  shows "map_of (btree_collect (map (\<lambda>p. (base_name (snd p), fst p)) (enumerate 0 bases))) n = Some i
    \<longleftrightarrow> i < length bases \<and> base_name (bases ! i) = n"
proof -
  define kvs where "kvs = map (\<lambda>i. (base_name (bases ! i), i)) [0..<length bases]"
  have k: "map (\<lambda>p. (base_name (snd p), fst p)) (enumerate 0 bases) = kvs"
    by (intro nth_equalityI) (simp_all add: kvs_def nth_enumerate_eq)
  have "map fst kvs = map base_name bases" by (intro nth_equalityI) (simp_all add: kvs_def)
  then have "distinct (map fst kvs)" using assms by simp
  then show ?thesis unfolding k by (auto simp: btree_collect_map map_of_eq_Some_iff kvs_def)
qed

section \<open>Assigning operations\<close>

definition overlay_ref :: "ContentDigest \<Rightarrow> nat \<Rightarrow> OverlayOperationRef" where
  "overlay_ref layer i = \<lparr>ref_layer = layer, ref_index = i\<rparr>"

text \<open>The operations with canonical target \<open>n\<close> among some indexed operations.\<close>

definition refs_to :: "AliasTable \<Rightarrow> ContentDigest \<Rightarrow> (nat \<times> OverlayOperation) list \<Rightarrow> TensorName \<Rightarrow> OverlayOperationRef list" where
  "refs_to table layer ps n = map (\<lambda>p. overlay_ref layer (fst p))
     (filter (\<lambda>p. AliasTable_resolve table (overlay_target (snd p)) = Some n) ps)"

definition operation_fits :: "AliasTable \<Rightarrow> BaseTensor list \<Rightarrow> nat \<times> OverlayOperation \<Rightarrow> bool" where
  "operation_fits table bases p \<longleftrightarrow> fst p < u32_bound \<and> (\<exists>base \<in> set bases.
     AliasTable_resolve table (overlay_target (snd p)) = Some (base_name base) \<and> validate_operation_shape (snd p) base = Inr ())"

definition no_conflict :: "ConflictPolicy \<Rightarrow> BaseTensor list \<Rightarrow> OverlayOperationRef list list \<Rightarrow> (TensorName \<Rightarrow> OverlayOperationRef list) \<Rightarrow> bool" where
  "no_conflict policy bases refs new \<longleftrightarrow> (policy = RejectConflict \<longrightarrow>
     (\<forall>i < length bases. new (base_name (bases ! i)) = [] \<or> length (refs ! i) + length (new (base_name (bases ! i))) \<le> 1))"

definition add_refs :: "BaseTensor list \<Rightarrow> OverlayOperationRef list list \<Rightarrow> (TensorName \<Rightarrow> OverlayOperationRef list) \<Rightarrow> OverlayOperationRef list list" where
  "add_refs bases refs new = map (\<lambda>i. refs ! i @ new (base_name (bases ! i))) [0..<length bases]"

lemma add_refs_simps [simp]:
  "length (add_refs bases refs new) = length bases"
  "i < length bases \<Longrightarrow> add_refs bases refs new ! i = refs ! i @ new (base_name (bases ! i))"
  by (simp_all add: add_refs_def)

lemma add_refs_none: "length refs = length bases \<Longrightarrow> add_refs bases refs (\<lambda>_. []) = refs"
  by (simp add: list_eq_iff_nth_eq)

lemma add_refs_twice: "add_refs bases (add_refs bases refs f) g = add_refs bases refs (\<lambda>n. f n @ g n)"
  by (simp add: list_eq_iff_nth_eq)

lemma no_conflict_twice:
  "no_conflict policy bases refs f \<and> no_conflict policy bases (add_refs bases refs f) g
     \<longleftrightarrow> no_conflict policy bases refs (\<lambda>n. f n @ g n)"
proof -
  have "(xs = [] \<or> k + length xs \<le> 1) \<and> (ys = [] \<or> k + length xs + length ys \<le> 1)
      \<longleftrightarrow> xs @ ys = [] \<or> k + length (xs @ ys) \<le> 1" for xs ys :: "OverlayOperationRef list" and k
    by (cases xs; cases ys) auto
  from this[symmetric] show ?thesis unfolding no_conflict_def by auto
qed

lemma operations_iff:
  assumes d: "distinct (map base_name bases)" and table: "AliasTable_new aliases = Inr table"
    and idx: "base_indices = btree_collect (map (\<lambda>p. (base_name (snd p), fst p)) (enumerate 0 bases))"
    and len: "length refs = length bases"
  shows "foldC (operation_step bases base_indices table policy layer) ps refs = Some (Inr refs')
     \<longleftrightarrow> (\<forall>p \<in> set ps. operation_fits table bases p) \<and> no_conflict policy bases refs (refs_to table layer ps)
       \<and> refs' = add_refs bases refs (refs_to table layer ps)"
  using len
proof (induction ps arbitrary: refs)
  case Nil
  then show ?case by (auto simp: refs_to_def add_refs_none no_conflict_def)
next
  case (Cons p ps)
  obtain n where n: "AliasTable_resolve table (overlay_target (snd p)) = Some n" using accepted_resolves[OF table] by blast
  define r where "r = (\<lambda>m. if m = n then [overlay_ref layer (fst p)] else [])"
  have all: "refs_to table layer (p # ps) = (\<lambda>m. r m @ refs_to table layer ps m)"
    using n by (auto simp: refs_to_def r_def fun_eq_iff)
  have one: "operation_step bases base_indices table policy layer p refs = Some (Inr refs1)
      \<longleftrightarrow> operation_fits table bases p \<and> no_conflict policy bases refs r \<and> refs1 = add_refs bases refs r" for refs1
  proof (cases "\<exists>i < length bases. base_name (bases ! i) = n")
    case False
    then have "map_of base_indices n = None" using base_index[OF d, of n] idx by (metis option.exhaust)
    moreover have "\<not> operation_fits table bases p" using False n by (auto simp: operation_fits_def in_set_conv_nth)
    ultimately show ?thesis using n by (simp add: operation_step_def assign_operation_def)
  next
    case True
    then obtain i where i: "i < length bases" "base_name (bases ! i) = n" by blast
    then have m: "map_of base_indices n = Some i" using base_index[OF d, of n i] idx by simp
    have other: "j = i" if "j < length bases" "base_name (bases ! j) = n" for j
      using d i that by (metis distinct_conv_nth length_map nth_map)
    have fits: "operation_fits table bases p \<longleftrightarrow> fst p < u32_bound \<and> validate_operation_shape (snd p) (bases ! i) = Inr ()"
    proof -
      have u: "base = bases ! i" if b: "base \<in> set bases" "base_name base = n" for base
      proof -
        obtain j where "j < length bases" "bases ! j = base" using b(1) by (auto simp: in_set_conv_nth)
        then show ?thesis using b(2) other[of j] by blast
      qed
      have "bases ! i \<in> set bases" using i by simp
      then have "(\<exists>base \<in> set bases. Some n = Some (base_name base) \<and> validate_operation_shape (snd p) base = Inr ())
          \<longleftrightarrow> validate_operation_shape (snd p) (bases ! i) = Inr ()" using u i(2) by (metis option.inject)
      then show ?thesis unfolding operation_fits_def n by simp
    qed
    have new: "r (base_name (bases ! j)) = (if j = i then [overlay_ref layer (fst p)] else [])" if "j < length bases" for j
      unfolding r_def using other[OF that] i(2) by presburger
    have conflict: "no_conflict policy bases refs r \<longleftrightarrow> \<not> (policy = RejectConflict \<and> refs ! i \<noteq> [])"
      using i(1) unfolding no_conflict_def by (auto simp: new split: if_splits)
    have upd: "add_refs bases refs r = refs[i := refs ! i @ [overlay_ref layer (fst p)]]"
      by (rule nth_equalityI) (use i(1) Cons.prems in \<open>auto simp: new nth_list_update\<close>)
    show ?thesis using n m unfolding fits conflict upd
      by (auto simp: operation_step_def assign_operation_def bindR_Inr try_from_Inr overlay_ref_def)
  qed
  have run: "foldC (operation_step bases base_indices table policy layer) (p # ps) refs = Some (Inr refs')
     \<longleftrightarrow> (\<exists>refs1. operation_step bases base_indices table policy layer p refs = Some (Inr refs1)
        \<and> foldC (operation_step bases base_indices table policy layer) ps refs1 = Some (Inr refs'))" for refs'
    by (simp add: bindC_Inr)
  show ?case unfolding run one all using Cons.IH no_conflict_twice[of policy bases refs r "refs_to table layer ps"]
    by (auto simp: add_refs_twice)
qed

section \<open>Layers\<close>

text \<open>The operations of all layers with canonical target \<open>n\<close>, in layer and operation order.\<close>

definition overlay_refs_of :: "AliasTable \<Rightarrow> OverlayLayer list \<Rightarrow> TensorName \<Rightarrow> OverlayOperationRef list" where
  "overlay_refs_of table layers n =
     concat (map (\<lambda>l. refs_to table (layer_id l) (enumerate 0 (layer_operations l)) n) layers)"

definition layers_fit :: "AliasTable \<Rightarrow> BaseTensor list \<Rightarrow> OverlayLayer list \<Rightarrow> bool" where
  "layers_fit table bases layers \<longleftrightarrow> (\<forall>l \<in> set layers. \<forall>p \<in> set (enumerate 0 (layer_operations l)). operation_fits table bases p)"

lemma layers_iff:
  assumes d: "distinct (map base_name bases)" and table: "AliasTable_new aliases = Inr table"
    and idx: "base_indices = btree_collect (map (\<lambda>p. (base_name (snd p), fst p)) (enumerate 0 bases))"
    and len: "length (snd st) = length bases"
  shows "foldC (layer_step bases base_indices table policy) layers st = Some (Inr st')
     \<longleftrightarrow> distinct (map layer_id layers) \<and> fst st \<inter> layer_id ` set layers = {} \<and> layers_fit table bases layers
       \<and> no_conflict policy bases (snd st) (overlay_refs_of table layers)
       \<and> st' = (fst st \<union> layer_id ` set layers, add_refs bases (snd st) (overlay_refs_of table layers))"
  using len
proof (induction layers arbitrary: st)
  case Nil
  then show ?case by (cases st; cases st') (auto simp: overlay_refs_of_def add_refs_none no_conflict_def layers_fit_def)
next
  case (Cons l layers)
  define own where "own = refs_to table (layer_id l) (enumerate 0 (layer_operations l))"
  have all: "overlay_refs_of table (l # layers) = (\<lambda>n. own n @ overlay_refs_of table layers n)"
    by (simp add: overlay_refs_of_def own_def fun_eq_iff)
  have one: "layer_step bases base_indices table policy l st = Some (Inr st1) \<longleftrightarrow> layer_id l \<notin> fst st
      \<and> (\<forall>p \<in> set (enumerate 0 (layer_operations l)). operation_fits table bases p) \<and> no_conflict policy bases (snd st) own
      \<and> st1 = (insert (layer_id l) (fst st), add_refs bases (snd st) own)" for st1
    unfolding layer_step_def bindC_Inr own_def operations_iff[OF d table idx Cons.prems] by auto
  have run: "foldC (layer_step bases base_indices table policy) (l # layers) st = Some (Inr st')
     \<longleftrightarrow> (\<exists>st1. layer_step bases base_indices table policy l st = Some (Inr st1)
        \<and> foldC (layer_step bases base_indices table policy) layers st1 = Some (Inr st'))"
    by (simp add: bindC_Inr)
  have conflicts: "no_conflict policy bases (snd st) own
      \<and> no_conflict policy bases (add_refs bases (snd st) own) (overlay_refs_of table layers)
      \<longleftrightarrow> no_conflict policy bases (snd st) (overlay_refs_of table (l # layers))"
    unfolding all by (rule no_conflict_twice)
  have refs: "add_refs bases (add_refs bases (snd st) own) (overlay_refs_of table layers)
      = add_refs bases (snd st) (overlay_refs_of table (l # layers))"
    unfolding all by (rule add_refs_twice)
  have fits: "layers_fit table bases (l # layers) \<longleftrightarrow>
      (\<forall>p \<in> set (enumerate 0 (layer_operations l)). operation_fits table bases p) \<and> layers_fit table bases layers"
    by (simp add: layers_fit_def)
  let ?st1 = "(insert (layer_id l) (fst st), add_refs bases (snd st) own)"
  have "foldC (layer_step bases base_indices table policy) (l # layers) st = Some (Inr st') \<longleftrightarrow>
      (layer_id l \<notin> fst st \<and> (\<forall>p \<in> set (enumerate 0 (layer_operations l)). operation_fits table bases p)
        \<and> no_conflict policy bases (snd st) own)
      \<and> foldC (layer_step bases base_indices table policy) layers ?st1 = Some (Inr st')"
    unfolding run one by blast
  also have "\<dots> \<longleftrightarrow> distinct (map layer_id (l # layers)) \<and> fst st \<inter> layer_id ` set (l # layers) = {}
       \<and> layers_fit table bases (l # layers) \<and> no_conflict policy bases (snd st) (overlay_refs_of table (l # layers))
       \<and> st' = (fst st \<union> layer_id ` set (l # layers), add_refs bases (snd st) (overlay_refs_of table (l # layers)))"
    using Cons.IH[of ?st1] unfolding fits refs[symmetric] conflicts[symmetric] by auto
  finally show ?case .
qed

lemma layers_return:
  assumes table: "AliasTable_new aliases = Inr table"
  shows "foldC (layer_step bases base_indices table policy) layers st \<noteq> None"
proof -
  have "\<exists>r. operation_step bases base_indices table policy layer p refs = Some r" for layer p refs
    using accepted_resolves[OF table, of "overlay_target (snd p)"] by (auto simp: operation_step_def)
  then have ops: "\<exists>r. foldC (operation_step bases base_indices table policy layer) ps refs = Some r" for layer ps refs
    by (rule foldC_returns)
  have "\<exists>r. layer_step bases base_indices table policy l st = Some r" for l st
  proof -
    obtain r where "foldC (operation_step bases base_indices table policy (layer_id l))
        (enumerate 0 (layer_operations l)) (snd st) = Some r" using ops by blast
    then show ?thesis by (cases r) (auto simp: layer_step_def ensure_def)
  qed
  then have "\<exists>r. foldC (layer_step bases base_indices table policy) layers st = Some r"
    by (rule foldC_returns)
  then show ?thesis by simp
qed

section \<open>Building plans\<close>

definition overlay_accepted :: "AliasTable \<Rightarrow> BaseTensor list \<Rightarrow> OverlayLayer list \<Rightarrow> ConflictPolicy \<Rightarrow> bool" where
  "overlay_accepted table bases layers policy \<longleftrightarrow> distinct (map base_name bases)
     \<and> (\<forall>n \<in> fst ` set (alias_entries table). n \<notin> base_name ` set bases
         \<and> (\<exists>base \<in> set bases. AliasTable_resolve table n = Some (base_name base)))
     \<and> distinct (map layer_id layers) \<and> layers_fit table bases layers
     \<and> (policy = RejectConflict \<longrightarrow> (\<forall>base \<in> set bases. length (overlay_refs_of table layers (base_name base)) \<le> 1))"

definition overlay_payload ::
    "AliasTable \<Rightarrow> BaseTensor list \<Rightarrow> OverlayLayer list \<Rightarrow> ConflictPolicy \<Rightarrow> CompositionMode \<Rightarrow> OverlayPlanIdentity" where
  "overlay_payload table bases layers policy mode =
     \<lparr>overlay_schema = 1, overlay_mode = mode, overlay_policy = policy, overlay_aliases = table,
      overlay_bases = sort_key base_name bases, overlay_layers = layers,
      overlay_bindings = map (\<lambda>base. \<lparr>overlay_base = base, overlay_refs = overlay_refs_of table layers (base_name base)\<rparr>)
        (sort_key base_name bases)\<rparr>"

lemma check_aliases:
  assumes table: "AliasTable_new aliases = Inr table" and d: "distinct (map base_name bases)"
    and idx: "base_indices = btree_collect (map (\<lambda>p. (base_name (snd p), fst p)) (enumerate 0 bases))"
  shows "foldC (check_alias base_indices table) names () = Some (Inr ()) \<longleftrightarrow>
      (\<forall>n \<in> set names. n \<notin> base_name ` set bases \<and> (\<exists>base \<in> set bases. AliasTable_resolve table n = Some (base_name base)))"
    and "foldC (check_alias base_indices table) names () \<noteq> None"
proof -
  have known: "map_of base_indices n \<noteq> None \<longleftrightarrow> n \<in> base_name ` set bases" for n
  proof -
    have "n \<in> base_name ` set bases \<longleftrightarrow> (\<exists>i < length bases. base_name (bases ! i) = n)"
      by (auto simp: set_conv_nth)
    moreover have "map_of base_indices n \<noteq> None \<longleftrightarrow> (\<exists>i. map_of base_indices n = Some i)" by simp
    ultimately show ?thesis unfolding idx base_index[OF d] by simp
  qed
  define h where "h = (\<lambda>n (_ :: unit). bindR (ensure (\<not> n \<in> base_name ` set bases) Binding) (\<lambda>_.
    ensure (the (AliasTable_resolve table n) \<in> base_name ` set bases) Binding))"
  have step: "check_alias base_indices table n u = Some (h n u)" for n u
  proof -
    obtain b where "AliasTable_resolve table n = Some b" using accepted_resolves[OF table] by blast
    then show ?thesis unfolding check_alias_def h_def known by simp
  qed
  have run: "foldC (check_alias base_indices table) names () = Some (foldR h names ())" by (intro foldC_total step)
  show "foldC (check_alias base_indices table) names () \<noteq> None" using run by simp
  have "h n () = Inr () \<longleftrightarrow> n \<notin> base_name ` set bases \<and> (\<exists>base \<in> set bases. AliasTable_resolve table n = Some (base_name base))" for n
    using accepted_resolves[OF table, of n] by (auto simp: h_def bindR_Inr image_iff)
  moreover have "foldR h names () = Inr () \<longleftrightarrow> (\<forall>n \<in> set names. h n () = Inr ())"
    by (induction names) (auto simp: bindR_Inr)
  ultimately show "foldC (check_alias base_indices table) names () = Some (Inr ()) \<longleftrightarrow>
      (\<forall>n \<in> set names. n \<notin> base_name ` set bases \<and> (\<exists>base \<in> set bases. AliasTable_resolve table n = Some (base_name base)))"
    using run by simp
qed

lemma OverlayPlan_build_iff:
  assumes table: "AliasTable_new aliases = Inr table"
  shows "OverlayPlan_build json sha256 bases table layers policy mode = Some (Inr plan)
      \<longleftrightarrow> overlay_accepted table bases layers policy
        \<and> overlay_seal json sha256 (overlay_payload table bases layers policy mode) = Inr plan"
    and "OverlayPlan_build json sha256 bases table layers policy mode \<noteq> None"
proof -
  define bs where "bs = sort_key base_name bases"
  define idx where "idx = btree_collect (map (\<lambda>p. (base_name (snd p), fst p)) (enumerate 0 bs))"
  have w: "any_window2 (\<lambda>a b. base_name a = base_name b) bs \<longleftrightarrow> \<not> distinct (map base_name bases)"
    by (simp add: window_duplicates bs_def distinct_map)
  have sets: "set bs = set bases" by (simp add: bs_def)
  define rest where "rest = bindC (foldC (check_alias idx table) (map fst (alias_entries table)) ()) (\<lambda>_.
     bindC (foldC (layer_step bs idx table policy) layers ({}, replicate (length bs) [])) (\<lambda>st.
       Some (overlay_seal json sha256
         \<lparr>overlay_schema = OVERLAY_SCHEMA_VERSION, overlay_mode = mode, overlay_policy = policy,
          overlay_aliases = table, overlay_bases = bs, overlay_layers = layers,
          overlay_bindings = map2 (\<lambda>base refs. \<lparr>overlay_base = base, overlay_refs = refs\<rparr>) bs (snd st)\<rparr>)))"
  have build: "OverlayPlan_build json sha256 bases table layers policy mode =
      (if distinct (map base_name bases) then rest else Some (Inl Binding))"
    by (simp add: OverlayPlan_build_def Let_def w rest_def idx_def flip: bs_def)
  have rest: "rest = Some (Inr plan) \<longleftrightarrow> overlay_accepted table bases layers policy
      \<and> overlay_seal json sha256 (overlay_payload table bases layers policy mode) = Inr plan" "rest \<noteq> None"
    if dist: "distinct (map base_name bases)"
  proof -
    have d: "distinct (map base_name bs)" using dist by (simp add: bs_def distinct_map)
    note aliases = check_aliases[OF table d idx_def]
    define start where "start = ({} :: ContentDigest set, replicate (length bs) ([] :: OverlayOperationRef list))"
    have len: "length (snd start) = length bs" by (simp add: start_def)
    note steps = layers_iff[OF d table idx_def len]
    have refs: "snd start ! i = []" if "i < length bs" for i using that by (simp add: start_def)
    have conflict: "no_conflict policy bs (snd start) f \<longleftrightarrow> (policy = RejectConflict \<longrightarrow> (\<forall>base \<in> set bases. length (f (base_name base)) \<le> 1))" for f
      unfolding sets[symmetric] all_set_conv_all_nth no_conflict_def using refs by fastforce
    have bindings: "map2 (\<lambda>base refs. \<lparr>overlay_base = base, overlay_refs = refs\<rparr>) bs (add_refs bs (snd start) f)
        = map (\<lambda>base. \<lparr>overlay_base = base, overlay_refs = f (base_name base)\<rparr>) bs" for f
      by (rule nth_equalityI) (simp_all add: refs)
    have fit: "layers_fit table bs layers \<longleftrightarrow> layers_fit table bases layers"
      by (simp add: layers_fit_def operation_fits_def sets)
    show "rest = Some (Inr plan) \<longleftrightarrow> overlay_accepted table bases layers policy
      \<and> overlay_seal json sha256 (overlay_payload table bases layers policy mode) = Inr plan"
      unfolding rest_def bindC_Inr start_def[symmetric] steps conflict fit overlay_accepted_def overlay_payload_def bs_def[symmetric]
      using aliases(1) dist by (auto simp: bindings sets OVERLAY_SCHEMA_VERSION_def) (auto simp: start_def)
    show "rest \<noteq> None" using aliases(2) layers_return[OF table, of bs idx policy layers start]
      unfolding rest_def start_def[symmetric] by (auto simp: bindC_def split: option.splits sum.splits)
  qed
  show "OverlayPlan_build json sha256 bases table layers policy mode = Some (Inr plan)
      \<longleftrightarrow> overlay_accepted table bases layers policy
        \<and> overlay_seal json sha256 (overlay_payload table bases layers policy mode) = Inr plan"
    using rest(1) unfolding build by (auto simp: overlay_accepted_def)
  show "OverlayPlan_build json sha256 bases table layers policy mode \<noteq> None"
    using rest(2) unfolding build by auto
qed

text \<open>Deserialization rebuilds an accepted plan.\<close>

lemma overlay_fields:
  assumes "overlay_seal json sha256 payload = Inr plan"
  shows "OverlayPlanIdentity.truncate plan = payload"
  using assms by (cases payload) (auto simp: overlay_seal_def bindR_Inr OverlayPlanIdentity.defs)

lemma overlay_payload_fields:
  assumes "OverlayPlanIdentity.truncate plan = overlay_payload table bases layers policy mode"
  shows "overlay_schema plan = 1" "overlay_mode plan = mode" "overlay_policy plan = policy"
    "overlay_aliases plan = table" "overlay_bases plan = sort_key base_name bases" "overlay_layers plan = layers"
    "overlay_bindings plan = map (\<lambda>base. \<lparr>overlay_base = base, overlay_refs = overlay_refs_of table layers (base_name base)\<rparr>)
        (sort_key base_name bases)"
  using assms by (simp_all add: overlay_payload_def OverlayPlanIdentity.defs)

lemma overlay_rebuilds:
  assumes table: "AliasTable_new aliases = Inr table"
    and built: "OverlayPlan_build json sha256 bases table layers policy mode = Some (Inr plan)"
  shows "OverlayPlan_try_from json sha256 plan = Some (Inr plan)"
proof -
  note acc = built[unfolded OverlayPlan_build_iff(1)[OF table]]
  note F = overlay_payload_fields[OF overlay_fields[OF conjunct2[OF acc]]]
  have "overlay_accepted table (sort_key base_name bases) layers policy" using acc
    by (simp add: overlay_accepted_def layers_fit_def operation_fits_def distinct_map)
  moreover have "overlay_payload table (sort_key base_name bases) layers policy mode = overlay_payload table bases layers policy mode"
    by (simp add: overlay_payload_def sort_key_id_if_sorted)
  ultimately have "OverlayPlan_build json sha256 (sort_key base_name bases) table layers policy mode = Some (Inr plan)"
    using acc by (simp add: OverlayPlan_build_iff(1)[OF table])
  then show ?thesis by (simp add: OverlayPlan_try_from_def F OVERLAY_SCHEMA_VERSION_def)
qed

end
