(* ===== verification/MW_OverlayDigest.thy ===== *)
theory MW_OverlayDigest
  imports MW_OverlaySound MW_PlanSound
begin

text \<open>
  Identities of single targets. The digest that the plan computes for a name is a function of the
  composition mode, the conflict policy, the base tensor the name resolves to and the operations
  on this base with the digests of the files they read; other bases and operations have no influence.
\<close>

section \<open>Files of an operation\<close>

definition storage_ordinals :: "Storage \<Rightarrow> nat list" where
  "storage_ordinals storage = span_file (storage_span storage) # (case storage of Plain _ _ \<Rightarrow> []
     | Quantized q \<Rightarrow> map (\<lambda>c. span_file (companion_span (snd c))) (q_companions q))"

definition source_ordinals :: "OverlayOperation \<Rightarrow> nat list" where
  "source_ordinals operation = btree_set (concat (map (\<lambda>s. storage_ordinals (src_storage s)) (overlay_sources operation)))"

text \<open>The count of storage spans of every source fits the machine.\<close>

definition ordinals_countable :: "OverlayOperation \<Rightarrow> bool" where
  "ordinals_countable operation \<longleftrightarrow> (\<forall>s \<in> set (overlay_sources operation). length (storage_ordinals (src_storage s)) < u64_bound)"

lemma missing_digest_loop:
  "foldR (\<lambda>c found. if found then Inr True else
      bindR (usize_try_from (span_file (companion_span (snd c)))) (\<lambda>i. Inr (i \<ge> n))) cs b = Inr False
   \<Longrightarrow> \<not> b \<and> (\<forall>c \<in> set cs. span_file (companion_span (snd c)) < usize_bound \<and> span_file (companion_span (snd c)) < n)"
proof (induction cs arbitrary: b)
  case (Cons c cs)
  have "foldR (\<lambda>c found. if found then Inr True else
      bindR (usize_try_from (span_file (companion_span (snd c)))) (\<lambda>i. Inr (i \<ge> n))) cs True \<noteq> Inr False"
    using Cons.IH by blast
  then show ?case using Cons by (fastforce simp: bindR_Inr try_from_Inr split: if_splits)
qed simp

lemma digest_present:
  assumes "storage_has_missing_digest storage n = Inr False" and "i \<in> set (storage_ordinals storage)"
  shows "i < n \<and> i < usize_bound"
  using assms
  by (auto simp: storage_has_missing_digest_def storage_ordinals_def bindR_Inr try_from_Inr split: Storage.splits if_splits
      dest!: missing_digest_loop)

lemma sources_present:
  assumes "validate_operation_sources operation n = Inr ()" and "i \<in> set (source_ordinals operation)"
  shows "i < n \<and> i < usize_bound"
proof -
  have "\<forall>s \<in> set (overlay_sources operation). storage_has_missing_digest (src_storage s) n = Inr False"
    using assms(1) unfolding validate_operation_sources_def foldR_unit by (auto simp: bindR_Inr)
  then show ?thesis using assms(2) digest_present by (auto simp: source_ordinals_def)
qed

lemma extend_ordinals:
  assumes "length (storage_ordinals storage) < u64_bound"
  shows "delivers (extend_storage_file_ordinals storage ordinals) (\<lambda>v. v = ordinals @ storage_ordinals storage)"
proof -
  let ?cs = "case storage of Plain _ _ \<Rightarrow> [] | Quantized q \<Rightarrow> q_companions q"
  have split: "storage_ordinals storage = span_file (storage_span storage) # map (\<lambda>c. span_file (companion_span (snd c))) ?cs"
    by (simp add: storage_ordinals_def split: Storage.splits)
  then have fit: "checked_add (length ?cs) 1 = Some (Suc (length ?cs))" using assms by (simp add: checked_add_def)
  have "delivers (foldE (\<lambda>c ordinals. bindE check (\<lambda>_. retE (ordinals @ [span_file (companion_span (snd c))]))) ?cs start)
      (\<lambda>v. v = start @ map (\<lambda>c. span_file (companion_span (snd c))) (take (length ?cs) ?cs))" for start
    by (rule delivers_foldE[where I = "\<lambda>k v. v = start @ map (\<lambda>c. span_file (companion_span (snd c))) (take k ?cs)"])
      (simp_all add: take_Suc_conv_app_nth delivers_after delivers_retE del: retE_apply)
  from this[of "ordinals @ [span_file (storage_span storage)]"] show ?thesis
    unfolding extend_storage_file_ordinals_def Let_def fit split by (simp add: delivers_after)
qed

definition source_digests :: "OverlayLayer \<Rightarrow> OverlayOperation \<Rightarrow> ReferencedSourceDigest list" where
  "source_digests layer operation =
     map (\<lambda>i. \<lparr>digest_ordinal = i, digest_content = layer_digests layer ! i\<rparr>) (source_ordinals operation)"

lemma referenced_digests:
  assumes fit: "ordinals_countable operation"
    and present: "validate_operation_sources operation (length (layer_digests layer)) = Inr ()"
  shows "delivers (referenced_source_digests layer operation) (\<lambda>v. v = source_digests layer operation)"
proof -
  let ?ss = "overlay_sources operation"
  have "delivers (foldE (\<lambda>source ordinals. bindE check (\<lambda>_. extend_storage_file_ordinals (src_storage source) ordinals)) ?ss [])
      (\<lambda>v. v = concat (map (\<lambda>s. storage_ordinals (src_storage s)) (take (length ?ss) ?ss)))"
  proof (rule delivers_foldE[where I = "\<lambda>k v. v = concat (map (\<lambda>s. storage_ordinals (src_storage s)) (take k ?ss))"])
    fix k v assume k: "k < length ?ss" and v: "v = concat (map (\<lambda>s. storage_ordinals (src_storage s)) (take k ?ss))"
    have "length (storage_ordinals (src_storage (?ss ! k))) < u64_bound" using fit k by (simp add: ordinals_countable_def)
    from extend_ordinals[OF this, of v]
    show "delivers (bindE check (\<lambda>_. extend_storage_file_ordinals (src_storage (?ss ! k)) v))
        (\<lambda>v. v = concat (map (\<lambda>s. storage_ordinals (src_storage s)) (take (Suc k) ?ss)))"
      using k by (intro delivers_after) (simp add: v take_Suc_conv_app_nth)
  qed simp
  then have ordinals: "delivers (foldE (\<lambda>source ordinals. bindE check (\<lambda>_. extend_storage_file_ordinals (src_storage source) ordinals)) ?ss [])
      (\<lambda>v. btree_set v = source_ordinals operation)"
    by (rule delivers_mono) (simp add: source_ordinals_def)
  have one: "delivers (bindE check (\<lambda>_. bindE (liftE (usize_try_from i)) (\<lambda>index.
         bindE (liftE (ok_or Integrity (list_get (layer_digests layer) index))) (\<lambda>content.
           retE \<lparr>digest_ordinal = i, digest_content = content\<rparr>))))
      (\<lambda>v. v = \<lparr>digest_ordinal = i, digest_content = layer_digests layer ! i\<rparr>)"
    if "i \<in> set (source_ordinals operation)" for i
    using sources_present[OF present that]
    by (intro delivers_after) (simp add: try_from_ok list_get_def delivers_retE del: retE_apply)
  have all: "delivers (mapE (\<lambda>ordinal. bindE check (\<lambda>_. bindE (liftE (usize_try_from ordinal)) (\<lambda>index.
         bindE (liftE (ok_or Integrity (list_get (layer_digests layer) index))) (\<lambda>content.
           retE \<lparr>digest_ordinal = ordinal, digest_content = content\<rparr>)))) (source_ordinals operation))
      (\<lambda>v. v = source_digests layer operation)"
    unfolding source_digests_def by (rule delivers_mapE) (simp add: list_all2_map2 list_all2_same one)
  show ?thesis unfolding referenced_source_digests_def Let_def
    by (rule delivers_bindE[OF ordinals], simp, rule delivers_after, rule delivers_bindE[OF all],
        rule delivers_after, simp add: delivers_retE del: retE_apply)
qed

section \<open>Digests\<close>

definition operation_digest ::
    "(TargetOperationIdentity \<Rightarrow> u8 list option) \<Rightarrow> (u8 list \<Rightarrow> ContentDigest) \<Rightarrow> OverlayLayer \<Rightarrow> OverlayOperation \<Rightarrow> ContentDigest" where
  "operation_digest json sha256 layer operation = ContentDigest_hash sha256 (map of_char ''overlay-target-operation-v1'')
     [the (json \<lparr>identity_operation = operation, identity_digests = source_digests layer operation\<rparr>)]"

lemma canonical_total: "json x \<noteq> None \<Longrightarrow> canonical_json json x = Inr (the (json x))"
  by (auto simp: canonical_json_def)

lemma target_operation_digest_exact:
  assumes "ordinals_countable operation" and "validate_operation_sources operation (length (layer_digests layer)) = Inr ()"
    and json: "\<And>x. json x \<noteq> None"
  shows "delivers (target_operation_digest json sha256 layer operation) (\<lambda>d. d = operation_digest json sha256 layer operation)"
proof -
  have "canonical_json json x = Inr (the (json x))" for x by (rule canonical_total) (rule json)
  then have c: "liftE (canonical_json json x) = liftE (Inr (the (json x)))" for x by simp
  show ?thesis unfolding target_operation_digest_def c liftE_bind
    by (rule delivers_after, rule delivers_bindE[OF referenced_digests[OF assms(1,2)]], rule delivers_after,
        rule delivers_retE) (simp add: operation_digest_def)
qed

text \<open>The operations on one base, with their layers.\<close>

definition operations_on :: "AliasTable \<Rightarrow> OverlayLayer list \<Rightarrow> TensorName \<Rightarrow> (OverlayLayer \<times> OverlayOperation) list" where
  "operations_on table layers n = concat (map (\<lambda>l. map (Pair l)
     (filter (\<lambda>op. AliasTable_resolve table (overlay_target op) = Some n) (layer_operations l))) layers)"

definition overlay_identity ::
    "(TargetOperationIdentity \<Rightarrow> u8 list option) \<Rightarrow> (TargetOverlayIdentity \<Rightarrow> u8 list option)
       \<Rightarrow> (u8 list \<Rightarrow> ContentDigest) \<Rightarrow> CompositionMode \<Rightarrow> ConflictPolicy \<Rightarrow> BaseTensor
       \<Rightarrow> (OverlayLayer \<times> OverlayOperation) list \<Rightarrow> ContentDigest" where
  "overlay_identity json_operation json sha256 mode policy base ops =
     ContentDigest_hash sha256 (map of_char ''overlay-target-v2'') [the (json \<lparr>identity_mode = mode,
       identity_policy = policy, identity_base = base,
       identity_operations = map (\<lambda>p. operation_digest json_operation sha256 (fst p) (snd p)) ops\<rparr>)]"

text \<open>References and operations of one target, from the indexed operations of all layers.\<close>

definition indexed_on :: "AliasTable \<Rightarrow> OverlayLayer list \<Rightarrow> TensorName \<Rightarrow> (OverlayLayer \<times> nat \<times> OverlayOperation) list" where
  "indexed_on table layers n = concat (map (\<lambda>l. map (Pair l)
     (filter (\<lambda>p. AliasTable_resolve table (overlay_target (snd p)) = Some n) (enumerate 0 (layer_operations l)))) layers)"

lemma indexed_refs: "overlay_refs_of table layers n = map (\<lambda>q. overlay_ref (layer_id (fst q)) (fst (snd q))) (indexed_on table layers n)"
  by (simp add: overlay_refs_of_def indexed_on_def refs_to_def map_concat comp_def)

lemma indexed_operations: "operations_on table layers n = map (\<lambda>q. (fst q, snd (snd q))) (indexed_on table layers n)"
proof -
  have "filter P xs = map snd (filter (\<lambda>p. P (snd p)) (enumerate 0 xs))" for P and xs :: "OverlayOperation list"
    using filter_map[of P snd "enumerate 0 xs"] by (simp add: comp_def)
  then show ?thesis by (simp add: operations_on_def indexed_on_def map_concat comp_def)
qed

lemma indexed_member:
  "q \<in> set (indexed_on table layers n) \<Longrightarrow> fst q \<in> set layers \<and> fst (snd q) < length (layer_operations (fst q))
     \<and> layer_operations (fst q) ! fst (snd q) = snd (snd q) \<and> snd (snd q) \<in> set (layer_operations (fst q))"
  by (auto simp: indexed_on_def in_set_enumerate_eq)

lemma collect_layers:
  assumes d: "distinct (map layer_id layers)"
  shows "delivers (foldE (\<lambda>layer m. bindE check (\<lambda>_. retE (btree_insert (layer_id layer) layer m))) layers [])
    (\<lambda>m. \<forall>l \<in> set layers. map_of m (layer_id l) = Some l)"
proof -
  have "delivers (foldE (\<lambda>layer m. bindE check (\<lambda>_. retE (btree_insert (layer_id layer) layer m))) layers [])
    (\<lambda>m. increasing m \<and> (\<forall>l \<in> set (take (length layers) layers). map_of m (layer_id l) = Some l))"
  proof (rule delivers_foldE[where I = "\<lambda>k m. increasing m \<and> (\<forall>l \<in> set (take k layers). map_of m (layer_id l) = Some l)"])
    fix k m assume k: "k < length layers" and m: "increasing m \<and> (\<forall>l \<in> set (take k layers). map_of m (layer_id l) = Some l)"
    have "distinct (map layer_id (take k layers @ layers ! k # drop (Suc k) layers))"
      using d by (simp only: id_take_nth_drop[OF k, symmetric])
    then have "layer_id (layers ! k) \<notin> layer_id ` set (take k layers)" by simp
    then have ne: "\<forall>l \<in> set (take k layers). layer_id l \<noteq> layer_id (layers ! k)" by (metis imageI)
    show "delivers (bindE check (\<lambda>_. retE (btree_insert (layer_id (layers ! k)) (layers ! k) m)))
        (\<lambda>m. increasing m \<and> (\<forall>l \<in> set (take (Suc k) layers). map_of m (layer_id l) = Some l))"
      using m k ne by (intro delivers_after delivers_retE)
        (auto simp: take_Suc_conv_app_nth increasing_btree_insert map_of_btree_insert)
  qed (simp add: increasing_def)
  then show ?thesis by (rule delivers_mono) simp
qed

lemma layer_validated:
  assumes "OverlayLayer_new json sha256 digests operations = Inr l" and "op \<in> set (layer_operations l)"
  shows "validate_operation_sources op (length (layer_digests l)) = Inr ()"
proof -
  have "foldR (\<lambda>op _. bindR (validate_operation_sources op (length digests)) (\<lambda>_. validate_recipe_inputs op)) operations () = Inr ()"
    "layer_operations l = operations" "layer_digests l = digests"
    using assms(1) by (auto simp: OverlayLayer_new_def bindR_Inr OverlayLayerIdentity.defs Let_def)
  then show ?thesis using assms(2) by (auto simp: foldR_unit bindR_Inr)
qed

text \<open>The digest of a target of an accepted plan.\<close>

lemma overlay_target_digest:
  assumes table: "AliasTable_new aliases = Inr table"
    and built: "OverlayPlan_build json_plan sha256 bases table layers policy mode = Some (Inr plan)"
    and layers: "\<And>l. l \<in> set layers \<Longrightarrow> \<exists>ds ops. OverlayLayer_new json_layer sha256 ds ops = Inr l"
    and fit: "\<And>l op. l \<in> set layers \<Longrightarrow> op \<in> set (layer_operations l) \<Longrightarrow> ordinals_countable op"
    and json: "\<And>x. json_operation x \<noteq> None" "\<And>x. json_target x \<noteq> None"
    and target: "AliasTable_resolve table target = Some (base_name base)" "base \<in> set bases"
  shows "target_digest_with_cancellation json_operation json_target sha256 plan target env \<noteq> None"
    and "delivers (\<lambda>env. the (target_digest_with_cancellation json_operation json_target sha256 plan target env))
      (\<lambda>d. d = overlay_identity json_operation json_target sha256 mode policy base (operations_on table layers (base_name base)))"
proof -
  note acc = built[unfolded OverlayPlan_build_iff(1)[OF table]]
  note F = overlay_payload_fields[OF overlay_fields[OF conjunct2[OF acc]]]
  have accepted: "distinct (map base_name bases)" "distinct (map layer_id layers)" "layers_fit table bases layers"
    using acc by (auto simp: overlay_accepted_def)
  let ?bs = "sort_key base_name bases" and ?n = "base_name base"
  let ?refs = "overlay_refs_of table layers ?n"
  have env: "target_digest_with_cancellation json_operation json_target sha256 plan target env
      = Some (bindE check (\<lambda>_. canonical_target_digest json_operation json_target sha256 plan ?n) env)" for env
    by (simp add: target_digest_with_cancellation_def F target(1) bindE_def bindC_def split: sum.splits)
  then show "target_digest_with_cancellation json_operation json_target sha256 plan target env \<noteq> None" by simp
  obtain i where i: "i < length ?bs" "?bs ! i = base" using target(2) by (metis in_set_conv_nth set_sort)
  have names: "map (\<lambda>b. base_name (overlay_base b)) (overlay_bindings plan) = map base_name ?bs" by (simp add: F)
  have "sorted_wrt (<) (map base_name ?bs)" using accepted(1) by (simp add: strict_sorted_iff distinct_map)
  then have "binary_search (\<lambda>b. base_name (overlay_base b)) ?n (overlay_bindings plan) = Some i"
    using binary_search_sorted[of "\<lambda>b. base_name (overlay_base b)" "overlay_bindings plan" ?n i] i unfolding names by (simp add: F)
  then have lookup: "ok_or Binding (map_option (\<lambda>i. overlay_bindings plan ! i)
      (binary_search (\<lambda>b. base_name (overlay_base b)) ?n (overlay_bindings plan))) = Inr \<lparr>overlay_base = base, overlay_refs = ?refs\<rparr>"
    using i by (simp add: F)
  have one: "delivers (ref_digest json_operation sha256 m (overlay_ref (layer_id (fst q)) (fst (snd q))))
      (\<lambda>d. d = operation_digest json_operation sha256 (fst q) (snd (snd q)))"
    if m: "\<forall>l \<in> set layers. map_of m (layer_id l) = Some l" and q: "q \<in> set (indexed_on table layers ?n)" for m q
  proof -
    note mem = indexed_member[OF q]
    have "snd q \<in> set (enumerate 0 (layer_operations (fst q)))" using mem by (cases q) (auto simp: in_set_enumerate_eq)
    then have "fst (snd q) < usize_bound" using accepted(3) mem u32_lt_u64
      by (auto simp: layers_fit_def operation_fits_def usize_is_u64)
    moreover have "validate_operation_sources (snd (snd q)) (length (layer_digests (fst q))) = Inr ()"
      using layers layer_validated mem by blast
    ultimately show ?thesis using m mem fit target_operation_digest_exact[OF _ _ json(1)]
      by (auto simp: ref_digest_def overlay_ref_def try_from_ok list_get_def intro: delivers_after)
  qed
  have all: "delivers (mapE (ref_digest json_operation sha256 m) ?refs)
      (\<lambda>v. v = map (\<lambda>p. operation_digest json_operation sha256 (fst p) (snd p)) (operations_on table layers ?n))"
    if m: "\<forall>l \<in> set layers. map_of m (layer_id l) = Some l" for m
    by (rule delivers_mapE) (simp add: indexed_refs indexed_operations list_all2_map1 list_all2_map2 list_all2_same one[OF m])
  have total: "canonical_json json_target x = Inr (the (json_target x))" for x by (rule canonical_total) (rule json(2))
  have "delivers (bindE check (\<lambda>_. canonical_target_digest json_operation json_target sha256 plan ?n))
      (\<lambda>d. d = overlay_identity json_operation json_target sha256 mode policy base (operations_on table layers ?n))"
    unfolding canonical_target_digest_def lookup liftE_bind Let_def
    apply (rule delivers_after)+
    apply (rule delivers_bindE[OF collect_layers[OF accepted(2)], folded F(6)])
    apply (rule delivers_after)+
    subgoal for m
      by (rule delivers_bindE[where P = "\<lambda>v. v = map (\<lambda>p. operation_digest json_operation sha256 (fst p) (snd p)) (operations_on table layers ?n)"])
        (use all[of m] in \<open>simp_all add: F total overlay_identity_def delivers_after delivers_retE del: retE_apply\<close>)
    done
  then show "delivers (\<lambda>env. the (target_digest_with_cancellation json_operation json_target sha256 plan target env))
      (\<lambda>d. d = overlay_identity json_operation json_target sha256 mode policy base (operations_on table layers (base_name base)))"
    by (simp add: env)
qed

end
