(* ===== verification/MW_OverlaySamples.thy ===== *)
theory MW_OverlaySamples
  imports MW_OverlayDigest MW_PlanSamples
begin

text \<open>A tied name, and one layer that replaces a tensor through it and then adds to the tensor itself.\<close>

definition merge_id :: ImplementationId where
  "merge_id = \<lparr>provider = ''core'', operation_name = ''merge'', version = 1\<rparr>"

definition sample_table :: AliasTable where
  "sample_table = \<lparr>alias_entries = [(''e'', ''w'')]\<rparr>"

definition sample_base :: BaseTensor where
  "sample_base = \<lparr>base_name = ''w'', base_shape = [2], base_content = [9]\<rparr>"

definition sample_operations :: "OverlayOperation list" where
  "sample_operations = [Replace ''e'' weight_source_tensor merge_id, Add ''w'' weight_source_tensor 0x3FF0000000000000 merge_id]"

definition sample_layer :: OverlayLayer where
  "sample_layer = \<lparr>layer_schema = 1, layer_digests = [[1]], layer_operations = sample_operations, layer_id = replicate 32 7\<rparr>"

definition sample_overlay :: OverlayPlan where
  "sample_overlay = \<lparr>overlay_schema = 1, overlay_mode = Lazy, overlay_policy = Ordered, overlay_aliases = sample_table,
     overlay_bases = [sample_base], overlay_layers = [sample_layer],
     overlay_bindings = [\<lparr>overlay_base = sample_base, overlay_refs = [overlay_ref (replicate 32 7) 0, overlay_ref (replicate 32 7) 1]\<rparr>],
     overlay_digest = replicate 32 7\<rparr>"

lemma sample_table_new: "AliasTable_new [Alias_new ''e'' ''w''] = Inr sample_table"
  by (simp add: AliasTable_new_def Alias_new_def insert_alias_def insert_unique_def btree_insert_def validate_alias_cycles_def
      alias_walk.simps sample_table_def)

lemma sample_resolve: "AliasTable_resolve sample_table ''e'' = Some ''w''" "AliasTable_resolve sample_table ''w'' = Some ''w''"
  by (simp_all add: AliasTable_resolve_def sample_table_def resolve_loop.simps)

lemma sample_layer_new: "OverlayLayer_new plan_json plan_sha [[1]] sample_operations = Inr sample_layer"
  by (simp add: OverlayLayer_new_def sample_operations_def validate_operation_sources_def overlay_sources_def weight_source_tensor_def
      storage_has_missing_digest_def storage_span_def usize_try_from_def usize_bound_def validate_recipe_inputs_def canonical_json_def
      plan_json_def plan_sha_def ContentDigest_hash_def sample_layer_def OVERLAY_SCHEMA_VERSION_def OverlayLayerIdentity.defs Let_def)

lemma sample_refs: "overlay_refs_of sample_table [sample_layer] ''w'' = [overlay_ref (replicate 32 7) 0, overlay_ref (replicate 32 7) 1]"
  by (simp add: overlay_refs_of_def refs_to_def sample_layer_def sample_operations_def overlay_target_def sample_resolve)

lemma sample_accepted: "overlay_accepted sample_table [sample_base] [sample_layer] Ordered"
proof -
  have "alias_entries sample_table = [(''e'', ''w'')]" "base_name sample_base = ''w''" "base_shape sample_base = [2]"
    "src_shape weight_source_tensor = [2]" "layer_operations sample_layer = sample_operations"
    by (simp_all add: sample_table_def sample_base_def weight_source_tensor_def sample_layer_def)
  then show ?thesis
    by (simp add: overlay_accepted_def sample_resolve layers_fit_def operation_fits_def sample_operations_def overlay_target_def
        validate_operation_shape_def u32_bound_def)
qed

lemma sample_overlay_built:
  "OverlayPlan_build plan_json plan_sha [sample_base] sample_table [sample_layer] Ordered Lazy = Some (Inr sample_overlay)"
proof -
  have "overlay_refs_of sample_table [sample_layer] (base_name sample_base) = [overlay_ref (replicate 32 7) 0, overlay_ref (replicate 32 7) 1]"
    using sample_refs by (simp add: sample_base_def)
  then have "overlay_seal plan_json plan_sha (overlay_payload sample_table [sample_base] [sample_layer] Ordered Lazy) = Inr sample_overlay"
    by (simp add: overlay_seal_def canonical_json_def plan_json_def plan_sha_def ContentDigest_hash_def overlay_payload_def
        sample_overlay_def OverlayPlanIdentity.defs)
  then show ?thesis using sample_accepted OverlayPlan_build_iff(1)[OF sample_table_new] by blast
qed

lemma sample_countable: "op \<in> set (layer_operations sample_layer) \<Longrightarrow> ordinals_countable op"
  by (auto simp: sample_layer_def sample_operations_def ordinals_countable_def overlay_sources_def storage_ordinals_def
      weight_source_tensor_def u64_bound_def)

lemma sample_operations_on:
  "operations_on sample_table [sample_layer] ''w'' = map (Pair sample_layer) sample_operations"
  by (simp add: operations_on_def sample_layer_def sample_operations_def overlay_target_def sample_resolve)

end
