(* ===== verification/MW_Json.thy ===== *)
theory MW_Json
  imports MW_Inventory MW_Limits
begin

text \<open>
  JSON as it reaches the visitors of checkpoint.rs and inventory.rs. \<open>serde_json\<close> parses while the
  visitors ask for the next key or value, so what it delivers for a byte string is a tree that may end
  early: the parameter \<open>serde\<close> gives the value and whether only white space follows it. The
  seeds and visitors poll the cancellation token, enforce the limits and abort at the first failure.
  The shard index of inventory.rs is modelled here as well.
\<close>

section \<open>Documents\<close>

text \<open>
  \<open>JInvalid\<close>: a syntax error is found while the value is read. The flag of arrays and objects says whether
  the container is closed after the listed elements; otherwise a syntax error follows them. Strings are
  UTF-8 bytes, \<open>JU64\<close> is an integer that fits \<open>u64\<close>, and \<open>JScalar\<close> any other number, boolean or null.
\<close>

datatype json =
    JInvalid | JScalar | JU64 nat | JString string | JArray "json list" bool | JObject "(string \<times> json) list" bool

type_synonym serde = "u8 list \<Rightarrow> json \<times> bool"

section \<open>Parse control\<close>

text \<open>
  \<open>classify_json_error\<close>: an error of \<open>serde_json\<close> itself is reported as a cancellation when the token is
  cancelled by then, and as an invalid format otherwise. An aborting check or limit is reported as itself.
\<close>

definition json_error :: "'a exec" where
  "json_error e = (if is_cancelled e then Inl Cancelled else Inl InvalidFormat)"

definition json_limit :: "'a exec" where
  "json_limit = liftE (Inl ResourceLimit)"

definition validate_string :: "nat \<Rightarrow> bool \<Rightarrow> string \<Rightarrow> string exec" where
  "validate_string maximum reject_empty s =
     bindE check (\<lambda>_.
     if length s > maximum \<or> reject_empty \<and> s = [] then json_limit else retE s)"

text \<open>\<open>HeaderStringSeed\<close> and \<open>IndexStringSeed\<close>.\<close>

definition string_seed :: "nat \<Rightarrow> bool \<Rightarrow> json \<Rightarrow> string exec" where
  "string_seed maximum reject_empty v =
     bindE check (\<lambda>_.
     case v of JString s \<Rightarrow> validate_string maximum reject_empty s | _ \<Rightarrow> json_error)"

text \<open>After the last element, and before the next one.\<close>

definition container_end :: "bool \<Rightarrow> 'a \<Rightarrow> 'a exec" where
  "container_end closed x = (if closed then retE x else json_error)"

section \<open>The shard index\<close>

text \<open>\<open>CancellableIgnoredAnySeed\<close>: other top-level values are skipped, but still checked.\<close>

fun ignore_value :: "json \<Rightarrow> unit exec"
  and ignore_elements :: "json list \<Rightarrow> bool \<Rightarrow> unit exec"
  and ignore_entries :: "(string \<times> json) list \<Rightarrow> bool \<Rightarrow> unit exec" where
  "ignore_value v = bindE check (\<lambda>_. case v of
     JInvalid \<Rightarrow> json_error
   | JArray vs closed \<Rightarrow> ignore_elements vs closed
   | JObject es closed \<Rightarrow> ignore_entries es closed
   | _ \<Rightarrow> check)"
| "ignore_elements [] closed = bindE check (\<lambda>_. container_end closed ())"
| "ignore_elements (v # vs) closed = bindE check (\<lambda>_. bindE (ignore_value v) (\<lambda>_. ignore_elements vs closed))"
| "ignore_entries [] closed = bindE check (\<lambda>_. container_end closed ())"
| "ignore_entries ((k, v) # es) closed =
     bindE check (\<lambda>_. bindE check (\<lambda>_. bindE check (\<lambda>_.
     bindE (ignore_value v) (\<lambda>_. ignore_entries es closed))))"

text \<open>\<open>WeightMapVisitor\<close>.\<close>

fun weight_map_entries ::
    "ResourceLimits \<Rightarrow> (string \<times> json) list \<Rightarrow> bool \<Rightarrow> RepoPath set \<Rightarrow> (string, RepoPath) btree
       \<Rightarrow> (string, RepoPath) btree exec" where
  "weight_map_entries limits [] closed shards m = bindE check (\<lambda>_. container_end closed m)"
| "weight_map_entries limits ((k, v) # es) closed shards m =
     bindE check (\<lambda>_.
     bindE (string_seed (max_name_bytes limits) True (JString k)) (\<lambda>name.
     bindE check (\<lambda>_.
     if map_of m name \<noteq> None then json_error
     else if length m \<ge> max_tensors limits then json_limit
     else
     bindE (string_seed (max_name_bytes limits) False v) (\<lambda>raw_path.
     bindE (liftE (RepoPath_parse raw_path)) (\<lambda>path.
     let shards = insert path shards in
     if card shards > max_shards limits then json_limit
     else weight_map_entries limits es closed shards (btree_insert name path m))))))"

definition weight_map_seed :: "ResourceLimits \<Rightarrow> json \<Rightarrow> (string, RepoPath) btree exec" where
  "weight_map_seed limits v = bindE check (\<lambda>_.
     case v of JObject es closed \<Rightarrow> weight_map_entries limits es closed {} [] | _ \<Rightarrow> json_error)"

text \<open>\<open>ShardIndexVisitor\<close>.\<close>

fun index_entries ::
    "ResourceLimits \<Rightarrow> (string \<times> json) list \<Rightarrow> bool \<Rightarrow> string set \<Rightarrow> (string, RepoPath) btree option
       \<Rightarrow> (string, RepoPath) btree exec" where
  "index_entries limits [] closed seen weight_map =
     bindE check (\<lambda>_. bindE (container_end closed ()) (\<lambda>_.
       case weight_map of None \<Rightarrow> json_error | Some m \<Rightarrow> retE m))"
| "index_entries limits ((k, v) # es) closed seen weight_map =
     bindE check (\<lambda>_. bindE check (\<lambda>_.
     if k \<in> seen then json_error
     else if k = ''weight_map'' then
       bindE (weight_map_seed limits v) (\<lambda>m. index_entries limits es closed (insert k seen) (Some m))
     else bindE (ignore_value v) (\<lambda>_. index_entries limits es closed (insert k seen) weight_map)))"

definition deserialize_shard_index_json :: "serde \<Rightarrow> ResourceLimits \<Rightarrow> u8 list \<Rightarrow> (string, RepoPath) btree exec" where
  "deserialize_shard_index_json serde limits bytes =
     (case serde bytes of (v, clean) \<Rightarrow>
     bindE (bindE check (\<lambda>_. case v of JObject es closed \<Rightarrow> index_entries limits es closed {} None | _ \<Rightarrow> json_error)) (\<lambda>m.
     bindE check (\<lambda>_.
     bindE (if clean then retE () else json_error) (\<lambda>_.
     bindE check (\<lambda>_.
       retE m)))))"

record ShardIndex =
  weight_map :: "(string, RepoPath) btree"

definition ShardIndex_from_json :: "serde \<Rightarrow> ResourceLimits \<Rightarrow> u8 list \<Rightarrow> ShardIndex exec" where
  "ShardIndex_from_json serde limits bytes =
     bindE check (\<lambda>_.
     let byte_limit = (if max_header_bytes limits < usize_bound then max_header_bytes limits else usize_bound - 1) in
     bindE (liftE (ensure (\<not> length bytes > byte_limit) ResourceLimit)) (\<lambda>_.
     bindE (deserialize_shard_index_json serde limits bytes) (\<lambda>m.
     bindE check (\<lambda>_.
       retE \<lparr>weight_map = m\<rparr>))))"

definition ShardIndex_shards :: "ShardIndex \<Rightarrow> RepoPath list" where
  "ShardIndex_shards index = remdups_adj (sort (map snd (weight_map index)))"

definition shard_for :: "ShardIndex \<Rightarrow> string \<Rightarrow> RepoPath option" where
  "shard_for index tensor = map_of (weight_map index) tensor"

text \<open>checkpoint.rs: the index and the inventory name the same tensors in the same files.\<close>

definition validate_shard_index :: "ShardIndex \<Rightarrow> Inventory \<Rightarrow> unit exec" where
  "validate_shard_index index inventory =
     bindE (liftE (ensure (\<not> length (weight_map index) \<noteq> length (inventory_tensors inventory)) Integrity)) (\<lambda>_.
     bindE (foldE (\<lambda>p _.
         bindE check (\<lambda>_.
         bindE (liftE (ok_or Integrity (Inventory_tensor inventory (fst p)))) (\<lambda>tensor.
         bindE (liftE (usize_try_from (span_file (storage_span (tensor_storage tensor))))) (\<lambda>file_index.
         bindE (liftE (ok_or Integrity (if file_index < length (inventory_files inventory)
             then Some (inventory_files inventory ! file_index) else None))) (\<lambda>file.
           liftE (ensure (\<not> file_path file \<noteq> snd p) Integrity)))))) (weight_map index) ()) (\<lambda>_.
     check))"

section \<open>Results of the visitors\<close>

lemma json_error_Inr [simp]: "json_error e \<noteq> Inr r"
  by (simp add: json_error_def)

lemma json_limit_Inr [simp]: "json_limit e \<noteq> Inr r"
  by (simp add: json_limit_def)

lemma container_end_Inr [result_simps]: "container_end closed x e = Inr (y, e') \<longleftrightarrow> closed \<and> y = x \<and> e' = e"
  by (auto simp: container_end_def)

lemma string_seed_Inr:
  "string_seed maximum reject v e = Inr (s, e') \<Longrightarrow> v = JString s \<and> length s \<le> maximum \<and> (reject \<longrightarrow> s \<noteq> [])"
  by (auto simp: string_seed_def validate_string_def bindE_Inr split: json.splits if_splits)

lemma length_btree_insert_new:
  assumes "increasing m" and "map_of m k = None"
  shows "length (btree_insert k v m) = Suc (length m)" and "set (btree_insert k v m) = insert (k, v) (set m)"
proof -
  have "length (btree_insert k v m) = Suc (length m) \<and> set (btree_insert k v m) = insert (k, v) (set m)"
    using assms
  proof (induction m)
    case Nil
    then show ?case by (simp add: btree_insert_def)
  next
    case (Cons p m)
    then show ?case by (cases p) (auto simp: btree_insert_Cons increasing_Cons split: if_splits)
  qed
  then show "length (btree_insert k v m) = Suc (length m)" "set (btree_insert k v m) = insert (k, v) (set m)" by simp_all
qed

section \<open>Accepted indexes\<close>

text \<open>An accepted index has unique names and safe paths, within all limits.\<close>

definition wf_shard_index :: "ResourceLimits \<Rightarrow> ShardIndex \<Rightarrow> bool" where
  "wf_shard_index limits index \<longleftrightarrow> increasing (weight_map index) \<and> length (weight_map index) \<le> max_tensors limits
     \<and> card (snd ` set (weight_map index)) \<le> max_shards limits
     \<and> (\<forall>p \<in> set (weight_map index). fst p \<noteq> [] \<and> length (fst p) \<le> max_name_bytes limits
         \<and> length (snd p) \<le> max_name_bytes limits \<and> RepoPath_parse (snd p) = Inr (snd p))"


lemma weight_map_entries_wf:
  "weight_map_entries limits es closed sh m e = Inr (m', e') \<Longrightarrow> wf_shard_index limits \<lparr>weight_map = m\<rparr> \<Longrightarrow> sh = snd ` set m
   \<Longrightarrow> wf_shard_index limits \<lparr>weight_map = m'\<rparr>"
proof (induction es arbitrary: sh m e)
  case Nil
  then show ?case by (auto simp: bindE_Inr container_end_Inr)
next
  case (Cons p es)
  obtain k v where p: "p = (k, v)" by (cases p)
  obtain name e0 e1 e2 where key: "string_seed (max_name_bytes limits) True (JString k) e0 = Inr (name, e1)"
    and step: "(if map_of m name \<noteq> None then json_error
     else if length m \<ge> max_tensors limits then json_limit
     else
     bindE (string_seed (max_name_bytes limits) False v) (\<lambda>raw_path.
     bindE (liftE (RepoPath_parse raw_path)) (\<lambda>path.
     let shards = insert path sh in
     if card shards > max_shards limits then json_limit
     else weight_map_entries limits es closed shards (btree_insert name path m)))) e2 = Inr (m', e')"
    using Cons.prems(1) unfolding p weight_map_entries.simps bindE_Inr by blast
  note name = string_seed_Inr[OF key]
  obtain raw path e3 e4 where new: "map_of m name = None" "length m < max_tensors limits"
    and raw: "string_seed (max_name_bytes limits) False v e2 = Inr (raw, e3)"
    and path: "RepoPath_parse raw = Inr path" "card (insert path sh) \<le> max_shards limits"
    and rest: "weight_map_entries limits es closed (insert path sh) (btree_insert name path m) e4 = Inr (m', e')"
    using step by (auto simp: bindE_Inr liftE_Inr Let_def not_le not_less split: if_splits)
  have inc: "increasing m" using Cons.prems(2) by (simp add: wf_shard_index_def)
  note ins = length_btree_insert_new[OF inc new(1), of path]
  have same: "raw = path" using RepoPath_parse_Inr[OF path(1)] by simp
  have "wf_shard_index limits \<lparr>weight_map = btree_insert name path m\<rparr>"
    using Cons.prems(2,3) new(2) path name string_seed_Inr[OF raw]
    by (auto simp: wf_shard_index_def ins same increasing_btree_insert[OF inc])
  moreover have "insert path sh = snd ` set (btree_insert name path m)" using Cons.prems(3) by (auto simp: ins)
  ultimately show ?case using Cons.IH[OF rest] by blast
qed

lemma weight_map_seed_wf: "weight_map_seed limits v e = Inr (m, e') \<Longrightarrow> wf_shard_index limits \<lparr>weight_map = m\<rparr>"
proof -
  have start: "wf_shard_index limits \<lparr>weight_map = []\<rparr>" by (simp add: wf_shard_index_def increasing_def)
  assume "weight_map_seed limits v e = Inr (m, e')"
  then obtain es closed e1 where "weight_map_entries limits es closed {} [] e1 = Inr (m, e')"
    by (auto simp: weight_map_seed_def bindE_Inr split: json.splits)
  from weight_map_entries_wf[OF this start] show ?thesis by simp
qed

lemma index_entries_wf:
  "index_entries limits es closed seen wm e = Inr (m, e') \<Longrightarrow> \<forall>x. wm = Some x \<longrightarrow> wf_shard_index limits \<lparr>weight_map = x\<rparr>
   \<Longrightarrow> wf_shard_index limits \<lparr>weight_map = m\<rparr>"
proof (induction es arbitrary: seen wm e)
  case Nil
  then show ?case by (auto simp: bindE_Inr container_end_Inr split: option.splits)
next
  case (Cons p es)
  obtain k v where p: "p = (k, v)" by (cases p)
  consider x e0 e1 where "weight_map_seed limits v e0 = Inr (x, e1)" "index_entries limits es closed (insert k seen) (Some x) e1 = Inr (m, e')"
    | e1 where "index_entries limits es closed (insert k seen) wm e1 = Inr (m, e')"
    using Cons.prems(1) unfolding p index_entries.simps by (auto simp: bindE_Inr split: if_splits)
  then show ?case
  proof cases
    case 1
    then show ?thesis using Cons.IH[OF 1(2)] weight_map_seed_wf[OF 1(1)] by simp
  next
    case 2
    then show ?thesis using Cons.IH Cons.prems(2) by blast
  qed
qed

text \<open>What parsing promises of every accepted index, whatever its bytes.\<close>

lemma ShardIndex_from_json_wf:
  assumes "ShardIndex_from_json serde limits bytes e = Inr (index, e')"
  shows "wf_shard_index limits index"
proof -
  obtain m where m: "index = \<lparr>weight_map = m\<rparr>"
    and "\<exists>es closed e1 e2. index_entries limits es closed {} None e1 = Inr (m, e2)"
    using assms by (auto simp: ShardIndex_from_json_def deserialize_shard_index_json_def bindE_Inr liftE_Inr Let_def
      split: prod.splits json.splits if_splits) blast+
  then show ?thesis using index_entries_wf[where wm = None] by auto
qed

text \<open>An index that agrees with the inventory says exactly in which file every tensor lies.\<close>

lemma validate_shard_index_exact:
  assumes v: "validate_shard_index index inventory e = Inr (u, e')" and inc: "increasing (weight_map index)"
    and wf: "wf_inventory inventory"
  shows "shard_for index name = Some path \<longleftrightarrow> (\<exists>t. Inventory_tensor inventory name = Some t
    \<and> file_path (inventory_files inventory ! span_file (storage_span (tensor_storage t))) = path)"
proof -
  let ?file = "\<lambda>t. file_path (inventory_files inventory ! span_file (storage_span (tensor_storage t)))"
  let ?step = "\<lambda>p _. bindE check (\<lambda>_.
         bindE (liftE (ok_or Integrity (Inventory_tensor inventory (fst p)))) (\<lambda>tensor.
         bindE (liftE (usize_try_from (span_file (storage_span (tensor_storage tensor))))) (\<lambda>file_index.
         bindE (liftE (ok_or Integrity (if file_index < length (inventory_files inventory)
             then Some (inventory_files inventory ! file_index) else None))) (\<lambda>file.
           liftE (ensure (\<not> file_path file \<noteq> snd p) Integrity)))))"
  have loop: "foldE ?step ps () e1 = Inr r \<Longrightarrow> p \<in> set ps \<Longrightarrow> \<exists>t. Inventory_tensor inventory (fst p) = Some t \<and> ?file t = snd p" for ps p e1 r
    by (induction ps arbitrary: e1) (auto simp: bindE_Inr liftE_Inr try_from_Inr split: if_splits)
  obtain e1 r where len: "length (weight_map index) = length (inventory_tensors inventory)"
    and run: "foldE ?step (weight_map index) () e1 = Inr r"
    using v by (auto simp: validate_shard_index_def bindE_Inr liftE_Inr)
  have found: "\<exists>t. Inventory_tensor inventory (fst p) = Some t \<and> ?file t = snd p" if "p \<in> set (weight_map index)" for p
    using loop[OF run that] .
  have names: "distinct (map tensor_name (inventory_tensors inventory))"
    using wf strict_sorted_iff by (auto simp: wf_inventory_def)
  have lookup: "t \<in> set (inventory_tensors inventory) \<and> tensor_name t = n" if "Inventory_tensor inventory n = Some t" for n t
    using that wf binary_search_sorted[of tensor_name "inventory_tensors inventory" n] by (auto simp: Inventory_tensor_def wf_inventory_def)
  have keys: "fst ` set (weight_map index) \<subseteq> set (map tensor_name (inventory_tensors inventory))"
    using found lookup by fastforce
  have "card (fst ` set (weight_map index)) = length (inventory_tensors inventory)"
    using increasing_distinct[OF inc] len by (metis distinct_card length_map set_map)
  then have all: "fst ` set (weight_map index) = set (map tensor_name (inventory_tensors inventory))"
    using keys names by (metis List.finite_set card_subset_eq distinct_card length_map)
  have "shard_for index name = Some path \<longleftrightarrow> (name, path) \<in> set (weight_map index)"
    using increasing_distinct[OF inc] by (simp add: shard_for_def map_of_eq_Some_iff)
  also have "\<dots> \<longleftrightarrow> (\<exists>t. Inventory_tensor inventory name = Some t \<and> ?file t = path)"
  proof
    assume "(name, path) \<in> set (weight_map index)"
    then show "\<exists>t. Inventory_tensor inventory name = Some t \<and> ?file t = path" using found by fastforce
  next
    assume "\<exists>t. Inventory_tensor inventory name = Some t \<and> ?file t = path"
    then obtain t where t: "Inventory_tensor inventory name = Some t" "?file t = path" by blast
    then have "name \<in> fst ` set (weight_map index)" using lookup unfolding all by force
    then obtain q where "(name, q) \<in> set (weight_map index)" by force
    then show "(name, path) \<in> set (weight_map index)" using found t by fastforce
  qed
  finally show ?thesis .
qed

end
