(* ===== verification/MW_Safetensors.thy ===== *)
theory MW_Safetensors
  imports MW_Json MW_Gguf
begin

text \<open>
  checkpoint.rs: blocked reads of source files and the bounded safetensors parser. The header is
  read in blocks, visited under the limits, and its entries are accepted only when they tile the
  data section of the file.
\<close>

section \<open>Blocked reads\<close>

definition SOURCE_READ_BLOCK_BYTES :: nat where
  "SOURCE_READ_BLOCK_BYTES = 1024 * 1024"

text \<open>The blocks of \<open>chunks_mut(SOURCE_READ_BLOCK_BYTES)\<close> of a buffer of \<open>n\<close> bytes.\<close>

definition block_count :: "nat \<Rightarrow> nat" where
  "block_count n = (n + SOURCE_READ_BLOCK_BYTES - 1) div SOURCE_READ_BLOCK_BYTES"

definition read_block :: "File \<Rightarrow> nat \<Rightarrow> nat \<Rightarrow> nat \<Rightarrow> u8 list \<Rightarrow> u8 list exec" where
  "read_block file start n i bytes =
     bindE check (\<lambda>_.
     bindE (liftE (ok_or ResourceLimit (checked_mul i SOURCE_READ_BLOCK_BYTES))) (\<lambda>relative.
     bindE (liftE (u64_try_from relative)) (\<lambda>relative.
     bindE (liftE (ok_or ResourceLimit (checked_add start relative))) (\<lambda>offset.
     bindE (liftE (read_exact_at file offset (min SOURCE_READ_BLOCK_BYTES (n - i * SOURCE_READ_BLOCK_BYTES)))) (\<lambda>block.
       retE (bytes @ block))))))"

definition read_blocks :: "File \<Rightarrow> nat \<Rightarrow> nat \<Rightarrow> u8 list exec" where
  "read_blocks file start n = foldE (read_block file start n) [0..<block_count n] []"

section \<open>The header\<close>

record SafetensorsRaw =
  st_dtype :: string
  st_shape :: "nat list"
  st_offsets :: "nat \<times> nat"

type_synonym RawHeader = "(string, SafetensorsRaw) btree"

text \<open>\<open>ShapeVisitor\<close>.\<close>

fun shape_elements :: "ResourceLimits \<Rightarrow> json list \<Rightarrow> bool \<Rightarrow> nat list \<Rightarrow> nat list exec" where
  "shape_elements limits [] closed shape = bindE check (\<lambda>_. container_end closed shape)"
| "shape_elements limits (v # vs) closed shape =
     bindE check (\<lambda>_.
     case v of JU64 d \<Rightarrow>
       if length shape \<ge> max_rank limits then json_limit else shape_elements limits vs closed (shape @ [d])
     | _ \<Rightarrow> json_error)"

definition shape_seed :: "ResourceLimits \<Rightarrow> json \<Rightarrow> nat list exec" where
  "shape_seed limits v = bindE check (\<lambda>_.
     case v of JArray vs closed \<Rightarrow> shape_elements limits vs closed [] | _ \<Rightarrow> json_error)"

text \<open>\<open>next_value::<[u64; 2]>\<close>.\<close>

definition offsets_value :: "json \<Rightarrow> (nat \<times> nat) exec" where
  "offsets_value v = (case v of JArray [JU64 a, JU64 b] True \<Rightarrow> retE (a, b) | _ \<Rightarrow> json_error)"

text \<open>\<open>RawTensorVisitor\<close> with the fields found so far.\<close>

fun tensor_fields ::
    "ResourceLimits \<Rightarrow> (string \<times> json) list \<Rightarrow> bool \<Rightarrow> string option \<Rightarrow> nat list option \<Rightarrow> (nat \<times> nat) option
       \<Rightarrow> SafetensorsRaw exec" where
  "tensor_fields limits [] closed dt shape offsets =
     bindE check (\<lambda>_. bindE (container_end closed ()) (\<lambda>_.
       case (dt, shape, offsets) of
         (Some d, Some s, Some p) \<Rightarrow> retE \<lparr>st_dtype = d, st_shape = s, st_offsets = p\<rparr>
       | _ \<Rightarrow> json_error))"
| "tensor_fields limits ((k, v) # es) closed dt shape offsets =
     bindE check (\<lambda>_.
     if k = ''dtype'' then bindE check (\<lambda>_.
       if dt \<noteq> None then json_error
       else bindE (string_seed (max_name_bytes limits) False v) (\<lambda>d. tensor_fields limits es closed (Some d) shape offsets))
     else if k = ''shape'' then bindE check (\<lambda>_.
       if shape \<noteq> None then json_error
       else bindE (shape_seed limits v) (\<lambda>s. tensor_fields limits es closed dt (Some s) offsets))
     else if k = ''data_offsets'' then bindE check (\<lambda>_.
       if offsets \<noteq> None then json_error
       else bindE (offsets_value v) (\<lambda>p. tensor_fields limits es closed dt shape (Some p)))
     else json_error)"

definition tensor_seed :: "ResourceLimits \<Rightarrow> json \<Rightarrow> SafetensorsRaw exec" where
  "tensor_seed limits v = bindE check (\<lambda>_.
     case v of JObject es closed \<Rightarrow> tensor_fields limits es closed None None None | _ \<Rightarrow> json_error)"

text \<open>\<open>MetadataVisitor\<close>: only the total length of keys and values is kept.\<close>

fun metadata_entries :: "ResourceLimits \<Rightarrow> (string \<times> json) list \<Rightarrow> bool \<Rightarrow> string set \<Rightarrow> nat \<Rightarrow> nat exec" where
  "metadata_entries limits [] closed seen bytes = bindE check (\<lambda>_. container_end closed bytes)"
| "metadata_entries limits ((k, v) # es) closed seen bytes =
     bindE check (\<lambda>_.
     bindE (string_seed (max_metadata_bytes limits - bytes) False (JString k)) (\<lambda>key.
     if key \<in> seen then json_error else
     let bytes = bytes + length key in
     bindE (string_seed (max_metadata_bytes limits - bytes) False v) (\<lambda>text.
       metadata_entries limits es closed (insert key seen) (bytes + length text))))"

definition metadata_seed :: "ResourceLimits \<Rightarrow> json \<Rightarrow> nat exec" where
  "metadata_seed limits v = bindE check (\<lambda>_.
     case v of JObject es closed \<Rightarrow> metadata_entries limits es closed {} 0 | _ \<Rightarrow> json_error)"

text \<open>\<open>HeaderVisitor\<close>.\<close>

definition METADATA_KEY :: string where "METADATA_KEY = ''__metadata__''"

fun header_entries :: "ResourceLimits \<Rightarrow> (string \<times> json) list \<Rightarrow> bool \<Rightarrow> bool \<Rightarrow> RawHeader \<Rightarrow> RawHeader exec" where
  "header_entries limits [] closed seen_metadata tensors = bindE check (\<lambda>_. container_end closed tensors)"
| "header_entries limits ((k, v) # es) closed seen_metadata tensors =
     bindE check (\<lambda>_.
     bindE (string_seed (max (max_name_bytes limits) (length METADATA_KEY)) True (JString k)) (\<lambda>name.
     bindE check (\<lambda>_.
     if name = METADATA_KEY then
       if seen_metadata then json_error
       else bindE (metadata_seed limits v) (\<lambda>_. header_entries limits es closed True tensors)
     else if length name > max_name_bytes limits then json_limit
     else if map_of tensors name \<noteq> None then json_error
     else if length tensors \<ge> max_tensors limits then json_limit
     else bindE (tensor_seed limits v) (\<lambda>raw. header_entries limits es closed seen_metadata (btree_insert name raw tensors)))))"

definition deserialize_header_json :: "serde \<Rightarrow> ResourceLimits \<Rightarrow> u8 list \<Rightarrow> RawHeader exec" where
  "deserialize_header_json serde limits bytes =
     (case serde bytes of (v, clean) \<Rightarrow>
     bindE (bindE check (\<lambda>_. case v of JObject es closed \<Rightarrow> header_entries limits es closed False [] | _ \<Rightarrow> json_error)) (\<lambda>header.
     bindE check (\<lambda>_.
     bindE (if clean then retE () else json_error) (\<lambda>_.
     bindE check (\<lambda>_.
       retE header)))))"

definition parse_header_json :: "serde \<Rightarrow> ResourceLimits \<Rightarrow> u8 list \<Rightarrow> RawHeader exec" where
  "parse_header_json serde limits bytes =
     bindE check (\<lambda>_.
     bindE (liftE (ensure (\<not> (bytes = [] \<or> hd bytes \<noteq> of_char CHR 0x7B)) InvalidFormat)) (\<lambda>_.
       deserialize_header_json serde limits bytes))"

section \<open>Tensor entries\<close>

datatype HeaderDtype = HeaderPlain DType | HeaderQuantized string nat nat

definition header_dtypes :: "(string \<times> HeaderDtype) list" where
  "header_dtypes =
     [(''BOOL'', HeaderPlain Bool),
      (''F4'', HeaderQuantized ''f4'' 2 1),
      (''F6_E2M3'', HeaderQuantized ''f6-e2m3'' 4 3),
      (''F6_E3M2'', HeaderQuantized ''f6-e3m2'' 4 3),
      (''U8'', HeaderPlain U8), (''I8'', HeaderPlain I8), (''U16'', HeaderPlain U16), (''I16'', HeaderPlain I16),
      (''U32'', HeaderPlain U32), (''I32'', HeaderPlain I32), (''U64'', HeaderPlain U64), (''I64'', HeaderPlain I64),
      (''F16'', HeaderPlain F16), (''BF16'', HeaderPlain Bf16), (''F32'', HeaderPlain F32), (''F64'', HeaderPlain F64),
      (''C64'', HeaderPlain C64), (''F8_E5M2'', HeaderPlain F8E5M2), (''F8_E4M3'', HeaderPlain F8E4M3),
      (''F8_E8M0'', HeaderPlain F8E8M0), (''F8_E4M3FNUZ'', HeaderPlain F8E4M3Fnuz), (''F8_E5M2FNUZ'', HeaderPlain F8E5M2Fnuz)]"

definition parse_dtype :: "string \<Rightarrow> HeaderDtype result" where
  "parse_dtype value = ok_or Unsupported (map_of header_dtypes value)"

definition header_byte_len :: "HeaderDtype \<Rightarrow> nat list \<Rightarrow> nat result" where
  "header_byte_len dt shape = (case dt of
     HeaderPlain d \<Rightarrow> DType_byte_len d shape
   | HeaderQuantized _ values_per bytes_per \<Rightarrow>
       bindR (foldR (\<lambda>d product. ok_or ResourceLimit (checked_mul product d)) shape 1) (\<lambda>elements.
       if elements = 0 then Inr 0 else
       bindR (ensure (\<not> elements mod values_per \<noteq> 0) InvalidFormat) (\<lambda>_.
         ok_or ResourceLimit (checked_mul (elements div values_per) bytes_per))))"

definition into_storage :: "HeaderDtype \<Rightarrow> nat list \<Rightarrow> SourceSpan \<Rightarrow> Storage result" where
  "into_storage dt shape span = (case dt of
     HeaderPlain d \<Rightarrow> Inr (Plain d span)
   | HeaderQuantized operation values_per bytes_per \<Rightarrow>
       bindR (StableName_parse ''safetensors'') (\<lambda>p.
       bindR (StableName_parse operation) (\<lambda>op.
       let encoding = ImplementationId_new p op 1 in
       bindR (flat_blocks values_per bytes_per) (\<lambda>packing.
       bindR (QuantizedStorage_new encoding shape span packing) (\<lambda>q.
         Inr (Quantized q))))))"

record HeaderEntry =
  entry_name :: string
  entry_shape :: "nat list"
  entry_dtype :: HeaderDtype
  entry_start :: nat
  entry_end :: nat

definition entry_key :: "HeaderEntry \<Rightarrow> nat list list" where
  "entry_key e = [[entry_start e], [entry_end e], text_key (entry_name e)]"

definition header_entry :: "nat \<Rightarrow> ResourceLimits \<Rightarrow> string \<times> SafetensorsRaw \<Rightarrow> HeaderEntry exec" where
  "header_entry data_length limits p =
     (let tensor = snd p; (start, end) = st_offsets tensor in
     bindE check (\<lambda>_.
     bindE (liftE (ensure (\<not> length (st_shape tensor) > max_rank limits) ResourceLimit)) (\<lambda>_.
     bindE (liftE (parse_dtype (st_dtype tensor))) (\<lambda>dt.
     bindE (liftE (ensure (\<not> (start > end \<or> end > data_length)) InvalidFormat)) (\<lambda>_.
     bindE (liftE (header_byte_len dt (st_shape tensor))) (\<lambda>expected.
     bindE (liftE (ensure (\<not> end - start \<noteq> expected) InvalidFormat)) (\<lambda>_.
       retE \<lparr>entry_name = fst p, entry_shape = st_shape tensor, entry_dtype = dt, entry_start = start, entry_end = end\<rparr>)))))))"

definition cursor_step :: "HeaderEntry \<Rightarrow> nat \<Rightarrow> nat exec" where
  "cursor_step e cursor =
     bindE check (\<lambda>_.
     bindE (liftE (ensure (\<not> entry_start e \<noteq> cursor) InvalidFormat)) (\<lambda>_.
       retE (entry_end e)))"

definition entry_record :: "FileId \<Rightarrow> nat \<Rightarrow> HeaderEntry \<Rightarrow> TensorRecord exec" where
  "entry_record file data_base e =
     bindE check (\<lambda>_.
     bindE (liftE (ok_or ResourceLimit (checked_add data_base (entry_start e)))) (\<lambda>offset.
     bindE (liftE (SourceSpan_new file offset (entry_end e - entry_start e))) (\<lambda>span.
     bindE (liftE (into_storage (entry_dtype e) (entry_shape e) span)) (\<lambda>storage.
       retE \<lparr>tensor_name = entry_name e, tensor_shape = entry_shape e, tensor_storage = storage\<rparr>))))"

definition validate_tensor_entries ::
    "FileId \<Rightarrow> nat \<Rightarrow> nat \<Rightarrow> RawHeader \<Rightarrow> ResourceLimits \<Rightarrow> TensorRecord list exec" where
  "validate_tensor_entries file data_base data_length raw limits =
     bindE (mapE (header_entry data_length limits) raw) (\<lambda>entries.
     let entries = sort_key entry_key entries in
     bindE (foldE cursor_step entries 0) (\<lambda>cursor.
     bindE (liftE (ensure (\<not> cursor \<noteq> data_length) InvalidFormat)) (\<lambda>_.
     bindE (mapE (entry_record file data_base) entries) (\<lambda>records.
     bindE check (\<lambda>_.
       retE records)))))"

definition parse_safetensors_header ::
    "serde \<Rightarrow> File \<Rightarrow> FileId \<Rightarrow> nat \<Rightarrow> ResourceLimits \<Rightarrow> TensorRecord list exec" where
  "parse_safetensors_header serde file fid file_size limits =
     bindE (liftE (ensure (\<not> file_size < 8) InvalidFormat)) (\<lambda>_.
     bindE (liftE (read_exact_at file 0 8)) (\<lambda>prefix.
     let header_len = le_nat prefix in
     bindE (liftE (ensure (\<not> (header_len = 0 \<or> header_len > max_header_bytes limits)) ResourceLimit)) (\<lambda>_.
     bindE (liftE (ok_or ResourceLimit (checked_add 8 header_len))) (\<lambda>data_base.
     bindE (liftE (ensure (\<not> data_base > file_size) InvalidFormat)) (\<lambda>_.
     bindE (liftE (usize_try_from header_len)) (\<lambda>header_size.
     bindE (try_reserve header_size) (\<lambda>_.
     bindE (read_blocks file 8 header_size) (\<lambda>header.
     bindE check (\<lambda>_.
     bindE (parse_header_json serde limits header) (\<lambda>raw.
     bindE check (\<lambda>_.
       validate_tensor_entries fid data_base (file_size - data_base) raw limits)))))))))))"

end
