(* ===== verification/MW_SafetensorsFormat.thy ===== *)
theory MW_SafetensorsFormat
  imports MW_Safetensors
begin

text \<open>
  What every accepted safetensors header satisfies, whatever its bytes: names, ranks and counts are
  within the limits, and the records are exactly the described tensors and tile the data section.
\<close>

section \<open>Results of the visitors\<close>

lemma shape_elements_rank:
  "shape_elements limits vs closed shape e = Inr (s, e') \<Longrightarrow> length shape \<le> max_rank limits \<Longrightarrow> length s \<le> max_rank limits"
  by (induction limits vs closed shape arbitrary: e rule: shape_elements.induct)
    (auto simp: bindE_Inr container_end_Inr split: json.splits if_splits)

lemma shape_seed_rank: "shape_seed limits v e = Inr (s, e') \<Longrightarrow> length s \<le> max_rank limits"
  by (auto simp: shape_seed_def bindE_Inr split: json.splits dest: shape_elements_rank)

lemma tensor_fields_rank:
  "tensor_fields limits es closed dt shape offsets e = Inr (raw, e') \<Longrightarrow> \<forall>s. shape = Some s \<longrightarrow> length s \<le> max_rank limits
   \<Longrightarrow> length (st_shape raw) \<le> max_rank limits"
proof (induction es arbitrary: dt shape offsets e)
  case Nil
  then show ?case by (auto simp: bindE_Inr container_end_Inr split: option.splits)
next
  case (Cons p es)
  obtain k v where p: "p = (k, v)" by (cases p)
  consider d e1 where "tensor_fields limits es closed (Some d) shape offsets e1 = Inr (raw, e')"
    | s e0 e1 where "shape_seed limits v e0 = Inr (s, e1)" "tensor_fields limits es closed dt (Some s) offsets e1 = Inr (raw, e')"
    | q e1 where "tensor_fields limits es closed dt shape (Some q) e1 = Inr (raw, e')"
    using Cons.prems(1) unfolding p tensor_fields.simps by (auto simp: bindE_Inr split: if_splits)
  then show ?case
  proof cases
    case 1
    then show ?thesis using Cons.IH Cons.prems(2) by blast
  next
    case 2
    then show ?thesis using Cons.IH[OF 2(2)] shape_seed_rank[OF 2(1)] by simp
  next
    case 3
    then show ?thesis using Cons.IH Cons.prems(2) by blast
  qed
qed

lemma tensor_seed_rank: "tensor_seed limits v e = Inr (raw, e') \<Longrightarrow> length (st_shape raw) \<le> max_rank limits"
  by (auto simp: tensor_seed_def bindE_Inr split: json.splits dest: tensor_fields_rank)

section \<open>Headers\<close>

definition header_ok :: "ResourceLimits \<Rightarrow> RawHeader \<Rightarrow> bool" where
  "header_ok limits h \<longleftrightarrow> increasing h \<and> length h \<le> max_tensors limits
     \<and> (\<forall>p \<in> set h. fst p \<noteq> [] \<and> length (fst p) \<le> max_name_bytes limits \<and> fst p \<noteq> METADATA_KEY
         \<and> length (st_shape (snd p)) \<le> max_rank limits)"

lemma header_ok_insert:
  assumes "header_ok limits h" and "map_of h name = None" and "length h < max_tensors limits"
    and "name \<noteq> []" "length name \<le> max_name_bytes limits" "name \<noteq> METADATA_KEY" "length (st_shape raw) \<le> max_rank limits"
  shows "header_ok limits (btree_insert name raw h)"
  using assms length_btree_insert_new[of h name raw] by (auto simp: header_ok_def increasing_btree_insert)

lemma header_entries_ok:
  "header_entries limits es closed seen h e = Inr (h', e') \<Longrightarrow> header_ok limits h \<Longrightarrow> header_ok limits h'"
proof (induction es arbitrary: seen h e)
  case Nil
  then show ?case by (auto simp: bindE_Inr container_end_Inr)
next
  case (Cons p es)
  obtain k v where p: "p = (k, v)" by (cases p)
  from Cons.prems(1) obtain name e0 e1 e2 where key: "string_seed (max (max_name_bytes limits) (length METADATA_KEY)) True (JString k) e0 = Inr (name, e1)"
    and rest: "(if name = METADATA_KEY then
       if seen then json_error
       else bindE (metadata_seed limits v) (\<lambda>_. header_entries limits es closed True h)
     else if length name > max_name_bytes limits then json_limit
     else if map_of h name \<noteq> None then json_error
     else if length h \<ge> max_tensors limits then json_limit
     else bindE (tensor_seed limits v) (\<lambda>raw. header_entries limits es closed seen (btree_insert name raw h))) e2 = Inr (h', e')"
    unfolding p header_entries.simps bindE_Inr by blast
  have ne: "name \<noteq> []" using string_seed_Inr[OF key] by simp
  show ?case
  proof (cases "name = METADATA_KEY")
    case True
    with rest obtain e3 where "\<not> seen" "header_entries limits es closed True h e3 = Inr (h', e')"
      by (auto simp: bindE_Inr split: if_splits)
    then show ?thesis using Cons.IH Cons.prems(2) by blast
  next
    case False
    with rest obtain raw e3 where r: "length name \<le> max_name_bytes limits" "map_of h name = None" "length h < max_tensors limits"
      "tensor_seed limits v e2 = Inr (raw, e3)" "header_entries limits es closed seen (btree_insert name raw h) e3 = Inr (h', e')"
      by (auto simp: bindE_Inr not_less not_le split: if_splits)
    have "header_ok limits (btree_insert name raw h)"
      by (rule header_ok_insert[OF Cons.prems(2) r(2,3) ne r(1) False tensor_seed_rank[OF r(4)]])
    then show ?thesis using Cons.IH r(5) by blast
  qed
qed

lemma parse_header_ok:
  assumes "parse_header_json serde limits bytes e = Inr (h, e')"
  shows "header_ok limits h"
proof -
  have "header_ok limits []" by (simp add: header_ok_def increasing_def)
  then show ?thesis using assms header_entries_ok
    by (auto simp: parse_header_json_def deserialize_header_json_def bindE_Inr split: prod.splits json.splits if_splits)
qed

section \<open>Tiling\<close>

text \<open>Consecutive tensors of one file cover the bytes from \<open>base\<close> to \<open>last\<close> without gap or overlap.\<close>

fun tiled :: "FileId \<Rightarrow> nat \<Rightarrow> nat \<Rightarrow> TensorRecord list \<Rightarrow> bool" where
  "tiled file base stop [] \<longleftrightarrow> base = stop"
| "tiled file base stop (r # rs) \<longleftrightarrow> span_file (storage_span (tensor_storage r)) = file
     \<and> span_offset (storage_span (tensor_storage r)) = base
     \<and> tiled file (base + span_length (storage_span (tensor_storage r))) stop rs"

text \<open>A record is what its header entry says, with exactly the bytes its dtype and shape need.\<close>

definition described_by :: "RawHeader \<Rightarrow> TensorRecord \<Rightarrow> bool" where
  "described_by h r \<longleftrightarrow> (\<exists>raw dt. map_of h (tensor_name r) = Some raw \<and> tensor_shape r = st_shape raw
     \<and> parse_dtype (st_dtype raw) = Inr dt
     \<and> header_byte_len dt (tensor_shape r) = Inr (span_length (storage_span (tensor_storage r)))
     \<and> into_storage dt (tensor_shape r) (storage_span (tensor_storage r)) = Inr (tensor_storage r))"

lemma into_storage_span: "into_storage dt shape span = Inr st \<Longrightarrow> storage_span st = span"
  by (auto simp: into_storage_def storage_span_def bindR_Inr Let_def QuantizedStorage_new_def builder_build_quantized_def
      QuantizedStorage_builder_def split: HeaderDtype.splits)

definition entry_good :: "RawHeader \<Rightarrow> HeaderEntry \<Rightarrow> bool" where
  "entry_good h e \<longleftrightarrow> (\<exists>raw. (entry_name e, raw) \<in> set h \<and> entry_shape e = st_shape raw \<and> parse_dtype (st_dtype raw) = Inr (entry_dtype e)
     \<and> entry_start e \<le> entry_end e \<and> header_byte_len (entry_dtype e) (entry_shape e) = Inr (entry_end e - entry_start e))"

lemma header_entry_good:
  "header_entry n limits p e1 = Inr (x, e2) \<Longrightarrow> p \<in> set h \<Longrightarrow> entry_name x = fst p \<and> entry_good h x"
  by (cases p) (auto simp: header_entry_def entry_good_def bindE_Inr liftE_Inr Let_def split: prod.splits)

lemma entry_record_Inr:
  assumes "entry_record file base x e1 = Inr (r, e2)"
  shows "tensor_name r = entry_name x" "tensor_shape r = entry_shape x"
    "storage_span (tensor_storage r) = \<lparr>span_file = file, span_offset = base + entry_start x, span_length = entry_end x - entry_start x\<rparr>"
    "into_storage (entry_dtype x) (entry_shape x) (storage_span (tensor_storage r)) = Inr (tensor_storage r)"
  using assms into_storage_span
  by (auto simp: entry_record_def bindE_Inr liftE_Inr checked_Some SourceSpan_new_def bindR_Inr)

lemma cursor_loop:
  "foldE cursor_step
     xs start e = Inr (stop, e') \<Longrightarrow> \<forall>x \<in> set xs. entry_start x \<le> entry_end x
   \<Longrightarrow> list_all2 (\<lambda>x r. \<exists>e1 e2. entry_record file base x e1 = Inr (r, e2)) xs rs \<Longrightarrow> tiled file (base + start) (base + stop) rs"
proof (induction xs arbitrary: start e rs)
  case Nil
  then show ?case by simp
next
  case (Cons x xs)
  obtain r rs' where rs: "rs = r # rs'" and r: "\<exists>e1 e2. entry_record file base x e1 = Inr (r, e2)"
    and rest: "list_all2 (\<lambda>x r. \<exists>e1 e2. entry_record file base x e1 = Inr (r, e2)) xs rs'"
    using Cons.prems(3) by (auto simp: list_all2_Cons1)
  obtain e1 where start: "entry_start x = start"
    and run: "foldE cursor_step
     xs (entry_end x) e1 = Inr (stop, e')"
    using Cons.prems(1) by (auto simp: bindE_Inr liftE_Inr cursor_step_def[of x])
  have "tiled file (base + entry_end x) (base + stop) rs'" by (rule Cons.IH[OF run _ rest]) (use Cons.prems(2) in simp)
  moreover have "entry_start x \<le> entry_end x" using Cons.prems(2) by simp
  moreover obtain e2 e3 where "entry_record file base x e2 = Inr (r, e3)" using r by blast
  note span = entry_record_Inr(3)[OF this]
  ultimately show ?case using start by (simp add: rs span)
qed

lemma validate_tensor_entries_sound:
  assumes v: "validate_tensor_entries file base n h limits e = Inr (rs, e')" and inc: "increasing h"
  shows "tiled file base (base + n) rs \<and> mset (map tensor_name rs) = mset (map fst h) \<and> (\<forall>r \<in> set rs. described_by h r)"
proof -
  obtain xs e1 e2 e3 e4 where xs: "mapE (header_entry n limits) h e = Inr (xs, e1)"
    and cursor: "foldE cursor_step
      (sort_key entry_key xs) 0 e1 = Inr (n, e2)"
    and rs: "mapE (entry_record file base) (sort_key entry_key xs) e3 = Inr (rs, e4)"
    using v by (auto simp: validate_tensor_entries_def bindE_Inr liftE_Inr Let_def)
  have "list_all2 (\<lambda>p x. \<exists>e1 e2. header_entry n limits p e1 = Inr (x, e2)) h xs" using mapE_Inr[OF xs] .
  then have "list_all2 (\<lambda>p x. entry_name x = fst p \<and> entry_good h x) h xs"
    using header_entry_good by (fastforce elim!: list.rel_mono_strong)
  then have names: "map entry_name xs = map fst h" and good: "\<forall>x \<in> set xs. entry_good h x"
    by (auto simp: list_all2_conv_all_nth in_set_conv_nth intro!: nth_equalityI)
  have recs: "list_all2 (\<lambda>x r. \<exists>e1 e2. entry_record file base x e1 = Inr (r, e2)) (sort_key entry_key xs) rs" using mapE_Inr[OF rs] .
  have "tiled file (base + 0) (base + n) rs"
    by (rule cursor_loop[OF cursor _ recs]) (use good in \<open>auto simp: entry_good_def\<close>)
  moreover have "list_all2 (\<lambda>x r. entry_name x = tensor_name r) (sort_key entry_key xs) rs"
    using recs by (rule list.rel_mono_strong) (auto dest: entry_record_Inr(1))
  then have "map tensor_name rs = map entry_name (sort_key entry_key xs)"
    unfolding list.rel_eq[symmetric] list.rel_map by (simp add: list_all2_conv_all_nth)
  then have "mset (map tensor_name rs) = mset (map fst h)" by (simp add: names[symmetric])
  moreover have "described_by h r" if "r \<in> set rs" for r
  proof -
    obtain x e1 e2 where x: "x \<in> set xs" "entry_record file base x e1 = Inr (r, e2)"
    proof -
      obtain i where i: "i < length rs" "rs ! i = r" using \<open>r \<in> set rs\<close> by (auto simp: in_set_conv_nth)
      have "sort_key entry_key xs ! i \<in> set xs" using i(1) list_all2_lengthD[OF recs] nth_mem[of i "sort_key entry_key xs"] by simp
      moreover have "\<exists>e1 e2. entry_record file base (sort_key entry_key xs ! i) e1 = Inr (r, e2)"
        using list_all2_nthD2[OF recs i(1)] i(2) by simp
      ultimately show ?thesis using that by blast
    qed
    obtain raw where "(entry_name x, raw) \<in> set h" "entry_shape x = st_shape raw" "parse_dtype (st_dtype raw) = Inr (entry_dtype x)"
      "header_byte_len (entry_dtype x) (entry_shape x) = Inr (entry_end x - entry_start x)"
      using good x(1) unfolding entry_good_def by blast
    moreover from this have "map_of h (entry_name x) = Some raw" using increasing_distinct[OF inc] by simp
    ultimately show ?thesis using entry_record_Inr[OF x(2)] unfolding described_by_def by auto
  qed
  ultimately show ?thesis by simp
qed

text \<open>What the parser promises of every accepted file.\<close>

lemma parse_safetensors_sound:
  assumes "parse_safetensors_header serde file fid file_size limits e = Inr (rs, e')"
  shows "\<exists>base h. 8 < base \<and> base \<le> file_size \<and> base - 8 \<le> max_header_bytes limits \<and> header_ok limits h
    \<and> tiled fid base file_size rs \<and> mset (map tensor_name rs) = mset (map fst h) \<and> (\<forall>r \<in> set rs. described_by h r)"
proof -
  obtain n h e1 e2 e3 where n: "0 < n" "n \<le> max_header_bytes limits" "8 + n \<le> file_size"
    and h: "\<exists>bytes. parse_header_json serde limits bytes e1 = Inr (h, e2)"
    and rs: "validate_tensor_entries fid (8 + n) (file_size - (8 + n)) h limits e3 = Inr (rs, e')"
    using assms by (auto simp: parse_safetensors_header_def bindE_Inr liftE_Inr Let_def checked_Some not_less not_le) blast
  have ok: "header_ok limits h" using h parse_header_ok by blast
  have "tiled fid (8 + n) file_size rs \<and> mset (map tensor_name rs) = mset (map fst h) \<and> (\<forall>r \<in> set rs. described_by h r)"
    using validate_tensor_entries_sound[OF rs] ok n(3) by (simp add: header_ok_def)
  then show ?thesis using n ok by (intro exI[of _ "8 + n"] exI[of _ h]) simp
qed

end
