(* ===== verification/MW_Checkpoint.thy ===== *)
theory MW_Checkpoint
  imports MW_SafetensorsFormat
begin

text \<open>
  checkpoint.rs: opening source files, building a checkpoint with its inventory, reading and mapping
  spans, digests and snapshots. The operating system is a parameter: what opening, inspecting, reading and
  mapping a file return. Locks are not contended; a poisoned lock is not modelled. The slot that keeps
  a map only avoids mapping twice, so it is represented by the name of the owner all its views share.
\<close>

section \<open>The operating system\<close>

record FileStamp =
  stamp_length :: nat
  stamp_modified :: "nat option"

text \<open>\<open>handle_metadata\<close>: whether the file is regular, and its stamp; \<open>handle_restamp\<close> is what a later inspection finds.\<close>

record OsFile =
  handle_read :: File
  handle_metadata :: "(bool \<times> FileStamp) result"
  handle_restamp :: "FileStamp result"
  handle_map :: "u8 list result"

type_synonym os = "SourceDescriptor \<Rightarrow> OsFile result"

section \<open>Opened files\<close>

datatype AccessMode = Auto | Read | Mmap

datatype CheckpointFormat = Safetensors | Gguf

record OpenFile =
  of_source :: SourceDescriptor
  of_id :: FileId
  of_handle :: OsFile
  of_size :: nat
  of_stamp :: FileStamp
  of_digest :: "ContentDigest option"
  of_map_owner :: nat

definition OpenFile_open :: "os \<Rightarrow> SourceDescriptor \<Rightarrow> FileId \<Rightarrow> OpenFile exec" where
  "OpenFile_open os source fid =
     bindE (liftE (os source)) (\<lambda>h.
     bindE (liftE (handle_metadata h)) (\<lambda>(regular, stamp).
     bindE (liftE (ensure (\<not> \<not> regular) InvalidFormat)) (\<lambda>_.
     let len = stamp_length stamp in
     bindE (liftE (ensure (\<not> (case expected_size source of None \<Rightarrow> False | Some expected \<Rightarrow> expected \<noteq> len)) Integrity)) (\<lambda>_.
     bindE fresh_owner (\<lambda>n.
       retE \<lparr>of_source = source, of_id = fid, of_handle = h, of_size = len, of_stamp = stamp, of_digest = None,
         of_map_owner = Suc n\<rparr>)))))"

definition OpenFile_record :: "OpenFile \<Rightarrow> FileRecord" where
  "OpenFile_record f = \<lparr>file_id = of_id f, file_path = logical_path (of_source f), file_bytes = of_size f,
     file_kind = source_kind (of_source f), file_digest = DigestState_from (digest_policy (of_source f))\<rparr>"

text \<open>\<open>Path::file_name\<close> and \<open>Path::extension\<close> on Unix paths.\<close>

definition path_file_name :: "string \<Rightarrow> string option" where
  "path_file_name path = (case rev (filter (\<lambda>c. c \<noteq> [] \<and> c \<noteq> ''.'') (split_char CHR ''/'' path)) of
     [] \<Rightarrow> None | c # _ \<Rightarrow> if c = ''..'' then None else Some c)"

definition path_extension :: "string \<Rightarrow> string option" where
  "path_extension path = (case path_file_name path of None \<Rightarrow> None | Some name \<Rightarrow>
     (case rev (split_char CHR ''.'' name) of
        extension # stem # parts \<Rightarrow> if stem = [] \<and> parts = [] then None else Some extension
      | _ \<Rightarrow> None))"

definition ascii_lower :: "char \<Rightarrow> char" where
  "ascii_lower c = (let n = (of_char c :: nat) in if 65 \<le> n \<and> n \<le> 90 then char_of (n + 32) else c)"

record ParsedSource =
  ps_format :: CheckpointFormat
  ps_metadata :: "GgufMetadata option"
  ps_tensors :: "TensorRecord list"

definition parse_source :: "serde \<Rightarrow> ResourceLimits \<Rightarrow> OpenFile \<Rightarrow> ParsedSource exec" where
  "parse_source serde limits f =
     bindE check (\<lambda>_.
     bindE (liftE (ensure (\<not> of_size f < 4) InvalidFormat)) (\<lambda>_.
     bindE (liftE (read_exact_at (handle_read (of_handle f)) 0 4)) (\<lambda>magic.
     let gguf_extension = (case path_extension (local_path (of_source f)) of None \<Rightarrow> False
       | Some extension \<Rightarrow> map ascii_lower extension = ''gguf'') in
     if magic = GGUF_MAGIC then
       bindE (gguf_parse (handle_read (of_handle f)) (of_id f) (of_size f) limits) (\<lambda>parsed.
         retE \<lparr>ps_format = Gguf, ps_metadata = Some (parsed_metadata parsed), ps_tensors = parsed_tensors parsed\<rparr>)
     else if gguf_extension then liftE (Inl InvalidFormat)
     else
       bindE (parse_safetensors_header serde (handle_read (of_handle f)) (of_id f) (of_size f) limits) (\<lambda>tensors.
         retE \<lparr>ps_format = Safetensors, ps_metadata = None, ps_tensors = tensors\<rparr>))))"

section \<open>Reading spans\<close>

definition read_owned :: "OpenFile \<Rightarrow> SourceSpan \<Rightarrow> ByteView exec" where
  "read_owned f span =
     bindE (liftE (usize_try_from (span_length span))) (\<lambda>len.
     bindE (try_reserve len) (\<lambda>_.
     bindE (read_blocks (handle_read (of_handle f)) (span_offset span) len) (\<lambda>bytes.
     bindE check (\<lambda>_.
       from_boxed bytes))))"

text \<open>The argument \<open>mmap\<close> says whether the crate is built with the feature.\<close>

definition read_mapped :: "bool \<Rightarrow> OpenFile \<Rightarrow> SourceSpan \<Rightarrow> ByteView result" where
  "read_mapped mmap f span =
     (if \<not> mmap then Inl Unsupported else
     bindR (ensure (\<not> source_kind (of_source f) \<noteq> RetainedSnapshot) Unsupported) (\<lambda>_.
     bindR (ensure (retention (of_source f)) Integrity) (\<lambda>_.
     bindR (handle_map (of_handle f)) (\<lambda>bytes.
     bindR (usize_try_from (span_offset span)) (\<lambda>start.
     bindR (usize_try_from (span_end span)) (\<lambda>end.
       from_owner (of_map_owner f) bytes start end))))))"

definition OpenFile_read_span :: "bool \<Rightarrow> OpenFile \<Rightarrow> SourceSpan \<Rightarrow> AccessMode \<Rightarrow> ByteView exec" where
  "OpenFile_read_span mmap f span access =
     bindE (liftE (ensure (\<not> (span_file span \<noteq> of_id f \<or> span_end span > of_size f)) InvalidFormat)) (\<lambda>_.
     case access of
       Read \<Rightarrow> read_owned f span
     | Mmap \<Rightarrow> liftE (read_mapped mmap f span)
     | Auto \<Rightarrow>
         if source_kind (of_source f) = Local then read_owned f span
         else (case read_mapped mmap f span of
             Inr v \<Rightarrow> retE v
           | Inl e \<Rightarrow> if e = Io \<or> e = Unsupported then read_owned f span else liftE (Inl e)))"

section \<open>Digests of files\<close>

definition needs_hashing :: "OpenFile \<Rightarrow> bool exec" where
  "needs_hashing f =
     (case digest_policy (of_source f) of TrustExternal _ \<Rightarrow> retE False | TrustRetained _ \<Rightarrow> retE False
      | _ \<Rightarrow> bindE check (\<lambda>_. retE (of_digest f = None)))"

text \<open>The loop reads blocks until the recorded size is reached; the hasher receives their concatenation.\<close>

definition HASH_BUFFER_BYTES :: nat where
  "HASH_BUFFER_BYTES = 1024 * 1024"

function hash_loop :: "File \<Rightarrow> nat \<Rightarrow> nat \<Rightarrow> u8 list \<Rightarrow> u8 list exec" where
  "hash_loop file len offset hashed =
     (if offset < len then
       bindE check (\<lambda>_.
       let amount = min (len - offset) HASH_BUFFER_BYTES in
       bindE (liftE (read_exact_at file offset amount)) (\<lambda>block.
       bindE (liftE (ok_or ResourceLimit (checked_add offset amount))) (\<lambda>next_offset.
         hash_loop file len next_offset (hashed @ block))))
      else retE hashed)"
  by pat_completeness auto
termination
  by (relation "measure (\<lambda>(_, len, offset, _). len - offset)")
    (auto simp: liftE_Inr checked_Some HASH_BUFFER_BYTES_def)

declare hash_loop.simps [simp del]

definition content_digest :: "(u8 list \<Rightarrow> ContentDigest) \<Rightarrow> OpenFile \<Rightarrow> (ContentDigest \<times> OpenFile) exec" where
  "content_digest sha256 f =
     bindE check (\<lambda>_.
     case of_digest f of Some digest \<Rightarrow> retE (digest, f) | None \<Rightarrow>
     (case digest_policy (of_source f) of
        TrustExternal digest \<Rightarrow> retE (digest, f\<lparr>of_digest := Some digest\<rparr>)
      | TrustRetained digest \<Rightarrow> retE (digest, f\<lparr>of_digest := Some digest\<rparr>)
      | policy \<Rightarrow>
        bindE (hash_loop (handle_read (of_handle f)) (of_size f) 0 []) (\<lambda>hashed.
        bindE check (\<lambda>_.
        bindE (liftE (handle_restamp (of_handle f))) (\<lambda>stamp.
        bindE (liftE (ensure (\<not> stamp \<noteq> of_stamp f) Integrity)) (\<lambda>_.
        let digest = sha256 hashed in
        bindE (liftE (case policy of VerifyOnDemand expected \<Rightarrow> ensure (\<not> digest \<noteq> expected) Integrity | _ \<Rightarrow> Inr ())) (\<lambda>_.
          retE (digest, f\<lparr>of_digest := Some digest\<rparr>))))))))"

section \<open>Checkpoints\<close>

record Checkpoint =
  ck_inventory :: Inventory
  ck_files :: "OpenFile list"
  ck_access :: AccessMode
  ck_format :: CheckpointFormat
  ck_gguf_metadata :: "GgufMetadata list"
  ck_snapshot :: "ContentDigest option"

definition Checkpoint_gguf_metadata :: "Checkpoint \<Rightarrow> GgufMetadata option" where
  "Checkpoint_gguf_metadata c = (case ck_gguf_metadata c of [] \<Rightarrow> None | m # _ \<Rightarrow> Some m)"

record CheckpointBuilder =
  cb_sources :: "SourceDescriptor list"
  cb_index :: "ShardIndex option"
  cb_limits :: ResourceLimits
  cb_access :: AccessMode

definition CheckpointBuilder_from_sources :: "SourceDescriptor list \<Rightarrow> CheckpointBuilder" where
  "CheckpointBuilder_from_sources sources =
     \<lparr>cb_sources = sources, cb_index = None, cb_limits = ResourceLimits_default, cb_access = Auto\<rparr>"

definition CheckpointBuilder_new :: "SourceDescriptor \<Rightarrow> CheckpointBuilder" where
  "CheckpointBuilder_new source = CheckpointBuilder_from_sources [source]"

text \<open>The setters \<open>shard_index\<close>, \<open>limits\<close> and \<open>access_mode\<close>.\<close>

definition with_shard_index :: "ShardIndex \<Rightarrow> CheckpointBuilder \<Rightarrow> CheckpointBuilder" where
  "with_shard_index index b = b\<lparr>cb_index := Some index\<rparr>"

definition with_limits :: "ResourceLimits \<Rightarrow> CheckpointBuilder \<Rightarrow> CheckpointBuilder" where
  "with_limits limits b = b\<lparr>cb_limits := limits\<rparr>"

definition with_access_mode :: "AccessMode \<Rightarrow> CheckpointBuilder \<Rightarrow> CheckpointBuilder" where
  "with_access_mode access b = b\<lparr>cb_access := access\<rparr>"

text \<open>What the loop over the sources has collected.\<close>

record opened_sources =
  op_files :: "OpenFile list"
  op_records :: "FileRecord list"
  op_tensors :: "TensorRecord list"
  op_format :: "CheckpointFormat option"
  op_metadata :: "GgufMetadata list"

definition open_step ::
    "os \<Rightarrow> serde \<Rightarrow> ResourceLimits \<Rightarrow> nat \<times> SourceDescriptor \<Rightarrow> opened_sources \<Rightarrow> opened_sources exec" where
  "open_step os serde limits p st =
     bindE check (\<lambda>_.
     bindE (liftE (u32_try_from (fst p))) (\<lambda>ordinal.
     bindE (OpenFile_open os (snd p) ordinal) (\<lambda>f.
     bindE (parse_source serde limits f) (\<lambda>parsed.
     bindE (liftE (ensure (\<not> (case op_format st of None \<Rightarrow> False | Some current \<Rightarrow> current \<noteq> ps_format parsed)) InvalidFormat)) (\<lambda>_.
     bindE (liftE (ok_or ResourceLimit (checked_sub (max_tensors limits) (length (op_tensors st))))) (\<lambda>remaining.
     bindE (liftE (ensure (\<not> length (ps_tensors parsed) > remaining) ResourceLimit)) (\<lambda>_.
       retE \<lparr>op_files = op_files st @ [f], op_records = op_records st @ [OpenFile_record f],
         op_tensors = op_tensors st @ ps_tensors parsed, op_format = Some (ps_format parsed),
         op_metadata = op_metadata st @ (case ps_metadata parsed of None \<Rightarrow> [] | Some m \<Rightarrow> [m])\<rparr>)))))))"

definition CheckpointBuilder_open :: "os \<Rightarrow> serde \<Rightarrow> CheckpointBuilder \<Rightarrow> Checkpoint exec" where
  "CheckpointBuilder_open os serde b =
     bindE check (\<lambda>_.
     bindE (liftE (ensure (cb_sources b \<noteq> []) InvalidFormat)) (\<lambda>_.
     bindE (liftE (ensure (\<not> length (cb_sources b) > max_shards (cb_limits b)) ResourceLimit)) (\<lambda>_.
     bindE (liftE (ensure (\<not> (cb_access b = Mmap \<and> list_ex (\<lambda>s. source_kind s \<noteq> RetainedSnapshot) (cb_sources b))) Unsupported)) (\<lambda>_.
     let sources = sort_key logical_path (cb_sources b) in
     bindE (liftE (ensure (\<not> any_window2 (\<lambda>x y. logical_path x = logical_path y) sources) InvalidFormat)) (\<lambda>_.
     bindE (foldE (open_step os serde (cb_limits b)) (enumerate 0 sources)
         \<lparr>op_files = [], op_records = [], op_tensors = [], op_format = None, op_metadata = []\<rparr>) (\<lambda>st.
     bindE check (\<lambda>_.
     bindE (liftE (Inventory_new (op_records st) (op_tensors st))) (\<lambda>inventory.
     bindE (case cb_index b of None \<Rightarrow> retE () | Some index \<Rightarrow>
         bindE (liftE (ensure (\<not> op_format st = Some Gguf) InvalidFormat)) (\<lambda>_. validate_shard_index index inventory)) (\<lambda>_.
     bindE check (\<lambda>_.
       retE \<lparr>ck_inventory = inventory, ck_files = op_files st, ck_access = cb_access b,
         ck_format = (case op_format st of None \<Rightarrow> Safetensors | Some current \<Rightarrow> current),
         ck_gguf_metadata = op_metadata st, ck_snapshot = None\<rparr>))))))))))"

definition Checkpoint_open_source :: "os \<Rightarrow> serde \<Rightarrow> SourceDescriptor \<Rightarrow> Checkpoint exec" where
  "Checkpoint_open_source os serde source = CheckpointBuilder_open os serde (CheckpointBuilder_new source)"

definition read_span_with_cancellation :: "bool \<Rightarrow> Checkpoint \<Rightarrow> SourceSpan \<Rightarrow> ByteView exec" where
  "read_span_with_cancellation mmap c span =
     bindE check (\<lambda>_.
     bindE (liftE (usize_try_from (span_file span))) (\<lambda>file_index.
     bindE (liftE (ok_or InvalidFormat (if file_index < length (ck_files c) then Some (ck_files c ! file_index) else None))) (\<lambda>f.
     bindE (OpenFile_read_span mmap f span (ck_access c)) (\<lambda>v.
     bindE check (\<lambda>_.
       retE v)))))"

datatype TensorData =
    PlainTensor string DType "nat list" ByteView
  | QuantizedTensor string Storage "nat list" ByteView

definition data_name :: "TensorData \<Rightarrow> string" where
  "data_name d = (case d of PlainTensor n _ _ _ \<Rightarrow> n | QuantizedTensor n _ _ _ \<Rightarrow> n)"

definition data_shape :: "TensorData \<Rightarrow> nat list" where
  "data_shape d = (case d of PlainTensor _ _ s _ \<Rightarrow> s | QuantizedTensor _ _ s _ \<Rightarrow> s)"

definition tensor_bytes :: "TensorData \<Rightarrow> ByteView" where
  "tensor_bytes d = (case d of PlainTensor _ _ _ v \<Rightarrow> v | QuantizedTensor _ _ _ v \<Rightarrow> v)"

definition tensor_with_cancellation :: "bool \<Rightarrow> Checkpoint \<Rightarrow> string \<Rightarrow> TensorData exec" where
  "tensor_with_cancellation mmap c name =
     bindE (liftE (ok_or Binding (Inventory_tensor (ck_inventory c) name))) (\<lambda>r.
     bindE (read_span_with_cancellation mmap c (storage_span (tensor_storage r))) (\<lambda>bytes.
       retE (case tensor_storage r of
         Plain dt _ \<Rightarrow> PlainTensor (tensor_name r) dt (tensor_shape r) bytes
       | Quantized q \<Rightarrow> QuantizedTensor (tensor_name r) (tensor_storage r) (tensor_shape r) bytes)))"

text \<open>Digests are computed in file order; the updated files keep them.\<close>

definition digest_files :: "(u8 list \<Rightarrow> ContentDigest) \<Rightarrow> OpenFile list \<Rightarrow> (ContentDigest \<times> OpenFile) list exec" where
  "digest_files sha256 files = mapE (content_digest sha256) files"

definition source_digests_of :: "(u8 list \<Rightarrow> ContentDigest) \<Rightarrow> Checkpoint \<Rightarrow> (ContentDigest list \<times> Checkpoint) exec" where
  "source_digests_of sha256 c =
     bindE (digest_files sha256 (ck_files c)) (\<lambda>ps.
       retE (map fst ps, c\<lparr>ck_files := map snd ps\<rparr>))"

definition pending_digest_bytes :: "Checkpoint \<Rightarrow> nat exec" where
  "pending_digest_bytes c =
     foldE (\<lambda>f total. bindE (needs_hashing f) (\<lambda>needed.
       if needed then liftE (ok_or ResourceLimit (checked_add total (of_size f))) else retE total)) (ck_files c) 0"

text \<open>One step of the snapshot envelope: path, size and digest of a file, with a length prefix.\<close>

definition snapshot_step ::
    "(u8 list \<Rightarrow> ContentDigest) \<Rightarrow> FileRecord \<times> OpenFile \<Rightarrow> u8 list \<times> OpenFile list \<Rightarrow> (u8 list \<times> OpenFile list) exec" where
  "snapshot_step sha256 p st =
     bindE check (\<lambda>_.
     bindE (content_digest sha256 (snd p)) (\<lambda>(digest, f).
     let path = map of_char (file_path (fst p)) in
     bindE (liftE (u64_try_from (length path))) (\<lambda>path_len.
     bindE (liftE (ok_or ResourceLimit (checked_add (length path) (8 + 8 + 32)))) (\<lambda>additional.
     bindE (try_reserve additional) (\<lambda>_.
       retE (fst st @ le_bytes 8 path_len @ path @ le_bytes 8 (file_bytes (fst p)) @ digest, snd st @ [f]))))))"

definition snapshot_id :: "(u8 list \<Rightarrow> ContentDigest) \<Rightarrow> Checkpoint \<Rightarrow> (ContentDigest \<times> Checkpoint) exec" where
  "snapshot_id sha256 c =
     (case ck_snapshot c of Some snapshot \<Rightarrow> retE (snapshot, c) | None \<Rightarrow>
     bindE (foldE (snapshot_step sha256) (zip (inventory_files (ck_inventory c)) (ck_files c))
         (map of_char ''model-weights-snapshot-v1'' @ [0], [])) (\<lambda>(identity, files).
     let snapshot = ContentDigest_hash sha256 (map of_char ''snapshot-envelope-v1'') [identity] in
       retE (snapshot, c\<lparr>ck_files := files, ck_snapshot := Some snapshot\<rparr>)))"

end
