(* ===== verification/MW_CheckpointRead.thy ===== *)
theory MW_CheckpointRead
  imports MW_Checkpoint
begin

text \<open>
  What an opened checkpoint delivers. Blocked reads return exactly the requested bytes of a file that is
  not modified; the open loop keeps files, records and tensors in step with the sorted sources; hence
  every tensor of the inventory is read as the bytes its span names, whatever the access mode.
\<close>

section \<open>Blocked reads\<close>

text \<open>The blocks of the loop are consecutive, so the buffer is filled from the left.\<close>

definition block_prefix :: "u8 list \<Rightarrow> nat \<Rightarrow> nat \<Rightarrow> nat \<Rightarrow> u8 list" where
  "block_prefix contents start n i = take (min n (i * SOURCE_READ_BLOCK_BYTES)) (drop start contents)"

lemma block_count_iff: "i < block_count n \<longleftrightarrow> i * SOURCE_READ_BLOCK_BYTES < n"
proof -
  have pos: "0 < SOURCE_READ_BLOCK_BYTES" by (simp add: SOURCE_READ_BLOCK_BYTES_def)
  have "i < block_count n \<longleftrightarrow> Suc i * SOURCE_READ_BLOCK_BYTES \<le> n + SOURCE_READ_BLOCK_BYTES - 1"
    unfolding block_count_def less_eq_Suc_le by (rule less_eq_div_iff_mult_less_eq[OF pos])
  also have "\<dots> \<longleftrightarrow> i * SOURCE_READ_BLOCK_BYTES < n" using pos by auto
  finally show ?thesis .
qed

lemmas block_count_inside = block_count_iff[THEN iffD1]

lemma block_count_covers: "n \<le> block_count n * SOURCE_READ_BLOCK_BYTES"
  using block_count_iff[of "block_count n" n] by simp

lemma read_block_delivers:
  assumes r: "reads file contents" and len: "length contents < usize_bound" and fits: "start + n \<le> length contents"
    and i: "i < block_count n" and got: "got = block_prefix contents start n i"
  shows "delivers (read_block file start n i got) (\<lambda>s. s = block_prefix contents start n (Suc i))"
proof -
  let ?B = SOURCE_READ_BLOCK_BYTES
  let ?k = "min ?B (n - i * ?B)"
  have below: "i * ?B < n" by (rule block_count_inside[OF i])
  have bounds: "i * ?B < usize_bound" "start + i * ?B < u64_bound" "i * ?B < u64_bound"
    using below fits len by (auto simp: usize_bound_def u64_bound_def)
  have "read_exact_at file (start + i * ?B) ?k = Inr (take ?k (drop (start + i * ?B) contents))"
    by (rule read_exact_at_reads[OF r]) (use fits below len in \<open>auto simp: usize_bound_def u64_bound_def\<close>)
  moreover have "got @ take ?k (drop (start + i * ?B) contents) = block_prefix contents start n (Suc i)"
  proof -
    have "got = take (i * ?B) (drop start contents)" using below by (simp add: got block_prefix_def min_absorb2)
    moreover have "min n (Suc i * ?B) = i * ?B + ?k" using below by simp
    ultimately show ?thesis by (simp add: block_prefix_def take_add add.commute)
  qed
  ultimately show ?thesis
    unfolding read_block_def using bounds
    by (intro delivers_after) (simp add: checked_mul_def checked_add_def u64_try_from_def usize_is_u64 delivers_retE del: retE_apply)
qed

lemma read_blocks_delivers:
  assumes "reads file contents" and "length contents < usize_bound" and "start + n \<le> length contents"
  shows "delivers (read_blocks file start n) (\<lambda>b. b = take n (drop start contents))"
proof -
  have "delivers (read_blocks file start n) (\<lambda>b. b = block_prefix contents start n (block_count n))"
    unfolding read_blocks_def
    by (rule delivers_for) (simp_all add: block_prefix_def[of _ _ _ 0] read_block_delivers[OF assms])
  then show ?thesis using block_count_covers[of n] by (simp add: block_prefix_def min_absorb1)
qed

section \<open>Reading a span\<close>

text \<open>
  What the operating system documents for a regular file that is not modified while it is open: reads
  return its bytes, its length is theirs, and a map that succeeds shows them.
\<close>

definition serves :: "OsFile \<Rightarrow> u8 list \<Rightarrow> bool" where
  "serves h contents \<longleftrightarrow> reads (handle_read h) contents \<and> length contents < usize_bound
     \<and> (\<exists>stamp. handle_metadata h = Inr (True, stamp) \<and> stamp_length stamp = length contents)
     \<and> (case handle_map h of Inr bytes \<Rightarrow> bytes = contents | Inl e \<Rightarrow> e = Io)"

text \<open>An opened file, and the conditions under which it can be mapped.\<close>

definition opened :: "os \<Rightarrow> OpenFile \<Rightarrow> bool" where
  "opened os f \<longleftrightarrow> os (of_source f) = Inr (of_handle f) \<and> handle_metadata (of_handle f) = Inr (True, of_stamp f)
     \<and> of_size f = stamp_length (of_stamp f) \<and> of_digest f = None"

definition mappable :: "bool \<Rightarrow> OpenFile \<Rightarrow> bool" where
  "mappable mmap f \<longleftrightarrow> mmap \<and> source_kind (of_source f) = RetainedSnapshot \<and> (\<exists>bytes. handle_map (of_handle f) = Inr bytes)"

definition slice_of :: "SourceSpan \<Rightarrow> u8 list \<Rightarrow> u8 list" where
  "slice_of span contents = take (span_length span) (drop (span_offset span) contents)"

lemma liftE_retE: "liftE (Inr x) = retE x"
  by (rule ext) simp

lemma read_owned_delivers:
  assumes "reads (handle_read (of_handle f)) contents" and "length contents < usize_bound"
    and "span_offset span + span_length span \<le> length contents"
  shows "delivers (read_owned f span) (\<lambda>v. as_slice v = slice_of span contents \<and> wf_view v)"
proof -
  have "usize_try_from (span_length span) = Inr (span_length span)" using assms(2,3) by (simp add: try_from_Inr)
  moreover have "min (length contents - span_offset span) (span_length span) = span_length span" using assms(3) by simp
  ultimately show ?thesis
    unfolding read_owned_def
    by (simp only: liftE_bind, intro delivers_after)
      (rule delivers_bindE[OF read_blocks_delivers[OF assms]],
       auto simp: from_boxed_def as_slice_def slice_of_def wf_view_def simp del: retE_apply
         intro!: delivers_after delivers_bindE[OF delivers_fresh_owner[of "\<lambda>_. True"]] delivers_retE
         intro: le_less_trans[OF _ assms(2)])
qed

lemma read_mapped_Inr:
  assumes "serves (of_handle f) contents" and "read_mapped mmap f span = Inr v"
    and "span_offset span + span_length span \<le> length contents"
  shows "as_slice v = slice_of span contents \<and> wf_view v"
proof -
  have "length contents < u64_bound" using assms(1) by (simp add: serves_def usize_is_u64)
  then have "span_end span = span_offset span + span_length span" using assms(3) by (simp add: span_end_def)
  then show ?thesis
    using assms by (auto simp: read_mapped_def serves_def bindR_Inr try_from_Inr from_owner_def as_slice_def slice_of_def wf_view_def
      split: if_splits sum.splits)
qed

lemma read_mapped_Inl:
  assumes "serves (of_handle f) contents" and "source_kind (of_source f) = RetainedSnapshot \<longrightarrow> retention (of_source f)"
    and "span_offset span + span_length span \<le> length contents" and "read_mapped mmap f span = Inl e"
  shows "(e = Io \<or> e = Unsupported) \<and> \<not> mappable mmap f"
proof -
  have len: "length contents < usize_bound" using assms(1) by (simp add: serves_def)
  then have e: "span_end span = span_offset span + span_length span" using assms(3) by (simp add: span_end_def usize_is_u64)
  have conv: "usize_try_from (span_offset span) = Inr (span_offset span)" "usize_try_from (span_end span) = Inr (span_end span)"
    using assms(3) len by (simp_all add: e try_from_Inr)
  show ?thesis
    using assms conv e by (cases "source_kind (of_source f) = RetainedSnapshot") (auto simp: read_mapped_def serves_def mappable_def from_owner_def split: if_splits sum.splits)
qed

lemma OpenFile_read_span_delivers:
  assumes f: "opened os f" and s: "serves (of_handle f) contents" and fid: "span_file span = of_id f"
    and fits: "span_offset span + span_length span \<le> of_size f"
    and guard: "source_kind (of_source f) = RetainedSnapshot \<longrightarrow> retention (of_source f)"
    and mode: "access = Mmap \<longrightarrow> mappable mmap f"
  shows "delivers (OpenFile_read_span mmap f span access) (\<lambda>v. as_slice v = slice_of span contents \<and> wf_view v)"
proof -
  have size: "of_size f = length contents" and r: "reads (handle_read (of_handle f)) contents" and len: "length contents < usize_bound"
    using f s by (auto simp: opened_def serves_def)
  have inside: "span_offset span + span_length span \<le> length contents" using fits size by simp
  have "\<not> span_end span > of_size f" using inside len size by (simp add: span_end_def usize_is_u64)
  then have "OpenFile_read_span mmap f span access = (case access of Read \<Rightarrow> read_owned f span
     | Mmap \<Rightarrow> liftE (read_mapped mmap f span)
     | Auto \<Rightarrow> if source_kind (of_source f) = Local then read_owned f span
         else (case read_mapped mmap f span of Inr v \<Rightarrow> retE v
           | Inl e \<Rightarrow> if e = Io \<or> e = Unsupported then read_owned f span else liftE (Inl e)))"
    using fid by (simp add: OpenFile_read_span_def)
  moreover note owned = read_owned_delivers[OF r len inside]
  moreover have "delivers (retE v) (\<lambda>v. as_slice v = slice_of span contents \<and> wf_view v)" if "read_mapped mmap f span = Inr v" for v
    by (rule delivers_retE) (rule read_mapped_Inr[OF s that inside])
  moreover have "(e = Io \<or> e = Unsupported) \<and> access \<noteq> Mmap" if "read_mapped mmap f span = Inl e" for e
    using read_mapped_Inl[OF s guard inside that] mode by blast
  ultimately show ?thesis
    by (cases access; cases "read_mapped mmap f span") (auto simp: liftE_retE simp del: retE_apply)
qed

section \<open>Opening\<close>

text \<open>Every tensor of an accepted source lies in that source.\<close>

definition lies_in :: "OpenFile \<Rightarrow> TensorRecord \<Rightarrow> bool" where
  "lies_in f t \<longleftrightarrow> (let span = storage_span (tensor_storage t) in
     span_file span = of_id f \<and> span_offset span + span_length span \<le> of_size f)"

lemma tiled_le: "tiled fid base stop rs \<Longrightarrow> base \<le> stop"
  by (induction rs arbitrary: base) force+

lemma tiled_inside:
  "tiled fid base stop rs \<Longrightarrow> r \<in> set rs \<Longrightarrow> span_file (storage_span (tensor_storage r)) = fid
     \<and> span_offset (storage_span (tensor_storage r)) + span_length (storage_span (tensor_storage r)) \<le> stop"
  by (induction rs arbitrary: base) (auto dest: tiled_le)

lemma describes_inside:
  assumes "list_all2 (describes file file_size data_base alignment) raws rs" and "r \<in> set rs"
  shows "span_file (storage_span (tensor_storage r)) = file
     \<and> span_offset (storage_span (tensor_storage r)) + span_length (storage_span (tensor_storage r)) \<le> file_size"
proof -
  obtain raw where "describes file file_size data_base alignment raw r"
    using assms by (metis in_set_conv_nth list_all2_conv_all_nth)
  then show ?thesis by (auto simp: describes_def)
qed

lemma parse_source_inside:
  assumes "parse_source serde limits f e = Inr (p, e')" and t: "t \<in> set (ps_tensors p)"
  shows "lies_in f t"
proof -
  consider (gguf) parsed e1 e2 where "gguf_parse (handle_read (of_handle f)) (of_id f) (of_size f) limits e1 = Inr (parsed, e2)"
      "ps_tensors p = parsed_tensors parsed"
    | (safetensors) e1 e2 where
      "parse_safetensors_header serde (handle_read (of_handle f)) (of_id f) (of_size f) limits e1 = Inr (ps_tensors p, e2)"
    using assms(1) by (auto simp: parse_source_def bindE_Inr liftE_Inr Let_def split: if_splits)
  then show ?thesis
  proof cases
    case gguf
    then obtain data_base alignment raws e3 e4 where
      "build_tensor_records (of_id f) (of_size f) data_base alignment raws e3 = Inr (ps_tensors p, e4)"
      by (auto simp: gguf_parse_def bindE_Inr liftE_Inr split: prod.splits)
    then show ?thesis using build_tensor_records_Inr describes_inside[OF _ t] unfolding lies_in_def Let_def by blast
  next
    case safetensors
    then show ?thesis using parse_safetensors_sound[OF safetensors] tiled_inside[OF _ t] unfolding lies_in_def Let_def by blast
  qed
qed

lemma OpenFile_open_Inr:
  assumes "OpenFile_open os source fid e = Inr (f, e')"
  shows "opened os f \<and> of_source f = source \<and> of_id f = fid"
  using assms by (auto simp: OpenFile_open_def opened_def bindE_Inr liftE_Inr Let_def split: prod.splits)

text \<open>The loop over the sources: files, records and tensors grow in step.\<close>

definition in_step :: "os \<Rightarrow> SourceDescriptor list \<Rightarrow> opened_sources \<Rightarrow> bool" where
  "in_step os sources st \<longleftrightarrow> map of_source (op_files st) = sources \<and> map of_id (op_files st) = [0..<length sources]
     \<and> (\<forall>f \<in> set (op_files st). opened os f) \<and> op_records st = map OpenFile_record (op_files st)
     \<and> (\<forall>t \<in> set (op_tensors st). \<exists>f \<in> set (op_files st). lies_in f t) \<and> length sources \<le> u32_bound"

lemma open_step_in_step:
  assumes "open_step os serde limits (length done_sources, source) st e = Inr (st', e')" and "in_step os done_sources st"
  shows "in_step os (done_sources @ [source]) st'"
proof -
  obtain f parsed e1 e2 e3 where few: "length done_sources < u32_bound" and f: "OpenFile_open os source (length done_sources) e1 = Inr (f, e2)"
    and parsed: "parse_source serde limits f e2 = Inr (parsed, e3)"
    and files: "op_files st' = op_files st @ [f]" and records: "op_records st' = op_records st @ [OpenFile_record f]"
    and tensors: "op_tensors st' = op_tensors st @ ps_tensors parsed"
    using assms(1) by (auto simp: open_step_def bindE_Inr liftE_Inr try_from_Inr)
  note f = OpenFile_open_Inr[OF f]
  have "\<forall>t \<in> set (ps_tensors parsed). lies_in f t" using parse_source_inside[OF parsed] by blast
  then show ?thesis using assms(2) f few by (auto simp: in_step_def files records tensors)
qed

lemma open_loop_in_step:
  "foldE (open_step os serde limits) (enumerate (length done_sources) sources) st e = Inr (st', e') \<Longrightarrow> in_step os done_sources st
     \<Longrightarrow> in_step os (done_sources @ sources) st'"
proof (induction sources arbitrary: done_sources st e)
  case Nil
  then show ?case by simp
next
  case (Cons source sources)
  obtain st1 e1 where step: "open_step os serde limits (length done_sources, source) st e = Inr (st1, e1)"
    and rest: "foldE (open_step os serde limits) (enumerate (length (done_sources @ [source])) sources) st1 e1 = Inr (st', e')"
    using Cons.prems(1) by (auto simp: bindE_Inr)
  show ?case using Cons.IH[OF rest open_step_in_step[OF step Cons.prems(2)]] by simp
qed

text \<open>What opening promises of every accepted checkpoint.\<close>

definition wf_checkpoint :: "os \<Rightarrow> CheckpointBuilder \<Rightarrow> Checkpoint \<Rightarrow> bool" where
  "wf_checkpoint os b c \<longleftrightarrow> map of_source (ck_files c) = sort_key logical_path (cb_sources b)
     \<and> map of_id (ck_files c) = [0..<length (cb_sources b)] \<and> (\<forall>f \<in> set (ck_files c). opened os f)
     \<and> inventory_files (ck_inventory c) = map OpenFile_record (ck_files c) \<and> wf_inventory (ck_inventory c)
     \<and> (\<forall>t \<in> set (inventory_tensors (ck_inventory c)). \<exists>f \<in> set (ck_files c). lies_in f t)
     \<and> ck_access c = cb_access b \<and> ck_snapshot c = None \<and> distinct (map logical_path (cb_sources b))
     \<and> (cb_access b = Mmap \<longrightarrow> (\<forall>s \<in> set (cb_sources b). source_kind s = RetainedSnapshot))
     \<and> length (cb_sources b) \<le> max_shards (cb_limits b) \<and> length (cb_sources b) \<le> u32_bound"

lemma CheckpointBuilder_open_wf:
  assumes "CheckpointBuilder_open os serde b e = Inr (c, e')"
  shows "wf_checkpoint os b c"
proof -
  let ?sources = "sort_key logical_path (cb_sources b)"
  let ?start = "\<lparr>op_files = [], op_records = [], op_tensors = [], op_format = None, op_metadata = []\<rparr>"
  obtain st e1 e2 where shards: "length (cb_sources b) \<le> max_shards (cb_limits b)"
    and mode: "\<not> (cb_access b = Mmap \<and> list_ex (\<lambda>s. source_kind s \<noteq> RetainedSnapshot) (cb_sources b))"
    and paths: "\<not> any_window2 (\<lambda>x y. logical_path x = logical_path y) ?sources"
    and loop: "foldE (open_step os serde (cb_limits b)) (enumerate (length ([] :: SourceDescriptor list)) ?sources) ?start e1 = Inr (st, e2)"
    and invt: "Inventory_new (op_records st) (op_tensors st) = Inr (ck_inventory c)"
    and c: "ck_files c = op_files st" "ck_access c = cb_access b" "ck_snapshot c = None"
    using assms by (auto simp: CheckpointBuilder_open_def bindE_Inr liftE_Inr Let_def not_less)
  have "in_step os [] ?start" by (simp add: in_step_def)
  from open_loop_in_step[OF loop this] have "in_step os ?sources st" by simp
  moreover note Inventory_new_Inr[OF invt]
  moreover have "distinct (map logical_path ?sources)" using paths window_duplicates[of logical_path ?sources] by simp
  then have "distinct (map logical_path (cb_sources b))"
    using mset_eq_imp_distinct_iff[of "map logical_path ?sources" "map logical_path (cb_sources b)"] by simp
  ultimately show ?thesis using shards mode c by (auto simp: wf_checkpoint_def in_step_def list_ex_iff)
qed

section \<open>Reading a tensor\<close>

text \<open>The data delivered for a record: its description, and the bytes its span names in the source file.\<close>

definition delivered_as :: "TensorRecord \<Rightarrow> u8 list \<Rightarrow> TensorData \<Rightarrow> bool" where
  "delivered_as r contents d \<longleftrightarrow> as_slice (tensor_bytes d) = slice_of (storage_span (tensor_storage r)) contents \<and> wf_view (tensor_bytes d)
     \<and> d = (case tensor_storage r of
         Plain dt _ \<Rightarrow> PlainTensor (tensor_name r) dt (tensor_shape r) (tensor_bytes d)
       | Quantized _ \<Rightarrow> QuantizedTensor (tensor_name r) (tensor_storage r) (tensor_shape r) (tensor_bytes d))"

definition file_contents :: "(SourceDescriptor \<Rightarrow> u8 list) \<Rightarrow> Checkpoint \<Rightarrow> FileId \<Rightarrow> u8 list" where
  "file_contents contents c fid = contents (of_source (ck_files c ! fid))"

text \<open>The sources as the constructors of source.rs build them, on a system that serves their contents.\<close>

definition faithful :: "os \<Rightarrow> bool \<Rightarrow> (SourceDescriptor \<Rightarrow> u8 list) \<Rightarrow> CheckpointBuilder \<Rightarrow> bool" where
  "faithful os mmap contents b \<longleftrightarrow> (\<forall>s \<in> set (cb_sources b). (source_kind s = RetainedSnapshot \<longrightarrow> retention s)
     \<and> (\<forall>h. os s = Inr h \<longrightarrow> serves h (contents s) \<and> (cb_access b = Mmap \<longrightarrow> mmap \<and> (\<exists>bytes. handle_map h = Inr bytes))))"

lemma wf_checkpoint_file:
  assumes wf: "wf_checkpoint os b c" and os: "faithful os mmap contents b" and f: "f \<in> set (ck_files c)"
  shows "serves (of_handle f) (contents (of_source f))" and "opened os f" and "of_id f < length (ck_files c)"
    and "ck_files c ! of_id f = f" and "source_kind (of_source f) = RetainedSnapshot \<longrightarrow> retention (of_source f)"
    and "ck_access c = Mmap \<longrightarrow> mappable mmap f"
proof -
  have "of_source f \<in> set (map of_source (ck_files c))" using f by simp
  then have src: "of_source f \<in> set (cb_sources b)" using wf by (simp add: wf_checkpoint_def del: set_map)
  show op: "opened os f" using wf f by (simp add: wf_checkpoint_def)
  then have handle: "os (of_source f) = Inr (of_handle f)" by (simp add: opened_def)
  show "serves (of_handle f) (contents (of_source f))" "source_kind (of_source f) = RetainedSnapshot \<longrightarrow> retention (of_source f)"
    using os src handle by (auto simp: faithful_def)
  show "ck_access c = Mmap \<longrightarrow> mappable mmap f"
    using os src handle wf by (auto simp: faithful_def mappable_def wf_checkpoint_def)
  obtain i where i: "i < length (ck_files c)" "ck_files c ! i = f" using f by (auto simp: in_set_conv_nth)
  have ids: "map of_id (ck_files c) = [0..<length (cb_sources b)]" using wf by (simp add: wf_checkpoint_def)
  then have "length (ck_files c) = length (cb_sources b)" by (metis length_map length_upt minus_nat.diff_0)
  then have "map of_id (ck_files c) ! i = i" using i(1) by (simp add: ids)
  then have "of_id f = i" using i by simp
  then show "of_id f < length (ck_files c)" "ck_files c ! of_id f = f" using i by simp_all
qed

lemma wf_checkpoint_count:
  assumes "wf_checkpoint os b c"
  shows "length (ck_files c) = length (cb_sources b)" and "length (ck_files c) \<le> usize_bound"
proof -
  show "length (ck_files c) = length (cb_sources b)" using assms unfolding wf_checkpoint_def by (metis length_map length_sort)
  then show "length (ck_files c) \<le> usize_bound" using assms by (simp add: wf_checkpoint_def u32_bound_def usize_bound_def)
qed

lemma read_span_delivers:
  assumes wf: "wf_checkpoint os b c" and os: "faithful os mmap contents b" and f: "f \<in> set (ck_files c)"
    and span: "span_file span = of_id f" "span_offset span + span_length span \<le> of_size f"
  shows "delivers (read_span_with_cancellation mmap c span)
    (\<lambda>v. as_slice v = slice_of span (file_contents contents c (span_file span)) \<and> wf_view v)"
proof -
  note known = wf_checkpoint_file[OF wf os f]
  have "usize_try_from (of_id f) = Inr (of_id f)" using known(3) wf_checkpoint_count[OF wf] by (simp add: try_from_Inr)
  moreover have "delivers (OpenFile_read_span mmap f span (ck_access c))
      (\<lambda>v. as_slice v = slice_of span (file_contents contents c (span_file span)) \<and> wf_view v)"
    unfolding file_contents_def span(1) known(4)
    by (rule OpenFile_read_span_delivers[OF known(2,1) span known(5,6)])
  ultimately show ?thesis
    unfolding read_span_with_cancellation_def span(1)
    using known(3,4)
    by (intro delivers_after) (simp add: span del: retE_apply, rule delivers_bindE, assumption, rule delivers_after, rule delivers_retE)
qed

lemma tensor_delivers:
  assumes wf: "wf_checkpoint os b c" and os: "faithful os mmap contents b" and r: "Inventory_tensor (ck_inventory c) name = Some r"
  shows "delivers (tensor_with_cancellation mmap c name)
    (delivered_as r (file_contents contents c (span_file (storage_span (tensor_storage r)))))"
proof -
  let ?span = "storage_span (tensor_storage r)"
  have sorted: "sorted_wrt (<) (map tensor_name (inventory_tensors (ck_inventory c)))" using wf by (simp add: wf_checkpoint_def wf_inventory_def)
  have "r \<in> set (inventory_tensors (ck_inventory c))"
    using r unfolding Inventory_tensor_def map_option_eq_Some binary_search_sorted[OF sorted] by auto
  then obtain f where f: "f \<in> set (ck_files c)" "lies_in f r" using wf by (auto simp: wf_checkpoint_def)
  then have span: "span_file ?span = of_id f" "span_offset ?span + span_length ?span \<le> of_size f" by (simp_all add: lies_in_def Let_def)
  have made: "delivered_as r cs (case tensor_storage r of Plain dt _ \<Rightarrow> PlainTensor (tensor_name r) dt (tensor_shape r) v
       | Quantized q \<Rightarrow> QuantizedTensor (tensor_name r) (tensor_storage r) (tensor_shape r) v)"
    if "as_slice v = slice_of ?span cs \<and> wf_view v" for v cs
    using that by (cases "tensor_storage r") (simp_all add: delivered_as_def tensor_bytes_def)
  show ?thesis
    unfolding tensor_with_cancellation_def r ok_or_simps liftE_bind
    by (rule delivers_bindE[OF read_span_delivers[OF wf os f(1) span]]) (rule delivers_retE, erule made)
qed

end
