(* ===== verification/MW_CheckpointData.thy ===== *)
theory MW_CheckpointData
  imports MW_CheckpointRead
begin

text \<open>
  From bytes to tensors and digests: the tensors of a safetensors file are read from its own header and
  cover its data section without gap or overlap, and the digest of a source is the hash of its whole
  contents or the digest its descriptor declares.
\<close>

section \<open>Safetensors files\<close>

lemma tiled_concat:
  "tiled fid base stop rs \<Longrightarrow> stop \<le> length contents
   \<Longrightarrow> concat (map (\<lambda>r. slice_of (storage_span (tensor_storage r)) contents) rs) = take (stop - base) (drop base contents)"
proof (induction rs arbitrary: base)
  case Nil
  then show ?case by simp
next
  case (Cons r rs)
  let ?n = "span_length (storage_span (tensor_storage r))"
  have rest: "tiled fid (base + ?n) stop rs" and start: "span_offset (storage_span (tensor_storage r)) = base" using Cons.prems(1) by simp_all
  have split: "stop - base = ?n + (stop - (base + ?n))" using tiled_le[OF rest] by simp
  show ?case
    using Cons.IH[OF rest Cons.prems(2)] by (simp add: split take_add slice_of_def start add.commute)
qed

text \<open>The header that is visited is the one the file holds.\<close>

lemma parse_safetensors_exact:
  assumes r: "reads file contents" and len: "length contents < usize_bound"
    and parsed: "parse_safetensors_header serde file fid (length contents) limits e = Inr (rs, e')"
  shows "\<exists>h. (\<exists>e1 e2. parse_header_json serde limits (take (le_nat (take 8 contents)) (drop 8 contents)) e1 = Inr (h, e2))
    \<and> header_ok limits h \<and> tiled fid (8 + le_nat (take 8 contents)) (length contents) rs
    \<and> mset (map tensor_name rs) = mset (map fst h) \<and> (\<forall>r \<in> set rs. described_by h r)"
proof -
  obtain prefix header h e1 e2 e3 e4 e5 where long: "8 \<le> length contents" and prefix: "read_exact_at file 0 8 = Inr prefix"
    and fits: "8 + le_nat prefix \<le> length contents"
    and header: "read_blocks file 8 (le_nat prefix) e1 = Inr (header, e2)"
    and h: "parse_header_json serde limits header e3 = Inr (h, e4)"
    and rs: "validate_tensor_entries fid (8 + le_nat prefix) (length contents - (8 + le_nat prefix)) h limits e5 = Inr (rs, e')"
    using parsed by (auto simp: parse_safetensors_header_def bindE_Inr liftE_Inr Let_def checked_Some try_from_Inr not_less not_le)
  have p: "prefix = take 8 contents"
    using read_exact_at_reads[OF r, of 0 8] len long prefix by (simp add: usize_is_u64)
  have "header = take (le_nat prefix) (drop 8 contents)"
    using delivers_result[OF read_blocks_delivers[OF r len fits] header] .
  moreover have ok: "header_ok limits h" by (rule parse_header_ok[OF h])
  moreover have "tiled fid (8 + le_nat prefix) (length contents) rs \<and> mset (map tensor_name rs) = mset (map fst h) \<and> (\<forall>r \<in> set rs. described_by h r)"
    using validate_tensor_entries_sound[OF rs] ok fits by (simp add: header_ok_def)
  ultimately show ?thesis using h unfolding p by (intro exI[of _ h]) blast
qed

section \<open>Digests\<close>

lemma hash_loop_delivers:
  assumes r: "reads file contents" and len: "length contents < usize_bound"
  shows "start \<le> length contents \<Longrightarrow> hashed = take start contents
    \<Longrightarrow> delivers (hash_loop file (length contents) start hashed) (\<lambda>b. b = contents)"
proof (induction "length contents - start" arbitrary: start hashed rule: less_induct)
  case less
  show ?case
  proof (cases "start < length contents")
    case False
    then show ?thesis using less.prems by (subst hash_loop.simps) (simp add: delivers_retE del: retE_apply)
  next
    case True
    let ?k = "min (length contents - start) HASH_BUFFER_BYTES"
    have k: "0 < ?k" "start + ?k \<le> length contents" using True by (auto simp: HASH_BUFFER_BYTES_def)
    have read: "read_exact_at file start ?k = Inr (take ?k (drop start contents))"
      by (rule read_exact_at_reads[OF r]) (use len k in \<open>simp_all add: usize_is_u64\<close>)
    have add: "checked_add start ?k = Some (start + ?k)" using k len by (simp add: checked_Some usize_is_u64)
    have grown: "hashed @ take ?k (drop start contents) = take (start + ?k) contents" by (simp add: less.prems(2) take_add)
    have "delivers (hash_loop file (length contents) (start + ?k) (take (start + ?k) contents)) (\<lambda>b. b = contents)"
    proof (rule less.hyps)
      show "length contents - (start + ?k) < length contents - start" using k by linarith
    qed (use k in simp_all)
    then show ?thesis
      using True unfolding grown[symmetric]
      by (subst hash_loop.simps) (simp only: if_True Let_def read add ok_or_simps liftE_bind, rule delivers_after)
  qed
qed

text \<open>The digest a policy allows for some contents.\<close>

definition right_digest :: "(u8 list \<Rightarrow> ContentDigest) \<Rightarrow> DigestPolicy \<Rightarrow> u8 list \<Rightarrow> ContentDigest \<Rightarrow> bool" where
  "right_digest sha256 policy contents d \<longleftrightarrow> (case policy of
     ComputeOnDemand \<Rightarrow> d = sha256 contents
   | VerifyOnDemand expected \<Rightarrow> d = expected \<and> sha256 contents = expected
   | TrustExternal declared \<Rightarrow> d = declared
   | TrustRetained declared \<Rightarrow> d = declared)"

definition digest_cached :: "(u8 list \<Rightarrow> ContentDigest) \<Rightarrow> u8 list \<Rightarrow> OpenFile \<Rightarrow> bool" where
  "digest_cached sha256 contents f \<longleftrightarrow> (\<forall>d. of_digest f = Some d \<longrightarrow> right_digest sha256 (digest_policy (of_source f)) contents d)"

lemma content_digest_right:
  assumes r: "reads (handle_read (of_handle f)) contents" and len: "length contents < usize_bound" and size: "of_size f = length contents"
    and cached: "digest_cached sha256 contents f" and run: "content_digest sha256 f e = Inr ((d, f'), e')"
  shows "right_digest sha256 (digest_policy (of_source f)) contents d \<and> f' = f\<lparr>of_digest := Some d\<rparr>"
proof -
  have hash: "hashed = contents" if "hash_loop (handle_read (of_handle f)) (of_size f) 0 [] e1 = Inr (hashed, e2)" for hashed e1 e2
    using delivers_result[OF hash_loop_delivers[OF r len, of 0 "[]"]] that by (simp add: size)
  show ?thesis
  proof (cases "of_digest f")
    case (Some x)
    then have "d = x" "f' = f" using run by (auto simp: content_digest_def bindE_Inr)
    then show ?thesis using cached Some by (cases f) (simp add: digest_cached_def)
  next
    case None
    then show ?thesis using run
      by (auto simp: content_digest_def bindE_Inr liftE_Inr Let_def right_digest_def dest!: hash split: DigestPolicy.splits)
  qed
qed

text \<open>A verified source whose contents differ from the declared digest is never accepted.\<close>

lemma content_digest_delivers:
  assumes s: "serves (of_handle f) contents" and f: "opened os f" and same: "handle_restamp (of_handle f) = Inr (of_stamp f)"
    and d: "right_digest sha256 (digest_policy (of_source f)) contents d"
  shows "delivers (content_digest sha256 f) (\<lambda>p. p = (d, f\<lparr>of_digest := Some d\<rparr>))"
proof -
  have size: "of_size f = length contents" and r: "reads (handle_read (of_handle f)) contents" and len: "length contents < usize_bound"
    using s f by (auto simp: serves_def opened_def)
  have hash: "delivers (hash_loop (handle_read (of_handle f)) (length contents) 0 []) (\<lambda>b. b = contents)"
    by (rule hash_loop_delivers[OF r len]) simp_all
  have fresh: "of_digest f = None" using f by (simp add: opened_def)
  show ?thesis
    using d unfolding content_digest_def fresh size
    by (intro delivers_after, cases "digest_policy (of_source f)")
      (auto simp: right_digest_def same Let_def simp del: retE_apply
        intro!: delivers_retE delivers_bindE[OF hash] delivers_after)
qed

text \<open>The digests of all sources, in file order.\<close>

definition right_digests :: "(u8 list \<Rightarrow> ContentDigest) \<Rightarrow> (SourceDescriptor \<Rightarrow> u8 list) \<Rightarrow> OpenFile list \<Rightarrow> ContentDigest list \<Rightarrow> bool" where
  "right_digests sha256 contents fs ds \<longleftrightarrow>
     list_all2 (\<lambda>f d. right_digest sha256 (digest_policy (of_source f)) (contents (of_source f)) d) fs ds"

definition digestible :: "(u8 list \<Rightarrow> ContentDigest) \<Rightarrow> (SourceDescriptor \<Rightarrow> u8 list) \<Rightarrow> OpenFile \<Rightarrow> bool" where
  "digestible sha256 contents f \<longleftrightarrow> reads (handle_read (of_handle f)) (contents (of_source f)) \<and> length (contents (of_source f)) < usize_bound
     \<and> of_size f = length (contents (of_source f)) \<and> digest_cached sha256 (contents (of_source f)) f"

lemma opened_digestible:
  assumes "wf_checkpoint os b c" and "faithful os mmap contents b" and "f \<in> set (ck_files c)"
  shows "digestible sha256 contents f"
  using wf_checkpoint_file[OF assms] by (auto simp: digestible_def serves_def opened_def digest_cached_def)

lemma content_digest_step:
  assumes "content_digest sha256 f e = Inr ((d, f'), e')" and "digestible sha256 contents f"
  shows "right_digest sha256 (digest_policy (of_source f)) (contents (of_source f)) d \<and> digestible sha256 contents f'
    \<and> f' = f\<lparr>of_digest := Some d\<rparr>"
  using content_digest_right[of f "contents (of_source f)" sha256 e d f' e'] assms by (auto simp: digestible_def digest_cached_def)

lemma source_digests_right:
  assumes run: "source_digests_of sha256 c e = Inr ((ds, c'), e')" and ok: "\<forall>f \<in> set (ck_files c). digestible sha256 contents f"
  shows "right_digests sha256 contents (ck_files c) ds \<and> (\<forall>f \<in> set (ck_files c'). digestible sha256 contents f)
    \<and> map of_source (ck_files c') = map of_source (ck_files c)"
proof -
  have loop: "mapE (content_digest sha256) fs e1 = Inr (ps, e2) \<Longrightarrow> \<forall>f \<in> set fs. digestible sha256 contents f
     \<Longrightarrow> right_digests sha256 contents fs (map fst ps) \<and> (\<forall>f \<in> set (map snd ps). digestible sha256 contents f)
       \<and> map of_source (map snd ps) = map of_source fs" for fs ps e1 e2
  proof (induction fs arbitrary: ps e1)
    case Nil
    then show ?case by (simp add: right_digests_def)
  next
    case (Cons f fs)
    obtain p qs e3 where p: "content_digest sha256 f e1 = Inr (p, e3)" and qs: "mapE (content_digest sha256) fs e3 = Inr (qs, e2)"
      and ps: "ps = p # qs" using Cons.prems(1) by (auto simp: bindE_Inr)
    have "content_digest sha256 f e1 = Inr ((fst p, snd p), e3)" using p by simp
    from content_digest_step[OF this] Cons.IH[OF qs] Cons.prems(2) show ?case by (auto simp: ps right_digests_def)
  qed
  obtain ps where ps: "mapE (content_digest sha256) (ck_files c) e = Inr (ps, e')" and "ds = map fst ps" "ck_files c' = map snd ps"
    using run by (auto simp: source_digests_of_def digest_files_def bindE_Inr)
  then show ?thesis using loop[OF ps ok] by simp
qed

section \<open>Snapshots\<close>

text \<open>What a snapshot covers: the path, the size and the digest of every source, in file order.\<close>

definition snapshot_entry :: "u8 list \<times> nat \<times> ContentDigest \<Rightarrow> u8 list" where
  "snapshot_entry p = (case p of (path, bytes, digest) \<Rightarrow> le_bytes 8 (length path) @ path @ le_bytes 8 bytes @ digest)"

definition snapshot_entries :: "FileRecord list \<Rightarrow> ContentDigest list \<Rightarrow> (u8 list \<times> nat \<times> ContentDigest) list" where
  "snapshot_entries rs ds = map2 (\<lambda>r d. (map of_char (file_path r), file_bytes r, d)) rs ds"

definition snapshot_envelope :: "(u8 list \<times> nat \<times> ContentDigest) list \<Rightarrow> u8 list" where
  "snapshot_envelope es = map of_char ''model-weights-snapshot-v1'' @ [0] @ concat (map snapshot_entry es)"

definition entry_bounded :: "u8 list \<times> nat \<times> ContentDigest \<Rightarrow> bool" where
  "entry_bounded p \<longleftrightarrow> (case p of (path, bytes, digest) \<Rightarrow> length path < u64_bound \<and> bytes < u64_bound \<and> length digest = 32)"

lemma le_bytes_8_inj: "le_bytes 8 m = le_bytes 8 n \<Longrightarrow> m < u64_bound \<Longrightarrow> n < u64_bound \<Longrightarrow> m = n"
  by (rule le_bytes_inj[of 8]) (simp_all add: u64_bound_def)

lemma snapshot_entry_append_inj:
  assumes "entry_bounded p" "entry_bounded q" and "snapshot_entry p @ xs = snapshot_entry q @ ys"
  shows "p = q \<and> xs = ys"
proof -
  obtain path n d path' n' d' where p: "p = (path, n, d)" and q: "q = (path', n', d')" by (cases p; cases q) auto
  have e: "le_bytes 8 (length path) @ (path @ le_bytes 8 n @ d @ xs) = le_bytes 8 (length path') @ (path' @ le_bytes 8 n' @ d' @ ys)"
    using assms(3) by (simp add: p q snapshot_entry_def)
  then have "le_bytes 8 (length path) = le_bytes 8 (length path')" and rest: "path @ le_bytes 8 n @ d @ xs = path' @ le_bytes 8 n' @ d' @ ys"
    by (simp_all add: append_eq_append_conv)
  from le_bytes_8_inj[OF this(1)] assms(1,2) have "length path = length path'" by (simp add: p q entry_bounded_def)
  then have "path = path'" and "le_bytes 8 n @ (d @ xs) = le_bytes 8 n' @ (d' @ ys)" using rest by (simp_all add: append_eq_append_conv)
  then have "le_bytes 8 n = le_bytes 8 n'" and last: "d @ xs = d' @ ys" by (simp_all add: append_eq_append_conv)
  moreover from le_bytes_8_inj[OF this(1)] assms(1,2) have "n = n'" by (simp add: p q entry_bounded_def)
  moreover have "length d = length d'" using assms(1,2) by (simp add: p q entry_bounded_def)
  ultimately show ?thesis using \<open>path = path'\<close> by (simp add: p q append_eq_append_conv)
qed

text \<open>The envelope determines its entries.\<close>

lemma snapshot_envelope_inj:
  "snapshot_envelope es = snapshot_envelope es' \<Longrightarrow> \<forall>p \<in> set es \<union> set es'. entry_bounded p \<Longrightarrow> es = es'"
  unfolding snapshot_envelope_def append_Cons[symmetric] same_append_eq
proof (induction es arbitrary: es')
  case Nil
  show ?case
  proof (cases es')
    case (Cons q qs)
    have "snapshot_entry q \<noteq> []" by (cases q) (simp add: snapshot_entry_def flip: length_greater_0_conv)
    then show ?thesis using Nil Cons by simp
  qed simp
next
  case (Cons p ps)
  have ne: "snapshot_entry p \<noteq> []" by (cases p) (simp add: snapshot_entry_def flip: length_greater_0_conv)
  then obtain q qs where es': "es' = q # qs" using Cons.prems(1) by (cases es') auto
  have "p = q \<and> concat (map snapshot_entry ps) = concat (map snapshot_entry qs)"
    by (rule snapshot_entry_append_inj) (use Cons.prems es' in auto)
  then show ?case using Cons.IH[of qs] Cons.prems(2) es' by simp
qed

lemma snapshot_loop:
  "foldE (snapshot_step sha256) (zip rs fs) st e = Inr (st', e') \<Longrightarrow> length rs = length fs \<Longrightarrow> \<forall>f \<in> set fs. digestible sha256 contents f
   \<Longrightarrow> \<exists>ds. right_digests sha256 contents fs ds \<and> fst st' = fst st @ concat (map snapshot_entry (snapshot_entries rs ds))"
proof (induction fs arbitrary: rs st e)
  case Nil
  then show ?case by (intro exI[of _ "[]"]) (simp add: right_digests_def snapshot_entries_def)
next
  case (Cons f fs)
  obtain r rs' where rs: "rs = r # rs'" using Cons.prems(2) by (cases rs) auto
  obtain d f' st1 e1 e2 e3 where d: "content_digest sha256 f e1 = Inr ((d, f'), e2)"
    and st1: "fst st1 = fst st @ snapshot_entry (map of_char (file_path r), file_bytes r, d)"
    and rest: "foldE (snapshot_step sha256) (zip rs' fs) st1 e3 = Inr (st', e')"
    using Cons.prems(1) by (auto simp: rs bindE_Inr liftE_Inr try_from_Inr Let_def snapshot_step_def[of _ "(r, f)"] snapshot_entry_def)
  have "right_digest sha256 (digest_policy (of_source f)) (contents (of_source f)) d"
    using content_digest_step[OF d] Cons.prems(3) by auto
  moreover obtain ds where "right_digests sha256 contents fs ds" "fst st' = fst st1 @ concat (map snapshot_entry (snapshot_entries rs' ds))"
    using Cons.IH[OF rest] Cons.prems(2,3) rs by auto
  ultimately show ?case
    by (intro exI[of _ "d # ds"]) (simp add: rs right_digests_def snapshot_entries_def st1)
qed

lemma snapshot_covers:
  assumes wf: "wf_checkpoint os b c" and os: "faithful os mmap contents b"
    and run: "snapshot_id sha256 c e = Inr ((s, c'), e')"
  shows "\<exists>ds. right_digests sha256 contents (ck_files c) ds
    \<and> s = ContentDigest_hash sha256 (map of_char ''snapshot-envelope-v1'') [snapshot_envelope (snapshot_entries (inventory_files (ck_inventory c)) ds)]"
proof -
  have ok: "\<forall>f \<in> set (ck_files c). digestible sha256 contents f" using opened_digestible[OF wf os] by blast
  have new: "ck_snapshot c = None" using wf by (simp add: wf_checkpoint_def)
  have len: "length (inventory_files (ck_inventory c)) = length (ck_files c)" using wf by (simp add: wf_checkpoint_def)
  obtain identity files e1 where loop: "foldE (snapshot_step sha256) (zip (inventory_files (ck_inventory c)) (ck_files c))
         (map of_char ''model-weights-snapshot-v1'' @ [0], []) e = Inr ((identity, files), e1)"
    and s: "s = ContentDigest_hash sha256 (map of_char ''snapshot-envelope-v1'') [identity]"
    using run new by (auto simp: snapshot_id_def bindE_Inr Let_def simp del: list.map)
  from snapshot_loop[OF loop len ok] obtain ds where "right_digests sha256 contents (ck_files c) ds"
    "identity = snapshot_envelope (snapshot_entries (inventory_files (ck_inventory c)) ds)"
    by (auto simp: snapshot_envelope_def simp del: list.map)
  then show ?thesis using s by blast
qed

end
