(* ===== verification/MW_LocalIndex.thy ===== *)
theory MW_LocalIndex
  imports MW_CheckpointRead
begin

text \<open>
  checkpoint.rs: checkpoints described by a local shard index. The index is read under the header limit,
  parsed, and each shard is resolved below the canonical directory of the index. \<open>canonicalize\<close> and the
  metadata file are parameters. Paths are lists of Unix path components, which is what \<open>Path\<close> compares:
  an absolute path starts with the component \<open>/\<close>.
\<close>

section \<open>Paths\<close>

type_synonym path = "string list"

definition path_components :: "string \<Rightarrow> path" where
  "path_components p = (let parts = split_char CHR ''/'' p in
     (if p \<noteq> [] \<and> hd parts = [] then [''/''] else if hd parts = ''.'' then [''.''] else [])
       @ filter (\<lambda>c. c \<noteq> [] \<and> c \<noteq> ''.'') parts)"

fun join_parts :: "string list \<Rightarrow> string" where
  "join_parts [] = []"
| "join_parts [c] = c"
| "join_parts (c # d # cs) = c @ ''/'' @ join_parts (d # cs)"

definition path_text :: "path \<Rightarrow> string" where
  "path_text cs = (case cs of [] \<Rightarrow> [] | c # rest \<Rightarrow> if c = ''/'' then c @ join_parts rest else join_parts cs)"

definition path_parent :: "path \<Rightarrow> path option" where
  "path_parent cs = (if cs = [] \<or> cs = [''/''] then None else Some (butlast cs))"

definition repo_path_to_platform :: "RepoPath \<Rightarrow> path" where
  "repo_path_to_platform p = split_char CHR ''/'' p"

section \<open>The index file\<close>

record MetadataFile =
  meta_size :: "nat result"
  meta_read :: File

definition METADATA_BLOCK_BYTES :: nat where
  "METADATA_BLOCK_BYTES = 64 * 1024"

function bounded_loop :: "File \<Rightarrow> nat \<Rightarrow> u8 list \<Rightarrow> u8 list exec" where
  "bounded_loop file remaining bytes =
     (if 0 < remaining then
       bindE check (\<lambda>_.
       let amount = min remaining METADATA_BLOCK_BYTES in
       bindE (liftE (file (length bytes) amount)) (\<lambda>block.
       let got = take amount block in
       if got = [] then retE bytes else
       bindE (try_reserve (length got)) (\<lambda>_.
         bounded_loop file (remaining - length got) (bytes @ got))))
      else retE bytes)"
  by pat_completeness auto
termination
  by (relation "measure (\<lambda>(_, remaining, _). remaining)") (auto simp: METADATA_BLOCK_BYTES_def)

declare bounded_loop.simps [simp del]

definition read_bounded_file :: "(path \<Rightarrow> MetadataFile result) \<Rightarrow> path \<Rightarrow> nat \<Rightarrow> u8 list exec" where
  "read_bounded_file files path byte_limit =
     bindE check (\<lambda>_.
     bindE (liftE (files path)) (\<lambda>file.
     bindE (liftE (meta_size file)) (\<lambda>bytes.
     bindE (liftE (ensure (\<not> bytes > byte_limit) ResourceLimit)) (\<lambda>_.
     bindE (liftE (usize_try_from bytes)) (\<lambda>capacity.
     bindE (try_reserve capacity) (\<lambda>_.
     let read_limit = saturating_add byte_limit 1 in
     bindE (try_reserve METADATA_BLOCK_BYTES) (\<lambda>_.
     bindE (bounded_loop (meta_read file) read_limit []) (\<lambda>bytes.
     bindE check (\<lambda>_.
     bindE (liftE (u64_try_from (length bytes))) (\<lambda>actual.
     bindE (liftE (ensure (\<not> actual > byte_limit) ResourceLimit)) (\<lambda>_.
       retE bytes)))))))))))"

section \<open>Resolving shards\<close>

definition shard_source :: "(path \<Rightarrow> path result) \<Rightarrow> path \<Rightarrow> RepoPath \<Rightarrow> SourceDescriptor exec" where
  "shard_source canonicalize canonical_parent shard =
     bindE check (\<lambda>_.
     bindE (liftE (canonicalize (canonical_parent @ repo_path_to_platform shard))) (\<lambda>canonical_shard.
     bindE (liftE (ensure (\<not> take (length canonical_parent) canonical_shard \<noteq> canonical_parent) InvalidPath)) (\<lambda>_.
     bindE (liftE (SourceDescriptor_local (path_text canonical_shard) (path_file_name (path_text canonical_shard)))) (\<lambda>source.
       liftE (with_logical_path shard source)))))"

definition index_directory :: "string \<Rightarrow> path" where
  "index_directory path = (case path_parent (path_components path) of
     Some parent \<Rightarrow> if parent \<noteq> [] then parent else [''.''] | None \<Rightarrow> [''.''])"

definition from_local_index ::
    "(path \<Rightarrow> MetadataFile result) \<Rightarrow> (path \<Rightarrow> path result) \<Rightarrow> serde \<Rightarrow> string \<Rightarrow> ResourceLimits \<Rightarrow> CheckpointBuilder exec" where
  "from_local_index files canonicalize serde path limits =
     bindE check (\<lambda>_.
     bindE (read_bounded_file files (path_components path) (max_header_bytes limits)) (\<lambda>bytes.
     bindE check (\<lambda>_.
     bindE (ShardIndex_from_json serde limits bytes) (\<lambda>index.
     bindE check (\<lambda>_.
     bindE (liftE (canonicalize (index_directory path))) (\<lambda>canonical_parent.
     bindE (mapE (shard_source canonicalize canonical_parent) (ShardIndex_shards index)) (\<lambda>sources.
       retE \<lparr>cb_sources = sources, cb_index = Some index, cb_limits = limits, cb_access = Auto\<rparr>)))))))"

definition Checkpoint_open_index ::
    "os \<Rightarrow> (path \<Rightarrow> MetadataFile result) \<Rightarrow> (path \<Rightarrow> path result) \<Rightarrow> serde \<Rightarrow> string \<Rightarrow> Checkpoint exec" where
  "Checkpoint_open_index os files canonicalize serde path =
     bindE (from_local_index files canonicalize serde path ResourceLimits_default) (CheckpointBuilder_open os serde)"

definition string_ends_with :: "string \<Rightarrow> string \<Rightarrow> bool" where
  "string_ends_with s end_part \<longleftrightarrow> length end_part \<le> length s \<and> drop (length s - length end_part) s = end_part"

definition Checkpoint_open ::
    "os \<Rightarrow> (path \<Rightarrow> MetadataFile result) \<Rightarrow> (path \<Rightarrow> path result) \<Rightarrow> serde \<Rightarrow> string \<Rightarrow> Checkpoint exec" where
  "Checkpoint_open os files canonicalize serde path =
     bindE check (\<lambda>_.
     if (case path_file_name path of None \<Rightarrow> False | Some name \<Rightarrow> string_ends_with name ''.index.json'') then
       Checkpoint_open_index os files canonicalize serde path
     else
       bindE (liftE (SourceDescriptor_local path (path_file_name path))) (\<lambda>source.
         Checkpoint_open_source os serde source))"

section \<open>What is resolved\<close>

text \<open>The loop reads a file that is not modified up to its limit.\<close>

lemma bounded_loop_delivers:
  assumes r: "reads file contents"
  shows "bytes = take (length bytes) contents \<Longrightarrow> delivers (bounded_loop file remaining bytes) (\<lambda>b. b = take (length bytes + remaining) contents)"
proof (induction remaining arbitrary: bytes rule: less_induct)
  case (less remaining)
  show ?case
  proof (cases "remaining = 0")
    case True
    then show ?thesis using less.prems by (subst bounded_loop.simps) (simp add: delivers_retE del: retE_apply)
  next
    case False
    let ?n = "min remaining METADATA_BLOCK_BYTES"
    have n: "0 < ?n" using False by (simp add: METADATA_BLOCK_BYTES_def)
    obtain k where k: "file (length bytes) ?n = Inr (take k (drop (length bytes) contents))" "k \<le> ?n"
      "k = 0 \<longrightarrow> ?n = 0 \<or> length contents \<le> length bytes" using r unfolding reads_def by blast
    define got where "got = take k (drop (length bytes) contents)"
    have took: "take ?n got = got" using k(2) by (simp add: got_def)
    show ?thesis
    proof (cases "got = []")
      case True
      then have "length contents \<le> length bytes" using k(3) n by (auto simp: got_def)
      then have "take (length bytes + remaining) contents = bytes" using less.prems by simp
      then show ?thesis using False took True
        by (subst bounded_loop.simps) (simp add: k(1) got_def[symmetric] Let_def delivers_after delivers_retE del: retE_apply)
    next
      case ne: False
      have grown: "bytes @ got = take (length (bytes @ got)) contents"
      proof -
        have "got = take (length got) (drop (length bytes) contents)" unfolding got_def by (cases "k \<le> length contents - length bytes") simp_all
        then show ?thesis using less.prems by (metis length_append take_add)
      qed
      have len: "0 < length got" "length got \<le> remaining" using ne k(2) by (auto simp: got_def)
      have "delivers (bounded_loop file (remaining - length got) (bytes @ got)) (\<lambda>b. b = take (length (bytes @ got) + (remaining - length got)) contents)"
        by (rule less.IH[OF _ grown]) (use len in linarith)
      then have "delivers (bounded_loop file (remaining - length got) (bytes @ got)) (\<lambda>b. b = take (length bytes + remaining) contents)"
        using len by (simp add: add.assoc)
      moreover have "(?n = 0) = False" using n by (metis less_irrefl)
      ultimately show ?thesis using False took ne
        by (subst bounded_loop.simps) (simp add: k(1) got_def[symmetric] Let_def delivers_after)
    qed
  qed
qed

lemma read_bounded_file_Inr:
  assumes "read_bounded_file files path limit e = Inr (bytes, e')"
  shows "length bytes \<le> limit" and "files path = Inr file \<Longrightarrow> reads (meta_read file) contents \<Longrightarrow> length contents < u64_bound \<Longrightarrow> bytes = contents"
proof -
  obtain f e1 e2 where f: "files path = Inr f" and loop: "bounded_loop (meta_read f) (saturating_add limit 1) [] e1 = Inr (bytes, e2)"
    and short: "length bytes \<le> limit" "length bytes < u64_bound"
    using assms by (auto simp: read_bounded_file_def bindE_Inr liftE_Inr Let_def try_from_Inr not_less)
  show "length bytes \<le> limit" by (rule short)
  assume "files path = Inr file" "reads (meta_read file) contents" and len: "length contents < u64_bound"
  then have bytes: "bytes = take (saturating_add limit 1) contents"
    using delivers_result[OF bounded_loop_delivers[of "meta_read f" contents "[]"] loop] f by simp
  then have "length contents \<le> saturating_add limit 1"
    using short len unfolding saturating_add_def by (cases "length contents \<le> limit + 1") simp_all
  then show "bytes = contents" using bytes by simp
qed

text \<open>Every resolved shard lies below the canonical directory and keeps its logical path.\<close>

definition confined :: "(path \<Rightarrow> path result) \<Rightarrow> path \<Rightarrow> SourceDescriptor \<Rightarrow> bool" where
  "confined canonicalize root s \<longleftrightarrow> source_kind s = Local \<and> \<not> retained_file s
     \<and> (\<exists>p. canonicalize (root @ repo_path_to_platform (logical_path s)) = Inr p \<and> take (length root) p = root \<and> local_path s = path_text p)"

lemma shard_source_Inr:
  assumes "shard_source canonicalize root shard e = Inr (s, e')" and "RepoPath_parse shard = Inr shard"
  shows "confined canonicalize root s \<and> logical_path s = shard"
  using assms by (auto simp: shard_source_def confined_def bindE_Inr liftE_Inr SourceDescriptor_local_def with_logical_path_def bindR_Inr Let_def)

lemma from_local_index_Inr:
  assumes "from_local_index files canonicalize serde path limits e = Inr (b, e')"
  shows "\<exists>index root. wf_shard_index limits index \<and> cb_index b = Some index \<and> cb_limits b = limits \<and> cb_access b = Auto
    \<and> canonicalize (index_directory path) = Inr root \<and> map logical_path (cb_sources b) = ShardIndex_shards index
    \<and> (\<forall>s \<in> set (cb_sources b). confined canonicalize root s)"
proof -
  obtain bytes index root sources e1 e2 e3 e4 where index: "ShardIndex_from_json serde limits bytes e1 = Inr (index, e2)"
    and root: "canonicalize (index_directory path) = Inr root"
    and sources: "mapE (shard_source canonicalize root) (ShardIndex_shards index) e3 = Inr (sources, e4)"
    and b: "b = \<lparr>cb_sources = sources, cb_index = Some index, cb_limits = limits, cb_access = Auto\<rparr>"
    using assms by (auto simp: from_local_index_def bindE_Inr liftE_Inr)
  have wf: "wf_shard_index limits index" by (rule ShardIndex_from_json_wf[OF index])
  have safe: "RepoPath_parse p = Inr p" if "p \<in> set (ShardIndex_shards index)" for p
    using that wf by (auto simp: ShardIndex_shards_def wf_shard_index_def)
  have "list_all2 (\<lambda>shard s. confined canonicalize root s \<and> logical_path s = shard) (ShardIndex_shards index) sources"
    using mapE_Inr[OF sources] by (rule list.rel_mono_strong) (auto dest: shard_source_Inr[OF _ safe])
  then have "map logical_path sources = ShardIndex_shards index" and "\<forall>s \<in> set sources. confined canonicalize root s"
    by (auto simp: list_all2_conv_all_nth in_set_conv_nth intro!: nth_equalityI)
  then show ?thesis using wf root by (auto simp: b)
qed

lemma shards_sorted: "sort_key logical_path xs = xs" if "map logical_path xs = ShardIndex_shards index"
  by (rule sort_key_id_if_sorted) (simp add: that ShardIndex_shards_def)

text \<open>A checkpoint that opens under an index has exactly the tensors of the index, each in the file it names.\<close>

lemma open_with_index:
  assumes "CheckpointBuilder_open os serde b e = Inr (c, e')" and "cb_index b = Some index" and "increasing (weight_map index)"
  shows "ck_format c = Safetensors \<and> (shard_for index name = Some path \<longleftrightarrow> (\<exists>t. Inventory_tensor (ck_inventory c) name = Some t
    \<and> logical_path (of_source (ck_files c ! span_file (storage_span (tensor_storage t)))) = path))"
proof -
  have wf: "wf_checkpoint os b c" by (rule CheckpointBuilder_open_wf[OF assms(1)])
  then have invt: "wf_inventory (ck_inventory c)" and recs: "inventory_files (ck_inventory c) = map OpenFile_record (ck_files c)"
    by (simp_all add: wf_checkpoint_def)
  obtain e1 u e2 where v: "validate_shard_index index (ck_inventory c) e1 = Inr (u, e2)" and format: "ck_format c = Safetensors"
    using assms(1,2) by (auto simp: CheckpointBuilder_open_def bindE_Inr liftE_Inr Let_def split: option.splits) (metis CheckpointFormat.exhaust)+
  have inside: "span_file (storage_span (tensor_storage t)) < length (ck_files c)" if "Inventory_tensor (ck_inventory c) name = Some t" for t
    using that invt recs binary_search_sorted[of tensor_name "inventory_tensors (ck_inventory c)" name]
    by (auto simp: Inventory_tensor_def wf_inventory_def span_within_def)
  then have "file_path (inventory_files (ck_inventory c) ! span_file (storage_span (tensor_storage t)))
      = logical_path (of_source (ck_files c ! span_file (storage_span (tensor_storage t))))"
    if "Inventory_tensor (ck_inventory c) name = Some t" for t
    using that recs by (simp add: OpenFile_record_def)
  then show ?thesis using format validate_shard_index_exact[OF v assms(3) invt, of name path] by auto
qed

end
