(* ===== verification/MW_CheckpointSamples.thy ===== *)
theory MW_CheckpointSamples
  imports MW_CheckpointData MW_LocalIndex MW_GgufCodec
begin

text \<open>
  A safetensors file with two tensors, its checkpoint, and the shard index of a directory that holds it,
  on which the properties of the checkpoint reader are instantiated.
\<close>

section \<open>The file\<close>

definition tiny_header :: "u8 list" where
  "tiny_header = map of_char ''{\"w\":{\"dtype\":\"U8\",\"shape\":[2],\"data_offsets\":[0,2]},\"x\":{\"dtype\":\"U8\",\"shape\":[1],\"data_offsets\":[2,3]}}''"

definition tiny_contents :: "u8 list" where
  "tiny_contents = le_bytes 8 (length tiny_header) @ tiny_header @ [7, 8, 9]"

definition tiny_tree :: json where
  "tiny_tree = JObject [
     (''w'', JObject [(''dtype'', JString ''U8''), (''shape'', JArray [JU64 2] True), (''data_offsets'', JArray [JU64 0, JU64 2] True)] True),
     (''x'', JObject [(''dtype'', JString ''U8''), (''shape'', JArray [JU64 1] True), (''data_offsets'', JArray [JU64 2, JU64 3] True)] True)] True"

definition tiny_index_json :: "u8 list" where
  "tiny_index_json = map of_char ''{\"weight_map\":{\"w\":\"a.safetensors\",\"x\":\"a.safetensors\"}}''"

definition tiny_index_tree :: json where
  "tiny_index_tree = JObject [(''weight_map'', JObject [(''w'', JString ''a.safetensors''), (''x'', JString ''a.safetensors'')] True)] True"

definition tiny_serde :: serde where
  "tiny_serde bytes = (if bytes = tiny_header then (tiny_tree, True)
     else if bytes = tiny_index_json then (tiny_index_tree, True) else (JInvalid, False))"

definition tiny_raw :: RawHeader where
  "tiny_raw = [(''w'', \<lparr>st_dtype = ''U8'', st_shape = [2], st_offsets = (0, 2)\<rparr>), (''x'', \<lparr>st_dtype = ''U8'', st_shape = [1], st_offsets = (2, 3)\<rparr>)]"

definition tiny_tensor :: "string \<Rightarrow> nat \<Rightarrow> nat \<Rightarrow> TensorRecord" where
  "tiny_tensor name start n = \<lparr>tensor_name = name, tensor_shape = [n],
     tensor_storage = Plain U8 \<lparr>span_file = 0, span_offset = 8 + length tiny_header + start, span_length = n\<rparr>\<rparr>"

definition tiny_records :: "TensorRecord list" where
  "tiny_records = [tiny_tensor ''w'' 0 2, tiny_tensor ''x'' 2 1]"

text \<open>An environment without limits is not changed by polls and reservations.\<close>

definition tiny_env :: "nat \<Rightarrow> Env" where
  "tiny_env n = \<lparr>polls_left = None, reserves_left = None, next_owner = n\<rparr>"

lemma tiny_env_step [simp]:
  "check (tiny_env n) = Inr ((), tiny_env n)" "try_reserve k (tiny_env n) = Inr ((), tiny_env n)"
  "fresh_owner (tiny_env n) = Inr (n, tiny_env (Suc n))"
  by (simp_all add: check_def try_reserve_def fresh_owner_def is_cancelled_def tiny_env_def)

lemma bindE_step: "m e = Inr (x, e') \<Longrightarrow> bindE m f e = f x e'"
  by (simp add: bindE_def)

lemma tiny_length: "length tiny_header = 105" "length tiny_contents = 116"
  by (simp_all add: tiny_header_def tiny_contents_def)

lemma tiny_prefix: "take 4 (le_bytes 8 105) = le_bytes 4 105" "le_bytes 4 105 \<noteq> GGUF_MAGIC"
  by code_simp+

lemma tiny_take: "take 8 tiny_contents = le_bytes 8 105" "take 105 (drop 8 tiny_contents) = tiny_header"
  "take 4 tiny_contents = le_bytes 4 105" "le_nat (le_bytes 8 105) = 105"
  using tiny_length by (simp_all add: tiny_contents_def tiny_prefix le_nat_bytes)

lemma tiny_bounds: "length tiny_contents < usize_bound" "length tiny_contents < u64_bound"
  by (simp_all add: tiny_length usize_bound_def u64_bound_def)

section \<open>Parsing\<close>

lemma tiny_header_read: "hd tiny_header = of_char CHR 0x7B" "tiny_header \<noteq> []"
  by (simp_all add: tiny_header_def)

lemma tiny_json: "parse_header_json tiny_serde ResourceLimits_default tiny_header (tiny_env n) = Inr (tiny_raw, tiny_env n)"
  by (simp add: parse_header_json_def deserialize_header_json_def tiny_header_read tiny_serde_def tiny_tree_def bindE_step
      string_seed_def validate_string_def METADATA_KEY_def ResourceLimits_default_def tensor_seed_def shape_seed_def offsets_value_def
      container_end_def btree_insert_def tiny_raw_def)

lemma tiny_entries:
  "validate_tensor_entries 0 113 3 tiny_raw ResourceLimits_default (tiny_env n) = Inr (tiny_records, tiny_env n)"
  by (simp add: validate_tensor_entries_def tiny_raw_def bindE_step header_entry_def ResourceLimits_default_def parse_dtype_def header_dtypes_def
      header_byte_len_def DType_byte_len_def checked_product_def entry_key_def cursor_step_def entry_record_def into_storage_def SourceSpan_new_def
      checked_add_def checked_mul_def u64_bound_def tiny_records_def tiny_tensor_def tiny_length Let_def)

lemma tiny_read: "start + n \<le> 116 \<Longrightarrow> read_exact_at (whole_file tiny_contents) start n = Inr (take n (drop start tiny_contents))"
  by (rule read_exact_at_reads[OF whole_file_reads tiny_bounds(2)]) (simp add: tiny_length)

lemma tiny_blocks: "read_blocks (whole_file tiny_contents) 8 105 (tiny_env n) = Inr (tiny_header, tiny_env n)"
proof -
  have "block_count 105 = Suc 0" by (simp add: block_count_def SOURCE_READ_BLOCK_BYTES_def)
  then show ?thesis
    by (simp add: read_blocks_def read_block_def bindE_step SOURCE_READ_BLOCK_BYTES_def checked_mul_def checked_add_def
        u64_try_from_def u64_bound_def tiny_read tiny_take)
qed

lemma tiny_parse:
  "parse_safetensors_header tiny_serde (whole_file tiny_contents) 0 116 ResourceLimits_default (tiny_env n) = Inr (tiny_records, tiny_env n)"
proof -
  have "max_header_bytes ResourceLimits_default = 16777216" by (simp add: ResourceLimits_default_def)
  then show ?thesis
    by (simp add: parse_safetensors_header_def tiny_read tiny_take Let_def checked_add_def u64_bound_def usize_try_from_def usize_bound_def
        bindE_step tiny_blocks tiny_json tiny_entries)
qed

section \<open>The checkpoint\<close>

definition tiny_source :: SourceDescriptor where
  "tiny_source = \<lparr>logical_path = ''a.safetensors'', local_path = ''/d/a.safetensors'', retained_file = False, expected_size = None,
     digest_policy = ComputeOnDemand, source_kind = Local, retention = False\<rparr>"

definition tiny_stamp :: FileStamp where
  "tiny_stamp = \<lparr>stamp_length = 116, stamp_modified = Some 0\<rparr>"

definition tiny_handle :: OsFile where
  "tiny_handle = \<lparr>handle_read = whole_file tiny_contents, handle_metadata = Inr (True, tiny_stamp), handle_restamp = Inr tiny_stamp,
     handle_map = Inl Io\<rparr>"

definition tiny_os :: os where "tiny_os s = Inr tiny_handle"

definition tiny_index :: ShardIndex where
  "tiny_index = \<lparr>weight_map = [(''w'', ''a.safetensors''), (''x'', ''a.safetensors'')]\<rparr>"

definition tiny_builder :: CheckpointBuilder where
  "tiny_builder = \<lparr>cb_sources = [tiny_source], cb_index = Some tiny_index, cb_limits = ResourceLimits_default, cb_access = Auto\<rparr>"

definition tiny_file :: "nat \<Rightarrow> OpenFile" where
  "tiny_file n = \<lparr>of_source = tiny_source, of_id = 0, of_handle = tiny_handle, of_size = 116, of_stamp = tiny_stamp, of_digest = None,
     of_map_owner = Suc n\<rparr>"

definition tiny_inventory :: Inventory where
  "tiny_inventory = \<lparr>inventory_files = [OpenFile_record (tiny_file 0)], inventory_tensors = tiny_records\<rparr>"

definition tiny_checkpoint :: Checkpoint where
  "tiny_checkpoint = \<lparr>ck_inventory = tiny_inventory, ck_files = [tiny_file 0], ck_access = Auto, ck_format = Safetensors,
     ck_gguf_metadata = [], ck_snapshot = None\<rparr>"

lemma tiny_file_open: "OpenFile_open tiny_os tiny_source 0 (tiny_env n) = Inr (tiny_file n, tiny_env (Suc n))"
  by (simp add: OpenFile_open_def tiny_os_def tiny_handle_def tiny_stamp_def tiny_source_def tiny_file_def bindE_step)

lemma tiny_extension: "path_extension ''/d/a.safetensors'' = Some ''safetensors''"
  by (simp add: path_extension_def path_file_name_def)

lemma tiny_parse_source:
  "parse_source tiny_serde ResourceLimits_default (tiny_file m) (tiny_env n)
     = Inr (\<lparr>ps_format = Safetensors, ps_metadata = None, ps_tensors = tiny_records\<rparr>, tiny_env n)"
proof -
  have "map ascii_lower ''safetensors'' \<noteq> ''gguf''" by simp
  then show ?thesis
    by (simp add: parse_source_def tiny_file_def tiny_source_def tiny_handle_def bindE_step tiny_read tiny_take tiny_prefix tiny_extension
        tiny_parse)
qed

lemma tiny_inventory_new: "Inventory_new [OpenFile_record (tiny_file 0)] tiny_records = Inr tiny_inventory"
  by (simp add: Inventory_new_def validate_inventory_file_def u32_try_from_def u32_bound_def OpenFile_record_def tiny_file_def
      tiny_records_def tiny_tensor_def validate_inventory_tensor_def DType_byte_len_def checked_product_def checked_mul_def
      u64_bound_def validate_inventory_span_def usize_try_from_def usize_bound_def span_end_def tiny_length tiny_inventory_def Let_def)

lemma tiny_lookup: "Inventory_tensor tiny_inventory ''w'' = Some (tiny_tensor ''w'' 0 2)" "Inventory_tensor tiny_inventory ''x'' = Some (tiny_tensor ''x'' 2 1)"
  using inventory_lookup[OF tiny_inventory_new] by (simp_all add: tiny_records_def tiny_tensor_def)

lemma tiny_validated: "validate_shard_index tiny_index tiny_inventory (tiny_env n) = Inr ((), tiny_env n)"
  by (simp add: validate_shard_index_def tiny_index_def bindE_step tiny_lookup)
    (simp add: tiny_inventory_def tiny_records_def tiny_tensor_def storage_span_def usize_try_from_def usize_bound_def OpenFile_record_def
      tiny_file_def tiny_source_def bindE_step)

lemma tiny_open: "CheckpointBuilder_open tiny_os tiny_serde tiny_builder (tiny_env 0) = Inr (tiny_checkpoint, tiny_env 1)"
proof -
  have limits: "1 \<le> max_shards ResourceLimits_default" "\<not> max_tensors ResourceLimits_default < length tiny_records"
    by (simp_all add: ResourceLimits_default_def tiny_records_def)
  show ?thesis using limits
    by (simp add: CheckpointBuilder_open_def tiny_builder_def open_step_def u32_try_from_def u32_bound_def tiny_file_open tiny_parse_source
        bindE_step checked_sub_def tiny_inventory_new tiny_validated tiny_checkpoint_def Let_def)
qed

lemma tiny_faithful: "faithful tiny_os True (\<lambda>_. tiny_contents) tiny_builder"
  using tiny_bounds by (simp add: faithful_def tiny_builder_def tiny_source_def tiny_os_def serves_def tiny_handle_def tiny_stamp_def
      tiny_length whole_file_reads)

section \<open>The index\<close>

definition tiny_files :: "path \<Rightarrow> MetadataFile result" where
  "tiny_files p = (if p = [''m.json''] then Inr \<lparr>meta_size = Inr 56, meta_read = whole_file tiny_index_json\<rparr> else Inl Io)"

definition tiny_canonicalize :: "path \<Rightarrow> path result" where
  "tiny_canonicalize p = (if p = [''.''] then Inr [''/'', ''d''] else Inr p)"

lemma tiny_index_length: "length tiny_index_json = 56"
  by (simp add: tiny_index_json_def)

lemma tiny_index_bytes: "read_bounded_file tiny_files [''m.json''] (max_header_bytes ResourceLimits_default) (tiny_env n) = Inr (tiny_index_json, tiny_env n)"
proof -
  have read: "whole_file tiny_index_json 0 k = Inr (take k tiny_index_json)" "whole_file tiny_index_json 56 k = Inr []" for k
    by (simp_all add: whole_file_def tiny_index_length)
  have ne: "tiny_index_json \<noteq> []" by (simp add: tiny_index_json_def)
  have "bounded_loop (whole_file tiny_index_json) 16777217 [] (tiny_env n) = Inr (tiny_index_json, tiny_env n)"
    by (subst bounded_loop.simps, subst bounded_loop.simps)
      (simp add: METADATA_BLOCK_BYTES_def bindE_step read ne tiny_index_length)
  then show ?thesis
    by (simp add: read_bounded_file_def tiny_files_def ResourceLimits_default_def bindE_step usize_try_from_def u64_try_from_def usize_bound_def
        u64_bound_def saturating_add_def tiny_index_length Let_def)
qed

lemma tiny_shard_path: "RepoPath_parse ''a.safetensors'' = Inr ''a.safetensors''"
  by (simp add: RepoPath_parse_def platform_absolute_def)

lemma tiny_index_parsed: "ShardIndex_from_json tiny_serde ResourceLimits_default tiny_index_json (tiny_env n) = Inr (tiny_index, tiny_env n)"
proof -
  have other: "tiny_index_json \<noteq> tiny_header" using tiny_index_length tiny_length by auto
  show ?thesis
    by (simp add: ShardIndex_from_json_def tiny_index_length usize_bound_def deserialize_shard_index_json_def tiny_serde_def other tiny_index_tree_def
        bindE_step weight_map_seed_def string_seed_def validate_string_def container_end_def tiny_shard_path btree_insert_def tiny_index_def
        ResourceLimits_default_def Let_def)
qed

lemma tiny_local_index:
  "from_local_index tiny_files tiny_canonicalize tiny_serde ''m.json'' ResourceLimits_default (tiny_env n) = Inr (tiny_builder, tiny_env n)"
proof -
  have shards: "ShardIndex_shards tiny_index = [''a.safetensors'']" by (simp add: ShardIndex_shards_def tiny_index_def)
  have parts: "path_components ''m.json'' = [''m.json'']" by (simp add: path_components_def)
  have "shard_source tiny_canonicalize [''/'', ''d''] ''a.safetensors'' (tiny_env n) = Inr (tiny_source, tiny_env n)"
    by (simp add: shard_source_def bindE_step tiny_canonicalize_def repo_path_to_platform_def path_text_def path_file_name_def
        SourceDescriptor_local_def tiny_shard_path with_logical_path_def tiny_source_def)
  then show ?thesis
    by (simp add: from_local_index_def parts tiny_index_bytes tiny_index_parsed index_directory_def path_parent_def tiny_canonicalize_def[of "[''.'']"]
        shards bindE_step tiny_builder_def)
qed

section \<open>The snapshot\<close>

lemma tiny_digest: "delivers (content_digest (\<lambda>bytes. replicate 32 (of_nat (length bytes))) (tiny_file 0))
    (\<lambda>p. p = (replicate 32 116, (tiny_file 0)\<lparr>of_digest := Some (replicate 32 116)\<rparr>))"
proof (rule content_digest_delivers)
  show "serves (of_handle (tiny_file 0)) tiny_contents"
    using tiny_bounds by (simp add: serves_def tiny_file_def tiny_handle_def tiny_stamp_def tiny_length whole_file_reads)
  show "opened tiny_os (tiny_file 0)" by (simp add: opened_def tiny_file_def tiny_os_def tiny_handle_def tiny_stamp_def)
  show "handle_restamp (of_handle (tiny_file 0)) = Inr (of_stamp (tiny_file 0))" by (simp add: tiny_file_def tiny_handle_def)
  show "right_digest (\<lambda>bytes. replicate 32 (of_nat (length bytes))) (digest_policy (of_source (tiny_file 0))) tiny_contents (replicate 32 116)"
    by (simp add: right_digest_def tiny_file_def tiny_source_def tiny_length)
qed

lemma tiny_snapshot:
  "\<exists>s c' e'. snapshot_id (\<lambda>bytes. replicate 32 (of_nat (length bytes))) tiny_checkpoint (tiny_env 1) = Inr ((s, c'), e')"
proof -
  have "delivers (snapshot_id (\<lambda>bytes. replicate 32 (of_nat (length bytes))) tiny_checkpoint) (\<lambda>_. True)"
    by (simp add: snapshot_id_def tiny_checkpoint_def tiny_inventory_def snapshot_step_def u64_try_from_def u64_bound_def checked_add_def
        OpenFile_record_def[of "tiny_file 0"] tiny_file_def[of 0, THEN arg_cong[of _ _ of_source]] tiny_source_def Let_def del: retE_apply list.map)
      (intro delivers_bindE delivers_after delivers_retE delivers_mono[OF tiny_digest]; simp add: Let_def delivers_retE delivers_after del: retE_apply)
  moreover have "unlimited (tiny_env 1)" by (simp add: unlimited_def tiny_env_def)
  ultimately show ?thesis using delivers_unlimited by fastforce
qed

end
