(* ===== verification/Spec2Isabelle.thy ===== *)
theory Spec2Isabelle
  imports MW_Samples MW_GgufSamples MW_PipelineSamples MW_PlanSamples MW_OverlaySamples MW_CheckpointSamples
begin

text \<open>
  A verification library for model-weights-rs, the host-side weight loading library under
  src/crates/model-weights/src. The library turns bytes of checkpoint tensors into the tensors a
  consumer asked for: typed operation graphs describe slices, permutations, padding,
  concatenations, splits, reshapes and provider preparations; every graph is validated when it is
  built, its host memory is estimated statically, and it is then executed over shared immutable
  byte views under cooperative cancellation.

  \<^bold>\<open>Theories and the code they model\<close>
  \<^item> \<open>MW_Prelude\<close>: error categories (error.rs), checked 64-bit arithmetic, byte ranges, and the
    execution monad \<open>exec\<close> for code that polls a CancellationToken (cancel.rs) and reserves
    memory. \<open>meets\<close> and \<open>delivers\<close> are the two total-correctness judgements of the library.
  \<^item> \<open>MW_Tensor\<close> (tensor.rs): dtypes, exact byte lengths, source spans, byte views.
  \<^item> \<open>MW_Limits\<close> (limits.rs) and \<open>MW_Identity\<close> (identity.rs): limits with their builder; digests,
    hexadecimal text, framed hashing (SHA-256 is a parameter), stable names.
  \<^item> \<open>MW_Representation\<close> (prepare.rs, plan.rs): layouts, representations, planned transforms.
  \<^item> \<open>MW_Facts\<close>, \<open>MW_Operation\<close>, \<open>MW_Inference\<close>, \<open>MW_Graph\<close> (operation.rs): validated tensor facts,
    the operations and the inference of their output facts, the graph builder and the replay of
    serialized graphs, alias queries.
  \<^item> \<open>MW_Liveness\<close>, \<open>MW_Ownership\<close>, \<open>MW_Scratch\<close> (operation.rs): the reference-counted liveness
    schedule, its invariant, and the static scratch estimate. The locale \<open>ownership\<close> is the
    interface between the schedule and a choice of aliases; it is interpreted on the alias rule
    of the estimate.
  \<^item> \<open>MW_Kernels\<close>, \<open>MW_Copies\<close>, \<open>MW_Concat\<close>, \<open>MW_Layout\<close> (operation.rs) and \<open>MW_Simd\<close>
    (operation_simd.rs): the byte kernels with their element-wise specifications, the contiguous
    concatenation and the OIHW to OHWI fast paths, and the vector kernel down to its unpack and
    permute instructions.
  \<^item> \<open>MW_Prepare\<close>, \<open>MW_Casts\<close>, \<open>MW_Engine\<close> (prepare.rs): requests, the provider registry, the
    engine, the contiguous provider and its float casts. The locale \<open>provider_contract\<close> states
    what the engine relies on and is interpreted on the built-in provider. The conversions of
    the half crate are a record parameter.
  \<^item> \<open>MW_Execute\<close>, \<open>MW_Nodes\<close>, \<open>MW_Run\<close> (operation.rs, telemetry.rs): the node executors, the
    runtime map, the execution loop with its events, what each node computes, and whole runs.
  \<^item> \<open>MW_Ordered\<close>: slices of sorted data and ordered maps of the standard library; the locale
    \<open>keyed_store\<close> is the interface of the loops that collect unique keys.
  \<^item> \<open>MW_Quantization\<close> (quantization.rs): packed storage descriptors and route capabilities.
  \<^item> \<open>MW_Source\<close> (source.rs, checkpoint.rs), \<open>MW_Inventory\<close> (inventory.rs): repository paths,
    source descriptors, positioned reads, validated inventories and their lookup.
  \<^item> \<open>MW_Ggml\<close>, \<open>MW_Gguf\<close> (gguf.rs): storage types, tensor records, the buffered reader and the
    parser. \<open>MW_GgufFormat\<close> shows what every accepted file satisfies and that the reader refines
    the file contents; \<open>MW_GgufCodec\<close> specifies the encoding and inverts it by the parser.
  \<^item> \<open>MW_Pipeline\<close> (pipeline.rs, telemetry.rs): budgets and permits, deferred requests, the dispatch
    window, the dispatcher, the workers and the coordinator; \<open>pipeline_step\<close> interleaves them.
    \<open>MW_PipelineBudget\<close>, \<open>MW_PipelineOrder\<close> and \<open>MW_PipelineValues\<close> prove the invariants of reachable
    states (exact accounting, the items in flight, what the sink receives), \<open>MW_PipelineLive\<close> the bound on
    the length of runs and \<open>MW_PipelineProgress\<close> that disciplined callbacks never block.
  \<^item> \<open>MW_Plan\<close> (plan.rs): conversion recipes, source and target descriptors, validation of bindings, the
    resolver with its diagnostics, plan building, plan identities and canonical JSON. \<open>MW_PlanSound\<close>
    shows what a resolution without error diagnostics satisfies, \<open>MW_PlanBuild\<close> lifts it to accepted
    plans and \<open>MW_PlanCanonical\<close> shows that plans do not depend on the order of insertion and reload exactly.
  \<^item> \<open>MW_Overlay\<close> (overlay.rs): alias tables, overlay operations, layers and plans. \<open>MW_OverlaySound\<close>
    characterizes accepted tables and plans, \<open>MW_OverlayDigest\<close> the digests of single targets.
  \<^item> \<open>MW_Json\<close> (inventory.rs, checkpoint.rs): the values of JSON documents as visitors see them, shard
    indexes and their agreement with an inventory. \<open>MW_Safetensors\<close> (checkpoint.rs): blocked reads and the
    bounded header parser; \<open>MW_SafetensorsFormat\<close> shows what every accepted header satisfies.
  \<^item> \<open>MW_Checkpoint\<close> (checkpoint.rs): opened files, checkpoints and their builder, span reads in the three
    access modes, digests and snapshots. \<open>MW_CheckpointRead\<close> proves the invariant of the open loop and
    that tensors are read exactly, \<open>MW_CheckpointData\<close> relates tensors, digests and snapshots to file contents.
    \<open>MW_LocalIndex\<close> (checkpoint.rs): checkpoints opened through an index in a directory.
  \<^item> \<open>MW_Samples\<close>, \<open>MW_GgufSamples\<close>, \<open>MW_PipelineSamples\<close>, \<open>MW_PlanSamples\<close>, \<open>MW_OverlaySamples\<close>,
    \<open>MW_CheckpointSamples\<close>: concrete tensors, a graph, a request, files, schedules, a plan, an overlay and
    a checkpoint on which the properties are instantiated.

  \<^bold>\<open>Modelling\<close>
  Structs are records, enums are datatypes and fallible functions return \<open>ErrorCategory + 'a\<close>;
  messages and error sources are dropped. Unsigned integers are natural numbers with the bounds
  written out (\<open>usize\<close> has 64 bits), bytes are 8-bit words and floats are their bit patterns.
  A cancellation flag may be set by another thread at any moment, so a run is described by the
  number of polls that succeed; failing reservations are described in the same way. A theorem
  stated with \<open>delivers\<close> says that an unlimited run returns a value with the stated property and
  that any other run returns such a value or fails as cancelled or out of resources. Pointer
  comparisons of byte views compare the identity of the owner and the range. Iteration orders of
  sorted maps do not influence the modelled results. Loops are recursion over their
  ranges or functions with a measure; the alias query and
  the resolution of overlay aliases are \<open>partial_function\<close>s that are proved to return. The processor feature test of the vector path is a boolean argument.
  A thread of the pipeline is a function that performs its next access to the shared state, or none
  while it waits for a budget, a window or a channel; an execution is any interleaving of such steps
  with the cancellation of the token. A preparation callback is a tree of its accesses to the context.
  Bounded channels are queues; a send fails when all receivers are gone, and a receive fails when
  the queue is empty and all senders are gone.
  \<open>serde_json\<close> is a pair of parameters, a partial serializer and a partial parser; conversions of the
  parsed wire structs are modelled. Diagnostics of a plan carry severity, code, subject and related
  names, but no message; whether the reservation of a target's source list succeeds is a parameter of
  the resolver. For the bounded parsers, whose visitors run while \<open>serde_json\<close> reads, the parameter
  delivers a tree of values that may end early at a syntax error. The operating system is a
  parameter as well: what opening, inspecting, reading, mapping and canonicalizing return; \<open>serves\<close> and
  \<open>reads\<close> state its documented behaviour for files that are not modified. Locks are not contended, and
  the digests that a failing snapshot has already cached are not kept, which only repeats their computation.

  \<^bold>\<open>What is shown\<close>
  The properties below go from the data model (safe physical addressing, complete and preserved
  facts), over graphs (well-formed builders, round trips, alias queries, exact memory estimates),
  the kernels (element-wise correctness, equivalence of every fast path with its reference), and
  preparation (sizes enforced against any provider, correct casts) to host execution of whole
  graphs: the output bytes are those of the node specifications and the scratch peak is the
  estimate. For GGUF files: parsing inverts the encoding, whatever pieces the operating system
  returns; every accepted file has aligned, disjoint tensors inside the file; reads outside the
  header are refused. Inventories, repository paths, packed storage and capability sets have
  their invariants, canonical forms and lookups. Executions of the pipeline account exactly for
  every permit, stay within all configured bounds and deliver in ordinal order under every schedule; they
  end within a bound on the number of steps, and do not block when callbacks are disciplined; a schedule
  that blocks without this discipline is exhibited. Accepted binding plans bind every target to the
  sources its contract names and nothing else, and have exactly one serialized form.
  Overlay plans are built exactly when their parts fit, list the operations of every base in order, and
  digest one target without regard to the others. The tensors of an accepted safetensors file tile its
  data section as its header says; an opened checkpoint delivers every tensor of its inventory exactly, its
  snapshot covers the contents of all its sources, and a local index never leads outside its directory.

  \<^bold>\<open>Not modelled\<close>
  Materialization (materialize.rs) joins the modelled parts, plans, checkpoints, the engine and the pipeline,
  with the cache; the cache (cache.rs) is an on-disk store whose behaviour lies in directory listings, locks
  between processes, renames and memory maps of the operating system. Both are not part of this library; see
  the component list of the manifest. Durations of events and error texts are left out. The
  execution theorem covers graphs without provider nodes on non-empty tensors.
\<close>

section \<open>Properties\<close>

text \<open>
  C1. Host execution of a whole graph is correct and has the estimated memory use. For a well-formed
graph of data-movement nodes on non-empty tensors that pins the built-in implementations, with views
of the right lengths bound to its inputs, an unlimited run returns, and any run that returns yields
an output whose bytes follow from the input bytes by the element-wise specification of every node in
order, with a measured scratch peak equal to the static estimate. A run fails only when it is
cancelled or out of memory.
\<close>

theorem host_execution_correct:
  assumes "host_ready g" and "inputs_bound g views" and "estimate_host_scratch_bytes g = Inr bytes"
  shows "delivers (execute_host avx2 providers g views) (\<lambda>r. peak_scratch_bytes r = bytes
    \<and> (\<exists>vals. computed g views (length (graph_nodes g)) vals \<and> as_slice (host_output r) = vals (graph_output g)))"
  unfolding execute_host_def
  by (rule delivers_bindE[OF execute_host_inner_runs[OF assms]]) (rule delivers_retE)

theorem host_execution_correct_witness:
  "delivers (execute_host True [] sample_graph [whole [1, 2, 3, 4, 5, 6]]) (\<lambda>r. peak_scratch_bytes r = 0
    \<and> (\<exists>vals. computed sample_graph [whole [1, 2, 3, 4, 5, 6]] (length (graph_nodes sample_graph)) vals
        \<and> as_slice (host_output r) = vals (graph_output sample_graph)))"
  by (rule host_execution_correct[OF sample_ready sample_bound sample_estimate]) simp

text \<open>
  C2. Validated tensor facts address their physical storage safely: every logical coordinate maps,
through the storage strides, to an element inside the allocation, and two different logical
coordinates never share one.
\<close>

theorem physical_addressing_safe:
  assumes "wf_facts F" and "in_shape c (logical_shape F)" and "in_shape c' (logical_shape F)"
  shows "(offset c (storage_strides F) + 1) * width F \<le> byte_len F
    \<and> (offset c (storage_strides F) = offset c' (storage_strides F) \<longleftrightarrow> c = c')"
  using wf_facts_addressing[OF assms(1,2)] assms(3) wf_facts_byte_len(1)[OF assms(1)]
  by (auto simp: Suc_leI intro: mult_le_mono1 simp del: mult_Suc)

theorem physical_addressing_safe_witness:
  "\<exists>F. TensorFacts_new [2, 3] [3, 4] [3, 1] [1, 4]
        (Representation_new F16 (Custom ''padded'' 1 [])) 24 = Inr F
     \<and> (offset [1, 2] (storage_strides F) + 1) * width F \<le> byte_len F"
proof -
  obtain F where F: "TensorFacts_new [2, 3] [3, 4] [3, 1] [1, 4]
      (Representation_new F16 (Custom ''padded'' 1 [])) 24 = Inr F"
    by (simp add: facts_eval)
  have "in_shape [1, 2] (logical_shape F)"
    using TensorFacts_new_fields[OF F] by simp
  with F physical_addressing_safe[OF TensorFacts_new_wf[OF F], of "[1, 2]" "[1, 2]"]
  show ?thesis by blast
qed

text \<open>
  C3. Contiguous facts are accepted whenever they can be: for a shape without zero dimensions whose
byte length fits 64 bits, the constructor succeeds, records the exact byte length and row-major
strides, and the result is canonical. The stride validators therefore never refuse dense data.
\<close>

theorem contiguous_facts_complete:
  assumes "0 \<notin> set shape" and "length shape < u32_bound" and "layout r = Contiguous"
    and "prod_list shape * (bits (dtype r) div 8) < u64_bound"
  shows "\<exists>F. TensorFacts_contiguous shape r = Inr F \<and> is_canonical_contiguous F
    \<and> logical_shape F = shape \<and> storage_strides F = row_strides shape
    \<and> byte_len F = prod_list shape * (bits (dtype r) div 8)"
proof -
  obtain F where F: "TensorFacts_contiguous shape r = Inr F"
    using TensorFacts_contiguous_total[OF assms] by blast
  show ?thesis
    using F TensorFacts_contiguous_Inr[OF F] wf_facts_byte_len(1)[of F] by (auto simp: width_def)
qed

theorem contiguous_facts_complete_witness:
  "\<exists>F. TensorFacts_contiguous [2, 3, 4] (Representation_contiguous F32) = Inr F \<and> byte_len F = 96"
  using contiguous_facts_complete[of "[2, 3, 4]" "Representation_contiguous F32"]
  by (auto simp: u32_bound_def u64_bound_def)



text \<open>
  C5. A split yields one output per range; the ranges are non-empty, ordered, pairwise disjoint and
inside the split axis, and each output has the input shape with the length of its range.
\<close>

theorem split_outputs_partition:
  assumes "infer_split sp input = Inr outs"
  shows "length outs = length (split_ranges sp)
    \<and> sorted_wrt (\<lambda>r r'. ar_end r \<le> ar_start r') (split_ranges sp)
    \<and> (\<forall>i < length outs.
         ar_start (split_ranges sp ! i) < ar_end (split_ranges sp ! i)
       \<and> ar_end (split_ranges sp ! i) \<le> logical_shape input ! split_axis sp
       \<and> logical_shape (outs ! i) = (logical_shape input)[split_axis sp :=
            ar_end (split_ranges sp ! i) - ar_start (split_ranges sp ! i)])"
  using infer_split_Inr[OF assms] TensorFacts_contiguous_Inr(2)
  by (auto simp: list_all2_conv_all_nth split_output_def)

theorem split_outputs_partition_witness:
  "\<exists>outs. infer_split \<lparr>split_axis = 0, split_ranges = [\<lparr>ar_start = 0, ar_end = 2\<rparr>, \<lparr>ar_start = 2, ar_end = 3\<rparr>]\<rparr>
      (row_major [3] U8) = Inr outs \<and> length outs = 2"
proof -
  have "infer_split \<lparr>split_axis = 0, split_ranges = [\<lparr>ar_start = 0, ar_end = 2\<rparr>, \<lparr>ar_start = 2, ar_end = 3\<rparr>]\<rparr>
      (row_major [3] U8) = Inr [row_major [2] U8, row_major [1] U8]"
    using row_major_contiguous[of "[2]" U8] row_major_contiguous[of "[1]" U8]
    by (simp add: infer_split_def split_step_def validate_axis_def Axis_as_usize_def small_ok validate_range_def
        AxisRange_is_empty_def AxisRange_len_def wrapping_sub_def u64_bound_def usize_bound_def
        usize_try_from_def)
  then show ?thesis using split_outputs_partition by fastforce
qed

text \<open>
  C6. Every graph that the builder can produce is well formed: input names are distinct, every edge of
a node refers to an external input or to an output of an earlier node, the output facts of every
node are the ones inference gives for its inputs, and all facts in the graph are validated.
\<close>

theorem built_graphs_well_formed:
  assumes "built b" and "builder_build b out = Inr g"
  shows "distinct (map input_name (graph_inputs g))
    \<and> (\<forall>n < length (graph_nodes g). \<forall>v \<in> set (node_inputs (graph_nodes g ! n)).
          available (graph_inputs g) (graph_nodes g) n v)
    \<and> (\<forall>n < length (graph_nodes g). \<exists>fs.
          mapR (\<lambda>v. ok_or Binding (graph_facts g v)) (node_inputs (graph_nodes g ! n)) = Inr fs
        \<and> infer_outputs (node_operation (graph_nodes g ! n)) fs = Inr (node_outputs (graph_nodes g ! n)))
    \<and> (\<forall>v F. graph_facts g v = Some F \<longrightarrow> wf_facts F)"
proof -
  have g: "wf_graph g" using assms built_wf builder_build_wf by blast
  then have wf: "wf_nodes (graph_inputs g) (graph_nodes g)" by (simp add: wf_graph_def)
  show ?thesis
    using wf wf_nodes_edges[OF wf] wf_graph_facts[OF g] wf_graph_inference[OF g] unfolding wf_nodes_def by blast
qed

theorem built_graphs_well_formed_witness:
  "\<exists>b g. built b \<and> builder_build b (NodeOutput 1 0) = Inr g \<and> length (graph_nodes g) = 2
     \<and> distinct (map input_name (graph_inputs g))"
proof -
  obtain b where b: "built b" "builder_build b (NodeOutput 1 0) = Inr sample_graph" using sample_built by blast
  from built_graphs_well_formed[OF b] b show ?thesis by (auto simp: sample_graph_def)
qed

text \<open>
  C7. The loop of output_input_alias ends on every well-formed graph, and the ordinal it returns is
that of an external input.
\<close>

theorem alias_query_terminates:
  assumes "wf_graph g"
  shows "\<exists>r. output_input_alias g = Some r \<and> (\<forall>i. r = Some i \<longrightarrow> i < length (graph_inputs g))"
proof -
  have "value_facts (graph_inputs g) (take (length (graph_nodes g)) (graph_nodes g)) (graph_output g) \<noteq> None"
    using assms by (simp add: wf_graph_def graph_facts_def)
  then have "available (graph_inputs g) (graph_nodes g) (length (graph_nodes g)) (graph_output g)"
    by (simp only: value_facts_available)
  then obtain r where r: "alias_loop g (graph_output g) = Some r"
    using alias_loop_returns[of g] assms by (auto simp: wf_graph_def)
  have "i < length (graph_inputs g)" if "r = Some i" for i
    using alias_loop_result[OF r] that by blast
  then show ?thesis using r by (simp add: output_input_alias_def)
qed

theorem alias_query_terminates_witness: "\<exists>r. output_input_alias sample_graph = Some r"
  using alias_query_terminates[OF sample_graph_wf] by blast

text \<open>
  C8. Deserialization replays the wire form through the builder and restores exactly the graph that
was serialized, inferred facts included.
\<close>

theorem graph_serialization_round_trip:
  assumes "wf_graph g"
  shows "OperationGraph_try_from (to_wire g) = Inr g"
  using assms by (rule replay_graph)

theorem graph_serialization_round_trip_witness:
  "OperationGraph_try_from (to_wire sample_graph) = Inr sample_graph"
  using graph_serialization_round_trip[OF sample_graph_wf] .

text \<open>
  C9. Two hashed messages are equal only if their domains and their part lists are equal: the length
frames make concatenation unambiguous, so a digest never confuses the boundaries of its parts.
\<close>

theorem hash_framing_injective:
  assumes "hash_input d ps = hash_input d' qs" and "length d < 256 ^ 16" and "length d' < 256 ^ 16"
    and "\<forall>p \<in> set ps \<union> set qs. length p < 256 ^ 16"
  shows "d = d' \<and> ps = qs"
proof -
  have "frame d @ concat (map frame ps) = frame d' @ concat (map frame qs)"
    using assms(1) by (simp add: hash_input_def)
  from frame_append_inj[OF this assms(2,3)] frames_inj[of ps qs] assms(4) show ?thesis by auto
qed

theorem hash_framing_injective_witness:
  "hash_input [1] [[2], [3, 4]] = hash_input [1] [[2], [3, 4]] \<and> hash_input [1] [[2], [3, 4]] \<noteq> hash_input [1] [[2, 3], [4]]"
proof -
  have "hash_input [1] [[2], [3, 4]] \<noteq> hash_input [1] [[2, 3], [4]]"
    using hash_framing_injective[of "[1]" "[[2], [3, 4]]" "[1]" "[[2, 3], [4]]"] by auto
  then show ?thesis by simp
qed

text \<open>
  C10. The reference-counted schedule behind the scratch estimate refines a specification without
reference counts: if the counters fit 64 bits, the estimate is the peak, over the nodes, of the
bytes of all allocations that a later node or the graph output still needs together with the
node's own outputs and its declared scratch, less the allocation of the graph output; otherwise
the estimate is that value or fails as a resource limit.
\<close>

theorem scratch_estimate_exact:
  assumes "wf_graph g"
  shows "(fits g (static_owner g) (static_transient g) \<longrightarrow>
      estimate_host_scratch_bytes g = Inr (scratch_spec g (static_owner g) (static_transient g)))
    \<and> estimate_host_scratch_bytes g \<in> {Inr (scratch_spec g (static_owner g) (static_transient g)), Inl ResourceLimit}"
  using estimate_meets[OF assms] by (auto simp: meets_def split: sum.splits)

theorem scratch_estimate_exact_witness:
  "estimate_host_scratch_bytes sample_graph \<in> {Inr (scratch_spec sample_graph (static_owner sample_graph)
     (static_transient sample_graph)), Inl ResourceLimit}"
  using scratch_estimate_exact[OF sample_graph_wf] by blast



text \<open>
  C12. A logical permutation moves every element to its permuted coordinate: for the facts that
inference gives, the output element at a coordinate is the input element whose axes are scattered
by the order.
\<close>

theorem logical_permutation_correct:
  assumes "view_of F v" and "infer_permute p F = Inr [G]" and "permute_mode p = Logical"
    and "length out = byte_len G"
  shows "delivers (execute_permute_bytes p F G v out) (wrote G (\<lambda>c.
    element F (as_slice v) (scatter_strides (permute_order p) c (length (permute_order p)))) out)"
proof -
  from infer_permute_logical[OF assms(2,3)] have perm: "validate_permutation (permute_order p) = Inr ()"
    "length (permute_order p) = length (logical_shape F)"
    and G: "TensorFacts_contiguous (map ((!) (logical_shape F)) (permute_order p))
        (Representation_contiguous (dtype (representation F))) = Inr G" by auto
  note c = TensorFacts_contiguous_Inr[OF G]
  show ?thesis
    using c rows_fit_canonical[OF c(8)] assms perm by (intro execute_permute_logical_delivers) simp_all
qed

theorem logical_permutation_correct_witness:
  "delivers (execute_permute_bytes \<lparr>permute_order = [1, 0], permute_mode = Logical\<rparr>
       (row_major [2, 3] U8) (row_major [3, 2] U8) (whole [1, 2, 3, 4, 5, 6]) (replicate 6 0))
     (\<lambda>r. element (row_major [3, 2] U8) r [2, 1] = [6])"
proof -
  let ?p = "\<lparr>permute_order = [1, 0], permute_mode = Logical\<rparr>"
  have v: "view_of (row_major [2, 3] U8) (whole [1, 2, 3, 4, 5, 6])" by (rule row_major_view) simp_all
  have i: "infer_permute ?p (row_major [2, 3] U8) = Inr [row_major [3, 2] U8]"
    using infer_transpose by (simp add: infer_outputs_def one_input_def)
  have "element (row_major [2, 3] U8) [1, 2, 3, 4, 5, 6] (scatter_strides [1, 0] [2, 1] 2) = [6]"
    by (simp add: element_def chunk_def width_def scatter_strides_def numeral_2_eq_2)
  moreover have "delivers (execute_permute_bytes ?p (row_major [2, 3] U8) (row_major [3, 2] U8)
      (whole [1, 2, 3, 4, 5, 6]) (replicate 6 0)) (wrote (row_major [3, 2] U8) (\<lambda>c.
      element (row_major [2, 3] U8) [1, 2, 3, 4, 5, 6] (scatter_strides [1, 0] c 2)) (replicate 6 0))"
    using logical_permutation_correct[OF v i, of "replicate 6 0"] by (simp add: numeral_2_eq_2)
  ultimately show ?thesis
    by (elim delivers_mono) (simp add: wrote_def)
qed

text \<open>
  C13. The tiled concatenation of contiguous inputs and the element-wise one agree: on non-empty
contiguous inputs the fast path delivers a buffer, and the general kernel delivers the same
buffer whatever its output was initialized with.
\<close>

theorem concat_fast_path_equivalent:
  assumes "contiguous_ready (axis, Fs, G, vs)"
  shows "delivers (build_contiguous_concat axis Fs G vs) (\<lambda>fast. \<forall>out. length out = byte_len G \<longrightarrow>
    delivers (execute_concat_bytes axis Fs G vs out) (\<lambda>general. general = fast))"
proof (rule delivers_mono[OF build_contiguous_concat_delivers[OF assms]], intro allI impI)
  fix fast out :: "u8 list" assume fast: "\<forall>out. wrote G (concat_element axis Fs (map as_slice vs)) out fast"
    and out: "length out = byte_len G"
  have r: "concat_ready (axis, Fs, G, vs)" and G: "is_canonical_contiguous G" "wf_facts G"
    using assms by (auto simp: contiguous_ready_def concat_ready_def)
  show "delivers (execute_concat_bytes axis Fs G vs out) (\<lambda>general. general = fast)"
    by (rule delivers_mono[OF execute_concat_bytes_delivers[OF r rows_fit_canonical[OF G(1)] out]])
      (use wrote_unique[OF G(2)] fast in blast)
qed

theorem concat_fast_path_equivalent_witness:
  "delivers (build_contiguous_concat 0 [row_major [1, 2] U8, row_major [2, 2] U8] (row_major [3, 2] U8)
       [whole [1, 2], whole [3, 4, 5, 6]])
     (\<lambda>fast. delivers (execute_concat_bytes 0 [row_major [1, 2] U8, row_major [2, 2] U8] (row_major [3, 2] U8)
       [whole [1, 2], whole [3, 4, 5, 6]] (replicate 6 0)) (\<lambda>general. general = fast))"
proof -
  let ?Fs = "[row_major [1, 2] U8, row_major [2, 2] U8]" let ?vs = "[whole [1, 2], whole [3, 4, 5, 6]]"
  have v: "view_of (row_major [1, 2] U8) (whole [1, 2])" "view_of (row_major [2, 2] U8) (whole [3, 4, 5, 6])"
    by (rule row_major_view; simp)+
  have ok: "wf_facts (row_major [3, 2] U8)" "is_canonical_contiguous (row_major [3, 2] U8)"
      "is_canonical_contiguous (row_major [1, 2] U8)" "is_canonical_contiguous (row_major [2, 2] U8)"
    by (rule row_major_ok; simp)+
  have "contiguous_ready (0, ?Fs, row_major [3, 2] U8, ?vs)"
    unfolding contiguous_ready_def concat_ready_def
    using v ok by (auto simp: less_Suc_eq width_def axis_dims_def u64_bound_def)
  from concat_fast_path_equivalent[OF this] show ?thesis by (rule delivers_mono) simp
qed

text \<open>
  C14. A slice copies exactly the selected window: for the facts that inference gives, the output
element at a coordinate is the input element shifted by the range starts.
\<close>

theorem slice_correct:
  assumes "view_of F v" and "infer_slice ranges F = Inr [G]" and "length out = byte_len G"
  shows "delivers (execute_slice_bytes ranges F v G out)
    (wrote G (\<lambda>c. element F (as_slice v) (shift ranges c)) out)"
  using infer_slice_ready[OF assms(2,1)] assms(3) execute_slice_bytes_delivers by auto

theorem slice_correct_witness:
  "delivers (execute_slice_bytes [\<lparr>ar_start = 1, ar_end = 3\<rparr>] (row_major [4] U8) (whole [1, 2, 3, 4])
      (row_major [2] U8) [0, 0]) (\<lambda>r. element (row_major [2] U8) r [1] = [3])"
proof -
  let ?r = "[\<lparr>ar_start = 1, ar_end = 3\<rparr>]"
  have v: "view_of (row_major [4] U8) (whole [1, 2, 3, 4])" by (rule row_major_view) simp_all
  have i: "infer_slice ?r (row_major [4] U8) = Inr [row_major [2] U8]"
    using row_major_contiguous[of "[2]" U8]
    by (simp add: infer_slice_def validate_range_def AxisRange_len_def wrapping_sub_def u64_bound_def)
  have "delivers (execute_slice_bytes ?r (row_major [4] U8) (whole [1, 2, 3, 4]) (row_major [2] U8) [0, 0])
      (wrote (row_major [2] U8) (\<lambda>c. element (row_major [4] U8) [1, 2, 3, 4] (shift ?r c)) [0, 0])"
    using slice_correct[OF v i, of "[0, 0]"] by simp
  then show ?thesis
    by (elim delivers_mono) (simp add: wrote_def shift_def, simp add: element_def chunk_def width_def)
qed

text \<open>
  C15. The AVX2 kernel and the scalar kernel are interchangeable: on buffers of the checked length both
deliver, and the bytes they deliver are the same, namely the transposed channels.
\<close>

theorem vector_kernel_equivalent:
  assumes "length input = outs * (ins * 18)" "outs * (ins * 18) < usize_bound"
    and "length output = outs * (ins * 18)" and "0 < outs"
  shows "delivers (permute_with_dispatch True input output outs ins) (\<lambda>fast.
    transposed 2 outs ins 9 input (snd fast)
    \<and> delivers (permute_with_dispatch False input output outs ins) (\<lambda>slow. snd slow = snd fast))"
proof (rule delivers_mono[OF permute_with_dispatch_delivers[OF assms]], rule conjI)
  fix fast :: "Dispatch \<times> u8 list" assume f: "transposed 2 outs ins 9 input (snd fast)"
  then show "transposed 2 outs ins 9 input (snd fast)" .
  show "delivers (permute_with_dispatch False input output outs ins) (\<lambda>slow. snd slow = snd fast)"
    by (rule delivers_mono[OF permute_with_dispatch_delivers[OF assms]]) (rule transposed_unique[OF _ f])
qed

theorem vector_kernel_equivalent_witness:
  "delivers (permute_with_dispatch True (replicate 288 7) (replicate 288 0) 1 16) (\<lambda>fast.
    delivers (permute_with_dispatch False (replicate 288 7) (replicate 288 0) 1 16) (\<lambda>slow. snd slow = snd fast))"
proof -
  have "(288 :: nat) < usize_bound" by (simp add: usize_bound_def)
  then have "delivers (permute_with_dispatch True (replicate 288 7) (replicate 288 0) 1 16) (\<lambda>fast.
    transposed 2 1 16 9 (replicate 288 7) (snd fast)
    \<and> delivers (permute_with_dispatch False (replicate 288 7) (replicate 288 0) 1 16) (\<lambda>slow. snd slow = snd fast))"
    by (intro vector_kernel_equivalent) simp_all
  then show ?thesis by (rule delivers_mono) blast
qed

text \<open>
  C16. The OIHW to OHWI fast path agrees with the general storage copy: on a non-empty contiguous
tensor with the facts inference gives it either declines or delivers a buffer, and then the
general copy delivers the same buffer, with or without the vector kernel.
\<close>

theorem oihw_fast_path_equivalent:
  assumes "view_of F v" and "infer_permute p F = Inr [G]" and "permute_mode p = Storage target"
    and "is_canonical_contiguous F" and "permute_order p = [0, 2, 3, 1]" and "0 < prod_list (logical_shape F)"
  shows "delivers (build_oihw_to_ohwi_if_supported avx2 p F G (as_slice v)) (\<lambda>r. \<forall>fast out.
    r = Some fast \<longrightarrow> length out = byte_len G \<longrightarrow>
    delivers (execute_storage_copy F G v out) (\<lambda>general. general = fast))"
proof -
  have F: "wf_facts F" and len: "length (as_slice v) = byte_len F"
    using assms(1) view_of_bytes(1)[OF assms(1)] by (auto simp: view_of_def)
  obtain outs ins kh kw where o: "ohwi_of F G outs ins kh kw"
    using infer_ohwi[OF assms(2,3,5) F assms(4)] by blast
  then have pos: "0 < outs * (ins * (kh * kw))" and G: "wf_facts G" "logical_shape F = logical_shape G"
    "dtype (representation F) = dtype (representation G)" "0 < prod_list (logical_shape G)"
    using assms(6) by (auto simp: ohwi_of_def)
  have "0 \<notin> set (logical_shape G)" using G(4) prod_list_zero_iff[of "logical_shape G"] by auto
  then have "rows_fit G" using rows_fit_nonempty[OF G(1)] by blast
  then have copy: "delivers (execute_storage_copy F G v out) (wrote G (element F (as_slice v)) out)"
    if "length out = byte_len G" for out
    using execute_storage_copy_delivers[OF assms(1) G(1) _ G(2,3)] that by blast
  show ?thesis
    by (rule delivers_mono[OF build_oihw_to_ohwi_if_supported_delivers[OF o pos len]])
      (use copy wrote_unique[OF G(1)] in \<open>blast intro: delivers_mono\<close>)
qed

theorem oihw_fast_path_equivalent_witness:
  "\<exists>G. infer_permute \<lparr>permute_order = [0, 2, 3, 1], permute_mode = Storage (Custom ''ohwi'' 1 [])\<rparr>
        (row_major [1, 2, 1, 2] U8) = Inr [G]
     \<and> delivers (build_oihw_to_ohwi_if_supported True
          \<lparr>permute_order = [0, 2, 3, 1], permute_mode = Storage (Custom ''ohwi'' 1 [])\<rparr>
          (row_major [1, 2, 1, 2] U8) G [1, 2, 3, 4]) (\<lambda>r. \<forall>fast out. r = Some fast \<longrightarrow> length out = byte_len G \<longrightarrow>
          delivers (execute_storage_copy (row_major [1, 2, 1, 2] U8) G (whole [1, 2, 3, 4]) out)
            (\<lambda>general. general = fast))"
proof -
  let ?p = "\<lparr>permute_order = [0, 2, 3, 1], permute_mode = Storage (Custom ''ohwi'' 1 [])\<rparr>"
  let ?F = "row_major [1, 2, 1, 2] U8"
  have v: "view_of ?F (whole [1, 2, 3, 4])" by (rule row_major_view) simp_all
  have c: "is_canonical_contiguous ?F" by (rule row_major_ok) simp_all
  obtain G where G: "infer_permute ?p ?F = Inr [G]"
    by (simp add: infer_permute_def validate_permutation_def permutation_step_def permutation_indices_def
        scatter_strides_def facts_eval u32_try_from_def usize_try_from_def)
  from oihw_fast_path_equivalent[OF v G _ c, of _ True] G show ?thesis by auto
qed

text \<open>
  C17. The two cast implementations agree for every supported dtype pair and every behaviour of the
half-precision library: the in-place cast into a buffer and the appending cast deliver the same
bytes, the element-wise conversion of the source, whatever the buffer held.
\<close>

theorem casts_agree:
  assumes "owned_arm h s t = Some convert"
    and "length source = n * (bits s div 8)" "length source < usize_bound"
    and "length out = n * (bits t div 8)" "length out < usize_bound"
  shows "delivers (cast_float_bytes h s source t out) (\<lambda>r.
      r = concat (map convert (chunks_exact (bits s div 8) source)))
    \<and> delivers (cast_float_bytes_owned h s source t (length out)) (\<lambda>r.
      r = concat (map convert (chunks_exact (bits s div 8) source)))"
  using cast_float_bytes_delivers[OF assms] cast_float_bytes_owned_delivers[OF assms(1-3)] assms(4,5)
  by (simp add: cast_spec_def)

theorem casts_agree_witness:
  "delivers (cast_float_bytes \<lparr>f16_from_f32 = (\<lambda>_. 0), f16_to_f32 = (\<lambda>_. 0), bf16_from_f32 = (\<lambda>_. 0),
      bf16_to_f32 = (\<lambda>_. 0)\<rparr> U8 [0, 1, 3] F32 (replicate 12 9)) (\<lambda>r.
      r = [0, 0, 0, 0, 0, 0, 128, 63, 0, 0, 64, 64])"
proof -
  let ?h = "\<lparr>f16_from_f32 = (\<lambda>_. 0), f16_to_f32 = (\<lambda>_. 0), bf16_from_f32 = (\<lambda>_. 0), bf16_to_f32 = (\<lambda>_. 0)\<rparr>"
  have arm: "owned_arm ?h U8 F32 = Some (\<lambda>s. u32_le (f32_from_u8 (s ! 0)))" by (simp add: owned_arm_def)
  have "concat (map (\<lambda>s. u32_le (f32_from_u8 (s ! 0))) (chunks_exact 1 [0, 1, 3])) =
      [0, 0, 0, 0, 0, 0, 128, 63, 0, 0, 64, 64]"
    by (simp add: chunks_exact_def chunk_def upt_rec f32_from_u8_def leading_bit_def u32_le_def drop_bit_eq_div)
  then show ?thesis
    using casts_agree[OF arm, of "[0, 1, 3]" 3 "replicate 12 9"] by (simp add: usize_bound_def)
qed


text \<open>
  C19. The preparation engine never passes on a result of unplanned size, whatever the provider does: a
returned view has the planned length, and it is either the unchanged source of a plan without
scratch, or the bytes that the provider with the requested identity produced in storage of exactly
the planned sizes.
\<close>

theorem provider_output_checked:
  assumes "prepare_with_cancellation providers req e = Inr (v, e')"
  shows "view_len v = expected_output_bytes req
    \<and> (v = req_source req \<and> expected_scratch_bytes req = 0
       \<or> (\<exists>p bytes e1 e2. resolve providers (transform_implementation (req_transform req)) = Inr p
          \<and> provider_prepare_allocated p req (expected_output_bytes req) (expected_scratch_bytes req) e1 = Inr (bytes, e2)
          \<and> as_slice v = bytes))"
  using assms by (rule prepare_result)

theorem provider_output_checked_witness:
  "\<exists>h v e'. prepare_with_cancellation [(contiguous_id, contiguous_provider h)] sample_request sample_env = Inr (v, e')
    \<and> view_len v = 8"
proof -
  obtain v e' where r: "prepare_with_cancellation [(contiguous_id, contiguous_provider zero_half)] sample_request sample_env = Inr (v, e')"
    using sample_prepared by blast
  from provider_output_checked[OF this] have "view_len v = 8" by simp
  with r show ?thesis by blast
qed

text \<open>
  C20. The engine with the built-in providers delivers every supported contiguous transform: an identical
representation reuses the source view without copying, and a supported cast returns the element-wise
conversion of the source bytes, in exactly the planned number of bytes.
\<close>

theorem contiguous_preparation_correct:
  assumes "registry_with_builtins h = Inr providers" and "contiguous_accepts req"
  shows "delivers (prepare_with_cancellation providers req) (\<lambda>v. wf_view v \<and> as_slice v = contiguous_prepared h req
    \<and> view_len v = expected_output_bytes req \<and> (contiguous_strategy req = ReuseSource \<longrightarrow> v = req_source req))"
proof (rule contiguous.engine_prepares)
  show "resolve providers (transform_implementation (req_transform req)) = Inr (contiguous_provider h)"
    using resolve_builtins[OF assms(1)] assms(2) by (simp add: contiguous_accepts_def)
  show "wf_view (req_source req)" using assms(2) by (simp add: contiguous_accepts_def)
qed (rule assms(2))

theorem contiguous_preparation_correct_witness:
  "\<exists>providers. registry_with_builtins zero_half = Inr providers
    \<and> delivers (prepare_with_cancellation providers sample_request) (\<lambda>v. wf_view v
      \<and> as_slice v = contiguous_prepared zero_half sample_request
      \<and> view_len v = 8 \<and> (contiguous_strategy sample_request = ReuseSource \<longrightarrow> v = req_source sample_request))"
proof -
  obtain providers where r: "registry_with_builtins zero_half = Inr providers" using builtins_registered by blast
  from contiguous_preparation_correct[OF r sample_request_accepted] r show ?thesis by auto
qed

text \<open>
  C21. Parsing an encoded GGUF container gives it back. For every document that the format can express
and the limits admit (all metadata value types, arrays nested up to the depth limit), stored at the
start of a file that returns its bytes in pieces of any size, the parser delivers the version, the
metadata entries in key order, the alignment, and one record per tensor description in file order.
\<close>

theorem gguf_round_trip:
  assumes "encodable_document limits d" and "reads file contents" and "length contents < u64_bound"
    and "take (length (encode_document d)) contents = encode_document d"
    and "increasing m" and "map_of m = map_of (doc_entries d)"
    and "metadata_alignment m = Inr alignment"
    and "align_up (length (encode_document d)) alignment = Inr data_base"
    and "data_base \<le> length contents" and "data_base \<le> max_header_bytes limits"
    and "list_all2 (\<lambda>raw r. build_tensor_record fid (length contents) data_base alignment raw = Inr r) (doc_tensors d) rs"
    and "sorted_wrt (\<lambda>a b. apart (record_range a) (record_range b)) rs"
  shows "delivers (gguf_parse file fid (length contents) limits) (\<lambda>p. p =
    \<lparr>parsed_metadata = \<lparr>gguf_version = doc_version d, gguf_alignment = alignment, gguf_entries = m\<rparr>, parsed_tensors = rs\<rparr>)"
proof -
  have len: "length (encode_document d) \<le> length contents" using arg_cong[OF assms(4), of length] by simp
  have m: "foldR (insert_unique InvalidFormat) (doc_entries d) [] = Inr m"
    using assms(1,5,6) by (simp add: collect_unique encodable_document_def)
  show ?thesis
    by (rule delivers_mono[OF gguf_parse_document[OF assms(1-4) len m assms(7-10) build_tensor_records_complete[OF assms(11,12)]]])
      simp
qed

theorem gguf_round_trip_witness:
  "delivers (gguf_parse (whole_file sample_contents) 0 (length sample_contents) sample_limits) (\<lambda>p. p =
    \<lparr>parsed_metadata = \<lparr>gguf_version = 3, gguf_alignment = 32, gguf_entries = sample_entries\<rparr>,
     parsed_tensors = [sample_w, sample_q]\<rparr>)"
proof -
  have d: "doc_version sample_document = 3" "doc_entries sample_document = sample_entries" "doc_tensors sample_document = sample_raws"
    by (simp_all add: sample_document_def)
  have m: "increasing sample_entries" using sample_collected unfolding collect_unique by blast
  show ?thesis
    using gguf_round_trip[OF sample_encodable whole_file_reads[of sample_contents] sample_size sample_prefix m, of 32 192 0
        "[sample_w, sample_q]"] sample_alignment sample_base sample_records_built sample_records_apart
    unfolding d sample_length by (simp add: sample_limits_def)
qed



text \<open>
  C23. The buffered header reader refines the file contents: at any position, with any valid buffer and
whatever pieces single positioned reads return, reading n bytes inside the file and the header
limit ends and gives exactly the bytes of the file at that position, leaving a valid reader behind
them.
\<close>

theorem buffered_reader_exact:
  assumes "stands contents limit pos r" and "pos + n \<le> limit" and "pos + n \<le> length contents"
  shows "delivers (read_into n r) (\<lambda>p. fst p = take n (drop pos contents) \<and> stands contents limit (pos + n) (snd p))"
  using assms by (rule read_into_stands)

theorem buffered_reader_exact_witness:
  "delivers (read_into 2 (Reader_new (\<lambda>start n. Inr (take (min n 1) (drop start [7, 8, 9]))) 3 100))
     (\<lambda>p. fst p = [7, 8] \<and> stands [7, 8, 9] 100 2 (snd p))"
proof -
  have "\<exists>k. take (min n 1) (drop start [7, 8, 9 :: u8]) = take k (drop start [7, 8, 9]) \<and> k \<le> n
      \<and> (k = 0 \<longrightarrow> n = 0 \<or> length [7, 8, 9 :: u8] \<le> start)" for start n :: nat
    by (intro exI[of _ "min n 1"]) auto
  then have "reads (\<lambda>start n. Inr (take (min n 1) (drop start [7, 8, 9]))) [7, 8, 9]"
    unfolding reads_def by blast
  then have "stands [7, 8, 9] 100 0 (Reader_new (\<lambda>start n. Inr (take (min n 1) (drop start [7, 8, 9]))) 3 100)"
    by (simp add: stands_def Reader_new_def u64_bound_def)
  from buffered_reader_exact[OF this, of 2] show ?thesis by (simp add: numeral_2_eq_2)
qed



text \<open>
  C25. The inventory implements a map from names to tensors: looking up a name by binary search returns
exactly the tensor with that name, for every accepted list of tensors in any order, and an inventory
that went through its serialized form is the same.
\<close>

theorem inventory_lookup_exact:
  assumes "Inventory_new files tensors = Inr invt"
  shows "(Inventory_tensor invt name = Some t \<longleftrightarrow> t \<in> set tensors \<and> tensor_name t = name)
    \<and> Inventory_try_from invt = Inr invt"
  using inventory_lookup[OF assms] inventory_replay[OF assms] by blast

theorem inventory_lookup_exact_witness:
  "\<exists>invt. Inventory_new [sample_file] [sample_w, sample_q] = Inr invt \<and> Inventory_tensor invt ''q'' = Some sample_q
     \<and> Inventory_try_from invt = Inr invt"
  using sample_inventory inventory_lookup_exact by (fastforce simp: sample_q_def)

text \<open>
  C26. Every accepted inventory is valid: file ordinals are dense and ordered by path, tensor names are
unique and ordered, and the payload and companion spans of every tensor lie inside the file they
name.
\<close>

theorem inventory_spans_valid:
  assumes "Inventory_new files tensors = Inr invt"
  shows "wf_inventory invt \<and> mset (inventory_tensors invt) = mset tensors \<and> inventory_files invt = files"
  using Inventory_new_Inr[OF assms] by simp

theorem inventory_spans_valid_witness:
  "\<exists>invt. Inventory_new [sample_file] [sample_w, sample_q] = Inr invt \<and> wf_inventory invt"
  using sample_inventory inventory_spans_valid by blast

text \<open>
  C27. Accepted repository paths stay inside their root: walking the components of the path from any
directory only descends, ending at that directory extended by all components, and the text of the
path is kept as it is.
\<close>

theorem repo_paths_confined:
  assumes "RepoPath_parse path = Inr p"
  shows "p = path \<and> walk dir (split_char CHR ''/'' p) = dir @ split_char CHR ''/'' p
    \<and> concat (map (\<lambda>c. CHR ''/'' # c) (split_char CHR ''/'' p)) = CHR ''/'' # path"
  using RepoPath_parse_Inr[OF assms, of dir] split_char_join by blast

theorem repo_paths_confined_witness:
  "RepoPath_parse ''a/b.gguf'' = Inr ''a/b.gguf'' \<and> walk [''root''] (split_char CHR ''/'' ''a/b.gguf'') = [''root'', ''a'', ''b.gguf'']"
proof -
  have "RepoPath_parse ''a/b.gguf'' = Inr ''a/b.gguf''" by (simp add: RepoPath_parse_def Let_def platform_absolute_def)
  from this repo_paths_confined[OF this, of "[''root'']"] show ?thesis by simp
qed

text \<open>
  C28. Descriptors of packed weights are exact: when the builder accepts block packing, the payload
span has exactly the bytes of the blocks that the logical shape needs, partial blocks rounded up
per line, without overflow, and every required companion is present; deserializing the descriptor
gives it back.
\<close>

theorem packed_storage_exact:
  assumes "builder_build_quantized b = Inr q" and "q_packing q = Blocks blk" and "BlockPacking_try_from blk = Inr blk"
  shows "span_length (q_payload q) = packed_bytes (q_logical_shape q) blk
    \<and> prod_list (q_logical_shape q) < u64_bound
    \<and> set (q_required_companions q) \<subseteq> dom (map_of (q_companions q))
    \<and> QuantizedStorage_try_from q = Inr q"
proof -
  have wf: "wf_quantized q" by (rule build_quantized_wf[OF assms(1)])
  then have "validate_shape_and_packing (q_logical_shape q) (q_payload q) (q_packing q) = Inr ()" by (simp add: wf_quantized_def)
  moreover have "0 < values_per_block blk" "0 < bytes_per_block blk"
    using assms(3) by (auto simp: BlockPacking_try_from_def BlockPacking_new_def bindR_Inr)
  ultimately show ?thesis
    using validate_packing_Inr[of "q_logical_shape q" "q_payload q" "q_packing q"] assms(2) wf quantized_round_trip[OF wf]
    by (simp add: wf_quantized_def)
qed

theorem packed_storage_exact_witness:
  "\<exists>b q blk. builder_build_quantized b = Inr q \<and> q_packing q = Blocks blk \<and> BlockPacking_try_from blk = Inr blk
     \<and> span_length (q_payload q) = packed_bytes (q_logical_shape q) blk \<and> packed_bytes (q_logical_shape q) blk = 36"
proof -
  obtain b q blk where q: "builder_build_quantized b = Inr q" "q_packing q = Blocks blk" "BlockPacking_try_from blk = Inr blk"
      "span_length (q_payload q) = 36"
    using sample_packed by blast
  from packed_storage_exact[OF q(1-3)] q show ?thesis by metis
qed

text \<open>
  C29. The resource accounting of the pipeline is exact under every interleaving of its threads. In every
reachable state of an execution the used source, scratch and prepared bytes are the sums of the
permits that are held, the recorded peaks bound them and stay within the configured budgets, the
dispatch window, the work queue, the delivery channel and the outputs that wait for an earlier one stay
within their limits, and a coordinator that returned successfully leaves no permit behind.
\<close>

theorem pipeline_budgets_exact:
  assumes start: "begin_execution limits work e = Inr (Inr W, e')"
    and run: "(pipeline_step (execution_config limits prepare sink W))\<^sup>*\<^sup>* (start_execution limits W state) s"
  shows "(\<forall>f \<in> {weight_source, weight_scratch, weight_prepared}. f (budget_used (st_budget s)) = (\<Sum>p \<in># held_permits s. f p)
      \<and> f (budget_used (st_budget s)) \<le> f (budget_peaks (st_budget s))
      \<and> f (budget_peaks (st_budget s)) \<le> f (ResourceWeights_new (source_bytes limits) (scratch_bytes limits) (prepared_bytes limits)))
    \<and> window_used (st_window s) \<le> dispatch_lookahead limits \<and> length (st_queue s) \<le> worker_count limits W
    \<and> length (st_results s) \<le> delivery_queue_depth limits \<and> report_depth (st_report s) \<le> dispatch_lookahead limits - 1
    \<and> (st_coordinator s = Receive \<longrightarrow> length (st_pending s) \<le> dispatch_lookahead limits - 1)
    \<and> (st_coordinator s = Returned (Inr ()) \<longrightarrow> held_permits s = {#})"
proof -
  let ?cfg = "execution_config limits prepare sink W"
  have ok: "flight_ok W s" "windows_ok ?cfg s" "depth_ok ?cfg s" "budget_ok s"
    using begun_reachable(1)[OF start run] by (simp_all add: pipeline_ok_def)
  have v: "valid_run ?cfg W" by (rule begun_valid(1)[OF start])
  have b: "budget_limit (st_budget s) = ResourceWeights_new (source_bytes limits) (scratch_bytes limits) (prepared_bytes limits)"
    using ok(2) by (simp add: windows_ok_def begun_config ResourceBudget_new_def)
  have "length (st_pending s) \<le> dispatch_lookahead limits - 1" if c: "st_coordinator s = Receive"
    using pending_bound[OF v ok(1,2)] ok(1) c by (simp add: active_def flight_ok_def begun_config)
  moreover have "held_permits s = {#}" if c: "st_coordinator s = Returned (Inr ())"
    using ok(1) c by (intro nothing_held) (simp add: flight_ok_def)
  ultimately show ?thesis
    using ok b by (auto simp: windows_ok_def depth_ok_def budget_ok_def accounts_def dims_def total_of_def begun_config)
qed

theorem pipeline_budgets_exact_witness:
  "\<exists>s. run_schedule roomy_config roomy_schedule (start_execution roomy_limits (rev roomy_work) ()) = Some s
     \<and> weight_source (budget_used (st_budget s)) = (\<Sum>p \<in># held_permits s. weight_source p)
     \<and> weight_source (budget_peaks (st_budget s)) \<le> 9 \<and> report_depth (st_report s) \<le> 1"
proof -
  obtain s where s: "run_schedule roomy_config roomy_schedule (start_execution roomy_limits (rev roomy_work) ()) = Some s"
    using roomy_run by blast
  obtain e where "begin_execution roomy_limits roomy_work \<lparr>polls_left = None, reserves_left = None, next_owner = 0\<rparr> = Inr (Inr (rev roomy_work), e)"
    using roomy_accepted by blast
  from pipeline_budgets_exact[OF this run_schedule_reaches[OF s[unfolded roomy_config_def]]] s
  show ?thesis by (auto simp: roomy_limits_def)
qed

text \<open>
  C30. Results reach the sink in the order of their ordinals, whatever the interleaving. In every reachable
state of an execution the accepted items are a prefix of the submitted items in ordinal order, every
value is one that the callback of its own item can return, a coordinator that returned
successfully has delivered every item, and one that returned an error has cancelled the others.
\<close>

theorem pipeline_delivers_in_order:
  assumes start: "begin_execution limits work e = Inr (Inr W, e')"
    and run: "(pipeline_step (execution_config limits prepare sink W))\<^sup>*\<^sup>* (start_execution limits W state) s"
  shows "W = sort_key item_ordinal work \<and> distinct (map item_ordinal work)
    \<and> map fst (st_log s) = take (st_next s) (map item_ordinal W)
    \<and> (\<forall>(ordinal, x) \<in> set (st_log s). \<exists>item \<in> set work. item_ordinal item = ordinal \<and> may_return (prepare (item_value item)) (Inr x))
    \<and> (st_coordinator s = Returned (Inr ()) \<longrightarrow> map fst (st_log s) = map item_ordinal W)
    \<and> (\<forall>e. st_coordinator s = Returned (Inl e) \<longrightarrow> st_cancelled s)"
proof -
  let ?cfg = "execution_config limits prepare sink W"
  have f: "flight_ok W s" using begun_reachable(1)[OF start run] by (simp add: pipeline_ok_def)
  have "\<exists>item \<in> set work. item_ordinal item = ordinal \<and> may_return (prepare (item_value item)) (Inr x)"
    if h: "(ordinal, x) \<in> set (st_log s)" for ordinal x
    using begun_reachable(2)[OF start run] h mset_eq_setD[OF begun_valid(2)[OF start]]
    by (force simp: values_ok_def returned_by_def begun_config)
  moreover have "map fst (st_log s) = map item_ordinal W" if "st_coordinator s = Returned (Inr ())"
    using f that by (simp add: flight_ok_def)
  ultimately show ?thesis using f begun_sorted[OF start] by (auto simp: flight_ok_def)
qed

theorem pipeline_delivers_in_order_witness:
  "\<exists>s. run_schedule roomy_config roomy_schedule (start_execution roomy_limits (rev roomy_work) ()) = Some s
     \<and> joined s \<and> map fst (st_log s) = take (st_next s) [1, 3]"
proof -
  obtain s where s: "run_schedule roomy_config roomy_schedule (start_execution roomy_limits (rev roomy_work) ()) = Some s" "joined s"
    using roomy_run by blast
  obtain e where "begin_execution roomy_limits roomy_work \<lparr>polls_left = None, reserves_left = None, next_owner = 0\<rparr> = Inr (Inr (rev roomy_work), e)"
    using roomy_accepted by blast
  from pipeline_delivers_in_order[OF this run_schedule_reaches[OF s(1)[unfolded roomy_config_def]]] s
  show ?thesis by (auto simp: roomy_work_def)
qed

text \<open>
  C31. Executions end and do not deadlock when callbacks are disciplined. If every callback performs at
most \<open>c\<close> accesses to its context, then no run takes more than \<open>(c + 11)\<close> steps per item
plus one per worker plus four, whatever the schedule; and if callbacks ask for no resources
beyond their reservation, or all items reserve no source and scratch bytes in advance and ask for them
in one request that is not nested, then a state in which no thread can move is one where all threads ended.
\<close>

theorem pipeline_terminates:
  assumes start: "begin_execution limits work e = Inr (Inr W, e')"
    and within: "\<forall>item \<in> set W. prep_within (prepare (item_value item)) c"
    and disciplined: "disciplined (execution_config limits prepare sink W) W"
    and run: "(pipeline_step (execution_config limits prepare sink W) ^^ k) (start_execution limits W state) s"
  shows "k \<le> (c + 11) * length W + worker_count limits W + 4
    \<and> (joined s \<or> (\<exists>s'. dispatcher_step (execution_config limits prepare sink W) s = Some s'
        \<or> coordinator_step (execution_config limits prepare sink W) s = Some s'
        \<or> (\<exists>i < length (st_workers s). worker_step (execution_config limits prepare sink W) i s = Some s')))"
proof -
  let ?cfg = "execution_config limits prepare sink W"
  have v: "valid_run ?cfg W" by (rule begun_valid(1)[OF start])
  have run': "(pipeline_step ?cfg)\<^sup>*\<^sup>* (start_execution limits W state) s" by (rule relpowp_imp_rtranclp[OF run])
  have "k \<le> run_bound c ?cfg"
    using run_length[OF v, of c k state s] within run by (auto simp: begun_config)
  then have "k \<le> (c + 11) * length W + worker_count limits W + 4" by (simp add: run_bound_def execution_config_def)
  moreover have "joined s" if "stuck ?cfg s"
    by (rule stuck_joined[OF v begun_reachable(1)[OF start run'] reachable_lean[OF disciplined run'] begun_reachable(2)[OF start run'] that])
  ultimately show ?thesis unfolding stuck_def by (metis option.exhaust)
qed

theorem pipeline_terminates_witness:
  "\<exists>s. run_schedule roomy_config roomy_schedule (start_execution roomy_limits (rev roomy_work) ()) = Some s \<and> joined s
     \<and> length roomy_schedule \<le> (3 + 11) * length (rev roomy_work) + worker_count roomy_limits (rev roomy_work) + 4"
proof -
  obtain s where s: "run_schedule roomy_config roomy_schedule (start_execution roomy_limits (rev roomy_work) ()) = Some s" "joined s"
    using roomy_run by blast
  obtain e where "begin_execution roomy_limits roomy_work \<lparr>polls_left = None, reserves_left = None, next_owner = 0\<rparr> = Inr (Inr (rev roomy_work), e)"
    using roomy_accepted by blast
  from pipeline_terminates[OF this roomy_within roomy_disciplined[unfolded roomy_config_def] run_schedule_steps[OF s(1)[unfolded roomy_config_def]]] s
  show ?thesis by blast
qed


text \<open>
  C33. Accepted plans bind every target correctly. Bindings are in strict target order; each binds a target of
the contract either to the one inventory source that carries its name or an alias, or to the sources its
graph names in order, and passed the validation of its storage, route and digests; every target is bound
or is optional and recorded as missing; the unused sources are exactly those without a binding, and there are
none unless the policy allows them; a source is shared only inside one tied-weight group.
\<close>

theorem plan_bindings_sound:
  assumes b: "plan_build reserved json sha256 b = Inr plan"
  shows "mset (plan_sources plan) = mset (pb_sources b) \<and> mset (plan_targets plan) = mset (pb_targets b)
    \<and> sorted_wrt (<) (map src_name (plan_sources plan)) \<and> sorted_wrt (<) (map tgt_name (plan_targets plan))
    \<and> sorted_wrt (<) (map (\<lambda>x. tgt_name (binding_target x)) (plan_bindings plan))
    \<and> (\<forall>x \<in> set (plan_bindings plan). binding_target x \<in> set (plan_targets plan) \<and> binding_correct (pb_inputs b) (plan_sources plan) x)
    \<and> (\<forall>t \<in> set (plan_targets plan). (\<exists>x \<in> set (plan_bindings plan). binding_target x = t)
        \<or> tgt_requirement t = Optional \<and> tgt_name t \<in> set (plan_missing plan))
    \<and> set (plan_unused plan) = src_name ` (set (plan_sources plan) - (\<Union>x \<in> set (plan_bindings plan). set (binding_sources x)))
    \<and> (pb_policy b = Reject \<longrightarrow> plan_unused plan = [])
    \<and> (\<forall>x \<in> set (plan_bindings plan). \<forall>y \<in> set (plan_bindings plan). x \<noteq> y \<and> set (binding_sources x) \<inter> set (binding_sources y) \<noteq> {}
        \<longrightarrow> tgt_group (binding_target x) = tgt_group (binding_target y) \<and> tgt_group (binding_target x) \<noteq> None)"
proof -
  obtain r bs where p: "PlanIdentityPayload.truncate plan = plan_payload b r bs" using plan_build_Inr[OF b] by blast
  note F = plan_fields(2-5)[OF p]
  have "mset (plan_sources plan) = mset (pb_sources b)" "mset (plan_targets plan) = mset (pb_targets b)" by (simp_all add: F)
  moreover have "\<forall>x \<in> set (plan_bindings plan). binding_target x \<in> set (plan_targets plan) \<and> binding_correct (pb_inputs b) (plan_sources plan) x"
    using plan_bindings_correct[OF b] unfolding F(1) by blast
  moreover have "pb_policy b = Reject \<longrightarrow> plan_unused plan = []" using plan_unused_exact(2)[OF b] unfolding F(4) by blast
  moreover have "\<forall>x \<in> set (plan_bindings plan). \<forall>y \<in> set (plan_bindings plan). x \<noteq> y \<and> set (binding_sources x) \<inter> set (binding_sources y) \<noteq> {}
        \<longrightarrow> tgt_group (binding_target x) = tgt_group (binding_target y) \<and> tgt_group (binding_target x) \<noteq> None"
    using plan_sharing[OF b] by blast
  ultimately show ?thesis using plan_members(4,6,7)[OF b] plan_targets_covered[OF b] plan_unused_exact(1)[OF b] by blast
qed

theorem plan_bindings_sound_witness:
  "plan_build (\<lambda>_. True) plan_json plan_sha plan_request = Inr weight_plan
   \<and> binding_correct (pb_inputs plan_request) [weight_source_tensor] \<lparr>binding_sources = [weight_source_tensor], binding_target = weight_target\<rparr>
   \<and> plan_missing weight_plan = [''b'']"
  using plan_bindings_sound[OF plan_request_built] plan_request_built by (simp add: weight_plan_def)

text \<open>
  C34. Plans are canonical. Adding the same sources and targets in another order gives the same plan, and if
\<open>serde_json\<close> parses what it wrote, the accepted serialized forms of a plan are exactly the bytes
it is serialized to: these parse, convert, pass every order check and rebuild to the plan itself.
\<close>

theorem plan_canonical:
  assumes b: "plan_build reserved json sha256 b = Inr plan"
    and same: "pb_inputs b' = pb_inputs b" "pb_policy b' = pb_policy b"
      "mset (pb_sources b') = mset (pb_sources b)" "mset (pb_targets b') = mset (pb_targets b)"
    and built: "\<forall>s \<in> set (pb_sources b). \<exists>n shape storage. SourceTensor_new n shape storage = Inr s"
      "\<forall>t \<in> set (pb_targets b). \<exists>tb. target_build tb = Inr t"
    and serde: "\<forall>p out. json_plan p = Some out \<longrightarrow> parse out = Some p"
  shows "plan_build reserved json sha256 b' = Inr plan
    \<and> (from_canonical_json reserved parse json_plan json sha256 bytes = Inr plan \<longleftrightarrow> json_plan plan = Some bytes)"
proof
  show "plan_build reserved json sha256 b' = Inr plan" using plan_build_permuted[OF same] b by simp
  have "from_canonical_json reserved parse json_plan json sha256 bytes = Inr plan" if j: "json_plan plan = Some bytes"
  proof (rule from_canonical_built[where b = b, where plan = plan])
    show "SourceTensor_try_from s = Inr s" if "s \<in> set (pb_sources b)" for s using built(1) that built_source by blast
    show "TargetTensor_try_from t = Inr t" if "t \<in> set (pb_targets b)" for t using built(2) that built_target by blast
  qed (use b j serde in auto)
  then show "from_canonical_json reserved parse json_plan json sha256 bytes = Inr plan \<longleftrightarrow> json_plan plan = Some bytes"
    using from_canonical_exact by blast
qed

theorem plan_canonical_witness:
  "plan_build (\<lambda>_. True) plan_json plan_sha (plan_request\<lparr>pb_targets := [bias_target, weight_target]\<rparr>) = Inr weight_plan
   \<and> from_canonical_json (\<lambda>_. True) (\<lambda>bytes. if bytes = [7] then Some weight_plan else None)
       (\<lambda>p. if p = weight_plan then Some [7] else None) plan_json plan_sha [7] = Inr weight_plan"
proof -
  have "\<forall>s \<in> set (pb_sources plan_request). \<exists>n shape storage. SourceTensor_new n shape storage = Inr s"
    using weight_source_built by (auto simp: plan_request_def)
  moreover have "\<forall>t \<in> set (pb_targets plan_request). \<exists>tb. target_build tb = Inr t"
    using weight_target_built bias_target_built by (auto simp: plan_request_def)
  ultimately show ?thesis
    using plan_canonical[OF plan_request_built, of "plan_request\<lparr>pb_targets := [bias_target, weight_target]\<rparr>"
      "\<lambda>p. if p = weight_plan then Some [7] else None" "\<lambda>bytes. if bytes = [7] then Some weight_plan else None" "[7]"]
    by (simp add: plan_request_def)
qed

text \<open>
  C35. Composition of overlays terminates and is exact. For every accepted alias table each name has one end of its
alias chain and resolution returns it. Building a plan then always returns, and it succeeds exactly when base
names and layer identities are distinct, aliases shadow no base and end at one, every operation resolves to a base
of the right shape, and no base has two operations under the rejecting policy. The plan lists for every base, in name
order, the operations that resolve to it in layer and operation order, and it deserializes to itself.
\<close>

theorem overlay_plans_exact:
  assumes table: "AliasTable_new aliases = Inr table"
  shows "(\<forall>n. \<exists>!b. resolves (alias_entries table) n b)
    \<and> (\<forall>n b. AliasTable_resolve table n = Some b \<longleftrightarrow> resolves (alias_entries table) n b)
    \<and> OverlayPlan_build json sha256 bases table layers policy mode \<noteq> None
    \<and> (OverlayPlan_build json sha256 bases table layers policy mode = Some (Inr plan)
        \<longleftrightarrow> overlay_accepted table bases layers policy
          \<and> overlay_seal json sha256 (overlay_payload table bases layers policy mode) = Inr plan)
    \<and> (OverlayPlan_build json sha256 bases table layers policy mode = Some (Inr plan)
        \<longrightarrow> OverlayPlan_try_from json sha256 plan = Some (Inr plan))"
proof -
  have iff: "AliasTable_resolve table n = Some b \<longleftrightarrow> resolves (alias_entries table) n b" for n b
    by (simp add: AliasTable_resolve_def resolve_loop_iff)
  then have unique: "\<exists>!b. resolves (alias_entries table) n b" for n
    using accepted_resolves[OF table, of n] by (metis option.inject)
  show ?thesis
    by (intro conjI allI impI unique iff OverlayPlan_build_iff[OF table] overlay_rebuilds[OF table])
qed

theorem overlay_plans_exact_witness:
  "resolves (alias_entries sample_table) ''e'' ''w''
    \<and> OverlayPlan_build plan_json plan_sha [sample_base] sample_table [sample_layer] Ordered Lazy = Some (Inr sample_overlay)
    \<and> OverlayPlan_try_from plan_json plan_sha sample_overlay = Some (Inr sample_overlay)
    \<and> map ref_index (overlay_refs (hd (overlay_bindings sample_overlay))) = [0, 1]"
  using overlay_plans_exact[OF sample_table_new, where json = plan_json and ?sha256.0 = plan_sha and bases = "[sample_base]"
      and layers = "[sample_layer]" and policy = Ordered and mode = Lazy and plan = sample_overlay]
    sample_overlay_built sample_resolve by (simp add: sample_overlay_def overlay_ref_def)

text \<open>
  C36. The identity of one overlaid tensor depends on nothing else. For every name that resolves to a base of an
accepted plan the digest is delivered, and it is the hash of the mode, the policy, the base and the
operations on this base with the digests of the files they read: other bases, operations and files
have no influence, and lookups of layers, operations and digests never fail.
\<close>

theorem overlay_digests_local:
  assumes "AliasTable_new aliases = Inr table"
    and "OverlayPlan_build json_plan sha256 bases table layers policy mode = Some (Inr plan)"
    and "\<forall>l \<in> set layers. \<exists>ds ops. OverlayLayer_new json_layer sha256 ds ops = Inr l"
    and "\<forall>l \<in> set layers. \<forall>op \<in> set (layer_operations l). ordinals_countable op"
    and "\<forall>x. json_operation x \<noteq> None" "\<forall>x. json_target x \<noteq> None"
    and "AliasTable_resolve table target = Some (base_name base)" "base \<in> set bases"
  shows "(\<forall>env. target_digest_with_cancellation json_operation json_target sha256 plan target env \<noteq> None)
    \<and> delivers (\<lambda>env. the (target_digest_with_cancellation json_operation json_target sha256 plan target env))
      (\<lambda>d. d = overlay_identity json_operation json_target sha256 mode policy base (operations_on table layers (base_name base)))"
proof (intro conjI allI)
  show "target_digest_with_cancellation json_operation json_target sha256 plan target env \<noteq> None" for env
    by (rule overlay_target_digest(1)[where json_layer = json_layer, OF assms(1,2)]) (use assms(3-8) in auto)
  show "delivers (\<lambda>env. the (target_digest_with_cancellation json_operation json_target sha256 plan target env))
      (\<lambda>d. d = overlay_identity json_operation json_target sha256 mode policy base (operations_on table layers (base_name base)))"
    by (rule overlay_target_digest(2)[where json_layer = json_layer, OF assms(1,2)]) (use assms(3-8) in auto)
qed

theorem overlay_digests_local_witness:
  "delivers (\<lambda>env. the (target_digest_with_cancellation plan_json plan_json plan_sha sample_overlay ''e'' env))
    (\<lambda>d. d = overlay_identity plan_json plan_json plan_sha Lazy Ordered sample_base (map (Pair sample_layer) sample_operations))"
proof -
  have "base_name sample_base = ''w''" by (simp add: sample_base_def)
  then show ?thesis
    using overlay_digests_local[where json_layer = plan_json, OF sample_table_new sample_overlay_built, of plan_json plan_json "''e''" sample_base]
      sample_layer_new sample_countable sample_operations_on sample_resolve(1) by (auto simp: plan_json_def)
qed



text \<open>
  C38. Every tensor of an opened checkpoint is delivered with its name, dtype and shape, and with exactly
the bytes of its span in the file that holds it, copied or mapped in every access mode, whatever
pieces the operating system returns; a name outside the inventory is a binding error.
\<close>

theorem checkpoint_tensors_exact:
  assumes "CheckpointBuilder_open os serde b e = Inr (c, e')" and "faithful os mmap contents b"
  shows "case Inventory_tensor (ck_inventory c) name of
      Some r \<Rightarrow> delivers (tensor_with_cancellation mmap c name)
        (delivered_as r (file_contents contents c (span_file (storage_span (tensor_storage r)))))
    | None \<Rightarrow> tensor_with_cancellation mmap c name e1 = Inl Binding"
  using tensor_delivers[OF CheckpointBuilder_open_wf[OF assms(1)] assms(2)]
  by (auto simp: tensor_with_cancellation_def bindE_def split: option.splits)

theorem checkpoint_tensors_exact_witness:
  "\<exists>d e'. tensor_with_cancellation True tiny_checkpoint ''x'' (tiny_env 1) = Inr (d, e') \<and> as_slice (tensor_bytes d) = [9]"
proof -
  have "delivers (tensor_with_cancellation True tiny_checkpoint ''x'')
      (delivered_as (tiny_tensor ''x'' 2 1) (file_contents (\<lambda>_. tiny_contents) tiny_checkpoint 0))"
    using checkpoint_tensors_exact[OF tiny_open tiny_faithful, of "''x''"]
    by (simp add: tiny_checkpoint_def tiny_lookup) (simp add: tiny_tensor_def storage_span_def)
  moreover have "unlimited (tiny_env 1)" by (simp add: unlimited_def tiny_env_def)
  ultimately obtain d e' where "tensor_with_cancellation True tiny_checkpoint ''x'' (tiny_env 1) = Inr (d, e')"
    "delivered_as (tiny_tensor ''x'' 2 1) tiny_contents d"
    using delivers_unlimited by (fastforce simp: file_contents_def)
  moreover have "slice_of (storage_span (tensor_storage (tiny_tensor ''x'' 2 1))) tiny_contents = [9]"
    using tiny_length by (simp add: slice_of_def tiny_tensor_def storage_span_def tiny_contents_def)
  ultimately show ?thesis by (auto simp: delivered_as_def)
qed

text \<open>
  C39. A checkpoint opened through a local shard index reads only files below the canonical directory of
the index; the index is within all limits, its shards are exactly the files of the checkpoint, and it
says for every tensor, and for no other name, in which file the tensor lies.
\<close>

theorem local_index_confined:
  assumes "from_local_index files canonicalize serde path limits e = Inr (b, e1)"
    and "CheckpointBuilder_open os serde b e2 = Inr (c, e3)"
  shows "\<exists>index root. cb_index b = Some index \<and> wf_shard_index limits index \<and> canonicalize (index_directory path) = Inr root
    \<and> map (\<lambda>f. logical_path (of_source f)) (ck_files c) = ShardIndex_shards index
    \<and> (\<forall>f \<in> set (ck_files c). confined canonicalize root (of_source f))
    \<and> (\<forall>name shard. shard_for index name = Some shard \<longleftrightarrow> (\<exists>t. Inventory_tensor (ck_inventory c) name = Some t
        \<and> logical_path (of_source (ck_files c ! span_file (storage_span (tensor_storage t)))) = shard))"
proof -
  obtain index root where i: "wf_shard_index limits index" "cb_index b = Some index" "canonicalize (index_directory path) = Inr root"
    "map logical_path (cb_sources b) = ShardIndex_shards index" "\<forall>s \<in> set (cb_sources b). confined canonicalize root s"
    using from_local_index_Inr[OF assms(1)] by blast
  have files: "map of_source (ck_files c) = cb_sources b"
    using CheckpointBuilder_open_wf[OF assms(2)] shards_sorted[OF i(4)] by (simp add: wf_checkpoint_def)
  then have "map (\<lambda>f. logical_path (of_source f)) (ck_files c) = ShardIndex_shards index"
    using i(4) by (simp add: files[symmetric] comp_def)
  moreover have "\<forall>f \<in> set (ck_files c). confined canonicalize root (of_source f)" using i(5) by (simp add: files[symmetric])
  moreover have "increasing (weight_map index)" using i(1) by (simp add: wf_shard_index_def)
  ultimately show ?thesis using i(1-3) open_with_index[OF assms(2) i(2)] by blast
qed

theorem local_index_confined_witness:
  "from_local_index tiny_files tiny_canonicalize tiny_serde ''m.json'' ResourceLimits_default (tiny_env 0) = Inr (tiny_builder, tiny_env 0)
   \<and> shard_for tiny_index ''y'' = None \<and> map (\<lambda>f. logical_path (of_source f)) (ck_files tiny_checkpoint) = ShardIndex_shards tiny_index"
proof -
  have "cb_index tiny_builder = Some tiny_index" by (simp add: tiny_builder_def)
  then show ?thesis
    using local_index_confined[OF tiny_local_index tiny_open] tiny_local_index by (auto simp: shard_for_def tiny_index_def)
qed

text \<open>
  C40. The snapshot of an opened checkpoint is the hash of an envelope that determines the path, the size
and the digest of every source in file order, and each of these digests is the hash of the whole
contents, equal to the declared digest when one is verified, or the digest a trusted source declares.
\<close>

theorem snapshot_covers_sources:
  assumes "CheckpointBuilder_open os serde b e = Inr (c, e1)" and "faithful os mmap contents b"
    and "snapshot_id sha256 c e2 = Inr ((s, c'), e3)"
  shows "\<exists>ds. right_digests sha256 contents (ck_files c) ds
    \<and> (let es = snapshot_entries (inventory_files (ck_inventory c)) ds in
        s = ContentDigest_hash sha256 (map of_char ''snapshot-envelope-v1'') [snapshot_envelope es]
      \<and> (\<forall>es'. (\<forall>p \<in> set es' \<union> set es. entry_bounded p) \<and> snapshot_envelope es' = snapshot_envelope es \<longrightarrow> es' = es))"
  using snapshot_covers[OF CheckpointBuilder_open_wf[OF assms(1)] assms(2,3)] snapshot_envelope_inj unfolding Let_def by blast

theorem snapshot_covers_sources_witness:
  "\<exists>s c' e'. snapshot_id (\<lambda>bytes. replicate 32 (of_nat (length bytes))) tiny_checkpoint (tiny_env 1) = Inr ((s, c'), e')
   \<and> (\<exists>ds. right_digests (\<lambda>bytes. replicate 32 (of_nat (length bytes))) (\<lambda>_. tiny_contents) (ck_files tiny_checkpoint) ds)"
proof -
  let ?sha = "\<lambda>bytes :: u8 list. replicate 32 (of_nat (length bytes) :: u8)"
  obtain s c' e' where run: "snapshot_id ?sha tiny_checkpoint (tiny_env 1) = Inr ((s, c'), e')" using tiny_snapshot by blast
  from snapshot_covers_sources[OF tiny_open tiny_faithful this] run show ?thesis by blast
qed

end
